(* ===== verification/Prelude.thy ===== *)
theory Prelude
  imports Main "HOL-Library.Char_ord" "HOL-Library.List_Lexorder"
    "HOL-Library.Product_Lexorder" "HOL-Library.Multiset" "HOL-Library.Code_Target_Nat"
begin

text \<open>
  Shared vocabulary of the development: the byte strings and machine integers of the Rust
  sources, results (\<open>Result<T, E>\<close>) as sums with the \<open>?\<close> operator and the \<open>for\<close> loop that may
  return early, ordered maps, comparison results, binary search, and the list lemmas that the
  component theories share.

  A byte is a \<open>char\<close> (which has exactly 256 values, ordered by its code), so a Rust byte-string
  literal \<open>b"abc"\<close> is written \<open>''abc''\<close> and the derived lexicographic order of \<open>Vec<u8>\<close> and
  \<open>[u8; 32]\<close> is the list order of the library.  Unsigned integers are natural numbers with the
  bound of their width written out in every operation that can leave it; \<open>usize\<close> is 64 bits wide.
\<close>

named_theorems result_simps
named_theorems checked_simps

section \<open>Bytes and machine integers\<close>

type_synonym bytes = string

abbreviation u16_max :: nat where "u16_max \<equiv> 65535"
abbreviation u64_max :: nat where "u64_max \<equiv> 18446744073709551615"
abbreviation u128_max :: nat where "u128_max \<equiv> 340282366920938463463374607431768211455"

text \<open>\<open>checked_add\<close>, \<open>checked_mul\<close>, \<open>saturating_add\<close> and \<open>saturating_mul\<close> of the standard library.\<close>

definition checked_add_u64 :: "nat \<Rightarrow> nat \<Rightarrow> nat option" where
  "checked_add_u64 a b = (if a + b \<le> u64_max then Some (a + b) else None)"

definition checked_mul_u64 :: "nat \<Rightarrow> nat \<Rightarrow> nat option" where
  "checked_mul_u64 a b = (if a * b \<le> u64_max then Some (a * b) else None)"

definition saturating_add_u64 :: "nat \<Rightarrow> nat \<Rightarrow> nat" where
  "saturating_add_u64 a b = min (a + b) u64_max"

definition saturating_mul_u128 :: "nat \<Rightarrow> nat \<Rightarrow> nat" where
  "saturating_mul_u128 a b = min (a * b) u128_max"

definition saturating_add_u16 :: "nat \<Rightarrow> nat \<Rightarrow> nat" where
  "saturating_add_u16 a b = min (a + b) u16_max"

lemma checked_add_u64_Some [checked_simps]:
  "checked_add_u64 a b = Some c \<longleftrightarrow> c = a + b \<and> a + b \<le> u64_max"
  by (auto simp: checked_add_u64_def)

lemma checked_add_u64_None [checked_simps]:
  "checked_add_u64 a b = None \<longleftrightarrow> u64_max < a + b"
  by (auto simp: checked_add_u64_def)

lemma checked_mul_u64_Some [checked_simps]:
  "checked_mul_u64 a b = Some c \<longleftrightarrow> c = a * b \<and> a * b \<le> u64_max"
  by (auto simp: checked_mul_u64_def)

lemma checked_add_u64_fits: "a + b \<le> u64_max \<Longrightarrow> checked_add_u64 a b = Some (a + b)"
  by (simp add: checked_add_u64_def)

lemma checked_mul_u64_fits: "a * b \<le> u64_max \<Longrightarrow> checked_mul_u64 a b = Some (a * b)"
  by (simp add: checked_mul_u64_def)

text \<open>
  \<open>to_le_bytes\<close> for a width in bytes.  A streaming hasher is the bytes it has consumed; finalizing
  it applies SHA-256, a parameter of the model, to them.
\<close>

fun le_bytes :: "nat \<Rightarrow> nat \<Rightarrow> bytes" where
  "le_bytes 0 n = []"
| "le_bytes (Suc w) n = char_of (n mod 256) # le_bytes w (n div 256)"

abbreviation u64_le_bytes :: "nat \<Rightarrow> bytes" where "u64_le_bytes \<equiv> le_bytes 8"
abbreviation u16_le_bytes :: "nat \<Rightarrow> bytes" where "u16_le_bytes \<equiv> le_bytes 2"

lemma length_le_bytes [simp]: "length (le_bytes w n) = w"
  by (induction w arbitrary: n) simp_all

lemma le_bytes_eq_Nil [simp]: "le_bytes w n = [] \<longleftrightarrow> w = 0" "[] = le_bytes w n \<longleftrightarrow> w = 0"
  by (metis length_0_conv length_le_bytes)+

lemma le_bytes_inj: "le_bytes w m = le_bytes w n \<Longrightarrow> m < 256 ^ w \<Longrightarrow> n < 256 ^ w \<Longrightarrow> m = n"
proof (induction w arbitrary: m n)
  case 0
  then show ?case by simp
next
  case (Suc w)
  have "(of_char (char_of (m mod 256)) :: nat) = of_char (char_of (n mod 256))"
    using Suc.prems(1) by simp
  then have "m mod 256 = n mod 256"
    by (simp add: of_char_of)
  moreover have "m div 256 = n div 256"
    using Suc.prems by (intro Suc.IH) (auto simp: div_less_iff_less_mult mult.commute)
  ultimately show ?case by (metis div_mult_mod_eq)
qed

lemma u64_le_bytes_inj: "u64_le_bytes m = u64_le_bytes n \<Longrightarrow> m \<le> u64_max \<Longrightarrow> n \<le> u64_max \<Longrightarrow> m = n"
  by (erule le_bytes_inj) simp_all

section \<open>Results and early return\<close>

type_synonym ('e, 'a) result = "'e + 'a"

text \<open>The \<open>?\<close> operator, \<open>Option::ok_or\<close> and \<open>Result::map_err\<close>.\<close>

definition rbind :: "('e, 'a) result \<Rightarrow> ('a \<Rightarrow> ('e, 'b) result) \<Rightarrow> ('e, 'b) result" where
  "rbind r f = (case r of Inl e \<Rightarrow> Inl e | Inr x \<Rightarrow> f x)"

definition ok_or :: "'e \<Rightarrow> 'a option \<Rightarrow> ('e, 'a) result" where
  "ok_or e x = (case x of None \<Rightarrow> Inl e | Some y \<Rightarrow> Inr y)"

definition map_err :: "('e \<Rightarrow> 'f) \<Rightarrow> ('e, 'a) result \<Rightarrow> ('f, 'a) result" where
  "map_err f r = (case r of Inl e \<Rightarrow> Inl (f e) | Inr x \<Rightarrow> Inr x)"

lemma rbind_simps [simp]: "rbind (Inl e) f = Inl e" "rbind (Inr x) f = f x"
  by (simp_all add: rbind_def)

lemma rbind_cong [fundef_cong]:
  "r = r' \<Longrightarrow> (\<And>x. r' = Inr x \<Longrightarrow> f x = f' x) \<Longrightarrow> rbind r f = rbind r' f'"
  by (cases r') simp_all

lemma rbind_Inr [result_simps]: "rbind r f = Inr y \<longleftrightarrow> (\<exists>x. r = Inr x \<and> f x = Inr y)"
  by (cases r) auto

lemma rbind_Inl [result_simps]:
  "rbind r f = Inl e \<longleftrightarrow> r = Inl e \<or> (\<exists>x. r = Inr x \<and> f x = Inl e)"
  by (cases r) auto

lemma ok_or_simps [simp]: "ok_or e None = Inl e" "ok_or e (Some x) = Inr x"
  by (simp_all add: ok_or_def)

lemma ok_or_Inr [result_simps]: "ok_or e x = Inr y \<longleftrightarrow> x = Some y"
  by (cases x) auto

lemma ok_or_Inl [result_simps]: "ok_or e x = Inl e' \<longleftrightarrow> x = None \<and> e' = e"
  by (cases x) auto

lemma map_err_simps [simp]: "map_err f (Inl e) = Inl (f e)" "map_err f (Inr x) = Inr x"
  by (simp_all add: map_err_def)

lemma map_err_Inr [result_simps]: "map_err f r = Inr y \<longleftrightarrow> r = Inr y"
  by (cases r) auto

lemma map_err_Inl [result_simps]: "map_err f r = Inl e \<longleftrightarrow> (\<exists>e'. r = Inl e' \<and> e = f e')"
  by (cases r) auto

text \<open>Indexing that panics out of range, with the value that stands for the panic.\<close>

definition nth_or :: "'e \<Rightarrow> 'a list \<Rightarrow> nat \<Rightarrow> ('e, 'a) result" where
  "nth_or panic xs i = (if i < length xs then Inr (xs ! i) else Inl panic)"

lemma nth_or_Inr [result_simps]: "nth_or panic xs i = Inr x \<longleftrightarrow> i < length xs \<and> x = xs ! i"
  by (auto simp: nth_or_def)

lemma nth_or_nth [simp]: "i < length xs \<Longrightarrow> nth_or panic xs i = Inr (xs ! i)"
  by (simp add: nth_or_def)

text \<open>A \<open>for\<close> loop over a collection whose body may leave the function with an error.\<close>

fun rfold :: "('s \<Rightarrow> 'a \<Rightarrow> ('e, 's) result) \<Rightarrow> 's \<Rightarrow> 'a list \<Rightarrow> ('e, 's) result" where
  "rfold f s [] = Inr s"
| "rfold f s (x # xs) = rbind (f s x) (\<lambda>s'. rfold f s' xs)"

lemma rfold_append: "rfold f s (xs @ ys) = rbind (rfold f s xs) (\<lambda>s'. rfold f s' ys)"
  by (induction xs arbitrary: s) (auto simp: rbind_def split: sum.splits)

text \<open>The loop rule: an invariant over the already visited prefix.\<close>

lemma rfold_invariant:
  assumes "rfold f s xs = Inr s'"
    and "P [] s"
    and "\<And>ys y t t'. P ys t \<Longrightarrow> y \<in> set xs \<Longrightarrow> f t y = Inr t' \<Longrightarrow> P (ys @ [y]) t'"
  shows "P xs s'"
  using assms
proof (induction xs arbitrary: s' rule: rev_induct)
  case Nil
  then show ?case by simp
next
  case (snoc y ys)
  from snoc.prems(1) obtain t where t: "rfold f s ys = Inr t" and step: "f t y = Inr s'"
    by (auto simp: rfold_append result_simps)
  have "P ys t"
    using t snoc.prems(2,3) by (intro snoc.IH) auto
  then show ?case
    using step snoc.prems(3) by simp
qed

text \<open>The loop rule for success: every step from a reached state succeeds.\<close>

lemma rfold_progress:
  assumes "P [] s"
    and "\<And>ys y zs t. xs = ys @ y # zs \<Longrightarrow> P ys t \<Longrightarrow> \<exists>t'. f t y = Inr t' \<and> P (ys @ [y]) t'"
  shows "\<exists>s'. rfold f s xs = Inr s' \<and> P xs s'"
  using assms
proof (induction xs rule: rev_induct)
  case Nil
  then show ?case by simp
next
  case (snoc y ys)
  have "\<exists>t. rfold f s ys = Inr t \<and> P ys t"
    using snoc.prems by (intro snoc.IH) auto
  then obtain t where "rfold f s ys = Inr t" "P ys t" by blast
  with snoc.prems(2) [of ys y "[]" t] show ?case by (auto simp: rfold_append)
qed

text \<open>The loop rule for failure: the step that failed, from a reached state.\<close>

lemma rfold_Inl:
  assumes "rfold f s xs = Inl e"
  obtains ys y zs t where "xs = ys @ y # zs" and "rfold f s ys = Inr t" and "f t y = Inl e"
proof -
  have "\<exists>ys y zs t. xs = ys @ y # zs \<and> rfold f s ys = Inr t \<and> f t y = Inl e"
    using assms
  proof (induction xs arbitrary: s)
    case (Cons x xs)
    show ?case
    proof (cases "f s x")
      case (Inl e')
      then show ?thesis using Cons.prems by (intro exI [of _ "[]"]) simp
    next
      case (Inr s')
      then have "rfold f s' xs = Inl e" using Cons.prems by simp
      then obtain ys y zs t where "xs = ys @ y # zs" "rfold f s' ys = Inr t" "f t y = Inl e"
        using Cons.IH by blast
      then show ?thesis using Inr by (intro exI [of _ "x # ys"]) auto
    qed
  qed simp
  then show thesis using that by blast
qed

section \<open>Comparison results\<close>

text \<open>\<open>std::cmp::Ordering\<close> with \<open>cmp\<close> and \<open>then_with\<close>.\<close>

datatype ordering = OLess | OEqual | OGreater

definition cmp :: "'a::linorder \<Rightarrow> 'a \<Rightarrow> ordering" where
  "cmp a b = (if a < b then OLess else if a = b then OEqual else OGreater)"

fun then_with :: "ordering \<Rightarrow> ordering \<Rightarrow> ordering" where
  "then_with OEqual o2 = o2"
| "then_with o1 o2 = o1"

lemma cmp_OGreater [simp]: "cmp a b = OGreater \<longleftrightarrow> b < a"
  by (auto simp: cmp_def)

lemma then_with_OGreater [simp]:
  "then_with a b = OGreater \<longleftrightarrow> a = OGreater \<or> a = OEqual \<and> b = OGreater"
  by (cases a) auto

lemma cmp_OEqual [simp]: "cmp a b = OEqual \<longleftrightarrow> a = b"
  by (auto simp: cmp_def)

section \<open>Ordered maps\<close>

text \<open>
  A \<open>BTreeMap\<close> is the list of its entries in key order: \<open>get\<close> is \<open>map_of\<close>, \<open>len\<close> is \<open>length\<close>,
  iteration is the list itself, \<open>insert\<close> replaces or inserts at the key's place.
\<close>

type_synonym ('k, 'v) btree_map = "('k \<times> 'v) list"

fun bt_insert :: "'k::linorder \<Rightarrow> 'v \<Rightarrow> ('k, 'v) btree_map \<Rightarrow> ('k, 'v) btree_map" where
  "bt_insert k v [] = [(k, v)]"
| "bt_insert k v ((k', v') # m) =
     (if k' < k then (k', v') # bt_insert k v m
      else if k' = k then (k, v) # m
      else (k, v) # (k', v') # m)"

definition bt_remove :: "'k \<Rightarrow> ('k, 'v) btree_map \<Rightarrow> ('k, 'v) btree_map" where
  "bt_remove k m = filter (\<lambda>e. fst e \<noteq> k) m"

definition bt_ordered :: "('k::linorder, 'v) btree_map \<Rightarrow> bool" where
  "bt_ordered m \<longleftrightarrow> sorted_wrt (<) (map fst m)"

text \<open>The contract of an ordered map that the components rely on.\<close>

locale ordered_map =
  fixes empty :: 'm
    and get :: "'m \<Rightarrow> 'k \<Rightarrow> 'v option"
    and put :: "'k \<Rightarrow> 'v \<Rightarrow> 'm \<Rightarrow> 'm"
    and drop_key :: "'k \<Rightarrow> 'm \<Rightarrow> 'm"
    and invar :: "'m \<Rightarrow> bool"
  assumes get_empty: "get empty = Map.empty"
    and get_put: "get (put k v m) = (get m)(k \<mapsto> v)"
    and get_drop: "get (drop_key k m) = (get m)(k := None)"
    and invar_empty: "invar empty"
    and invar_put: "invar m \<Longrightarrow> invar (put k v m)"
    and invar_drop: "invar m \<Longrightarrow> invar (drop_key k m)"
begin

lemma put_same: "get (put k v m) k = Some v"
  by (simp add: get_put)

lemma put_other: "k' \<noteq> k \<Longrightarrow> get (put k v m) k' = get m k'"
  by (simp add: get_put)

text \<open>Filling a map from a list of fresh keys keeps every entry.\<close>

lemma fold_put_get:
  assumes "distinct (map fst kvs)" and "(k, v) \<in> set kvs"
  shows "get (fold (\<lambda>(k, v). put k v) kvs m) k = Some v"
  using assms
proof (induction kvs arbitrary: m rule: rev_induct)
  case Nil
  then show ?case by simp
next
  case (snoc kv kvs)
  then show ?case
    by (cases kv) (force simp: get_put)
qed

lemma fold_put_other:
  "k \<notin> fst ` set kvs \<Longrightarrow> get (fold (\<lambda>(k, v). put k v) kvs m) k = get m k"
  by (induction kvs arbitrary: m) (auto simp: get_put split: prod.splits)

lemma fold_put_invar: "invar m \<Longrightarrow> invar (fold (\<lambda>(k, v). put k v) kvs m)"
  by (induction kvs arbitrary: m) (auto simp: invar_put split: prod.splits)

end

lemma map_of_bt_insert [simp]: "map_of (bt_insert k v m) = (map_of m)(k \<mapsto> v)"
  by (induction m) (auto simp: fun_eq_iff)

lemma map_of_bt_remove [simp]: "map_of (bt_remove k m) = (map_of m)(k := None)"
  by (induction m) (auto simp: fun_eq_iff bt_remove_def)

lemma set_bt_insert_fst: "fst ` set (bt_insert k v m) = insert k (fst ` set m)"
  by (simp flip: dom_map_of_conv_image_fst)

lemma bt_ordered_Nil [simp]: "bt_ordered []"
  by (simp add: bt_ordered_def)

lemma bt_ordered_insert: "bt_ordered m \<Longrightarrow> bt_ordered (bt_insert k v m)"
proof (induction m)
  case Nil
  then show ?case by (simp add: bt_ordered_def)
next
  case (Cons e m)
  then show ?case
    using set_bt_insert_fst [of k v m] by (cases e) (fastforce simp: bt_ordered_def)
qed

lemma bt_ordered_filter: "bt_ordered m \<Longrightarrow> bt_ordered (filter P m)"
  by (induction m) (auto simp: bt_ordered_def)

lemma bt_ordered_distinct: "bt_ordered m \<Longrightarrow> distinct (map fst m)"
  by (simp add: bt_ordered_def strict_sorted_iff)

interpretation bt: ordered_map "[]" map_of bt_insert bt_remove bt_ordered
  by unfold_locales (auto simp: bt_ordered_insert bt_ordered_filter bt_remove_def
      map_of_bt_remove [unfolded bt_remove_def])

lemma length_bt_insert_fresh: "map_of m k = None \<Longrightarrow> length (bt_insert k v m) = Suc (length m)"
  by (induction m) (auto split: if_splits)

section \<open>Binary search\<close>

text \<open>
  \<open>slice::binary_search_by_key\<close>: bisection of the window from \<open>lo\<close> to \<open>hi\<close>.  On a slice sorted
  by the key without repetition it finds the element with the key if there is one.
\<close>

function bisect :: "('a \<Rightarrow> 'k::linorder) \<Rightarrow> 'a list \<Rightarrow> 'k \<Rightarrow> nat \<Rightarrow> nat \<Rightarrow> nat option" where
  "bisect f xs k lo hi =
     (if lo < hi then
        (let mid = lo + (hi - lo) div 2 in
         if f (xs ! mid) = k then Some mid
         else if f (xs ! mid) < k then bisect f xs k (Suc mid) hi
         else bisect f xs k lo mid)
      else None)"
  by pat_completeness auto
termination
  by (relation "measure (\<lambda>(f, xs, k, lo, hi). hi - lo)") auto

declare bisect.simps [simp del]

definition binary_search_by_key :: "('a \<Rightarrow> 'k::linorder) \<Rightarrow> 'a list \<Rightarrow> 'k \<Rightarrow> nat option" where
  "binary_search_by_key f xs k = bisect f xs k 0 (length xs)"

lemma bisect_sound: "bisect f xs k lo hi = Some i \<Longrightarrow> lo \<le> i \<and> i < hi \<and> f (xs ! i) = k"
proof (induction f xs k lo hi rule: bisect.induct)
  case (1 f xs k lo hi)
  have "lo < hi"
    using "1.prems" by (auto simp: bisect.simps [of f xs k lo hi] split: if_splits)
  with 1 show ?case
    by (fastforce simp: bisect.simps [of f xs k lo hi] Let_def split: if_splits)
qed

lemma bisect_complete:
  "sorted_wrt (<) (map f xs) \<Longrightarrow> hi \<le> length xs \<Longrightarrow> lo \<le> i \<Longrightarrow> i < hi \<Longrightarrow> f (xs ! i) = k \<Longrightarrow>
   bisect f xs k lo hi = Some i"
proof (induction f xs k lo hi rule: bisect.induct)
  case (1 f xs k lo hi)
  define mid where "mid = lo + (hi - lo) div 2"
  have mid: "lo \<le> mid" "mid < hi" "lo < hi" using "1.prems" by (auto simp: mid_def)
  have lt: "f (xs ! a) < f (xs ! b)" if "a < b" "b < hi" for a b
    using sorted_wrt_nth_less [OF "1.prems"(1), of a b] that "1.prems"(2) by simp
  have unfold: "bisect f xs k lo hi = (if f (xs ! mid) = k then Some mid
         else if f (xs ! mid) < k then bisect f xs k (Suc mid) hi else bisect f xs k lo mid)"
    using mid by (simp add: bisect.simps [of f xs k lo hi] mid_def Let_def)
  consider "i < mid" | "i = mid" | "mid < i" by linarith
  then show ?case
  proof cases
    case 1
    with lt [of i mid] mid "1.prems"(5) have "k < f (xs ! mid)" by simp
    with "1.IH"(2) [OF mid(3) mid_def] "1.prems" 1 mid show ?thesis by (auto simp: unfold)
  next
    case 2
    with "1.prems"(5) show ?thesis by (simp add: unfold)
  next
    case 3
    with lt [of mid i] "1.prems"(4,5) have "f (xs ! mid) < k" by simp
    with "1.IH"(1) [OF mid(3) mid_def] "1.prems" 3 show ?thesis by (auto simp: unfold)
  qed
qed

lemma binary_search_by_key_Some:
  assumes "sorted_wrt (<) (map f xs)"
  shows "binary_search_by_key f xs k = Some i \<longleftrightarrow> i < length xs \<and> f (xs ! i) = k"
  using bisect_sound [of f xs k 0 "length xs" i] bisect_complete [OF assms, of "length xs" 0 i k]
  by (auto simp: binary_search_by_key_def)

lemma binary_search_by_key_None:
  assumes "sorted_wrt (<) (map f xs)"
  shows "binary_search_by_key f xs k = None \<longleftrightarrow> k \<notin> f ` set xs"
proof -
  have "binary_search_by_key f xs k \<noteq> None \<longleftrightarrow> (\<exists>i < length xs. f (xs ! i) = k)"
    using binary_search_by_key_Some [OF assms, of k] by auto
  moreover have "(\<exists>i < length xs. f (xs ! i) = k) \<longleftrightarrow> k \<in> f ` set xs"
    by (force simp: set_conv_nth)
  ultimately show ?thesis by blast
qed

lemma binary_search_by_key_mem:
  "binary_search_by_key f xs k = Some i \<Longrightarrow> i < length xs \<and> f (xs ! i) = k"
  using bisect_sound [of f xs k 0 "length xs" i] by (simp add: binary_search_by_key_def)

section \<open>Lists\<close>

text \<open>A \<open>BTreeSet\<close> collected from a list, as its elements in order.\<close>

definition btree_set :: "'a::linorder list \<Rightarrow> 'a list" where
  "btree_set xs = sort (remdups xs)"

lemma btree_set_facts [simp]: "set (btree_set xs) = set xs" "sorted_wrt (<) (btree_set xs)" "distinct (btree_set xs)"
  by (simp_all add: btree_set_def strict_sorted_iff)

lemma btree_set_id: "sorted_wrt (<) xs \<Longrightarrow> btree_set xs = xs"
  by (simp add: btree_set_def strict_sorted_iff distinct_remdups_id sorted_sort_id)

text \<open>\<open>slice::windows(2).any(|pair| pair[0] == pair[1])\<close> on a key.\<close>

fun has_adjacent_dup :: "('a \<Rightarrow> 'k) \<Rightarrow> 'a list \<Rightarrow> bool" where
  "has_adjacent_dup f (x # y # zs) = (f x = f y \<or> has_adjacent_dup f (y # zs))"
| "has_adjacent_dup f _ = False"

lemma sorted_no_adjacent_dup:
  fixes f :: "'a \<Rightarrow> 'k::linorder"
  shows "sorted (map f xs) \<Longrightarrow> \<not> has_adjacent_dup f xs \<longleftrightarrow> sorted_wrt (<) (map f xs)"
proof (induction f xs rule: has_adjacent_dup.induct)
  case (1 f x y zs)
  then show ?case
    by (cases "f x = f y") (auto dest: order_le_less_trans simp: less_le)
qed simp_all

text \<open>\<open>iter().position(p)\<close>.\<close>

fun position_of :: "('a \<Rightarrow> bool) \<Rightarrow> 'a list \<Rightarrow> nat option" where
  "position_of P [] = None"
| "position_of P (x # xs) = (if P x then Some 0 else map_option Suc (position_of P xs))"

lemma position_of_Some: "position_of P xs = Some i \<Longrightarrow> i < length xs \<and> P (xs ! i)"
  by (induction xs arbitrary: i) (auto split: if_splits)

lemma position_of_None: "position_of P xs = None \<longleftrightarrow> (\<forall>x \<in> set xs. \<not> P x)"
  by (induction xs) auto

lemma position_of_unique:
  assumes "distinct (map f xs)" and "i < length xs"
  shows "position_of (\<lambda>x. f x = f (xs ! i)) xs = Some i"
  using assms
proof (induction xs arbitrary: i)
  case Nil
  then show ?case by simp
next
  case (Cons x xs)
  then show ?case
    by (cases i) (auto simp: image_iff)
qed

text \<open>Sorting by a key without repetition does not depend on the input order.\<close>

lemma sort_key_perm_eq:
  fixes f :: "'a \<Rightarrow> 'k::linorder"
  assumes "mset xs = mset ys" and "distinct (map f xs)"
  shows "sort_key f xs = sort_key f ys"
proof (rule map_inj_on)
  have "inj_on f (set xs)" using assms(2) by (simp add: distinct_map)
  then show "inj_on f (set (sort_key f xs) \<union> set (sort_key f ys))"
    using mset_eq_setD [OF assms(1)] by simp
  have "mset (map f (sort_key f xs)) = mset (map f (sort_key f ys))"
    using assms(1) by simp
  then show "map f (sort_key f xs) = map f (sort_key f ys)"
    by (metis properties_for_sort sorted_sort_key)
qed

lemma sum_list_perm:
  fixes f :: "'a \<Rightarrow> nat"
  assumes "mset xs = mset ys"
  shows "(\<Sum>x\<leftarrow>xs. f x) = (\<Sum>y\<leftarrow>ys. f y)"
proof -
  have "mset (map f xs) = mset (map f ys)" using assms by simp
  then show ?thesis by (metis sum_mset_sum_list)
qed

lemma distinct_map_perm:
  assumes "mset xs = mset ys"
  shows "distinct (map f xs) = distinct (map f ys)"
proof -
  have "mset (map f xs) = mset (map f ys)" using assms by simp
  then show ?thesis by (rule mset_eq_imp_distinct_iff)
qed

text \<open>Positions in an enumerated list and keys of association lists.\<close>

lemma enumerate_split:
  assumes "enumerate 0 es = ys @ y # zs"
  shows "y = (length ys, es ! length ys)" and "length ys < length es" and "map snd ys = take (length ys) es"
proof -
  have len: "length es = length ys + Suc (length zs)"
    using assms by (metis length_append length_Cons length_enumerate)
  then show "length ys < length es" by simp
  then have "enumerate 0 es ! length ys = (length ys, es ! length ys)"
    by (simp add: nth_enumerate_eq)
  then show "y = (length ys, es ! length ys)" using assms by simp
  have "map snd ys = take (length ys) (map snd (enumerate 0 es))" using assms by simp
  then show "map snd ys = take (length ys) es" by simp
qed

lemma map_of_keys: "distinct (map fst xs) \<Longrightarrow> map (\<lambda>k. (k, the (map_of xs k))) (map fst xs) = xs"
proof (rule nth_equalityI)
  fix i
  assume *: "distinct (map fst xs)" and "i < length (map (\<lambda>k. (k, the (map_of xs k))) (map fst xs))"
  then have i: "i < length xs" by simp
  then have "map_of xs (fst (xs ! i)) = Some (snd (xs ! i))"
    using * by (intro map_of_is_SomeI) simp_all
  with i show "map (\<lambda>k. (k, the (map_of xs k))) (map fst xs) ! i = xs ! i" by simp
qed simp

lemma length_map_filter: "length (List.map_filter f xs) = length (filter (\<lambda>x. f x \<noteq> None) xs)"
  by (simp add: List.map_filter_def)

lemma enumerate_snoc: "enumerate 0 (xs @ [x]) = enumerate 0 xs @ [(length xs, x)]"
  by (simp add: enumerate_append_eq)

text \<open>Indexes built by one pass: key to position, and member to position of its group.\<close>

lemma index_fold:
  "distinct (map f xs) \<Longrightarrow> map_of (fold (\<lambda>(k, x). bt_insert (f x) k) (enumerate 0 xs) []) key = Some k \<longleftrightarrow>
     k < length xs \<and> f (xs ! k) = key"
proof (induction xs arbitrary: k rule: rev_induct)
  case (snoc x xs)
  have "f (xs ! i) \<noteq> f x" if "i < length xs" for i
    using snoc.prems that by (force simp: image_iff dest: nth_mem)
  with snoc show ?case by (auto simp: enumerate_snoc nth_append less_Suc_eq)
qed simp

lemma map_of_fold_const: "map_of (fold (\<lambda>e. bt_insert e k) es m) e = (if e \<in> set es then Some k else map_of m e)"
  by (induction es arbitrary: m) auto

lemma group_index_fold:
  "distinct (concat (map g xs)) \<Longrightarrow>
   map_of (fold (\<lambda>(k, x) m. fold (\<lambda>e. bt_insert e k) (g x) m) (enumerate 0 xs) []) e = Some k \<longleftrightarrow>
     k < length xs \<and> e \<in> set (g (xs ! k))"
proof (induction xs arbitrary: k rule: rev_induct)
  case (snoc x xs)
  have "e \<notin> set (g (xs ! i))" if "i < length xs" "e \<in> set (g x)" for i
    using snoc.prems that by (auto simp: disjoint_iff dest: nth_mem)
  with snoc show ?case by (auto simp: enumerate_snoc map_of_fold_const nth_append less_Suc_eq)
qed simp

lemma mset_concat_perm:
  assumes "mset xs = mset ys"
  shows "mset (concat (map f xs)) = mset (concat (map f ys))"
proof -
  have "mset (map (\<lambda>x. mset (f x)) xs) = mset (map (\<lambda>x. mset (f x)) ys)" using assms by simp
  then have "sum_list (map (\<lambda>x. mset (f x)) xs) = sum_list (map (\<lambda>x. mset (f x)) ys)" by (metis sum_mset_sum_list)
  then show ?thesis by (simp add: mset_concat comp_def)
qed

end
