(* ===== verification/Select_Types.thy ===== *)
theory Select_Types
  imports Prelude
begin

text \<open>
  The value types of the packet selector (\<open>crates/evidentrail-select/src/types.rs\<close>): facets,
  affinities, intact packets, token costs and their checked constructors.  SHA-256 is a
  parameter.  The predicates \<open>facet_ok\<close>, \<open>packet_ok\<close> collect what the private fields of
  the Rust types guarantee; the constructors are shown to establish them.
\<close>

section \<open>Constants and enumerations\<close>

definition AFFINITY_SCALE_V1 :: nat where "AFFINITY_SCALE_V1 = 1000000"
definition PROVIDER_RELATION_ENDPOINT_WEIGHT_MICROS_V1 :: nat where
  "PROVIDER_RELATION_ENDPOINT_WEIGHT_MICROS_V1 = AFFINITY_SCALE_V1 div 2"
definition MAX_SELECTION_PACKETS_V1 :: nat where "MAX_SELECTION_PACKETS_V1 = 4096"
definition MAX_SELECTION_FACETS_V1 :: nat where "MAX_SELECTION_FACETS_V1 = 4096"
definition MAX_PACKET_EVENTS_V1 :: nat where "MAX_PACKET_EVENTS_V1 = 4096"
definition MAX_SELECTION_EVENTS_V1 :: nat where "MAX_SELECTION_EVENTS_V1 = 65536"
definition MAX_MANDATORY_PACKETS_V1 :: nat where "MAX_MANDATORY_PACKETS_V1 = 64"
definition COVERAGE_ONLY_OPTIONAL_BUDGET_DENOMINATOR_V1 :: nat where
  "COVERAGE_ONLY_OPTIONAL_BUDGET_DENOMINATOR_V1 = 8"
definition MAX_FACET_SEMANTIC_KEY_BYTES_V1 :: nat where
  "MAX_FACET_SEMANTIC_KEY_BYTES_V1 = 64 * 1024"
definition JSON_SAFE_INTEGER_MAX :: nat where "JSON_SAFE_INTEGER_MAX = 9007199254740991"

lemmas select_const_defs = AFFINITY_SCALE_V1_def PROVIDER_RELATION_ENDPOINT_WEIGHT_MICROS_V1_def
  MAX_SELECTION_PACKETS_V1_def MAX_SELECTION_FACETS_V1_def MAX_PACKET_EVENTS_V1_def
  MAX_SELECTION_EVENTS_V1_def MAX_MANDATORY_PACKETS_V1_def
  COVERAGE_ONLY_OPTIONAL_BUDGET_DENOMINATOR_V1_def MAX_FACET_SEMANTIC_KEY_BYTES_V1_def
  JSON_SAFE_INTEGER_MAX_def

datatype ProductionFacetKindV1 =
    ValidatedQueryIdentifier | QueryTerm | FailureRole | OnsetRole | SourceCoverageStratum
  | ServiceCoverageStratum | TimeCoverageStratum | ValidatedTypedChange
  | ProviderAttestedGraphRelation | ReconstructionRiskCoverage

datatype FacetSaturationCardinalityV1 = One | Two

fun saturation_count :: "FacetSaturationCardinalityV1 \<Rightarrow> nat" where
  "saturation_count One = 1"
| "saturation_count Two = 2"

fun facet_kind_code :: "ProductionFacetKindV1 \<Rightarrow> bytes" where
  "facet_kind_code ValidatedQueryIdentifier = ''validated_query_identifier''"
| "facet_kind_code QueryTerm = ''query_term''"
| "facet_kind_code FailureRole = ''failure_role''"
| "facet_kind_code OnsetRole = ''onset_role''"
| "facet_kind_code SourceCoverageStratum = ''source_coverage_stratum''"
| "facet_kind_code ServiceCoverageStratum = ''service_coverage_stratum''"
| "facet_kind_code TimeCoverageStratum = ''time_coverage_stratum''"
| "facet_kind_code ValidatedTypedChange = ''validated_typed_change''"
| "facet_kind_code ProviderAttestedGraphRelation = ''provider_attested_graph_relation''"
| "facet_kind_code ReconstructionRiskCoverage = ''reconstruction_risk_coverage''"

text \<open>The declaration order, which \<open>derive(PartialOrd, Ord)\<close> makes the order of the type.\<close>

fun facet_kind_rank :: "ProductionFacetKindV1 \<Rightarrow> nat" where
  "facet_kind_rank ValidatedQueryIdentifier = 0"
| "facet_kind_rank QueryTerm = 1"
| "facet_kind_rank FailureRole = 2"
| "facet_kind_rank OnsetRole = 3"
| "facet_kind_rank SourceCoverageStratum = 4"
| "facet_kind_rank ServiceCoverageStratum = 5"
| "facet_kind_rank TimeCoverageStratum = 6"
| "facet_kind_rank ValidatedTypedChange = 7"
| "facet_kind_rank ProviderAttestedGraphRelation = 8"
| "facet_kind_rank ReconstructionRiskCoverage = 9"

lemma facet_kind_rank_inj: "facet_kind_rank a = facet_kind_rank b \<Longrightarrow> a = b"
  by (cases a; cases b) simp_all

instantiation ProductionFacetKindV1 :: linorder
begin

definition less_eq_ProductionFacetKindV1 where
  "(a :: ProductionFacetKindV1) \<le> b \<longleftrightarrow> facet_kind_rank a \<le> facet_kind_rank b"

definition less_ProductionFacetKindV1 where
  "(a :: ProductionFacetKindV1) < b \<longleftrightarrow> facet_kind_rank a < facet_kind_rank b"

instance
  by standard (auto simp: less_eq_ProductionFacetKindV1_def less_ProductionFacetKindV1_def
      intro: facet_kind_rank_inj)

end

fun is_coverage_only :: "ProductionFacetKindV1 \<Rightarrow> bool" where
  "is_coverage_only SourceCoverageStratum = True"
| "is_coverage_only ServiceCoverageStratum = True"
| "is_coverage_only TimeCoverageStratum = True"
| "is_coverage_only _ = False"

fun saturation_cardinality :: "ProductionFacetKindV1 \<Rightarrow> FacetSaturationCardinalityV1" where
  "saturation_cardinality ProviderAttestedGraphRelation = Two"
| "saturation_cardinality _ = One"

section \<open>Checked fixed-point values and token counts\<close>

datatype FixedPointConstructionError = FixedPoint_Zero | FixedPoint_AboveUnitScale

definition FacetWeightV1_new :: "nat \<Rightarrow> (FixedPointConstructionError, nat) result" where
  "FacetWeightV1_new micros =
     (if micros = 0 then Inl FixedPoint_Zero
      else if micros > AFFINITY_SCALE_V1 then Inl FixedPoint_AboveUnitScale
      else Inr micros)"

definition AffinityV1_new :: "nat \<Rightarrow> (FixedPointConstructionError, nat) result" where
  "AffinityV1_new micros =
     (if micros = 0 then Inl FixedPoint_Zero
      else if micros > AFFINITY_SCALE_V1 then Inl FixedPoint_AboveUnitScale
      else Inr micros)"

datatype TokenValueConstructionError = ZeroCost | AboveJsonSafeInteger

type_synonym ComposableCostModelV1 = bytes

record ComposablePacketCostV1 =
  cost_model :: ComposableCostModelV1
  upper_bound_tokens :: nat

definition ComposablePacketCostV1_new ::
  "ComposableCostModelV1 \<Rightarrow> nat \<Rightarrow> (TokenValueConstructionError, ComposablePacketCostV1) result" where
  "ComposablePacketCostV1_new model tokens =
     (if tokens = 0 then Inl ZeroCost
      else if tokens > JSON_SAFE_INTEGER_MAX then Inl AboveJsonSafeInteger
      else Inr \<lparr>cost_model = model, upper_bound_tokens = tokens\<rparr>)"

record ReservedFixedOverheadV1 =
  overhead_cost_model :: ComposableCostModelV1
  overhead_tokens :: nat

definition ReservedFixedOverheadV1_new ::
  "ComposableCostModelV1 \<Rightarrow> nat \<Rightarrow> (TokenValueConstructionError, ReservedFixedOverheadV1) result" where
  "ReservedFixedOverheadV1_new model tokens =
     (if tokens > JSON_SAFE_INTEGER_MAX then Inl AboveJsonSafeInteger
      else Inr \<lparr>overhead_cost_model = model, overhead_tokens = tokens\<rparr>)"

type_synonym TotalTokenBudgetV1 = nat

definition TotalTokenBudgetV1_new :: "nat \<Rightarrow> (TokenValueConstructionError, TotalTokenBudgetV1) result" where
  "TotalTokenBudgetV1_new tokens =
     (if tokens > JSON_SAFE_INTEGER_MAX then Inl AboveJsonSafeInteger else Inr tokens)"

section \<open>Facets, affinities and intact packets\<close>

type_synonym FacetIdV1 = bytes
type_synonym PacketIdV1 = bytes

record ProductionFacetV1 =
  facet_id :: FacetIdV1
  facet_kind :: ProductionFacetKindV1
  facet_weight :: nat

datatype FacetConstructionError =
  EmptySemanticKey | SemanticKeyTooLarge | InvalidProviderRelationWeight

text \<open>The length-framed hash input of the selector.\<close>

definition update_hash_field :: "bytes \<Rightarrow> bytes \<Rightarrow> bytes" where
  "update_hash_field hasher value =
     hasher @ u64_le_bytes (if length value \<le> u64_max then length value else u64_max) @ value"

definition ProductionFacetV1_new ::
  "(bytes \<Rightarrow> bytes) \<Rightarrow> ProductionFacetKindV1 \<Rightarrow> bytes \<Rightarrow> nat \<Rightarrow>
   (FacetConstructionError, ProductionFacetV1) result" where
  "ProductionFacetV1_new sha256 kind canonical_semantic_key weight =
     (if canonical_semantic_key = [] then Inl EmptySemanticKey
      else if length canonical_semantic_key > MAX_FACET_SEMANTIC_KEY_BYTES_V1
        then Inl SemanticKeyTooLarge
      else if kind = ProviderAttestedGraphRelation
          \<and> weight \<noteq> PROVIDER_RELATION_ENDPOINT_WEIGHT_MICROS_V1
        then Inl InvalidProviderRelationWeight
      else let hasher = ''evidentrail/select/facet/v1'' @ [CHR 0x00];
               hasher = update_hash_field hasher (facet_kind_code kind);
               hasher = update_hash_field hasher canonical_semantic_key
           in Inr \<lparr>facet_id = sha256 hasher, facet_kind = kind, facet_weight = weight\<rparr>)"

record FacetAffinityV1 =
  affinity_facet :: FacetIdV1
  affinity_micros :: nat

datatype PacketConstructionError =
    EmptyEventSet | TooManyPacketEvents | DuplicateEvent | EmptyAffinitySet
  | TooManyAffinities | DuplicateFacetAffinity

record IntactPacketV1 =
  packet_id :: PacketIdV1
  event_ids :: "bytes list"
  packet_cost :: ComposablePacketCostV1
  affinities :: "FacetAffinityV1 list"

definition IntactPacketV1_new ::
  "PacketIdV1 \<Rightarrow> bytes list \<Rightarrow> ComposablePacketCostV1 \<Rightarrow> FacetAffinityV1 list \<Rightarrow>
   (PacketConstructionError, IntactPacketV1) result" where
  "IntactPacketV1_new pid evs cost affs =
     (if evs = [] then Inl EmptyEventSet
      else if length evs > MAX_PACKET_EVENTS_V1 then Inl TooManyPacketEvents
      else let evs = sort evs in
      if has_adjacent_dup (\<lambda>e. e) evs then Inl DuplicateEvent
      else if affs = [] then Inl EmptyAffinitySet
      else if length affs > MAX_SELECTION_FACETS_V1 then Inl TooManyAffinities
      else let affs = sort_key affinity_facet affs in
      if has_adjacent_dup affinity_facet affs then Inl DuplicateFacetAffinity
      else Inr \<lparr>packet_id = pid, event_ids = evs, packet_cost = cost, affinities = affs\<rparr>)"

text \<open>\<open>IntactPacketV1::affinity_for\<close>.\<close>

definition affinity_for :: "IntactPacketV1 \<Rightarrow> FacetIdV1 \<Rightarrow> nat option" where
  "affinity_for packet fid =
     map_option (\<lambda>index. affinity_micros (affinities packet ! index))
       (binary_search_by_key affinity_facet (affinities packet) fid)"

record MandatoryPacketV1 =
  mandatory_packet_id :: PacketIdV1
  validated_identifier_facet_id :: FacetIdV1

abbreviation packet_tokens :: "IntactPacketV1 \<Rightarrow> nat" where
  "packet_tokens packet \<equiv> upper_bound_tokens (packet_cost packet)"

section \<open>What the constructors guarantee\<close>

definition affinity_ok :: "FacetAffinityV1 \<Rightarrow> bool" where
  "affinity_ok a \<longleftrightarrow> 0 < affinity_micros a \<and> affinity_micros a \<le> AFFINITY_SCALE_V1"

definition cost_ok :: "ComposablePacketCostV1 \<Rightarrow> bool" where
  "cost_ok c \<longleftrightarrow> 0 < upper_bound_tokens c \<and> upper_bound_tokens c \<le> JSON_SAFE_INTEGER_MAX"

definition facet_ok :: "ProductionFacetV1 \<Rightarrow> bool" where
  "facet_ok f \<longleftrightarrow> 0 < facet_weight f \<and> facet_weight f \<le> AFFINITY_SCALE_V1"

definition packet_ok :: "IntactPacketV1 \<Rightarrow> bool" where
  "packet_ok p \<longleftrightarrow>
     event_ids p \<noteq> [] \<and> length (event_ids p) \<le> MAX_PACKET_EVENTS_V1
     \<and> sorted_wrt (<) (event_ids p) \<and> cost_ok (packet_cost p)
     \<and> affinities p \<noteq> [] \<and> length (affinities p) \<le> MAX_SELECTION_FACETS_V1
     \<and> sorted_wrt (<) (map affinity_facet (affinities p))
     \<and> (\<forall>a \<in> set (affinities p). affinity_ok a)"

lemma AffinityV1_new_ok: "AffinityV1_new m = Inr x \<Longrightarrow> affinity_ok \<lparr>affinity_facet = f, affinity_micros = x\<rparr>"
  by (auto simp: AffinityV1_new_def affinity_ok_def split: if_splits)

lemma ComposablePacketCostV1_new_ok: "ComposablePacketCostV1_new model n = Inr c \<Longrightarrow> cost_ok c"
  by (auto simp: ComposablePacketCostV1_new_def cost_ok_def split: if_splits)

lemma ProductionFacetV1_new_ok:
  assumes "FacetWeightV1_new m = Inr w" and "ProductionFacetV1_new sha256 kind key w = Inr f"
  shows "facet_ok f \<and> facet_kind f = kind \<and> facet_weight f = w"
  using assms
  by (auto simp: FacetWeightV1_new_def ProductionFacetV1_new_def facet_ok_def Let_def split: if_splits)

lemma IntactPacketV1_new_ok:
  assumes "IntactPacketV1_new pid evs cost affs = Inr p"
    and "cost_ok cost" and "\<forall>a \<in> set affs. affinity_ok a"
  shows "packet_ok p"
proof -
  have ev: "\<not> has_adjacent_dup (\<lambda>e. e) (sort evs)"
    and af: "\<not> has_adjacent_dup affinity_facet (sort_key affinity_facet affs)"
    using assms(1) by (auto simp: IntactPacketV1_new_def Let_def split: if_splits)
  have "sorted_wrt (<) (sort evs)"
    using ev sorted_no_adjacent_dup [of "\<lambda>e. e" "sort evs"] by simp
  moreover have "sorted_wrt (<) (map affinity_facet (sort_key affinity_facet affs))"
    using af sorted_no_adjacent_dup [of affinity_facet "sort_key affinity_facet affs"] by simp
  moreover have "sort evs \<noteq> []" "sort_key affinity_facet affs \<noteq> []"
    "length evs \<le> MAX_PACKET_EVENTS_V1" "length affs \<le> MAX_SELECTION_FACETS_V1"
    and p: "p = \<lparr>packet_id = pid, event_ids = sort evs, packet_cost = cost,
        affinities = sort_key affinity_facet affs\<rparr>"
    using assms(1)
    by (auto simp: IntactPacketV1_new_def Let_def split: if_splits dest: arg_cong [of _ "[]" length])
  ultimately show ?thesis
    using assms(2,3) by (simp add: packet_ok_def)
qed

end
