(* ===== verification/Select_Problem.thy ===== *)
theory Select_Problem
  imports Select_Types
begin

text \<open>
  The selector (\<open>crates/evidentrail-select/src/problem.rs\<close>), definitions only: construction of a
  canonical selection problem, the facility-coverage objective, and the three entry points
  \<open>select\<close>, \<open>select_with_optional_priorities\<close> and \<open>select_in_optional_order\<close>.  Their
  properties are in \<open>Select_Objective\<close> and \<open>Select_Plan\<close>.
\<close>

section \<open>Construction of the canonical problem\<close>

datatype SelectionProblemConstructionError =
    TooManyPackets | TooManyFacets | TooManyEvents | TooManyMandatoryPackets | DuplicatePacketId
  | DuplicateFacetId | OverlappingEvent | UnknownAffinityFacet | CostModelMismatch
  | DuplicateMandatoryPacket | UnknownMandatoryPacket | UnknownMandatoryFacet
  | MandatoryFacetNotValidatedIdentifier | MandatoryPacketLacksIdentifierAffinity
  | UniverseTokenCostOverflow | ObjectiveBoundOverflow

record SelectionProblemV1 =
  problem_facets :: "ProductionFacetV1 list"
  problem_packets :: "IntactPacketV1 list"
  problem_mandatory :: "MandatoryPacketV1 list"
  problem_budget :: TotalTokenBudgetV1
  problem_overhead :: ReservedFixedOverheadV1
  problem_mandatory_cost :: nat

text \<open>The loops of \<open>SelectionProblemV1::new\<close>, one definition per loop body.\<close>

definition objective_bound_step ::
  "nat \<Rightarrow> ProductionFacetV1 \<Rightarrow> (SelectionProblemConstructionError, nat) result" where
  "objective_bound_step objective_bound facet =
     rbind (ok_or ObjectiveBoundOverflow
         (Option.bind (checked_mul_u64 (facet_weight facet) AFFINITY_SCALE_V1) (\<lambda>value.
            checked_mul_u64 value (saturation_count (saturation_cardinality (facet_kind facet))))))
       (\<lambda>maximum_contribution.
         ok_or ObjectiveBoundOverflow (checked_add_u64 objective_bound maximum_contribution))"

definition packet_id_step ::
  "PacketIdV1 set \<Rightarrow> IntactPacketV1 \<Rightarrow> (SelectionProblemConstructionError, PacketIdV1 set) result" where
  "packet_id_step packet_ids packet =
     (if packet_id packet \<in> packet_ids then Inl DuplicatePacketId
      else Inr (insert (packet_id packet) packet_ids))"

definition event_step ::
  "bytes set \<Rightarrow> bytes \<Rightarrow> (SelectionProblemConstructionError, bytes set) result" where
  "event_step all_events event_id =
     (if event_id \<in> all_events then Inl OverlappingEvent
      else let all_events = insert event_id all_events in
        if card all_events > MAX_SELECTION_EVENTS_V1 then Inl TooManyEvents else Inr all_events)"

definition affinity_step ::
  "ProductionFacetV1 list \<Rightarrow> unit \<Rightarrow> FacetAffinityV1 \<Rightarrow>
   (SelectionProblemConstructionError, unit) result" where
  "affinity_step fs u affinity =
     (if binary_search_by_key facet_id fs (affinity_facet affinity) = None
      then Inl UnknownAffinityFacet else Inr ())"

definition universe_step ::
  "ProductionFacetV1 list \<Rightarrow> ReservedFixedOverheadV1 \<Rightarrow> bytes set \<times> nat \<Rightarrow> IntactPacketV1 \<Rightarrow>
   (SelectionProblemConstructionError, bytes set \<times> nat) result" where
  "universe_step fs overhead state packet =
     (case state of (all_events, universe_token_cost) \<Rightarrow>
       if cost_model (packet_cost packet) \<noteq> overhead_cost_model overhead
       then Inl CostModelMismatch
       else rbind (ok_or UniverseTokenCostOverflow
                (checked_add_u64 universe_token_cost (packet_tokens packet)))
         (\<lambda>universe_token_cost.
           rbind (rfold event_step all_events (event_ids packet)) (\<lambda>all_events.
             rbind (rfold (affinity_step fs) () (affinities packet)) (\<lambda>_.
               Inr (all_events, universe_token_cost)))))"

definition mandatory_step ::
  "ProductionFacetV1 list \<Rightarrow> IntactPacketV1 list \<Rightarrow> (PacketIdV1, nat) btree_map \<Rightarrow>
   PacketIdV1 set \<times> nat \<Rightarrow> MandatoryPacketV1 \<Rightarrow>
   (SelectionProblemConstructionError, PacketIdV1 set \<times> nat) result" where
  "mandatory_step fs ps packet_positions state entry =
     (case state of (mandatory_packet_ids, mandatory_cost) \<Rightarrow>
       if mandatory_packet_id entry \<in> mandatory_packet_ids then Inl DuplicateMandatoryPacket
       else rbind (ok_or UnknownMandatoryPacket
                (map_of packet_positions (mandatory_packet_id entry))) (\<lambda>packet_index.
         rbind (ok_or UnknownMandatoryFacet
             (binary_search_by_key facet_id fs (validated_identifier_facet_id entry)))
           (\<lambda>facet_index.
             if facet_kind (fs ! facet_index) \<noteq> ValidatedQueryIdentifier
             then Inl MandatoryFacetNotValidatedIdentifier
             else if affinity_for (ps ! packet_index) (validated_identifier_facet_id entry) = None
             then Inl MandatoryPacketLacksIdentifierAffinity
             else rbind (ok_or UniverseTokenCostOverflow
                 (checked_add_u64 mandatory_cost (packet_tokens (ps ! packet_index))))
               (\<lambda>mandatory_cost.
                 Inr (insert (mandatory_packet_id entry) mandatory_packet_ids, mandatory_cost)))))"

definition packet_positions_of :: "IntactPacketV1 list \<Rightarrow> (PacketIdV1, nat) btree_map" where
  "packet_positions_of ps =
     fold (\<lambda>(k, v). bt_insert k v) (map (\<lambda>(i, packet). (packet_id packet, i)) (enumerate 0 ps)) []"

definition mandatory_position :: "(PacketIdV1, nat) btree_map \<Rightarrow> MandatoryPacketV1 \<Rightarrow> nat" where
  "mandatory_position packet_positions entry =
     (case map_of packet_positions (mandatory_packet_id entry) of
        None \<Rightarrow> u64_max | Some position \<Rightarrow> position)"

definition SelectionProblemV1_new ::
  "ProductionFacetV1 list \<Rightarrow> IntactPacketV1 list \<Rightarrow> MandatoryPacketV1 list \<Rightarrow>
   TotalTokenBudgetV1 \<Rightarrow> ReservedFixedOverheadV1 \<Rightarrow>
   (SelectionProblemConstructionError, SelectionProblemV1) result" where
  "SelectionProblemV1_new fs ps ms budget overhead =
     (if length fs > MAX_SELECTION_FACETS_V1 then Inl TooManyFacets
      else let fs = sort_key facet_id fs in
      if has_adjacent_dup facet_id fs then Inl DuplicateFacetId
      else rbind (rfold objective_bound_step 0 fs) (\<lambda>objective_bound.
      if length ps > MAX_SELECTION_PACKETS_V1 then Inl TooManyPackets
      else rbind (rfold packet_id_step {} ps) (\<lambda>packet_ids.
      let ps = sort_key event_ids ps;
          packet_positions = packet_positions_of ps
      in rbind (rfold (universe_step fs overhead) ({}, 0) ps) (\<lambda>_.
      if length ms > MAX_MANDATORY_PACKETS_V1 then Inl TooManyMandatoryPackets
      else rbind (rfold (mandatory_step fs ps packet_positions) ({}, 0) ms)
        (\<lambda>(mandatory_packet_ids, mandatory_cost).
          Inr \<lparr>problem_facets = fs, problem_packets = ps,
               problem_mandatory = sort_key (mandatory_position packet_positions) ms,
               problem_budget = budget, problem_overhead = overhead,
               problem_mandatory_cost = mandatory_cost\<rparr>)))))"

definition available_packet_budget :: "SelectionProblemV1 \<Rightarrow> nat" where
  "available_packet_budget problem =
     problem_budget problem - overhead_tokens (problem_overhead problem)"

section \<open>Lookups\<close>

definition facet_index :: "SelectionProblemV1 \<Rightarrow> FacetIdV1 \<Rightarrow> nat option" where
  "facet_index problem fid = binary_search_by_key facet_id (problem_facets problem) fid"

definition packet_index :: "SelectionProblemV1 \<Rightarrow> PacketIdV1 \<Rightarrow> nat option" where
  "packet_index problem pid =
     position_of (\<lambda>packet. packet_id packet = pid) (problem_packets problem)"

definition is_mandatory :: "SelectionProblemV1 \<Rightarrow> PacketIdV1 \<Rightarrow> bool" where
  "is_mandatory problem pid \<longleftrightarrow>
     list_ex (\<lambda>entry. mandatory_packet_id entry = pid) (problem_mandatory problem)"

section \<open>Facility coverage\<close>

record FacetCoverageV1 =
  largest_affinity :: nat
  second_largest_affinity :: nat

definition FacetCoverageV1_default :: FacetCoverageV1 where
  "FacetCoverageV1_default = \<lparr>largest_affinity = 0, second_largest_affinity = 0\<rparr>"

fun apply_affinity ::
  "FacetCoverageV1 \<Rightarrow> nat \<Rightarrow> FacetSaturationCardinalityV1 \<Rightarrow> FacetCoverageV1" where
  "apply_affinity c affinity One = c\<lparr>largest_affinity := max (largest_affinity c) affinity\<rparr>"
| "apply_affinity c affinity Two =
     (if affinity \<ge> largest_affinity c
      then c\<lparr>second_largest_affinity := largest_affinity c, largest_affinity := affinity\<rparr>
      else if affinity > second_largest_affinity c
      then c\<lparr>second_largest_affinity := affinity\<rparr>
      else c)"

fun total_affinity :: "FacetCoverageV1 \<Rightarrow> FacetSaturationCardinalityV1 \<Rightarrow> nat" where
  "total_affinity c One = largest_affinity c"
| "total_affinity c Two = largest_affinity c + second_largest_affinity c"

definition marginal_affinity ::
  "FacetCoverageV1 \<Rightarrow> nat \<Rightarrow> FacetSaturationCardinalityV1 \<Rightarrow> nat" where
  "marginal_affinity c affinity cardinality =
     total_affinity (apply_affinity c affinity cardinality) cardinality
       - total_affinity c cardinality"

record MarginalScore =
  score_gain :: nat
  score_coverage_only :: bool

text \<open>The loop of \<open>marginal_score\<close>: the running gain and whether a primary facet gained.\<close>

fun marginal_loop ::
  "SelectionProblemV1 \<Rightarrow> FacetCoverageV1 list \<Rightarrow> nat \<times> bool \<Rightarrow> FacetAffinityV1 list \<Rightarrow>
   (nat \<times> bool) option" where
  "marginal_loop problem coverage acc [] = Some acc"
| "marginal_loop problem coverage (gain, has_primary_gain) (a # as) =
     (case facet_index problem (affinity_facet a) of
        None \<Rightarrow> None
      | Some i \<Rightarrow>
         (let facet = problem_facets problem ! i;
              delta = marginal_affinity (coverage ! i) (affinity_micros a)
                        (saturation_cardinality (facet_kind facet))
          in if delta = 0 then marginal_loop problem coverage (gain, has_primary_gain) as
             else Option.bind (checked_mul_u64 (facet_weight facet) delta) (\<lambda>contribution.
               Option.bind (checked_add_u64 gain contribution) (\<lambda>gain.
                 marginal_loop problem coverage
                   (gain, has_primary_gain
                      \<or> contribution > 0 \<and> \<not> is_coverage_only (facet_kind facet)) as))))"

definition marginal_score ::
  "SelectionProblemV1 \<Rightarrow> FacetCoverageV1 list \<Rightarrow> IntactPacketV1 \<Rightarrow> MarginalScore option" where
  "marginal_score problem coverage packet =
     map_option (\<lambda>(gain, has_primary_gain).
         \<lparr>score_gain = gain, score_coverage_only = (gain > 0 \<and> \<not> has_primary_gain)\<rparr>)
       (marginal_loop problem coverage (0, False) (affinities packet))"

definition marginal_gain ::
  "SelectionProblemV1 \<Rightarrow> FacetCoverageV1 list \<Rightarrow> IntactPacketV1 \<Rightarrow> nat option" where
  "marginal_gain problem coverage packet = map_option score_gain (marginal_score problem coverage packet)"

definition apply_facet_affinity ::
  "SelectionProblemV1 \<Rightarrow> FacetAffinityV1 \<Rightarrow> FacetCoverageV1 list \<Rightarrow> FacetCoverageV1 list" where
  "apply_facet_affinity problem a coverage =
     (case facet_index problem (affinity_facet a) of
        None \<Rightarrow> coverage
      | Some i \<Rightarrow> coverage[i := apply_affinity (coverage ! i) (affinity_micros a)
            (saturation_cardinality (facet_kind (problem_facets problem ! i)))])"

definition apply_packet ::
  "SelectionProblemV1 \<Rightarrow> FacetCoverageV1 list \<Rightarrow> IntactPacketV1 \<Rightarrow> FacetCoverageV1 list" where
  "apply_packet problem coverage packet =
     fold (apply_facet_affinity problem) (affinities packet) coverage"

definition mandatory_coverage :: "SelectionProblemV1 \<Rightarrow> FacetCoverageV1 list" where
  "mandatory_coverage problem =
     fold (\<lambda>entry coverage.
         case packet_index problem (mandatory_packet_id entry) of
           None \<Rightarrow> coverage
         | Some i \<Rightarrow> apply_packet problem coverage (problem_packets problem ! i))
       (problem_mandatory problem)
       (replicate (length (problem_facets problem)) FacetCoverageV1_default)"

section \<open>Evaluating a packet set\<close>

datatype ObjectiveEvaluationError =
  UnknownPacket | DuplicatePacket | MandatoryPacketIncluded | ObjectiveArithmeticInvariantViolation

definition optional_id_step ::
  "SelectionProblemV1 \<Rightarrow> PacketIdV1 set \<times> nat list \<Rightarrow> PacketIdV1 \<Rightarrow>
   (ObjectiveEvaluationError, PacketIdV1 set \<times> nat list) result" where
  "optional_id_step problem state pid =
     (case state of (seen, indices) \<Rightarrow>
       if pid \<in> seen then Inl DuplicatePacket
       else if is_mandatory problem pid then Inl MandatoryPacketIncluded
       else rbind (ok_or UnknownPacket (packet_index problem pid)) (\<lambda>i.
         Inr (insert pid seen, indices @ [i])))"

definition gain_step ::
  "SelectionProblemV1 \<Rightarrow> FacetCoverageV1 list \<times> nat \<Rightarrow> nat \<Rightarrow>
   (unit, FacetCoverageV1 list \<times> nat) result" where
  "gain_step problem state i =
     (case state of (coverage, total_gain) \<Rightarrow>
       let packet = problem_packets problem ! i in
       rbind (ok_or () (marginal_gain problem coverage packet)) (\<lambda>gain.
         rbind (ok_or () (checked_add_u64 total_gain gain)) (\<lambda>total_gain.
           Inr (apply_packet problem coverage packet, total_gain))))"

definition normalized_gain ::
  "SelectionProblemV1 \<Rightarrow> PacketIdV1 list \<Rightarrow> (ObjectiveEvaluationError, nat) result" where
  "normalized_gain problem optional_packet_ids =
     rbind (rfold (optional_id_step problem) ({}, []) optional_packet_ids) (\<lambda>(seen, indices).
       rbind (map_err (\<lambda>_. ObjectiveArithmeticInvariantViolation)
           (rfold (gain_step problem) (mandatory_coverage problem, 0) (sort indices)))
         (\<lambda>(coverage, total_gain). Inr total_gain))"

section \<open>Candidate plans\<close>

datatype SelectionInvariantError = ArithmeticInvariantViolation

datatype SelectionStrategyV1 = MandatoryOnly | DensityGreedy | BestSingle | ExternalOrderBudgetPack

record ScoredCandidate =
  cand_index :: nat
  cand_gain :: nat
  cand_bonus :: nat
  cand_coverage_only :: bool

record CandidatePlan =
  plan_strategy :: SelectionStrategyV1
  plan_items :: "nat list"
  plan_gain :: nat
  plan_cost :: nat
  plan_coverage_only_cost :: nat

definition OPTIONAL_PRIORITY_MAX_GAIN_DENOMINATOR_V1 :: nat where
  "OPTIONAL_PRIORITY_MAX_GAIN_DENOMINATOR_V1 = 100000000"

definition priority_bonus_v1 :: "PacketIdV1 \<Rightarrow> nat \<Rightarrow> (PacketIdV1, nat) btree_map \<Rightarrow> nat" where
  "priority_bonus_v1 pid marginal priorities =
     (let affinity = (case map_of priorities pid of None \<Rightarrow> 0 | Some a \<Rightarrow> a);
          bonus = saturating_mul_u128 marginal affinity div OPTIONAL_PRIORITY_MAX_GAIN_DENOMINATOR_V1
      in if bonus \<le> u64_max then bonus else u64_max)"

definition density_candidate_is_better ::
  "ScoredCandidate \<Rightarrow> ScoredCandidate \<Rightarrow> IntactPacketV1 list \<Rightarrow> bool" where
  "density_candidate_is_better candidate current ps =
     (let candidate_cost = packet_tokens (ps ! cand_index candidate);
          current_cost = packet_tokens (ps ! cand_index current);
          candidate_assisted_gain = saturating_add_u64 (cand_gain candidate) (cand_bonus candidate);
          current_assisted_gain = saturating_add_u64 (cand_gain current) (cand_bonus current);
          left = candidate_assisted_gain * current_cost;
          right = current_assisted_gain * candidate_cost
      in case cmp left right of
           OGreater \<Rightarrow> True
         | OLess \<Rightarrow> False
         | OEqual \<Rightarrow>
             then_with (cmp candidate_assisted_gain current_assisted_gain)
               (then_with (cmp (cand_gain candidate) (cand_gain current))
                 (then_with (cmp current_cost candidate_cost)
                   (cmp (cand_index current) (cand_index candidate)))) = OGreater)"

definition single_candidate_is_better ::
  "ScoredCandidate \<Rightarrow> ScoredCandidate \<Rightarrow> IntactPacketV1 list \<Rightarrow> bool" where
  "single_candidate_is_better candidate current ps \<longleftrightarrow>
     then_with (cmp (saturating_add_u64 (cand_gain candidate) (cand_bonus candidate))
                    (saturating_add_u64 (cand_gain current) (cand_bonus current)))
       (then_with (cmp (cand_gain candidate) (cand_gain current))
         (then_with (cmp (packet_tokens (ps ! cand_index current))
                         (packet_tokens (ps ! cand_index candidate)))
           (cmp (cand_index current) (cand_index candidate)))) = OGreater"

definition plan_is_better :: "CandidatePlan \<Rightarrow> CandidatePlan \<Rightarrow> bool" where
  "plan_is_better candidate current =
     (case cmp (plan_gain candidate) (plan_gain current) of
        OGreater \<Rightarrow> True | OLess \<Rightarrow> False
      | OEqual \<Rightarrow>
         (case cmp (plan_cost current) (plan_cost candidate) of
            OGreater \<Rightarrow> True | OLess \<Rightarrow> False
          | OEqual \<Rightarrow> sort (plan_items candidate) < sort (plan_items current)))"

text \<open>
  The inner \<open>for\<close> loop of \<open>density_greedy\<close> and \<open>best_single\<close>: \<open>skip i packet\<close> is the first
  \<open>continue\<close>, \<open>remaining_coverage_only\<close> guards the second, \<open>better\<close> is the comparison.
\<close>

definition scan_step ::
  "SelectionProblemV1 \<Rightarrow> FacetCoverageV1 list \<Rightarrow> (nat \<Rightarrow> IntactPacketV1 \<Rightarrow> bool) \<Rightarrow> nat \<Rightarrow>
   (PacketIdV1, nat) btree_map \<Rightarrow>
   (ScoredCandidate \<Rightarrow> ScoredCandidate \<Rightarrow> IntactPacketV1 list \<Rightarrow> bool) \<Rightarrow>
   ScoredCandidate option \<Rightarrow> nat \<times> IntactPacketV1 \<Rightarrow>
   (SelectionInvariantError, ScoredCandidate option) result" where
  "scan_step problem coverage skip remaining_coverage_only priority_map better best entry =
     (case entry of (i, packet) \<Rightarrow>
       if skip i packet then Inr best
       else rbind (ok_or ArithmeticInvariantViolation (marginal_score problem coverage packet))
         (\<lambda>marginal.
           if score_gain marginal = 0
             \<or> score_coverage_only marginal \<and> packet_tokens packet > remaining_coverage_only
           then Inr best
           else let candidate = \<lparr>cand_index = i, cand_gain = score_gain marginal,
                  cand_bonus = priority_bonus_v1 (packet_id packet) (score_gain marginal) priority_map,
                  cand_coverage_only = score_coverage_only marginal\<rparr>
                in case best of
                     None \<Rightarrow> Inr (Some candidate)
                   | Some current \<Rightarrow>
                       Inr (Some (if better candidate current (problem_packets problem)
                                  then candidate else current))))"

definition scan_best ::
  "SelectionProblemV1 \<Rightarrow> FacetCoverageV1 list \<Rightarrow> (nat \<Rightarrow> IntactPacketV1 \<Rightarrow> bool) \<Rightarrow> nat \<Rightarrow>
   (PacketIdV1, nat) btree_map \<Rightarrow>
   (ScoredCandidate \<Rightarrow> ScoredCandidate \<Rightarrow> IntactPacketV1 list \<Rightarrow> bool) \<Rightarrow>
   (SelectionInvariantError, ScoredCandidate option) result" where
  "scan_best problem coverage skip remaining_coverage_only priority_map better =
     rfold (scan_step problem coverage skip remaining_coverage_only priority_map better) None
       (enumerate 0 (problem_packets problem))"

lemma scan_best_sound:
  assumes "scan_best problem coverage skip rc pm better = Inr (Some c)"
  shows "cand_index c < length (problem_packets problem)
    \<and> \<not> skip (cand_index c) (problem_packets problem ! cand_index c)"
proof -
  let ?P = "\<lambda>(_ :: (nat \<times> IntactPacketV1) list) best. \<forall>c. best = Some c \<longrightarrow>
      cand_index c < length (problem_packets problem)
    \<and> \<not> skip (cand_index c) (problem_packets problem ! cand_index c)"
  have "?P (enumerate 0 (problem_packets problem)) (Some c)"
    by (rule rfold_invariant [OF assms [unfolded scan_best_def]])
      (auto simp: scan_step_def result_simps Let_def in_set_enumerate_eq
        split: if_splits option.splits)
  then show ?thesis by simp
qed

section \<open>Density greedy and best single\<close>

record GreedyState =
  greedy_coverage :: "FacetCoverageV1 list"
  greedy_chosen :: "bool list"
  greedy_remaining :: nat
  greedy_remaining_coverage_only :: nat
  greedy_items :: "nat list"
  greedy_gain :: nat
  greedy_cost :: nat
  greedy_coverage_only_cost :: nat

text \<open>
  \<open>chosen[packet_index]\<close>.  An index outside the vector (a panic in Rust) counts as chosen; the
  vector has one entry per packet, so such an index is never read.
\<close>

definition is_chosen :: "bool list \<Rightarrow> nat \<Rightarrow> bool" where
  "is_chosen chosen i \<longleftrightarrow> (i < length chosen \<longrightarrow> chosen ! i)"

definition greedy_scan ::
  "SelectionProblemV1 \<Rightarrow> (PacketIdV1, nat) btree_map \<Rightarrow> GreedyState \<Rightarrow>
   (SelectionInvariantError, ScoredCandidate option) result" where
  "greedy_scan problem priority_map st =
     scan_best problem (greedy_coverage st)
       (\<lambda>i packet. is_chosen (greedy_chosen st) i \<or> packet_tokens packet > greedy_remaining st)
       (greedy_remaining_coverage_only st) priority_map density_candidate_is_better"

text \<open>What one iteration does with the best candidate.\<close>

definition greedy_take ::
  "SelectionProblemV1 \<Rightarrow> ScoredCandidate \<Rightarrow> GreedyState \<Rightarrow>
   (SelectionInvariantError, GreedyState) result" where
  "greedy_take problem best st =
     (let packet = problem_packets problem ! cand_index best;
          cost = packet_tokens packet
      in rbind (if cand_coverage_only best
            then ok_or ArithmeticInvariantViolation
                   (checked_add_u64 (greedy_coverage_only_cost st) cost)
            else Inr (greedy_coverage_only_cost st)) (\<lambda>coverage_only_token_cost.
         rbind (ok_or ArithmeticInvariantViolation (checked_add_u64 (greedy_cost st) cost))
           (\<lambda>token_cost.
             rbind (ok_or ArithmeticInvariantViolation
                 (checked_add_u64 (greedy_gain st) (cand_gain best))) (\<lambda>total_gain.
               Inr \<lparr>greedy_coverage = apply_packet problem (greedy_coverage st) packet,
                    greedy_chosen = (greedy_chosen st)[cand_index best := True],
                    greedy_remaining = greedy_remaining st - cost,
                    greedy_remaining_coverage_only =
                      (if cand_coverage_only best then greedy_remaining_coverage_only st - cost
                       else greedy_remaining_coverage_only st),
                    greedy_items = greedy_items st @ [cand_index best],
                    greedy_gain = total_gain, greedy_cost = token_cost,
                    greedy_coverage_only_cost = coverage_only_token_cost\<rparr>))))"

lemma filter_Not_list_update_less:
  assumes "i < length bs" and "\<not> bs ! i"
  shows "length (filter Not (bs[i := True])) < length (filter Not bs)"
proof -
  have "filter Not bs = filter Not (take i bs) @ False # filter Not (drop (Suc i) bs)"
    using assms id_take_nth_drop [of i bs] by (metis (full_types) filter.simps(2) filter_append)
  moreover have "filter Not (bs[i := True]) = filter Not (take i bs) @ filter Not (drop (Suc i) bs)"
    using assms by (simp add: upd_conv_take_nth_drop)
  ultimately show ?thesis by simp
qed

function density_greedy_loop ::
  "SelectionProblemV1 \<Rightarrow> (PacketIdV1, nat) btree_map \<Rightarrow> GreedyState \<Rightarrow>
   (SelectionInvariantError, GreedyState) result" where
  "density_greedy_loop problem priority_map st =
     rbind (greedy_scan problem priority_map st) (\<lambda>best.
       case best of
         None \<Rightarrow> Inr st
       | Some best \<Rightarrow>
           rbind (greedy_take problem best st) (\<lambda>st. density_greedy_loop problem priority_map st))"
  by pat_completeness auto
termination
proof (relation "measure (\<lambda>(problem, pm, st). length (filter Not (greedy_chosen st)))", goal_cases)
  case 1
  then show ?case by simp
next
  case (2 problem pm st best b st')
  have "\<not> is_chosen (greedy_chosen st) (cand_index b)"
    using 2(1,2) scan_best_sound unfolding greedy_scan_def by blast
  moreover have "greedy_chosen st' = (greedy_chosen st)[cand_index b := True]"
    using 2(3) by (auto simp: greedy_take_def Let_def result_simps split: if_splits)
  ultimately show ?case
    using filter_Not_list_update_less by (auto simp: is_chosen_def)
qed

declare density_greedy_loop.simps [simp del]

definition mark_mandatory ::
  "SelectionProblemV1 \<Rightarrow> bool list \<Rightarrow> MandatoryPacketV1 \<Rightarrow>
   (SelectionInvariantError, bool list) result" where
  "mark_mandatory problem chosen entry =
     rbind (ok_or ArithmeticInvariantViolation (packet_index problem (mandatory_packet_id entry)))
       (\<lambda>i. Inr (chosen[i := True]))"

definition density_greedy ::
  "SelectionProblemV1 \<Rightarrow> FacetCoverageV1 list \<Rightarrow> nat \<Rightarrow> nat \<Rightarrow> (PacketIdV1, nat) btree_map \<Rightarrow>
   (SelectionInvariantError, CandidatePlan) result" where
  "density_greedy problem baseline optional_budget coverage_only_token_limit priority_map =
     rbind (rfold (mark_mandatory problem) (replicate (length (problem_packets problem)) False)
         (problem_mandatory problem)) (\<lambda>chosen.
       rbind (density_greedy_loop problem priority_map
           \<lparr>greedy_coverage = baseline, greedy_chosen = chosen,
            greedy_remaining = optional_budget,
            greedy_remaining_coverage_only = coverage_only_token_limit,
            greedy_items = [], greedy_gain = 0, greedy_cost = 0, greedy_coverage_only_cost = 0\<rparr>)
         (\<lambda>st. Inr \<lparr>plan_strategy = (if greedy_items st = [] then MandatoryOnly else DensityGreedy),
                   plan_items = greedy_items st, plan_gain = greedy_gain st,
                   plan_cost = greedy_cost st,
                   plan_coverage_only_cost = greedy_coverage_only_cost st\<rparr>))"

definition best_single ::
  "SelectionProblemV1 \<Rightarrow> FacetCoverageV1 list \<Rightarrow> nat \<Rightarrow> nat \<Rightarrow> (PacketIdV1, nat) btree_map \<Rightarrow>
   (SelectionInvariantError, CandidatePlan option) result" where
  "best_single problem baseline optional_budget coverage_only_token_limit priority_map =
     rbind (scan_best problem baseline
         (\<lambda>i packet. is_mandatory problem (packet_id packet) \<or> packet_tokens packet > optional_budget)
         coverage_only_token_limit priority_map single_candidate_is_better) (\<lambda>best.
       Inr (map_option (\<lambda>best.
         let cost = packet_tokens (problem_packets problem ! cand_index best) in
         \<lparr>plan_strategy = BestSingle, plan_items = [cand_index best], plan_gain = cand_gain best,
          plan_cost = cost,
          plan_coverage_only_cost = (if cand_coverage_only best then cost else 0)\<rparr>) best))"

section \<open>The selection decision\<close>

datatype SelectNeedsMoreReasonV1 =
  FixedOverheadExceedsTotalBudget | MandatoryCostExceedsAvailablePacketBudget

record NeedsMoreSelectionV1 =
  needs_reason :: SelectNeedsMoreReasonV1
  needs_fixed_overhead :: nat
  needs_mandatory_cost :: nat
  needs_budget :: TotalTokenBudgetV1
  needs_mandatory_count :: nat

datatype SelectionConstraintV1 =
    MandatoryValidatedIdentifier FacetIdV1
  | Constraint_DensityGreedy | Constraint_BestSingle | Constraint_ExternalOrderBudgetPack

record SelectedPacketV1 =
  selected_packet :: IntactPacketV1
  selected_facet_kinds :: "ProductionFacetKindV1 list"
  selected_gain :: nat
  forcing_constraint :: SelectionConstraintV1

record SelectionV1 =
  sel_strategy :: SelectionStrategyV1
  sel_budget :: TotalTokenBudgetV1
  sel_overhead :: ReservedFixedOverheadV1
  sel_mandatory_cost :: nat
  sel_packet_cost :: nat
  sel_accounted_tokens :: nat
  sel_coverage_only_limit :: nat
  sel_coverage_only_cost :: nat
  sel_gain :: nat
  sel_packets :: "SelectedPacketV1 list"

datatype SelectionDecisionV1 = Selected SelectionV1 | NeedsMore NeedsMoreSelectionV1

fun facet_presentation_priority :: "ProductionFacetKindV1 \<Rightarrow> nat" where
  "facet_presentation_priority ValidatedQueryIdentifier = 0"
| "facet_presentation_priority QueryTerm = 0"
| "facet_presentation_priority FailureRole = 0"
| "facet_presentation_priority OnsetRole = 0"
| "facet_presentation_priority ValidatedTypedChange = 0"
| "facet_presentation_priority ProviderAttestedGraphRelation = 0"
| "facet_presentation_priority ReconstructionRiskCoverage = 1"
| "facet_presentation_priority SourceCoverageStratum = 2"
| "facet_presentation_priority ServiceCoverageStratum = 2"
| "facet_presentation_priority TimeCoverageStratum = 2"

definition packet_facet_kinds ::
  "SelectionProblemV1 \<Rightarrow> IntactPacketV1 \<Rightarrow> ProductionFacetKindV1 list option" where
  "packet_facet_kinds problem packet =
     map_option (\<lambda>kinds. remdups_adj (sort kinds))
       (those (map (\<lambda>a. map_option (\<lambda>i. facet_kind (problem_facets problem ! i))
                 (facet_index problem (affinity_facet a))) (affinities packet)))"

definition packet_presentation_priority :: "SelectionProblemV1 \<Rightarrow> IntactPacketV1 \<Rightarrow> nat" where
  "packet_presentation_priority problem packet =
     (case map (\<lambda>i. facet_presentation_priority (facet_kind (problem_facets problem ! i)))
          (List.map_filter (\<lambda>a. facet_index problem (affinity_facet a)) (affinities packet)) of
        [] \<Rightarrow> 255
      | p # ps \<Rightarrow> fold min ps p)"

definition select_mandatory_step ::
  "SelectionProblemV1 \<Rightarrow> SelectedPacketV1 list \<Rightarrow> MandatoryPacketV1 \<Rightarrow>
   (SelectionInvariantError, SelectedPacketV1 list) result" where
  "select_mandatory_step problem selected entry =
     rbind (ok_or ArithmeticInvariantViolation (packet_index problem (mandatory_packet_id entry)))
       (\<lambda>i. let packet = problem_packets problem ! i in
         rbind (ok_or ArithmeticInvariantViolation (packet_facet_kinds problem packet)) (\<lambda>kinds.
           Inr (selected @ [\<lparr>selected_packet = packet, selected_facet_kinds = kinds,
               selected_gain = 0, forcing_constraint =
                 MandatoryValidatedIdentifier (validated_identifier_facet_id entry)\<rparr>])))"

definition present_step ::
  "SelectionProblemV1 \<Rightarrow> SelectionStrategyV1 \<Rightarrow>
   FacetCoverageV1 list \<times> nat \<times> SelectedPacketV1 list \<Rightarrow> nat \<Rightarrow>
   (SelectionInvariantError, FacetCoverageV1 list \<times> nat \<times> SelectedPacketV1 list) result" where
  "present_step problem strategy state i =
     (case state of (coverage, total_gain, selected) \<Rightarrow>
       rbind (case strategy of
            DensityGreedy \<Rightarrow> Inr Constraint_DensityGreedy
          | BestSingle \<Rightarrow> Inr Constraint_BestSingle
          | _ \<Rightarrow> Inl ArithmeticInvariantViolation) (\<lambda>constraint.
         let packet = problem_packets problem ! i in
         rbind (ok_or ArithmeticInvariantViolation (marginal_gain problem coverage packet))
           (\<lambda>gain.
             rbind (ok_or ArithmeticInvariantViolation (checked_add_u64 total_gain gain)) (\<lambda>total_gain.
               rbind (ok_or ArithmeticInvariantViolation (packet_facet_kinds problem packet))
                 (\<lambda>kinds.
                   Inr (apply_packet problem coverage packet, total_gain,
                        selected @ [\<lparr>selected_packet = packet, selected_facet_kinds = kinds,
                          selected_gain = gain, forcing_constraint = constraint\<rparr>]))))))"

definition presentation_order :: "SelectionProblemV1 \<Rightarrow> nat list \<Rightarrow> nat list" where
  "presentation_order problem items =
     map snd (sort_key (\<lambda>(rank, i).
         (packet_presentation_priority problem (problem_packets problem ! i), rank))
       (enumerate 0 items))"

definition needs_more :: "SelectionProblemV1 \<Rightarrow> SelectNeedsMoreReasonV1 \<Rightarrow> SelectionDecisionV1" where
  "needs_more problem reason =
     NeedsMore \<lparr>needs_reason = reason,
       needs_fixed_overhead = overhead_tokens (problem_overhead problem),
       needs_mandatory_cost = problem_mandatory_cost problem,
       needs_budget = problem_budget problem,
       needs_mandatory_count = length (problem_mandatory problem)\<rparr>"

text \<open>The tail of \<open>select_with_priority_map\<close> once the budgets are known.\<close>

definition select_plan ::
  "SelectionProblemV1 \<Rightarrow> nat \<Rightarrow> nat \<Rightarrow> FacetCoverageV1 list \<Rightarrow> CandidatePlan \<Rightarrow>
   (SelectionInvariantError, SelectionDecisionV1) result" where
  "select_plan problem fixed_overhead coverage_only_token_limit baseline chosen =
     rbind (rfold (select_mandatory_step problem) [] (problem_mandatory problem)) (\<lambda>selected.
     rbind (rfold (present_step problem (plan_strategy chosen)) (baseline, 0, selected)
         (presentation_order problem (plan_items chosen)))
       (\<lambda>(coverage, presentation_total_gain, selected).
         if presentation_total_gain \<noteq> plan_gain chosen then Inl ArithmeticInvariantViolation
         else rbind (ok_or ArithmeticInvariantViolation
             (checked_add_u64 (problem_mandatory_cost problem) (plan_cost chosen)))
           (\<lambda>selected_packet_cost.
             rbind (ok_or ArithmeticInvariantViolation
                 (checked_add_u64 fixed_overhead selected_packet_cost)) (\<lambda>accounted.
               if accounted > problem_budget problem then Inl ArithmeticInvariantViolation
               else Inr (Selected
                 \<lparr>sel_strategy = plan_strategy chosen, sel_budget = problem_budget problem,
                  sel_overhead = problem_overhead problem,
                  sel_mandatory_cost = problem_mandatory_cost problem,
                  sel_packet_cost = selected_packet_cost, sel_accounted_tokens = accounted,
                  sel_coverage_only_limit = coverage_only_token_limit,
                  sel_coverage_only_cost = plan_coverage_only_cost chosen,
                  sel_gain = plan_gain chosen, sel_packets = selected\<rparr>)))))"

definition select_with_priority_map ::
  "SelectionProblemV1 \<Rightarrow> (PacketIdV1, nat) btree_map \<Rightarrow>
   (SelectionInvariantError, SelectionDecisionV1) result" where
  "select_with_priority_map problem priority_map =
     (let fixed_overhead = overhead_tokens (problem_overhead problem) in
      if fixed_overhead > problem_budget problem
      then Inr (needs_more problem FixedOverheadExceedsTotalBudget)
      else let available_packet_budget = problem_budget problem - fixed_overhead in
      if problem_mandatory_cost problem > available_packet_budget
      then Inr (needs_more problem MandatoryCostExceedsAvailablePacketBudget)
      else let optional_budget = available_packet_budget - problem_mandatory_cost problem;
               coverage_only_token_limit =
                 optional_budget div COVERAGE_ONLY_OPTIONAL_BUDGET_DENOMINATOR_V1;
               baseline = mandatory_coverage problem
      in rbind (density_greedy problem baseline optional_budget coverage_only_token_limit priority_map)
           (\<lambda>greedy.
         rbind (best_single problem baseline optional_budget coverage_only_token_limit priority_map)
           (\<lambda>single.
             select_plan problem fixed_overhead coverage_only_token_limit baseline
               (case single of
                  Some single \<Rightarrow> if plan_is_better single greedy then single else greedy
                | None \<Rightarrow> greedy))))"

definition select :: "SelectionProblemV1 \<Rightarrow> (SelectionInvariantError, SelectionDecisionV1) result" where
  "select problem = select_with_priority_map problem []"

section \<open>External priorities and external order\<close>

record OptionalPacketPriorityV1 =
  priority_packet_id :: PacketIdV1
  priority_affinity_micros :: nat

datatype OptionalPacketPriorityErrorV1 =
    TooManyPriorities | Priority_DuplicatePacket | Priority_UnknownPacket
  | Priority_MandatoryPacket | AffinityOutOfRange | Priority_SelectionInvariant

definition priority_step ::
  "SelectionProblemV1 \<Rightarrow> (PacketIdV1, nat) btree_map \<Rightarrow> OptionalPacketPriorityV1 \<Rightarrow>
   (OptionalPacketPriorityErrorV1, (PacketIdV1, nat) btree_map) result" where
  "priority_step problem priority_map priority =
     (if length priority_map \<ge> length (problem_packets problem) then Inl TooManyPriorities
      else if priority_affinity_micros priority = 0
          \<or> priority_affinity_micros priority > AFFINITY_SCALE_V1 then Inl AffinityOutOfRange
      else if is_mandatory problem (priority_packet_id priority) then Inl Priority_MandatoryPacket
      else if packet_index problem (priority_packet_id priority) = None
        then Inl Priority_UnknownPacket
      else if map_of priority_map (priority_packet_id priority) \<noteq> None
        then Inl Priority_DuplicatePacket
      else Inr (bt_insert (priority_packet_id priority) (priority_affinity_micros priority) priority_map))"

definition select_with_optional_priorities ::
  "SelectionProblemV1 \<Rightarrow> OptionalPacketPriorityV1 list \<Rightarrow>
   (OptionalPacketPriorityErrorV1, SelectionDecisionV1) result" where
  "select_with_optional_priorities problem priorities =
     rbind (rfold (priority_step problem) [] priorities) (\<lambda>priority_map.
       map_err (\<lambda>_. Priority_SelectionInvariant) (select_with_priority_map problem priority_map))"

datatype OptionalPacketOrderErrorV1 =
    TooManyOrderedPackets | Order_DuplicatePacket | Order_UnknownPacket | Order_MandatoryPacket
  | Order_SelectionInvariant

record PackState =
  pack_coverage :: "FacetCoverageV1 list"
  pack_remaining :: nat
  pack_remaining_coverage_only :: nat
  pack_selected :: "(nat \<times> nat) list"
  pack_cost :: nat
  pack_coverage_only_cost :: nat
  pack_gain :: nat

definition pack_step ::
  "SelectionProblemV1 \<Rightarrow> PackState \<Rightarrow> nat \<Rightarrow> (SelectionInvariantError, PackState) result" where
  "pack_step problem st i =
     (let packet = problem_packets problem ! i; cost = packet_tokens packet in
      if cost > pack_remaining st then Inr st
      else rbind (ok_or ArithmeticInvariantViolation
          (marginal_score problem (pack_coverage st) packet)) (\<lambda>marginal.
        if score_gain marginal = 0
          \<or> score_coverage_only marginal \<and> cost > pack_remaining_coverage_only st then Inr st
        else rbind (if score_coverage_only marginal
              then ok_or ArithmeticInvariantViolation
                     (checked_add_u64 (pack_coverage_only_cost st) cost)
              else Inr (pack_coverage_only_cost st)) (\<lambda>coverage_only_token_cost.
          rbind (ok_or ArithmeticInvariantViolation (checked_add_u64 (pack_cost st) cost))
            (\<lambda>selected_packet_cost.
          rbind (ok_or ArithmeticInvariantViolation
              (checked_add_u64 (pack_gain st) (score_gain marginal))) (\<lambda>total_gain.
            Inr \<lparr>pack_coverage = apply_packet problem (pack_coverage st) packet,
                 pack_remaining = pack_remaining st - cost,
                 pack_remaining_coverage_only =
                   (if score_coverage_only marginal then pack_remaining_coverage_only st - cost
                    else pack_remaining_coverage_only st),
                 pack_selected = pack_selected st @ [(i, score_gain marginal)],
                 pack_cost = selected_packet_cost,
                 pack_coverage_only_cost = coverage_only_token_cost,
                 pack_gain = total_gain\<rparr>)))))"

definition select_ordered_step ::
  "SelectionProblemV1 \<Rightarrow> SelectedPacketV1 list \<Rightarrow> nat \<times> nat \<Rightarrow>
   (SelectionInvariantError, SelectedPacketV1 list) result" where
  "select_ordered_step problem selected entry =
     (case entry of (i, gain) \<Rightarrow>
       let packet = problem_packets problem ! i in
       rbind (ok_or ArithmeticInvariantViolation (packet_facet_kinds problem packet)) (\<lambda>kinds.
         Inr (selected @ [\<lparr>selected_packet = packet, selected_facet_kinds = kinds,
           selected_gain = gain, forcing_constraint = Constraint_ExternalOrderBudgetPack\<rparr>])))"

definition select_validated_optional_order ::
  "SelectionProblemV1 \<Rightarrow> nat list \<Rightarrow> (SelectionInvariantError, SelectionDecisionV1) result" where
  "select_validated_optional_order problem ordered_indices =
     (let fixed_overhead = overhead_tokens (problem_overhead problem) in
      if fixed_overhead > problem_budget problem
      then Inr (needs_more problem FixedOverheadExceedsTotalBudget)
      else let available_packet_budget = problem_budget problem - fixed_overhead in
      if problem_mandatory_cost problem > available_packet_budget
      then Inr (needs_more problem MandatoryCostExceedsAvailablePacketBudget)
      else let optional_budget = available_packet_budget - problem_mandatory_cost problem;
               coverage_only_token_limit =
                 optional_budget div COVERAGE_ONLY_OPTIONAL_BUDGET_DENOMINATOR_V1
      in rbind (rfold (pack_step problem)
           \<lparr>pack_coverage = mandatory_coverage problem, pack_remaining = optional_budget,
            pack_remaining_coverage_only = coverage_only_token_limit, pack_selected = [],
            pack_cost = problem_mandatory_cost problem, pack_coverage_only_cost = 0,
            pack_gain = 0\<rparr> ordered_indices) (\<lambda>st.
         rbind (rfold (select_mandatory_step problem) [] (problem_mandatory problem)) (\<lambda>selected.
         rbind (rfold (select_ordered_step problem) selected (pack_selected st)) (\<lambda>selected.
         rbind (ok_or ArithmeticInvariantViolation
             (checked_add_u64 fixed_overhead (pack_cost st))) (\<lambda>accounted.
           if accounted > problem_budget problem then Inl ArithmeticInvariantViolation
           else Inr (Selected
             \<lparr>sel_strategy = (if length selected = length (problem_mandatory problem)
                then MandatoryOnly else ExternalOrderBudgetPack),
              sel_budget = problem_budget problem, sel_overhead = problem_overhead problem,
              sel_mandatory_cost = problem_mandatory_cost problem,
              sel_packet_cost = pack_cost st, sel_accounted_tokens = accounted,
              sel_coverage_only_limit = coverage_only_token_limit,
              sel_coverage_only_cost = pack_coverage_only_cost st,
              sel_gain = pack_gain st, sel_packets = selected\<rparr>))))))"

definition ordered_id_step ::
  "SelectionProblemV1 \<Rightarrow> PacketIdV1 set \<times> nat list \<Rightarrow> PacketIdV1 \<Rightarrow>
   (OptionalPacketOrderErrorV1, PacketIdV1 set \<times> nat list) result" where
  "ordered_id_step problem state pid =
     (case state of (seen, indices) \<Rightarrow>
       if pid \<in> seen then Inl Order_DuplicatePacket
       else if is_mandatory problem pid then Inl Order_MandatoryPacket
       else rbind (ok_or Order_UnknownPacket (packet_index problem pid)) (\<lambda>i.
         Inr (insert pid seen, indices @ [i])))"

definition select_in_optional_order ::
  "SelectionProblemV1 \<Rightarrow> PacketIdV1 list \<Rightarrow>
   (OptionalPacketOrderErrorV1, SelectionDecisionV1) result" where
  "select_in_optional_order problem ordered_packet_ids =
     (if length ordered_packet_ids > length (problem_packets problem)
      then Inl TooManyOrderedPackets
      else rbind (rfold (ordered_id_step problem) ({}, []) ordered_packet_ids) (\<lambda>(seen, indices).
        map_err (\<lambda>_. Order_SelectionInvariant) (select_validated_optional_order problem indices)))"

end
