(* ===== verification/Select_Objective.thy ===== *)
theory Select_Objective
  imports Select_Problem
begin

text \<open>
  The facility-coverage objective of the selector.  The locale \<open>coverage_objective\<close> states the
  four laws the selection algorithms rely on (applying packets keeps the state well formed,
  commutes, never decreases the value, and has diminishing returns) and derives from them that
  the total gain of a packet sequence does not depend on its order and that the objective is
  monotone and submodular.  It is interpreted on \<open>apply_packet\<close> and \<open>coverage_value\<close>.
\<close>

section \<open>The interface\<close>

locale coverage_objective =
  fixes app :: "'s \<Rightarrow> 'p \<Rightarrow> 's"
    and val :: "'s \<Rightarrow> nat"
    and good :: "'s \<Rightarrow> bool"
    and item :: "'p \<Rightarrow> bool"
  assumes good_app: "good s \<Longrightarrow> item p \<Longrightarrow> good (app s p)"
    and app_commute: "good s \<Longrightarrow> item p \<Longrightarrow> item q \<Longrightarrow> app (app s p) q = app (app s q) p"
    and val_mono: "good s \<Longrightarrow> item p \<Longrightarrow> val s \<le> val (app s p)"
    and val_diminish: "good s \<Longrightarrow> item p \<Longrightarrow> item q \<Longrightarrow>
      val (app (app s q) p) + val s \<le> val (app s p) + val (app s q)"
begin

lemma good_foldl: "good s \<Longrightarrow> \<forall>p \<in> set ps. item p \<Longrightarrow> good (foldl app s ps)"
  by (induction ps arbitrary: s) (auto simp: good_app)

lemma foldl_move:
  "good s \<Longrightarrow> item p \<Longrightarrow> \<forall>q \<in> set ps. item q \<Longrightarrow>
   foldl app (app s p) ps = app (foldl app s ps) p"
  by (induction ps arbitrary: s) (auto simp: good_app app_commute)

text \<open>The reached coverage depends on the multiset of applied packets only.\<close>

lemma foldl_perm:
  "good s \<Longrightarrow> \<forall>p \<in> set ps. item p \<Longrightarrow> mset ps = mset qs \<Longrightarrow> foldl app s ps = foldl app s qs"
proof (induction ps arbitrary: s qs)
  case Nil
  then show ?case by simp
next
  case (Cons p ps)
  have "p \<in> set qs" using Cons.prems(3) by (metis list.set_intros(1) mset_eq_setD)
  then obtain us vs where qs: "qs = us @ p # vs" by (auto dest: split_list)
  have items: "\<forall>q \<in> set (us @ vs). item q"
    using Cons.prems(2,3) qs by (metis Un_iff mset_eq_setD set_append set_ConsD list.set_intros(2))
  have "foldl app s (p # ps) = foldl app (app s p) (us @ vs)"
    using Cons.prems qs Cons.IH [of "app s p" "us @ vs"] by (simp add: good_app)
  also have "\<dots> = foldl app (app (foldl app s us) p) vs"
    using Cons.prems(1,2) items by (simp add: foldl_move)
  finally show ?case by (simp add: qs)
qed

lemma val_foldl_mono: "good s \<Longrightarrow> \<forall>p \<in> set ps. item p \<Longrightarrow> val s \<le> val (foldl app s ps)"
  by (induction ps arbitrary: s) (auto intro: order_trans [OF val_mono] simp: good_app)

text \<open>Diminishing returns against a whole sequence.\<close>

lemma gain_foldl:
  "good s \<Longrightarrow> item p \<Longrightarrow> \<forall>q \<in> set qs. item q \<Longrightarrow>
   val (app (foldl app s qs) p) + val s \<le> val (app s p) + val (foldl app s qs)"
proof (induction qs rule: rev_induct)
  case Nil
  then show ?case by simp
next
  case (snoc q qs)
  let ?t = "foldl app s qs"
  have "val (app (app ?t q) p) + val ?t \<le> val (app ?t p) + val (app ?t q)"
    using snoc.prems by (intro val_diminish) (auto simp: good_foldl)
  moreover have "val (app ?t p) + val s \<le> val (app s p) + val ?t"
    using snoc by simp
  ultimately show ?case by simp
qed

text \<open>Submodularity: a block of packets gains no more on top of a larger selection.\<close>

lemma gain_block:
  "good s \<Longrightarrow> \<forall>p \<in> set ps. item p \<Longrightarrow> \<forall>q \<in> set qs. item q \<Longrightarrow>
   val (foldl app s (qs @ ps)) + val s \<le> val (foldl app s ps) + val (foldl app s qs)"
proof (induction ps rule: rev_induct)
  case Nil
  then show ?case by simp
next
  case (snoc p ps)
  let ?a = "foldl app s ps" and ?b = "foldl app (foldl app s qs) ps"
  have swap: "?b = foldl app ?a qs"
    using snoc.prems foldl_perm [of s "qs @ ps" "ps @ qs"] by auto
  have "val (app ?b p) + val ?a \<le> val (app ?a p) + val ?b"
    unfolding swap using snoc.prems by (intro gain_foldl) (auto simp: good_foldl)
  moreover have "val ?b + val s \<le> val ?a + val (foldl app s qs)"
    using snoc by simp
  ultimately show ?case by simp
qed

text \<open>The joint gain of a selection is at most the sum of its single gains.\<close>

lemma gain_sum:
  "good s \<Longrightarrow> \<forall>p \<in> set ps. item p \<Longrightarrow>
   val (foldl app s ps) \<le> val s + (\<Sum>p\<leftarrow>ps. val (app s p) - val s)"
proof (induction ps rule: rev_induct)
  case Nil
  then show ?case by simp
next
  case (snoc p ps)
  have "val (app (foldl app s ps) p) + val s \<le> val (app s p) + val (foldl app s ps)"
    using snoc.prems by (intro gain_foldl) auto
  moreover have "val s \<le> val (app s p)" using snoc.prems by (simp add: val_mono)
  ultimately show ?case using snoc by simp
qed

end

section \<open>One facet\<close>

definition cov_ok :: "FacetCoverageV1 \<Rightarrow> bool" where
  "cov_ok c \<longleftrightarrow> second_largest_affinity c \<le> largest_affinity c
     \<and> largest_affinity c \<le> AFFINITY_SCALE_V1"

lemma cov_ok_default [simp]: "cov_ok FacetCoverageV1_default"
  by (simp add: cov_ok_def FacetCoverageV1_default_def)

lemma cov_ok_apply: "cov_ok c \<Longrightarrow> a \<le> AFFINITY_SCALE_V1 \<Longrightarrow> cov_ok (apply_affinity c a k)"
  by (cases k) (auto simp: cov_ok_def)

lemma apply_affinity_commute:
  "cov_ok c \<Longrightarrow> apply_affinity (apply_affinity c a k) b k = apply_affinity (apply_affinity c b k) a k"
  by (cases k; cases c) (auto simp: cov_ok_def)

lemma total_affinity_mono: "cov_ok c \<Longrightarrow> total_affinity c k \<le> total_affinity (apply_affinity c a k) k"
  by (cases k) (auto simp: cov_ok_def)

lemma total_affinity_diminish:
  "cov_ok c \<Longrightarrow>
   total_affinity (apply_affinity (apply_affinity c b k) a k) k + total_affinity c k
     \<le> total_affinity (apply_affinity c a k) k + total_affinity (apply_affinity c b k) k"
  by (cases k) (auto simp: cov_ok_def max_def)

lemma total_affinity_bound: "cov_ok c \<Longrightarrow> total_affinity c k \<le> 2 * AFFINITY_SCALE_V1"
  by (cases k) (auto simp: cov_ok_def)

section \<open>All facets of a problem\<close>

definition facets_ok :: "ProductionFacetV1 list \<Rightarrow> bool" where
  "facets_ok fs \<longleftrightarrow> sorted_wrt (<) (map facet_id fs) \<and> (\<forall>f \<in> set fs. facet_ok f)
     \<and> length fs \<le> MAX_SELECTION_FACETS_V1"

definition packet_fits :: "SelectionProblemV1 \<Rightarrow> IntactPacketV1 \<Rightarrow> bool" where
  "packet_fits problem p \<longleftrightarrow>
     packet_ok p \<and> (\<forall>a \<in> set (affinities p). affinity_facet a \<in> facet_id ` set (problem_facets problem))"

definition coverage_ok :: "SelectionProblemV1 \<Rightarrow> FacetCoverageV1 list \<Rightarrow> bool" where
  "coverage_ok problem cov \<longleftrightarrow> facets_ok (problem_facets problem)
     \<and> length cov = length (problem_facets problem) \<and> (\<forall>c \<in> set cov. cov_ok c)"

abbreviation facet_cardinality :: "SelectionProblemV1 \<Rightarrow> nat \<Rightarrow> FacetSaturationCardinalityV1" where
  "facet_cardinality problem i \<equiv> saturation_cardinality (facet_kind (problem_facets problem ! i))"

text \<open>The objective: the weighted sum of the saturated affinities of the facets.\<close>

definition coverage_value :: "SelectionProblemV1 \<Rightarrow> FacetCoverageV1 list \<Rightarrow> nat" where
  "coverage_value problem cov =
     (\<Sum>i < length (problem_facets problem).
        facet_weight (problem_facets problem ! i) * total_affinity (cov ! i) (facet_cardinality problem i))"

lemma facet_index_Some:
  assumes "facets_ok (problem_facets problem)"
  shows "facet_index problem fid = Some i \<longleftrightarrow>
    i < length (problem_facets problem) \<and> facet_id (problem_facets problem ! i) = fid"
  using assms by (simp add: facet_index_def facets_ok_def binary_search_by_key_Some)

lemma facet_index_None:
  assumes "facets_ok (problem_facets problem)"
  shows "facet_index problem fid = None \<longleftrightarrow> fid \<notin> facet_id ` set (problem_facets problem)"
  using assms by (simp add: facet_index_def facets_ok_def binary_search_by_key_None)

text \<open>Applying a packet, seen from one facet.\<close>

definition affinity_at :: "SelectionProblemV1 \<Rightarrow> IntactPacketV1 \<Rightarrow> nat \<Rightarrow> nat option" where
  "affinity_at problem p i = map_of (map (\<lambda>a. (affinity_facet a, affinity_micros a)) (affinities p))
     (facet_id (problem_facets problem ! i))"

definition apply_at :: "SelectionProblemV1 \<Rightarrow> IntactPacketV1 \<Rightarrow> nat \<Rightarrow> FacetCoverageV1 \<Rightarrow> FacetCoverageV1" where
  "apply_at problem p i c =
     (case affinity_at problem p i of None \<Rightarrow> c | Some a \<Rightarrow> apply_affinity c a (facet_cardinality problem i))"

lemma length_apply_facet_affinity [simp]: "length (apply_facet_affinity problem a cov) = length cov"
  by (simp add: apply_facet_affinity_def split: option.split)

lemma length_fold_apply [simp]: "length (fold (apply_facet_affinity problem) as cov) = length cov"
  by (induction as arbitrary: cov) auto

lemma length_apply_packet [simp]: "length (apply_packet problem cov p) = length cov"
  by (simp add: apply_packet_def)

lemma fold_apply_nth:
  assumes "facets_ok (problem_facets problem)" and "length cov = length (problem_facets problem)"
    and "distinct (map affinity_facet as)" and "i < length cov"
  shows "fold (apply_facet_affinity problem) as cov ! i =
    (case map_of (map (\<lambda>a. (affinity_facet a, affinity_micros a)) as) (facet_id (problem_facets problem ! i)) of
       None \<Rightarrow> cov ! i | Some a \<Rightarrow> apply_affinity (cov ! i) a (facet_cardinality problem i))"
  using assms(2-4)
proof (induction as arbitrary: cov)
  case Nil
  then show ?case by simp
next
  case (Cons a as)
  let ?cov = "apply_facet_affinity problem a cov"
  have here: "?cov ! i = (if affinity_facet a = facet_id (problem_facets problem ! i)
      then apply_affinity (cov ! i) (affinity_micros a) (facet_cardinality problem i) else cov ! i)"
  proof (cases "facet_index problem (affinity_facet a)")
    case None
    then show ?thesis
      using Cons.prems assms(1) facet_index_Some [of problem "affinity_facet a" i]
      by (auto simp: apply_facet_affinity_def)
  next
    case (Some j)
    then have j: "j < length cov" "affinity_facet a = facet_id (problem_facets problem ! j)"
      using Cons.prems(1) assms(1) by (auto simp: facet_index_Some)
    have "j = i" if "affinity_facet a = facet_id (problem_facets problem ! i)"
      using Some that Cons.prems assms(1) facet_index_Some [of problem "affinity_facet a" i] by simp
    moreover have "?cov = cov[j := apply_affinity (cov ! j) (affinity_micros a)
        (facet_cardinality problem j)]"
      by (simp add: apply_facet_affinity_def Some)
    ultimately show ?thesis using j by (auto simp: nth_list_update)
  qed
  have gone: "map_of (map (\<lambda>a. (affinity_facet a, affinity_micros a)) as) (affinity_facet a) = None"
    using Cons.prems(2) by (auto simp: map_of_eq_None_iff)
  show ?case
    using Cons.IH [of ?cov] Cons.prems here gone by (auto split: option.splits)
qed

lemma packet_affinities_distinct: "packet_ok p \<Longrightarrow> distinct (map affinity_facet (affinities p))"
  by (simp add: packet_ok_def strict_sorted_iff)

lemma coverage_ok_nth: "coverage_ok problem cov \<Longrightarrow> i < length (problem_facets problem) \<Longrightarrow> cov_ok (cov ! i)"
  by (simp add: coverage_ok_def)

lemma coverage_ok_length: "coverage_ok problem cov \<Longrightarrow> length cov = length (problem_facets problem)"
  by (simp add: coverage_ok_def)

lemma apply_packet_nth:
  assumes "coverage_ok problem cov" and "packet_fits problem p"
    and "i < length (problem_facets problem)"
  shows "apply_packet problem cov p ! i = apply_at problem p i (cov ! i)"
  using assms
  by (simp add: apply_packet_def apply_at_def affinity_at_def fold_apply_nth coverage_ok_def
      packet_fits_def packet_affinities_distinct)

lemma affinity_at_bound:
  "packet_fits problem p \<Longrightarrow> affinity_at problem p i = Some a \<Longrightarrow> a \<le> AFFINITY_SCALE_V1"
  by (auto simp: affinity_at_def packet_fits_def packet_ok_def affinity_ok_def dest!: map_of_SomeD)

lemma cov_ok_apply_at: "packet_fits problem p \<Longrightarrow> cov_ok c \<Longrightarrow> cov_ok (apply_at problem p i c)"
  by (auto simp: apply_at_def affinity_at_bound cov_ok_apply split: option.split)

lemma coverage_ok_apply:
  assumes "coverage_ok problem cov" and "packet_fits problem p"
  shows "coverage_ok problem (apply_packet problem cov p)"
proof -
  have "\<forall>c \<in> set (apply_packet problem cov p). cov_ok c"
    using assms by (auto simp: in_set_conv_nth apply_packet_nth coverage_ok_length
        coverage_ok_nth cov_ok_apply_at)
  then show ?thesis using assms(1) by (simp add: coverage_ok_def)
qed

lemma coverage_value_mono:
  assumes "coverage_ok problem cov" and "packet_fits problem p"
  shows "coverage_value problem cov \<le> coverage_value problem (apply_packet problem cov p)"
  using assms unfolding coverage_value_def
  by (intro sum_mono mult_left_mono)
    (auto simp: apply_packet_nth apply_at_def coverage_ok_nth total_affinity_mono split: option.split)

lemma apply_at_diminish:
  "cov_ok c \<Longrightarrow>
   total_affinity (apply_at problem p i (apply_at problem q i c)) (facet_cardinality problem i)
     + total_affinity c (facet_cardinality problem i)
   \<le> total_affinity (apply_at problem p i c) (facet_cardinality problem i)
     + total_affinity (apply_at problem q i c) (facet_cardinality problem i)"
  by (auto simp: apply_at_def total_affinity_diminish split: option.split)

lemma coverage_value_diminish:
  assumes "coverage_ok problem cov" and "packet_fits problem p" and "packet_fits problem q"
  shows "coverage_value problem (apply_packet problem (apply_packet problem cov q) p)
      + coverage_value problem cov
    \<le> coverage_value problem (apply_packet problem cov p)
      + coverage_value problem (apply_packet problem cov q)"
  unfolding coverage_value_def sum.distrib [symmetric] distrib_left [symmetric]
  using assms
  by (intro sum_mono mult_left_mono)
    (auto simp: apply_packet_nth coverage_ok_apply intro!: apply_at_diminish coverage_ok_nth)

lemma apply_packet_commute:
  assumes "coverage_ok problem cov" and "packet_fits problem p" and "packet_fits problem q"
  shows "apply_packet problem (apply_packet problem cov p) q
    = apply_packet problem (apply_packet problem cov q) p"
proof (rule nth_equalityI)
  fix i assume "i < length (apply_packet problem (apply_packet problem cov p) q)"
  then have i: "i < length (problem_facets problem)" using assms(1) by (simp add: coverage_ok_length)
  then have "cov_ok (cov ! i)" using assms(1) by (simp add: coverage_ok_nth)
  then show "apply_packet problem (apply_packet problem cov p) q ! i
      = apply_packet problem (apply_packet problem cov q) p ! i"
    using assms i by (simp add: apply_packet_nth coverage_ok_apply apply_at_def
        apply_affinity_commute split: option.split)
qed simp

interpretation facility: coverage_objective "apply_packet problem" "coverage_value problem"
  "coverage_ok problem" "packet_fits problem" for problem
  by unfold_locales
    (fact coverage_ok_apply apply_packet_commute coverage_value_mono coverage_value_diminish)+

section \<open>Marginal scores\<close>

text \<open>The contribution of one affinity to the gain of a packet, and whether it is a primary one.\<close>

definition affinity_gain :: "SelectionProblemV1 \<Rightarrow> FacetCoverageV1 list \<Rightarrow> FacetAffinityV1 \<Rightarrow> nat" where
  "affinity_gain problem cov a =
     (case facet_index problem (affinity_facet a) of
        None \<Rightarrow> 0
      | Some i \<Rightarrow> facet_weight (problem_facets problem ! i)
          * marginal_affinity (cov ! i) (affinity_micros a) (facet_cardinality problem i))"

definition affinity_primary :: "SelectionProblemV1 \<Rightarrow> FacetAffinityV1 \<Rightarrow> bool" where
  "affinity_primary problem a \<longleftrightarrow>
     (\<exists>f \<in> set (problem_facets problem). facet_id f = affinity_facet a \<and> \<not> is_coverage_only (facet_kind f))"

lemma affinity_primary_iff:
  assumes "facets_ok (problem_facets problem)"
    and "facet_index problem (affinity_facet a) = Some i"
  shows "affinity_primary problem a \<longleftrightarrow> \<not> is_coverage_only (facet_kind (problem_facets problem ! i))"
proof -
  have "f = problem_facets problem ! i"
    if f: "f \<in> set (problem_facets problem)" "facet_id f = affinity_facet a" for f
  proof -
    obtain j where j: "j < length (problem_facets problem)" "f = problem_facets problem ! j"
      using f(1) by (auto simp: in_set_conv_nth)
    then have "facet_index problem (affinity_facet a) = Some j"
      using f(2) assms(1) by (simp add: facet_index_Some)
    then show ?thesis using assms(2) j(2) by simp
  qed
  moreover have "i < length (problem_facets problem)"
    "facet_id (problem_facets problem ! i) = affinity_facet a"
    using assms by (simp_all add: facet_index_Some)
  ultimately show ?thesis unfolding affinity_primary_def by (metis nth_mem)
qed

lemma coverage_value_update:
  assumes "i < length (problem_facets problem)" and "length cov = length (problem_facets problem)"
  shows "coverage_value problem (cov[i := c])
      + facet_weight (problem_facets problem ! i) * total_affinity (cov ! i) (facet_cardinality problem i)
    = coverage_value problem cov
      + facet_weight (problem_facets problem ! i) * total_affinity c (facet_cardinality problem i)"
  using assms unfolding coverage_value_def
  by (simp add: sum.remove [of "{..<length (problem_facets problem)}" i])

lemma coverage_ok_apply_affinity:
  assumes "coverage_ok problem cov" and "affinity_ok a"
  shows "coverage_ok problem (apply_facet_affinity problem a cov)"
proof (cases "facet_index problem (affinity_facet a)")
  case None
  then show ?thesis using assms by (simp add: apply_facet_affinity_def)
next
  case (Some i)
  then have "i < length cov" using assms(1) by (simp add: coverage_ok_def facet_index_Some)
  then show ?thesis using Some assms
    by (auto simp: apply_facet_affinity_def coverage_ok_def affinity_ok_def
        dest!: set_update_subset_insert [THEN subsetD] intro!: cov_ok_apply)
qed

lemma coverage_value_apply_affinity:
  assumes "coverage_ok problem cov" and "affinity_facet a \<in> facet_id ` set (problem_facets problem)"
  shows "coverage_value problem (apply_facet_affinity problem a cov)
    = coverage_value problem cov + affinity_gain problem cov a"
proof -
  have fs: "facets_ok (problem_facets problem)" using assms(1) by (simp add: coverage_ok_def)
  obtain i where i: "facet_index problem (affinity_facet a) = Some i"
    using assms(2) facet_index_None [OF fs] by blast
  let ?w = "facet_weight (problem_facets problem ! i)" and ?k = "facet_cardinality problem i"
  let ?c = "apply_affinity (cov ! i) (affinity_micros a) ?k"
  have len: "i < length (problem_facets problem)" using i fs by (simp add: facet_index_Some)
  have mono: "?w * total_affinity (cov ! i) ?k \<le> ?w * total_affinity ?c ?k"
    using assms(1) len by (simp add: total_affinity_mono coverage_ok_nth)
  have "coverage_value problem (cov[i := ?c]) + ?w * total_affinity (cov ! i) ?k
      = coverage_value problem cov + ?w * total_affinity ?c ?k"
    using len assms(1) by (simp add: coverage_value_update coverage_ok_length)
  then show ?thesis using i mono
    by (simp add: apply_facet_affinity_def affinity_gain_def marginal_affinity_def diff_mult_distrib2)
qed

lemma affinity_gain_other:
  assumes "facets_ok (problem_facets problem)" and "affinity_facet b \<noteq> affinity_facet a"
  shows "affinity_gain problem (apply_facet_affinity problem a cov) b = affinity_gain problem cov b"
proof (cases "facet_index problem (affinity_facet a)")
  case None
  then show ?thesis by (simp add: apply_facet_affinity_def)
next
  case (Some i)
  have "j \<noteq> i" if "facet_index problem (affinity_facet b) = Some j" for j
    using that Some assms by (auto simp: facet_index_Some)
  then show ?thesis using Some
    by (auto simp: affinity_gain_def apply_facet_affinity_def split: option.split)
qed

lemma coverage_value_fold:
  assumes "coverage_ok problem cov" and "distinct (map affinity_facet as)"
    and "\<forall>a \<in> set as. affinity_ok a \<and> affinity_facet a \<in> facet_id ` set (problem_facets problem)"
  shows "coverage_value problem (fold (apply_facet_affinity problem) as cov)
    = coverage_value problem cov + (\<Sum>a\<leftarrow>as. affinity_gain problem cov a)"
  using assms
proof (induction as arbitrary: cov)
  case Nil
  then show ?case by simp
next
  case (Cons a as)
  let ?cov = "apply_facet_affinity problem a cov"
  have same: "map (affinity_gain problem ?cov) as = map (affinity_gain problem cov) as"
    using Cons.prems(1,2)
    by (intro map_cong refl affinity_gain_other) (auto simp: coverage_ok_def image_iff)
  have "coverage_value problem (fold (apply_facet_affinity problem) as ?cov)
      = coverage_value problem ?cov + (\<Sum>b\<leftarrow>as. affinity_gain problem ?cov b)"
    using Cons.prems by (intro Cons.IH) (auto simp: coverage_ok_apply_affinity)
  then show ?case
    unfolding same using Cons.prems by (simp add: coverage_value_apply_affinity)
qed

text \<open>The value never leaves the 64-bit range.\<close>

lemma coverage_value_bound:
  assumes "coverage_ok problem cov"
  shows "coverage_value problem cov \<le> 8192000000000000"
proof -
  let ?n = "length (problem_facets problem)"
  have "facet_weight (problem_facets problem ! i) * total_affinity (cov ! i) (facet_cardinality problem i)
      \<le> 1000000 * 2000000" if "i < ?n" for i
    using assms that total_affinity_bound [OF coverage_ok_nth [OF assms that]]
    by (intro mult_le_mono) (auto simp: coverage_ok_def facets_ok_def facet_ok_def select_const_defs)
  then have "coverage_value problem cov \<le> (\<Sum>i < ?n. 1000000 * 2000000)"
    unfolding coverage_value_def by (intro sum_mono) auto
  also have "\<dots> \<le> 8192000000000000"
    using assms by (simp add: coverage_ok_def facets_ok_def select_const_defs)
  finally show ?thesis .
qed

lemma coverage_value_u64: "coverage_ok problem cov \<Longrightarrow> coverage_value problem cov \<le> u64_max"
  using coverage_value_bound [of problem cov] by simp

lemma marginal_loop_spec:
  assumes "facets_ok (problem_facets problem)"
    and "\<forall>a \<in> set as. affinity_facet a \<in> facet_id ` set (problem_facets problem)"
    and "g + (\<Sum>a\<leftarrow>as. affinity_gain problem cov a) \<le> u64_max"
  shows "marginal_loop problem cov (g, b) as =
    Some (g + (\<Sum>a\<leftarrow>as. affinity_gain problem cov a),
          b \<or> (\<exists>a \<in> set as. 0 < affinity_gain problem cov a \<and> affinity_primary problem a))"
  using assms(2,3)
proof (induction as arbitrary: g b)
  case Nil
  then show ?case by simp
next
  case (Cons a as)
  obtain i where i: "facet_index problem (affinity_facet a) = Some i"
    using Cons.prems(1) facet_index_None [OF assms(1)] by auto
  have gain: "facet_weight (problem_facets problem ! i)
      * marginal_affinity (cov ! i) (affinity_micros a) (facet_cardinality problem i)
      = affinity_gain problem cov a"
    by (simp add: affinity_gain_def i)
  have w: "facet_weight (problem_facets problem ! i) \<noteq> 0"
    using i assms(1) by (auto simp: facet_index_Some facets_ok_def facet_ok_def)
  show ?case
  proof (cases "affinity_gain problem cov a = 0")
    case True
    then have "marginal_affinity (cov ! i) (affinity_micros a) (facet_cardinality problem i) = 0"
      using gain w by simp
    then show ?thesis using True Cons.prems i Cons.IH [of g b] by (simp add: Let_def)
  next
    case False
    then have "marginal_affinity (cov ! i) (affinity_micros a) (facet_cardinality problem i) \<noteq> 0"
      using gain by (metis mult_0_right)
    then have "marginal_loop problem cov (g, b) (a # as)
        = marginal_loop problem cov (g + affinity_gain problem cov a, b \<or> affinity_primary problem a) as"
      using False Cons.prems(2) i gain
      by (simp add: Let_def affinity_primary_iff [OF assms(1) i] checked_mul_u64_fits checked_add_u64_fits)
    also have "\<dots> = Some (g + affinity_gain problem cov a + (\<Sum>a\<leftarrow>as. affinity_gain problem cov a),
        (b \<or> affinity_primary problem a)
        \<or> (\<exists>a \<in> set as. 0 < affinity_gain problem cov a \<and> affinity_primary problem a))"
      using Cons.prems by (intro Cons.IH) simp_all
    finally show ?thesis using False by simp
  qed
qed

lemma marginal_score_spec:
  assumes "coverage_ok problem cov" and "packet_fits problem p"
  obtains s where "marginal_score problem cov p = Some s"
    and "coverage_value problem (apply_packet problem cov p) = coverage_value problem cov + score_gain s"
    and "score_coverage_only s \<longleftrightarrow> 0 < score_gain s \<and>
      (\<forall>a \<in> set (affinities p). 0 < affinity_gain problem cov a \<longrightarrow> \<not> affinity_primary problem a)"
proof -
  have fs: "facets_ok (problem_facets problem)" using assms(1) by (simp add: coverage_ok_def)
  let ?g = "\<Sum>a\<leftarrow>affinities p. affinity_gain problem cov a"
  have val: "coverage_value problem (apply_packet problem cov p) = coverage_value problem cov + ?g"
    unfolding apply_packet_def using assms
    by (intro coverage_value_fold) (auto simp: packet_fits_def packet_affinities_distinct packet_ok_def)
  then have "?g \<le> u64_max"
    using coverage_value_u64 [OF coverage_ok_apply [OF assms]] by simp
  then have "marginal_loop problem cov (0, False) (affinities p) =
    Some (?g, \<exists>a \<in> set (affinities p). 0 < affinity_gain problem cov a \<and> affinity_primary problem a)"
    using assms(2) marginal_loop_spec [OF fs, of "affinities p" 0 cov False]
    by (simp add: packet_fits_def)
  then have "marginal_score problem cov p = Some \<lparr>score_gain = ?g, score_coverage_only =
      (0 < ?g \<and> \<not> (\<exists>a \<in> set (affinities p). 0 < affinity_gain problem cov a \<and> affinity_primary problem a))\<rparr>"
    by (simp only: marginal_score_def option.simps prod.case)
  then show thesis using val that by fastforce
qed

end
