(* ===== verification/Select_Construction.thy ===== *)
theory Select_Construction
  imports Select_Objective
begin

text \<open>
  What \<open>SelectionProblemV1::new\<close> guarantees: the predicate \<open>problem_ok\<close> collects the invariants
  of the private fields of \<open>SelectionProblemV1\<close>, every successful construction establishes it, and
  the constructed problem does not depend on the order in which the caller lists facets, packets
  and mandatory entries.
\<close>

section \<open>The invariant of a constructed problem\<close>

definition packet_of :: "SelectionProblemV1 \<Rightarrow> MandatoryPacketV1 \<Rightarrow> IntactPacketV1" where
  "packet_of problem entry =
     problem_packets problem ! the (packet_index problem (mandatory_packet_id entry))"

definition mandatory_entry_ok :: "SelectionProblemV1 \<Rightarrow> MandatoryPacketV1 \<Rightarrow> bool" where
  "mandatory_entry_ok problem entry \<longleftrightarrow>
     mandatory_packet_id entry \<in> packet_id ` set (problem_packets problem)
     \<and> (\<exists>f \<in> set (problem_facets problem).
          facet_id f = validated_identifier_facet_id entry \<and> facet_kind f = ValidatedQueryIdentifier)
     \<and> affinity_for (packet_of problem entry) (validated_identifier_facet_id entry) \<noteq> None"

definition packets_ok :: "SelectionProblemV1 \<Rightarrow> bool" where
  "packets_ok problem \<longleftrightarrow>
     (\<forall>p \<in> set (problem_packets problem). packet_fits problem p
        \<and> cost_model (packet_cost p) = overhead_cost_model (problem_overhead problem))
     \<and> length (problem_packets problem) \<le> MAX_SELECTION_PACKETS_V1
     \<and> distinct (map packet_id (problem_packets problem))
     \<and> sorted_wrt (<) (map event_ids (problem_packets problem))
     \<and> distinct (concat (map event_ids (problem_packets problem)))
     \<and> length (concat (map event_ids (problem_packets problem))) \<le> MAX_SELECTION_EVENTS_V1
     \<and> (\<Sum>p\<leftarrow>problem_packets problem. packet_tokens p) \<le> u64_max"

definition mandatory_ok :: "SelectionProblemV1 \<Rightarrow> bool" where
  "mandatory_ok problem \<longleftrightarrow>
     length (problem_mandatory problem) \<le> MAX_MANDATORY_PACKETS_V1
     \<and> (\<forall>m \<in> set (problem_mandatory problem). mandatory_entry_ok problem m)
     \<and> sorted_wrt (<) (map (\<lambda>m. the (packet_index problem (mandatory_packet_id m)))
          (problem_mandatory problem))
     \<and> problem_mandatory_cost problem
         = (\<Sum>m\<leftarrow>problem_mandatory problem. packet_tokens (packet_of problem m))"

definition problem_ok :: "SelectionProblemV1 \<Rightarrow> bool" where
  "problem_ok problem \<longleftrightarrow> facets_ok (problem_facets problem) \<and> packets_ok problem
     \<and> mandatory_ok problem \<and> problem_budget problem \<le> JSON_SAFE_INTEGER_MAX
     \<and> overhead_tokens (problem_overhead problem) \<le> JSON_SAFE_INTEGER_MAX"

section \<open>The loops of the constructor\<close>

lemma packet_id_loop:
  "rfold packet_id_step S ps = Inr S' \<longleftrightarrow>
     distinct (map packet_id ps) \<and> packet_id ` set ps \<inter> S = {} \<and> S' = S \<union> packet_id ` set ps"
  by (induction ps arbitrary: S) (auto simp: packet_id_step_def result_simps)

lemma event_loop:
  assumes "rfold event_step S evs = Inr S'" and "finite S" and "card S \<le> MAX_SELECTION_EVENTS_V1"
  shows "distinct evs \<and> set evs \<inter> S = {} \<and> S' = S \<union> set evs \<and> card S' \<le> MAX_SELECTION_EVENTS_V1"
  using assms
proof (induction evs arbitrary: S)
  case Nil
  then show ?case by simp
next
  case (Cons e evs)
  then have "e \<notin> S" "card (insert e S) \<le> MAX_SELECTION_EVENTS_V1"
    and "rfold event_step (insert e S) evs = Inr S'"
    by (auto simp: event_step_def [of S e] Let_def result_simps split: if_splits)
  with Cons.IH [of "insert e S"] Cons.prems(2) show ?case by auto
qed

lemma affinity_loop:
  assumes "sorted_wrt (<) (map facet_id fs)"
  shows "rfold (affinity_step fs) u as = Inr u' \<longleftrightarrow> (\<forall>a \<in> set as. affinity_facet a \<in> facet_id ` set fs)"
proof -
  have "rfold (affinity_step fs) u as = Inr u' \<longleftrightarrow> rfold (affinity_step fs) () as = Inr ()" by simp
  also have "\<dots> \<longleftrightarrow> (\<forall>a \<in> set as. affinity_facet a \<in> facet_id ` set fs)"
    by (induction as) (auto simp: affinity_step_def binary_search_by_key_None [OF assms] result_simps)
  finally show ?thesis .
qed

definition universe_inv ::
  "ProductionFacetV1 list \<Rightarrow> ReservedFixedOverheadV1 \<Rightarrow> IntactPacketV1 list \<Rightarrow> bytes set \<times> nat \<Rightarrow> bool" where
  "universe_inv fs overhead ps state \<longleftrightarrow>
     (\<forall>p \<in> set ps. (\<forall>a \<in> set (affinities p). affinity_facet a \<in> facet_id ` set fs)
        \<and> cost_model (packet_cost p) = overhead_cost_model overhead)
     \<and> fst state = set (concat (map event_ids ps)) \<and> distinct (concat (map event_ids ps))
     \<and> length (concat (map event_ids ps)) \<le> MAX_SELECTION_EVENTS_V1
     \<and> snd state = (\<Sum>p\<leftarrow>ps. packet_tokens p) \<and> snd state \<le> u64_max"

lemma universe_step_inv:
  assumes "universe_inv fs overhead ps state" and "universe_step fs overhead state p = Inr state'"
    and "sorted_wrt (<) (map facet_id fs)"
  shows "universe_inv fs overhead (ps @ [p]) state'"
proof -
  obtain E c where state: "state = (E, c)" by (cases state)
  from assms(2) obtain E' where loop: "rfold event_step E (event_ids p) = Inr E'"
    and st': "state' = (E', c + packet_tokens p)" and fits: "c + packet_tokens p \<le> u64_max"
    and model: "cost_model (packet_cost p) = overhead_cost_model overhead"
    and aff: "\<forall>a \<in> set (affinities p). affinity_facet a \<in> facet_id ` set fs"
    using affinity_loop [OF assms(3)]
    by (auto simp: universe_step_def state result_simps checked_simps split: if_splits)
  have inv: "E = set (concat (map event_ids ps))" "distinct (concat (map event_ids ps))"
    "length (concat (map event_ids ps)) \<le> MAX_SELECTION_EVENTS_V1"
    using assms(1) by (auto simp: universe_inv_def state)
  have card: "finite E" "card E \<le> MAX_SELECTION_EVENTS_V1"
    using inv distinct_card [OF inv(2)] by simp_all
  note ev = event_loop [OF loop card]
  have "distinct (concat (map event_ids (ps @ [p])))"
    using inv(1,2) ev by auto
  moreover have "E' = set (concat (map event_ids (ps @ [p])))" using inv(1) ev by auto
  moreover have "length (concat (map event_ids (ps @ [p]))) \<le> MAX_SELECTION_EVENTS_V1"
    using calculation ev distinct_card by metis
  ultimately show ?thesis
    using assms(1) st' fits model aff by (auto simp: universe_inv_def state)
qed

lemma universe_loop:
  assumes "rfold (universe_step fs overhead) ({}, 0) ps = Inr state" and "sorted_wrt (<) (map facet_id fs)"
  shows "universe_inv fs overhead ps state"
  using assms(1)
  by (rule rfold_invariant [where P = "universe_inv fs overhead"])
    (simp add: universe_inv_def, erule universe_step_inv, assumption, rule assms(2))

text \<open>The position map is the position in the canonical packet order.\<close>

lemma packet_positions_get:
  assumes "distinct (map packet_id ps)"
  shows "map_of (packet_positions_of ps) pid = position_of (\<lambda>p. packet_id p = pid) ps"
proof -
  let ?kvs = "map (\<lambda>(i, packet). (packet_id packet, i)) (enumerate 0 ps)"
  have keys: "map fst ?kvs = map packet_id ps"
    by (simp add: nth_enumerate_eq list_eq_iff_nth_eq)
  show ?thesis
  proof (cases "position_of (\<lambda>p. packet_id p = pid) ps")
    case None
    then have "pid \<notin> fst ` set ?kvs"
      using keys by (metis (mono_tags, lifting) image_iff list.set_map position_of_None)
    then show ?thesis using None by (simp add: packet_positions_of_def bt.fold_put_other)
  next
    case (Some i)
    then have i: "i < length ps" "packet_id (ps ! i) = pid" by (auto dest: position_of_Some)
    then have "(pid, i) \<in> set ?kvs" by (auto simp: in_set_enumerate_eq intro!: image_eqI [of _ _ "(i, ps ! i)"])
    then show ?thesis using Some assms keys by (simp add: packet_positions_of_def bt.fold_put_get)
  qed
qed

text \<open>The condition the mandatory loop checks of one entry.\<close>

definition mandatory_accepts ::
  "ProductionFacetV1 list \<Rightarrow> IntactPacketV1 list \<Rightarrow> (PacketIdV1, nat) btree_map \<Rightarrow> MandatoryPacketV1 \<Rightarrow> bool" where
  "mandatory_accepts fs ps pp m \<longleftrightarrow>
     (\<exists>i j. map_of pp (mandatory_packet_id m) = Some i
        \<and> binary_search_by_key facet_id fs (validated_identifier_facet_id m) = Some j
        \<and> facet_kind (fs ! j) = ValidatedQueryIdentifier
        \<and> affinity_for (ps ! i) (validated_identifier_facet_id m) \<noteq> None)"

lemma mandatory_loop:
  assumes "c \<le> u64_max"
  shows "rfold (mandatory_step fs ps pp) (S, c) ms = Inr (S', c') \<longleftrightarrow>
     distinct (map mandatory_packet_id ms) \<and> mandatory_packet_id ` set ms \<inter> S = {}
     \<and> (\<forall>m \<in> set ms. mandatory_accepts fs ps pp m)
     \<and> S' = S \<union> mandatory_packet_id ` set ms
     \<and> c' = c + (\<Sum>m\<leftarrow>ms. packet_tokens (ps ! the (map_of pp (mandatory_packet_id m))))
     \<and> c' \<le> u64_max"
  using assms
proof (induction ms arbitrary: S c)
  case Nil
  then show ?case by auto
next
  case (Cons m ms)
  let ?t = "packet_tokens (ps ! the (map_of pp (mandatory_packet_id m)))"
  have step: "mandatory_step fs ps pp (S, c) m = Inr st \<longleftrightarrow>
      mandatory_packet_id m \<notin> S \<and> mandatory_accepts fs ps pp m \<and> c + ?t \<le> u64_max
      \<and> st = (insert (mandatory_packet_id m) S, c + ?t)" for st
    by (cases "map_of pp (mandatory_packet_id m)";
        cases "binary_search_by_key facet_id fs (validated_identifier_facet_id m)")
      (auto simp: mandatory_step_def mandatory_accepts_def result_simps checked_simps)
  show ?case
    using Cons.prems Cons.IH [of "c + ?t" "insert (mandatory_packet_id m) S"]
    by (auto simp: result_simps step)
qed

section \<open>What construction accepts\<close>

text \<open>The successful path of the constructor, with the loops replaced by what they check.\<close>

lemma new_Inr:
  "SelectionProblemV1_new fs ps ms budget overhead = Inr problem \<longleftrightarrow>
    (let fs' = sort_key facet_id fs; ps' = sort_key event_ids ps; pp = packet_positions_of ps' in
     length fs \<le> MAX_SELECTION_FACETS_V1 \<and> sorted_wrt (<) (map facet_id fs')
     \<and> (\<exists>b. rfold objective_bound_step 0 fs' = Inr b)
     \<and> length ps \<le> MAX_SELECTION_PACKETS_V1 \<and> distinct (map packet_id ps)
     \<and> (\<exists>st. rfold (universe_step fs' overhead) ({}, 0) ps' = Inr st)
     \<and> length ms \<le> MAX_MANDATORY_PACKETS_V1 \<and> distinct (map mandatory_packet_id ms)
     \<and> (\<forall>m \<in> set ms. mandatory_accepts fs' ps' pp m)
     \<and> (\<Sum>m\<leftarrow>ms. packet_tokens (ps' ! the (map_of pp (mandatory_packet_id m)))) \<le> u64_max
     \<and> problem = \<lparr>problem_facets = fs', problem_packets = ps',
         problem_mandatory = sort_key (mandatory_position pp) ms, problem_budget = budget,
         problem_overhead = overhead, problem_mandatory_cost =
           (\<Sum>m\<leftarrow>ms. packet_tokens (ps' ! the (map_of pp (mandatory_packet_id m))))\<rparr>)"
  unfolding SelectionProblemV1_new_def Let_def
  by (auto simp: result_simps mandatory_loop packet_id_loop
      sorted_no_adjacent_dup [OF sorted_sort_key, symmetric] split: prod.splits)

text \<open>A constructed problem with its canonical parts.\<close>

lemma new_parts:
  assumes "SelectionProblemV1_new fs ps ms budget overhead = Inr problem"
  shows "problem_facets problem = sort_key facet_id fs"
    and "problem_packets problem = sort_key event_ids ps"
    and "mset (problem_mandatory problem) = mset ms"
    and "distinct (map packet_id (problem_packets problem))"
    and "distinct (map mandatory_packet_id (problem_mandatory problem))"
proof -
  have d: "distinct (map packet_id ps)" "distinct (map mandatory_packet_id ms)"
    and p: "problem_facets problem = sort_key facet_id fs" "problem_packets problem = sort_key event_ids ps"
      "mset (problem_mandatory problem) = mset ms"
    using assms by (auto simp: new_Inr Let_def)
  have "distinct (map packet_id (sort_key event_ids ps))"
    using d(1) by (metis distinct_map distinct_sort set_sort)
  moreover have "distinct (map mandatory_packet_id (problem_mandatory problem))"
    using d(2) distinct_map_perm [OF p(3)] by blast
  ultimately show "problem_facets problem = sort_key facet_id fs"
    "problem_packets problem = sort_key event_ids ps" "mset (problem_mandatory problem) = mset ms"
    "distinct (map packet_id (problem_packets problem))"
    "distinct (map mandatory_packet_id (problem_mandatory problem))"
    using p by simp_all
qed

lemma new_universe:
  assumes "SelectionProblemV1_new fs ps ms budget overhead = Inr problem"
  obtains st where "universe_inv (problem_facets problem) overhead (problem_packets problem) st"
  using assms by (auto simp: new_Inr Let_def dest: universe_loop)

lemma new_facets_ok:
  assumes "SelectionProblemV1_new fs ps ms budget overhead = Inr problem" and "\<forall>f \<in> set fs. facet_ok f"
  shows "facets_ok (problem_facets problem)"
  using assms by (auto simp: new_Inr Let_def facets_ok_def)

lemma distinct_concat_nonempty: "distinct (concat xss) \<Longrightarrow> [] \<notin> set xss \<Longrightarrow> distinct xss"
  by (simp add: distinct_concat_iff)

lemma new_packets_ok:
  assumes new: "SelectionProblemV1_new fs ps ms budget overhead = Inr problem"
    and ok: "\<forall>p \<in> set ps. packet_ok p"
  shows "packets_ok problem"
proof -
  obtain st where u: "universe_inv (problem_facets problem) overhead (problem_packets problem) st"
    using new by (rule new_universe)
  have packets: "problem_packets problem = sort_key event_ids ps" using new by (rule new_parts)
  have rest: "problem_overhead problem = overhead" "length ps \<le> MAX_SELECTION_PACKETS_V1"
    using new by (auto simp: new_Inr Let_def)
  have "[] \<notin> set (map event_ids (problem_packets problem))"
    using ok by (auto simp: packets packet_ok_def)
  then have "distinct (map event_ids (problem_packets problem))"
    using u by (auto simp: universe_inv_def intro: distinct_concat_nonempty)
  moreover have "sorted (map event_ids (problem_packets problem))" by (simp add: packets)
  ultimately have "sorted_wrt (<) (map event_ids (problem_packets problem))"
    by (simp add: strict_sorted_iff)
  then show ?thesis
    using u ok new_parts(4) [OF new] rest
    by (auto simp: packets_ok_def universe_inv_def packet_fits_def packets)
qed

lemma packet_index_get:
  assumes "distinct (map packet_id (problem_packets problem))"
  shows "map_of (packet_positions_of (problem_packets problem)) pid = packet_index problem pid"
  using assms by (simp add: packet_positions_get packet_index_def)

lemma packet_index_Some:
  assumes "distinct (map packet_id (problem_packets problem))"
  shows "packet_index problem pid = Some i \<longleftrightarrow>
    i < length (problem_packets problem) \<and> packet_id (problem_packets problem ! i) = pid"
  using position_of_unique [OF assms, of i] position_of_Some [of _ "problem_packets problem" i]
  by (auto simp: packet_index_def)

lemma new_mandatory_entry:
  assumes new: "SelectionProblemV1_new fs ps ms budget overhead = Inr problem"
    and m: "m \<in> set (problem_mandatory problem)"
  shows "mandatory_entry_ok problem m"
proof -
  let ?pp = "packet_positions_of (problem_packets problem)"
  have "mandatory_accepts (problem_facets problem) (problem_packets problem) ?pp m"
    and sorted: "sorted_wrt (<) (map facet_id (problem_facets problem))"
    using new m by (auto simp: new_Inr Let_def)
  then obtain i j where i: "packet_index problem (mandatory_packet_id m) = Some i"
    and j: "binary_search_by_key facet_id (problem_facets problem) (validated_identifier_facet_id m) = Some j"
    and k: "facet_kind (problem_facets problem ! j) = ValidatedQueryIdentifier"
    and a: "affinity_for (problem_packets problem ! i) (validated_identifier_facet_id m) \<noteq> None"
    by (auto simp: mandatory_accepts_def packet_index_get [OF new_parts(4) [OF new]])
  have "i < length (problem_packets problem)" "packet_id (problem_packets problem ! i) = mandatory_packet_id m"
    using i by (simp_all add: packet_index_Some [OF new_parts(4) [OF new]])
  moreover have "j < length (problem_facets problem)"
    "facet_id (problem_facets problem ! j) = validated_identifier_facet_id m"
    using j by (simp_all add: binary_search_by_key_Some [OF sorted])
  ultimately show ?thesis
    using i k a unfolding mandatory_entry_ok_def packet_of_def by (metis image_eqI nth_mem option.sel)
qed

lemma new_mandatory_index:
  assumes new: "SelectionProblemV1_new fs ps ms budget overhead = Inr problem"
    and "m \<in> set (problem_mandatory problem)"
  shows "\<exists>i. packet_index problem (mandatory_packet_id m) = Some i"
  using new_mandatory_entry [OF assms] packet_index_Some [OF new_parts(4) [OF new]]
  by (fastforce simp: mandatory_entry_ok_def in_set_conv_nth)

lemma new_mandatory_positions:
  assumes new: "SelectionProblemV1_new fs ps ms budget overhead = Inr problem"
  shows "map (mandatory_position (packet_positions_of (problem_packets problem))) (problem_mandatory problem)
    = map (\<lambda>m. the (packet_index problem (mandatory_packet_id m))) (problem_mandatory problem)"
  using new_mandatory_index [OF new]
  by (force simp: mandatory_position_def packet_index_get [OF new_parts(4) [OF new]])

lemma new_mandatory_ok:
  assumes new: "SelectionProblemV1_new fs ps ms budget overhead = Inr problem"
  shows "mandatory_ok problem"
proof -
  let ?pos = "\<lambda>m. the (packet_index problem (mandatory_packet_id m))"
  let ?pp = "packet_positions_of (problem_packets problem)"
  note get = packet_index_get [OF new_parts(4) [OF new]]
  have M: "problem_mandatory problem = sort_key (mandatory_position ?pp) ms"
    and raw: "problem_mandatory_cost problem = (\<Sum>m\<leftarrow>ms. packet_tokens
        (problem_packets problem ! the (map_of ?pp (mandatory_packet_id m))))"
    and len: "length ms \<le> MAX_MANDATORY_PACKETS_V1"
    using new by (auto simp: new_Inr Let_def)
  have cost: "problem_mandatory_cost problem = (\<Sum>m\<leftarrow>ms. packet_tokens (packet_of problem m))"
    using raw by (simp add: get packet_of_def)
  note some = new_mandatory_index [OF new] and pos = new_mandatory_positions [OF new]
  have "inj_on ?pos (set (problem_mandatory problem))"
  proof (rule inj_onI)
    fix m m' assume *: "m \<in> set (problem_mandatory problem)" "m' \<in> set (problem_mandatory problem)" "?pos m = ?pos m'"
    then have "mandatory_packet_id m = mandatory_packet_id m'"
      using some [OF *(1)] some [OF *(2)] packet_index_Some [OF new_parts(4) [OF new]]
      by (metis option.sel)
    then show "m = m'" using new_parts(5) [OF new] *(1,2) by (auto simp: distinct_map inj_on_def)
  qed
  then have "distinct (map ?pos (problem_mandatory problem))"
    using new_parts(5) [OF new] by (simp add: distinct_map)
  moreover have "sorted (map ?pos (problem_mandatory problem))"
    unfolding pos [symmetric] by (simp only: M sorted_sort_key)
  moreover have "(\<Sum>m\<leftarrow>ms. packet_tokens (packet_of problem m))
      = (\<Sum>m\<leftarrow>problem_mandatory problem. packet_tokens (packet_of problem m))"
    by (rule sum_list_perm [OF new_parts(3) [OF new], symmetric])
  moreover have "length (problem_mandatory problem) = length ms" by (simp add: M)
  ultimately show ?thesis
    using len cost new_mandatory_entry [OF new] by (simp add: mandatory_ok_def strict_sorted_iff)
qed

lemma problem_ok_new:
  assumes "SelectionProblemV1_new fs ps ms budget overhead = Inr problem"
    and "\<forall>f \<in> set fs. facet_ok f" and "\<forall>p \<in> set ps. packet_ok p"
    and "budget \<le> JSON_SAFE_INTEGER_MAX" and "overhead_tokens overhead \<le> JSON_SAFE_INTEGER_MAX"
  shows "problem_ok problem"
proof -
  have "problem_budget problem = budget" "problem_overhead problem = overhead"
    using assms(1) by (auto simp: new_Inr Let_def)
  then show ?thesis
    using assms new_facets_ok [OF assms(1)] new_packets_ok [OF assms(1)] new_mandatory_ok [OF assms(1)]
    by (simp add: problem_ok_def)
qed

section \<open>Independence of the caller's order\<close>

lemma objective_bound_loop:
  assumes "length fs \<le> MAX_SELECTION_FACETS_V1" and "\<forall>f \<in> set fs. facet_ok f"
  shows "\<exists>b. rfold objective_bound_step 0 fs = Inr b"
proof -
  have "\<exists>b'. rfold objective_bound_step b fs = Inr b'"
    if "\<forall>f \<in> set fs. facet_ok f" "b + length fs * 2000000000000 \<le> u64_max" for b
    using that
  proof (induction fs arbitrary: b)
    case Nil
    then show ?case by simp
  next
    case (Cons f fs)
    let ?k = "saturation_count (saturation_cardinality (facet_kind f))"
    have w: "facet_weight f * 1000000 \<le> 1000000000000" "?k \<le> 2"
      using Cons.prems(1)
      by (auto simp: facet_ok_def select_const_defs)
         (cases "saturation_cardinality (facet_kind f)"; simp)
    have "facet_weight f * 1000000 * ?k \<le> 1000000000000 * 2"
      using w by (rule mult_le_mono)
    then have c: "facet_weight f * 1000000 * ?k \<le> 2000000000000" by simp
    then have "objective_bound_step b f = Inr (b + facet_weight f * 1000000 * ?k)"
      using w Cons.prems(2)
      by (simp add: objective_bound_step_def AFFINITY_SCALE_V1_def checked_mul_u64_fits checked_add_u64_fits)
    then show ?case using Cons c by simp
  qed
  then show ?thesis using assms by (simp add: select_const_defs)
qed

lemma new_perm:
  assumes new: "SelectionProblemV1_new fs ps ms budget overhead = Inr problem"
    and ok: "\<forall>p \<in> set ps. packet_ok p"
    and perm: "mset fs' = mset fs" "mset ps' = mset ps" "mset ms' = mset ms"
  shows "SelectionProblemV1_new fs' ps' ms' budget overhead = Inr problem"
proof -
  let ?pp = "packet_positions_of (sort_key event_ids ps)"
  have "distinct (map facet_id (sort_key facet_id fs))"
    using new by (simp add: new_Inr Let_def strict_sorted_iff)
  then have "distinct (map facet_id fs)"
    by (metis distinct_map distinct_sort set_sort)
  then have fs: "sort_key facet_id fs' = sort_key facet_id fs"
    using perm(1) by (metis sort_key_perm_eq)
  have "sorted_wrt (<) (map event_ids (sort_key event_ids ps))"
    using new_packets_ok [OF new ok] new_parts(2) [OF new] by (simp add: packets_ok_def)
  then have "distinct (map event_ids ps)"
    by (metis distinct_map distinct_sort set_sort strict_sorted_iff)
  then have ps: "sort_key event_ids ps' = sort_key event_ids ps"
    using perm(2) by (metis sort_key_perm_eq)
  have "distinct (map (mandatory_position ?pp) (problem_mandatory problem))"
    unfolding new_parts(2) [OF new, symmetric] new_mandatory_positions [OF new]
    using new_mandatory_ok [OF new] by (simp add: mandatory_ok_def strict_sorted_iff)
  then have "distinct (map (mandatory_position ?pp) ms)"
    using distinct_map_perm [OF new_parts(3) [OF new]] by blast
  then have ms: "sort_key (mandatory_position ?pp) ms' = sort_key (mandatory_position ?pp) ms"
    using perm(3) by (metis sort_key_perm_eq)
  have len: "length fs' = length fs" "length ps' = length ps" "length ms' = length ms" "set ms' = set ms"
    using perm by (metis size_mset, metis size_mset, metis size_mset, metis mset_eq_setD)
  have "(\<Sum>m\<leftarrow>ms'. h m) = (\<Sum>m\<leftarrow>ms. h m)" for h :: "MandatoryPacketV1 \<Rightarrow> nat"
    using perm(3) by (rule sum_list_perm)
  moreover have "distinct (map packet_id ps') = distinct (map packet_id ps)"
    "distinct (map mandatory_packet_id ms') = distinct (map mandatory_packet_id ms)"
    by (fact distinct_map_perm [OF perm(2)] distinct_map_perm [OF perm(3)])+
  ultimately show ?thesis
    using new fs ps ms len by (simp add: new_Inr Let_def)
qed

end
