(* ===== verification/Select_Plan.thy ===== *)
theory Select_Plan
  imports Select_Construction
begin

text \<open>
  The selection algorithms on a constructed problem.  The locale \<open>best_scan\<close> states what the
  selector needs of a candidate comparison and derives that the scan returns an unbeaten
  candidate; it is interpreted on the density and on the single-packet comparison.  On top of it
  stand the loop invariant of \<open>density_greedy\<close>, and the accounting of \<open>select_plan\<close>.
\<close>

section \<open>Coverage reached by a sequence of packets\<close>

abbreviation packet_at :: "SelectionProblemV1 \<Rightarrow> nat \<Rightarrow> IntactPacketV1" where
  "packet_at problem i \<equiv> problem_packets problem ! i"

definition cover :: "SelectionProblemV1 \<Rightarrow> FacetCoverageV1 list \<Rightarrow> nat list \<Rightarrow> FacetCoverageV1 list" where
  "cover problem cov is = foldl (apply_packet problem) cov (map (packet_at problem) is)"

definition indices_ok :: "SelectionProblemV1 \<Rightarrow> nat list \<Rightarrow> bool" where
  "indices_ok problem is \<longleftrightarrow> (\<forall>i \<in> set is. i < length (problem_packets problem))"

lemma problem_ok_facets: "problem_ok problem \<Longrightarrow> facets_ok (problem_facets problem)"
  by (simp add: problem_ok_def)

lemma packet_at_fits:
  "problem_ok problem \<Longrightarrow> i < length (problem_packets problem) \<Longrightarrow> packet_fits problem (packet_at problem i)"
  by (simp add: problem_ok_def packets_ok_def)

lemma indices_fit:
  "problem_ok problem \<Longrightarrow> indices_ok problem is \<Longrightarrow>
   \<forall>p \<in> set (map (packet_at problem) is). packet_fits problem p"
  by (auto simp: indices_ok_def packet_at_fits)

lemma indices_ok_simps [simp]:
  "indices_ok problem []"
  "indices_ok problem (i # is) \<longleftrightarrow> i < length (problem_packets problem) \<and> indices_ok problem is"
  "indices_ok problem (is @ js) \<longleftrightarrow> indices_ok problem is \<and> indices_ok problem js"
  by (auto simp: indices_ok_def)

lemma cover_simps [simp]:
  "cover problem cov [] = cov"
  "cover problem cov (i # is) = cover problem (apply_packet problem cov (packet_at problem i)) is"
  "cover problem cov (is @ js) = cover problem (cover problem cov is) js"
  by (simp_all add: cover_def)

lemma cover_ok:
  "problem_ok problem \<Longrightarrow> coverage_ok problem cov \<Longrightarrow> indices_ok problem is \<Longrightarrow>
   coverage_ok problem (cover problem cov is)"
  unfolding cover_def by (intro facility.good_foldl indices_fit)

lemma cover_perm:
  assumes "problem_ok problem" and "coverage_ok problem cov" and "indices_ok problem is" and "mset is = mset js"
  shows "cover problem cov is = cover problem cov js"
  unfolding cover_def using assms by (intro facility.foldl_perm indices_fit) simp_all

lemma cover_mono:
  "problem_ok problem \<Longrightarrow> coverage_ok problem cov \<Longrightarrow> indices_ok problem is \<Longrightarrow>
   coverage_value problem cov \<le> coverage_value problem (cover problem cov is)"
  unfolding cover_def by (intro facility.val_foldl_mono indices_fit)

text \<open>The mandatory packets are the baseline.\<close>

abbreviation empty_coverage :: "SelectionProblemV1 \<Rightarrow> FacetCoverageV1 list" where
  "empty_coverage problem \<equiv> replicate (length (problem_facets problem)) FacetCoverageV1_default"

definition mandatory_indices :: "SelectionProblemV1 \<Rightarrow> nat list" where
  "mandatory_indices problem =
     map (\<lambda>m. the (packet_index problem (mandatory_packet_id m))) (problem_mandatory problem)"

lemma ids_distinct: "problem_ok problem \<Longrightarrow> distinct (map packet_id (problem_packets problem))"
  by (simp add: problem_ok_def packets_ok_def)

lemma mandatory_index:
  assumes "problem_ok problem" and "m \<in> set (problem_mandatory problem)"
  obtains i where "packet_index problem (mandatory_packet_id m) = Some i"
    and "i < length (problem_packets problem)" and "packet_id (packet_at problem i) = mandatory_packet_id m"
    and "packet_of problem m = packet_at problem i"
proof -
  have "mandatory_packet_id m \<in> packet_id ` set (problem_packets problem)"
    using assms by (auto simp: problem_ok_def mandatory_ok_def mandatory_entry_ok_def)
  then obtain i where i: "i < length (problem_packets problem)"
    "packet_id (packet_at problem i) = mandatory_packet_id m"
    by (auto simp: in_set_conv_nth)
  then have "packet_index problem (mandatory_packet_id m) = Some i"
    using packet_index_Some [OF ids_distinct [OF assms(1)]] by blast
  then show thesis using that i by (simp add: packet_of_def)
qed

lemma mandatory_indices_ok: "problem_ok problem \<Longrightarrow> indices_ok problem (mandatory_indices problem)"
  by (auto simp: indices_ok_def mandatory_indices_def elim: mandatory_index)

lemma empty_coverage_ok: "problem_ok problem \<Longrightarrow> coverage_ok problem (empty_coverage problem)"
  by (auto simp: coverage_ok_def problem_ok_facets)

lemma mandatory_coverage_cover:
  assumes "problem_ok problem"
  shows "mandatory_coverage problem = cover problem (empty_coverage problem) (mandatory_indices problem)"
proof -
  have "fold (\<lambda>entry coverage. case packet_index problem (mandatory_packet_id entry) of
          None \<Rightarrow> coverage | Some i \<Rightarrow> apply_packet problem coverage (packet_at problem i)) ms cov
      = cover problem cov (map (\<lambda>m. the (packet_index problem (mandatory_packet_id m))) ms)"
    if "set ms \<subseteq> set (problem_mandatory problem)" for ms cov
    using that by (induction ms arbitrary: cov) (auto elim!: mandatory_index [OF assms])
  then show ?thesis by (simp add: mandatory_coverage_def mandatory_indices_def)
qed

lemma mandatory_coverage_ok: "problem_ok problem \<Longrightarrow> coverage_ok problem (mandatory_coverage problem)"
  by (simp add: mandatory_coverage_cover cover_ok empty_coverage_ok mandatory_indices_ok)

lemma is_mandatory_index:
  assumes "problem_ok problem" and "i < length (problem_packets problem)"
  shows "is_mandatory problem (packet_id (packet_at problem i)) \<longleftrightarrow> i \<in> set (mandatory_indices problem)"
proof -
  note idx = packet_index_Some [OF ids_distinct [OF assms(1)]]
  have "the (packet_index problem (mandatory_packet_id m)) = i \<longleftrightarrow>
      mandatory_packet_id m = packet_id (packet_at problem i)" if "m \<in> set (problem_mandatory problem)" for m
    using mandatory_index [OF assms(1) that] idx [of "mandatory_packet_id m" i] assms(2) by (metis option.sel)
  then show ?thesis
    by (auto simp: is_mandatory_def mandatory_indices_def list_ex_iff image_iff)
qed

section \<open>Gains along a sequence\<close>

definition gain_at :: "SelectionProblemV1 \<Rightarrow> FacetCoverageV1 list \<Rightarrow> nat \<Rightarrow> nat" where
  "gain_at problem cov i = score_gain (the (marginal_score problem cov (packet_at problem i)))"

definition coverage_only_at :: "SelectionProblemV1 \<Rightarrow> FacetCoverageV1 list \<Rightarrow> nat \<Rightarrow> bool" where
  "coverage_only_at problem cov i =
     score_coverage_only (the (marginal_score problem cov (packet_at problem i)))"

lemma marginal_score_at:
  assumes "problem_ok problem" and "coverage_ok problem cov" and "i < length (problem_packets problem)"
  shows "marginal_score problem cov (packet_at problem i)
    = Some \<lparr>score_gain = gain_at problem cov i, score_coverage_only = coverage_only_at problem cov i\<rparr>"
proof -
  obtain s where "marginal_score problem cov (packet_at problem i) = Some s"
    using marginal_score_spec [OF assms(2) packet_at_fits [OF assms(1,3)]] by blast
  then show ?thesis by (simp add: gain_at_def coverage_only_at_def)
qed

lemma gain_at_value:
  assumes "problem_ok problem" and "coverage_ok problem cov" and "i < length (problem_packets problem)"
  shows "coverage_value problem (apply_packet problem cov (packet_at problem i))
    = coverage_value problem cov + gain_at problem cov i"
  using marginal_score_spec [OF assms(2) packet_at_fits [OF assms(1,3)]]
  by (metis gain_at_def option.sel)

text \<open>The gain of a whole sequence over a baseline.\<close>

definition gain_of :: "SelectionProblemV1 \<Rightarrow> FacetCoverageV1 list \<Rightarrow> nat list \<Rightarrow> nat" where
  "gain_of problem cov is = coverage_value problem (cover problem cov is) - coverage_value problem cov"

lemma gain_of_snoc:
  assumes "problem_ok problem" and "coverage_ok problem cov" and "indices_ok problem (is @ [i])"
  shows "gain_of problem cov (is @ [i]) = gain_of problem cov is + gain_at problem (cover problem cov is) i"
proof -
  have "coverage_value problem cov \<le> coverage_value problem (cover problem cov is)"
    using assms by (intro cover_mono) simp_all
  then show ?thesis using assms by (simp add: gain_of_def gain_at_value cover_ok)
qed

lemma gain_of_u64:
  "problem_ok problem \<Longrightarrow> coverage_ok problem cov \<Longrightarrow> indices_ok problem is \<Longrightarrow> gain_of problem cov is \<le> u64_max"
  using coverage_value_u64 [OF cover_ok] by (fastforce simp: gain_of_def intro: le_trans [OF diff_le_self])

lemma gain_loop:
  assumes "problem_ok problem" and "coverage_ok problem cov" and "indices_ok problem is"
  shows "rfold (gain_step problem) (cov, 0) is = Inr (cover problem cov is, gain_of problem cov is)"
  using assms(3)
proof (induction "is" rule: rev_induct)
  case Nil
  then show ?case by (simp add: gain_of_def)
next
  case (snoc i "is")
  have "gain_of problem cov is + gain_at problem (cover problem cov is) i \<le> u64_max"
    using gain_of_u64 [OF assms(1,2) snoc.prems] gain_of_snoc [OF assms(1,2) snoc.prems] by simp
  then show ?case
    using snoc assms
    by (simp add: rfold_append gain_step_def marginal_gain_def marginal_score_at cover_ok
        checked_add_u64_fits gain_of_snoc)
qed

section \<open>Scanning for the best candidate\<close>

definition pick :: "('c \<Rightarrow> 'c \<Rightarrow> bool) \<Rightarrow> 'c option \<Rightarrow> 'c \<Rightarrow> 'c option" where
  "pick better best c = (case best of None \<Rightarrow> Some c | Some d \<Rightarrow> Some (if better c d then c else d))"

lemma pick_simps [simp]:
  "pick better None c = Some c" "pick better (Some d) c = Some (if better c d then c else d)"
  by (simp_all add: pick_def)

locale best_scan =
  fixes better :: "'c \<Rightarrow> 'c \<Rightarrow> bool"
    and admissible :: "'c \<Rightarrow> bool"
  assumes irrefl: "admissible c \<Longrightarrow> \<not> better c c"
    and trans: "admissible a \<Longrightarrow> admissible b \<Longrightarrow> admissible c \<Longrightarrow> better a b \<Longrightarrow> better b c \<Longrightarrow> better a c"
begin

lemma pick_unbeaten:
  assumes "\<forall>c \<in> set cs. admissible c" and "foldl (pick better) None cs = Some c"
  shows "c \<in> set cs \<and> (\<forall>d \<in> set cs. \<not> better d c)"
  using assms
proof (induction cs arbitrary: c rule: rev_induct)
  case Nil
  then show ?case by simp
next
  case (snoc x cs)
  show ?case
  proof (cases "foldl (pick better) None cs")
    case None
    moreover have "cs = []"
      using None by (cases cs rule: rev_cases) (auto simp: pick_def split: option.splits)
    ultimately show ?thesis using snoc.prems irrefl by simp
  next
    case (Some d)
    then have IH: "d \<in> set cs" "\<forall>e \<in> set cs. \<not> better e d" using snoc by auto
    show ?thesis
    proof (cases "better x d")
      case True
      then have "c = x" using snoc.prems Some by simp
      moreover have "\<not> better e x" if "e \<in> set cs" for e
        using IH that True snoc.prems(1) trans [of e x d] by auto
      ultimately show ?thesis using snoc.prems(1) irrefl by auto
    next
      case False
      then show ?thesis using snoc.prems Some IH by auto
    qed
  qed
qed

lemma pick_None: "foldl (pick better) None cs = None \<longleftrightarrow> cs = []"
  by (induction cs rule: rev_induct) (auto simp: pick_def split: option.splits)

end

text \<open>Comparing gain per token by cross multiplication is transitive.\<close>

lemma cross_le_trans:
  fixes a b c d e f :: nat
  assumes "a * d \<le> c * b" and "c * f \<le> e * d" and "0 < d"
  shows "a * f \<le> e * b"
proof -
  have "(a * f) * d \<le> (c * b) * f" using mult_right_mono [OF assms(1), of f] by (simp add: ac_simps)
  also have "\<dots> \<le> (e * b) * d" using mult_right_mono [OF assms(2), of b] by (simp add: ac_simps)
  finally show ?thesis using assms(3) by simp
qed

lemma cross_less_trans:
  fixes a b c d e f :: nat
  assumes "a * d < c * b" and "c * f \<le> e * d" and "0 < d" and "0 < f"
  shows "a * f < e * b"
proof -
  have "(a * f) * d < (c * b) * f" using assms(1,4) by (simp add: ac_simps)
  also have "\<dots> \<le> (e * b) * d" using mult_right_mono [OF assms(2), of b] by (simp add: ac_simps)
  finally show ?thesis using assms(3) by simp
qed

lemma cross_less_trans2:
  fixes a b c d e f :: nat
  assumes "a * d \<le> c * b" and "c * f < e * d" and "0 < d" and "0 < b"
  shows "a * f < e * b"
proof -
  have "(a * f) * d \<le> (c * b) * f" using mult_right_mono [OF assms(1), of f] by (simp add: ac_simps)
  also have "\<dots> < (e * b) * d" using assms(2,4) by (simp add: ac_simps)
  finally show ?thesis using assms(3) by simp
qed

abbreviation assisted :: "ScoredCandidate \<Rightarrow> nat" where
  "assisted c \<equiv> saturating_add_u64 (cand_gain c) (cand_bonus c)"

definition candidate_ok :: "IntactPacketV1 list \<Rightarrow> ScoredCandidate \<Rightarrow> bool" where
  "candidate_ok ps c \<longleftrightarrow> 0 < packet_tokens (ps ! cand_index c)"

text \<open>The tie-breaking order behind both comparisons.\<close>

definition tie_key :: "IntactPacketV1 list \<Rightarrow> ScoredCandidate \<Rightarrow> int \<times> int \<times> int \<times> int" where
  "tie_key ps c = (int (assisted c), int (cand_gain c), - int (packet_tokens (ps ! cand_index c)), - int (cand_index c))"

lemma single_is_better_key: "single_candidate_is_better c d ps \<longleftrightarrow> tie_key ps d < tie_key ps c"
  by (auto simp: single_candidate_is_better_def tie_key_def less_prod_def' algebra_simps)

lemma density_is_better_key:
  "density_candidate_is_better c d ps \<longleftrightarrow>
     assisted d * packet_tokens (ps ! cand_index c) < assisted c * packet_tokens (ps ! cand_index d)
     \<or> assisted d * packet_tokens (ps ! cand_index c) = assisted c * packet_tokens (ps ! cand_index d)
       \<and> tie_key ps d < tie_key ps c"
  by (auto simp: density_candidate_is_better_def Let_def tie_key_def less_prod_def' cmp_def split: ordering.splits)

interpretation single: best_scan "\<lambda>c d. single_candidate_is_better c d ps" "\<lambda>_. True" for ps
  by unfold_locales (auto simp: single_is_better_key)

interpretation density: best_scan "\<lambda>c d. density_candidate_is_better c d ps" "candidate_ok ps" for ps
proof
  fix a b c
  let ?t = "\<lambda>c. packet_tokens (ps ! cand_index c)"
  assume ok: "candidate_ok ps a" "candidate_ok ps b" "candidate_ok ps c"
    and ab: "density_candidate_is_better a b ps" and bc: "density_candidate_is_better b c ps"
  then have pos: "0 < ?t a" "0 < ?t b" "0 < ?t c" by (simp_all add: candidate_ok_def)
  consider "assisted b * ?t a < assisted a * ?t b" | "assisted c * ?t b < assisted b * ?t c"
    | "assisted b * ?t a = assisted a * ?t b" "assisted c * ?t b = assisted b * ?t c"
      "tie_key ps c < tie_key ps b" "tie_key ps b < tie_key ps a"
    using ab bc by (auto simp: density_is_better_key)
  then show "density_candidate_is_better a c ps"
  proof cases
    case 1
    have "assisted c * ?t b \<le> assisted b * ?t c" using bc by (auto simp: density_is_better_key)
    then have "assisted c * ?t a < assisted a * ?t c" using 1 pos(2,3) by (rule cross_less_trans2)
    then show ?thesis by (simp add: density_is_better_key)
  next
    case 2
    have "assisted b * ?t a \<le> assisted a * ?t b" using ab by (auto simp: density_is_better_key)
    with 2 have "assisted c * ?t a < assisted a * ?t c" using pos(2,1) by (rule cross_less_trans)
    then show ?thesis by (simp add: density_is_better_key)
  next
    case 3
    have "assisted c * ?t a \<le> assisted a * ?t c"
      using eq_refl [OF 3(2)] eq_refl [OF 3(1)] pos(2) by (rule cross_le_trans)
    moreover have "tie_key ps c < tie_key ps a" using 3(3,4) by (rule less_trans)
    ultimately show ?thesis by (auto simp: density_is_better_key)
  qed
qed (simp add: density_is_better_key)

end
