(* ===== verification/Select_Greedy.thy ===== *)
theory Select_Greedy
  imports Select_Plan
begin

text \<open>
  \<open>density_greedy\<close> and \<open>best_single\<close> on a constructed problem: both return, without arithmetic
  failure, the plan that their specifications \<open>greedy_sequence\<close> and \<open>single_choice\<close> describe.
\<close>

section \<open>What one scan returns\<close>

definition candidate_at ::
  "SelectionProblemV1 \<Rightarrow> FacetCoverageV1 list \<Rightarrow> (PacketIdV1, nat) btree_map \<Rightarrow> nat \<Rightarrow> ScoredCandidate" where
  "candidate_at problem cov pm i =
     \<lparr>cand_index = i, cand_gain = gain_at problem cov i,
      cand_bonus = priority_bonus_v1 (packet_id (packet_at problem i)) (gain_at problem cov i) pm,
      cand_coverage_only = coverage_only_at problem cov i\<rparr>"

definition scan_eligible ::
  "SelectionProblemV1 \<Rightarrow> FacetCoverageV1 list \<Rightarrow> (nat \<Rightarrow> IntactPacketV1 \<Rightarrow> bool) \<Rightarrow> nat \<Rightarrow> nat \<Rightarrow> bool" where
  "scan_eligible problem cov skip rc i \<longleftrightarrow>
     \<not> skip i (packet_at problem i) \<and> 0 < gain_at problem cov i
     \<and> (coverage_only_at problem cov i \<longrightarrow> packet_tokens (packet_at problem i) \<le> rc)"

lemma candidate_at_simps [simp]:
  "cand_index (candidate_at problem cov pm i) = i"
  "cand_gain (candidate_at problem cov pm i) = gain_at problem cov i"
  "cand_coverage_only (candidate_at problem cov pm i) = coverage_only_at problem cov i"
  by (simp_all add: candidate_at_def)

lemma scan_best_spec:
  assumes "problem_ok problem" and "coverage_ok problem cov"
  shows "scan_best problem cov skip rc pm better =
    Inr (foldl (pick (\<lambda>c d. better c d (problem_packets problem))) None
      (map (candidate_at problem cov pm)
        (filter (scan_eligible problem cov skip rc) [0..<length (problem_packets problem)])))"
proof -
  let ?pick = "pick (\<lambda>c d. better c d (problem_packets problem))"
  have loop: "rfold (scan_step problem cov skip rc pm better) best es =
      Inr (foldl ?pick best (map (candidate_at problem cov pm)
        (filter (scan_eligible problem cov skip rc) (map fst es))))"
    if "\<forall>(i, p) \<in> set es. i < length (problem_packets problem) \<and> p = packet_at problem i" for best es
    using that
  proof (induction es arbitrary: best)
    case Nil
    then show ?case by simp
  next
    case (Cons e es)
    obtain i where e: "e = (i, packet_at problem i)" and i: "i < length (problem_packets problem)"
      using Cons.prems by auto
    have "scan_step problem cov skip rc pm better best e =
        Inr (if scan_eligible problem cov skip rc i then ?pick best (candidate_at problem cov pm i) else best)"
      using assms i
      by (auto simp: e scan_step_def scan_eligible_def marginal_score_at candidate_at_def pick_def
          Let_def split: option.split)
    then show ?case using Cons e by simp
  qed
  have "\<forall>(i, p) \<in> set (enumerate 0 (problem_packets problem)).
      i < length (problem_packets problem) \<and> p = packet_at problem i"
    by (auto simp: in_set_enumerate_eq)
  from loop [OF this, of None] show ?thesis by (simp add: scan_best_def)
qed

section \<open>The greedy specification\<close>

definition tokens_of :: "SelectionProblemV1 \<Rightarrow> nat list \<Rightarrow> nat" where
  "tokens_of problem is = (\<Sum>i\<leftarrow>is. packet_tokens (packet_at problem i))"

text \<open>Tokens spent on packets whose gain, when taken, is on coverage strata only.\<close>

fun coverage_only_spent :: "SelectionProblemV1 \<Rightarrow> FacetCoverageV1 list \<Rightarrow> nat list \<Rightarrow> nat" where
  "coverage_only_spent problem cov [] = 0"
| "coverage_only_spent problem cov (i # is) =
     (if coverage_only_at problem cov i then packet_tokens (packet_at problem i) else 0)
     + coverage_only_spent problem (apply_packet problem cov (packet_at problem i)) is"

lemma tokens_of_simps [simp]:
  "tokens_of problem [] = 0"
  "tokens_of problem (i # is) = packet_tokens (packet_at problem i) + tokens_of problem is"
  "tokens_of problem (is @ js) = tokens_of problem is + tokens_of problem js"
  by (simp_all add: tokens_of_def)

lemma coverage_only_spent_append [simp]:
  "coverage_only_spent problem cov (is @ js) =
     coverage_only_spent problem cov is + coverage_only_spent problem (cover problem cov is) js"
  by (induction "is" arbitrary: cov) simp_all

definition greedy_eligible :: "SelectionProblemV1 \<Rightarrow> nat \<Rightarrow> nat \<Rightarrow> nat list \<Rightarrow> nat \<Rightarrow> bool" where
  "greedy_eligible problem budget limit taken i \<longleftrightarrow>
     (let cov = cover problem (mandatory_coverage problem) taken;
          t = packet_tokens (packet_at problem i) in
      i < length (problem_packets problem) \<and> i \<notin> set (mandatory_indices problem) \<and> i \<notin> set taken
      \<and> tokens_of problem taken + t \<le> budget \<and> 0 < gain_at problem cov i
      \<and> (coverage_only_at problem cov i \<longrightarrow>
           coverage_only_spent problem (mandatory_coverage problem) taken + t \<le> limit))"

definition greedy_choice ::
  "SelectionProblemV1 \<Rightarrow> (PacketIdV1, nat) btree_map \<Rightarrow> nat \<Rightarrow> nat \<Rightarrow> nat list \<Rightarrow> nat \<Rightarrow> bool" where
  "greedy_choice problem pm budget limit taken i \<longleftrightarrow>
     (let cov = cover problem (mandatory_coverage problem) taken in
      greedy_eligible problem budget limit taken i
      \<and> (\<forall>j < length (problem_packets problem). greedy_eligible problem budget limit taken j \<longrightarrow>
           \<not> density_candidate_is_better (candidate_at problem cov pm j) (candidate_at problem cov pm i)
               (problem_packets problem)))"

definition greedy_sequence ::
  "SelectionProblemV1 \<Rightarrow> (PacketIdV1, nat) btree_map \<Rightarrow> nat \<Rightarrow> nat \<Rightarrow> nat list \<Rightarrow> bool" where
  "greedy_sequence problem pm budget limit is \<longleftrightarrow>
     (\<forall>k < length is. greedy_choice problem pm budget limit (take k is) (is ! k))"

lemma greedy_sequence_snoc:
  "greedy_sequence problem pm budget limit (is @ [i]) \<longleftrightarrow>
     greedy_sequence problem pm budget limit is \<and> greedy_choice problem pm budget limit is i"
  by (auto simp: greedy_sequence_def nth_append less_Suc_eq)

lemma greedy_sequence_facts:
  assumes "greedy_sequence problem pm budget limit is"
  shows "indices_ok problem is \<and> distinct is \<and> set is \<inter> set (mandatory_indices problem) = {}
    \<and> tokens_of problem is \<le> budget
    \<and> coverage_only_spent problem (mandatory_coverage problem) is \<le> limit"
  using assms
  by (induction "is" rule: rev_induct)
    (auto simp: greedy_sequence_snoc greedy_choice_def greedy_eligible_def Let_def)

section \<open>The greedy loop\<close>

definition greedy_inv ::
  "SelectionProblemV1 \<Rightarrow> (PacketIdV1, nat) btree_map \<Rightarrow> nat \<Rightarrow> nat \<Rightarrow> GreedyState \<Rightarrow> bool" where
  "greedy_inv problem pm budget limit st \<longleftrightarrow>
     (let base = mandatory_coverage problem; is = greedy_items st in
      greedy_sequence problem pm budget limit is
      \<and> length (greedy_chosen st) = length (problem_packets problem)
      \<and> (\<forall>i < length (problem_packets problem).
           greedy_chosen st ! i \<longleftrightarrow> i \<in> set (mandatory_indices problem) \<or> i \<in> set is)
      \<and> greedy_coverage st = cover problem base is
      \<and> greedy_gain st = gain_of problem base is
      \<and> greedy_cost st = tokens_of problem is
      \<and> greedy_remaining st = budget - tokens_of problem is
      \<and> greedy_coverage_only_cost st = coverage_only_spent problem base is
      \<and> greedy_remaining_coverage_only st = limit - coverage_only_spent problem base is)"

lemma greedy_scan_eligible:
  assumes "greedy_inv problem pm budget limit st" and "i < length (problem_packets problem)"
  shows "scan_eligible problem (greedy_coverage st)
      (\<lambda>i packet. is_chosen (greedy_chosen st) i \<or> packet_tokens packet > greedy_remaining st)
      (greedy_remaining_coverage_only st) i
    \<longleftrightarrow> greedy_eligible problem budget limit (greedy_items st) i"
proof -
  have "tokens_of problem (greedy_items st) \<le> budget"
    "coverage_only_spent problem (mandatory_coverage problem) (greedy_items st) \<le> limit"
    using assms(1) greedy_sequence_facts unfolding greedy_inv_def Let_def by blast+
  then show ?thesis
    using assms
    by (auto simp: scan_eligible_def greedy_eligible_def greedy_inv_def is_chosen_def Let_def not_less)
qed

lemma greedy_inv_coverage_ok:
  assumes "problem_ok problem" and "greedy_inv problem pm budget limit st"
  shows "coverage_ok problem (greedy_coverage st)"
  using assms greedy_sequence_facts [of problem pm budget limit "greedy_items st"]
  by (simp add: greedy_inv_def Let_def cover_ok mandatory_coverage_ok)

lemma greedy_scan_spec:
  assumes ok: "problem_ok problem" and inv: "greedy_inv problem pm budget limit st"
  obtains
    (stop) "greedy_scan problem pm st = Inr None"
      and "\<forall>i. \<not> greedy_eligible problem budget limit (greedy_items st) i"
  | (go) i where "greedy_scan problem pm st = Inr (Some (candidate_at problem (greedy_coverage st) pm i))"
      and "greedy_choice problem pm budget limit (greedy_items st) i"
proof -
  let ?n = "length (problem_packets problem)" and ?cov = "greedy_coverage st"
  let ?E = "filter (greedy_eligible problem budget limit (greedy_items st)) [0..<?n]"
  let ?cs = "map (candidate_at problem ?cov pm) ?E"
  let ?best = "foldl (pick (\<lambda>c d. density_candidate_is_better c d (problem_packets problem))) None ?cs"
  have "filter (scan_eligible problem ?cov
      (\<lambda>i packet. is_chosen (greedy_chosen st) i \<or> packet_tokens packet > greedy_remaining st)
      (greedy_remaining_coverage_only st)) [0..<?n] = ?E"
    by (intro filter_cong refl) (simp add: greedy_scan_eligible [OF inv])
  then have scan: "greedy_scan problem pm st = Inr ?best"
    unfolding greedy_scan_def by (simp add: scan_best_spec [OF ok greedy_inv_coverage_ok [OF ok inv]])
  have cov: "?cov = cover problem (mandatory_coverage problem) (greedy_items st)"
    using inv by (simp add: greedy_inv_def Let_def)
  show thesis
  proof (cases ?best)
    case None
    then have "?E = []" by (simp only: density.pick_None list.map_disc_iff)
    moreover have "i < ?n" if "greedy_eligible problem budget limit (greedy_items st) i" for i
      using that by (simp add: greedy_eligible_def Let_def)
    ultimately have "\<forall>i. \<not> greedy_eligible problem budget limit (greedy_items st) i"
      by (metis atLeastLessThan_iff filter_empty_conv le0 set_upt)
    then show thesis using stop scan None by simp
  next
    case (Some c)
    have "0 < packet_tokens (packet_at problem i)" if "i < ?n" for i
      using packet_at_fits [OF ok that] by (simp add: packet_fits_def packet_ok_def cost_ok_def)
    then have "\<forall>c \<in> set ?cs. candidate_ok (problem_packets problem) c"
      by (auto simp: candidate_ok_def)
    from density.pick_unbeaten [OF this Some] obtain i where
      c: "c = candidate_at problem ?cov pm i" and i: "i \<in> set ?E"
      and best: "\<forall>j \<in> set ?E. \<not> density_candidate_is_better (candidate_at problem ?cov pm j) c (problem_packets problem)"
      by auto
    have "greedy_choice problem pm budget limit (greedy_items st) i"
      using i best unfolding greedy_choice_def Let_def cov [symmetric] c by simp
    with c Some scan show thesis by (intro go) simp_all
  qed
qed

lemma greedy_take_spec:
  assumes ok: "problem_ok problem" and inv: "greedy_inv problem pm budget limit st"
    and choice: "greedy_choice problem pm budget limit (greedy_items st) i"
    and small: "budget \<le> u64_max" "limit \<le> u64_max"
  obtains st' where "greedy_take problem (candidate_at problem (greedy_coverage st) pm i) st = Inr st'"
    and "greedy_inv problem pm budget limit st'"
proof -
  let ?base = "mandatory_coverage problem" and ?is = "greedy_items st" and ?t = "packet_tokens (packet_at problem i)"
  have el: "greedy_eligible problem budget limit ?is i" using choice by (simp add: greedy_choice_def Let_def)
  have seq: "greedy_sequence problem pm budget limit (?is @ [i])"
    using inv choice by (simp add: greedy_sequence_snoc greedy_inv_def Let_def)
  note facts = greedy_sequence_facts [OF seq]
  have cov: "greedy_coverage st = cover problem ?base ?is" using inv by (simp add: greedy_inv_def Let_def)
  have gain: "gain_of problem ?base (?is @ [i]) = gain_of problem ?base ?is + gain_at problem (greedy_coverage st) i"
    unfolding cov using ok facts by (intro gain_of_snoc mandatory_coverage_ok) simp_all
  have "gain_of problem ?base (?is @ [i]) \<le> u64_max"
    using ok facts by (intro gain_of_u64 mandatory_coverage_ok) simp_all
  then have take: "greedy_take problem (candidate_at problem (greedy_coverage st) pm i) st =
      Inr \<lparr>greedy_coverage = cover problem ?base (?is @ [i]), greedy_chosen = (greedy_chosen st)[i := True],
        greedy_remaining = budget - tokens_of problem (?is @ [i]),
        greedy_remaining_coverage_only = limit - coverage_only_spent problem ?base (?is @ [i]),
        greedy_items = ?is @ [i], greedy_gain = gain_of problem ?base (?is @ [i]),
        greedy_cost = tokens_of problem (?is @ [i]),
        greedy_coverage_only_cost = coverage_only_spent problem ?base (?is @ [i])\<rparr>"
    using inv facts small gain el
    by (cases "coverage_only_at problem (cover problem ?base ?is) i")
      (simp_all add: greedy_take_def Let_def greedy_inv_def checked_add_u64_fits cov greedy_eligible_def)
  show thesis
    by (rule that [OF take]) (use inv seq facts in \<open>auto simp: greedy_inv_def Let_def nth_list_update\<close>)
qed

lemma density_greedy_loop_spec:
  assumes "problem_ok problem" and "greedy_inv problem pm budget limit st"
    and "budget \<le> u64_max" and "limit \<le> u64_max"
  shows "\<exists>st'. density_greedy_loop problem pm st = Inr st' \<and> greedy_inv problem pm budget limit st'
    \<and> (\<forall>i. \<not> greedy_eligible problem budget limit (greedy_items st') i)"
  using assms
proof (induction problem pm st rule: density_greedy_loop.induct)
  case (1 problem pm st)
  from "1.prems"(1,2) show ?case
  proof (cases rule: greedy_scan_spec)
    case stop
    then show ?thesis using "1.prems" by (simp add: density_greedy_loop.simps [of problem pm st])
  next
    case (go i)
    from "1.prems"(1,2) go(2) "1.prems"(3,4) obtain st' where
      take: "greedy_take problem (candidate_at problem (greedy_coverage st) pm i) st = Inr st'"
      and inv: "greedy_inv problem pm budget limit st'" by (rule greedy_take_spec)
    show ?thesis
      using "1.IH" [OF go(1) refl take] "1.prems" inv go(1) take
      by (simp add: density_greedy_loop.simps [of problem pm st])
  qed
qed

section \<open>The two plans\<close>

lemma mark_mandatory_loop:
  assumes "problem_ok problem" and "set ms \<subseteq> set (problem_mandatory problem)"
    and "length chosen = length (problem_packets problem)"
  shows "\<exists>chosen'. rfold (mark_mandatory problem) chosen ms = Inr chosen'
    \<and> length chosen' = length (problem_packets problem)
    \<and> (\<forall>i < length (problem_packets problem). chosen' ! i \<longleftrightarrow> chosen ! i
         \<or> i \<in> (\<lambda>m. the (packet_index problem (mandatory_packet_id m))) ` set ms)"
  using assms(2,3)
proof (induction ms arbitrary: chosen)
  case Nil
  then show ?case by simp
next
  case (Cons m ms)
  from Cons.prems(1) have "m \<in> set (problem_mandatory problem)" by simp
  then obtain i where i: "packet_index problem (mandatory_packet_id m) = Some i"
    by (rule mandatory_index [OF assms(1)])
  from Cons.IH [of "chosen[i := True]"] Cons.prems obtain chosen' where
    "rfold (mark_mandatory problem) (chosen[i := True]) ms = Inr chosen'"
    "length chosen' = length (problem_packets problem)"
    "\<forall>j < length (problem_packets problem). chosen' ! j \<longleftrightarrow> chosen[i := True] ! j
       \<or> j \<in> (\<lambda>m. the (packet_index problem (mandatory_packet_id m))) ` set ms"
    by auto
  moreover have "chosen[i := True] ! j \<longleftrightarrow> chosen ! j \<or> j = i" if "j < length (problem_packets problem)" for j
    using that Cons.prems(2) by (cases "j = i") simp_all
  ultimately show ?case using i by (auto simp: mark_mandatory_def [of problem chosen m])
qed

lemma density_greedy_spec:
  assumes ok: "problem_ok problem" and small: "budget \<le> u64_max" "limit \<le> u64_max"
  obtains "is" where "density_greedy problem (mandatory_coverage problem) budget limit pm =
      Inr \<lparr>plan_strategy = (if is = [] then MandatoryOnly else DensityGreedy), plan_items = is,
        plan_gain = gain_of problem (mandatory_coverage problem) is, plan_cost = tokens_of problem is,
        plan_coverage_only_cost = coverage_only_spent problem (mandatory_coverage problem) is\<rparr>"
    and "greedy_sequence problem pm budget limit is"
    and "\<forall>i. \<not> greedy_eligible problem budget limit is i"
proof -
  let ?base = "mandatory_coverage problem"
  from mark_mandatory_loop [OF ok subset_refl, of "replicate (length (problem_packets problem)) False"]
  obtain chosen where mark: "rfold (mark_mandatory problem)
        (replicate (length (problem_packets problem)) False) (problem_mandatory problem) = Inr chosen"
    and chosen: "length chosen = length (problem_packets problem)"
      "\<forall>i < length (problem_packets problem). chosen ! i \<longleftrightarrow> i \<in> set (mandatory_indices problem)"
    by (auto simp: mandatory_indices_def)
  let ?st = "\<lparr>greedy_coverage = ?base, greedy_chosen = chosen, greedy_remaining = budget,
      greedy_remaining_coverage_only = limit, greedy_items = [], greedy_gain = 0, greedy_cost = 0,
      greedy_coverage_only_cost = 0\<rparr>"
  have "greedy_inv problem pm budget limit ?st"
    using chosen by (simp add: greedy_inv_def greedy_sequence_def gain_of_def)
  from density_greedy_loop_spec [OF ok this small] obtain st where
    "density_greedy_loop problem pm ?st = Inr st" "greedy_inv problem pm budget limit st"
    "\<forall>i. \<not> greedy_eligible problem budget limit (greedy_items st) i" by blast
  then show thesis using mark
    by (intro that [of "greedy_items st"]) (auto simp: density_greedy_def greedy_inv_def Let_def)
qed

text \<open>The packets that fit alone, and the choice among them.\<close>

lemma best_single_spec:
  assumes ok: "problem_ok problem"
  obtains
    (none) "best_single problem (mandatory_coverage problem) budget limit pm = Inr None"
      and "\<forall>i. \<not> greedy_eligible problem budget limit [] i"
  | (some) i where "best_single problem (mandatory_coverage problem) budget limit pm =
      Inr (Some \<lparr>plan_strategy = BestSingle, plan_items = [i],
        plan_gain = gain_of problem (mandatory_coverage problem) [i], plan_cost = tokens_of problem [i],
        plan_coverage_only_cost = coverage_only_spent problem (mandatory_coverage problem) [i]\<rparr>)"
      and "greedy_eligible problem budget limit [] i"
      and "\<forall>j. greedy_eligible problem budget limit [] j \<longrightarrow>
        \<not> single_candidate_is_better (candidate_at problem (mandatory_coverage problem) pm j)
           (candidate_at problem (mandatory_coverage problem) pm i) (problem_packets problem)"
proof -
  let ?base = "mandatory_coverage problem" and ?n = "length (problem_packets problem)"
  let ?skip = "\<lambda>i packet. is_mandatory problem (packet_id packet) \<or> packet_tokens packet > budget"
  let ?E = "filter (greedy_eligible problem budget limit []) [0..<?n]"
  let ?cs = "map (candidate_at problem ?base pm) ?E"
  let ?best = "foldl (pick (\<lambda>c d. single_candidate_is_better c d (problem_packets problem))) None ?cs"
  have "filter (scan_eligible problem ?base ?skip limit) [0..<?n] = ?E"
    by (intro filter_cong refl)
      (auto simp: scan_eligible_def greedy_eligible_def is_mandatory_index [OF ok] Let_def not_less)
  then have scan: "scan_best problem ?base ?skip limit pm single_candidate_is_better = Inr ?best"
    by (simp add: scan_best_spec [OF ok mandatory_coverage_ok [OF ok]])
  have lt: "i < ?n" if "greedy_eligible problem budget limit [] i" for i
    using that by (simp add: greedy_eligible_def Let_def)
  show thesis
  proof (cases ?best)
    case None
    then have "?E = []" by (simp only: single.pick_None list.map_disc_iff)
    then have "\<forall>i. \<not> greedy_eligible problem budget limit [] i"
      using lt by (metis atLeastLessThan_iff filter_empty_conv le0 set_upt)
    then show thesis using none scan None by (simp add: best_single_def)
  next
    case (Some c)
    from single.pick_unbeaten [OF _ Some] obtain i where
      c: "c = candidate_at problem ?base pm i" and i: "i \<in> set ?E"
      and best: "\<forall>j \<in> set ?E. \<not> single_candidate_is_better (candidate_at problem ?base pm j) c (problem_packets problem)"
      by auto
    have "gain_of problem ?base [i] = gain_at problem ?base i"
      using gain_of_snoc [OF ok mandatory_coverage_ok [OF ok], of "[]" i] lt [of i] i
      by (simp add: gain_of_def [of _ _ "[]"])
    then show thesis
      using scan Some c i best lt
      by (intro some [of i]) (auto simp: best_single_def Let_def)
  qed
qed

end
