(* ===== verification/Select_Decision.thy ===== *)
theory Select_Decision
  imports Select_Greedy
begin

text \<open>
  The decisions of the selector on a constructed problem.  \<open>select_with_priority_map\<close> and
  \<open>select_validated_optional_order\<close> are shown to return, without arithmetic failure, the selection
  that \<open>selection_of\<close> and \<open>ordered_selection_of\<close> spell out.
\<close>

section \<open>Presenting the selected packets\<close>

fun presented ::
  "SelectionProblemV1 \<Rightarrow> SelectionConstraintV1 \<Rightarrow> FacetCoverageV1 list \<Rightarrow> nat list \<Rightarrow> SelectedPacketV1 list" where
  "presented problem c cov [] = []"
| "presented problem c cov (i # is) =
     \<lparr>selected_packet = packet_at problem i,
      selected_facet_kinds = the (packet_facet_kinds problem (packet_at problem i)),
      selected_gain = gain_at problem cov i, forcing_constraint = c\<rparr>
     # presented problem c (apply_packet problem cov (packet_at problem i)) is"

lemma presented_append [simp]:
  "presented problem c cov (is @ js) = presented problem c cov is @ presented problem c (cover problem cov is) js"
  by (induction "is" arbitrary: cov) simp_all

lemma map_presented [simp]:
  "map selected_packet (presented problem c cov is) = map (packet_at problem) is"
  by (induction "is" arbitrary: cov) simp_all

lemma length_presented [simp]: "length (presented problem c cov is) = length is"
  by (induction "is" arbitrary: cov) simp_all

lemma presented_constraint: "s \<in> set (presented problem c cov is) \<Longrightarrow> forcing_constraint s = c"
  by (induction "is" arbitrary: cov) auto

lemma presented_gain:
  assumes "problem_ok problem" and "coverage_ok problem cov" and "indices_ok problem is"
  shows "(\<Sum>s\<leftarrow>presented problem c cov is. selected_gain s) = gain_of problem cov is"
  using assms(3)
  by (induction "is" rule: rev_induct)
    (simp_all add: gain_of_snoc [OF assms(1,2)] gain_of_def [of _ _ "[]"])

definition mandatory_selected :: "SelectionProblemV1 \<Rightarrow> MandatoryPacketV1 \<Rightarrow> SelectedPacketV1" where
  "mandatory_selected problem m =
     \<lparr>selected_packet = packet_of problem m,
      selected_facet_kinds = the (packet_facet_kinds problem (packet_of problem m)), selected_gain = 0,
      forcing_constraint = MandatoryValidatedIdentifier (validated_identifier_facet_id m)\<rparr>"

lemma those_map_Some: "(\<forall>x \<in> set xs. f x \<noteq> None) \<Longrightarrow> those (map f xs) = Some (map (the \<circ> f) xs)"
  by (induction xs) (auto split: option.splits)

lemma packet_facet_kinds_at:
  assumes "problem_ok problem" and "i < length (problem_packets problem)"
  shows "packet_facet_kinds problem (packet_at problem i)
    = Some (the (packet_facet_kinds problem (packet_at problem i)))"
proof -
  have "\<forall>a \<in> set (affinities (packet_at problem i)). facet_index problem (affinity_facet a) \<noteq> None"
    using packet_at_fits [OF assms] facet_index_None [OF problem_ok_facets [OF assms(1)]]
    by (auto simp: packet_fits_def)
  then show ?thesis by (simp add: packet_facet_kinds_def those_map_Some)
qed

lemma select_mandatory_loop:
  assumes ok: "problem_ok problem"
  shows "rfold (select_mandatory_step problem) [] (problem_mandatory problem)
    = Inr (map (mandatory_selected problem) (problem_mandatory problem))"
proof -
  have "rfold (select_mandatory_step problem) acc ms = Inr (acc @ map (mandatory_selected problem) ms)"
    if "set ms \<subseteq> set (problem_mandatory problem)" for acc ms
    using that
  proof (induction ms arbitrary: acc)
    case Nil
    then show ?case by simp
  next
    case (Cons m ms)
    from Cons.prems have "m \<in> set (problem_mandatory problem)" by simp
    from mandatory_index [OF ok this] obtain i where
      i: "packet_index problem (mandatory_packet_id m) = Some i" "i < length (problem_packets problem)"
      "packet_of problem m = packet_at problem i" by metis
    have "select_mandatory_step problem acc m = Inr (acc @ [mandatory_selected problem m])"
      using packet_facet_kinds_at [OF ok i(2)] i
      by (auto simp: select_mandatory_step_def mandatory_selected_def Let_def ok_or_def split: option.splits)
    then show ?case using Cons by simp
  qed
  from this [of "problem_mandatory problem" "[]"] show ?thesis by simp
qed

lemma present_loop:
  assumes ok: "problem_ok problem" and cov: "coverage_ok problem cov" and ind: "indices_ok problem is"
    and strategy: "strategy = DensityGreedy \<and> c = Constraint_DensityGreedy
      \<or> strategy = BestSingle \<and> c = Constraint_BestSingle \<or> is = []"
  shows "rfold (present_step problem strategy) (cov, 0, sel) is
    = Inr (cover problem cov is, gain_of problem cov is, sel @ presented problem c cov is)"
  using ind strategy
proof (induction "is" rule: rev_induct)
  case Nil
  then show ?case by (simp add: gain_of_def)
next
  case (snoc i "is")
  have i: "i < length (problem_packets problem)" using snoc.prems(1) by simp
  have fit: "gain_of problem cov is + gain_at problem (cover problem cov is) i \<le> u64_max"
    using gain_of_u64 [OF ok cov snoc.prems(1)] gain_of_snoc [OF ok cov snoc.prems(1)] by simp
  obtain kinds where kinds: "packet_facet_kinds problem (packet_at problem i) = Some kinds"
    using packet_facet_kinds_at [OF ok i] by blast
  have "present_step problem strategy (cover problem cov is, gain_of problem cov is, sel @ presented problem c cov is) i
      = Inr (cover problem cov (is @ [i]), gain_of problem cov (is @ [i]), sel @ presented problem c cov (is @ [i]))"
    using snoc.prems fit i ok cov kinds
    by (auto simp: present_step_def Let_def marginal_gain_def marginal_score_at cover_ok
        checked_add_u64_fits gain_of_snoc)
  then show ?case using snoc by (auto simp: rfold_append)
qed

lemma presentation_order_perm: "mset (presentation_order problem is) = mset is"
proof -
  have "mset (presentation_order problem is) = image_mset snd (mset (enumerate 0 is))"
    unfolding presentation_order_def by simp
  then show ?thesis by (metis map_snd_enumerate mset_map)
qed

lemma presentation_order_ok: "indices_ok problem is \<Longrightarrow> indices_ok problem (presentation_order problem is)"
  using mset_eq_setD [OF presentation_order_perm [of problem "is"]] by (simp add: indices_ok_def)

lemma gain_of_perm:
  assumes "problem_ok problem" and "coverage_ok problem cov" and "indices_ok problem is" and "mset is = mset js"
  shows "gain_of problem cov is = gain_of problem cov js"
  using cover_perm [OF assms] by (simp add: gain_of_def)

section \<open>The returned selection\<close>

definition strategy_constraint :: "SelectionStrategyV1 \<Rightarrow> SelectionConstraintV1" where
  "strategy_constraint s = (if s = BestSingle then Constraint_BestSingle else Constraint_DensityGreedy)"

definition selection_of :: "SelectionProblemV1 \<Rightarrow> nat \<Rightarrow> SelectionStrategyV1 \<Rightarrow> nat list \<Rightarrow> SelectionV1" where
  "selection_of problem limit strategy is =
     (let base = mandatory_coverage problem in
      \<lparr>sel_strategy = strategy, sel_budget = problem_budget problem, sel_overhead = problem_overhead problem,
       sel_mandatory_cost = problem_mandatory_cost problem,
       sel_packet_cost = problem_mandatory_cost problem + tokens_of problem is,
       sel_accounted_tokens = overhead_tokens (problem_overhead problem)
         + (problem_mandatory_cost problem + tokens_of problem is),
       sel_coverage_only_limit = limit, sel_coverage_only_cost = coverage_only_spent problem base is,
       sel_gain = gain_of problem base is,
       sel_packets = map (mandatory_selected problem) (problem_mandatory problem)
         @ presented problem (strategy_constraint strategy) base (presentation_order problem is)\<rparr>)"

definition optional_budget :: "SelectionProblemV1 \<Rightarrow> nat" where
  "optional_budget problem = problem_budget problem - overhead_tokens (problem_overhead problem)
     - problem_mandatory_cost problem"

definition coverage_only_limit :: "SelectionProblemV1 \<Rightarrow> nat" where
  "coverage_only_limit problem = optional_budget problem div COVERAGE_ONLY_OPTIONAL_BUDGET_DENOMINATOR_V1"

definition mandatory_affordable :: "SelectionProblemV1 \<Rightarrow> bool" where
  "mandatory_affordable problem \<longleftrightarrow>
     overhead_tokens (problem_overhead problem) + problem_mandatory_cost problem \<le> problem_budget problem"

lemma budget_u64:
  assumes "problem_ok problem"
  shows "problem_budget problem \<le> u64_max" "optional_budget problem \<le> u64_max" "coverage_only_limit problem \<le> u64_max"
  using assms by (auto simp: problem_ok_def optional_budget_def coverage_only_limit_def select_const_defs)

lemma accounted_fits:
  "mandatory_affordable problem \<Longrightarrow> n \<le> optional_budget problem \<Longrightarrow>
   overhead_tokens (problem_overhead problem) + (problem_mandatory_cost problem + n) \<le> problem_budget problem"
  by (simp add: mandatory_affordable_def optional_budget_def)

lemma select_plan_spec:
  assumes ok: "problem_ok problem" and afford: "mandatory_affordable problem"
    and ind: "indices_ok problem is" and cost: "tokens_of problem is \<le> optional_budget problem"
    and strategy: "is = [] \<or> strategy = DensityGreedy \<or> strategy = BestSingle"
    and plan: "plan = \<lparr>plan_strategy = strategy, plan_items = is,
        plan_gain = gain_of problem (mandatory_coverage problem) is, plan_cost = tokens_of problem is,
        plan_coverage_only_cost = coverage_only_spent problem (mandatory_coverage problem) is\<rparr>"
  shows "select_plan problem (overhead_tokens (problem_overhead problem)) limit (mandatory_coverage problem) plan
    = Inr (Selected (selection_of problem limit strategy is))"
proof -
  let ?base = "mandatory_coverage problem" and ?order = "presentation_order problem is"
  note base = mandatory_coverage_ok [OF ok]
  have "?order = [] \<longleftrightarrow> is = []"
    using presentation_order_perm [of problem "is"] by (metis mset_zero_iff)
  then have loop: "rfold (present_step problem strategy)
        (?base, 0, map (mandatory_selected problem) (problem_mandatory problem)) ?order
      = Inr (cover problem ?base ?order, gain_of problem ?base ?order,
          map (mandatory_selected problem) (problem_mandatory problem)
          @ presented problem (strategy_constraint strategy) ?base ?order)"
    using strategy by (intro present_loop ok base presentation_order_ok ind) (auto simp: strategy_constraint_def)
  have gain: "gain_of problem ?base ?order = gain_of problem ?base is"
    using ok base presentation_order_ok [OF ind] presentation_order_perm by (rule gain_of_perm)
  have fits: "overhead_tokens (problem_overhead problem) + (problem_mandatory_cost problem + tokens_of problem is)
      \<le> problem_budget problem"
    using afford cost by (rule accounted_fits)
  then show ?thesis
    using budget_u64(1) [OF ok] loop gain
    by (simp add: select_plan_def select_mandatory_loop [OF ok] plan selection_of_def Let_def
        checked_add_u64_fits)
qed

text \<open>The plan chosen between the greedy run and the best single packet.\<close>

definition chosen_plan ::
  "SelectionProblemV1 \<Rightarrow> (PacketIdV1, nat) btree_map \<Rightarrow> SelectionStrategyV1 \<Rightarrow> nat list \<Rightarrow> bool" where
  "chosen_plan problem pm strategy is \<longleftrightarrow>
     (let base = mandatory_coverage problem; B = optional_budget problem; L = coverage_only_limit problem in
      (strategy = (if is = [] then MandatoryOnly else DensityGreedy)
         \<and> greedy_sequence problem pm B L is \<and> (\<forall>i. \<not> greedy_eligible problem B L is i)
       \<or> strategy = BestSingle \<and> (\<exists>i. is = [i] \<and> greedy_eligible problem B L [] i))
      \<and> (\<forall>i. greedy_eligible problem B L [] i \<longrightarrow>
           (\<forall>j. greedy_eligible problem B L [] j \<longrightarrow>
              \<not> single_candidate_is_better (candidate_at problem base pm j) (candidate_at problem base pm i)
                  (problem_packets problem)) \<longrightarrow>
           gain_at problem base i \<le> gain_of problem base is))"

lemma chosen_plan_facts:
  assumes "chosen_plan problem pm strategy is"
  shows "indices_ok problem is \<and> distinct is \<and> set is \<inter> set (mandatory_indices problem) = {}
    \<and> tokens_of problem is \<le> optional_budget problem
    \<and> coverage_only_spent problem (mandatory_coverage problem) is \<le> coverage_only_limit problem
    \<and> (is = [] \<or> strategy = DensityGreedy \<or> strategy = BestSingle)"
  using assms greedy_sequence_facts [of problem pm "optional_budget problem" "coverage_only_limit problem" "is"]
  by (auto simp: chosen_plan_def Let_def greedy_eligible_def)

lemma tie_key_unique:
  "\<not> single_candidate_is_better c d ps \<Longrightarrow> \<not> single_candidate_is_better d c ps \<Longrightarrow> cand_index c = cand_index d"
  by (auto simp: single_is_better_key tie_key_def less_prod_def')

lemma select_with_priority_map_affordable:
  assumes "mandatory_affordable problem"
  shows "select_with_priority_map problem pm =
    rbind (density_greedy problem (mandatory_coverage problem) (optional_budget problem)
        (coverage_only_limit problem) pm) (\<lambda>greedy.
      rbind (best_single problem (mandatory_coverage problem) (optional_budget problem)
          (coverage_only_limit problem) pm) (\<lambda>single.
        select_plan problem (overhead_tokens (problem_overhead problem)) (coverage_only_limit problem)
          (mandatory_coverage problem)
          (case single of
             Some single \<Rightarrow> if plan_is_better single greedy then single else greedy | None \<Rightarrow> greedy)))"
  using assms unfolding select_with_priority_map_def optional_budget_def coverage_only_limit_def Let_def
  by (auto simp: mandatory_affordable_def)

lemma select_with_priority_map_spec:
  assumes ok: "problem_ok problem" and afford: "mandatory_affordable problem"
  obtains strategy "is" where "select_with_priority_map problem pm
      = Inr (Selected (selection_of problem (coverage_only_limit problem) strategy is))"
    and "chosen_plan problem pm strategy is"
proof -
  let ?base = "mandatory_coverage problem"
  let ?B = "optional_budget problem" and ?L = "coverage_only_limit problem"
  let ?plan = "\<lambda>strategy is. \<lparr>plan_strategy = strategy, plan_items = is, plan_gain = gain_of problem ?base is,
      plan_cost = tokens_of problem is, plan_coverage_only_cost = coverage_only_spent problem ?base is\<rparr>"
  obtain gs where greedy: "density_greedy problem ?base ?B ?L pm
        = Inr (?plan (if gs = [] then MandatoryOnly else DensityGreedy) gs)"
    and seq: "greedy_sequence problem pm ?B ?L gs" and full: "\<forall>i. \<not> greedy_eligible problem ?B ?L gs i"
    using ok budget_u64(2,3) [OF ok] by (rule density_greedy_spec)
  have run: "select_with_priority_map problem pm = Inr (Selected (selection_of problem ?L strategy is))"
    if "chosen_plan problem pm strategy is" and "best_single problem ?base ?B ?L pm = Inr single"
      and "(case single of Some s \<Rightarrow> if plan_is_better s (?plan (if gs = [] then MandatoryOnly else DensityGreedy) gs)
              then s else ?plan (if gs = [] then MandatoryOnly else DensityGreedy) gs
            | None \<Rightarrow> ?plan (if gs = [] then MandatoryOnly else DensityGreedy) gs) = ?plan strategy is"
    for strategy "is" single
    using that chosen_plan_facts [OF that(1)] greedy select_plan_spec [OF ok afford, of "is" strategy "?plan strategy is" ?L]
    by (simp add: select_with_priority_map_affordable [OF afford])
  from ok show thesis
  proof (cases rule: best_single_spec [where budget = ?B and limit = ?L and pm = pm])
    case none
    then have "chosen_plan problem pm (if gs = [] then MandatoryOnly else DensityGreedy) gs"
      using seq full by (simp add: chosen_plan_def Let_def)
    then show thesis using that run none(1) by simp
  next
    case (some i)
    have gain_i: "gain_of problem ?base [i] = gain_at problem ?base i"
      using gain_of_snoc [OF ok mandatory_coverage_ok [OF ok], of "[]" i] some(2)
      by (simp add: gain_of_def [of _ _ "[]"] greedy_eligible_def Let_def)
    have only: "j = i" if "greedy_eligible problem ?B ?L [] j"
      "\<forall>k. greedy_eligible problem ?B ?L [] k \<longrightarrow> \<not> single_candidate_is_better (candidate_at problem ?base pm k)
          (candidate_at problem ?base pm j) (problem_packets problem)" for j
      using tie_key_unique [of "candidate_at problem ?base pm i" "candidate_at problem ?base pm j" "problem_packets problem"]
        that some(2,3) by auto
    have dom: "\<forall>j. greedy_eligible problem ?B ?L [] j \<longrightarrow>
        (\<forall>k. greedy_eligible problem ?B ?L [] k \<longrightarrow> \<not> single_candidate_is_better (candidate_at problem ?base pm k)
          (candidate_at problem ?base pm j) (problem_packets problem)) \<longrightarrow> gain_at problem ?base j \<le> g"
      if "gain_at problem ?base i \<le> g" for g
      using only that by blast
    show thesis
    proof (cases "plan_is_better (?plan BestSingle [i]) (?plan (if gs = [] then MandatoryOnly else DensityGreedy) gs)")
      case True
      then have "chosen_plan problem pm BestSingle [i]"
        using some(2) dom [OF eq_refl [OF gain_i [symmetric]]] by (simp add: chosen_plan_def)
      then show thesis using that run some(1) True by simp
    next
      case False
      then have "gain_at problem ?base i \<le> gain_of problem ?base gs"
        by (auto simp: plan_is_better_def gain_i cmp_def split: if_splits ordering.splits)
      then have "chosen_plan problem pm (if gs = [] then MandatoryOnly else DensityGreedy) gs"
        using seq full dom by (simp add: chosen_plan_def)
      then show thesis using that run some(1) False by simp
    qed
  qed
qed

section \<open>Packing in an external order\<close>

text \<open>The packing rule: take a packet exactly when it is still eligible.\<close>

definition pack_order :: "SelectionProblemV1 \<Rightarrow> nat list \<Rightarrow> nat list" where
  "pack_order problem is =
     foldl (\<lambda>taken i. if greedy_eligible problem (optional_budget problem) (coverage_only_limit problem) taken i
       then taken @ [i] else taken) [] is"

lemma pack_order_snoc [simp]:
  "pack_order problem [] = []"
  "pack_order problem (is @ [i]) =
     (if greedy_eligible problem (optional_budget problem) (coverage_only_limit problem) (pack_order problem is) i
      then pack_order problem is @ [i] else pack_order problem is)"
  by (simp_all add: pack_order_def)

lemma pack_order_facts:
  "indices_ok problem (pack_order problem is) \<and> distinct (pack_order problem is)
   \<and> set (pack_order problem is) \<subseteq> set is - set (mandatory_indices problem)
   \<and> tokens_of problem (pack_order problem is) \<le> optional_budget problem
   \<and> coverage_only_spent problem (mandatory_coverage problem) (pack_order problem is) \<le> coverage_only_limit problem"
  by (induction "is" rule: rev_induct) (auto simp: greedy_eligible_def Let_def)

fun gains_along :: "SelectionProblemV1 \<Rightarrow> FacetCoverageV1 list \<Rightarrow> nat list \<Rightarrow> (nat \<times> nat) list" where
  "gains_along problem cov [] = []"
| "gains_along problem cov (i # is) =
     (i, gain_at problem cov i) # gains_along problem (apply_packet problem cov (packet_at problem i)) is"

lemma gains_along_append [simp]:
  "gains_along problem cov (is @ js) = gains_along problem cov is @ gains_along problem (cover problem cov is) js"
  by (induction "is" arbitrary: cov) simp_all

lemma select_ordered_loop:
  assumes ok: "problem_ok problem" and "indices_ok problem is"
  shows "rfold (select_ordered_step problem) sel (gains_along problem cov is)
    = Inr (sel @ presented problem Constraint_ExternalOrderBudgetPack cov is)"
  using assms(2)
proof (induction "is" arbitrary: sel cov)
  case Nil
  then show ?case by simp
next
  case (Cons i "is")
  obtain kinds where "packet_facet_kinds problem (packet_at problem i) = Some kinds"
    using packet_facet_kinds_at [OF ok, of i] Cons.prems by auto
  then show ?case using Cons by (simp add: select_ordered_step_def [of problem sel] Let_def)
qed

definition pack_inv :: "SelectionProblemV1 \<Rightarrow> nat list \<Rightarrow> PackState \<Rightarrow> bool" where
  "pack_inv problem is st \<longleftrightarrow>
     (let base = mandatory_coverage problem; taken = pack_order problem is in
      st = \<lparr>pack_coverage = cover problem base taken,
        pack_remaining = optional_budget problem - tokens_of problem taken,
        pack_remaining_coverage_only = coverage_only_limit problem - coverage_only_spent problem base taken,
        pack_selected = gains_along problem base taken,
        pack_cost = problem_mandatory_cost problem + tokens_of problem taken,
        pack_coverage_only_cost = coverage_only_spent problem base taken,
        pack_gain = gain_of problem base taken\<rparr>)"

lemma pack_step_spec:
  assumes ok: "problem_ok problem" and afford: "mandatory_affordable problem"
    and inv: "pack_inv problem is st" and i: "i < length (problem_packets problem)" "i \<notin> set is"
      "i \<notin> set (mandatory_indices problem)"
  shows "\<exists>st'. pack_step problem st i = Inr st' \<and> pack_inv problem (is @ [i]) st'"
proof -
  let ?base = "mandatory_coverage problem" and ?taken = "pack_order problem is"
  let ?B = "optional_budget problem" and ?L = "coverage_only_limit problem"
  let ?t = "packet_tokens (packet_at problem i)" and ?cov = "cover problem ?base ?taken"
  note facts = pack_order_facts [of problem "is"]
  note base = mandatory_coverage_ok [OF ok]
  have cov: "coverage_ok problem ?cov" using ok base facts by (intro cover_ok) simp_all
  have score: "marginal_score problem ?cov (packet_at problem i) =
      Some \<lparr>score_gain = gain_at problem ?cov i, score_coverage_only = coverage_only_at problem ?cov i\<rparr>"
    using ok cov i(1) by (rule marginal_score_at)
  have fresh: "i \<notin> set ?taken" using facts i(2) by blast
  have ind: "indices_ok problem (?taken @ [i])" using facts i(1) by simp
  have gain: "gain_of problem ?base (?taken @ [i]) = gain_of problem ?base ?taken + gain_at problem ?cov i"
    using ok base ind by (rule gain_of_snoc)
  then have gain_fits: "gain_of problem ?base ?taken + gain_at problem ?cov i \<le> u64_max"
    using gain_of_u64 [OF ok base ind] by simp
  have room: "problem_mandatory_cost problem + ?B \<le> u64_max"
    using budget_u64(1) [OF ok] afford by (simp add: mandatory_affordable_def optional_budget_def)
  have st: "pack_coverage st = ?cov" "pack_remaining st = ?B - tokens_of problem ?taken"
    "pack_remaining_coverage_only st = ?L - coverage_only_spent problem ?base ?taken"
    "pack_selected st = gains_along problem ?base ?taken"
    "pack_cost st = problem_mandatory_cost problem + tokens_of problem ?taken"
    "pack_coverage_only_cost st = coverage_only_spent problem ?base ?taken"
    "pack_gain st = gain_of problem ?base ?taken"
    using inv by (simp_all add: pack_inv_def Let_def)
  show ?thesis
  proof (cases "greedy_eligible problem ?B ?L ?taken i")
    case True
    then have el: "?t \<le> ?B - tokens_of problem ?taken" "0 < gain_at problem ?cov i"
      "coverage_only_at problem ?cov i \<Longrightarrow> coverage_only_spent problem ?base ?taken + ?t \<le> ?L"
      "tokens_of problem ?taken + ?t \<le> ?B"
      by (auto simp: greedy_eligible_def Let_def)
    show ?thesis
      using True el gain gain_fits room budget_u64(3) [OF ok]
      by (cases "coverage_only_at problem ?cov i")
        (simp_all add: pack_step_def pack_inv_def Let_def st score checked_add_u64_fits)
  next
    case False
    then have "pack_step problem st i = Inr st"
      using facts fresh i by (auto simp: pack_step_def Let_def st score greedy_eligible_def)
    then show ?thesis using inv False by (simp add: pack_inv_def)
  qed
qed

lemma pack_loop:
  assumes "problem_ok problem" and "mandatory_affordable problem" and "distinct is" and "indices_ok problem is"
    and "set is \<inter> set (mandatory_indices problem) = {}" and "pack_inv problem [] st"
  shows "\<exists>st'. rfold (pack_step problem) st is = Inr st' \<and> pack_inv problem is st'"
  using assms(3-5)
proof (induction "is" rule: rev_induct)
  case Nil
  then show ?case using assms(6) by simp
next
  case (snoc i "is")
  then obtain st' where "rfold (pack_step problem) st is = Inr st'" "pack_inv problem is st'" by auto
  moreover from pack_step_spec [OF assms(1,2) this(2), of i] snoc.prems obtain st'' where
    "pack_step problem st' i = Inr st''" "pack_inv problem (is @ [i]) st''" by auto
  ultimately show ?case by (simp add: rfold_append)
qed

definition ordered_selection_of :: "SelectionProblemV1 \<Rightarrow> nat list \<Rightarrow> SelectionV1" where
  "ordered_selection_of problem is =
     (let base = mandatory_coverage problem; taken = pack_order problem is in
      \<lparr>sel_strategy = (if taken = [] then MandatoryOnly else ExternalOrderBudgetPack),
       sel_budget = problem_budget problem, sel_overhead = problem_overhead problem,
       sel_mandatory_cost = problem_mandatory_cost problem,
       sel_packet_cost = problem_mandatory_cost problem + tokens_of problem taken,
       sel_accounted_tokens = overhead_tokens (problem_overhead problem)
         + (problem_mandatory_cost problem + tokens_of problem taken),
       sel_coverage_only_limit = coverage_only_limit problem,
       sel_coverage_only_cost = coverage_only_spent problem base taken,
       sel_gain = gain_of problem base taken,
       sel_packets = map (mandatory_selected problem) (problem_mandatory problem)
         @ presented problem Constraint_ExternalOrderBudgetPack base taken\<rparr>)"

lemma select_validated_optional_order_spec:
  assumes ok: "problem_ok problem" and afford: "mandatory_affordable problem"
    and ord: "distinct is" "indices_ok problem is" "set is \<inter> set (mandatory_indices problem) = {}"
  shows "select_validated_optional_order problem is = Inr (Selected (ordered_selection_of problem is))"
proof -
  let ?base = "mandatory_coverage problem" and ?taken = "pack_order problem is"
  let ?st = "\<lparr>pack_coverage = ?base, pack_remaining = optional_budget problem,
      pack_remaining_coverage_only = coverage_only_limit problem, pack_selected = [],
      pack_cost = problem_mandatory_cost problem, pack_coverage_only_cost = 0, pack_gain = 0\<rparr>"
  have "pack_inv problem [] ?st" by (simp add: pack_inv_def gain_of_def)
  from pack_loop [OF ok afford ord this] obtain st where
    loop: "rfold (pack_step problem) ?st is = Inr st" and inv: "pack_inv problem is st" by blast
  have fits: "overhead_tokens (problem_overhead problem) + (problem_mandatory_cost problem + tokens_of problem ?taken)
      \<le> problem_budget problem"
    using afford pack_order_facts [of problem "is"] by (intro accounted_fits) simp_all
  have "select_validated_optional_order problem is =
     rbind (rfold (pack_step problem) ?st is) (\<lambda>st.
         rbind (rfold (select_mandatory_step problem) [] (problem_mandatory problem)) (\<lambda>selected.
         rbind (rfold (select_ordered_step problem) selected (pack_selected st)) (\<lambda>selected.
         rbind (ok_or ArithmeticInvariantViolation
             (checked_add_u64 (overhead_tokens (problem_overhead problem)) (pack_cost st))) (\<lambda>accounted.
           if accounted > problem_budget problem then Inl ArithmeticInvariantViolation
           else Inr (Selected
             \<lparr>sel_strategy = (if length selected = length (problem_mandatory problem)
                then MandatoryOnly else ExternalOrderBudgetPack),
              sel_budget = problem_budget problem, sel_overhead = problem_overhead problem,
              sel_mandatory_cost = problem_mandatory_cost problem,
              sel_packet_cost = pack_cost st, sel_accounted_tokens = accounted,
              sel_coverage_only_limit = coverage_only_limit problem,
              sel_coverage_only_cost = pack_coverage_only_cost st,
              sel_gain = pack_gain st, sel_packets = selected\<rparr>)))))"
    using afford unfolding select_validated_optional_order_def optional_budget_def coverage_only_limit_def Let_def
    by (auto simp: mandatory_affordable_def)
  then show ?thesis
    using loop inv fits budget_u64(1) [OF ok] pack_order_facts [of problem "is"]
    by (simp add: pack_inv_def Let_def select_mandatory_loop [OF ok] select_ordered_loop [OF ok]
        checked_add_u64_fits ordered_selection_of_def)
qed

end
