(* ===== verification/Select_Properties.thy ===== *)
theory Select_Properties
  imports Select_Decision "HOL-Library.Sublist"
begin

text \<open>
  The properties of the selector that its callers rely on, with a concrete problem on which every
  hypothesis holds.
\<close>

section \<open>Resolving packet identifiers\<close>

definition optional_ids_ok :: "SelectionProblemV1 \<Rightarrow> PacketIdV1 list \<Rightarrow> bool" where
  "optional_ids_ok problem pids \<longleftrightarrow>
     distinct pids \<and> set pids \<subseteq> packet_id ` set (problem_packets problem)
     \<and> (\<forall>pid \<in> set pids. \<not> is_mandatory problem pid)"

definition indices_of :: "SelectionProblemV1 \<Rightarrow> PacketIdV1 list \<Rightarrow> nat list" where
  "indices_of problem pids = map (\<lambda>pid. the (packet_index problem pid)) pids"

lemma packet_index_known:
  assumes "problem_ok problem"
  shows "packet_index problem pid \<noteq> None \<longleftrightarrow> pid \<in> packet_id ` set (problem_packets problem)"
  by (auto simp: packet_index_def position_of_None image_iff)

lemma optional_id_loop:
  assumes "problem_ok problem"
  shows "rfold (optional_id_step problem) (seen, is) pids = Inr st \<longleftrightarrow>
    optional_ids_ok problem pids \<and> set pids \<inter> seen = {} \<and> st = (seen \<union> set pids, is @ indices_of problem pids)"
proof (induction pids arbitrary: seen "is")
  case Nil
  then show ?case by (auto simp: optional_ids_ok_def indices_of_def)
next
  case (Cons pid pids)
  show ?case
    using packet_index_known [OF assms, of pid] Cons.IH
    by (cases "packet_index problem pid")
      (auto simp: optional_id_step_def [of problem "(seen, is)" pid] result_simps optional_ids_ok_def indices_of_def)
qed

lemma ordered_id_loop:
  assumes "problem_ok problem"
  shows "rfold (ordered_id_step problem) (seen, is) pids = Inr st \<longleftrightarrow>
    optional_ids_ok problem pids \<and> set pids \<inter> seen = {} \<and> st = (seen \<union> set pids, is @ indices_of problem pids)"
proof (induction pids arbitrary: seen "is")
  case Nil
  then show ?case by (auto simp: optional_ids_ok_def indices_of_def)
next
  case (Cons pid pids)
  show ?case
    using packet_index_known [OF assms, of pid] Cons.IH
    by (cases "packet_index problem pid")
      (auto simp: ordered_id_step_def [of problem "(seen, is)" pid] result_simps optional_ids_ok_def indices_of_def)
qed

lemma packet_index_id:
  assumes "problem_ok problem" and "i < length (problem_packets problem)"
  shows "packet_index problem (packet_id (packet_at problem i)) = Some i"
  using packet_index_Some [OF ids_distinct [OF assms(1)]] assms(2) by blast

lemma indices_of_facts:
  assumes ok: "problem_ok problem" and ids: "optional_ids_ok problem pids"
  shows "indices_ok problem (indices_of problem pids) \<and> distinct (indices_of problem pids)
    \<and> set (indices_of problem pids) \<inter> set (mandatory_indices problem) = {}
    \<and> map (\<lambda>i. packet_id (packet_at problem i)) (indices_of problem pids) = pids"
proof -
  have idx: "the (packet_index problem pid) < length (problem_packets problem)
      \<and> packet_id (packet_at problem (the (packet_index problem pid))) = pid" if pid: "pid \<in> set pids" for pid
  proof -
    obtain i where "packet_index problem pid = Some i"
      using pid ids packet_index_known [OF ok, of pid] by (auto simp: optional_ids_ok_def)
    moreover from this have "i < length (problem_packets problem) \<and> packet_id (packet_at problem i) = pid"
      by (simp add: packet_index_Some [OF ids_distinct [OF ok]])
    ultimately show ?thesis by simp
  qed
  then have ids_back: "map (\<lambda>i. packet_id (packet_at problem i)) (indices_of problem pids) = pids"
    by (simp add: indices_of_def map_idI)
  then have "distinct (indices_of problem pids)"
    using ids by (metis distinct_map optional_ids_ok_def)
  moreover have "set (indices_of problem pids) \<inter> set (mandatory_indices problem) = {}"
    using idx ids is_mandatory_index [OF ok] by (fastforce simp: indices_of_def optional_ids_ok_def)
  ultimately show ?thesis using idx ids_back by (auto simp: indices_ok_def indices_of_def)
qed

lemma indices_of_ids:
  assumes "problem_ok problem" and "indices_ok problem is"
  shows "indices_of problem (map (\<lambda>i. packet_id (packet_at problem i)) is) = is"
  using assms by (auto simp: indices_of_def indices_ok_def packet_index_id intro!: map_idI)

lemma ids_of_indices_ok:
  assumes ok: "problem_ok problem" and "indices_ok problem is" and "distinct is"
    and "set is \<inter> set (mandatory_indices problem) = {}"
  shows "optional_ids_ok problem (map (\<lambda>i. packet_id (packet_at problem i)) is)"
proof -
  have "inj_on (\<lambda>i. packet_id (packet_at problem i)) (set is)"
    using assms(2) ids_distinct [OF ok] by (auto simp: indices_ok_def inj_on_def distinct_conv_nth)
  then show ?thesis
    using assms is_mandatory_index [OF ok] by (auto simp: optional_ids_ok_def distinct_map indices_ok_def)
qed

text \<open>The evaluated gain of an optional set is the objective difference to the mandatory baseline.\<close>

lemma normalized_gain_value:
  assumes ok: "problem_ok problem"
  shows "normalized_gain problem pids = Inr g \<longleftrightarrow>
    optional_ids_ok problem pids \<and> g = gain_of problem (mandatory_coverage problem) (indices_of problem pids)"
proof -
  note base = mandatory_coverage_ok [OF ok]
  have loop: "rfold (gain_step problem) (mandatory_coverage problem, 0) (sort (indices_of problem pids))
      = Inr (cover problem (mandatory_coverage problem) (indices_of problem pids),
          gain_of problem (mandatory_coverage problem) (indices_of problem pids))"
    if "optional_ids_ok problem pids"
  proof -
    have ind: "indices_ok problem (sort (indices_of problem pids))"
      using indices_of_facts [OF ok that] by (simp add: indices_ok_def)
    show ?thesis
      unfolding gain_loop [OF ok base ind] cover_perm [OF ok base ind mset_sort]
        gain_of_perm [OF ok base ind mset_sort] ..
  qed
  show ?thesis
    unfolding normalized_gain_def
    by (auto simp: result_simps optional_id_loop [OF ok] loop split: prod.splits)
qed

lemma selected_plan:
  assumes ok: "problem_ok problem" and sel: "select_with_priority_map problem pm = Inr (Selected sel)"
  obtains strategy "is" where "sel = selection_of problem (coverage_only_limit problem) strategy is"
    and "chosen_plan problem pm strategy is" and "mandatory_affordable problem"
proof -
  have afford: "mandatory_affordable problem"
  proof (rule ccontr)
    assume "\<not> mandatory_affordable problem"
    then show False using sel
      by (auto simp: select_with_priority_map_def needs_more_def mandatory_affordable_def Let_def split: if_splits)
  qed
  show thesis
    using select_with_priority_map_spec [OF ok afford, of pm thesis] sel that afford by auto
qed

lemma mandatory_cost_sum:
  assumes "problem_ok problem"
  shows "(\<Sum>s\<leftarrow>map (mandatory_selected problem) (problem_mandatory problem). packet_tokens (selected_packet s))
    = problem_mandatory_cost problem"
  using assms by (simp add: problem_ok_def mandatory_ok_def mandatory_selected_def o_def)

lemma presented_tokens:
  "(\<Sum>s\<leftarrow>presented problem c cov is. packet_tokens (selected_packet s)) = tokens_of problem is"
  by (induction "is" arbitrary: cov) simp_all

lemma tokens_of_perm: "mset is = mset js \<Longrightarrow> tokens_of problem is = tokens_of problem js"
  unfolding tokens_of_def by (rule sum_list_perm)

lemma presented_ids [simp]:
  "map (\<lambda>s. packet_id (selected_packet s)) (presented problem c cov is) = map (\<lambda>i. packet_id (packet_at problem i)) is"
  by (induction "is" arbitrary: cov) simp_all

lemma packet_of_member:
  "problem_ok problem \<Longrightarrow> m \<in> set (problem_mandatory problem) \<Longrightarrow>
   packet_of problem m \<in> set (problem_packets problem) \<and> packet_id (packet_of problem m) = mandatory_packet_id m"
  by (erule (1) mandatory_index) simp

lemma mandatory_ids_distinct:
  assumes ok: "problem_ok problem"
  shows "distinct (map mandatory_packet_id (problem_mandatory problem))"
proof -
  have "distinct (map (\<lambda>m. the (packet_index problem (mandatory_packet_id m))) (problem_mandatory problem))"
    using ok by (simp add: problem_ok_def mandatory_ok_def strict_sorted_iff)
  then have "distinct (map (\<lambda>pid. the (packet_index problem pid)) (map mandatory_packet_id (problem_mandatory problem)))"
    by (simp add: o_def)
  then show ?thesis using distinct_map by blast
qed

lemma members_of_presented:
  fixes c :: SelectionConstraintV1 and cov :: "FacetCoverageV1 list"
  assumes ok: "problem_ok problem" and ind: "indices_ok problem is" "distinct is"
    "set is \<inter> set (mandatory_indices problem) = {}"
  defines "opt \<equiv> presented problem c cov is"
  defines "packets \<equiv> map (mandatory_selected problem) (problem_mandatory problem) @ opt"
  shows "optional_ids_ok problem (map (\<lambda>s. packet_id (selected_packet s)) opt)
    \<and> distinct (map (\<lambda>s. packet_id (selected_packet s)) packets)
    \<and> (\<forall>s \<in> set packets. selected_packet s \<in> set (problem_packets problem))"
proof -
  have ids: "map (\<lambda>s. packet_id (selected_packet s)) opt = map (\<lambda>i. packet_id (packet_at problem i)) is"
    by (simp add: opt_def)
  have opt_ok: "optional_ids_ok problem (map (\<lambda>i. packet_id (packet_at problem i)) is)"
    using ok ind by (rule ids_of_indices_ok)
  have mand: "map (\<lambda>s. packet_id (selected_packet s)) (map (mandatory_selected problem) (problem_mandatory problem))
      = map mandatory_packet_id (problem_mandatory problem)"
    using packet_of_member [OF ok] by (simp add: mandatory_selected_def)
  have "distinct (map (\<lambda>s. packet_id (selected_packet s)) packets)"
    unfolding packets_def map_append ids mand using mandatory_ids_distinct [OF ok] opt_ok
    by (auto simp: optional_ids_ok_def is_mandatory_def list_ex_iff)
  moreover have "selected_packet s \<in> set (problem_packets problem)" if "s \<in> set packets" for s
  proof -
    have "selected_packet s \<in> set (map selected_packet opt) \<or> s \<in> mandatory_selected problem ` set (problem_mandatory problem)"
      using that by (auto simp: packets_def)
    then show ?thesis
      using ind(1) packet_of_member [OF ok] by (auto simp: opt_def indices_ok_def mandatory_selected_def)
  qed
  ultimately show ?thesis using opt_ok ids by simp
qed

lemma set_presented: "selected_packet ` set (presented problem c cov is) = packet_at problem ` set is"
  by (metis list.set_map map_presented)

text \<open>The optional part of a selection.\<close>

definition optional_part :: "SelectionProblemV1 \<Rightarrow> SelectionV1 \<Rightarrow> SelectedPacketV1 list" where
  "optional_part problem sel = drop (length (problem_mandatory problem)) (sel_packets sel)"

lemma optional_part_simps [simp]:
  "optional_part problem (selection_of problem limit strategy is) =
     presented problem (strategy_constraint strategy) (mandatory_coverage problem) (presentation_order problem is)"
  "optional_part problem (ordered_selection_of problem is) =
     presented problem Constraint_ExternalOrderBudgetPack (mandatory_coverage problem) (pack_order problem is)"
  by (simp_all add: optional_part_def selection_of_def ordered_selection_of_def Let_def)

text \<open>A selection with the packets in the order of presentation.\<close>

lemma selected_order:
  assumes ok: "problem_ok problem" and sel: "select_with_priority_map problem pm = Inr (Selected sel)"
  obtains strategy order where
    "sel_packets sel = map (mandatory_selected problem) (problem_mandatory problem)
       @ presented problem (strategy_constraint strategy) (mandatory_coverage problem) order"
    and "indices_ok problem order" and "distinct order"
    and "set order \<inter> set (mandatory_indices problem) = {}"
    and "sel_gain sel = gain_of problem (mandatory_coverage problem) order"
proof -
  obtain strategy "is" where sel: "sel = selection_of problem (coverage_only_limit problem) strategy is"
    and plan: "chosen_plan problem pm strategy is"
    using assms by (rule selected_plan)
  let ?order = "presentation_order problem is"
  have "set ?order = set is" "distinct ?order = distinct is"
    using presentation_order_perm by (metis mset_eq_setD, metis mset_eq_imp_distinct_iff)
  then have ind: "indices_ok problem ?order" "distinct ?order" "set ?order \<inter> set (mandatory_indices problem) = {}"
    using chosen_plan_facts [OF plan] by (simp_all add: presentation_order_ok)
  show thesis
    by (rule that [OF _ ind])
      (simp_all add: sel selection_of_def Let_def
        gain_of_perm [OF ok mandatory_coverage_ok [OF ok] ind(1) presentation_order_perm])
qed

section \<open>A concrete problem\<close>

definition example_facets :: "ProductionFacetV1 list" where
  "example_facets =
     [\<lparr>facet_id = ''B'', facet_kind = FailureRole, facet_weight = 500000\<rparr>,
      \<lparr>facet_id = ''A'', facet_kind = ValidatedQueryIdentifier, facet_weight = 1000000\<rparr>,
      \<lparr>facet_id = ''C'', facet_kind = TimeCoverageStratum, facet_weight = 200000\<rparr>,
      \<lparr>facet_id = ''D'', facet_kind = ProviderAttestedGraphRelation, facet_weight = 500000\<rparr>]"

definition example_packet :: "bytes \<Rightarrow> bytes \<Rightarrow> nat \<Rightarrow> (bytes \<times> nat) list \<Rightarrow> IntactPacketV1" where
  "example_packet pid event tokens affs =
     \<lparr>packet_id = pid, event_ids = [event],
      packet_cost = \<lparr>cost_model = ''m'', upper_bound_tokens = tokens\<rparr>,
      affinities = map (\<lambda>(f, a). \<lparr>affinity_facet = f, affinity_micros = a\<rparr>) affs\<rparr>"

definition example_packets :: "IntactPacketV1 list" where
  "example_packets =
     [example_packet ''p3'' ''e2'' 5 [(''C'', 1000000)],
      example_packet ''p1'' ''e1'' 10 [(''A'', 1000000), (''D'', 400000)],
      example_packet ''p2'' ''e4'' 20 [(''B'', 800000), (''D'', 900000)],
      example_packet ''p4'' ''e3'' 30 [(''B'', 900000)]]"

definition example_mandatory :: "MandatoryPacketV1 list" where
  "example_mandatory = [\<lparr>mandatory_packet_id = ''p1'', validated_identifier_facet_id = ''A''\<rparr>]"

definition example_overhead :: ReservedFixedOverheadV1 where
  "example_overhead = \<lparr>overhead_cost_model = ''m'', overhead_tokens = 20\<rparr>"

definition example_problem :: "nat \<Rightarrow> SelectionProblemV1" where
  "example_problem budget =
     \<lparr>problem_facets = sort_key facet_id example_facets,
      problem_packets = sort_key event_ids example_packets,
      problem_mandatory = example_mandatory, problem_budget = budget,
      problem_overhead = example_overhead, problem_mandatory_cost = 10\<rparr>"

lemmas example_defs = example_facets_def example_packets_def example_packet_def example_mandatory_def
  example_overhead_def example_problem_def

lemma example_problem_ok: "problem_ok (example_problem 100)"
  by code_simp

section \<open>Construction\<close>

text \<open>
  C1: \<open>SelectionProblemV1::new\<close>, when it accepts inputs built by the checked constructors, yields a
  problem whose facets and packets are strictly sorted and within their bounds, whose packets have
  distinct identifiers, disjoint event sets, only known facets and one cost model, whose mandatory
  entries are resolvable, validated and in packet order, and whose recorded mandatory cost is their
  total; it keeps every facet, packet and mandatory entry.
\<close>

theorem SelectionProblemV1_new_invariant:
  assumes "SelectionProblemV1_new fs ps ms budget overhead = Inr problem"
    and "\<forall>f \<in> set fs. facet_ok f" and "\<forall>p \<in> set ps. packet_ok p"
    and "budget \<le> JSON_SAFE_INTEGER_MAX" and "overhead_tokens overhead \<le> JSON_SAFE_INTEGER_MAX"
  shows "problem_ok problem \<and> mset (problem_facets problem) = mset fs
    \<and> mset (problem_packets problem) = mset ps \<and> mset (problem_mandatory problem) = mset ms
    \<and> problem_budget problem = budget \<and> problem_overhead problem = overhead"
proof -
  have "problem_budget problem = budget" "problem_overhead problem = overhead"
    using assms(1) by (auto simp: new_Inr Let_def)
  then show ?thesis
    using problem_ok_new [OF assms] new_parts [OF assms(1)] by simp
qed

lemma SelectionProblemV1_new_invariant_witness:
  "SelectionProblemV1_new example_facets example_packets example_mandatory 100 example_overhead
     = Inr (example_problem 100) \<and> problem_ok (example_problem 100)"
proof -
  have new: "SelectionProblemV1_new example_facets example_packets example_mandatory 100 example_overhead
      = Inr (example_problem 100)"
    by code_simp
  have "\<forall>f \<in> set example_facets. facet_ok f" "\<forall>p \<in> set example_packets. packet_ok p"
    "100 \<le> JSON_SAFE_INTEGER_MAX" "overhead_tokens example_overhead \<le> JSON_SAFE_INTEGER_MAX"
    by code_simp+
  from SelectionProblemV1_new_invariant [OF new this] new show ?thesis by blast
qed

text \<open>
  C2: the canonical problem does not depend on the order in which the caller lists facets, packets
  and mandatory entries.
\<close>

theorem SelectionProblemV1_new_order_independent:
  assumes "SelectionProblemV1_new fs ps ms budget overhead = Inr problem"
    and "\<forall>p \<in> set ps. packet_ok p"
    and "mset fs' = mset fs" and "mset ps' = mset ps" and "mset ms' = mset ms"
  shows "SelectionProblemV1_new fs' ps' ms' budget overhead = Inr problem"
  using assms by (rule new_perm)

lemma SelectionProblemV1_new_order_independent_witness:
  "SelectionProblemV1_new (rev example_facets) (rev example_packets) example_mandatory 100 example_overhead
     = Inr (example_problem 100)"
proof -
  have new: "SelectionProblemV1_new example_facets example_packets example_mandatory 100 example_overhead
      = Inr (example_problem 100)"
    by code_simp
  have "\<forall>p \<in> set example_packets. packet_ok p" by code_simp
  from SelectionProblemV1_new_order_independent [OF new this] show ?thesis by simp
qed

section \<open>Selection\<close>

text \<open>
  C3: on a constructed problem the selector always reaches a decision: whatever the priorities, no
  checked operation overflows and no internal consistency check fails.  It answers \<open>Selected\<close>
  exactly when the reserved overhead and the mandatory packets fit the budget, and otherwise says
  which of the two did not.
\<close>

theorem select_with_priority_map_decides:
  assumes "problem_ok problem"
  shows "if mandatory_affordable problem
    then \<exists>sel. select_with_priority_map problem pm = Inr (Selected sel)
    else select_with_priority_map problem pm = Inr (needs_more problem
      (if problem_budget problem < overhead_tokens (problem_overhead problem)
       then FixedOverheadExceedsTotalBudget else MandatoryCostExceedsAvailablePacketBudget))"
proof (cases "mandatory_affordable problem")
  case True
  then show ?thesis using select_with_priority_map_spec [OF assms True] by metis
next
  case False
  then show ?thesis
    by (auto simp: select_with_priority_map_def Let_def mandatory_affordable_def)
qed

lemma select_with_priority_map_decides_witness:
  "(\<exists>sel. select_with_priority_map (example_problem 100) [(''p4'', 1000000)] = Inr (Selected sel))"
proof -
  have "mandatory_affordable (example_problem 100)" by code_simp
  then show ?thesis
    using select_with_priority_map_decides [OF example_problem_ok, of "[(''p4'', 1000000)]"] by simp
qed

text \<open>
  C4: the accounting of a selection is exact and within every budget: the packet cost is the sum of
  the token bounds of the selected packets, the accounted total adds the reserved overhead and does
  not exceed the total budget, and the tokens spent on coverage-only packets stay within one eighth
  of the optional budget.
\<close>

theorem select_accounting:
  assumes "problem_ok problem" and "select_with_priority_map problem pm = Inr (Selected sel)"
  shows "sel_packet_cost sel = (\<Sum>s\<leftarrow>sel_packets sel. packet_tokens (selected_packet s))
    \<and> sel_accounted_tokens sel = overhead_tokens (problem_overhead problem) + sel_packet_cost sel
    \<and> sel_accounted_tokens sel \<le> problem_budget problem
    \<and> sel_coverage_only_cost sel \<le> sel_coverage_only_limit sel
    \<and> sel_coverage_only_limit sel = optional_budget problem div 8"
proof -
  obtain strategy "is" where sel: "sel = selection_of problem (coverage_only_limit problem) strategy is"
    and plan: "chosen_plan problem pm strategy is" and afford: "mandatory_affordable problem"
    using assms by (rule selected_plan)
  note facts = chosen_plan_facts [OF plan]
  have "(\<Sum>s\<leftarrow>sel_packets sel. packet_tokens (selected_packet s))
      = problem_mandatory_cost problem + tokens_of problem (presentation_order problem is)"
    using mandatory_cost_sum [OF assms(1)] by (simp add: sel selection_of_def Let_def presented_tokens)
  then show ?thesis
    using facts accounted_fits [OF afford, of "tokens_of problem is"]
      tokens_of_perm [OF presentation_order_perm [of problem "is"]]
    by (simp add: sel selection_of_def Let_def coverage_only_limit_def select_const_defs)
qed

lemma select_accounting_witness:
  "\<exists>sel. select (example_problem 100) = Inr (Selected sel) \<and> sel_packet_cost sel = 65
     \<and> sel_accounted_tokens sel = 85 \<and> sel_coverage_only_cost sel = 5 \<and> sel_coverage_only_limit sel = 8
     \<and> sel_packet_cost sel = (\<Sum>s\<leftarrow>sel_packets sel. packet_tokens (selected_packet s))"
proof -
  have "case select (example_problem 100) of Inr (Selected sel) \<Rightarrow> sel_packet_cost sel = 65
      \<and> sel_accounted_tokens sel = 85 \<and> sel_coverage_only_cost sel = 5 \<and> sel_coverage_only_limit sel = 8
    | _ \<Rightarrow> False"
    by code_simp
  then obtain sel where sel: "select (example_problem 100) = Inr (Selected sel)" "sel_packet_cost sel = 65"
    "sel_accounted_tokens sel = 85" "sel_coverage_only_cost sel = 5" "sel_coverage_only_limit sel = 8"
    by (auto split: sum.splits SelectionDecisionV1.splits)
  from select_accounting [OF example_problem_ok sel(1) [unfolded select_def]] sel show ?thesis by blast
qed

text \<open>
  C5: a selection starts with every mandatory packet, in canonical order and forced by its validated
  identifier; what follows are optional packets of the problem; no packet occurs twice.  Its reported
  gain is the normalized objective gain of the optional packets, as \<open>normalized_gain\<close> evaluates it,
  and the marginal gains shown with the packets add up to it, although packets are presented in a
  different order than they were chosen.
\<close>

theorem select_membership_and_gain:
  assumes "problem_ok problem" and "select_with_priority_map problem pm = Inr (Selected sel)"
  shows "sel_packets sel = map (mandatory_selected problem) (problem_mandatory problem) @ optional_part problem sel
    \<and> optional_ids_ok problem (map (\<lambda>s. packet_id (selected_packet s)) (optional_part problem sel))
    \<and> distinct (map (\<lambda>s. packet_id (selected_packet s)) (sel_packets sel))
    \<and> (\<forall>s \<in> set (sel_packets sel). selected_packet s \<in> set (problem_packets problem))
    \<and> normalized_gain problem (map (\<lambda>s. packet_id (selected_packet s)) (optional_part problem sel)) = Inr (sel_gain sel)
    \<and> (\<Sum>s\<leftarrow>sel_packets sel. selected_gain s) = sel_gain sel"
proof -
  let ?base = "mandatory_coverage problem"
  obtain strategy order where packets: "sel_packets sel = map (mandatory_selected problem) (problem_mandatory problem)
       @ presented problem (strategy_constraint strategy) ?base order"
    and ind: "indices_ok problem order" "distinct order" "set order \<inter> set (mandatory_indices problem) = {}"
    and gain: "sel_gain sel = gain_of problem ?base order"
    using assms by (rule selected_order)
  have ids: "map (\<lambda>s. packet_id (selected_packet s)) (optional_part problem sel)
      = map (\<lambda>i. packet_id (packet_at problem i)) order"
    by (simp add: optional_part_def packets)
  have "(\<Sum>s\<leftarrow>sel_packets sel. selected_gain s) = gain_of problem ?base order"
    using presented_gain [OF assms(1) mandatory_coverage_ok [OF assms(1)] ind(1)]
    by (simp add: packets mandatory_selected_def o_def)
  moreover have "normalized_gain problem (map (\<lambda>s. packet_id (selected_packet s)) (optional_part problem sel)) = Inr (sel_gain sel)"
    using ids_of_indices_ok [OF assms(1) ind]
    by (simp add: ids gain normalized_gain_value [OF assms(1)] indices_of_ids [OF assms(1) ind(1)])
  ultimately show ?thesis
    using members_of_presented [OF assms(1) ind] gain by (simp add: optional_part_def packets)
qed

lemma select_membership_and_gain_witness:
  "\<exists>sel. select (example_problem 100) = Inr (Selected sel) \<and> sel_gain sel = 1100000000000
     \<and> map (\<lambda>s. packet_id (selected_packet s)) (sel_packets sel) = [''p1'', ''p2'', ''p4'', ''p3'']
     \<and> distinct (map (\<lambda>s. packet_id (selected_packet s)) (sel_packets sel))
     \<and> normalized_gain (example_problem 100) [''p2'', ''p4'', ''p3''] = Inr (sel_gain sel)"
proof -
  have "case select (example_problem 100) of Inr (Selected sel) \<Rightarrow> sel_gain sel = 1100000000000
      \<and> map (\<lambda>s. packet_id (selected_packet s)) (sel_packets sel) = [''p1'', ''p2'', ''p4'', ''p3'']
      \<and> map (\<lambda>s. packet_id (selected_packet s)) (optional_part (example_problem 100) sel) = [''p2'', ''p4'', ''p3'']
    | _ \<Rightarrow> False"
    by code_simp
  then obtain sel where sel: "select (example_problem 100) = Inr (Selected sel)" "sel_gain sel = 1100000000000"
    "map (\<lambda>s. packet_id (selected_packet s)) (sel_packets sel) = [''p1'', ''p2'', ''p4'', ''p3'']"
    "map (\<lambda>s. packet_id (selected_packet s)) (optional_part (example_problem 100) sel) = [''p2'', ''p4'', ''p3'']"
    by (auto split: sum.splits SelectionDecisionV1.splits)
  from select_membership_and_gain [OF example_problem_ok sel(1) [unfolded select_def]] sel show ?thesis
    by (intro exI [of _ sel] conjI) simp_all
qed

text \<open>
  C7: the selected gain is never below that of the best single packet: every optional packet that
  fits the optional budget alone, gains something over the mandatory baseline and respects the
  coverage-only quota gains at most what the whole selection gains.
\<close>

theorem select_at_least_best_single:
  assumes "problem_ok problem" and "select problem = Inr (Selected sel)"
    and "p \<in> set (problem_packets problem)" and "\<not> is_mandatory problem (packet_id p)"
    and "packet_tokens p \<le> optional_budget problem"
    and "marginal_score problem (mandatory_coverage problem) p = Some s"
    and "score_coverage_only s \<Longrightarrow> packet_tokens p \<le> optional_budget problem div 8"
  shows "score_gain s \<le> sel_gain sel"
proof (cases "score_gain s = 0")
  case False
  let ?base = "mandatory_coverage problem"
  let ?el = "greedy_eligible problem (optional_budget problem) (coverage_only_limit problem) []"
  let ?better = "\<lambda>j i. single_candidate_is_better (candidate_at problem ?base [] j)
      (candidate_at problem ?base [] i) (problem_packets problem)"
  obtain i where i: "i < length (problem_packets problem)" "p = packet_at problem i"
    using assms(3) by (metis in_set_conv_nth)
  have gain_i: "gain_at problem ?base i = score_gain s"
    using assms(6) by (simp add: gain_at_def i(2))
  have el: "?el i"
    using assms(4,5,6,7) i False is_mandatory_index [OF assms(1) i(1)]
    by (simp add: greedy_eligible_def Let_def gain_at_def coverage_only_at_def coverage_only_limit_def select_const_defs)
  obtain strategy "is" where sel: "sel = selection_of problem (coverage_only_limit problem) strategy is"
    and plan: "chosen_plan problem [] strategy is"
    using assms(1) assms(2) [unfolded select_def] by (rule selected_plan)
  obtain j where j: "?el j" "\<forall>k. ?el k \<longrightarrow> \<not> ?better k j"
    using best_single_spec [OF assms(1)] el by metis
  have "gain_at problem ?base j \<le> sel_gain sel"
    using plan j unfolding chosen_plan_def Let_def by (simp add: sel selection_of_def Let_def)
  moreover have "gain_at problem ?base i \<le> gain_at problem ?base j"
  proof (rule ccontr)
    assume "\<not> gain_at problem ?base i \<le> gain_at problem ?base j"
    moreover have "gain_at problem ?base i \<le> u64_max"
      using gain_at_value [OF assms(1) mandatory_coverage_ok [OF assms(1)] i(1)]
        coverage_value_u64 [OF coverage_ok_apply [OF mandatory_coverage_ok [OF assms(1)] packet_at_fits [OF assms(1) i(1)]]]
      by simp
    ultimately have "?better i j"
      by (simp add: single_is_better_key tie_key_def candidate_at_def priority_bonus_v1_def
          saturating_mul_u128_def saturating_add_u64_def less_prod_def')
    then show False using j(2) el by blast
  qed
  ultimately show ?thesis using gain_i by simp
qed simp

lemma select_at_least_best_single_witness:
  "\<exists>sel. select (example_problem 100) = Inr (Selected sel) \<and> 850000000000 \<le> sel_gain sel"
proof -
  let ?p = "example_packet ''p2'' ''e4'' 20 [(''B'', 800000), (''D'', 900000)]"
  have "case select (example_problem 100) of Inr (Selected sel) \<Rightarrow> True | _ \<Rightarrow> False"
    by code_simp
  then obtain sel where sel: "select (example_problem 100) = Inr (Selected sel)"
    by (auto split: sum.splits SelectionDecisionV1.splits)
  have "?p \<in> set (problem_packets (example_problem 100))"
    "\<not> is_mandatory (example_problem 100) (packet_id ?p)"
    "packet_tokens ?p \<le> optional_budget (example_problem 100)"
    "marginal_score (example_problem 100) (mandatory_coverage (example_problem 100)) ?p
      = Some \<lparr>score_gain = 850000000000, score_coverage_only = False\<rparr>"
    by code_simp+
  from select_at_least_best_single [OF example_problem_ok sel this] sel show ?thesis by auto
qed

text \<open>
  C8: a density-greedy selection is maximal: when the selector does not fall back to a single
  packet, every remaining optional packet either exceeds the remaining budget, gains nothing over
  the selection, or is a coverage-only gain beyond the remaining quota.
\<close>

theorem select_maximal:
  assumes "problem_ok problem" and "select_with_priority_map problem pm = Inr (Selected sel)"
    and "sel_strategy sel \<noteq> BestSingle"
    and "p \<in> set (problem_packets problem)" and "p \<notin> selected_packet ` set (sel_packets sel)"
  shows "problem_budget problem < sel_accounted_tokens sel + packet_tokens p
    \<or> (\<exists>s. marginal_score problem
          (foldl (apply_packet problem) (mandatory_coverage problem) (map selected_packet (optional_part problem sel))) p = Some s
        \<and> (score_gain s = 0 \<or> score_coverage_only s
             \<and> sel_coverage_only_limit sel < sel_coverage_only_cost sel + packet_tokens p))"
proof -
  let ?base = "mandatory_coverage problem"
  obtain strategy "is" where sel: "sel = selection_of problem (coverage_only_limit problem) strategy is"
    and plan: "chosen_plan problem pm strategy is" and afford: "mandatory_affordable problem"
    using assms(1,2) by (rule selected_plan)
  note facts = chosen_plan_facts [OF plan]
  have stuck: "\<not> greedy_eligible problem (optional_budget problem) (coverage_only_limit problem) is i" for i
    using plan assms(3) by (auto simp: chosen_plan_def Let_def sel selection_of_def)
  obtain i where i: "i < length (problem_packets problem)" "p = packet_at problem i"
    using assms(4) by (metis in_set_conv_nth)
  have order: "mset (presentation_order problem is) = mset is" by (rule presentation_order_perm)
  have fold: "foldl (apply_packet problem) ?base (map selected_packet (optional_part problem sel)) = cover problem ?base is"
    using cover_perm [OF assms(1) mandatory_coverage_ok [OF assms(1)] presentation_order_ok order] facts
    by (simp add: sel cover_def)
  have "i \<notin> set is"
    using assms(5) mset_eq_setD [OF order] i(2)
    by (auto simp: sel selection_of_def Let_def image_Un set_presented)
  moreover have "i \<notin> set (mandatory_indices problem)"
    using assms(5) i(2)
    by (auto simp: sel selection_of_def Let_def mandatory_indices_def mandatory_selected_def packet_of_def
        image_Un image_image)
  moreover have "marginal_score problem (cover problem ?base is) p
      = Some \<lparr>score_gain = gain_at problem (cover problem ?base is) i,
          score_coverage_only = coverage_only_at problem (cover problem ?base is) i\<rparr>"
    unfolding i(2) using facts assms(1) i(1)
    by (intro marginal_score_at cover_ok mandatory_coverage_ok) simp_all
  ultimately show ?thesis
    using stuck [of i] i facts afford unfolding fold
    by (auto simp: greedy_eligible_def Let_def sel selection_of_def mandatory_affordable_def optional_budget_def)
qed

lemma select_maximal_witness:
  "\<exists>sel. select (example_problem 58) = Inr (Selected sel) \<and> sel_strategy sel = DensityGreedy
     \<and> (58 < sel_accounted_tokens sel + 30
        \<or> (\<exists>s. marginal_score (example_problem 58)
              (foldl (apply_packet (example_problem 58)) (mandatory_coverage (example_problem 58))
                (map selected_packet (optional_part (example_problem 58) sel)))
              (example_packet ''p4'' ''e3'' 30 [(''B'', 900000)]) = Some s
            \<and> (score_gain s = 0 \<or> score_coverage_only s
              \<and> sel_coverage_only_limit sel < sel_coverage_only_cost sel + 30)))"
proof -
  let ?p = "example_packet ''p4'' ''e3'' 30 [(''B'', 900000)]"
  have ok: "problem_ok (example_problem 58)" by code_simp
  have "case select (example_problem 58) of Inr (Selected sel) \<Rightarrow> sel_strategy sel = DensityGreedy
      \<and> ?p \<notin> selected_packet ` set (sel_packets sel) | _ \<Rightarrow> False"
    by code_simp
  then obtain sel where sel: "select (example_problem 58) = Inr (Selected sel)" "sel_strategy sel = DensityGreedy"
    "?p \<notin> selected_packet ` set (sel_packets sel)"
    by (auto split: sum.splits SelectionDecisionV1.splits)
  have p: "?p \<in> set (problem_packets (example_problem 58))" by code_simp
  have strategy: "sel_strategy sel \<noteq> BestSingle" using sel(2) by simp
  have eqs: "packet_tokens ?p = 30" "problem_budget (example_problem 58) = 58"
    by (simp_all add: example_defs)
  from select_maximal [OF ok sel(1) [unfolded select_def] strategy p sel(3)] sel(1,2) show ?thesis
    unfolding eqs by blast
qed

section \<open>The objective\<close>

text \<open>
  C9: \<open>normalized_gain\<close> is a monotone submodular set function on the optional packets: it succeeds
  on every list of distinct optional packets, does not depend on their order, does not decrease
  when a packet is added, and the gain of adding a packet does not increase when other packets have
  been added before.
\<close>

theorem normalized_gain_submodular:
  assumes "problem_ok problem" and "optional_ids_ok problem (xs @ ys @ [p])"
  shows "\<exists>gx gxp gxy gxyp. normalized_gain problem xs = Inr gx
    \<and> normalized_gain problem (xs @ [p]) = Inr gxp
    \<and> normalized_gain problem (xs @ ys) = Inr gxy
    \<and> normalized_gain problem (xs @ ys @ [p]) = Inr gxyp
    \<and> gx \<le> gxp \<and> gxyp - gxy \<le> gxp - gx
    \<and> (\<forall>zs. mset zs = mset (xs @ ys @ [p]) \<longrightarrow> normalized_gain problem zs = Inr gxyp)"
proof -
  let ?base = "mandatory_coverage problem" and ?ix = "indices_of problem"
  let ?F = "\<lambda>is. coverage_value problem (cover problem ?base is)"
  note base = mandatory_coverage_ok [OF assms(1)]
  have parts: "optional_ids_ok problem xs" "optional_ids_ok problem (xs @ [p])" "optional_ids_ok problem (xs @ ys)"
    using assms(2) by (auto simp: optional_ids_ok_def)
  have app: "?ix (us @ vs) = ?ix us @ ?ix vs" for us vs by (simp add: indices_of_def)
  have ind: "indices_ok problem (?ix xs)" "indices_ok problem (?ix ys)" "indices_ok problem (?ix [p])"
    using indices_of_facts [OF assms] by (simp_all add: app)
  have cov: "coverage_ok problem (cover problem ?base (?ix xs))" using assms(1) base ind(1) by (rule cover_ok)
  have mono: "coverage_value problem ?base \<le> ?F (?ix xs)" "?F (?ix xs) \<le> ?F (?ix (xs @ [p]))"
    "?F (?ix xs) \<le> ?F (?ix (xs @ ys))" "?F (?ix (xs @ ys)) \<le> ?F (?ix (xs @ ys @ [p]))"
    using cover_mono [OF assms(1) base ind(1)] cover_mono [OF assms(1) cov ind(3)] cover_mono [OF assms(1) cov ind(2)]
      cover_mono [OF assms(1) cover_ok [OF assms(1) cov ind(2)] ind(3)]
    by (simp_all add: app)
  have sub: "?F (?ix (xs @ ys @ [p])) + ?F (?ix xs) \<le> ?F (?ix (xs @ [p])) + ?F (?ix (xs @ ys))"
    using facility.gain_block [OF cov indices_fit [OF assms(1) ind(3)] indices_fit [OF assms(1) ind(2)]]
    by (simp add: app cover_def)
  have order: "normalized_gain problem zs = Inr (gain_of problem ?base (?ix (xs @ ys @ [p])))"
    if "mset zs = mset (xs @ ys @ [p])" for zs
  proof -
    have "mset (?ix zs) = mset (?ix (xs @ ys @ [p]))"
      using that unfolding indices_of_def mset_map by simp
    moreover have zs: "optional_ids_ok problem zs"
      using assms(2) mset_eq_setD [OF that] mset_eq_imp_distinct_iff [OF that] by (auto simp: optional_ids_ok_def)
    ultimately show ?thesis
      using gain_of_perm [OF assms(1) base, of "?ix zs"] indices_of_facts [OF assms(1) zs]
      by (simp add: normalized_gain_value [OF assms(1)])
  qed
  let ?g = "\<lambda>us. gain_of problem ?base (?ix us)"
  have "normalized_gain problem xs = Inr (?g xs)" "normalized_gain problem (xs @ [p]) = Inr (?g (xs @ [p]))"
    "normalized_gain problem (xs @ ys) = Inr (?g (xs @ ys))"
    "normalized_gain problem (xs @ ys @ [p]) = Inr (?g (xs @ ys @ [p]))"
    using parts assms(2) by (simp_all add: normalized_gain_value [OF assms(1)])
  moreover have "?g xs \<le> ?g (xs @ [p])" "?g (xs @ ys @ [p]) - ?g (xs @ ys) \<le> ?g (xs @ [p]) - ?g xs"
    using mono sub by (simp_all add: gain_of_def)
  ultimately show ?thesis using order by blast
qed

lemma normalized_gain_submodular_witness:
  "normalized_gain (example_problem 100) [''p4''] = Inr 450000000000
   \<and> normalized_gain (example_problem 100) [''p4'', ''p2''] = Inr 900000000000
   \<and> normalized_gain (example_problem 100) [''p2'', ''p4''] = Inr 900000000000"
proof -
  have "optional_ids_ok (example_problem 100) ([] @ [''p2''] @ [''p4''])" by code_simp
  from normalized_gain_submodular [OF example_problem_ok this]
  obtain g where "\<forall>zs. mset zs = mset ([] @ [''p2''] @ [''p4'']) \<longrightarrow> normalized_gain (example_problem 100) zs = Inr g"
    by blast
  then have "normalized_gain (example_problem 100) [''p4'', ''p2''] = normalized_gain (example_problem 100) [''p2'', ''p4'']"
    by (simp add: add_mset_commute)
  moreover have "normalized_gain (example_problem 100) [''p4''] = Inr 450000000000"
    "normalized_gain (example_problem 100) [''p2'', ''p4''] = Inr 900000000000"
    by code_simp+
  ultimately show ?thesis by simp
qed

section \<open>External order and external priorities\<close>

lemma pack_order_subseq: "subseq (pack_order problem is) is"
  by (induction "is" rule: rev_induct) (auto intro: list_emb_append_mono subseq_rev_drop_many simp: subseq_append_iff)

lemma select_in_optional_order_ok:
  assumes ok: "problem_ok problem" and afford: "mandatory_affordable problem" and ids: "optional_ids_ok problem pids"
  shows "select_in_optional_order problem pids
    = Inr (Selected (ordered_selection_of problem (indices_of problem pids)))"
proof -
  have "length pids = card (set pids)" using ids by (simp add: optional_ids_ok_def distinct_card)
  also have "\<dots> \<le> card (packet_id ` set (problem_packets problem))"
    using ids by (intro card_mono) (simp_all add: optional_ids_ok_def)
  also have "\<dots> \<le> length (problem_packets problem)"
    by (metis card_image_le card_length finite_set order_trans)
  finally have "length pids \<le> length (problem_packets problem)" .
  moreover have "rfold (ordered_id_step problem) ({}, []) pids = Inr (set pids, indices_of problem pids)"
    using ids by (simp add: ordered_id_loop [OF ok])
  ultimately show ?thesis
    using indices_of_facts [OF ok ids]
    by (simp add: select_in_optional_order_def select_validated_optional_order_spec [OF ok afford])
qed

text \<open>
  C10: \<open>select_in_optional_order\<close> accepts exactly the lists of distinct, known, optional packet
  identifiers (when the mandatory packets fit), and then packs them first-fit: the optional packets
  it selects are a subsequence of the given order, each taken exactly if it was still eligible at its
  turn, with exact accounting inside the total budget and the coverage-only quota.
\<close>

theorem select_in_optional_order_packs:
  assumes "problem_ok problem" and "mandatory_affordable problem"
  shows "if optional_ids_ok problem pids
    then \<exists>sel. select_in_optional_order problem pids = Inr (Selected sel)
        \<and> map (\<lambda>s. packet_id (selected_packet s)) (optional_part problem sel)
            = map (\<lambda>i. packet_id (packet_at problem i)) (pack_order problem (indices_of problem pids))
        \<and> subseq (map (\<lambda>s. packet_id (selected_packet s)) (optional_part problem sel)) pids
        \<and> sel_packet_cost sel = (\<Sum>s\<leftarrow>sel_packets sel. packet_tokens (selected_packet s))
        \<and> overhead_tokens (problem_overhead problem) + sel_packet_cost sel \<le> problem_budget problem
        \<and> sel_coverage_only_cost sel \<le> optional_budget problem div 8
        \<and> normalized_gain problem (map (\<lambda>s. packet_id (selected_packet s)) (optional_part problem sel))
            = Inr (sel_gain sel)
    else \<exists>e. select_in_optional_order problem pids = Inl e"
proof (cases "optional_ids_ok problem pids")
  case False
  then have "select_in_optional_order problem pids \<noteq> Inr d" for d
    by (auto simp: select_in_optional_order_def result_simps ordered_id_loop [OF assms(1)] split: if_splits)
  then show ?thesis using False by (cases "select_in_optional_order problem pids") auto
next
  case True
  let ?is = "indices_of problem pids"
  let ?taken = "pack_order problem ?is" and ?sel = "ordered_selection_of problem (indices_of problem pids)"
  note facts = pack_order_facts [of problem ?is]
  have disj: "set ?taken \<inter> set (mandatory_indices problem) = {}" using facts by blast
  have "subseq (map (\<lambda>i. packet_id (packet_at problem i)) ?taken) (map (\<lambda>i. packet_id (packet_at problem i)) ?is)"
    by (rule subseq_map [OF pack_order_subseq])
  then have "subseq (map (\<lambda>i. packet_id (packet_at problem i)) ?taken) pids"
    using indices_of_facts [OF assms(1) True] by simp
  moreover have "sel_packet_cost ?sel = (\<Sum>s\<leftarrow>sel_packets ?sel. packet_tokens (selected_packet s))"
    using mandatory_cost_sum [OF assms(1)] by (simp add: ordered_selection_of_def Let_def presented_tokens)
  moreover have "overhead_tokens (problem_overhead problem) + sel_packet_cost ?sel \<le> problem_budget problem"
    "sel_coverage_only_cost ?sel \<le> optional_budget problem div 8"
    using facts accounted_fits [OF assms(2), of "tokens_of problem ?taken"]
    by (simp_all add: ordered_selection_of_def Let_def coverage_only_limit_def select_const_defs)
  moreover have "normalized_gain problem (map (\<lambda>i. packet_id (packet_at problem i)) ?taken) = Inr (sel_gain ?sel)"
    using facts ids_of_indices_ok [OF assms(1) _ _ disj]
    by (simp add: normalized_gain_value [OF assms(1)] indices_of_ids [OF assms(1)] ordered_selection_of_def Let_def)
  ultimately show ?thesis
    using True select_in_optional_order_ok [OF assms True] by simp
qed

lemma select_in_optional_order_packs_witness:
  "\<exists>sel. select_in_optional_order (example_problem 75) [''p4'', ''p2'', ''p3''] = Inr (Selected sel)
     \<and> subseq (map (\<lambda>s. packet_id (selected_packet s)) (optional_part (example_problem 75) sel)) [''p4'', ''p2'', ''p3'']
     \<and> map (\<lambda>s. packet_id (selected_packet s)) (optional_part (example_problem 75) sel) = [''p4'', ''p3'']"
proof -
  have hyps: "problem_ok (example_problem 75)" "mandatory_affordable (example_problem 75)"
    and ids: "optional_ids_ok (example_problem 75) [''p4'', ''p2'', ''p3'']"
    by code_simp+
  have "map (\<lambda>i. packet_id (packet_at (example_problem 75) i))
      (pack_order (example_problem 75) (indices_of (example_problem 75) [''p4'', ''p2'', ''p3''])) = [''p4'', ''p3'']"
    by code_simp
  then show ?thesis
    using select_in_optional_order_packs [OF hyps, of "[''p4'', ''p2'', ''p3'']"] ids by auto
qed






















text \<open>A problem with one packet that covers two full-weight facets completely.\<close>

definition example_rich_problem :: SelectionProblemV1 where
  "example_rich_problem =
     \<lparr>problem_facets =
        [\<lparr>facet_id = ''A'', facet_kind = FailureRole, facet_weight = 1000000\<rparr>,
         \<lparr>facet_id = ''B'', facet_kind = OnsetRole, facet_weight = 1000000\<rparr>],
      problem_packets = [example_packet ''p1'' ''e1'' 10 [(''A'', 1000000), (''B'', 1000000)]],
      problem_mandatory = [], problem_budget = 100, problem_overhead = example_overhead,
      problem_mandatory_cost = 0\<rparr>"

text \<open>
  The influence of a priority is not bounded by one percent of one full-scale weight and
  affinity contribution: on a well-formed problem, a packet that covers several facets receives,
  for an affinity in range, a bonus above that bound.
\<close>

theorem priority_bonus_exceeds_one_contribution:
  "\<exists>problem p a gain. problem_ok problem \<and> p \<in> set (problem_packets problem)
     \<and> 0 < a \<and> a \<le> AFFINITY_SCALE_V1
     \<and> marginal_gain problem (mandatory_coverage problem) p = Some gain
     \<and> AFFINITY_SCALE_V1 * AFFINITY_SCALE_V1 div 100
         < priority_bonus_v1 (packet_id p) gain (bt_insert (packet_id p) a [])"
proof -
  let ?p = "example_packet ''p1'' ''e1'' 10 [(''A'', 1000000), (''B'', 1000000)]"
  have "problem_ok example_rich_problem" "?p \<in> set (problem_packets example_rich_problem)"
    "marginal_gain example_rich_problem (mandatory_coverage example_rich_problem) ?p = Some 2000000000000"
    "AFFINITY_SCALE_V1 * AFFINITY_SCALE_V1 div 100
       < priority_bonus_v1 (packet_id ?p) 2000000000000 (bt_insert (packet_id ?p) 1000000 [])"
    "0 < (1000000 :: nat)" "1000000 \<le> AFFINITY_SCALE_V1"
    by code_simp+
  then show ?thesis by blast
qed

end
