(* ===== verification/Schema.thy ===== *)
theory Schema
  imports Prelude
begin

text \<open>
  The transport vocabulary of \<open>crates/evidentrail-schema\<close>: source lanes, exact record bytes, raw
  envelopes, provider attestations, acquisition outcomes and their reconciled receipt, and the
  terminal fetch completion.  Identifiers and digests are byte strings; the 32-byte width of the
  Rust arrays plays no role in the code modelled here.  Text (\<open>String\<close>) is its UTF-8 bytes.
\<close>

type_synonym RetrievalId = bytes
type_synonym PlanId = bytes
type_synonym PlanDigest = bytes
type_synonym SourceIdentityDigest = bytes
type_synonym SourceRecordId = bytes
type_synonym EventId = bytes
type_synonym BlockId = bytes
type_synonym ContentHash = bytes
type_synonym PolicyDigest = bytes
type_synonym TransformationReceiptId = bytes
type_synonym AcquisitionReceiptId = bytes
type_synonym PresentationReceiptId = bytes

section \<open>Bounds\<close>

definition MAX_WIRE_OBJECT_BYTES :: nat where "MAX_WIRE_OBJECT_BYTES = 16 * 1024 * 1024"
definition MAX_LOG_BRIEF_EVIDENCE_PACKETS :: nat where "MAX_LOG_BRIEF_EVIDENCE_PACKETS = 512"
definition MAX_AUTHORIZED_RECORD_BYTES :: nat where "MAX_AUTHORIZED_RECORD_BYTES = 8 * 1024 * 1024"
definition MAX_RECORD_TERMINATOR_BYTES :: nat where "MAX_RECORD_TERMINATOR_BYTES = 64"
definition MAX_PROVIDER_ATTESTATION_VALUE_BYTES_V1 :: nat where
  "MAX_PROVIDER_ATTESTATION_VALUE_BYTES_V1 = 4 * 1024"
definition MAX_PROVIDER_ATTESTATIONS_PER_EVENT_V1 :: nat where
  "MAX_PROVIDER_ATTESTATIONS_PER_EVENT_V1 = 64"
definition MAX_TRANSFORMATION_OPERATIONS :: nat where "MAX_TRANSFORMATION_OPERATIONS = 256"
definition MAX_EVENT_BLOCK_MEMBERS :: nat where "MAX_EVENT_BLOCK_MEMBERS = 4096"

section \<open>Raw envelopes\<close>

datatype EnvelopeConstructionError =
    EmptyAdapterKind | EmptyAdapterVersion | EmptySourceMember | EmptyNativeEventId
  | EmptySourceCursor | EmptyRawTimestamp

record AdapterIdentity =
  adapter_kind :: bytes
  adapter_version :: bytes

definition AdapterIdentity_new ::
  "bytes \<Rightarrow> bytes \<Rightarrow> (EnvelopeConstructionError, AdapterIdentity) result" where
  "AdapterIdentity_new kind version =
     (if kind = [] then Inl EmptyAdapterKind
      else if version = [] then Inl EmptyAdapterVersion
      else Inr \<lparr>adapter_kind = kind, adapter_version = version\<rparr>)"

text \<open>The macro \<open>opaque_bytes_type!\<close>: non-empty byte strings with their own error.\<close>

type_synonym SourceMember = bytes
type_synonym NativeEventId = bytes
type_synonym SourceCursor = bytes
type_synonym RawTimestamp = bytes

definition opaque_bytes_new ::
  "EnvelopeConstructionError \<Rightarrow> bytes \<Rightarrow> (EnvelopeConstructionError, bytes) result" where
  "opaque_bytes_new empty_error value = (if value = [] then Inl empty_error else Inr value)"

datatype SourceStream =
    Stdout | Stderr | Container | Journal | LogStream | FileMember
  | OtherVersionedStream nat nat

fun stream_code :: "SourceStream \<Rightarrow> bytes" where
  "stream_code Stdout = ''stdout''"
| "stream_code Stderr = ''stderr''"
| "stream_code Container = ''container''"
| "stream_code Journal = ''journal''"
| "stream_code LogStream = ''log_stream''"
| "stream_code FileMember = ''file_member''"
| "stream_code (OtherVersionedStream _ _) = ''other_versioned''"

text \<open>The derived order: variants in declaration order, then their fields.\<close>

fun stream_key :: "SourceStream \<Rightarrow> nat \<times> nat \<times> nat" where
  "stream_key Stdout = (0, 0, 0)"
| "stream_key Stderr = (1, 0, 0)"
| "stream_key Container = (2, 0, 0)"
| "stream_key Journal = (3, 0, 0)"
| "stream_key LogStream = (4, 0, 0)"
| "stream_key FileMember = (5, 0, 0)"
| "stream_key (OtherVersionedStream version code) = (6, version, code)"

lemma stream_key_inj: "stream_key a = stream_key b \<Longrightarrow> a = b"
  by (cases a; cases b) simp_all

instantiation SourceStream :: linorder
begin

definition less_eq_SourceStream where
  "(a :: SourceStream) \<le> b \<longleftrightarrow> stream_key a \<le> stream_key b"

definition less_SourceStream where
  "(a :: SourceStream) < b \<longleftrightarrow> stream_key a < stream_key b"

instance
  by standard (auto simp: less_eq_SourceStream_def less_SourceStream_def intro: stream_key_inj)

end

text \<open>A lane is a source member and a stream, ordered in this order.\<close>

type_synonym LaneKey = "SourceMember \<times> SourceStream"

datatype RecordBytes = Framed bytes bytes | Whole bytes

fun rec_payload :: "RecordBytes \<Rightarrow> bytes" where
  "rec_payload (Framed payload terminator) = payload"
| "rec_payload (Whole payload) = payload"

fun rec_terminator :: "RecordBytes \<Rightarrow> bytes option" where
  "rec_terminator (Framed payload terminator) = Some terminator"
| "rec_terminator (Whole payload) = None"

definition payload_len :: "RecordBytes \<Rightarrow> nat" where
  "payload_len r = length (rec_payload r)"

definition source_len :: "RecordBytes \<Rightarrow> nat" where
  "source_len r = saturating_add_u64 (payload_len r)
     (case rec_terminator r of None \<Rightarrow> 0 | Some t \<Rightarrow> length t)"

definition append_exact_to :: "RecordBytes \<Rightarrow> bytes \<Rightarrow> bytes" where
  "append_exact_to r destination =
     (let destination = destination @ rec_payload r in
      case rec_terminator r of None \<Rightarrow> destination | Some t \<Rightarrow> destination @ t)"

definition record_exact_bytes :: "RecordBytes \<Rightarrow> bytes" where
  "record_exact_bytes r = append_exact_to r []"

lemma record_exact_bytes_simps [simp]:
  "record_exact_bytes (Framed p t) = p @ t" "record_exact_bytes (Whole p) = p"
  by (simp_all add: record_exact_bytes_def append_exact_to_def)

lemma record_exact_bytes_length:
  "length (record_exact_bytes r) = payload_len r + (case rec_terminator r of None \<Rightarrow> 0 | Some t \<Rightarrow> length t)"
  by (cases r) (simp_all add: payload_len_def)

lemma source_len_exact: "length (record_exact_bytes r) \<le> u64_max \<Longrightarrow> source_len r = length (record_exact_bytes r)"
  by (simp add: source_len_def saturating_add_u64_def record_exact_bytes_length)

datatype RecordFragmentReason =
    FragmentProviderTruncation | FragmentSourceByteCap | FragmentPerRecordByteCap
  | FragmentSourceReadError | FragmentMalformedProviderFraming | FragmentOtherVersioned nat nat

fun fragment_reason_code :: "RecordFragmentReason \<Rightarrow> bytes" where
  "fragment_reason_code FragmentProviderTruncation = ''provider_truncation''"
| "fragment_reason_code FragmentSourceByteCap = ''source_byte_cap''"
| "fragment_reason_code FragmentPerRecordByteCap = ''per_record_byte_cap''"
| "fragment_reason_code FragmentSourceReadError = ''source_read_error''"
| "fragment_reason_code FragmentMalformedProviderFraming = ''malformed_provider_framing''"
| "fragment_reason_code (FragmentOtherVersioned _ _) = ''other_versioned''"

datatype RecordState =
    RecordComplete | SourceTruncated RecordFragmentReason | AdapterFragment RecordFragmentReason

fun record_state_code :: "RecordState \<Rightarrow> bytes" where
  "record_state_code RecordComplete = ''complete''"
| "record_state_code (SourceTruncated _) = ''source_truncated''"
| "record_state_code (AdapterFragment _) = ''adapter_fragment''"

fun record_is_complete :: "RecordState \<Rightarrow> bool" where
  "record_is_complete RecordComplete = True"
| "record_is_complete _ = False"

text \<open>Timestamps are \<open>i128\<close> nanoseconds; metadata and hints are carried, never interpreted.\<close>

record SourceTimestamp =
  timestamp_raw :: RawTimestamp
  timestamp_parsed :: "int option"

record EnvelopeTimestamps =
  ts_source :: "SourceTimestamp option"
  provider_observed_at :: "int option"
  adapter_emitted_at :: "int option"
  adapter_monotonic_time :: "nat option"

datatype NativeMetadataValue =
    MetadataNull | MetadataBoolean bool | MetadataSigned int | MetadataUnsigned nat
  | MetadataFloatBits nat | MetadataText bytes | MetadataBytes bytes
  | MetadataSequence "NativeMetadataValue list" | MetadataMap "(bytes \<times> NativeMetadataValue) list"

type_synonym NativeMetadata = "(bytes \<times> NativeMetadataValue) list"

datatype RecordFormatHint =
  PlainText | Json | Logfmt | Syslog | StackTraceHint | FormatOtherVersioned nat nat

datatype EncodingHint =
  Utf8 | Utf16LittleEndian | Utf16BigEndian | Latin1 | Binary | EncodingOtherVersioned nat nat

record RecordHints =
  hint_format :: "RecordFormatHint option"
  hint_encoding :: "EncodingHint option"

subsection \<open>Provider attestations\<close>

datatype ProviderAttestedRelationKindV1 =
    TraceIdentity | RequestIdentity | SessionIdentity | HostIdentity | ContainerIdentity
  | DeploymentIdentity | ServiceIdentity

fun relation_kind_code :: "ProviderAttestedRelationKindV1 \<Rightarrow> bytes" where
  "relation_kind_code TraceIdentity = ''trace_identity''"
| "relation_kind_code RequestIdentity = ''request_identity''"
| "relation_kind_code SessionIdentity = ''session_identity''"
| "relation_kind_code HostIdentity = ''host_identity''"
| "relation_kind_code ContainerIdentity = ''container_identity''"
| "relation_kind_code DeploymentIdentity = ''deployment_identity''"
| "relation_kind_code ServiceIdentity = ''service_identity''"

fun relation_kind_rank :: "ProviderAttestedRelationKindV1 \<Rightarrow> nat" where
  "relation_kind_rank TraceIdentity = 0"
| "relation_kind_rank RequestIdentity = 1"
| "relation_kind_rank SessionIdentity = 2"
| "relation_kind_rank HostIdentity = 3"
| "relation_kind_rank ContainerIdentity = 4"
| "relation_kind_rank DeploymentIdentity = 5"
| "relation_kind_rank ServiceIdentity = 6"

datatype ProviderAttestationOriginV1 = AdapterNativeField

fun attestation_origin_code :: "ProviderAttestationOriginV1 \<Rightarrow> bytes" where
  "attestation_origin_code AdapterNativeField = ''adapter_native_field''"

datatype ProviderAttestationConstructionError = EmptyValue | ValueTooLarge | TooManyAttestations

definition ProviderAttestationValueV1_new ::
  "bytes \<Rightarrow> (ProviderAttestationConstructionError, bytes) result" where
  "ProviderAttestationValueV1_new value =
     (if value = [] then Inl EmptyValue
      else if length value > MAX_PROVIDER_ATTESTATION_VALUE_BYTES_V1 then Inl ValueTooLarge
      else Inr value)"

record ProviderAttestedCorrelationV1 =
  scope_digest :: bytes
  relation_kind :: ProviderAttestedRelationKindV1
  attestation_origin :: ProviderAttestationOriginV1
  attestation_value :: bytes

text \<open>The derived order of correlations: scope, kind, origin (a single value), value.\<close>

definition correlation_key :: "ProviderAttestedCorrelationV1 \<Rightarrow> bytes \<times> nat \<times> bytes" where
  "correlation_key c = (scope_digest c, relation_kind_rank (relation_kind c), attestation_value c)"

type_synonym ProviderAttestationsV1 = "ProviderAttestedCorrelationV1 list"

definition ProviderAttestationsV1_new ::
  "ProviderAttestedCorrelationV1 list \<Rightarrow>
   (ProviderAttestationConstructionError, ProviderAttestationsV1) result" where
  "ProviderAttestationsV1_new entries =
     rbind (rfold (\<lambda>canonical_entries entry.
         if length canonical_entries \<ge> MAX_PROVIDER_ATTESTATIONS_PER_EVENT_V1
         then Inl TooManyAttestations else Inr (canonical_entries @ [entry])) [] entries)
       (\<lambda>canonical_entries. Inr (remdups_adj (sort_key correlation_key canonical_entries)))"

subsection \<open>Envelopes\<close>

record RawEnvelopeIdentityV1 =
  env_retrieval_id :: RetrievalId
  env_plan_id :: PlanId
  env_plan_digest :: PlanDigest
  env_adapter :: AdapterIdentity
  env_source_identity_digest :: SourceIdentityDigest

record EnvelopeOrdering =
  acquisition_sequence :: nat
  ord_lane :: LaneKey
  lane_sequence :: nat

record RawEnvelopeV1 =
  env_identity :: RawEnvelopeIdentityV1
  env_ordering :: EnvelopeOrdering
  env_native_event_id :: "NativeEventId option"
  env_cursor :: "SourceCursor option"
  env_record :: RecordBytes
  env_state :: RecordState
  env_timestamps :: EnvelopeTimestamps
  env_metadata :: "NativeMetadata option"
  env_provider_attestations :: ProviderAttestationsV1
  env_hints :: RecordHints

definition RawEnvelopeV1_CONTRACT_VERSION :: nat where "RawEnvelopeV1_CONTRACT_VERSION = 1"

definition EnvelopeTimestamps_default :: EnvelopeTimestamps where
  "EnvelopeTimestamps_default =
     \<lparr>ts_source = None, provider_observed_at = None, adapter_emitted_at = None, adapter_monotonic_time = None\<rparr>"

definition RecordHints_default :: RecordHints where
  "RecordHints_default = \<lparr>hint_format = None, hint_encoding = None\<rparr>"

definition RawEnvelopeV1_new ::
  "RawEnvelopeIdentityV1 \<Rightarrow> EnvelopeOrdering \<Rightarrow> RecordBytes \<Rightarrow> RecordState \<Rightarrow> RawEnvelopeV1" where
  "RawEnvelopeV1_new ident ord rec state =
     \<lparr>env_identity = ident, env_ordering = ord, env_native_event_id = None, env_cursor = None,
      env_record = rec, env_state = state, env_timestamps = EnvelopeTimestamps_default,
      env_metadata = None, env_provider_attestations = [], env_hints = RecordHints_default\<rparr>"

end
