(* ===== verification/Acquisition.thy ===== *)
theory Acquisition
  imports Schema
begin

text \<open>
  Acquisition outcomes with their reconciled receipt (\<open>evidentrail-schema/src/acquisition.rs\<close>), and
  the terminal fetch completion with its projection to provider completeness (\<open>fetch.rs\<close>,
  \<open>provenance.rs\<close>).
\<close>

section \<open>Outcomes and receipts\<close>

datatype ExactnessBasis = SourceExact | PostPolicy PolicyDigest TransformationReceiptId

fun exactness_code :: "ExactnessBasis \<Rightarrow> bytes" where
  "exactness_code SourceExact = ''source_exact''"
| "exactness_code (PostPolicy _ _) = ''post_policy''"

datatype AcquisitionOutcome = Persisted EventId ExactnessBasis | OmittedByPolicy PolicyDigest

fun outcome_code :: "AcquisitionOutcome \<Rightarrow> bytes" where
  "outcome_code (Persisted _ SourceExact) = ''source_exact''"
| "outcome_code (Persisted _ (PostPolicy _ _)) = ''post_policy''"
| "outcome_code (OmittedByPolicy _) = ''omitted_by_policy''"

fun persisted_event_id :: "AcquisitionOutcome \<Rightarrow> EventId option" where
  "persisted_event_id (Persisted event_id _) = Some event_id"
| "persisted_event_id (OmittedByPolicy _) = None"

text \<open>An assignment and a receipt entry: the source record and its outcome.\<close>

type_synonym AcquisitionOutcomeAssignment = "SourceRecordId \<times> AcquisitionOutcome"
type_synonym AcquisitionReceiptEntry = "SourceRecordId \<times> AcquisitionOutcome"

record AcquisitionCounts =
  source_exact :: nat
  post_policy :: nat
  omitted_by_policy :: nat

definition AcquisitionCounts_default :: AcquisitionCounts where
  "AcquisitionCounts_default = \<lparr>source_exact = 0, post_policy = 0, omitted_by_policy = 0\<rparr>"

definition counts_acknowledged :: "AcquisitionCounts \<Rightarrow> nat" where
  "counts_acknowledged c = source_exact c + post_policy c + omitted_by_policy c"

fun counts_observe :: "AcquisitionCounts \<Rightarrow> AcquisitionOutcome \<Rightarrow> AcquisitionCounts" where
  "counts_observe c (Persisted _ SourceExact) = c\<lparr>source_exact := source_exact c + 1\<rparr>"
| "counts_observe c (Persisted _ (PostPolicy _ _)) = c\<lparr>post_policy := post_policy c + 1\<rparr>"
| "counts_observe c (OmittedByPolicy _) = c\<lparr>omitted_by_policy := omitted_by_policy c + 1\<rparr>"

record AcquisitionReceipt =
  receipt_retrieval_id :: RetrievalId
  receipt_entries :: "AcquisitionReceiptEntry list"
  receipt_counts :: AcquisitionCounts

datatype AcquisitionReceiptError =
    DuplicateExpectedSourceRecord SourceRecordId | UnknownSourceRecord SourceRecordId
  | DuplicateOutcomeAssignment SourceRecordId | MissingOutcomeAssignments "SourceRecordId list"
  | DuplicatePersistedEvent EventId | AcquisitionPanic

definition expected_step ::
  "SourceRecordId set \<times> SourceRecordId list \<Rightarrow> SourceRecordId \<Rightarrow>
   (AcquisitionReceiptError, SourceRecordId set \<times> SourceRecordId list) result" where
  "expected_step state source_record_id =
     (case state of (expected_set, expected_order) \<Rightarrow>
       if source_record_id \<in> expected_set then Inl (DuplicateExpectedSourceRecord source_record_id)
       else Inr (insert source_record_id expected_set, expected_order @ [source_record_id]))"

definition assignment_step ::
  "SourceRecordId set \<Rightarrow> (SourceRecordId, AcquisitionOutcome) btree_map \<times> EventId set \<Rightarrow>
   AcquisitionOutcomeAssignment \<Rightarrow>
   (AcquisitionReceiptError, (SourceRecordId, AcquisitionOutcome) btree_map \<times> EventId set) result" where
  "assignment_step expected_set state assignment =
     (case state of (outcomes_by_source, persisted_events) \<Rightarrow>
      case assignment of (source_record_id, outcome) \<Rightarrow>
       if source_record_id \<notin> expected_set then Inl (UnknownSourceRecord source_record_id)
       else if map_of outcomes_by_source source_record_id \<noteq> None
       then Inl (DuplicateOutcomeAssignment source_record_id)
       else case persisted_event_id outcome of
          None \<Rightarrow> Inr (bt_insert source_record_id outcome outcomes_by_source, persisted_events)
        | Some event_id \<Rightarrow>
            if event_id \<in> persisted_events then Inl (DuplicatePersistedEvent event_id)
            else Inr (bt_insert source_record_id outcome outcomes_by_source, insert event_id persisted_events))"

text \<open>
  The final loop removes each outcome from the map.  \<open>AcquisitionPanic\<close> stands for the \<open>expect\<close> on a
  missing one, which the check before the loop excludes.
\<close>

definition entry_step ::
  "(SourceRecordId, AcquisitionOutcome) btree_map \<times> AcquisitionCounts \<times> AcquisitionReceiptEntry list \<Rightarrow>
   SourceRecordId \<Rightarrow>
   (AcquisitionReceiptError,
    (SourceRecordId, AcquisitionOutcome) btree_map \<times> AcquisitionCounts \<times> AcquisitionReceiptEntry list) result" where
  "entry_step state source_record_id =
     (case state of (outcomes_by_source, counts, entries) \<Rightarrow>
       rbind (ok_or AcquisitionPanic (map_of outcomes_by_source source_record_id)) (\<lambda>outcome.
       Inr (bt_remove source_record_id outcomes_by_source, counts_observe counts outcome,
            entries @ [(source_record_id, outcome)])))"

definition AcquisitionReceipt_reconcile ::
  "RetrievalId \<Rightarrow> SourceRecordId list \<Rightarrow> AcquisitionOutcomeAssignment list \<Rightarrow>
   (AcquisitionReceiptError, AcquisitionReceipt) result" where
  "AcquisitionReceipt_reconcile retrieval expected assignments =
     rbind (rfold expected_step ({}, []) expected) (\<lambda>(expected_set, expected_order).
     rbind (rfold (assignment_step expected_set) ([], {}) assignments) (\<lambda>(outcomes_by_source, persisted_events).
     let missing = filter (\<lambda>s. map_of outcomes_by_source s = None) expected_order in
     if missing \<noteq> [] then Inl (MissingOutcomeAssignments missing)
     else rbind (rfold entry_step (outcomes_by_source, AcquisitionCounts_default, []) expected_order)
       (\<lambda>(_, counts, entries).
         Inr \<lparr>receipt_retrieval_id = retrieval, receipt_entries = entries, receipt_counts = counts\<rparr>)))"

subsection \<open>What reconciliation accepts\<close>

definition persisted_ids :: "(SourceRecordId \<times> AcquisitionOutcome) list \<Rightarrow> EventId list" where
  "persisted_ids entries = List.map_filter (\<lambda>e. persisted_event_id (snd e)) entries"

lemma persisted_ids_simps [simp]:
  "persisted_ids [] = []"
  "persisted_ids (e # es) = (case persisted_event_id (snd e) of None \<Rightarrow> [] | Some i \<Rightarrow> [i]) @ persisted_ids es"
  "persisted_ids (es @ fs) = persisted_ids es @ persisted_ids fs"
  by (simp_all add: persisted_ids_def List.map_filter_def split: option.split)

lemma expected_loop:
  "rfold expected_step (S, xs) expected = Inr st \<longleftrightarrow>
     distinct expected \<and> set expected \<inter> S = {} \<and> st = (S \<union> set expected, xs @ expected)"
  by (induction expected arbitrary: S xs) (auto simp: expected_step_def [of "(_, _)"] result_simps)

lemma assignment_loop:
  "rfold (assignment_step E) (m, P) as = Inr st \<longleftrightarrow>
     fst ` set as \<subseteq> E \<and> distinct (map fst as) \<and> fst ` set as \<inter> dom (map_of m) = {}
     \<and> distinct (persisted_ids as) \<and> set (persisted_ids as) \<inter> P = {}
     \<and> st = (fold (\<lambda>(k, v). bt_insert k v) as m, P \<union> set (persisted_ids as))"
proof (induction as arbitrary: m P)
  case Nil
  then show ?case by auto
next
  case (Cons a as)
  obtain s oc where a: "a = (s, oc)" by (cases a)
  show ?case
    using Cons.IH
    by (cases "persisted_event_id oc"; cases "map_of m s")
      (auto simp: assignment_step_def [of E "(m, P)" "(s, oc)"] a result_simps)
qed

fun count_outcomes :: "AcquisitionCounts \<Rightarrow> AcquisitionReceiptEntry list \<Rightarrow> AcquisitionCounts" where
  "count_outcomes c [] = c"
| "count_outcomes c (e # es) = count_outcomes (counts_observe c (snd e)) es"

lemma entry_loop:
  assumes "distinct xs" and "\<forall>x \<in> set xs. map_of m x = Some (f x)"
  shows "rfold entry_step (m, c, es) xs =
    Inr (filter (\<lambda>e. fst e \<notin> set xs) m, count_outcomes c (map (\<lambda>x. (x, f x)) xs), es @ map (\<lambda>x. (x, f x)) xs)"
  using assms
proof (induction xs arbitrary: m c es)
  case Nil
  then show ?case by simp
next
  case (Cons x xs)
  have "\<forall>y \<in> set xs. map_of (bt_remove x m) y = Some (f y)"
    using Cons.prems by auto
  then have "rfold entry_step (bt_remove x m, counts_observe c (f x), es @ [(x, f x)]) xs =
      Inr (filter (\<lambda>e. fst e \<notin> set xs) (bt_remove x m),
       count_outcomes (counts_observe c (f x)) (map (\<lambda>x. (x, f x)) xs),
       (es @ [(x, f x)]) @ map (\<lambda>x. (x, f x)) xs)"
    using Cons.prems(1) by (intro Cons.IH) simp_all
  moreover have "entry_step (m, c, es) x = Inr (bt_remove x m, counts_observe c (f x), es @ [(x, f x)])"
    using Cons.prems(2) by (simp add: entry_step_def)
  ultimately show ?case by (simp add: bt_remove_def)
qed

lemma counts_acknowledged_observe [simp]:
  "counts_acknowledged (counts_observe c oc) = Suc (counts_acknowledged c)"
  by (cases "(c, oc)" rule: counts_observe.cases) (simp_all add: counts_acknowledged_def)

lemma count_outcomes_acknowledged: "counts_acknowledged (count_outcomes c es) = counts_acknowledged c + length es"
  by (induction es arbitrary: c) simp_all

text \<open>
  Reconciliation succeeds exactly on a one-to-one assignment; the receipt lists the outcomes in the
  expected order.
\<close>

lemma reconcile_Inr:
  "AcquisitionReceipt_reconcile retrieval expected as = Inr r \<longleftrightarrow>
     distinct expected \<and> distinct (map fst as) \<and> fst ` set as = set expected \<and> distinct (persisted_ids as)
     \<and> r = \<lparr>receipt_retrieval_id = retrieval,
            receipt_entries = map (\<lambda>s. (s, the (map_of as s))) expected,
            receipt_counts = count_outcomes AcquisitionCounts_default (map (\<lambda>s. (s, the (map_of as s))) expected)\<rparr>"
proof -
  let ?m = "fold (\<lambda>(k, v). bt_insert k v) as []"
  have get: "map_of ?m s = map_of as s" if "distinct (map fst as)" for s
  proof (cases "s \<in> fst ` set as")
    case True
    then obtain v where "(s, v) \<in> set as" by auto
    then show ?thesis using that by (simp add: bt.fold_put_get)
  next
    case False
    then show ?thesis using map_of_eq_None_iff [of as s] by (simp add: bt.fold_put_other)
  qed
  have none: "(filter (\<lambda>s. map_of as s = None) expected = []) \<longleftrightarrow> set expected \<subseteq> fst ` set as"
    by (auto simp: filter_empty_conv map_of_eq_None_iff)
  have entries: "rfold entry_step (?m, AcquisitionCounts_default, []) expected =
      Inr (filter (\<lambda>e. fst e \<notin> set expected) ?m,
       count_outcomes AcquisitionCounts_default (map (\<lambda>s. (s, the (map_of as s))) expected),
       map (\<lambda>s. (s, the (map_of as s))) expected)"
    if "distinct expected" "distinct (map fst as)" "set expected \<subseteq> fst ` set as"
  proof -
    have "\<forall>s \<in> set expected. map_of ?m s = Some (the (map_of as s))"
      using that get by (metis map_of_eq_None_iff option.collapse subsetD)
    from entry_loop [OF that(1) this] show ?thesis by simp
  qed
  show ?thesis
    unfolding AcquisitionReceipt_reconcile_def
    using none entries get
    by (auto simp: result_simps expected_loop assignment_loop Let_def split: prod.splits)
qed

section \<open>Provider completeness\<close>

datatype PartialReason =
    PR_RowCap | PR_ProviderCap | PR_SourceByteCap | PR_ExpandedByteCap | PR_PageCap
  | PR_WallTimeCap | PR_RecordCountCap | PR_BackpressureLimit | PR_SourceChanged
  | PR_SourceDisappeared | PR_RecordTruncated | PR_ProviderTruncation | PR_SourceReadError
  | PR_PaginationIncomplete | PR_Timeout | PR_PermissionLimited | PR_AuthenticationChanged
  | PR_RetentionBoundary | PR_Sampled | PR_Cancelled | PR_ChildExitFailure | PR_ChildKilled
  | PR_NetworkFailure | PR_MalformedProviderFraming | PR_DecompressionLimit | PR_SinkFailure
  | PR_OtherVersioned nat nat

record PartialReasons =
  reasons_first :: PartialReason
  reasons_additional :: "PartialReason list"

datatype UnknownCompletenessReason =
    UR_ProviderDoesNotReport | UR_AdapterCannotVerify | UR_RetrievalBoundaryIndeterminate
  | UR_ProviderHasNoCompletenessProof | UR_RetentionUnobservable | UR_HighWaterMarkUnverifiable
  | UR_EventuallyConsistentWindow | UR_LiveStreamOpenEnded | UR_AdapterCapabilityLimit

datatype ProviderCompleteness =
    ProviderComplete
  | ProviderPartial PartialReasons "bytes option" "bytes option"
  | ProviderUnknown UnknownCompletenessReason

fun provider_is_complete :: "ProviderCompleteness \<Rightarrow> bool" where
  "provider_is_complete ProviderComplete = True"
| "provider_is_complete _ = False"

section \<open>Fetch completion\<close>

record FetchIdentity =
  fetch_retrieval_id :: RetrievalId
  fetch_plan_id :: PlanId
  fetch_plan_digest :: PlanDigest
  fetch_adapter :: AdapterIdentity

record FetchTiming =
  started_at :: int
  ended_at :: int

record AcknowledgedCounts =
  ack_records :: nat
  ack_payload_bytes :: nat
  ack_source_bytes :: nat

record AttemptCounts =
  attempted :: nat
  completed :: nat

record FetchBoundaries =
  first_cursor :: "SourceCursor option"
  final_cursor :: "SourceCursor option"
  high_water_marks :: "(SourceMember \<times> SourceCursor) list"

datatype CapKind =
    CapRecords | CapSourceBytes | CapExpandedBytes | CapPages | CapMembers | CapPerRecordBytes
  | CapInFlightBytes | CapEncryptedSpoolBytes | CapWallTimeMillis | CapDiagnosticBytes
  | CapOtherVersioned nat nat

record CapUsage =
  cap_kind :: CapKind
  cap_used :: nat
  cap_limit :: nat
  cap_reached :: bool

datatype AdapterOutcome =
    AdapterFinished | AdapterCancelled | AdapterDeadlineExceeded | AdapterProviderStopped
  | AdapterSourceStopped | AdapterSinkStopped | AdapterStopped

datatype FetchErrorCode =
    FE_AuthenticationChanged | FE_PermissionDenied | FE_SourceUnavailable | FE_SourceChanged
  | FE_ProviderFailure | FE_NetworkFailure | FE_ChildExitFailure | FE_ChildKilled
  | FE_MalformedProviderFraming | FE_SourceReadFailure | FE_SinkFailure
  | FE_AdapterInvariantViolation | FE_OtherVersioned nat nat

datatype CompletenessProof =
    FixedSnapshotVerified | PlannedUnixFileSnapshotVerifiedV1 | ProviderBoundaryExhausted
  | FinalCursorVerified | ReplayManifestVerified | InMemoryFixtureExhausted
  | ProofOtherVersioned nat nat

datatype FetchPartialReason =
    FP_RowCap | FP_RecordCountCap | FP_SourceByteCap | FP_ExpandedByteCap | FP_PageCap
  | FP_WallTimeCap | FP_Timeout | FP_Cancelled | FP_BackpressureLimit | FP_PaginationIncomplete
  | FP_ProviderCap | FP_ProviderTruncation | FP_PermissionLimited | FP_AuthenticationChanged
  | FP_RetentionBoundary | FP_SourceChanged | FP_SourceDisappeared | FP_SourceReadError
  | FP_ChildExitFailure | FP_ChildKilled | FP_NetworkFailure | FP_MalformedProviderFraming
  | FP_RecordTruncated | FP_DecompressionLimit | FP_SinkFailure | FP_OtherVersioned nat nat

fun into_provider_reason :: "FetchPartialReason \<Rightarrow> PartialReason" where
  "into_provider_reason FP_RowCap = PR_RowCap"
| "into_provider_reason FP_RecordCountCap = PR_RecordCountCap"
| "into_provider_reason FP_SourceByteCap = PR_SourceByteCap"
| "into_provider_reason FP_ExpandedByteCap = PR_ExpandedByteCap"
| "into_provider_reason FP_PageCap = PR_PageCap"
| "into_provider_reason FP_WallTimeCap = PR_WallTimeCap"
| "into_provider_reason FP_Timeout = PR_Timeout"
| "into_provider_reason FP_Cancelled = PR_Cancelled"
| "into_provider_reason FP_BackpressureLimit = PR_BackpressureLimit"
| "into_provider_reason FP_PaginationIncomplete = PR_PaginationIncomplete"
| "into_provider_reason FP_ProviderCap = PR_ProviderCap"
| "into_provider_reason FP_ProviderTruncation = PR_ProviderTruncation"
| "into_provider_reason FP_PermissionLimited = PR_PermissionLimited"
| "into_provider_reason FP_AuthenticationChanged = PR_AuthenticationChanged"
| "into_provider_reason FP_RetentionBoundary = PR_RetentionBoundary"
| "into_provider_reason FP_SourceChanged = PR_SourceChanged"
| "into_provider_reason FP_SourceDisappeared = PR_SourceDisappeared"
| "into_provider_reason FP_SourceReadError = PR_SourceReadError"
| "into_provider_reason FP_ChildExitFailure = PR_ChildExitFailure"
| "into_provider_reason FP_ChildKilled = PR_ChildKilled"
| "into_provider_reason FP_NetworkFailure = PR_NetworkFailure"
| "into_provider_reason FP_MalformedProviderFraming = PR_MalformedProviderFraming"
| "into_provider_reason FP_RecordTruncated = PR_RecordTruncated"
| "into_provider_reason FP_DecompressionLimit = PR_DecompressionLimit"
| "into_provider_reason FP_SinkFailure = PR_SinkFailure"
| "into_provider_reason (FP_OtherVersioned version code) = PR_OtherVersioned version code"

record FetchPartialReasons =
  fetch_first :: FetchPartialReason
  fetch_additional :: "FetchPartialReason list"

definition fetch_reasons_iter :: "FetchPartialReasons \<Rightarrow> FetchPartialReason list" where
  "fetch_reasons_iter reasons = fetch_first reasons # fetch_additional reasons"

datatype FetchUnknownReason =
    FU_ProviderHasNoCompletenessProof | FU_RetentionUnobservable | FU_HighWaterMarkUnverifiable
  | FU_EventuallyConsistentWindow | FU_LiveStreamOpenEnded | FU_AdapterCapabilityLimit

fun unknown_into_provider_reason :: "FetchUnknownReason \<Rightarrow> UnknownCompletenessReason" where
  "unknown_into_provider_reason FU_ProviderHasNoCompletenessProof = UR_ProviderHasNoCompletenessProof"
| "unknown_into_provider_reason FU_RetentionUnobservable = UR_RetentionUnobservable"
| "unknown_into_provider_reason FU_HighWaterMarkUnverifiable = UR_HighWaterMarkUnverifiable"
| "unknown_into_provider_reason FU_EventuallyConsistentWindow = UR_EventuallyConsistentWindow"
| "unknown_into_provider_reason FU_LiveStreamOpenEnded = UR_LiveStreamOpenEnded"
| "unknown_into_provider_reason FU_AdapterCapabilityLimit = UR_AdapterCapabilityLimit"

datatype FetchCompleteness =
    FetchComplete CompletenessProof
  | FetchPartial FetchPartialReasons "SourceCursor option"
  | FetchUnknown FetchUnknownReason

fun to_provider_completeness :: "FetchCompleteness \<Rightarrow> ProviderCompleteness" where
  "to_provider_completeness (FetchComplete proof) = ProviderComplete"
| "to_provider_completeness (FetchPartial reasons continuation) =
     (let reasons = map into_provider_reason (fetch_reasons_iter reasons) in
      ProviderPartial \<lparr>reasons_first = hd reasons, reasons_additional = tl reasons\<rparr> None continuation)"
| "to_provider_completeness (FetchUnknown reason) = ProviderUnknown (unknown_into_provider_reason reason)"

record FetchCompletion =
  completion_identity :: FetchIdentity
  completion_timing :: FetchTiming
  completion_acknowledged :: AcknowledgedCounts
  completion_members :: AttemptCounts
  completion_pages :: AttemptCounts
  completion_boundaries :: FetchBoundaries
  completion_cap_usage :: "CapUsage list"
  completion_adapter_outcome :: AdapterOutcome
  completion_error_codes :: "FetchErrorCode list"
  completion_completeness :: FetchCompleteness

datatype FetchConstructionError =
    EndedBeforeStarted | CompletedMembersExceedAttempted | CompletedPagesExceedAttempted
  | PayloadBytesExceedSourceBytes | CompleteWithNonFinishedOutcome | CompleteWithErrorCodes
  | CompleteWithTerminatingCap | CompleteWithIncompleteMembers | CompleteWithIncompletePages

fun is_fetch_complete :: "FetchCompleteness \<Rightarrow> bool" where
  "is_fetch_complete (FetchComplete proof) = True"
| "is_fetch_complete _ = False"

definition FetchCompletion_new ::
  "FetchIdentity \<Rightarrow> FetchTiming \<Rightarrow> AcknowledgedCounts \<Rightarrow> AttemptCounts \<Rightarrow> AttemptCounts \<Rightarrow>
   FetchBoundaries \<Rightarrow> CapUsage list \<Rightarrow> AdapterOutcome \<Rightarrow> FetchErrorCode list \<Rightarrow> FetchCompleteness \<Rightarrow>
   (FetchConstructionError, FetchCompletion) result" where
  "FetchCompletion_new ident timing acknowledged members pages boundaries cap_usage outcome error_codes completeness =
     (if ended_at timing < started_at timing then Inl EndedBeforeStarted
      else if completed members > attempted members then Inl CompletedMembersExceedAttempted
      else if completed pages > attempted pages then Inl CompletedPagesExceedAttempted
      else if ack_payload_bytes acknowledged > ack_source_bytes acknowledged
        then Inl PayloadBytesExceedSourceBytes
      else if is_fetch_complete completeness \<and> outcome \<noteq> AdapterFinished
        then Inl CompleteWithNonFinishedOutcome
      else if is_fetch_complete completeness \<and> error_codes \<noteq> [] then Inl CompleteWithErrorCodes
      else if is_fetch_complete completeness \<and> list_ex cap_reached cap_usage
        then Inl CompleteWithTerminatingCap
      else if is_fetch_complete completeness \<and> completed members \<noteq> attempted members
        then Inl CompleteWithIncompleteMembers
      else if is_fetch_complete completeness \<and> completed pages \<noteq> attempted pages
        then Inl CompleteWithIncompletePages
      else Inr \<lparr>completion_identity = ident, completion_timing = timing,
        completion_acknowledged = acknowledged, completion_members = members, completion_pages = pages,
        completion_boundaries = boundaries, completion_cap_usage = cap_usage,
        completion_adapter_outcome = outcome, completion_error_codes = error_codes,
        completion_completeness = completeness\<rparr>)"

definition provider_completeness :: "FetchCompletion \<Rightarrow> ProviderCompleteness" where
  "provider_completeness c = to_provider_completeness (completion_completeness c)"

lemma provider_is_complete_iff [simp]:
  "provider_is_complete (to_provider_completeness c) \<longleftrightarrow> is_fetch_complete c"
  by (cases c) (simp_all add: Let_def)

text \<open>The invariant that the private fields of a completion carry.\<close>

definition completion_ok :: "FetchCompletion \<Rightarrow> bool" where
  "completion_ok c \<longleftrightarrow>
     started_at (completion_timing c) \<le> ended_at (completion_timing c)
     \<and> completed (completion_members c) \<le> attempted (completion_members c)
     \<and> completed (completion_pages c) \<le> attempted (completion_pages c)
     \<and> ack_payload_bytes (completion_acknowledged c) \<le> ack_source_bytes (completion_acknowledged c)
     \<and> (is_fetch_complete (completion_completeness c) \<longrightarrow>
          completion_adapter_outcome c = AdapterFinished \<and> completion_error_codes c = []
          \<and> \<not> list_ex cap_reached (completion_cap_usage c)
          \<and> completed (completion_members c) = attempted (completion_members c)
          \<and> completed (completion_pages c) = attempted (completion_pages c))"

lemma FetchCompletion_new_ok:
  assumes "FetchCompletion_new ident timing acknowledged members pages boundaries caps outcome errs completeness = Inr c"
  shows "completion_ok c" and "completion_identity c = ident" and "completion_acknowledged c = acknowledged"
    and "completion_completeness c = completeness"
proof -
  let ?f = "is_fetch_complete completeness"
  have guards: "started_at timing \<le> ended_at timing" "completed members \<le> attempted members"
    "completed pages \<le> attempted pages" "ack_payload_bytes acknowledged \<le> ack_source_bytes acknowledged"
    "?f \<longrightarrow> outcome = AdapterFinished" "?f \<longrightarrow> errs = []" "?f \<longrightarrow> \<not> list_ex cap_reached caps"
    "?f \<longrightarrow> completed members = attempted members" "?f \<longrightarrow> completed pages = attempted pages"
    and c: "c = \<lparr>completion_identity = ident, completion_timing = timing,
        completion_acknowledged = acknowledged, completion_members = members, completion_pages = pages,
        completion_boundaries = boundaries, completion_cap_usage = caps,
        completion_adapter_outcome = outcome, completion_error_codes = errs,
        completion_completeness = completeness\<rparr>"
    using assms unfolding FetchCompletion_new_def by (simp_all split: if_split_asm)
  show "completion_ok c" "completion_identity c = ident" "completion_acknowledged c = acknowledged"
    "completion_completeness c = completeness"
    using guards by (simp_all add: c completion_ok_def)
qed

end
