(* ===== verification/Hash.thy ===== *)
theory Hash
  imports Acquisition
begin

text \<open>
  The derived identities of \<open>evidentrail-core/src/hash.rs\<close>: length-framed, domain-separated hash
  inputs.  SHA-256 is the parameter \<open>sha256\<close>.  The framing is shown to be prefix free, so that for a
  collision-free \<open>sha256\<close> an event identity determines the committed facts.
\<close>

section \<open>Framing\<close>

definition update_field :: "bytes \<Rightarrow> bytes \<Rightarrow> bytes" where
  "update_field hasher value = hasher @ u64_le_bytes (length value) @ value"

definition domain_hasher :: "bytes \<Rightarrow> bytes" where
  "domain_hasher domain = update_field [] domain"

fun update_optional_field :: "bytes \<Rightarrow> bytes option \<Rightarrow> bytes" where
  "update_optional_field hasher (Some value) = update_field (hasher @ [CHR 0x01]) value"
| "update_optional_field hasher None = hasher @ [CHR 0x00]"

text \<open>\<open>finish(hasher)\<close> is \<open>sha256 hasher\<close>.\<close>

definition authorized_content_hash :: "(bytes \<Rightarrow> bytes) \<Rightarrow> bytes \<Rightarrow> ContentHash" where
  "authorized_content_hash sha256 authorized = sha256 authorized"

definition derive_question_digest_v1 :: "(bytes \<Rightarrow> bytes) \<Rightarrow> bytes \<Rightarrow> bytes" where
  "derive_question_digest_v1 sha256 question_bytes =
     sha256 (update_field (domain_hasher ''evidentrail/question/v1'') question_bytes)"

fun hash_stream :: "bytes \<Rightarrow> SourceStream \<Rightarrow> bytes" where
  "hash_stream hasher (OtherVersionedStream version code) =
     update_field (update_field (update_field hasher (stream_code (OtherVersionedStream version code)))
       (u16_le_bytes version)) (u16_le_bytes code)"
| "hash_stream hasher stream = update_field hasher (stream_code stream)"

fun hash_record_state :: "bytes \<Rightarrow> RecordState \<Rightarrow> bytes" where
  "hash_record_state hasher RecordComplete = update_field hasher (record_state_code RecordComplete)"
| "hash_record_state hasher (SourceTruncated reason) =
     update_field (update_field hasher (record_state_code (SourceTruncated reason))) (fragment_reason_code reason)"
| "hash_record_state hasher (AdapterFragment reason) =
     update_field (update_field hasher (record_state_code (AdapterFragment reason))) (fragment_reason_code reason)"

section \<open>Identities\<close>

definition source_record_hasher :: "RawEnvelopeV1 \<Rightarrow> bytes" where
  "source_record_hasher envelope =
     (let hasher = domain_hasher ''evidentrail/source-record/v1'';
          hasher = update_field hasher (u16_le_bytes RawEnvelopeV1_CONTRACT_VERSION);
          ident = env_identity envelope;
          hasher = update_field hasher (env_retrieval_id ident);
          hasher = update_field hasher (env_plan_id ident);
          hasher = update_field hasher (env_plan_digest ident);
          hasher = update_field hasher (adapter_kind (env_adapter ident));
          hasher = update_field hasher (adapter_version (env_adapter ident));
          hasher = update_field hasher (env_source_identity_digest ident);
          ord = env_ordering envelope;
          hasher = update_field hasher (u64_le_bytes (acquisition_sequence ord));
          hasher = update_field hasher (fst (ord_lane ord));
          hasher = hash_stream hasher (snd (ord_lane ord));
          hasher = update_field hasher (u64_le_bytes (lane_sequence ord));
          hasher = update_optional_field hasher (env_native_event_id envelope);
          hasher = update_optional_field hasher (env_cursor envelope)
      in hash_record_state hasher (env_state envelope))"

definition source_record_id :: "(bytes \<Rightarrow> bytes) \<Rightarrow> RawEnvelopeV1 \<Rightarrow> SourceRecordId" where
  "source_record_id sha256 envelope = sha256 (source_record_hasher envelope)"

definition hash_correlation :: "ProviderAttestedCorrelationV1 \<Rightarrow> bytes \<Rightarrow> bytes" where
  "hash_correlation a hasher =
     update_field (update_field (update_field (update_field hasher (scope_digest a))
       (relation_kind_code (relation_kind a))) (attestation_origin_code (attestation_origin a)))
       (attestation_value a)"

definition hash_persisted_provider_attestations :: "bytes \<Rightarrow> ProviderAttestationsV1 \<Rightarrow> bytes" where
  "hash_persisted_provider_attestations hasher attestations =
     (if attestations = [] then hasher
      else let hasher = update_field hasher ''evidentrail/authorized-event/provider-attestations/v1'';
               hasher = update_field hasher (u64_le_bytes (length attestations))
           in fold hash_correlation attestations hasher)"

definition event_hasher ::
  "RetrievalId \<Rightarrow> SourceRecordId \<Rightarrow> ContentHash \<Rightarrow> ExactnessBasis \<Rightarrow> ProviderAttestationsV1 \<Rightarrow> bytes" where
  "event_hasher retrieval source content basis attestations =
     (let hasher = domain_hasher ''evidentrail/authorized-event/v2'';
          hasher = update_field hasher retrieval;
          hasher = update_field hasher source;
          hasher = update_field hasher content;
          hasher = update_field hasher (exactness_code basis);
          hasher = (case basis of
              PostPolicy policy_digest transformation_receipt_id \<Rightarrow>
                update_field (update_field hasher policy_digest) transformation_receipt_id
            | SourceExact \<Rightarrow> hasher)
      in hash_persisted_provider_attestations hasher attestations)"

definition event_id ::
  "(bytes \<Rightarrow> bytes) \<Rightarrow> RetrievalId \<Rightarrow> SourceRecordId \<Rightarrow> ContentHash \<Rightarrow> ExactnessBasis \<Rightarrow>
   ProviderAttestationsV1 \<Rightarrow> EventId" where
  "event_id sha256 retrieval source content basis attestations =
     sha256 (event_hasher retrieval source content basis attestations)"

definition derive_source_exact_event_id_v1 :: "(bytes \<Rightarrow> bytes) \<Rightarrow> RawEnvelopeV1 \<Rightarrow> EventId" where
  "derive_source_exact_event_id_v1 sha256 envelope =
     event_id sha256 (env_retrieval_id (env_identity envelope)) (source_record_id sha256 envelope)
       (authorized_content_hash sha256 (record_exact_bytes (env_record envelope))) SourceExact
       (env_provider_attestations envelope)"

record FramingPolicy =
  framing_policy :: bytes
  framing_version :: bytes

definition block_hasher :: "RetrievalId \<Rightarrow> EventId list \<Rightarrow> FramingPolicy \<Rightarrow> bytes" where
  "block_hasher retrieval members policy =
     (let hasher = domain_hasher ''evidentrail/event-block/v1'';
          hasher = update_field hasher retrieval;
          hasher = update_field hasher (u64_le_bytes (length members));
          hasher = foldl update_field hasher members;
          hasher = update_field hasher (framing_policy policy)
      in update_field hasher (framing_version policy))"

definition block_id :: "(bytes \<Rightarrow> bytes) \<Rightarrow> RetrievalId \<Rightarrow> EventId list \<Rightarrow> FramingPolicy \<Rightarrow> BlockId" where
  "block_id sha256 retrieval members policy = sha256 (block_hasher retrieval members policy)"

definition presentation_receipt_hasher :: "RetrievalId \<Rightarrow> bytes" where
  "presentation_receipt_hasher retrieval = update_field (domain_hasher ''evidentrail/presentation-receipt/v1'') retrieval"

fun hash_outcome :: "bytes \<Rightarrow> AcquisitionOutcome \<Rightarrow> bytes" where
  "hash_outcome hasher (Persisted event SourceExact) = update_field hasher event"
| "hash_outcome hasher (Persisted event (PostPolicy policy_digest receipt)) =
     update_field (update_field (update_field hasher event) policy_digest) receipt"
| "hash_outcome hasher (OmittedByPolicy policy_digest) = update_field hasher policy_digest"

definition acquisition_receipt_id :: "(bytes \<Rightarrow> bytes) \<Rightarrow> AcquisitionReceipt \<Rightarrow> AcquisitionReceiptId" where
  "acquisition_receipt_id sha256 receipt =
     sha256 (foldl (\<lambda>hasher (source, outcome).
         hash_outcome (update_field (update_field hasher source) (outcome_code outcome)) outcome)
       (update_field (domain_hasher ''evidentrail/acquisition-receipt/v1'') (receipt_retrieval_id receipt))
       (receipt_entries receipt))"

section \<open>The framing is prefix free\<close>

lemma field_prefix_free:
  assumes "u64_le_bytes (length v) @ v @ x = u64_le_bytes (length w) @ w @ y"
    and "length v \<le> u64_max" and "length w \<le> u64_max"
  shows "v = w \<and> x = y"
proof -
  have "u64_le_bytes (length v) = u64_le_bytes (length w)" and rest: "v @ x = w @ y"
    using assms(1) by (auto simp: append_eq_append_conv)
  then have "length v = length w" using assms(2,3) by (blast dest: u64_le_bytes_inj)
  then show ?thesis using rest by (simp add: append_eq_append_conv)
qed

text \<open>A sequence of fields as bytes.\<close>

definition fields :: "bytes list \<Rightarrow> bytes" where
  "fields vs = concat (map (\<lambda>v. u64_le_bytes (length v) @ v) vs)"

lemma fields_simps [simp]:
  "fields [] = []" "fields (v # vs) = u64_le_bytes (length v) @ v @ fields vs"
  "fields (vs @ ws) = fields vs @ fields ws"
  by (simp_all add: fields_def)

lemma update_field_fields: "update_field h v = h @ fields [v]"
  by (simp add: update_field_def)

lemma foldl_update_field: "foldl update_field h vs = h @ fields vs"
  by (induction vs arbitrary: h) (simp_all add: update_field_fields)

lemma fields_inj:
  "fields vs = fields ws \<Longrightarrow> \<forall>v \<in> set vs. length v \<le> u64_max \<Longrightarrow> \<forall>w \<in> set ws. length w \<le> u64_max \<Longrightarrow> vs = ws"
proof (induction vs arbitrary: ws)
  case Nil
  then show ?case by (cases ws) auto
next
  case (Cons v vs)
  then obtain w ws' where ws: "ws = w # ws'" by (cases ws) auto
  then have "v = w \<and> fields vs = fields ws'"
    using Cons.prems by (intro field_prefix_free) auto
  then show ?case using Cons ws by auto
qed

section \<open>Event identities bind what they commit\<close>

definition correlation_fields :: "ProviderAttestedCorrelationV1 \<Rightarrow> bytes list" where
  "correlation_fields a = [scope_digest a, relation_kind_code (relation_kind a),
     attestation_origin_code (attestation_origin a), attestation_value a]"

definition attestation_fields :: "ProviderAttestationsV1 \<Rightarrow> bytes list" where
  "attestation_fields as = (if as = [] then [] else
     ''evidentrail/authorized-event/provider-attestations/v1'' # u64_le_bytes (length as)
     # concat (map correlation_fields as))"

definition basis_fields :: "ExactnessBasis \<Rightarrow> bytes list" where
  "basis_fields basis = exactness_code basis #
     (case basis of PostPolicy policy receipt \<Rightarrow> [policy, receipt] | SourceExact \<Rightarrow> [])"

lemma fold_hash_correlation: "fold hash_correlation as h = h @ fields (concat (map correlation_fields as))"
  by (induction as arbitrary: h) (simp_all add: hash_correlation_def correlation_fields_def update_field_fields)

lemma event_hasher_fields:
  "event_hasher retrieval source content basis attestations =
     fields (''evidentrail/authorized-event/v2'' # retrieval # source # content # basis_fields basis
       @ attestation_fields attestations)"
  by (cases basis)
    (simp_all add: event_hasher_def domain_hasher_def hash_persisted_provider_attestations_def
      attestation_fields_def basis_fields_def update_field_fields fold_hash_correlation Let_def del: fields_simps(2)
      flip: append_assoc fields_simps(3))

lemma relation_kind_code_inj: "relation_kind_code a = relation_kind_code b \<Longrightarrow> a = b"
  by (cases a; cases b) simp_all

lemma correlation_fields_inj: "correlation_fields a = correlation_fields b \<Longrightarrow> a = b"
  by (cases a; cases b)
    (auto simp: correlation_fields_def dest: relation_kind_code_inj
      intro: ProviderAttestationOriginV1.induct)

lemma length_correlation_fields: "length (correlation_fields a) = 4"
  by (simp add: correlation_fields_def)

lemma concat_correlation_inj:
  "concat (map correlation_fields as) = concat (map correlation_fields bs) \<Longrightarrow> as = bs"
proof (induction as arbitrary: bs)
  case Nil
  then show ?case by (cases bs) (auto simp: correlation_fields_def)
next
  case (Cons a as)
  then obtain b bs' where bs: "bs = b # bs'" by (cases bs) (auto simp: correlation_fields_def)
  then have "correlation_fields a = correlation_fields b
      \<and> concat (map correlation_fields as) = concat (map correlation_fields bs')"
    using Cons.prems append_eq_append_conv [of "correlation_fields a" "correlation_fields b"]
    by (simp add: length_correlation_fields)
  then show ?case using Cons.IH bs by (auto dest: correlation_fields_inj)
qed

text \<open>Every string the hasher is given fits the 64-bit length field.\<close>

definition attestations_fit :: "ProviderAttestationsV1 \<Rightarrow> bool" where
  "attestations_fit as \<longleftrightarrow> length as \<le> u64_max
     \<and> (\<forall>a \<in> set as. length (scope_digest a) \<le> u64_max \<and> length (attestation_value a) \<le> u64_max)"

definition basis_fits :: "ExactnessBasis \<Rightarrow> bool" where
  "basis_fits basis = (case basis of SourceExact \<Rightarrow> True
     | PostPolicy policy receipt \<Rightarrow> length policy \<le> u64_max \<and> length receipt \<le> u64_max)"

lemma attestation_codes_short:
  "length (relation_kind_code k) \<le> u64_max" "length (attestation_origin_code o') \<le> u64_max"
  by (cases k; simp) (cases o'; simp)

lemma attestation_fields_fit:
  "attestations_fit as \<Longrightarrow> v \<in> set (attestation_fields as) \<Longrightarrow> length v \<le> u64_max"
  by (auto simp: attestation_fields_def attestations_fit_def correlation_fields_def attestation_codes_short
      split: if_splits)

lemma basis_fields_fit: "basis_fits basis \<Longrightarrow> v \<in> set (basis_fields basis) \<Longrightarrow> length v \<le> u64_max"
  by (cases basis) (auto simp: basis_fields_def basis_fits_def)

lemma basis_attestation_fields_inj:
  assumes "basis_fields b @ attestation_fields as = basis_fields b' @ attestation_fields as'"
  shows "b = b' \<and> as = as'"
proof -
  have "b = b' \<and> attestation_fields as = attestation_fields as'"
    using assms by (cases b; cases b') (simp_all add: basis_fields_def)
  then show ?thesis
    by (auto simp: attestation_fields_def split: if_splits dest: concat_correlation_inj)
qed

lemma event_hasher_inj:
  assumes "event_hasher r s c b as = event_hasher r' s' c' b' as'"
    and "\<forall>v \<in> {r, s, c, r', s', c'}. length v \<le> u64_max"
    and "basis_fits b" "basis_fits b'" "attestations_fit as" "attestations_fit as'"
  shows "r = r' \<and> s = s' \<and> c = c' \<and> b = b' \<and> as = as'"
proof -
  have "''evidentrail/authorized-event/v2'' # r # s # c # basis_fields b @ attestation_fields as
      = ''evidentrail/authorized-event/v2'' # r' # s' # c' # basis_fields b' @ attestation_fields as'"
    using assms by (intro fields_inj) (auto simp: event_hasher_fields dest: basis_fields_fit attestation_fields_fit)
  then show ?thesis using basis_attestation_fields_inj by auto
qed

end
