(* ===== verification/Transformation.thy ===== *)
theory Transformation
  imports Hash
begin

text \<open>
  Transformation receipts (\<open>evidentrail-core/src/transformation.rs\<close>): a policy output is accepted
  only if it is the input with the listed byte ranges replaced.
\<close>

record ByteRangeReplacementV1 =
  op_start :: nat
  op_end :: nat
  op_replacement :: bytes

record PreparedTransformationReceiptV1 =
  tr_id :: TransformationReceiptId
  tr_policy_digest :: PolicyDigest
  tr_operations :: "ByteRangeReplacementV1 list"
  tr_input_length :: nat
  tr_output_length :: nat
  tr_output_content_hash :: ContentHash
  tr_output_payload_length :: nat
  tr_output_terminator_length :: "nat option"

record TransformationReceiptV1 =
  tr_prepared :: PreparedTransformationReceiptV1
  tr_resulting_event_id :: EventId

datatype TransformationReceiptErrorV1 =
  TooManyOperations | InvalidOperationOrder | OutputMismatch | OutputTooLarge | LengthOverflow

definition transformation_update :: "bytes \<Rightarrow> bytes \<Rightarrow> bytes" where
  "transformation_update hasher value = hasher @ u64_le_bytes (length value) @ value"

definition hash_operation :: "bytes \<Rightarrow> ByteRangeReplacementV1 \<Rightarrow> bytes" where
  "hash_operation hasher op =
     transformation_update (transformation_update (transformation_update hasher
       (u64_le_bytes (op_start op))) (u64_le_bytes (op_end op))) (op_replacement op)"

definition receipt_id ::
  "(bytes \<Rightarrow> bytes) \<Rightarrow> PolicyDigest \<Rightarrow> ByteRangeReplacementV1 list \<Rightarrow> nat \<Rightarrow> nat \<Rightarrow> ContentHash \<Rightarrow> nat \<Rightarrow>
   nat option \<Rightarrow> TransformationReceiptId" where
  "receipt_id sha256 policy operations input_length output_length output_hash payload_length terminator_length =
     (let hasher = transformation_update [] ''evidentrail/transformation-receipt/v1'';
          hasher = transformation_update hasher policy;
          hasher = transformation_update hasher (u64_le_bytes input_length);
          hasher = transformation_update hasher (u64_le_bytes output_length);
          hasher = transformation_update hasher output_hash;
          hasher = transformation_update hasher (u64_le_bytes payload_length);
          hasher = (case terminator_length of
              Some value \<Rightarrow> transformation_update (hasher @ [CHR 0x01]) (u64_le_bytes value)
            | None \<Rightarrow> hasher @ [CHR 0x00]);
          hasher = transformation_update hasher (u64_le_bytes (length operations))
      in sha256 (foldl hash_operation hasher operations))"

text \<open>One iteration of the splice loop: the bytes rebuilt so far and the end of the last range.\<close>

definition splice_step ::
  "bytes \<Rightarrow> nat \<times> bytes \<Rightarrow> ByteRangeReplacementV1 \<Rightarrow> (TransformationReceiptErrorV1, nat \<times> bytes) result" where
  "splice_step input_bytes state op =
     (case state of (prior_end, rebuilt) \<Rightarrow>
       if op_start op > op_end op \<or> op_end op > length input_bytes \<or> op_start op < prior_end
       then Inl InvalidOperationOrder
       else Inr (op_end op,
         rebuilt @ take (op_start op - prior_end) (drop prior_end input_bytes) @ op_replacement op))"

definition PreparedTransformationReceiptV1_new ::
  "(bytes \<Rightarrow> bytes) \<Rightarrow> PolicyDigest \<Rightarrow> RecordBytes \<Rightarrow> RecordBytes \<Rightarrow> ByteRangeReplacementV1 list \<Rightarrow>
   (TransformationReceiptErrorV1, PreparedTransformationReceiptV1) result" where
  "PreparedTransformationReceiptV1_new sha256 policy_digest input output operations =
     (if length operations > MAX_TRANSFORMATION_OPERATIONS then Inl TooManyOperations
      else if payload_len output > MAX_AUTHORIZED_RECORD_BYTES
          \<or> (case rec_terminator output of None \<Rightarrow> False | Some t \<Rightarrow> length t > MAX_RECORD_TERMINATOR_BYTES)
      then Inl OutputTooLarge
      else let input_bytes = record_exact_bytes input; output_bytes = record_exact_bytes output in
        rbind (rfold (splice_step input_bytes) (0, []) operations) (\<lambda>(prior_end, rebuilt).
        let rebuilt = rebuilt @ drop prior_end input_bytes in
        if rebuilt \<noteq> output_bytes then Inl OutputMismatch
        else let input_length = length input_bytes; output_length = length output_bytes;
                 output_payload_length = payload_len output;
                 output_terminator_length = map_option length (rec_terminator output);
                 output_content_hash = authorized_content_hash sha256 output_bytes
             in Inr \<lparr>tr_id = receipt_id sha256 policy_digest operations input_length output_length
                  output_content_hash output_payload_length output_terminator_length,
                tr_policy_digest = policy_digest, tr_operations = operations,
                tr_input_length = input_length, tr_output_length = output_length,
                tr_output_content_hash = output_content_hash,
                tr_output_payload_length = output_payload_length,
                tr_output_terminator_length = output_terminator_length\<rparr>))"

definition receipt_bind :: "PreparedTransformationReceiptV1 \<Rightarrow> EventId \<Rightarrow> TransformationReceiptV1" where
  "receipt_bind prepared resulting_event_id =
     \<lparr>tr_prepared = prepared, tr_resulting_event_id = resulting_event_id\<rparr>"

section \<open>The declarative meaning of a receipt\<close>

text \<open>
  Sorted, disjoint, in-bounds ranges, and the reference splice: every byte of the input outside the
  ranges is kept, every range is replaced.
\<close>

fun ranges_ok :: "nat \<Rightarrow> nat \<Rightarrow> ByteRangeReplacementV1 list \<Rightarrow> bool" where
  "ranges_ok n lo [] = True"
| "ranges_ok n lo (op # ops) =
     (lo \<le> op_start op \<and> op_start op \<le> op_end op \<and> op_end op \<le> n \<and> ranges_ok n (op_end op) ops)"

fun splice_ranges :: "bytes \<Rightarrow> nat \<Rightarrow> ByteRangeReplacementV1 list \<Rightarrow> bytes" where
  "splice_ranges input lo [] = drop lo input"
| "splice_ranges input lo (op # ops) =
     take (op_start op - lo) (drop lo input) @ op_replacement op @ splice_ranges input (op_end op) ops"

lemma splice_loop:
  "(case rfold (splice_step input) (lo, acc) ops of
      Inr (prior_end, rebuilt) \<Rightarrow> ranges_ok (length input) lo ops \<and> rebuilt @ drop prior_end input = acc @ splice_ranges input lo ops
    | Inl e \<Rightarrow> e = InvalidOperationOrder \<and> \<not> ranges_ok (length input) lo ops)"
proof (induction ops arbitrary: lo acc)
  case Nil
  then show ?case by simp
next
  case (Cons op ops)
  show ?case
  proof (cases "lo \<le> op_start op \<and> op_start op \<le> op_end op \<and> op_end op \<le> length input")
    case True
    then have step: "splice_step input (lo, acc) op =
        Inr (op_end op, acc @ take (op_start op - lo) (drop lo input) @ op_replacement op)"
      by (auto simp: splice_step_def)
    show ?thesis
      using Cons.IH [of "op_end op" "acc @ take (op_start op - lo) (drop lo input) @ op_replacement op"] True
      by (simp add: step split: sum.splits prod.splits)
  next
    case False
    then have "splice_step input (lo, acc) op = Inl InvalidOperationOrder"
      by (auto simp: splice_step_def)
    then show ?thesis using False by auto
  qed
qed

lemma splice_length:
  "ranges_ok (length input) lo ops \<Longrightarrow> lo \<le> length input \<Longrightarrow>
   length (splice_ranges input lo ops) + (\<Sum>op\<leftarrow>ops. op_end op - op_start op) + lo
     = length input + (\<Sum>op\<leftarrow>ops. length (op_replacement op))"
proof (induction ops arbitrary: lo)
  case (Cons a ops)
  have "length (splice_ranges input (op_end a) ops) + (\<Sum>op\<leftarrow>ops. op_end op - op_start op) + op_end a
      = length input + (\<Sum>op\<leftarrow>ops. length (op_replacement op))"
    using Cons by simp
  moreover have "length (take (op_start a - lo) (drop lo input)) = op_start a - lo"
    using Cons.prems by auto
  moreover have "lo \<le> op_start a" "op_start a \<le> op_end a" using Cons.prems by auto
  ultimately show ?case by (simp del: length_take)
qed simp

definition output_bounded :: "RecordBytes \<Rightarrow> bool" where
  "output_bounded output \<longleftrightarrow> payload_len output \<le> MAX_AUTHORIZED_RECORD_BYTES
     \<and> (case rec_terminator output of None \<Rightarrow> True | Some t \<Rightarrow> length t \<le> MAX_RECORD_TERMINATOR_BYTES)"

lemma transformation_new_Inr:
  "PreparedTransformationReceiptV1_new sha256 policy input output ops = Inr r \<longleftrightarrow>
     length ops \<le> MAX_TRANSFORMATION_OPERATIONS \<and> output_bounded output
     \<and> ranges_ok (length (record_exact_bytes input)) 0 ops
     \<and> splice_ranges (record_exact_bytes input) 0 ops = record_exact_bytes output
     \<and> r = \<lparr>tr_id = receipt_id sha256 policy ops (length (record_exact_bytes input))
              (length (record_exact_bytes output)) (sha256 (record_exact_bytes output)) (payload_len output)
              (map_option length (rec_terminator output)),
            tr_policy_digest = policy, tr_operations = ops,
            tr_input_length = length (record_exact_bytes input),
            tr_output_length = length (record_exact_bytes output),
            tr_output_content_hash = sha256 (record_exact_bytes output),
            tr_output_payload_length = payload_len output,
            tr_output_terminator_length = map_option length (rec_terminator output)\<rparr>"
proof -
  let ?run = "rfold (splice_step (record_exact_bytes input)) (0, []) ops"
  have bounded: "output_bounded output \<longleftrightarrow> \<not> (payload_len output > MAX_AUTHORIZED_RECORD_BYTES
      \<or> (case rec_terminator output of None \<Rightarrow> False | Some t \<Rightarrow> length t > MAX_RECORD_TERMINATOR_BYTES))"
    by (auto simp: output_bounded_def not_less split: option.split)
  show ?thesis
    using splice_loop [where input = "record_exact_bytes input" and lo = 0 and acc = "[]" and ops = ops]
    unfolding PreparedTransformationReceiptV1_new_def bounded
    by (cases ?run) (auto simp: Let_def authorized_content_hash_def not_less split: prod.splits)
qed

end
