(* ===== verification/Core_Properties.thy ===== *)
theory Core_Properties
  imports Transformation
begin

text \<open>Properties of acquisition receipts, event identities and transformation receipts.\<close>

text \<open>
  C24.  \<open>AcquisitionReceipt::reconcile\<close> succeeds exactly when every expected source record is listed
  once and has exactly one outcome, no other record has one, and no event is persisted twice; the
  receipt then lists the outcomes in the expected order and its counts add up to their number.
\<close>

theorem reconcile_accepts_exactly_one_to_one:
  "(case AcquisitionReceipt_reconcile retrieval expected assignments of
      Inr r \<Rightarrow> distinct expected \<and> distinct (map fst assignments) \<and> fst ` set assignments = set expected
        \<and> distinct (persisted_ids assignments)
        \<and> receipt_retrieval_id r = retrieval
        \<and> receipt_entries r = map (\<lambda>s. (s, the (map_of assignments s))) expected
        \<and> counts_acknowledged (receipt_counts r) = length expected
    | Inl err \<Rightarrow> \<not> (distinct expected \<and> distinct (map fst assignments) \<and> fst ` set assignments = set expected
        \<and> distinct (persisted_ids assignments)))"
proof (cases "AcquisitionReceipt_reconcile retrieval expected assignments")
  case (Inl err)
  then show ?thesis using reconcile_Inr [of retrieval expected assignments] by auto
next
  case (Inr r)
  have "counts_acknowledged AcquisitionCounts_default = 0"
    by (simp add: counts_acknowledged_def AcquisitionCounts_default_def)
  with Inr reconcile_Inr [of retrieval expected assignments r] show ?thesis
    by (simp add: count_outcomes_acknowledged)
qed

text \<open>
  Event identities bind what they commit: two events with the same identity, whose hash inputs
  SHA-256 does not confuse, agree in retrieval, source record, content hash, exactness basis and
  provider attestations.
\<close>

lemma event_identity_binds:
  assumes "event_id sha256 r s c b as = event_id sha256 r' s' c' b' as'"
    and "inj_on sha256 {event_hasher r s c b as, event_hasher r' s' c' b' as'}"
    and "list_all (\<lambda>v. length v \<le> u64_max) [r, s, c, r', s', c']"
    and "basis_fits b" "basis_fits b'" "attestations_fit as" "attestations_fit as'"
  shows "r = r' \<and> s = s' \<and> c = c' \<and> b = b' \<and> as = as'"
proof -
  have "event_hasher r s c b as = event_hasher r' s' c' b' as'"
    using inj_onD [OF assms(2) assms(1) [unfolded event_id_def]] by blast
  moreover have "\<forall>v \<in> {r, s, c, r', s', c'}. length v \<le> u64_max" using assms(3) by simp
  ultimately show ?thesis using assms(4-7) by (rule event_hasher_inj)
qed

text \<open>
  C27.  A prepared transformation receipt exists exactly for an output that is the input with at most
  256 sorted, disjoint, in-range byte ranges replaced and that stays within the record limits; the
  output is as long as the input minus the replaced bytes plus the replacements.
\<close>

theorem transformation_receipt_iff_splice:
  "(case PreparedTransformationReceiptV1_new sha256 policy input output ops of
      Inr r \<Rightarrow> length ops \<le> MAX_TRANSFORMATION_OPERATIONS \<and> output_bounded output
        \<and> ranges_ok (length (record_exact_bytes input)) 0 ops
        \<and> splice_ranges (record_exact_bytes input) 0 ops = record_exact_bytes output
        \<and> tr_output_content_hash r = sha256 (record_exact_bytes output)
        \<and> tr_output_length r + (\<Sum>op\<leftarrow>ops. op_end op - op_start op)
            = tr_input_length r + (\<Sum>op\<leftarrow>ops. length (op_replacement op))
    | Inl err \<Rightarrow> \<not> (length ops \<le> MAX_TRANSFORMATION_OPERATIONS \<and> output_bounded output
        \<and> ranges_ok (length (record_exact_bytes input)) 0 ops
        \<and> splice_ranges (record_exact_bytes input) 0 ops = record_exact_bytes output))"
proof (cases "PreparedTransformationReceiptV1_new sha256 policy input output ops")
  case (Inl err)
  then have "\<forall>r. PreparedTransformationReceiptV1_new sha256 policy input output ops \<noteq> Inr r" by simp
  then show ?thesis using Inl unfolding transformation_new_Inr by simp blast
next
  case (Inr r)
  then have r: "length ops \<le> MAX_TRANSFORMATION_OPERATIONS" "output_bounded output"
      "ranges_ok (length (record_exact_bytes input)) 0 ops"
      "splice_ranges (record_exact_bytes input) 0 ops = record_exact_bytes output"
      "tr_output_content_hash r = sha256 (record_exact_bytes output)"
      "tr_output_length r = length (record_exact_bytes output)" "tr_input_length r = length (record_exact_bytes input)"
    by (simp_all add: transformation_new_Inr)
  then show ?thesis using Inr splice_length [OF r(3)] by simp
qed

end
