(* ===== verification/Ledger.thy ===== *)
theory Ledger
  imports Transformation
begin

text \<open>
  The authoritative event ledger of \<open>evidentrail-core\<close>: acknowledgements (\<open>ack.rs\<close>), the mutable
  builder that is the only sink of raw envelopes, the sealed ledger and its checked export
  (\<open>ledger.rs\<close>).  SHA-256 and the policy of the builder (a trait object) are parameters.
\<close>

section \<open>Acknowledgements\<close>

record SinkAck =
  sa_retrieval_id :: RetrievalId
  sa_source_record_id :: SourceRecordId
  sa_acquisition_sequence :: nat
  sa_authorized_byte_count :: nat
  sa_outcome :: AcquisitionOutcome

record PreparedSinkAckExpectation =
  ex_retrieval_id :: RetrievalId
  ex_acquisition_sequence :: nat
  ex_source_record_id :: SourceRecordId
  ex_source_byte_count :: nat

datatype SinkAckVerificationError =
    AckRetrievalMismatch | AckAcquisitionSequenceMismatch | AckSourceRecordIdMismatch
  | AckAuthorizedByteCountMismatch

definition expected_source_record_id :: "(bytes \<Rightarrow> bytes) \<Rightarrow> RawEnvelopeV1 \<Rightarrow> SourceRecordId" where
  "expected_source_record_id sha256 envelope = source_record_id sha256 envelope"

definition from_envelope :: "(bytes \<Rightarrow> bytes) \<Rightarrow> RawEnvelopeV1 \<Rightarrow> PreparedSinkAckExpectation" where
  "from_envelope sha256 envelope =
     \<lparr>ex_retrieval_id = env_retrieval_id (env_identity envelope),
      ex_acquisition_sequence = acquisition_sequence (env_ordering envelope),
      ex_source_record_id = expected_source_record_id sha256 envelope,
      ex_source_byte_count = source_len (env_record envelope)\<rparr>"

definition ack_byte_count_is_valid :: "PreparedSinkAckExpectation \<Rightarrow> SinkAck \<Rightarrow> bool" where
  "ack_byte_count_is_valid expectation ack =
     (case sa_outcome ack of
        Persisted _ SourceExact \<Rightarrow> sa_authorized_byte_count ack = ex_source_byte_count expectation
      | Persisted _ (PostPolicy _ _) \<Rightarrow> sa_authorized_byte_count ack \<le> MAX_AUTHORIZED_RECORD_BYTES
      | OmittedByPolicy _ \<Rightarrow> sa_authorized_byte_count ack = 0)"

definition ack_verify ::
  "PreparedSinkAckExpectation \<Rightarrow> SinkAck \<Rightarrow> (SinkAckVerificationError, unit) result" where
  "ack_verify expectation ack =
     (if sa_retrieval_id ack \<noteq> ex_retrieval_id expectation then Inl AckRetrievalMismatch
      else if sa_acquisition_sequence ack \<noteq> ex_acquisition_sequence expectation
        then Inl AckAcquisitionSequenceMismatch
      else if sa_source_record_id ack \<noteq> ex_source_record_id expectation
        then Inl AckSourceRecordIdMismatch
      else if \<not> ack_byte_count_is_valid expectation ack then Inl AckAuthorizedByteCountMismatch
      else Inr ())"

definition verify_sink_ack_binding ::
  "(bytes \<Rightarrow> bytes) \<Rightarrow> RawEnvelopeV1 \<Rightarrow> SinkAck \<Rightarrow> (SinkAckVerificationError, unit) result" where
  "verify_sink_ack_binding sha256 envelope ack = ack_verify (from_envelope sha256 envelope) ack"

section \<open>Events and errors\<close>

datatype PolicyAuthorization =
    AuthorizeSourceExact
  | AuthorizePostPolicy RecordBytes PolicyDigest TransformationReceiptId
  | AuthorizePostPolicyReceipt RecordBytes PreparedTransformationReceiptV1
  | AuthorizeOmittedByPolicy PolicyDigest

text \<open>The trait \<open>DeterministicPolicy\<close> is a function of the envelope.\<close>

type_synonym policy = "RawEnvelopeV1 \<Rightarrow> PolicyAuthorization"

record Event =
  ev_id :: EventId
  ev_source_record_id :: SourceRecordId
  ev_content_hash :: ContentHash
  ev_exactness_basis :: ExactnessBasis
  ev_ordinal :: nat
  ev_acquisition_sequence :: nat
  ev_lane :: LaneKey
  ev_lane_sequence :: nat
  ev_raw :: bytes
  ev_payload_len :: nat
  ev_terminator_len :: "nat option"
  ev_native_event_id :: "NativeEventId option"
  ev_cursor :: "SourceCursor option"
  ev_record_state :: RecordState
  ev_timestamps :: EnvelopeTimestamps
  ev_metadata :: "NativeMetadata option"
  ev_provider_attestations :: ProviderAttestationsV1
  ev_hints :: RecordHints

definition event_payload :: "Event \<Rightarrow> bytes" where
  "event_payload e = take (ev_payload_len e) (ev_raw e)"

definition event_terminator :: "Event \<Rightarrow> bytes option" where
  "event_terminator e = map_option (\<lambda>length. take length (drop (ev_payload_len e) (ev_raw e))) (ev_terminator_len e)"

definition content_matches :: "(bytes \<Rightarrow> bytes) \<Rightarrow> Event \<Rightarrow> bytes \<Rightarrow> bool" where
  "content_matches sha256 e candidate \<longleftrightarrow> authorized_content_hash sha256 candidate = ev_content_hash e"

datatype LedgerBuildError =
    RetrievalMismatch | PlanIdMismatch | PlanDigestMismatch | AdapterMismatch | SourceIdentityMismatch
  | UnexpectedAcquisitionSequence nat nat | UnexpectedLaneSequence nat nat
  | AcquisitionSequenceOverflow | LaneSequenceOverflow | EventCountOverflow | ByteCountOverflow
  | SourceRecordIdCollision SourceRecordId | EventIdCollision EventId
  | TransformationReceiptCollision | CompletionIdentityMismatch | CompletionRecordCountMismatch
  | CompletionPayloadByteCountMismatch | CompletionSourceByteCountMismatch | CompleteWithFragment
  | AcquisitionReceiptInvalid AcquisitionReceiptError

text \<open>\<open>LookupPanic\<close> stands for an out-of-range index or a failed \<open>expect\<close>.\<close>

datatype LedgerLookupError = UnknownEvent EventId | InvalidAnalysisProjection | LookupPanic

section \<open>The builder\<close>

record LedgerBuilder =
  lb_identity :: FetchIdentity
  lb_source_identity_digest :: SourceIdentityDigest
  next_acquisition_sequence :: nat
  next_lane_sequences :: "(LaneKey, nat) btree_map"
  source_record_ids :: "SourceRecordId set"
  expected_source_records :: "SourceRecordId list"
  acquisition_assignments :: "AcquisitionOutcomeAssignment list"
  lb_transformation_receipts :: "(TransformationReceiptId, TransformationReceiptV1) btree_map"
  lb_events :: "Event list"
  lb_positions :: "(EventId, nat) btree_map"
  acknowledged_records :: nat
  acknowledged_payload_bytes :: nat
  acknowledged_source_bytes :: nat
  saw_fragment :: bool
  lb_analysis_projection_v3 :: bool

definition LedgerBuilder_new :: "FetchIdentity \<Rightarrow> SourceIdentityDigest \<Rightarrow> LedgerBuilder" where
  "LedgerBuilder_new ident digest =
     \<lparr>lb_identity = ident, lb_source_identity_digest = digest, next_acquisition_sequence = 0,
      next_lane_sequences = [], source_record_ids = {}, expected_source_records = [],
      acquisition_assignments = [], lb_transformation_receipts = [], lb_events = [], lb_positions = [],
      acknowledged_records = 0, acknowledged_payload_bytes = 0, acknowledged_source_bytes = 0,
      saw_fragment = False, lb_analysis_projection_v3 = False\<rparr>"

definition new_analysis_projection_v3 :: "FetchIdentity \<Rightarrow> SourceIdentityDigest \<Rightarrow> LedgerBuilder" where
  "new_analysis_projection_v3 ident digest =
     (LedgerBuilder_new ident digest)\<lparr>lb_analysis_projection_v3 := True\<rparr>"

definition validate_identity :: "LedgerBuilder \<Rightarrow> RawEnvelopeV1 \<Rightarrow> (LedgerBuildError, unit) result" where
  "validate_identity b envelope =
     (let ident = env_identity envelope in
      if env_retrieval_id ident \<noteq> fetch_retrieval_id (lb_identity b) then Inl RetrievalMismatch
      else if env_plan_id ident \<noteq> fetch_plan_id (lb_identity b) then Inl PlanIdMismatch
      else if env_plan_digest ident \<noteq> fetch_plan_digest (lb_identity b) then Inl PlanDigestMismatch
      else if env_adapter ident \<noteq> fetch_adapter (lb_identity b) then Inl AdapterMismatch
      else if env_source_identity_digest ident \<noteq> lb_source_identity_digest b then Inl SourceIdentityMismatch
      else Inr ())"

definition u64_try_from :: "nat \<Rightarrow> nat option" where
  "u64_try_from n = (if n \<le> u64_max then Some n else None)"

definition authorized_event ::
  "(bytes \<Rightarrow> bytes) \<Rightarrow> EventId \<Rightarrow> SourceRecordId \<Rightarrow> ExactnessBasis \<Rightarrow> nat \<Rightarrow> RawEnvelopeV1 \<Rightarrow> RecordBytes \<Rightarrow> Event" where
  "authorized_event sha256 eid source basis ordinal envelope rec =
     \<lparr>ev_id = eid, ev_source_record_id = source,
      ev_content_hash = authorized_content_hash sha256 (record_exact_bytes rec),
      ev_exactness_basis = basis, ev_ordinal = ordinal,
      ev_acquisition_sequence = acquisition_sequence (env_ordering envelope),
      ev_lane = ord_lane (env_ordering envelope),
      ev_lane_sequence = lane_sequence (env_ordering envelope),
      ev_raw = record_exact_bytes rec, ev_payload_len = payload_len rec,
      ev_terminator_len = map_option length (rec_terminator rec),
      ev_native_event_id = env_native_event_id envelope, ev_cursor = env_cursor envelope,
      ev_record_state = env_state envelope, ev_timestamps = env_timestamps envelope,
      ev_metadata = env_metadata envelope,
      ev_provider_attestations = env_provider_attestations envelope, ev_hints = env_hints envelope\<rparr>"

definition persist_authorized ::
  "(bytes \<Rightarrow> bytes) \<Rightarrow> LedgerBuilder \<Rightarrow> RawEnvelopeV1 \<Rightarrow> RecordBytes \<Rightarrow> ExactnessBasis \<Rightarrow> SourceRecordId \<Rightarrow>
   (LedgerBuildError, AcquisitionOutcome \<times> nat \<times> Event) result" where
  "persist_authorized sha256 b envelope authorized_record basis source =
     rbind (ok_or EventCountOverflow (u64_try_from (length (lb_events b)))) (\<lambda>ordinal.
     let raw = record_exact_bytes authorized_record in
     rbind (ok_or ByteCountOverflow (u64_try_from (length raw))) (\<lambda>authorized_byte_count.
     let content_hash = authorized_content_hash sha256 raw;
         eid = event_id sha256 (fetch_retrieval_id (lb_identity b)) source content_hash basis
                (env_provider_attestations envelope)
     in if map_of (lb_positions b) eid \<noteq> None then Inl (EventIdCollision eid)
        else Inr (Persisted eid basis, authorized_byte_count,
                  authorized_event sha256 eid source basis ordinal envelope authorized_record)))"

text \<open>The \<open>match\<close> on the policy's authorization: outcome, byte count, event, receipt.\<close>

definition authorize ::
  "(bytes \<Rightarrow> bytes) \<Rightarrow> LedgerBuilder \<Rightarrow> RawEnvelopeV1 \<Rightarrow> SourceRecordId \<Rightarrow> PolicyAuthorization \<Rightarrow>
   (LedgerBuildError, AcquisitionOutcome \<times> nat \<times> Event option \<times> TransformationReceiptV1 option) result" where
  "authorize sha256 b envelope source authorization =
     (case authorization of
        AuthorizeSourceExact \<Rightarrow>
          rbind (persist_authorized sha256 b envelope (env_record envelope) SourceExact source)
            (\<lambda>(outcome, count, event). Inr (outcome, count, Some event, None))
      | AuthorizePostPolicy authorized_record policy_digest transformation_receipt_id \<Rightarrow>
          rbind (persist_authorized sha256 b envelope authorized_record (PostPolicy policy_digest transformation_receipt_id) source)
            (\<lambda>(outcome, count, event). Inr (outcome, count, Some event, None))
      | AuthorizePostPolicyReceipt authorized_record receipt \<Rightarrow>
          rbind (persist_authorized sha256 b envelope authorized_record
                  (PostPolicy (tr_policy_digest receipt) (tr_id receipt)) source)
            (\<lambda>(outcome, count, event). Inr (outcome, count, Some event, Some (receipt_bind receipt (ev_id event))))
      | AuthorizeOmittedByPolicy policy_digest \<Rightarrow> Inr (OmittedByPolicy policy_digest, 0, None, None))"

text \<open>The locals of \<open>accept\<close> after every check that only reads the builder.\<close>

record AcceptPlan =
  ap_next_acquisition :: nat
  ap_next_lane :: nat
  ap_records :: nat
  ap_payload_bytes :: nat
  ap_source_bytes :: nat
  ap_source_record_id :: SourceRecordId
  ap_outcome :: AcquisitionOutcome
  ap_authorized_byte_count :: nat
  ap_event :: "Event option"
  ap_receipt :: "TransformationReceiptV1 option"

definition accept_plan ::
  "(bytes \<Rightarrow> bytes) \<Rightarrow> policy \<Rightarrow> LedgerBuilder \<Rightarrow> RawEnvelopeV1 \<Rightarrow> (LedgerBuildError, AcceptPlan) result" where
  "accept_plan sha256 policy b envelope =
     rbind (validate_identity b envelope) (\<lambda>_.
     let ord = env_ordering envelope;
         actual_acquisition = acquisition_sequence ord in
     if \<not> lb_analysis_projection_v3 b \<and> actual_acquisition \<noteq> next_acquisition_sequence b
        \<or> lb_analysis_projection_v3 b \<and> actual_acquisition < next_acquisition_sequence b
     then Inl (UnexpectedAcquisitionSequence (next_acquisition_sequence b) actual_acquisition)
     else rbind (ok_or AcquisitionSequenceOverflow (checked_add_u64 actual_acquisition 1)) (\<lambda>next_acquisition.
     let expected_lane = (case map_of (next_lane_sequences b) (ord_lane ord) of None \<Rightarrow> 0 | Some n \<Rightarrow> n);
         actual_lane = lane_sequence ord in
     if \<not> lb_analysis_projection_v3 b \<and> actual_lane \<noteq> expected_lane
        \<or> lb_analysis_projection_v3 b \<and> actual_lane < expected_lane
     then Inl (UnexpectedLaneSequence expected_lane actual_lane)
     else rbind (ok_or LaneSequenceOverflow (checked_add_u64 actual_lane 1)) (\<lambda>next_lane.
     rbind (ok_or ByteCountOverflow (u64_try_from (payload_len (env_record envelope)))) (\<lambda>payload_bytes.
     rbind (ok_or ByteCountOverflow (u64_try_from (source_len (env_record envelope)))) (\<lambda>source_bytes.
     rbind (ok_or EventCountOverflow (checked_add_u64 (acknowledged_records b) 1)) (\<lambda>records.
     rbind (ok_or ByteCountOverflow (checked_add_u64 (acknowledged_payload_bytes b) payload_bytes)) (\<lambda>acked_payload.
     rbind (ok_or ByteCountOverflow (checked_add_u64 (acknowledged_source_bytes b) source_bytes)) (\<lambda>acked_source.
     let source = expected_source_record_id sha256 envelope in
     if source \<in> source_record_ids b then Inl (SourceRecordIdCollision source)
     else rbind (authorize sha256 b envelope source (policy envelope)) (\<lambda>(outcome, count, event, receipt).
       Inr \<lparr>ap_next_acquisition = next_acquisition, ap_next_lane = next_lane, ap_records = records,
            ap_payload_bytes = acked_payload, ap_source_bytes = acked_source,
            ap_source_record_id = source, ap_outcome = outcome, ap_authorized_byte_count = count,
            ap_event = event, ap_receipt = receipt\<rparr>)))))))))"

definition push_event :: "Event option \<Rightarrow> LedgerBuilder \<Rightarrow> LedgerBuilder" where
  "push_event event b =
     (case event of None \<Rightarrow> b
      | Some e \<Rightarrow> b\<lparr>lb_positions := bt_insert (ev_id e) (length (lb_events b)) (lb_positions b),
                    lb_events := lb_events b @ [e]\<rparr>)"

definition commit_plan :: "RawEnvelopeV1 \<Rightarrow> AcceptPlan \<Rightarrow> LedgerBuilder \<Rightarrow> LedgerBuilder" where
  "commit_plan envelope p b =
     (let b = push_event (ap_event p) b in
      b\<lparr>next_acquisition_sequence := ap_next_acquisition p,
        next_lane_sequences := bt_insert (ord_lane (env_ordering envelope)) (ap_next_lane p) (next_lane_sequences b),
        source_record_ids := insert (ap_source_record_id p) (source_record_ids b),
        expected_source_records := expected_source_records b @ [ap_source_record_id p],
        acquisition_assignments := acquisition_assignments b @ [(ap_source_record_id p, ap_outcome p)],
        acknowledged_records := ap_records p,
        acknowledged_payload_bytes := ap_payload_bytes p,
        acknowledged_source_bytes := ap_source_bytes p,
        saw_fragment := (saw_fragment b \<or> \<not> record_is_complete (env_state envelope))\<rparr>)"

text \<open>
  \<open>accept\<close> returns the builder too: the receipt is inserted before the collision is noticed, so a
  collision is the one error that leaves the builder changed.
\<close>

definition insert_receipt :: "TransformationReceiptV1 option \<Rightarrow> LedgerBuilder \<Rightarrow> LedgerBuilder" where
  "insert_receipt receipt b =
     (case receipt of None \<Rightarrow> b
      | Some r \<Rightarrow> b\<lparr>lb_transformation_receipts := bt_insert (tr_id (tr_prepared r)) r (lb_transformation_receipts b)\<rparr>)"

definition receipt_collides :: "TransformationReceiptV1 option \<Rightarrow> LedgerBuilder \<Rightarrow> bool" where
  "receipt_collides receipt b =
     (case receipt of None \<Rightarrow> False
      | Some r \<Rightarrow> map_of (lb_transformation_receipts b) (tr_id (tr_prepared r)) \<noteq> None)"

definition accept ::
  "(bytes \<Rightarrow> bytes) \<Rightarrow> policy \<Rightarrow> LedgerBuilder \<Rightarrow> RawEnvelopeV1 \<Rightarrow>
   (LedgerBuildError, SinkAck) result \<times> LedgerBuilder" where
  "accept sha256 policy b envelope =
     (case accept_plan sha256 policy b envelope of
        Inl e \<Rightarrow> (Inl e, b)
      | Inr p \<Rightarrow>
          if receipt_collides (ap_receipt p) b
          then (Inl TransformationReceiptCollision, insert_receipt (ap_receipt p) b)
          else (Inr \<lparr>sa_retrieval_id = fetch_retrieval_id (lb_identity b),
                    sa_source_record_id = ap_source_record_id p,
                    sa_acquisition_sequence = acquisition_sequence (env_ordering envelope),
                    sa_authorized_byte_count = ap_authorized_byte_count p,
                    sa_outcome = ap_outcome p\<rparr>,
                commit_plan envelope p (insert_receipt (ap_receipt p) b)))"

section \<open>The sealed ledger\<close>

record EventLedger =
  el_retrieval_id :: RetrievalId
  el_plan_id :: PlanId
  el_plan_digest :: PlanDigest
  el_source_identity_digest :: SourceIdentityDigest
  el_adapter :: AdapterIdentity
  el_completion :: FetchCompletion
  el_acquisition_receipt_id :: AcquisitionReceiptId
  el_acquisition_receipt :: AcquisitionReceipt
  el_transformation_receipts :: "(TransformationReceiptId, TransformationReceiptV1) btree_map"
  el_events :: "Event list"
  el_positions :: "(EventId, nat) btree_map"
  el_lane_positions :: "(LaneKey, nat list) btree_map"

definition push_lane :: "nat \<times> Event \<Rightarrow> (LaneKey, nat list) btree_map \<Rightarrow> (LaneKey, nat list) btree_map" where
  "push_lane pe m = (case pe of (position, e) \<Rightarrow>
     bt_insert (ev_lane e) ((case map_of m (ev_lane e) of None \<Rightarrow> [] | Some ps \<Rightarrow> ps) @ [position]) m)"

definition index_lanes :: "Event list \<Rightarrow> (LaneKey, nat list) btree_map" where
  "index_lanes events = fold push_lane (enumerate 0 events) []"

definition seal ::
  "(bytes \<Rightarrow> bytes) \<Rightarrow> LedgerBuilder \<Rightarrow> FetchCompletion \<Rightarrow> (LedgerBuildError, EventLedger) result" where
  "seal sha256 b completion =
     (if completion_identity completion \<noteq> lb_identity b then Inl CompletionIdentityMismatch
      else let acknowledged = completion_acknowledged completion in
      if ack_records acknowledged \<noteq> acknowledged_records b then Inl CompletionRecordCountMismatch
      else if ack_payload_bytes acknowledged \<noteq> acknowledged_payload_bytes b
        then Inl CompletionPayloadByteCountMismatch
      else if ack_source_bytes acknowledged \<noteq> acknowledged_source_bytes b
        then Inl CompletionSourceByteCountMismatch
      else if provider_is_complete (provider_completeness completion) \<and> saw_fragment b
        then Inl CompleteWithFragment
      else rbind (map_err AcquisitionReceiptInvalid (AcquisitionReceipt_reconcile
          (fetch_retrieval_id (lb_identity b)) (expected_source_records b) (acquisition_assignments b)))
        (\<lambda>receipt. Inr
          \<lparr>el_retrieval_id = fetch_retrieval_id (lb_identity b),
           el_plan_id = fetch_plan_id (lb_identity b),
           el_plan_digest = fetch_plan_digest (lb_identity b),
           el_source_identity_digest = lb_source_identity_digest b,
           el_adapter = fetch_adapter (lb_identity b),
           el_completion = completion,
           el_acquisition_receipt_id = acquisition_receipt_id sha256 receipt,
           el_acquisition_receipt = receipt,
           el_transformation_receipts = lb_transformation_receipts b,
           el_events = lb_events b,
           el_positions = lb_positions b,
           el_lane_positions = index_lanes (lb_events b)\<rparr>))"

subsection \<open>Lookups\<close>

definition contains :: "EventLedger \<Rightarrow> EventId \<Rightarrow> bool" where
  "contains l eid \<longleftrightarrow> map_of (el_positions l) eid \<noteq> None"

definition ledger_position :: "EventLedger \<Rightarrow> EventId \<Rightarrow> nat option" where
  "ledger_position l eid = map_of (el_positions l) eid"

definition index_event :: "EventLedger \<Rightarrow> nat \<Rightarrow> (LedgerLookupError, Event) result" where
  "index_event l position =
     (if position < length (el_events l) then Inr (el_events l ! position) else Inl LookupPanic)"

definition event :: "EventLedger \<Rightarrow> EventId \<Rightarrow> (LedgerLookupError, Event) result" where
  "event l eid = rbind (ok_or (UnknownEvent eid) (map_of (el_positions l) eid)) (index_event l)"

definition exact_bytes :: "EventLedger \<Rightarrow> EventId \<Rightarrow> (LedgerLookupError, bytes) result" where
  "exact_bytes l eid = rbind (event l eid) (\<lambda>e. Inr (ev_raw e))"

definition passthrough :: "EventLedger \<Rightarrow> bytes list" where
  "passthrough l = map ev_raw (el_events l)"

record Expansion =
  expansion_anchor :: EventId
  expansion_anchor_offset :: nat
  expansion_events :: "Event list"

definition expand :: "EventLedger \<Rightarrow> EventId \<Rightarrow> nat \<Rightarrow> nat \<Rightarrow> (LedgerLookupError, Expansion) result" where
  "expand l anchor before after =
     rbind (ok_or (UnknownEvent anchor) (map_of (el_positions l) anchor)) (\<lambda>position.
     let start = position - before;
         end = min (saturating_add_u64 (saturating_add_u64 position after) 1) (length (el_events l)) in
     if start > end then Inl LookupPanic
     else Inr \<lparr>expansion_anchor = anchor, expansion_anchor_offset = position - start,
               expansion_events = take (end - start) (drop start (el_events l))\<rparr>)"

definition expand_same_lane ::
  "EventLedger \<Rightarrow> EventId \<Rightarrow> nat \<Rightarrow> nat \<Rightarrow> (LedgerLookupError, Expansion) result" where
  "expand_same_lane l anchor before after =
     rbind (ok_or (UnknownEvent anchor) (map_of (el_positions l) anchor)) (\<lambda>position.
     rbind (index_event l position) (\<lambda>e.
     rbind (ok_or LookupPanic (map_of (el_lane_positions l) (ev_lane e))) (\<lambda>lane_positions.
     rbind (ok_or LookupPanic (binary_search_by_key id lane_positions position)) (\<lambda>lane_offset.
     let start = lane_offset - before;
         end = min (saturating_add_u64 (saturating_add_u64 lane_offset after) 1) (length lane_positions) in
     if start > end then Inl LookupPanic
     else rbind (rfold (\<lambda>events p. rbind (index_event l p) (\<lambda>e. Inr (events @ [e]))) []
                  (take (end - start) (drop start lane_positions))) (\<lambda>events.
       Inr \<lparr>expansion_anchor = anchor, expansion_anchor_offset = lane_offset - start,
            expansion_events = events\<rparr>)))))"

subsection \<open>Analysis projections\<close>

definition with_analysis_completion_v3 ::
  "EventLedger \<Rightarrow> FetchCompletion \<Rightarrow> (LedgerLookupError, EventLedger) result" where
  "with_analysis_completion_v3 l completion =
     (let selected = completion_acknowledged (el_completion l);
          exhaustive = completion_acknowledged completion;
          ident = completion_identity completion in
      if fetch_retrieval_id ident \<noteq> el_retrieval_id l \<or> fetch_plan_id ident \<noteq> el_plan_id l
         \<or> fetch_plan_digest ident \<noteq> el_plan_digest l \<or> fetch_adapter ident \<noteq> el_adapter l
         \<or> ack_records exhaustive < ack_records selected
         \<or> ack_payload_bytes exhaustive < ack_payload_bytes selected
         \<or> ack_source_bytes exhaustive < ack_source_bytes selected
      then Inl InvalidAnalysisProjection
      else Inr (l\<lparr>el_completion := completion\<rparr>))"

definition projection_step ::
  "EventLedger \<Rightarrow> nat option \<times> Event list \<Rightarrow> nat \<Rightarrow> (LedgerLookupError, nat option \<times> Event list) result" where
  "projection_step l state position =
     (case state of (prior, events) \<Rightarrow>
       if position \<ge> length (el_events l) \<or> (case prior of None \<Rightarrow> False | Some p \<Rightarrow> position \<le> p)
       then Inl InvalidAnalysisProjection
       else rbind (ok_or InvalidAnalysisProjection (u64_try_from (length events))) (\<lambda>ordinal.
         Inr (Some position, events @ [(el_events l ! position)\<lparr>ev_ordinal := ordinal\<rparr>])))"

definition analysis_projection_v3 :: "EventLedger \<Rightarrow> nat list \<Rightarrow> (LedgerLookupError, EventLedger) result" where
  "analysis_projection_v3 l ordered_positions =
     rbind (rfold (projection_step l) (None, []) ordered_positions) (\<lambda>(prior, events).
     if events = [] then Inl InvalidAnalysisProjection
     else Inr (l\<lparr>el_events := events,
                el_positions := fold (\<lambda>(position, e). bt_insert (ev_id e) position) (enumerate 0 events) [],
                el_lane_positions := index_lanes events\<rparr>))"

subsection \<open>Checked export\<close>

datatype LedgerIntegrityErrorV1 =
    OrderingMismatch | ContentHashMismatch | EventIdentityMismatch | AcquisitionReceiptMismatch
  | TransformationReceiptMissing | TransformationReceiptDuplicate | TransformationReceiptMismatch

definition validate_event_step ::
  "(bytes \<Rightarrow> bytes) \<Rightarrow> EventLedger \<Rightarrow> nat option \<times> EventId set \<Rightarrow> nat \<times> Event \<Rightarrow>
   (LedgerIntegrityErrorV1, nat option \<times> EventId set) result" where
  "validate_event_step sha256 l state pe =
     (case state of (prior_acquisition, seen_events) \<Rightarrow> case pe of (position, e) \<Rightarrow>
       if ev_ordinal e \<noteq> position \<or> map_of (el_positions l) (ev_id e) \<noteq> Some position
          \<or> (case prior_acquisition of None \<Rightarrow> False | Some prior \<Rightarrow> ev_acquisition_sequence e \<le> prior)
       then Inl OrderingMismatch
       else if authorized_content_hash sha256 (ev_raw e) \<noteq> ev_content_hash e then Inl ContentHashMismatch
       else if event_id sha256 (el_retrieval_id l) (ev_source_record_id e) (ev_content_hash e)
                 (ev_exactness_basis e) (ev_provider_attestations e) \<noteq> ev_id e
       then Inl EventIdentityMismatch
       else Inr (Some (ev_acquisition_sequence e), insert (ev_id e) seen_events))"

definition receipt_matches_event :: "TransformationReceiptV1 \<Rightarrow> EventId \<Rightarrow> PolicyDigest \<Rightarrow> Event \<Rightarrow> bool" where
  "receipt_matches_event r eid policy_digest e \<longleftrightarrow>
     tr_resulting_event_id r = eid \<and> tr_policy_digest (tr_prepared r) = policy_digest
     \<and> tr_output_content_hash (tr_prepared r) = ev_content_hash e
     \<and> tr_output_length (tr_prepared r) = length (ev_raw e)
     \<and> tr_output_payload_length (tr_prepared r) = ev_payload_len e
     \<and> tr_output_terminator_length (tr_prepared r) = ev_terminator_len e"

definition validate_entry_step ::
  "EventLedger \<Rightarrow> EventId set \<times> EventId set \<Rightarrow> AcquisitionReceiptEntry \<Rightarrow>
   (LedgerIntegrityErrorV1, EventId set \<times> EventId set) result" where
  "validate_entry_step l state entry =
     (case state of (seen_events, receipt_events) \<Rightarrow> case entry of (source, outcome) \<Rightarrow>
      case outcome of
        OmittedByPolicy _ \<Rightarrow> Inr (seen_events, receipt_events)
      | Persisted eid basis \<Rightarrow>
          rbind (map_err (\<lambda>_. AcquisitionReceiptMismatch) (event l eid)) (\<lambda>e.
          if ev_source_record_id e \<noteq> source \<or> ev_exactness_basis e \<noteq> basis
          then Inl AcquisitionReceiptMismatch
          else let seen_events = seen_events - {eid} in
          case basis of
            SourceExact \<Rightarrow> Inr (seen_events, receipt_events)
          | PostPolicy policy_digest transformation_receipt_id \<Rightarrow>
              rbind (ok_or TransformationReceiptMissing (map_of (el_transformation_receipts l) transformation_receipt_id)) (\<lambda>r.
              if tr_resulting_event_id r \<in> receipt_events then Inl TransformationReceiptDuplicate
              else if \<not> receipt_matches_event r eid policy_digest e then Inl TransformationReceiptMismatch
              else Inr (seen_events, insert (tr_resulting_event_id r) receipt_events))))"

definition validate_sealed_ledger ::
  "(bytes \<Rightarrow> bytes) \<Rightarrow> EventLedger \<Rightarrow> (LedgerIntegrityErrorV1, unit) result" where
  "validate_sealed_ledger sha256 l =
     rbind (rfold (validate_event_step sha256 l) (None, {}) (enumerate 0 (el_events l))) (\<lambda>(prior, seen_events).
     if acquisition_receipt_id sha256 (el_acquisition_receipt l) \<noteq> el_acquisition_receipt_id l
     then Inl AcquisitionReceiptMismatch
     else rbind (rfold (validate_entry_step l) (seen_events, {}) (receipt_entries (el_acquisition_receipt l)))
       (\<lambda>(seen_events, receipt_events).
       if seen_events \<noteq> {} \<or> card receipt_events \<noteq> length (el_transformation_receipts l)
       then Inl AcquisitionReceiptMismatch
       else Inr ()))"

text \<open>\<open>checked_export_v1\<close> and \<open>checked_sealed_ledger_import_v1\<close> return the ledger once it validates.\<close>

definition checked_export_v1 :: "(bytes \<Rightarrow> bytes) \<Rightarrow> EventLedger \<Rightarrow> (LedgerIntegrityErrorV1, EventLedger) result" where
  "checked_export_v1 sha256 l = rbind (validate_sealed_ledger sha256 l) (\<lambda>_. Inr l)"

definition checked_sealed_ledger_import_v1 ::
  "(bytes \<Rightarrow> bytes) \<Rightarrow> EventLedger \<Rightarrow> (LedgerIntegrityErrorV1, EventLedger) result" where
  "checked_sealed_ledger_import_v1 sha256 l = rbind (validate_sealed_ledger sha256 l) (\<lambda>_. Inr l)"

end
