(* ===== verification/Ledger_Invariant.thy ===== *)
theory Ledger_Invariant
  imports Ledger
begin

text \<open>
  The invariant of the ledger builder and that every \<open>accept\<close>, successful or not, keeps it; the
  contract of a position index, shared by the builder and the sealed ledger.
\<close>

section \<open>Position indexes\<close>

text \<open>
  A component that keeps its items in a sequence and finds them by key through an index of
  positions.
\<close>

locale position_index =
  fixes invar :: "'s \<Rightarrow> bool"
    and items :: "'s \<Rightarrow> 'e list"
    and key :: "'e \<Rightarrow> 'k"
    and pos :: "'s \<Rightarrow> 'k \<Rightarrow> nat option"
  assumes pos_iff: "invar s \<Longrightarrow> pos s k = Some i \<longleftrightarrow> i < length (items s) \<and> key (items s ! i) = k"
begin

lemma keys_distinct: "invar s \<Longrightarrow> distinct (map key (items s))"
  using pos_iff by (simp add: distinct_conv_nth) (metis option.inject)

lemma pos_None: "invar s \<Longrightarrow> pos s k = None \<longleftrightarrow> k \<notin> key ` set (items s)"
  using pos_iff [of s k] by (cases "pos s k") (force simp: set_conv_nth)+

lemma pos_nth: "invar s \<Longrightarrow> i < length (items s) \<Longrightarrow> pos s (key (items s ! i)) = Some i"
  by (simp add: pos_iff)

lemma pos_member:
  assumes "invar s" and "e \<in> set (items s)"
  obtains i where "i < length (items s)" and "items s ! i = e" and "pos s (key e) = Some i"
  using assms pos_nth by (metis in_set_conv_nth)

text \<open>A window around a found position contains the item at the expected offset.\<close>

lemma window:
  assumes "invar s" and "pos s k = Some i" and "e = min (i + after + 1) (length (items s))" and "b = i - before"
  shows "i - b < length (take (e - b) (drop b (items s)))"
    and "key (take (e - b) (drop b (items s)) ! (i - b)) = k"
    and "length (take (e - b) (drop b (items s))) \<le> before + after + 1"
proof -
  have i: "i < length (items s)" "key (items s ! i) = k" using assms(1,2) by (auto simp: pos_iff)
  show "i - b < length (take (e - b) (drop b (items s)))" using i assms(3,4) by auto
  show "key (take (e - b) (drop b (items s)) ! (i - b)) = k" using i assms(3,4) by auto
  show "length (take (e - b) (drop b (items s))) \<le> before + after + 1" using assms(3,4) by auto
qed

end

definition positions_ok :: "Event list \<Rightarrow> (EventId, nat) btree_map \<Rightarrow> bool" where
  "positions_ok events positions \<longleftrightarrow>
     (\<forall>k i. map_of positions k = Some i \<longleftrightarrow> i < length events \<and> ev_id (events ! i) = k)"

lemma positions_okD: "positions_ok events positions \<Longrightarrow>
    map_of positions k = Some i \<longleftrightarrow> i < length events \<and> ev_id (events ! i) = k"
  by (simp add: positions_ok_def)

lemma positions_ok_Nil [simp]: "positions_ok [] []"
  by (simp add: positions_ok_def)

lemma positions_ok_push:
  assumes "positions_ok events positions" and "map_of positions (ev_id e) = None"
  shows "positions_ok (events @ [e]) (bt_insert (ev_id e) (length events) positions)"
proof -
  have "ev_id (events ! i) \<noteq> ev_id e" if "i < length events" for i
    using assms that by (metis option.distinct(1) positions_ok_def)
  then show ?thesis
    using assms(1) by (auto simp: positions_ok_def nth_append less_Suc_eq)
qed

section \<open>The invariant\<close>

definition event_entry :: "Event \<Rightarrow> AcquisitionOutcomeAssignment" where
  "event_entry e = (ev_source_record_id e, Persisted (ev_id e) (ev_exactness_basis e))"

definition persisted_entries :: "AcquisitionOutcomeAssignment list \<Rightarrow> AcquisitionOutcomeAssignment list" where
  "persisted_entries as = filter (\<lambda>a. persisted_event_id (snd a) \<noteq> None) as"

definition event_ok :: "(bytes \<Rightarrow> bytes) \<Rightarrow> RetrievalId \<Rightarrow> Event \<Rightarrow> bool" where
  "event_ok sha256 retrieval e \<longleftrightarrow>
     ev_content_hash e = authorized_content_hash sha256 (ev_raw e)
     \<and> ev_id e = event_id sha256 retrieval (ev_source_record_id e) (ev_content_hash e)
          (ev_exactness_basis e) (ev_provider_attestations e)
     \<and> ev_payload_len e + (case ev_terminator_len e of None \<Rightarrow> 0 | Some n \<Rightarrow> n) = length (ev_raw e)"

text \<open>Identities and receipts; order of acquisition; order within each lane; totals.\<close>

definition identities_ok :: "(bytes \<Rightarrow> bytes) \<Rightarrow> LedgerBuilder \<Rightarrow> bool" where
  "identities_ok sha256 b \<longleftrightarrow>
     distinct (expected_source_records b) \<and> set (expected_source_records b) = source_record_ids b
     \<and> map fst (acquisition_assignments b) = expected_source_records b
     \<and> persisted_entries (acquisition_assignments b) = map event_entry (lb_events b)
     \<and> positions_ok (lb_events b) (lb_positions b)
     \<and> (\<forall>e \<in> set (lb_events b). event_ok sha256 (fetch_retrieval_id (lb_identity b)) e)"

definition order_ok :: "LedgerBuilder \<Rightarrow> bool" where
  "order_ok b \<longleftrightarrow> map ev_ordinal (lb_events b) = [0..<length (lb_events b)]
     \<and> sorted_wrt (<) (map ev_acquisition_sequence (lb_events b) @ [next_acquisition_sequence b])"

definition lanes_ok :: "LedgerBuilder \<Rightarrow> bool" where
  "lanes_ok b \<longleftrightarrow> (\<forall>lane. sorted_wrt (<)
     (map ev_lane_sequence (filter (\<lambda>e. ev_lane e = lane) (lb_events b))
       @ [case map_of (next_lane_sequences b) lane of None \<Rightarrow> 0 | Some n \<Rightarrow> n]))"

definition totals_ok :: "LedgerBuilder \<Rightarrow> bool" where
  "totals_ok b \<longleftrightarrow> acknowledged_records b = length (expected_source_records b)
     \<and> acknowledged_payload_bytes b \<le> acknowledged_source_bytes b
     \<and> acknowledged_source_bytes b \<le> u64_max \<and> acknowledged_records b \<le> u64_max
     \<and> (\<not> lb_analysis_projection_v3 b \<longrightarrow> next_acquisition_sequence b = acknowledged_records b)"

definition builder_ok :: "(bytes \<Rightarrow> bytes) \<Rightarrow> LedgerBuilder \<Rightarrow> bool" where
  "builder_ok sha256 b \<longleftrightarrow> identities_ok sha256 b \<and> order_ok b \<and> lanes_ok b \<and> totals_ok b"

lemmas builder_ok_defs = builder_ok_def identities_ok_def order_ok_def lanes_ok_def totals_ok_def

interpretation builder_index: position_index "builder_ok sha256" lb_events ev_id "\<lambda>b. map_of (lb_positions b)"
  by unfold_locales (auto simp: builder_ok_def identities_ok_def positions_ok_def)

lemma builder_ok_new: "builder_ok sha256 (LedgerBuilder_new ident digest)"
  by (simp add: builder_ok_defs LedgerBuilder_new_def persisted_entries_def)

lemma builder_ok_new_analysis: "builder_ok sha256 (new_analysis_projection_v3 ident digest)"
  by (simp add: builder_ok_defs LedgerBuilder_new_def new_analysis_projection_v3_def persisted_entries_def)

section \<open>What a plan of \<open>accept\<close> contains\<close>

text \<open>The bytes, basis and prepared receipt that an authorization retains, if any.\<close>

fun retained :: "RawEnvelopeV1 \<Rightarrow> PolicyAuthorization \<Rightarrow>
    (RecordBytes \<times> ExactnessBasis \<times> PreparedTransformationReceiptV1 option) option" where
  "retained envelope AuthorizeSourceExact = Some (env_record envelope, SourceExact, None)"
| "retained envelope (AuthorizePostPolicy rec digest receipt) = Some (rec, PostPolicy digest receipt, None)"
| "retained envelope (AuthorizePostPolicyReceipt rec receipt) =
     Some (rec, PostPolicy (tr_policy_digest receipt) (tr_id receipt), Some receipt)"
| "retained envelope (AuthorizeOmittedByPolicy digest) = None"

definition derived_event ::
  "(bytes \<Rightarrow> bytes) \<Rightarrow> LedgerBuilder \<Rightarrow> RawEnvelopeV1 \<Rightarrow> RecordBytes \<Rightarrow> ExactnessBasis \<Rightarrow> Event" where
  "derived_event sha256 b envelope rec basis =
     authorized_event sha256
       (event_id sha256 (fetch_retrieval_id (lb_identity b)) (source_record_id sha256 envelope)
         (authorized_content_hash sha256 (record_exact_bytes rec)) basis (env_provider_attestations envelope))
       (source_record_id sha256 envelope) basis (length (lb_events b)) envelope rec"

lemma derived_event_simps [simp]:
  "ev_source_record_id (derived_event sha256 b envelope rec basis) = source_record_id sha256 envelope"
  "ev_exactness_basis (derived_event sha256 b envelope rec basis) = basis"
  "ev_ordinal (derived_event sha256 b envelope rec basis) = length (lb_events b)"
  "ev_acquisition_sequence (derived_event sha256 b envelope rec basis) = acquisition_sequence (env_ordering envelope)"
  "ev_lane (derived_event sha256 b envelope rec basis) = ord_lane (env_ordering envelope)"
  "ev_lane_sequence (derived_event sha256 b envelope rec basis) = lane_sequence (env_ordering envelope)"
  "ev_raw (derived_event sha256 b envelope rec basis) = record_exact_bytes rec"
  by (simp_all add: derived_event_def authorized_event_def)

lemma derived_event_ok:
  "event_ok sha256 (fetch_retrieval_id (lb_identity b)) (derived_event sha256 b envelope rec basis)"
  by (simp add: event_ok_def derived_event_def authorized_event_def record_exact_bytes_length
      split: option.split)

lemma persist_authorized_Inr:
  "persist_authorized sha256 b envelope rec basis (source_record_id sha256 envelope) = Inr (oc, n, e) \<longleftrightarrow>
     length (lb_events b) \<le> u64_max \<and> length (record_exact_bytes rec) \<le> u64_max
     \<and> e = derived_event sha256 b envelope rec basis \<and> map_of (lb_positions b) (ev_id e) = None
     \<and> oc = Persisted (ev_id e) basis \<and> n = length (record_exact_bytes rec)"
  by (auto simp: persist_authorized_def derived_event_def authorized_event_def u64_try_from_def
      ok_or_def Let_def split: if_splits)

lemma authorize_retained:
  "authorize sha256 b envelope source auth =
     (case retained envelope auth of
        None \<Rightarrow> Inr (OmittedByPolicy (case auth of AuthorizeOmittedByPolicy d \<Rightarrow> d), 0, None, None)
      | Some (rec, basis, receipt) \<Rightarrow>
          rbind (persist_authorized sha256 b envelope rec basis source)
            (\<lambda>(oc, n, e). Inr (oc, n, Some e, map_option (\<lambda>r. receipt_bind r (ev_id e)) receipt)))"
  by (cases auth) (simp_all add: authorize_def)

text \<open>The facts a successful plan establishes.\<close>

definition plan_ok ::
  "(bytes \<Rightarrow> bytes) \<Rightarrow> policy \<Rightarrow> LedgerBuilder \<Rightarrow> RawEnvelopeV1 \<Rightarrow> AcceptPlan \<Rightarrow> bool" where
  "plan_ok sha256 policy b envelope p \<longleftrightarrow>
     validate_identity b envelope = Inr ()
     \<and> next_acquisition_sequence b \<le> acquisition_sequence (env_ordering envelope)
     \<and> (\<not> lb_analysis_projection_v3 b \<longrightarrow>
          acquisition_sequence (env_ordering envelope) = next_acquisition_sequence b)
     \<and> ap_next_acquisition p = acquisition_sequence (env_ordering envelope) + 1
     \<and> (case map_of (next_lane_sequences b) (ord_lane (env_ordering envelope)) of None \<Rightarrow> 0 | Some n \<Rightarrow> n)
          \<le> lane_sequence (env_ordering envelope)
     \<and> ap_next_lane p = lane_sequence (env_ordering envelope) + 1
     \<and> ap_records p = acknowledged_records b + 1 \<and> ap_records p \<le> u64_max
     \<and> ap_payload_bytes p = acknowledged_payload_bytes b + payload_len (env_record envelope)
     \<and> ap_payload_bytes p \<le> u64_max
     \<and> ap_source_bytes p = acknowledged_source_bytes b + source_len (env_record envelope)
     \<and> ap_source_bytes p \<le> u64_max
     \<and> ap_source_record_id p = source_record_id sha256 envelope
     \<and> ap_source_record_id p \<notin> source_record_ids b
     \<and> authorize sha256 b envelope (source_record_id sha256 envelope) (policy envelope)
         = Inr (ap_outcome p, ap_authorized_byte_count p, ap_event p, ap_receipt p)"

lemma accept_plan_ok:
  assumes "accept_plan sha256 policy b envelope = Inr p"
  shows "plan_ok sha256 policy b envelope p"
  using assms
  by (auto simp: accept_plan_def plan_ok_def result_simps checked_simps Let_def u64_try_from_def
      expected_source_record_id_def split: if_split_asm)

lemma plan_event:
  assumes "plan_ok sha256 policy b envelope p"
  shows "case retained envelope (policy envelope) of
      None \<Rightarrow> ap_event p = None \<and> ap_receipt p = None \<and> (\<exists>d. ap_outcome p = OmittedByPolicy d)
        \<and> ap_authorized_byte_count p = 0
    | Some (rec, basis, receipt) \<Rightarrow>
        (let e = derived_event sha256 b envelope rec basis in
         ap_event p = Some e \<and> map_of (lb_positions b) (ev_id e) = None
         \<and> ap_outcome p = Persisted (ev_id e) basis
         \<and> ap_receipt p = map_option (\<lambda>r. receipt_bind r (ev_id e)) receipt
         \<and> ap_authorized_byte_count p = length (record_exact_bytes rec)
         \<and> length (record_exact_bytes rec) \<le> u64_max)"
proof -
  have auth: "authorize sha256 b envelope (source_record_id sha256 envelope) (policy envelope)
      = Inr (ap_outcome p, ap_authorized_byte_count p, ap_event p, ap_receipt p)"
    using assms by (simp add: plan_ok_def)
  show ?thesis
  proof (cases "retained envelope (policy envelope)")
    case None
    with auth have "ap_outcome p = OmittedByPolicy (case policy envelope of AuthorizeOmittedByPolicy d \<Rightarrow> d)"
      "ap_authorized_byte_count p = 0" "ap_event p = None" "ap_receipt p = None"
      by (auto simp: authorize_retained)
    with None show ?thesis by simp
  next
    case (Some r)
    with auth show ?thesis
      by (cases r) (auto simp: authorize_retained result_simps persist_authorized_Inr Let_def)
  qed
qed

section \<open>Every \<open>accept\<close> keeps the invariant\<close>

lemma insert_receipt_fields [simp]:
  "lb_identity (insert_receipt r b) = lb_identity b"
  "lb_source_identity_digest (insert_receipt r b) = lb_source_identity_digest b"
  "next_acquisition_sequence (insert_receipt r b) = next_acquisition_sequence b"
  "next_lane_sequences (insert_receipt r b) = next_lane_sequences b"
  "source_record_ids (insert_receipt r b) = source_record_ids b"
  "expected_source_records (insert_receipt r b) = expected_source_records b"
  "acquisition_assignments (insert_receipt r b) = acquisition_assignments b"
  "lb_events (insert_receipt r b) = lb_events b"
  "lb_positions (insert_receipt r b) = lb_positions b"
  "acknowledged_records (insert_receipt r b) = acknowledged_records b"
  "acknowledged_payload_bytes (insert_receipt r b) = acknowledged_payload_bytes b"
  "acknowledged_source_bytes (insert_receipt r b) = acknowledged_source_bytes b"
  "saw_fragment (insert_receipt r b) = saw_fragment b"
  "lb_analysis_projection_v3 (insert_receipt r b) = lb_analysis_projection_v3 b"
  by (simp_all add: insert_receipt_def split: option.split)

lemma builder_ok_insert_receipt [simp]: "builder_ok sha256 (insert_receipt r b) = builder_ok sha256 b"
  by (simp add: builder_ok_defs)

lemma commit_plan_fields [simp]:
  "lb_identity (commit_plan envelope p b) = lb_identity b"
  "lb_source_identity_digest (commit_plan envelope p b) = lb_source_identity_digest b"
  "next_acquisition_sequence (commit_plan envelope p b) = ap_next_acquisition p"
  "next_lane_sequences (commit_plan envelope p b) =
     bt_insert (ord_lane (env_ordering envelope)) (ap_next_lane p) (next_lane_sequences b)"
  "source_record_ids (commit_plan envelope p b) = insert (ap_source_record_id p) (source_record_ids b)"
  "expected_source_records (commit_plan envelope p b) = expected_source_records b @ [ap_source_record_id p]"
  "acquisition_assignments (commit_plan envelope p b) =
     acquisition_assignments b @ [(ap_source_record_id p, ap_outcome p)]"
  "lb_events (commit_plan envelope p b) = lb_events b @ (case ap_event p of None \<Rightarrow> [] | Some e \<Rightarrow> [e])"
  "lb_positions (commit_plan envelope p b) =
     (case ap_event p of None \<Rightarrow> lb_positions b
      | Some e \<Rightarrow> bt_insert (ev_id e) (length (lb_events b)) (lb_positions b))"
  "acknowledged_records (commit_plan envelope p b) = ap_records p"
  "acknowledged_payload_bytes (commit_plan envelope p b) = ap_payload_bytes p"
  "acknowledged_source_bytes (commit_plan envelope p b) = ap_source_bytes p"
  "lb_transformation_receipts (commit_plan envelope p b) = lb_transformation_receipts b"
  "saw_fragment (commit_plan envelope p b) \<longleftrightarrow> saw_fragment b \<or> \<not> record_is_complete (env_state envelope)"
  "lb_analysis_projection_v3 (commit_plan envelope p b) = lb_analysis_projection_v3 b"
  by (simp_all add: commit_plan_def push_event_def Let_def split: option.split)

lemma sorted_wrt_raise: "sorted_wrt (<) (xs @ [a]) \<Longrightarrow> a \<le> b \<Longrightarrow> sorted_wrt (<) (xs @ [b :: nat])"
  by (auto simp: sorted_wrt_append)

lemma sorted_wrt_snoc_raise: "sorted_wrt (<) (xs @ [a]) \<Longrightarrow> a \<le> b \<Longrightarrow> b < c \<Longrightarrow> sorted_wrt (<) (xs @ [b, c :: nat])"
  by (auto simp: sorted_wrt_append)

lemma identities_ok_commit:
  assumes ok: "identities_ok sha256 b" and plan: "plan_ok sha256 policy b envelope p"
  shows "identities_ok sha256 (commit_plan envelope p b)"
proof -
  have fresh: "ap_source_record_id p \<notin> source_record_ids b" "ap_source_record_id p = source_record_id sha256 envelope"
    using plan by (auto simp: plan_ok_def)
  show ?thesis
  proof (cases "retained envelope (policy envelope)")
    case None
    with plan_event [OF plan] fresh ok show ?thesis
      by (auto simp: identities_ok_def persisted_entries_def)
  next
    case (Some r)
    then obtain rec basis receipt where "retained envelope (policy envelope) = Some (rec, basis, receipt)"
      by (cases r) auto
    with plan_event [OF plan] fresh ok show ?thesis
      by (auto simp: identities_ok_def persisted_entries_def event_entry_def Let_def derived_event_ok
          intro: positions_ok_push)
  qed
qed

lemma order_ok_commit:
  assumes ok: "order_ok b" and plan: "plan_ok sha256 policy b envelope p"
  shows "order_ok (commit_plan envelope p b)"
proof -
  have sorted: "sorted_wrt (<) (map ev_acquisition_sequence (lb_events b) @ [next_acquisition_sequence b])"
    and le: "next_acquisition_sequence b \<le> acquisition_sequence (env_ordering envelope)"
    and ap_next: "ap_next_acquisition p = acquisition_sequence (env_ordering envelope) + 1"
    using ok plan by (auto simp: order_ok_def plan_ok_def)
  note raise = sorted_wrt_raise [OF sorted, of "ap_next_acquisition p"]
    sorted_wrt_snoc_raise [OF sorted le, of "ap_next_acquisition p"]
  show ?thesis
    using plan_event [OF plan] raise ok le ap_next
    by (auto simp: order_ok_def Let_def split: option.splits)
qed

lemma lanes_ok_commit:
  assumes ok: "lanes_ok b" and plan: "plan_ok sha256 policy b envelope p"
  shows "lanes_ok (commit_plan envelope p b)"
  unfolding lanes_ok_def
proof
  fix lane
  let ?next = "case map_of (next_lane_sequences b) lane of None \<Rightarrow> 0 | Some n \<Rightarrow> n"
  let ?seqs = "map ev_lane_sequence (filter (\<lambda>e. ev_lane e = lane) (lb_events b))"
  have sorted: "sorted_wrt (<) (?seqs @ [?next])"
    using ok unfolding lanes_ok_def by blast
  have le: "?next \<le> lane_sequence (env_ordering envelope)" if "ord_lane (env_ordering envelope) = lane"
    using plan that by (auto simp: plan_ok_def)
  have ap_next: "ap_next_lane p = lane_sequence (env_ordering envelope) + 1"
    using plan by (simp add: plan_ok_def)
  show "sorted_wrt (<) (map ev_lane_sequence (filter (\<lambda>e. ev_lane e = lane) (lb_events (commit_plan envelope p b)))
      @ [case map_of (next_lane_sequences (commit_plan envelope p b)) lane of None \<Rightarrow> 0 | Some n \<Rightarrow> n])"
  proof (cases "ord_lane (env_ordering envelope) = lane")
    case True
    show ?thesis
      using plan_event [OF plan] sorted_wrt_raise [OF sorted, of "ap_next_lane p"]
        sorted_wrt_snoc_raise [OF sorted le, of "ap_next_lane p"] le True ap_next
      by (auto simp: Let_def split: option.splits prod.splits simp del: sorted_wrt_append)
  next
    case False
    then show ?thesis
      using plan_event [OF plan] sorted by (auto simp: Let_def split: option.splits prod.splits)
  qed
qed

lemma totals_ok_commit:
  assumes ok: "totals_ok b" and plan: "plan_ok sha256 policy b envelope p"
  shows "totals_ok (commit_plan envelope p b)"
proof -
  have "payload_len (env_record envelope) \<le> source_len (env_record envelope)
      \<or> u64_max \<le> source_len (env_record envelope)"
    by (auto simp: source_len_def saturating_add_u64_def min_def)
  then show ?thesis
    using ok plan by (auto simp: totals_ok_def plan_ok_def)
qed

lemma builder_ok_commit:
  assumes "builder_ok sha256 b" and "plan_ok sha256 policy b envelope p"
  shows "builder_ok sha256 (commit_plan envelope p b)"
  using assms identities_ok_commit order_ok_commit lanes_ok_commit totals_ok_commit
  by (fastforce simp: builder_ok_def)

end
