(* ===== verification/Ledger_Sealed.thy ===== *)
theory Ledger_Sealed
  imports Ledger_Invariant
begin

text \<open>
  Reachable builders, sealing, and the checked export of a sealed ledger.
\<close>

section \<open>Reachable builders\<close>

text \<open>
  A builder as it is after any sequence of \<open>accept\<close> calls, failed ones included; and a builder for
  which no call ended in a transformation receipt collision.
\<close>

inductive reachable :: "(bytes \<Rightarrow> bytes) \<Rightarrow> policy \<Rightarrow> LedgerBuilder \<Rightarrow> bool"
  for sha256 :: "bytes \<Rightarrow> bytes" and policy :: policy where
  reachable_new: "reachable sha256 policy (LedgerBuilder_new ident digest)"
| reachable_analysis: "reachable sha256 policy (new_analysis_projection_v3 ident digest)"
| reachable_accept: "reachable sha256 policy b \<Longrightarrow> reachable sha256 policy (snd (accept sha256 policy b envelope))"

inductive clean :: "(bytes \<Rightarrow> bytes) \<Rightarrow> policy \<Rightarrow> LedgerBuilder \<Rightarrow> bool"
  for sha256 :: "bytes \<Rightarrow> bytes" and policy :: policy where
  clean_new: "clean sha256 policy (LedgerBuilder_new ident digest)"
| clean_analysis: "clean sha256 policy (new_analysis_projection_v3 ident digest)"
| clean_accept: "clean sha256 policy b \<Longrightarrow> accept sha256 policy b envelope = (res, b') \<Longrightarrow>
     res \<noteq> Inl TransformationReceiptCollision \<Longrightarrow> clean sha256 policy b'"

text \<open>The three ways \<open>accept\<close> ends.\<close>

lemma accept_cases [consumes 1, case_names rejected collision accepted]:
  assumes "accept sha256 policy b envelope = (res, b')"
  obtains e where "accept_plan sha256 policy b envelope = Inl e" "res = Inl e" "b' = b"
  | p where "plan_ok sha256 policy b envelope p" "receipt_collides (ap_receipt p) b"
      "res = Inl TransformationReceiptCollision" "b' = insert_receipt (ap_receipt p) b"
  | p where "plan_ok sha256 policy b envelope p" "\<not> receipt_collides (ap_receipt p) b"
      "b' = commit_plan envelope p (insert_receipt (ap_receipt p) b)"
      "res = Inr \<lparr>sa_retrieval_id = fetch_retrieval_id (lb_identity b),
         sa_source_record_id = ap_source_record_id p,
         sa_acquisition_sequence = acquisition_sequence (env_ordering envelope),
         sa_authorized_byte_count = ap_authorized_byte_count p, sa_outcome = ap_outcome p\<rparr>"
proof (cases "accept_plan sha256 policy b envelope")
  case (Inl e)
  then have "accept sha256 policy b envelope = (Inl e, b)" by (simp add: accept_def)
  with assms Inl show thesis by (intro that(1)) auto
next
  case (Inr p)
  show thesis
  proof (cases "receipt_collides (ap_receipt p) b")
    case True
    with Inr have "accept sha256 policy b envelope = (Inl TransformationReceiptCollision, insert_receipt (ap_receipt p) b)"
      by (simp add: accept_def)
    with assms True show thesis by (intro that(2) [OF accept_plan_ok [OF Inr]]) auto
  next
    case False
    with assms show thesis
      by (intro that(3) [OF accept_plan_ok [OF Inr]]) (auto simp: accept_def Inr)
  qed
qed

lemma validate_identity_insert_receipt [simp]:
  "validate_identity (insert_receipt r b) envelope = validate_identity b envelope"
  unfolding validate_identity_def insert_receipt_fields ..

lemma persist_authorized_insert_receipt [simp]:
  "persist_authorized sha256 (insert_receipt r b) = persist_authorized sha256 b"
  by (simp add: fun_eq_iff persist_authorized_def)

lemma authorize_insert_receipt [simp]: "authorize sha256 (insert_receipt r b) = authorize sha256 b"
  by (simp add: fun_eq_iff authorize_retained split: option.split)

lemma plan_ok_insert_receipt [simp]:
  "plan_ok sha256 policy (insert_receipt r b) envelope p = plan_ok sha256 policy b envelope p"
  by (simp add: plan_ok_def)

lemma accept_builder_ok:
  assumes "accept sha256 policy b envelope = (res, b')" and "builder_ok sha256 b"
  shows "builder_ok sha256 b'"
  using assms(1)
proof (cases rule: accept_cases)
  case (accepted p)
  then show ?thesis
    using assms(2) builder_ok_commit [of sha256 "insert_receipt (ap_receipt p) b" policy envelope p] by simp
qed (use assms(2) in simp_all)

lemma reachable_builder_ok: "reachable sha256 policy b \<Longrightarrow> builder_ok sha256 b"
proof (induction rule: reachable.induct)
  case (reachable_accept b envelope)
  then show ?case by (metis accept_builder_ok prod.collapse)
qed (simp_all add: builder_ok_new builder_ok_new_analysis)

lemma clean_reachable: "clean sha256 policy b \<Longrightarrow> reachable sha256 policy b"
proof (induction rule: clean.induct)
  case (clean_accept b envelope res b')
  then show ?case using reachable_accept [of sha256 policy b envelope] by simp
qed (auto intro: reachable.intros)

section \<open>Transformation receipts of a clean builder\<close>

text \<open>
  A policy that supplies a verified receipt with every changed record: what the constructor of
  prepared receipts establishes, for the record the policy returns beside it.
\<close>

definition verified_policy :: "(bytes \<Rightarrow> bytes) \<Rightarrow> policy \<Rightarrow> bool" where
  "verified_policy sha256 policy \<longleftrightarrow> (\<forall>envelope.
     case policy envelope of
       AuthorizePostPolicy _ _ _ \<Rightarrow> False
     | AuthorizePostPolicyReceipt rec receipt \<Rightarrow>
         (\<exists>digest input ops. PreparedTransformationReceiptV1_new sha256 digest input rec ops = Inr receipt)
     | _ \<Rightarrow> True)"

definition receipt_ref :: "Event \<Rightarrow> TransformationReceiptId option" where
  "receipt_ref e = (case ev_exactness_basis e of SourceExact \<Rightarrow> None | PostPolicy _ rid \<Rightarrow> Some rid)"

definition receipts_ok :: "LedgerBuilder \<Rightarrow> bool" where
  "receipts_ok b \<longleftrightarrow> bt_ordered (lb_transformation_receipts b)
     \<and> distinct (List.map_filter receipt_ref (lb_events b))
     \<and> dom (map_of (lb_transformation_receipts b)) = set (List.map_filter receipt_ref (lb_events b))
     \<and> (\<forall>e \<in> set (lb_events b). \<forall>digest rid. ev_exactness_basis e = PostPolicy digest rid \<longrightarrow>
          (\<exists>r. map_of (lb_transformation_receipts b) rid = Some r \<and> receipt_matches_event r (ev_id e) digest e))"

lemma verified_retained:
  assumes "verified_policy sha256 policy" and "retained envelope (policy envelope) = Some (rec, basis, receipt)"
  shows "(basis = SourceExact \<and> receipt = None) \<or> (\<exists>r. receipt = Some r \<and> basis = PostPolicy (tr_policy_digest r) (tr_id r)
    \<and> tr_output_length r = length (record_exact_bytes rec) \<and> tr_output_content_hash r = sha256 (record_exact_bytes rec)
    \<and> tr_output_payload_length r = payload_len rec
    \<and> tr_output_terminator_length r = map_option length (rec_terminator rec))"
proof (cases "policy envelope")
  case (AuthorizePostPolicyReceipt rec' r)
  moreover have "case policy envelope of AuthorizePostPolicyReceipt rec receipt \<Rightarrow>
      (\<exists>digest input ops. PreparedTransformationReceiptV1_new sha256 digest input rec ops = Inr receipt) | _ \<Rightarrow> True"
    using assms(1) by (auto simp: verified_policy_def split: PolicyAuthorization.splits)
  ultimately obtain digest input ops where "PreparedTransformationReceiptV1_new sha256 digest input rec' ops = Inr r"
    by auto
  then show ?thesis
    using assms(2) AuthorizePostPolicyReceipt by (auto simp: transformation_new_Inr)
next
  case (AuthorizePostPolicy rec' d rid)
  then show ?thesis using assms(1) by (auto simp: verified_policy_def dest!: spec [of _ envelope])
qed (use assms(2) in simp_all)

lemma receipts_okD:
  "receipts_ok b \<Longrightarrow> e \<in> set (lb_events b) \<Longrightarrow> ev_exactness_basis e = PostPolicy digest rid \<Longrightarrow>
   \<exists>r. map_of (lb_transformation_receipts b) rid = Some r \<and> receipt_matches_event r (ev_id e) digest e"
  by (simp add: receipts_ok_def)

lemma receipts_ok_commit:
  assumes ok: "receipts_ok b" and plan: "plan_ok sha256 policy b envelope p"
    and fresh: "\<not> receipt_collides (ap_receipt p) b" and verified: "verified_policy sha256 policy"
  shows "receipts_ok (commit_plan envelope p (insert_receipt (ap_receipt p) b))"
proof (cases "retained envelope (policy envelope)")
  case None
  with plan_event [OF plan] ok show ?thesis
    by (simp add: receipts_ok_def insert_receipt_def)
next
  case (Some q)
  then obtain rec basis receipt where q: "retained envelope (policy envelope) = Some (rec, basis, receipt)"
    by (cases q) auto
  define e where "e = derived_event sha256 b envelope rec basis"
  have e: "ap_event p = Some e" "ev_exactness_basis e = basis"
    and r: "ap_receipt p = map_option (\<lambda>r. receipt_bind r (ev_id e)) receipt"
    using plan_event [OF plan] q by (simp_all add: e_def Let_def)
  from verified_retained [OF verified q] show ?thesis
  proof (elim disjE exE conjE)
    assume "basis = SourceExact" "receipt = None"
    with e r ok show ?thesis
      by (simp add: receipts_ok_def insert_receipt_def receipt_ref_def List.map_filter_def)
  next
    fix t
    assume t: "receipt = Some t" "basis = PostPolicy (tr_policy_digest t) (tr_id t)"
      "tr_output_length t = length (record_exact_bytes rec)"
      "tr_output_content_hash t = sha256 (record_exact_bytes rec)"
      "tr_output_payload_length t = payload_len rec"
      "tr_output_terminator_length t = map_option length (rec_terminator rec)"
    have matches: "receipt_matches_event (receipt_bind t (ev_id e)) (ev_id e) (tr_policy_digest t) e"
      using t by (simp add: receipt_matches_event_def receipt_bind_def e_def derived_event_def
          authorized_event_def authorized_content_hash_def)
    have new: "map_of (lb_transformation_receipts b) (tr_id t) = None"
      using fresh r t(1) by (simp add: receipt_collides_def receipt_bind_def)
    then have absent: "tr_id t \<notin> set (List.map_filter receipt_ref (lb_events b))"
      using ok by (metis domIff receipts_ok_def)
    have other: "rid \<noteq> tr_id t"
      if "x \<in> set (lb_events b)" "ev_exactness_basis x = PostPolicy digest' rid" for x digest' rid
      using ok new that by (fastforce simp: receipts_ok_def)
    show ?thesis
      using ok e r t(1,2) absent other matches
      by (auto simp: receipts_ok_def insert_receipt_def receipt_bind_def receipt_ref_def List.map_filter_def
          intro!: bt_ordered_insert)
  qed
qed

lemma clean_receipts_ok:
  assumes "clean sha256 policy b" and "verified_policy sha256 policy"
  shows "receipts_ok b"
  using assms(1)
proof (induction rule: clean.induct)
  case (clean_accept b envelope res b')
  from clean_accept.hyps(2) show ?case
  proof (cases rule: accept_cases)
    case (accepted p)
    then show ?thesis using clean_accept.IH assms(2) by (simp add: receipts_ok_commit)
  qed (use clean_accept in simp_all)
qed (simp_all add: receipts_ok_def LedgerBuilder_new_def new_analysis_projection_v3_def List.map_filter_def)

section \<open>Sealing\<close>

text \<open>The conditions a completion must meet, and the ledger it seals.\<close>

definition completion_matches :: "LedgerBuilder \<Rightarrow> FetchCompletion \<Rightarrow> bool" where
  "completion_matches b completion \<longleftrightarrow> completion_identity completion = lb_identity b
     \<and> completion_acknowledged completion = \<lparr>ack_records = acknowledged_records b,
          ack_payload_bytes = acknowledged_payload_bytes b, ack_source_bytes = acknowledged_source_bytes b\<rparr>
     \<and> (is_fetch_complete (completion_completeness completion) \<longrightarrow> \<not> saw_fragment b)"

definition sealed_receipt :: "LedgerBuilder \<Rightarrow> AcquisitionReceipt" where
  "sealed_receipt b = \<lparr>receipt_retrieval_id = fetch_retrieval_id (lb_identity b),
     receipt_entries = acquisition_assignments b,
     receipt_counts = count_outcomes AcquisitionCounts_default (acquisition_assignments b)\<rparr>"

lemma persisted_ids_entries: "persisted_ids as = map (\<lambda>a. the (persisted_event_id (snd a))) (persisted_entries as)"
  by (simp add: persisted_ids_def persisted_entries_def List.map_filter_def comp_def)

lemma persisted_ids_events:
  assumes "builder_ok sha256 b"
  shows "persisted_ids (acquisition_assignments b) = map ev_id (lb_events b)"
proof -
  have "persisted_entries (acquisition_assignments b) = map event_entry (lb_events b)"
    using assms by (simp add: builder_ok_def identities_ok_def)
  then show ?thesis by (simp add: persisted_ids_entries event_entry_def)
qed

lemma reconcile_builder:
  assumes "builder_ok sha256 b"
  shows "AcquisitionReceipt_reconcile (fetch_retrieval_id (lb_identity b)) (expected_source_records b)
      (acquisition_assignments b) = Inr (sealed_receipt b)"
proof -
  have keys: "map fst (acquisition_assignments b) = expected_source_records b" "distinct (expected_source_records b)"
    using assms by (simp_all add: builder_ok_def identities_ok_def)
  then have "map (\<lambda>s. (s, the (map_of (acquisition_assignments b) s))) (expected_source_records b)
      = acquisition_assignments b"
    by (metis map_of_keys)
  moreover have "distinct (persisted_ids (acquisition_assignments b))"
    using assms by (simp add: persisted_ids_events builder_index.keys_distinct)
  moreover have "fst ` set (acquisition_assignments b) = set (expected_source_records b)"
    by (metis keys(1) set_map)
  ultimately show ?thesis
    using keys by (simp add: reconcile_Inr sealed_receipt_def)
qed

lemma seal_Inr:
  assumes "builder_ok sha256 b"
  shows "seal sha256 b completion = Inr l \<longleftrightarrow> completion_matches b completion
    \<and> l = \<lparr>el_retrieval_id = fetch_retrieval_id (lb_identity b), el_plan_id = fetch_plan_id (lb_identity b),
           el_plan_digest = fetch_plan_digest (lb_identity b),
           el_source_identity_digest = lb_source_identity_digest b, el_adapter = fetch_adapter (lb_identity b),
           el_completion = completion,
           el_acquisition_receipt_id = acquisition_receipt_id sha256 (sealed_receipt b),
           el_acquisition_receipt = sealed_receipt b,
           el_transformation_receipts = lb_transformation_receipts b, el_events = lb_events b,
           el_positions = lb_positions b, el_lane_positions = index_lanes (lb_events b)\<rparr>"
  by (cases "completion_acknowledged completion")
    (auto simp: seal_def reconcile_builder [OF assms] completion_matches_def provider_completeness_def Let_def)

section \<open>Indexed ledgers\<close>

text \<open>What lookups rely on: the position index and the lane index describe the events.\<close>

definition ledger_ok :: "EventLedger \<Rightarrow> bool" where
  "ledger_ok l \<longleftrightarrow> positions_ok (el_events l) (el_positions l)
     \<and> el_lane_positions l = index_lanes (el_events l) \<and> length (el_events l) \<le> u64_max"

interpretation ledger_index: position_index ledger_ok el_events ev_id ledger_position
  by unfold_locales (simp add: ledger_ok_def ledger_position_def positions_ok_def)

lemma event_ledger_ok:
  assumes "ledger_ok l"
  shows "event l eid = (case ledger_position l eid of None \<Rightarrow> Inl (UnknownEvent eid) | Some i \<Rightarrow> Inr (el_events l ! i))"
proof (cases "ledger_position l eid")
  case None
  then show ?thesis by (simp add: event_def ledger_position_def)
next
  case (Some i)
  then have "i < length (el_events l)" using ledger_index.pos_iff [OF assms] by blast
  then show ?thesis using Some by (simp add: event_def index_event_def ledger_position_def)
qed

lemma event_member:
  assumes "ledger_ok l" and "e \<in> set (el_events l)"
  shows "event l (ev_id e) = Inr e"
proof -
  obtain i where "el_events l ! i = e" "ledger_position l (ev_id e) = Some i"
    by (rule ledger_index.pos_member [OF assms])
  then show ?thesis by (simp add: event_ledger_ok [OF assms(1)])
qed

section \<open>Checked export of a sealed ledger\<close>

lemma validate_events:
  assumes "builder_ok sha256 b" and l: "el_events l = lb_events b" "el_positions l = lb_positions b"
    "el_retrieval_id l = fetch_retrieval_id (lb_identity b)"
  shows "\<exists>prior. rfold (validate_event_step sha256 l) (None, {}) (enumerate 0 (el_events l))
    = Inr (prior, ev_id ` set (lb_events b))"
proof -
  let ?es = "lb_events b"
  let ?P = "\<lambda>ys (prior, seen). seen = ev_id ` set (map snd ys)
    \<and> prior = (if ys = [] then None else Some (ev_acquisition_sequence (snd (last ys))))"
  have "\<exists>s'. rfold (validate_event_step sha256 l) (None, {}) (enumerate 0 ?es) = Inr s' \<and> ?P (enumerate 0 ?es) s'"
  proof (rule rfold_progress)
    fix ys y zs and t :: "nat option \<times> EventId set"
    assume split: "enumerate 0 ?es = ys @ y # zs" and inv: "?P ys t"
    obtain prior seen where t: "t = (prior, seen)" by (cases t)
    define n where "n = length ys"
    note y = enumerate_split [OF split, folded n_def]
    have ord: "ev_ordinal (?es ! n) = n"
      using assms(1) y(2) by (metis (no_types) add_0 builder_ok_def length_map nth_map nth_upt order_ok_def)
    have pos: "map_of (lb_positions b) (ev_id (?es ! n)) = Some n"
      using builder_index.pos_nth [OF assms(1) y(2)] .
    have ok: "event_ok sha256 (fetch_retrieval_id (lb_identity b)) (?es ! n)"
      using assms(1) y(2) by (simp add: builder_ok_def identities_ok_def)
    have prior: "p < ev_acquisition_sequence (?es ! n)" if "prior = Some p" for p
    proof -
      from that inv have ne: "ys \<noteq> []" and p: "p = ev_acquisition_sequence (last (map snd ys))"
        by (auto simp: t last_map split: if_splits)
      have "take n ?es \<noteq> []" using y(3) ne by (metis map_is_Nil_conv)
      then have "p = ev_acquisition_sequence (?es ! (n - 1))"
        using y(2,3) p by (simp add: last_conv_nth min_def)
      moreover have "sorted_wrt (<) (map ev_acquisition_sequence ?es)"
        using assms(1) by (simp add: builder_ok_def order_ok_def sorted_wrt_append)
      ultimately show ?thesis
        using sorted_wrt_nth_less [of "(<)" "map ev_acquisition_sequence ?es" "n - 1" n] y(2) ne
        by (simp add: n_def)
    qed
    have "validate_event_step sha256 l t y
        = Inr (Some (ev_acquisition_sequence (?es ! n)), insert (ev_id (?es ! n)) seen)"
      using ord pos ok prior y(1)
      by (auto simp: validate_event_step_def t l event_ok_def not_le split: option.split)
    then show "\<exists>t'. validate_event_step sha256 l t y = Inr t' \<and> ?P (ys @ [y]) t'"
      using inv y(1) by (auto simp: t)
  qed simp
  then show ?thesis by (auto simp: l)
qed

text \<open>Every entry of the receipt finds its event and, after a policy change, its receipt.\<close>

lemma persisted_entry_event:
  assumes "builder_ok sha256 b" and "(src, Persisted eid basis) \<in> set (acquisition_assignments b)"
  obtains e where "e \<in> set (lb_events b)" "ev_id e = eid" "ev_source_record_id e = src" "ev_exactness_basis e = basis"
proof -
  have "(src, Persisted eid basis) \<in> set (persisted_entries (acquisition_assignments b))"
    using assms(2) by (simp add: persisted_entries_def)
  then have "(src, Persisted eid basis) \<in> event_entry ` set (lb_events b)"
    using assms(1) by (simp add: builder_ok_def identities_ok_def)
  then show thesis by (auto simp: event_entry_def intro: that)
qed

definition changed_ids :: "AcquisitionOutcomeAssignment list \<Rightarrow> EventId list" where
  "changed_ids as = List.map_filter (\<lambda>a. case snd a of Persisted eid (PostPolicy _ _) \<Rightarrow> Some eid | _ \<Rightarrow> None) as"

lemma changed_ids_simps [simp]:
  "changed_ids [] = []"
  "changed_ids (as @ [a]) = changed_ids as @ (case snd a of Persisted eid (PostPolicy _ _) \<Rightarrow> [eid] | _ \<Rightarrow> [])"
  by (simp_all add: changed_ids_def List.map_filter_def split: AcquisitionOutcome.split ExactnessBasis.split)

lemma changed_ids_persisted: "set (changed_ids as) \<subseteq> set (persisted_ids as)"
  by (induction as rule: rev_induct) (auto split: AcquisitionOutcome.splits ExactnessBasis.splits)

lemma validate_entries:
  assumes ok: "builder_ok sha256 b" and receipts: "receipts_ok b" and l: "ledger_ok l" "el_events l = lb_events b"
    "el_transformation_receipts l = lb_transformation_receipts b"
  shows "rfold (validate_entry_step l) (seen, {}) (acquisition_assignments b)
    = Inr (seen - set (persisted_ids (acquisition_assignments b)), set (changed_ids (acquisition_assignments b)))"
proof -
  let ?as = "acquisition_assignments b"
  let ?P = "\<lambda>ys s. s = (seen - set (persisted_ids ys), set (changed_ids ys))"
  have dist: "distinct (persisted_ids ?as)"
    using ok by (simp add: persisted_ids_events builder_index.keys_distinct)
  have "\<exists>s'. rfold (validate_entry_step l) (seen, {}) ?as = Inr s' \<and> ?P ?as s'"
  proof (rule rfold_progress)
    fix ys y zs t
    assume split: "?as = ys @ y # zs" and inv: "?P ys t"
    obtain src outcome where y: "y = (src, outcome)" by (cases y)
    show "\<exists>t'. validate_entry_step l t y = Inr t' \<and> ?P (ys @ [y]) t'"
    proof (cases outcome)
      case (OmittedByPolicy d)
      then show ?thesis using inv y by (simp add: validate_entry_step_def)
    next
      case (Persisted eid basis)
      from persisted_entry_event [OF ok, of src eid basis] split y Persisted
      obtain e where e: "e \<in> set (lb_events b)" "ev_id e = eid" "ev_source_record_id e = src" "ev_exactness_basis e = basis"
        by auto
      have lookup: "event l eid = Inr e" using event_member [OF l(1)] e l(2) by auto
      show ?thesis
      proof (cases basis)
        case SourceExact
        then show ?thesis using inv y Persisted lookup e by (auto simp: validate_entry_step_def)
      next
        case (PostPolicy digest rid)
        then obtain r where r: "map_of (lb_transformation_receipts b) rid = Some r" "receipt_matches_event r eid digest e"
          using receipts_okD [OF receipts e(1)] e by auto
        then have res: "tr_resulting_event_id r = eid" by (simp add: receipt_matches_event_def)
        have "eid \<notin> set (changed_ids ys)"
          using dist split y Persisted changed_ids_persisted [of ys] by auto
        then have "validate_entry_step l t y = Inr (seen - set (persisted_ids ys) - {eid}, insert eid (set (changed_ids ys)))"
          using inv y Persisted PostPolicy lookup e(3,4) r res by (simp add: validate_entry_step_def l(3) Let_def)
        then show ?thesis using y Persisted PostPolicy by auto
      qed
    qed
  qed simp
  then show ?thesis by auto
qed

lemma length_lb_events: "builder_ok sha256 b \<Longrightarrow> length (lb_events b) \<le> u64_max"
proof -
  assume ok: "builder_ok sha256 b"
  have "length (lb_events b) = length (persisted_entries (acquisition_assignments b))"
    using ok by (simp add: builder_ok_def identities_ok_def)
  also have "\<dots> \<le> length (map fst (acquisition_assignments b))"
    by (simp add: persisted_entries_def)
  also have "\<dots> = acknowledged_records b"
    using ok by (simp add: builder_ok_def identities_ok_def totals_ok_def)
  finally show ?thesis using ok by (simp add: builder_ok_def totals_ok_def)
qed

lemma seal_ledger_ok: "builder_ok sha256 b \<Longrightarrow> seal sha256 b completion = Inr l \<Longrightarrow> ledger_ok l"
  using length_lb_events [of sha256 b]
  by (simp add: seal_Inr ledger_ok_def) (simp add: builder_ok_def identities_ok_def)

lemma changed_ids_filter:
  "changed_ids as = map (\<lambda>a. the (persisted_event_id (snd a)))
     (filter (\<lambda>a. case snd a of Persisted _ (PostPolicy _ _) \<Rightarrow> True | _ \<Rightarrow> False) (persisted_entries as))"
  by (induction as rule: rev_induct)
    (auto simp: persisted_entries_def split: AcquisitionOutcome.split ExactnessBasis.split)

lemma changed_ids_count:
  assumes ok: "builder_ok sha256 b" and receipts: "receipts_ok b"
  shows "card (set (changed_ids (acquisition_assignments b))) = length (lb_transformation_receipts b)"
proof -
  let ?changed = "filter (\<lambda>e. receipt_ref e \<noteq> None) (lb_events b)"
  have "persisted_entries (acquisition_assignments b) = map event_entry (lb_events b)"
    using ok by (simp add: builder_ok_def identities_ok_def)
  moreover have "(case snd (event_entry e) of Persisted _ (PostPolicy _ _) \<Rightarrow> True | _ \<Rightarrow> False) \<longleftrightarrow> receipt_ref e \<noteq> None" for e
    by (simp add: event_entry_def receipt_ref_def split: ExactnessBasis.split)
  ultimately have ids: "changed_ids (acquisition_assignments b) = map ev_id ?changed"
    by (simp add: changed_ids_filter filter_map comp_def event_entry_def)
  have "distinct (map ev_id ?changed)"
    using builder_index.keys_distinct [OF ok] by (rule distinct_map_filter)
  then have "card (set (changed_ids (acquisition_assignments b))) = length (List.map_filter receipt_ref (lb_events b))"
    unfolding ids by (metis distinct_card length_map length_map_filter)
  also have "\<dots> = card (dom (map_of (lb_transformation_receipts b)))"
    using receipts by (metis distinct_card receipts_ok_def)
  also have "\<dots> = length (lb_transformation_receipts b)"
    using receipts bt_ordered_distinct [of "lb_transformation_receipts b"]
    by (metis distinct_card dom_map_of_conv_image_fst length_map receipts_ok_def set_map)
  finally show ?thesis .
qed

lemma sealed_validates:
  assumes ok: "builder_ok sha256 b" and receipts: "receipts_ok b" and seal: "seal sha256 b completion = Inr l"
  shows "validate_sealed_ledger sha256 l = Inr ()"
proof -
  have l: "el_events l = lb_events b" "el_positions l = lb_positions b"
    "el_retrieval_id l = fetch_retrieval_id (lb_identity b)"
    "el_transformation_receipts l = lb_transformation_receipts b"
    "el_acquisition_receipt l = sealed_receipt b"
    "el_acquisition_receipt_id l = acquisition_receipt_id sha256 (sealed_receipt b)"
    using seal by (simp_all add: seal_Inr [OF ok])
  obtain prior where "rfold (validate_event_step sha256 l) (None, {}) (enumerate 0 (el_events l))
      = Inr (prior, ev_id ` set (lb_events b))"
    using validate_events [OF ok l(1-3)] by blast
  moreover have "receipt_entries (el_acquisition_receipt l) = acquisition_assignments b"
    by (simp add: l sealed_receipt_def)
  moreover have "ev_id ` set (lb_events b) - set (persisted_ids (acquisition_assignments b)) = {}"
    by (simp add: persisted_ids_events [OF ok])
  ultimately show ?thesis
    using validate_entries [OF ok receipts seal_ledger_ok [OF ok seal] l(1,4)] changed_ids_count [OF ok receipts]
    by (simp add: validate_sealed_ledger_def l)
qed

section \<open>The lane index\<close>

definition lane_indices :: "Event list \<Rightarrow> LaneKey \<Rightarrow> nat list" where
  "lane_indices events lane = filter (\<lambda>i. ev_lane (events ! i) = lane) [0..<length events]"

lemma lane_indices_snoc:
  "lane_indices (events @ [e]) lane = lane_indices events lane @ (if ev_lane e = lane then [length events] else [])"
  by (auto simp: lane_indices_def nth_append intro!: filter_cong)

lemma index_lanes_lookup:
  "map_of (index_lanes events) lane = (if lane_indices events lane = [] then None else Some (lane_indices events lane))"
proof (induction events rule: rev_induct)
  case Nil
  then show ?case by (simp add: index_lanes_def lane_indices_def)
next
  case (snoc e events)
  have "index_lanes (events @ [e]) = push_lane (length events, e) (index_lanes events)"
    by (simp add: index_lanes_def enumerate_snoc)
  then show ?case
    using snoc.IH by (auto simp: push_lane_def lane_indices_snoc split: option.split if_splits)
qed

lemma lane_indices_sorted: "sorted_wrt (<) (lane_indices events lane)"
  by (simp add: lane_indices_def sorted_wrt_filter)

lemma lane_indices_events: "map ((!) events) (lane_indices events lane) = filter (\<lambda>e. ev_lane e = lane) events"
proof -
  have "filter (\<lambda>e. ev_lane e = lane) (map ((!) events) [0..<length events])
      = map ((!) events) (lane_indices events lane)"
    by (simp add: lane_indices_def filter_map comp_def)
  then show ?thesis by (simp add: map_nth)
qed

section \<open>Neighbourhoods\<close>

lemma window_end: "n \<le> u64_max \<Longrightarrow> min (saturating_add_u64 (saturating_add_u64 i a) (Suc 0)) n = min (Suc (i + a)) n"
  by (auto simp: saturating_add_u64_def)

lemma expand_spec:
  assumes "ledger_ok l" and "ledger_position l anchor = Some i"
  shows "expand l anchor before after = Inr \<lparr>expansion_anchor = anchor, expansion_anchor_offset = i - (i - before),
    expansion_events = take (min (i + after + 1) (length (el_events l)) - (i - before)) (drop (i - before) (el_events l))\<rparr>"
proof -
  have "i < length (el_events l)" using ledger_index.pos_iff [OF assms(1)] assms(2) by blast
  moreover have "length (el_events l) \<le> u64_max" using assms(1) by (simp add: ledger_ok_def)
  ultimately show ?thesis
    using assms(2) by (simp add: expand_def ledger_position_def window_end Let_def)
qed

lemma index_events_loop:
  "\<forall>p \<in> set ps. p < length (el_events l) \<Longrightarrow>
   rfold (\<lambda>events p. rbind (index_event l p) (\<lambda>e. Inr (events @ [e]))) acc ps = Inr (acc @ map ((!) (el_events l)) ps)"
  by (induction ps arbitrary: acc) (simp_all add: index_event_def)

lemma lane_offset:
  assumes "i < length events"
  obtains k where "k < length (lane_indices events (ev_lane (events ! i)))"
    and "lane_indices events (ev_lane (events ! i)) ! k = i"
proof -
  have "i \<in> set (lane_indices events (ev_lane (events ! i)))" using assms by (simp add: lane_indices_def)
  then show thesis by (metis in_set_conv_nth that)
qed

lemma expand_same_lane_spec:
  assumes ok: "ledger_ok l" and pos: "ledger_position l anchor = Some i"
    and lane: "lane = ev_lane (el_events l ! i)"
    and k: "k < length (lane_indices (el_events l) lane)" "lane_indices (el_events l) lane ! k = i"
  shows "expand_same_lane l anchor before after = Inr \<lparr>expansion_anchor = anchor, expansion_anchor_offset = k - (k - before),
    expansion_events = take (min (k + after + 1) (length (filter (\<lambda>e. ev_lane e = lane) (el_events l))) - (k - before))
      (drop (k - before) (filter (\<lambda>e. ev_lane e = lane) (el_events l)))\<rparr>"
proof -
  let ?idx = "lane_indices (el_events l) lane"
  have i: "i < length (el_events l)" using ledger_index.pos_iff [OF ok] pos by blast
  have nonempty: "?idx \<noteq> []" using k by auto
  have found: "binary_search_by_key id ?idx i = Some k"
    using k lane_indices_sorted [of "el_events l" lane] by (simp add: binary_search_by_key_Some)
  have len: "length ?idx = length (filter (\<lambda>e. ev_lane e = lane) (el_events l))"
    by (metis lane_indices_events length_map)
  have "length ?idx \<le> length (el_events l)" by (metis len length_filter_le)
  then have bound: "length ?idx \<le> u64_max" using ok by (simp add: ledger_ok_def)
  have range: "\<forall>p \<in> set (take n (drop m ?idx)). p < length (el_events l)" for n m
    by (auto simp: lane_indices_def dest!: in_set_takeD in_set_dropD)
  have lookup: "map_of (el_lane_positions l) lane = Some ?idx"
    using ok nonempty by (simp add: ledger_ok_def index_lanes_lookup)
  have elements: "map ((!) (el_events l)) (take n (drop m ?idx)) = take n (drop m (filter (\<lambda>e. ev_lane e = lane) (el_events l)))" for n m
    by (simp add: lane_indices_events flip: take_map drop_map)
  have anchor: "index_event l i = Inr (el_events l ! i)" using i by (simp add: index_event_def)
  show ?thesis
    using pos found lookup anchor k(1)
    by (simp add: expand_same_lane_def ledger_position_def lane [symmetric] window_end [OF bound [unfolded len]]
        index_events_loop [OF range] elements len Let_def)
qed

section \<open>Analysis projections\<close>

definition projection_positions_ok :: "EventLedger \<Rightarrow> nat list \<Rightarrow> bool" where
  "projection_positions_ok l ps \<longleftrightarrow> sorted_wrt (<) ps \<and> (\<forall>p \<in> set ps. p < length (el_events l))"

definition project_events :: "EventLedger \<Rightarrow> nat list \<Rightarrow> Event list" where
  "project_events l ps = map (\<lambda>(k, p). (el_events l ! p)\<lparr>ev_ordinal := k\<rparr>) (enumerate 0 ps)"

lemma projection_positions_length:
  assumes "projection_positions_ok l ps"
  shows "length ps \<le> length (el_events l)"
proof -
  have "distinct ps" and "set ps \<subseteq> {..<length (el_events l)}"
    using assms by (auto simp: projection_positions_ok_def strict_sorted_iff)
  then show ?thesis
    by (metis card_lessThan card_mono distinct_card finite_lessThan)
qed

lemma projection_positions_snoc:
  "projection_positions_ok l (ps @ [p]) \<longleftrightarrow>
     projection_positions_ok l ps \<and> p < length (el_events l) \<and> (ps = [] \<or> last ps < p)"
proof (cases "ps = []")
  case False
  have "(\<forall>x \<in> set ps. x < p) \<longleftrightarrow> last ps < p" if "sorted_wrt (<) ps"
  proof -
    have "sorted_wrt (<) (butlast ps @ [last ps])" using that False by simp
    then have "\<forall>x \<in> set (butlast ps). x < last ps" by (simp only: sorted_wrt_append) simp
    moreover have "set ps = insert (last ps) (set (butlast ps))"
      using False by (metis append_butlast_last_id list.simps(15) rotate1.simps(2) set_rotate1)
    ultimately show ?thesis by force
  qed
  with False show ?thesis by (auto simp: projection_positions_ok_def sorted_wrt_append)
qed (simp add: projection_positions_ok_def)

lemma projection_loop:
  assumes "length (el_events l) \<le> u64_max"
  shows "rfold (projection_step l) (None, []) ps =
    (if projection_positions_ok l ps
     then Inr (if ps = [] then None else Some (last ps), project_events l ps)
     else Inl InvalidAnalysisProjection)"
proof (induction ps rule: rev_induct)
  case Nil
  then show ?case by (simp add: projection_positions_ok_def project_events_def)
next
  case (snoc p ps)
  show ?case
  proof (cases "projection_positions_ok l ps")
    case True
    then have "length ps \<le> u64_max" using projection_positions_length [of l ps] assms by linarith
    then show ?thesis
      using snoc.IH True
      by (auto simp: rfold_append projection_step_def projection_positions_snoc project_events_def
          enumerate_snoc u64_try_from_def)
  next
    case False
    then show ?thesis using snoc.IH by (simp add: rfold_append projection_positions_snoc)
  qed
qed

lemma positions_ok_index:
  "distinct (map ev_id events) \<Longrightarrow>
   positions_ok events (fold (\<lambda>(position, e). bt_insert (ev_id e) position) (enumerate 0 events) [])"
  by (simp add: positions_ok_def index_fold)

lemma project_events_ids: "map ev_id (project_events l ps) = map (\<lambda>p. ev_id (el_events l ! p)) ps"
  by (rule nth_equalityI) (simp_all add: project_events_def nth_enumerate_eq)

lemma project_events_distinct:
  assumes "ledger_ok l" and "projection_positions_ok l ps"
  shows "distinct (map ev_id (project_events l ps))"
proof -
  have "inj_on (\<lambda>p. ev_id (el_events l ! p)) (set ps)"
    using ledger_index.keys_distinct [OF assms(1)] assms(2)
    by (auto simp: inj_on_def projection_positions_ok_def distinct_conv_nth)
  then show ?thesis
    using assms(2) by (simp add: project_events_ids distinct_map projection_positions_ok_def strict_sorted_iff)
qed

lemma analysis_projection_Inr:
  assumes ok: "ledger_ok l"
  shows "analysis_projection_v3 l ps = Inr l' \<longleftrightarrow> ps \<noteq> [] \<and> projection_positions_ok l ps
    \<and> l' = l\<lparr>el_events := project_events l ps,
            el_positions := fold (\<lambda>(position, e). bt_insert (ev_id e) position) (enumerate 0 (project_events l ps)) [],
            el_lane_positions := index_lanes (project_events l ps)\<rparr>"
proof -
  have "length (el_events l) \<le> u64_max" using ok by (simp add: ledger_ok_def)
  moreover have "project_events l ps = [] \<longleftrightarrow> ps = []" by (simp add: project_events_def) (metis length_0_conv length_enumerate)
  ultimately show ?thesis
    by (auto simp: analysis_projection_v3_def projection_loop)
qed

lemma analysis_projection_ledger_ok:
  assumes "ledger_ok l" and "analysis_projection_v3 l ps = Inr l'"
  shows "ledger_ok l'"
proof -
  have "length (project_events l ps) = length ps" by (simp add: project_events_def)
  then show ?thesis
    using assms projection_positions_length [of l ps] positions_ok_index [OF project_events_distinct [OF assms(1)], of ps]
    by (auto simp: analysis_projection_Inr ledger_ok_def)
qed

end
