(* ===== verification/Ledger_Stream.thy ===== *)
theory Ledger_Stream
  imports Ledger_Sealed
begin

text \<open>
  Whole streams of envelopes: what later calls of \<open>accept\<close> keep of earlier ones, which totals,
  assignments and bytes the acknowledged envelopes leave in the builder, and that an in-order stream is accepted as long as SHA-256 does not collide on the inputs of the stream.
\<close>

section \<open>Feeding a stream\<close>

fun accept_all :: "(bytes \<Rightarrow> bytes) \<Rightarrow> policy \<Rightarrow> LedgerBuilder \<Rightarrow> RawEnvelopeV1 list \<Rightarrow>
    (LedgerBuildError, SinkAck) result list \<times> LedgerBuilder" where
  "accept_all sha256 policy b [] = ([], b)"
| "accept_all sha256 policy b (envelope # rest) =
     (case accept sha256 policy b envelope of (res, b') \<Rightarrow>
      case accept_all sha256 policy b' rest of (ress, b'') \<Rightarrow> (res # ress, b''))"

lemma accept_all_append:
  "accept_all sha256 policy b (es @ fs) =
     (case accept_all sha256 policy b es of (rs, b') \<Rightarrow>
      case accept_all sha256 policy b' fs of (qs, b'') \<Rightarrow> (rs @ qs, b''))"
  by (induction es arbitrary: b) (auto split: prod.splits)

lemma accept_all_length: "accept_all sha256 policy b es = (rs, b') \<Longrightarrow> length rs = length es"
  by (induction es arbitrary: b rs) (auto split: prod.splits)

lemma accept_all_reachable:
  "reachable sha256 policy b \<Longrightarrow> accept_all sha256 policy b es = (rs, b') \<Longrightarrow> reachable sha256 policy b'"
proof (induction es arbitrary: b rs)
  case (Cons envelope es)
  then show ?case
    using reachable_accept [OF Cons.prems(1), of envelope] by (auto split: prod.splits)
qed simp

text \<open>Accepted events are never changed or moved.\<close>

lemma accept_prefix:
  assumes "accept sha256 policy b envelope = (res, b')"
  shows "\<exists>new. lb_events b' = lb_events b @ new"
  using assms by (cases rule: accept_cases) auto

lemma accept_all_prefix: "accept_all sha256 policy b es = (rs, b') \<Longrightarrow> \<exists>new. lb_events b' = lb_events b @ new"
proof (induction es arbitrary: b rs)
  case (Cons envelope es)
  obtain res b1 where step: "accept sha256 policy b envelope = (res, b1)" by (cases "accept sha256 policy b envelope")
  obtain ress where rest: "accept_all sha256 policy b1 es = (ress, b')"
    using Cons.prems step by (auto split: prod.splits)
  from accept_prefix [OF step] Cons.IH [OF rest] show ?case by auto
qed simp

lemma accept_identity:
  assumes "accept sha256 policy b envelope = (res, b')"
  shows "lb_identity b' = lb_identity b" "lb_source_identity_digest b' = lb_source_identity_digest b"
    "lb_analysis_projection_v3 b' = lb_analysis_projection_v3 b"
  using assms by (cases rule: accept_cases; simp)+

lemma accept_all_identity: "accept_all sha256 policy b es = (rs, b') \<Longrightarrow> lb_identity b' = lb_identity b"
proof (induction es arbitrary: b rs)
  case (Cons envelope es)
  then show ?case by (auto split: prod.splits dest!: accept_identity(1))
qed simp

text \<open>A successful \<open>accept\<close> appends exactly the event its acknowledgement names.\<close>

lemma accept_persists:
  assumes "accept sha256 policy b envelope = (Inr ack, b')" and "sa_outcome ack = Persisted eid basis"
  obtains rec receipt where "retained envelope (policy envelope) = Some (rec, basis, receipt)"
    and "lb_events b' = lb_events b @ [derived_event sha256 b envelope rec basis]"
    and "eid = ev_id (derived_event sha256 b envelope rec basis)"
  using assms(1)
proof (cases rule: accept_cases)
  case (accepted p)
  then have outcome: "ap_outcome p = Persisted eid basis" using assms(2) by simp
  have event: "lb_events b' = lb_events b @ (case ap_event p of None \<Rightarrow> [] | Some e \<Rightarrow> [e])"
    using accepted(3) by simp
  show thesis
  proof (cases "retained envelope (policy envelope)")
    case None
    then show thesis using plan_event [OF accepted(1)] outcome by auto
  next
    case (Some q)
    then show thesis
      using plan_event [OF accepted(1)] outcome event that by (cases q) (auto simp: Let_def)
  qed
qed simp_all

text \<open>From an accepted record through any further calls and the seal back to its bytes.\<close>

lemma persisted_bytes:
  assumes "reachable sha256 policy b" and accept: "accept sha256 policy b envelope = (Inr ack, b1)"
    and outcome: "sa_outcome ack = Persisted eid basis"
    and rest: "accept_all sha256 policy b1 es = (rs, b2)" and seal: "seal sha256 b2 completion = Inr l"
  obtains rec receipt e where "retained envelope (policy envelope) = Some (rec, basis, receipt)"
    and "event l eid = Inr e" and "ev_raw e = record_exact_bytes rec" and "ev_id e = eid"
proof -
  obtain rec receipt where kept: "retained envelope (policy envelope) = Some (rec, basis, receipt)"
      "lb_events b1 = lb_events b @ [derived_event sha256 b envelope rec basis]"
      "eid = ev_id (derived_event sha256 b envelope rec basis)"
    using accept_persists [OF accept outcome] .
  have "reachable sha256 policy b1" using reachable_accept [OF assms(1), of envelope] accept by simp
  then have ok: "builder_ok sha256 b2"
    using accept_all_reachable [OF _ rest] reachable_builder_ok by blast
  have "derived_event sha256 b envelope rec basis \<in> set (lb_events b2)"
    using accept_all_prefix [OF rest] kept(2) by auto
  moreover have "el_events l = lb_events b2" using seal by (simp add: seal_Inr [OF ok])
  ultimately have "event l eid = Inr (derived_event sha256 b envelope rec basis)"
    using event_member [OF seal_ledger_ok [OF ok seal]] kept(3) by simp
  then show thesis using that kept by simp
qed

section \<open>What a stream leaves behind\<close>

text \<open>The envelopes of a stream that were acknowledged, each with its acknowledgement.\<close>

fun accepted_of :: "RawEnvelopeV1 list \<Rightarrow> (LedgerBuildError, SinkAck) result list \<Rightarrow> (RawEnvelopeV1 \<times> SinkAck) list" where
  "accepted_of (envelope # es) (Inr ack # rs) = (envelope, ack) # accepted_of es rs"
| "accepted_of (envelope # es) (Inl err # rs) = accepted_of es rs"
| "accepted_of [] rs = []"
| "accepted_of (envelope # es) [] = []"

definition retained_bytes :: "policy \<Rightarrow> RawEnvelopeV1 \<Rightarrow> bytes list" where
  "retained_bytes policy envelope =
     (case retained envelope (policy envelope) of None \<Rightarrow> [] | Some (rec, basis, receipt) \<Rightarrow> [record_exact_bytes rec])"

text \<open>The totals, the fragment flag, the assignments and the stored bytes that the acknowledged envelopes account for.\<close>

definition stream_totals :: "(bytes \<Rightarrow> bytes) \<Rightarrow> policy \<Rightarrow> LedgerBuilder \<Rightarrow> (RawEnvelopeV1 \<times> SinkAck) list \<Rightarrow> LedgerBuilder \<Rightarrow> bool" where
  "stream_totals sha256 policy b acks b' \<longleftrightarrow>
     acknowledged_records b' = acknowledged_records b + length acks
     \<and> acknowledged_payload_bytes b' = acknowledged_payload_bytes b + (\<Sum>(e, _)\<leftarrow>acks. payload_len (env_record e))
     \<and> acknowledged_source_bytes b' = acknowledged_source_bytes b + (\<Sum>(e, _)\<leftarrow>acks. source_len (env_record e))
     \<and> (saw_fragment b' \<longleftrightarrow> saw_fragment b \<or> (\<exists>(e, _) \<in> set acks. \<not> record_is_complete (env_state e)))
     \<and> acquisition_assignments b' = acquisition_assignments b @ map (\<lambda>(e, ack). (source_record_id sha256 e, sa_outcome ack)) acks
     \<and> map ev_raw (lb_events b') = map ev_raw (lb_events b) @ concat (map (\<lambda>(e, _). retained_bytes policy e) acks)"

lemma accept_totals:
  assumes "accept sha256 policy b envelope = (res, b')"
  shows "stream_totals sha256 policy b (case res of Inr ack \<Rightarrow> [(envelope, ack)] | Inl _ \<Rightarrow> []) b'"
  using assms
proof (cases rule: accept_cases)
  case (accepted p)
  have "map ev_raw (case ap_event p of None \<Rightarrow> [] | Some e \<Rightarrow> [e]) = retained_bytes policy envelope"
    using plan_event [OF accepted(1)]
    by (auto simp: retained_bytes_def derived_event_def authorized_event_def Let_def split: option.splits)
  then show ?thesis using accepted by (simp add: stream_totals_def plan_ok_def)
qed (simp_all add: stream_totals_def)

lemma stream_totals_append:
  "stream_totals sha256 policy b xs b' \<Longrightarrow> stream_totals sha256 policy b' ys b'' \<Longrightarrow> stream_totals sha256 policy b (xs @ ys) b''"
  by (simp add: stream_totals_def bex_Un)

lemma accept_all_totals:
  "accept_all sha256 policy b es = (rs, b') \<Longrightarrow> stream_totals sha256 policy b (accepted_of es rs) b'"
proof (induction es arbitrary: b rs)
  case Nil
  then show ?case by (simp add: stream_totals_def)
next
  case (Cons envelope es)
  obtain res b1 where step: "accept sha256 policy b envelope = (res, b1)" by (cases "accept sha256 policy b envelope")
  obtain ress where rest: "accept_all sha256 policy b1 es = (ress, b')" and rs: "rs = res # ress"
    using Cons.prems step by (auto split: prod.splits)
  have "accepted_of (envelope # es) rs = (case res of Inr ack \<Rightarrow> [(envelope, ack)] | Inl _ \<Rightarrow> []) @ accepted_of es ress"
    by (simp add: rs split: sum.split)
  then show ?case using stream_totals_append [OF accept_totals [OF step] Cons.IH [OF rest]] by simp
qed

lemma accepted_of_all: "length acks = length es \<Longrightarrow> accepted_of es (map Inr acks) = zip es acks"
  by (induction es acks rule: list_induct2') simp_all

section \<open>Distinct positions have distinct hash inputs\<close>

definition source_record_prefix :: "RawEnvelopeIdentityV1 \<Rightarrow> bytes list" where
  "source_record_prefix ident = [''evidentrail/source-record/v1'', u16_le_bytes RawEnvelopeV1_CONTRACT_VERSION,
     env_retrieval_id ident, env_plan_id ident, env_plan_digest ident, adapter_kind (env_adapter ident),
     adapter_version (env_adapter ident), env_source_identity_digest ident]"

lemma hash_stream_append: "hash_stream h s = h @ hash_stream [] s"
  by (cases s) (simp_all add: update_field_def)

lemma hash_tail_append:
  "hash_record_state (update_optional_field (update_optional_field h native) cursor) state =
     h @ update_optional_field [] native @ update_optional_field [] cursor @ hash_record_state [] state"
  by (cases native; cases cursor; cases state) (simp_all add: update_field_def)

lemma source_record_hasher_shape:
  obtains rest where "source_record_hasher envelope = Hash.fields (source_record_prefix (env_identity envelope))
    @ u64_le_bytes 8 @ u64_le_bytes (acquisition_sequence (env_ordering envelope)) @ rest"
proof
  let ?ord = "env_ordering envelope"
  show "source_record_hasher envelope = Hash.fields (source_record_prefix (env_identity envelope))
    @ u64_le_bytes 8 @ u64_le_bytes (acquisition_sequence ?ord)
    @ (Hash.fields [fst (ord_lane ?ord)] @ hash_stream [] (snd (ord_lane ?ord)) @ Hash.fields [u64_le_bytes (lane_sequence ?ord)]
       @ update_optional_field [] (env_native_event_id envelope) @ update_optional_field [] (env_cursor envelope)
       @ hash_record_state [] (env_state envelope))"
    unfolding source_record_hasher_def Let_def
    by (subst hash_tail_append, subst hash_stream_append)
      (simp add: source_record_prefix_def domain_hasher_def update_field_fields)
qed

lemma source_record_hasher_sequence:
  assumes "source_record_hasher e = source_record_hasher e'" and "env_identity e = env_identity e'"
    and "acquisition_sequence (env_ordering e) \<le> u64_max" "acquisition_sequence (env_ordering e') \<le> u64_max"
  shows "acquisition_sequence (env_ordering e) = acquisition_sequence (env_ordering e')"
proof -
  obtain x where x: "source_record_hasher e = Hash.fields (source_record_prefix (env_identity e))
    @ u64_le_bytes 8 @ u64_le_bytes (acquisition_sequence (env_ordering e)) @ x" by (rule source_record_hasher_shape)
  obtain y where y: "source_record_hasher e' = Hash.fields (source_record_prefix (env_identity e'))
    @ u64_le_bytes 8 @ u64_le_bytes (acquisition_sequence (env_ordering e')) @ y" by (rule source_record_hasher_shape)
  have "u64_le_bytes (acquisition_sequence (env_ordering e)) @ x = u64_le_bytes (acquisition_sequence (env_ordering e')) @ y"
    using assms(1,2) x y by simp
  then have "u64_le_bytes (acquisition_sequence (env_ordering e)) = u64_le_bytes (acquisition_sequence (env_ordering e'))"
    by (simp add: append_eq_append_conv)
  then show ?thesis using assms(3,4) by (rule u64_le_bytes_inj)
qed

section \<open>In-order streams are accepted\<close>

definition builder_identity :: "FetchIdentity \<Rightarrow> SourceIdentityDigest \<Rightarrow> RawEnvelopeIdentityV1" where
  "builder_identity ident digest = \<lparr>env_retrieval_id = fetch_retrieval_id ident, env_plan_id = fetch_plan_id ident,
     env_plan_digest = fetch_plan_digest ident, env_adapter = fetch_adapter ident,
     env_source_identity_digest = digest\<rparr>"

definition lane_count :: "RawEnvelopeV1 list \<Rightarrow> LaneKey \<Rightarrow> nat" where
  "lane_count es lane = length (filter (\<lambda>e. ord_lane (env_ordering e) = lane) es)"

definition in_order :: "FetchIdentity \<Rightarrow> SourceIdentityDigest \<Rightarrow> RawEnvelopeV1 list \<Rightarrow> bool" where
  "in_order ident digest es \<longleftrightarrow> (\<forall>i < length es.
     env_identity (es ! i) = builder_identity ident digest
     \<and> acquisition_sequence (env_ordering (es ! i)) = i
     \<and> lane_sequence (env_ordering (es ! i)) = lane_count (take i es) (ord_lane (env_ordering (es ! i))))"

definition stream_source_bytes :: "RawEnvelopeV1 list \<Rightarrow> nat" where
  "stream_source_bytes es = (\<Sum>e\<leftarrow>es. length (record_exact_bytes (env_record e)))"

definition exact_event_input :: "(bytes \<Rightarrow> bytes) \<Rightarrow> RetrievalId \<Rightarrow> RawEnvelopeV1 \<Rightarrow> bytes" where
  "exact_event_input sha256 retrieval e = event_hasher retrieval (source_record_id sha256 e)
     (authorized_content_hash sha256 (record_exact_bytes (env_record e))) SourceExact (env_provider_attestations e)"

definition exact_policy :: "policy \<Rightarrow> bool" where
  "exact_policy policy \<longleftrightarrow> (\<forall>e. case policy e of AuthorizeSourceExact \<Rightarrow> True | AuthorizeOmittedByPolicy _ \<Rightarrow> True | _ \<Rightarrow> False)"

text \<open>SHA-256 returns 32 bytes and does not collide on the inputs this stream gives it.\<close>

definition collision_free :: "(bytes \<Rightarrow> bytes) \<Rightarrow> RetrievalId \<Rightarrow> RawEnvelopeV1 list \<Rightarrow> bool" where
  "collision_free sha256 retrieval es \<longleftrightarrow> (\<forall>x. length (sha256 x) = 32)
     \<and> inj_on sha256 (set (map source_record_hasher es @ map (exact_event_input sha256 retrieval) es))"

text \<open>The builder after a prefix of the stream.\<close>

definition stream_state ::
  "(bytes \<Rightarrow> bytes) \<Rightarrow> FetchIdentity \<Rightarrow> SourceIdentityDigest \<Rightarrow> RawEnvelopeV1 list \<Rightarrow> LedgerBuilder \<Rightarrow> bool" where
  "stream_state sha256 ident digest es b \<longleftrightarrow>
     lb_identity b = ident \<and> lb_source_identity_digest b = digest \<and> \<not> lb_analysis_projection_v3 b
     \<and> next_acquisition_sequence b = length es \<and> acknowledged_records b = length es
     \<and> (\<forall>lane. (case map_of (next_lane_sequences b) lane of None \<Rightarrow> 0 | Some n \<Rightarrow> n) = lane_count es lane)
     \<and> acknowledged_payload_bytes b \<le> acknowledged_source_bytes b
     \<and> acknowledged_source_bytes b = stream_source_bytes es
     \<and> source_record_ids b = source_record_id sha256 ` set es
     \<and> length (lb_events b) \<le> length es
     \<and> dom (map_of (lb_positions b)) \<subseteq> (\<lambda>e. sha256 (exact_event_input sha256 (fetch_retrieval_id ident) e)) ` set es"

lemma accept_plan_complete:
  assumes "validate_identity b e = Inr ()" and "\<not> lb_analysis_projection_v3 b"
    and "acquisition_sequence (env_ordering e) = next_acquisition_sequence b" "next_acquisition_sequence b + 1 \<le> u64_max"
    and "(case map_of (next_lane_sequences b) (ord_lane (env_ordering e)) of None \<Rightarrow> 0 | Some n \<Rightarrow> n)
      = lane_sequence (env_ordering e)" "lane_sequence (env_ordering e) + 1 \<le> u64_max"
    and "acknowledged_records b + 1 \<le> u64_max"
    and "acknowledged_payload_bytes b + payload_len (env_record e) \<le> u64_max"
    and "acknowledged_source_bytes b + source_len (env_record e) \<le> u64_max"
    and "source_record_id sha256 e \<notin> source_record_ids b"
    and "authorize sha256 b e (source_record_id sha256 e) (policy e) = Inr (oc, n, ev, r)"
  shows "accept_plan sha256 policy b e = Inr \<lparr>ap_next_acquisition = next_acquisition_sequence b + 1,
      ap_next_lane = lane_sequence (env_ordering e) + 1, ap_records = acknowledged_records b + 1,
      ap_payload_bytes = acknowledged_payload_bytes b + payload_len (env_record e),
      ap_source_bytes = acknowledged_source_bytes b + source_len (env_record e),
      ap_source_record_id = source_record_id sha256 e, ap_outcome = oc, ap_authorized_byte_count = n,
      ap_event = ev, ap_receipt = r\<rparr>"
proof -
  have "payload_len (env_record e) \<le> u64_max" "source_len (env_record e) \<le> u64_max"
    using assms(8,9) by linarith+
  then show ?thesis
    using assms by (simp add: accept_plan_def expected_source_record_id_def checked_add_u64_fits u64_try_from_def Let_def)
qed

lemma source_record_id_fresh:
  assumes "in_order ident digest (es @ [e])" and "collision_free sha256 retrieval (es @ [e])" and "length es < u64_max"
  shows "source_record_id sha256 e \<notin> source_record_id sha256 ` set es"
proof
  assume "source_record_id sha256 e \<in> source_record_id sha256 ` set es"
  then obtain i where i: "i < length es" "sha256 (source_record_hasher e) = sha256 (source_record_hasher (es ! i))"
    by (auto simp: source_record_id_def in_set_conv_nth)
  have "inj_on sha256 (set (map source_record_hasher (es @ [e])))"
    using assms(2) unfolding collision_free_def by (auto intro: inj_on_subset)
  then have same: "source_record_hasher e = source_record_hasher (es ! i)"
    using i by (auto simp: inj_on_def)
  have pos: "env_identity e = builder_identity ident digest" "acquisition_sequence (env_ordering e) = length es"
    using assms(1) by (auto simp: in_order_def dest: spec [of _ "length es"])
  have pos_i: "env_identity (es ! i) = builder_identity ident digest" "acquisition_sequence (env_ordering (es ! i)) = i"
    using assms(1) i(1) by (auto simp: in_order_def nth_append dest!: spec [of _ i])
  have "acquisition_sequence (env_ordering e) = acquisition_sequence (env_ordering (es ! i))"
    using pos pos_i assms(3) i(1) by (intro source_record_hasher_sequence [OF same]) simp_all
  then show False using pos pos_i i(1) by simp
qed

definition stream_bounded :: "FetchIdentity \<Rightarrow> RawEnvelopeV1 list \<Rightarrow> bool" where
  "stream_bounded ident es \<longleftrightarrow> length es < u64_max \<and> stream_source_bytes es \<le> u64_max
     \<and> length (fetch_retrieval_id ident) \<le> u64_max \<and> (\<forall>e \<in> set es. attestations_fit (env_provider_attestations e))"

lemma event_id_fresh:
  assumes order: "in_order ident digest (es @ [e])"
    and free: "collision_free sha256 (fetch_retrieval_id ident) (es @ [e])" and bounded: "stream_bounded ident (es @ [e])"
  shows "sha256 (exact_event_input sha256 (fetch_retrieval_id ident) e)
    \<notin> (\<lambda>e. sha256 (exact_event_input sha256 (fetch_retrieval_id ident) e)) ` set es"
proof
  let ?input = "exact_event_input sha256 (fetch_retrieval_id ident)"
  assume "sha256 (?input e) \<in> (\<lambda>e. sha256 (?input e)) ` set es"
  then obtain x where x: "x \<in> set es" "sha256 (?input e) = sha256 (?input x)" by auto
  have "inj_on sha256 (set (map ?input (es @ [e])))"
    using free unfolding collision_free_def by (auto intro: inj_on_subset)
  then have same: "?input e = ?input x" using x by (auto simp: inj_on_def)
  have len: "length (sha256 y) \<le> u64_max" for y using free by (simp add: collision_free_def)
  have "source_record_id sha256 e = source_record_id sha256 x"
    using event_hasher_inj [OF same [unfolded exact_event_input_def]] bounded len x(1)
    by (simp add: basis_fits_def stream_bounded_def source_record_id_def authorized_content_hash_def)
  then show False
    using source_record_id_fresh [OF order free] bounded x(1) by (auto simp: stream_bounded_def)
qed

lemma stream_state_new: "stream_state sha256 ident digest [] (LedgerBuilder_new ident digest)"
  by (simp add: stream_state_def LedgerBuilder_new_def lane_count_def stream_source_bytes_def)

lemma in_order_lane_bound:
  "in_order ident digest (es @ [e]) \<Longrightarrow> lane_sequence (env_ordering e) \<le> length es"
  by (auto simp: in_order_def lane_count_def dest!: spec [of _ "length es"])

text \<open>What the policy decides for the next envelope of the stream.\<close>

lemma stream_authorize:
  assumes state: "stream_state sha256 ident digest es b" and policy: "exact_policy policy"
    and fresh: "sha256 (exact_event_input sha256 (fetch_retrieval_id ident) e)
      \<notin> (\<lambda>e. sha256 (exact_event_input sha256 (fetch_retrieval_id ident) e)) ` set es"
    and len: "length es \<le> u64_max" "length (record_exact_bytes (env_record e)) \<le> u64_max"
  obtains oc n ev where "authorize sha256 b e (source_record_id sha256 e) (policy e) = Inr (oc, n, ev, None)"
    and "\<forall>x. ev = Some x \<longrightarrow> ev_id x = sha256 (exact_event_input sha256 (fetch_retrieval_id ident) e)"
proof (cases "policy e")
  case AuthorizeSourceExact
  let ?ev = "derived_event sha256 b e (env_record e) SourceExact"
  have ident: "lb_identity b = ident" using state by (simp add: stream_state_def)
  have evid: "ev_id ?ev = sha256 (exact_event_input sha256 (fetch_retrieval_id ident) e)"
    by (simp add: derived_event_def authorized_event_def event_id_def exact_event_input_def ident)
  have "map_of (lb_positions b) (ev_id ?ev) = None"
    using fresh state by (auto simp: stream_state_def evid)
  then have "persist_authorized sha256 b e (env_record e) SourceExact (source_record_id sha256 e)
      = Inr (Persisted (ev_id ?ev) SourceExact, length (record_exact_bytes (env_record e)), ?ev)"
    using state len by (simp add: persist_authorized_Inr stream_state_def)
  then show thesis using AuthorizeSourceExact evid by (intro that) (auto simp: authorize_retained)
next
  case (AuthorizeOmittedByPolicy d)
  then show thesis by (intro that [of _ _ None]) (auto simp: authorize_retained)
qed (use policy in \<open>auto simp: exact_policy_def dest!: spec [of _ e]\<close>)

lemma stream_step:
  assumes state: "stream_state sha256 ident digest es b" and policy: "exact_policy policy"
    and order: "in_order ident digest (es @ [e])"
    and free: "collision_free sha256 (fetch_retrieval_id ident) (es @ [e])"
    and bounded: "stream_bounded ident (es @ [e])"
  obtains ack b' where "accept sha256 policy b e = (Inr ack, b')" and "stream_state sha256 ident digest (es @ [e]) b'"
proof -
  have len: "length es \<le> u64_max" "length es + 1 \<le> u64_max" and bytes: "stream_source_bytes es + length (record_exact_bytes (env_record e)) \<le> u64_max"
    using bounded by (simp_all add: stream_bounded_def stream_source_bytes_def)
  have src: "source_len (env_record e) = length (record_exact_bytes (env_record e))"
    using bytes by (intro source_len_exact) linarith
  have payload: "payload_len (env_record e) \<le> length (record_exact_bytes (env_record e))"
    by (simp add: record_exact_bytes_length)
  have here: "env_identity e = builder_identity ident digest" "acquisition_sequence (env_ordering e) = length es"
    "lane_sequence (env_ordering e) = lane_count es (ord_lane (env_ordering e))"
    using order by (auto simp: in_order_def dest!: spec [of _ "length es"])
  note st = state [unfolded stream_state_def]
  have lanes: "(case map_of (next_lane_sequences b) lane of None \<Rightarrow> 0 | Some n \<Rightarrow> n) = lane_count es lane" for lane
    using st by blast
  obtain oc n ev where auth: "authorize sha256 b e (source_record_id sha256 e) (policy e) = Inr (oc, n, ev, None)"
    and ev: "\<forall>x. ev = Some x \<longrightarrow> ev_id x = sha256 (exact_event_input sha256 (fetch_retrieval_id ident) e)"
    using stream_authorize [OF state policy event_id_fresh [OF order free bounded] len(1)] bytes by auto
  have plan: "accept_plan sha256 policy b e = Inr \<lparr>ap_next_acquisition = next_acquisition_sequence b + 1,
      ap_next_lane = lane_sequence (env_ordering e) + 1, ap_records = acknowledged_records b + 1,
      ap_payload_bytes = acknowledged_payload_bytes b + payload_len (env_record e),
      ap_source_bytes = acknowledged_source_bytes b + source_len (env_record e),
      ap_source_record_id = source_record_id sha256 e, ap_outcome = oc, ap_authorized_byte_count = n,
      ap_event = ev, ap_receipt = None\<rparr>" (is "_ = Inr ?p")
  proof (rule accept_plan_complete)
    show "validate_identity b e = Inr ()"
      using st here(1) by (simp add: validate_identity_def builder_identity_def)
    show "source_record_id sha256 e \<notin> source_record_ids b"
      using st source_record_id_fresh [OF order free] len by simp
  qed (use st lanes here len bytes src payload auth in_order_lane_bound [OF order] in simp_all)
  have "stream_state sha256 ident digest (es @ [e]) (commit_plan e ?p (insert_receipt None b))"
    using st here src payload ev
    by (auto simp: stream_state_def lane_count_def stream_source_bytes_def insert_receipt_def split: option.splits)
  then show thesis
    using plan by (intro that) (auto simp: accept_def receipt_collides_def)
qed

lemma in_order_prefix:
  assumes "in_order ident digest (es @ [e])"
  shows "in_order ident digest es"
  unfolding in_order_def
proof (intro allI impI)
  fix i
  assume "i < length es"
  with assms [unfolded in_order_def, rule_format, of i]
  show "env_identity (es ! i) = builder_identity ident digest
      \<and> acquisition_sequence (env_ordering (es ! i)) = i
      \<and> lane_sequence (env_ordering (es ! i)) = lane_count (take i es) (ord_lane (env_ordering (es ! i)))"
    by (simp add: nth_append)
qed

lemma collision_free_prefix: "collision_free sha256 retrieval (es @ [e]) \<Longrightarrow> collision_free sha256 retrieval es"
  unfolding collision_free_def by (auto intro: inj_on_subset)

lemma stream_bounded_prefix: "stream_bounded ident (es @ [e]) \<Longrightarrow> stream_bounded ident es"
  by (auto simp: stream_bounded_def stream_source_bytes_def)

lemma stream_accepted:
  assumes "exact_policy policy" and "in_order ident digest es"
    and "collision_free sha256 (fetch_retrieval_id ident) es" and "stream_bounded ident es"
  shows "\<exists>acks b. accept_all sha256 policy (LedgerBuilder_new ident digest) es = (map Inr acks, b)
    \<and> stream_state sha256 ident digest es b"
  using assms(2-4)
proof (induction es rule: rev_induct)
  case Nil
  then show ?case by (simp add: stream_state_new)
next
  case (snoc e es)
  from snoc.IH snoc.prems obtain acks b where
    prefix: "accept_all sha256 policy (LedgerBuilder_new ident digest) es = (map Inr acks, b)"
    and state: "stream_state sha256 ident digest es b"
    by (auto dest: in_order_prefix collision_free_prefix stream_bounded_prefix)
  obtain ack b' where "accept sha256 policy b e = (Inr ack, b')" "stream_state sha256 ident digest (es @ [e]) b'"
    using stream_step [OF state assms(1) snoc.prems] .
  then show ?case
    using prefix by (intro exI [of _ "acks @ [ack]"] exI [of _ b']) (simp add: accept_all_append)
qed

end
