(* ===== verification/Ledger_Properties.thy ===== *)
theory Ledger_Properties
  imports Ledger_Stream
begin

text \<open>The properties of the ledger, each with a run on concrete envelopes.\<close>

section \<open>Shared facts\<close>

definition window_of :: "nat \<Rightarrow> nat \<Rightarrow> nat \<Rightarrow> 'a list \<Rightarrow> 'a list \<Rightarrow> nat \<Rightarrow> bool" where
  "window_of i before after xs w k \<longleftrightarrow> k < length w \<and> k = min i before
     \<and> (\<exists>pre post. xs = pre @ w @ post \<and> length pre + k = i
          \<and> (post = [] \<or> length w = k + after + 1) \<and> length w \<le> k + after + 1)"

lemma window_ofI:
  assumes "i < length xs"
  shows "window_of i before after xs (take (min (i + after + 1) (length xs) - (i - before)) (drop (i - before) xs)) (i - (i - before))"
proof -
  let ?b = "i - before" and ?e = "min (i + after + 1) (length xs)"
  have "?b \<le> ?e" using assms by (simp add: le_diff_conv)
  then have "drop ?e xs = drop (?e - ?b) (drop ?b xs)" by (metis drop_drop le_add_diff_inverse2)
  then have "xs = take ?b xs @ take (?e - ?b) (drop ?b xs) @ drop ?e xs" by (simp only: append_take_drop_id)
  moreover have "length (take ?b xs) + (i - ?b) = i" using assms by simp
  moreover have "drop ?e xs = [] \<or> length (take (?e - ?b) (drop ?b xs)) = i - ?b + after + 1"
    by (auto simp: min_def)
  ultimately show ?thesis
    using assms unfolding window_of_def by (intro conjI exI) auto
qed

lemma window_of_nth:
  assumes "window_of i before after xs w k"
  shows "w ! k = xs ! i"
proof -
  obtain pre post where "xs = pre @ w @ post" "length pre + k = i" "k < length w"
    using assms by (auto simp: window_of_def)
  then show ?thesis by (auto simp: nth_append)
qed

lemma rfold_Inr_step: "rfold f s xs = Inr s' \<Longrightarrow> x \<in> set xs \<Longrightarrow> \<exists>t t'. f t x = Inr t'"
  by (induction xs arbitrary: s) (auto simp: result_simps)

lemma sealed_events:
  assumes "reachable sha256 policy b" and "seal sha256 b completion = Inr l"
  shows "ledger_ok l" and "el_events l = lb_events b"
proof -
  have ok: "builder_ok sha256 b" using assms(1) by (rule reachable_builder_ok)
  then show "ledger_ok l" using assms(2) by (rule seal_ledger_ok)
  show "el_events l = lb_events b" using assms(2) by (simp add: seal_Inr [OF ok])
qed

lemma accept_plan_no_collision: "accept_plan sha256 policy b envelope \<noteq> Inl TransformationReceiptCollision"
proof -
  have "validate_identity b envelope \<noteq> Inl TransformationReceiptCollision"
    by (simp add: validate_identity_def Let_def)
  moreover have "persist_authorized sha256 b envelope rec basis source \<noteq> Inl TransformationReceiptCollision" for rec basis source
    by (simp add: persist_authorized_def ok_or_def Let_def split: option.split)
  then have "authorize sha256 b envelope source auth \<noteq> Inl TransformationReceiptCollision" for source auth
    by (auto simp: authorize_retained result_simps split: option.split prod.split)
  ultimately show ?thesis
    by (auto simp: accept_plan_def result_simps Let_def)
qed

lemma collision_breaks_export:
  assumes clean: "clean sha256 policy b" and verified: "verified_policy sha256 policy"
    and collision: "accept sha256 policy b envelope = (Inl TransformationReceiptCollision, b')"
    and seal: "seal sha256 b' completion = Inr l"
  shows "\<exists>err. validate_sealed_ledger sha256 l = Inl err"
  using collision
proof (cases rule: accept_cases)
  case (collision p)
  have ok: "builder_ok sha256 b" and receipts: "receipts_ok b"
    using clean verified by (blast intro: clean_reachable reachable_builder_ok clean_receipts_ok)+
  obtain rec basis t where q: "retained envelope (policy envelope) = Some (rec, basis, Some t)"
    and r: "ap_receipt p = Some (receipt_bind t (ev_id (derived_event sha256 b envelope rec basis)))"
    and new: "map_of (lb_positions b) (ev_id (derived_event sha256 b envelope rec basis)) = None"
    using plan_event [OF collision(1)] collision(2)
    by (cases "retained envelope (policy envelope)") (auto simp: receipt_collides_def Let_def map_option_case split: option.splits)
  let ?new = "ev_id (derived_event sha256 b envelope rec basis)"
  have "tr_id t \<in> dom (map_of (lb_transformation_receipts b))"
    using collision(2) r by (auto simp: receipt_collides_def receipt_bind_def)
  then have "tr_id t \<in> set (List.map_filter receipt_ref (lb_events b))"
    using receipts unfolding receipts_ok_def by blast
  then obtain e where e: "e \<in> set (lb_events b)" "receipt_ref e = Some (tr_id t)"
    by (auto simp: List.map_filter_def)
  then obtain d where basis: "ev_exactness_basis e = PostPolicy d (tr_id t)"
    by (auto simp: receipt_ref_def split: ExactnessBasis.splits)
  have "event_entry e \<in> set (persisted_entries (acquisition_assignments b))"
    using ok e(1) by (simp add: builder_ok_def identities_ok_def)
  then have entry: "(ev_source_record_id e, Persisted (ev_id e) (PostPolicy d (tr_id t))) \<in> set (acquisition_assignments b)"
    by (simp add: event_entry_def basis persisted_entries_def)
  have ok': "builder_ok sha256 b'" using collision(4) ok by simp
  have "el_acquisition_receipt l = sealed_receipt b'" "el_transformation_receipts l = lb_transformation_receipts b'"
    using seal by (simp_all add: seal_Inr [OF ok'])
  then have l: "receipt_entries (el_acquisition_receipt l) = acquisition_assignments b"
      "map_of (el_transformation_receipts l) (tr_id t) = Some (receipt_bind t ?new)"
    using collision(4) r by (simp_all add: sealed_receipt_def) (simp add: insert_receipt_def receipt_bind_def)
  have other: "?new \<noteq> ev_id e"
    using new e(1) builder_index.pos_None [OF ok] by auto
  show ?thesis
  proof (cases "validate_sealed_ledger sha256 l")
    case (Inr u)
    then obtain seen res where "rfold (validate_entry_step l) (seen, {}) (acquisition_assignments b) = Inr res"
      by (auto simp: validate_sealed_ledger_def result_simps l split: if_splits prod.splits)
    from rfold_Inr_step [OF this entry] show ?thesis
      using l(2) other
      by (auto simp: validate_entry_step_def result_simps Let_def receipt_matches_event_def receipt_bind_def
          split: if_splits prod.splits)
  qed blast
qed (use accept_plan_no_collision in auto)

section \<open>Sample stream\<close>

text \<open>
  Concrete values for the parameters: a digest of 32 bytes that separates the hash inputs of the
  sample, a policy that redacts one password line and keeps every other line, and two envelopes of
  different lanes.
\<close>

definition sample_sha256 :: "bytes \<Rightarrow> bytes" where
  "sample_sha256 x = le_bytes 32 (length x)"

definition sample_identity :: FetchIdentity where
  "sample_identity = \<lparr>fetch_retrieval_id = ''r'', fetch_plan_id = ''p'', fetch_plan_digest = ''d'',
     fetch_adapter = \<lparr>adapter_kind = ''file'', adapter_version = ''1''\<rparr>\<rparr>"

definition sample_attestation :: ProviderAttestedCorrelationV1 where
  "sample_attestation = \<lparr>scope_digest = ''s'', relation_kind = TraceIdentity,
     attestation_origin = AdapterNativeField, attestation_value = ''t''\<rparr>"

definition sample_first :: "bytes \<Rightarrow> RawEnvelopeV1" where
  "sample_first payload = RawEnvelopeV1_new (builder_identity sample_identity ''s'')
     \<lparr>acquisition_sequence = 0, ord_lane = (''a'', Stdout), lane_sequence = 0\<rparr>
     (Framed payload [CHR 0x0A]) RecordComplete"

definition sample_second :: "bytes \<Rightarrow> RawEnvelopeV1" where
  "sample_second payload = (RawEnvelopeV1_new (builder_identity sample_identity ''s'')
     \<lparr>acquisition_sequence = 1, ord_lane = (''bb'', Stdout), lane_sequence = 0\<rparr>
     (Framed payload [CHR 0x0A]) RecordComplete)\<lparr>env_provider_attestations := [sample_attestation]\<rparr>"

definition redacted :: RecordBytes where "redacted = Framed ''password=***'' [CHR 0x0A]"

definition redact_policy :: policy where
  "redact_policy envelope =
     (if rec_payload (env_record envelope) = ''password=hunter2'' then
        (case PreparedTransformationReceiptV1_new sample_sha256 ''redact'' (env_record envelope) redacted
            [\<lparr>op_start = 9, op_end = 16, op_replacement = ''***''\<rparr>] of
           Inr receipt \<Rightarrow> AuthorizePostPolicyReceipt redacted receipt
         | Inl _ \<Rightarrow> AuthorizeOmittedByPolicy ''redact'')
      else AuthorizeSourceExact)"

definition sample_new :: LedgerBuilder where "sample_new = LedgerBuilder_new sample_identity ''s''"

definition sample_completion :: "LedgerBuilder \<Rightarrow> FetchCompletion" where
  "sample_completion b = \<lparr>completion_identity = lb_identity b, completion_timing = \<lparr>started_at = 0, ended_at = 1\<rparr>,
     completion_acknowledged = \<lparr>ack_records = acknowledged_records b, ack_payload_bytes = acknowledged_payload_bytes b,
       ack_source_bytes = acknowledged_source_bytes b\<rparr>,
     completion_members = \<lparr>attempted = 1, completed = 1\<rparr>, completion_pages = \<lparr>attempted = 1, completed = 1\<rparr>,
     completion_boundaries = \<lparr>first_cursor = None, final_cursor = None, high_water_marks = []\<rparr>,
     completion_cap_usage = [], completion_adapter_outcome = AdapterFinished, completion_error_codes = [],
     completion_completeness = FetchUnknown FU_AdapterCapabilityLimit\<rparr>"

lemma sample_seals: "builder_ok sha256 b \<Longrightarrow> \<exists>l. seal sha256 b (sample_completion b) = Inr l"
  by (simp add: seal_Inr completion_matches_def sample_completion_def)

lemma verified_redact_policy: "verified_policy sample_sha256 redact_policy"
  by (auto simp: verified_policy_def redact_policy_def split: sum.split)

lemma sample_receipt:
  "\<exists>receipt. PreparedTransformationReceiptV1_new sample_sha256 ''redact'' (Framed ''password=hunter2'' [CHR 0x0A]) redacted
     [\<lparr>op_start = 9, op_end = 16, op_replacement = ''***''\<rparr>] = Inr receipt"
  by (simp add: transformation_new_Inr output_bounded_def redacted_def payload_len_def MAX_TRANSFORMATION_OPERATIONS_def
      MAX_AUTHORIZED_RECORD_BYTES_def MAX_RECORD_TERMINATOR_BYTES_def)

lemmas sample_defs = sample_first_def sample_second_def RawEnvelopeV1_new_def builder_identity_def sample_identity_def
  sample_new_def LedgerBuilder_new_def

lemma sample_first_accepted:
  "\<exists>ack b. accept sha256 (\<lambda>_. AuthorizeSourceExact) sample_new (sample_first ''ok'') = (Inr ack, b)
     \<and> (\<exists>eid. sa_outcome ack = Persisted eid SourceExact)"
  by (simp add: accept_def accept_plan_def validate_identity_def authorize_retained persist_authorized_def
      receipt_collides_def sample_defs checked_add_u64_def u64_try_from_def payload_len_def source_len_def
      saturating_add_u64_def Let_def)

lemma redact_first_accepted:
  "\<exists>ack b. accept sample_sha256 redact_policy sample_new (sample_first ''password=hunter2'') = (Inr ack, b)"
proof -
  obtain receipt where "PreparedTransformationReceiptV1_new sample_sha256 ''redact''
      (Framed ''password=hunter2'' [CHR 0x0A]) redacted [\<lparr>op_start = 9, op_end = 16, op_replacement = ''***''\<rparr>] = Inr receipt"
    using sample_receipt by blast
  then have "redact_policy (sample_first ''password=hunter2'') = AuthorizePostPolicyReceipt redacted receipt"
    by (simp add: redact_policy_def sample_first_def RawEnvelopeV1_new_def)
  then show ?thesis
    by (simp add: accept_def accept_plan_def validate_identity_def authorize_retained persist_authorized_def redacted_def
      receipt_collides_def sample_defs checked_add_u64_def u64_try_from_def payload_len_def source_len_def
      saturating_add_u64_def Let_def)
qed

section \<open>The builder\<close>

text \<open>
  C13.  Every builder that can arise from \<open>LedgerBuilder::new\<close> or \<open>new_analysis_projection_v3\<close> by any
  sequence of \<open>accept\<close> calls, rejected envelopes included, satisfies the builder invariant: source
  records and event ids are unique, the position index is exact, the persisted outcomes are exactly
  the events in order, content hashes and event ids recompute, acquisition and lane sequences
  increase, and the acknowledged totals agree.
\<close>

theorem builder_invariant:
  assumes "reachable sha256 policy b"
  shows "builder_ok sha256 b"
  using assms by (rule reachable_builder_ok)

theorem builder_invariant_witness:
  "builder_ok sample_sha256 (snd (accept sample_sha256 redact_policy sample_new (sample_first ''password=hunter2'')))"
  by (rule builder_invariant [where policy = redact_policy], unfold sample_new_def) (intro reachable.intros)

text \<open>
  C14.  A rejected envelope leaves the builder exactly as it was, unless the error is a
  transformation receipt collision; then only the receipt map can differ.
\<close>

theorem accept_failure_atomic:
  assumes "accept sha256 policy b envelope = (Inl err, b')"
  shows "(err \<noteq> TransformationReceiptCollision \<longrightarrow> b' = b)
    \<and> b'\<lparr>lb_transformation_receipts := lb_transformation_receipts b\<rparr> = b"
  using assms
proof (cases rule: accept_cases)
  case (collision p)
  then show ?thesis by (simp add: insert_receipt_def split: option.split)
qed simp_all

lemma sample_out_of_order:
  "accept sample_sha256 redact_policy sample_new (sample_second ''ok'') = (Inl (UnexpectedAcquisitionSequence 0 1), sample_new)"
  by (simp add: accept_def accept_plan_def validate_identity_def sample_defs Let_def)

theorem accept_failure_atomic_witness:
  "fst (accept sample_sha256 redact_policy sample_new (sample_second ''ok'')) = Inl (UnexpectedAcquisitionSequence 0 1)
   \<and> snd (accept sample_sha256 redact_policy sample_new (sample_second ''ok'')) = sample_new"
  using accept_failure_atomic [OF sample_out_of_order] sample_out_of_order by simp

text \<open>
  C15.  The acknowledgement that \<open>accept\<close> returns passes \<open>verify_sink_ack_binding\<close> for its envelope,
  except when a post-policy record, terminator included, exceeds the authorized record limit.
\<close>

theorem accept_acknowledgement_verifies:
  assumes "accept sha256 policy b envelope = (Inr ack, b')"
  shows "verify_sink_ack_binding sha256 envelope ack = Inr () \<longleftrightarrow>
    (\<forall>eid d r. sa_outcome ack = Persisted eid (PostPolicy d r) \<longrightarrow>
       sa_authorized_byte_count ack \<le> MAX_AUTHORIZED_RECORD_BYTES)"
  using assms
proof (cases rule: accept_cases)
  case (accepted p)
  have ids: "env_retrieval_id (env_identity envelope) = fetch_retrieval_id (lb_identity b)"
      "ap_source_record_id p = source_record_id sha256 envelope"
    using accepted(1) by (auto simp: plan_ok_def validate_identity_def Let_def split: if_splits)
  show ?thesis
  proof (cases "retained envelope (policy envelope)")
    case None
    with plan_event [OF accepted(1)] accepted(4) ids show ?thesis
      by (auto simp: verify_sink_ack_binding_def ack_verify_def from_envelope_def ack_byte_count_is_valid_def
          expected_source_record_id_def)
  next
    case (Some q)
    obtain rec basis receipt where q: "q = (rec, basis, receipt)" by (cases q)
    have exact: "basis = SourceExact \<Longrightarrow> rec = env_record envelope"
      using Some q by (cases "policy envelope") auto
    show ?thesis
      using plan_event [OF accepted(1)] Some q accepted(4) ids exact source_len_exact [of "env_record envelope"]
      by (cases basis) (auto simp: verify_sink_ack_binding_def ack_verify_def from_envelope_def
          ack_byte_count_is_valid_def expected_source_record_id_def Let_def)
  qed
qed simp_all

theorem accept_acknowledgement_verifies_witness:
  "\<exists>ack b. accept sample_sha256 (\<lambda>_. AuthorizeSourceExact) sample_new (sample_first ''ok'') = (Inr ack, b)
     \<and> verify_sink_ack_binding sample_sha256 (sample_first ''ok'') ack = Inr ()"
proof -
  obtain ack b eid where run: "accept sample_sha256 (\<lambda>_. AuthorizeSourceExact) sample_new (sample_first ''ok'') = (Inr ack, b)"
      "sa_outcome ack = Persisted eid SourceExact"
    using sample_first_accepted by blast
  then show ?thesis using accept_acknowledgement_verifies [OF run(1)] by auto
qed

text \<open>
  C16.  Liveness of ingestion under an exact policy.  Assume that the policy keeps each record
  unchanged or omits it (\<open>exact_policy\<close>), that the stream is addressed to the builder and in
  acquisition and lane order, that its lengths and totals fit 64 bits, and that SHA-256 does not
  collide on the stream's own identity inputs.  Then every record is acknowledged, the builder counts
  all of them, and it stores exactly the bytes of the records the policy keeps, in order.  The
  assumption on the policy is needed: a policy that rewrites records may be refused with
  \<open>TransformationReceiptCollision\<close> although no digest collides.
\<close>

theorem in_order_stream_accepted:
  assumes "exact_policy policy" and "in_order ident digest es"
    and "collision_free sha256 (fetch_retrieval_id ident) es" and "stream_bounded ident es"
  shows "\<exists>acks b. accept_all sha256 policy (LedgerBuilder_new ident digest) es = (map Inr acks, b)
    \<and> acknowledged_records b = length es
    \<and> map ev_raw (lb_events b) = map (\<lambda>e. record_exact_bytes (env_record e)) (filter (\<lambda>e. policy e = AuthorizeSourceExact) es)"
proof -
  obtain acks b where run: "accept_all sha256 policy (LedgerBuilder_new ident digest) es = (map Inr acks, b)"
    and state: "stream_state sha256 ident digest es b"
    using stream_accepted [OF assms] by blast
  have len: "length acks = length es" using accept_all_length [OF run] by simp
  have "retained_bytes policy e = (if policy e = AuthorizeSourceExact then [record_exact_bytes (env_record e)] else [])" for e
    using spec [OF assms(1) [unfolded exact_policy_def], of e] by (cases "policy e") (simp_all add: retained_bytes_def)
  then have "concat (map (retained_bytes policy) xs) =
      map (\<lambda>e. record_exact_bytes (env_record e)) (filter (\<lambda>e. policy e = AuthorizeSourceExact) xs)" for xs
    by (induction xs) simp_all
  moreover have "map (\<lambda>(e, _). retained_bytes policy e) (zip es acks) = map (retained_bytes policy) es"
    using len by (simp add: split_def map_fst_zip flip: map_map [unfolded comp_def])
  ultimately show ?thesis
    using run state accept_all_totals [OF run] len
    by (auto simp: stream_state_def stream_totals_def accepted_of_all LedgerBuilder_new_def)
qed

lemma le_bytes_32_eq: "m < 1000 \<Longrightarrow> n < 1000 \<Longrightarrow> le_bytes 32 m = le_bytes 32 n \<longleftrightarrow> m = n"
  by (auto dest!: le_bytes_inj)

lemmas sample_length = source_record_hasher_def exact_event_input_def event_hasher_def
  hash_persisted_provider_attestations_def hash_correlation_def update_field_def domain_hasher_def
  sample_defs sample_attestation_def

lemma sample_collision_free:
  "collision_free sample_sha256 ''r'' [sample_first ''ok'', sample_second ''ok'']"
  by (simp add: collision_free_def sample_sha256_def inj_on_def le_bytes_32_eq sample_length
      source_record_id_def authorized_content_hash_def Let_def)

theorem in_order_stream_accepted_witness:
  "\<exists>acks b. accept_all sample_sha256 (\<lambda>_. AuthorizeSourceExact) (LedgerBuilder_new sample_identity ''s'')
       [sample_first ''ok'', sample_second ''ok''] = (map Inr acks, b)
     \<and> acknowledged_records b = length [sample_first ''ok'', sample_second ''ok'']
     \<and> map ev_raw (lb_events b) = map (\<lambda>e. record_exact_bytes (env_record e))
         (filter (\<lambda>_. AuthorizeSourceExact = AuthorizeSourceExact) [sample_first ''ok'', sample_second ''ok''])"
proof (rule in_order_stream_accepted)
  show "exact_policy (\<lambda>_. AuthorizeSourceExact)" by (simp add: exact_policy_def)
  show "in_order sample_identity ''s'' [sample_first ''ok'', sample_second ''ok'']"
    by (simp add: in_order_def lane_count_def less_Suc_eq sample_defs all_conj_distrib imp_conjR)
  show "collision_free sample_sha256 (fetch_retrieval_id sample_identity) [sample_first ''ok'', sample_second ''ok'']"
    using sample_collision_free by (simp add: sample_identity_def)
  show "stream_bounded sample_identity [sample_first ''ok'', sample_second ''ok'']"
    by (simp add: stream_bounded_def stream_source_bytes_def attestations_fit_def sample_attestation_def sample_defs)
qed

section \<open>Sealed ledgers\<close>

text \<open>
  C17.  Sealing a reachable builder succeeds exactly when the completion names the builder's
  identity and totals and does not claim completeness after a fragment; the receipt then lists
  every acknowledged record in order, and the failure is never an invalid acquisition receipt.
\<close>

theorem seal_iff_completion_matches:
  assumes "reachable sha256 policy b"
  shows "case seal sha256 b completion of
      Inr l \<Rightarrow> completion_matches b completion \<and> el_events l = lb_events b
        \<and> receipt_entries (el_acquisition_receipt l) = acquisition_assignments b
        \<and> counts_acknowledged (receipt_counts (el_acquisition_receipt l)) = acknowledged_records b
    | Inl err \<Rightarrow> \<not> completion_matches b completion \<and> (\<forall>x. err \<noteq> AcquisitionReceiptInvalid x)"
proof (cases "seal sha256 b completion")
  case (Inl err)
  have ok: "builder_ok sha256 b" using assms by (rule reachable_builder_ok)
  have "\<forall>x. err \<noteq> AcquisitionReceiptInvalid x"
    using Inl reconcile_builder [OF ok] by (auto simp: seal_def Let_def split: if_splits)
  moreover have "\<not> completion_matches b completion" using Inl seal_Inr [OF ok, of completion] by auto
  ultimately show ?thesis using Inl by simp
next
  case (Inr l)
  have ok: "builder_ok sha256 b" using assms by (rule reachable_builder_ok)
  then have "length (acquisition_assignments b) = acknowledged_records b"
    unfolding builder_ok_def identities_ok_def totals_ok_def by (metis length_map)
  moreover have "counts_acknowledged AcquisitionCounts_default = 0"
    by (simp add: counts_acknowledged_def AcquisitionCounts_default_def)
  ultimately show ?thesis
    using Inr seal_Inr [OF ok, of completion l] by (simp add: sealed_receipt_def count_outcomes_acknowledged)
qed

theorem seal_iff_completion_matches_witness:
  "\<exists>l. seal sample_sha256 sample_new (sample_completion sample_new) = Inr l \<and> el_events l = []"
proof -
  have r: "reachable sample_sha256 redact_policy sample_new" unfolding sample_new_def by (rule reachable_new)
  obtain l where "seal sample_sha256 sample_new (sample_completion sample_new) = Inr l"
    using sample_seals [OF reachable_builder_ok [OF r]] by blast
  then show ?thesis
    using seal_iff_completion_matches [OF r, of "sample_completion sample_new"]
    by (simp add: sample_new_def LedgerBuilder_new_def)
qed

text \<open>
  C25.  A completion is believed only as far as the acknowledged stream supports it.  For a builder
  fed with any stream and a completion built by \<open>FetchCompletion::new\<close>, sealing reports the first
  disagreement between the completion and the acknowledged envelopes: their identity, number,
  payload bytes and source bytes, and a claim of completeness after an acknowledged fragment.
  Otherwise the ledger is sealed; its receipt lists the acknowledged records with their outcomes, its
  events hold exactly the bytes the policy retained of them, and if it reports provider completeness,
  every acknowledged record is complete, the adapter finished without error codes, no cap was reached
  and every attempted member and page was completed.
\<close>

definition claim_supported :: "AttemptCounts \<Rightarrow> AttemptCounts \<Rightarrow> CapUsage list \<Rightarrow> AdapterOutcome \<Rightarrow> FetchErrorCode list \<Rightarrow> RawEnvelopeV1 list \<Rightarrow> bool" where
  "claim_supported members pages caps outcome errs es \<longleftrightarrow> (\<forall>e \<in> set es. record_is_complete (env_state e))
     \<and> outcome = AdapterFinished \<and> errs = [] \<and> (\<forall>u \<in> set caps. \<not> cap_reached u)
     \<and> completed members = attempted members \<and> completed pages = attempted pages"

definition first_disagreement ::
  "FetchIdentity \<Rightarrow> RawEnvelopeV1 list \<Rightarrow> FetchIdentity \<Rightarrow> AcknowledgedCounts \<Rightarrow> FetchCompleteness \<Rightarrow> LedgerBuildError option" where
  "first_disagreement ident es claimed acknowledged completeness =
     (if claimed \<noteq> ident then Some CompletionIdentityMismatch
      else if ack_records acknowledged \<noteq> length es then Some CompletionRecordCountMismatch
      else if ack_payload_bytes acknowledged \<noteq> (\<Sum>e\<leftarrow>es. payload_len (env_record e)) then Some CompletionPayloadByteCountMismatch
      else if ack_source_bytes acknowledged \<noteq> (\<Sum>e\<leftarrow>es. source_len (env_record e)) then Some CompletionSourceByteCountMismatch
      else if is_fetch_complete completeness \<and> \<not> (\<forall>e \<in> set es. record_is_complete (env_state e)) then Some CompleteWithFragment
      else None)"

theorem completion_is_believed_as_supported:
  assumes "accept_all sha256 policy (LedgerBuilder_new ident digest) es = (rs, b)"
    and "FetchCompletion_new claimed timing acknowledged members pages boundaries caps outcome errs completeness = Inr completion"
  shows "case seal sha256 b completion of
      Inl err \<Rightarrow> first_disagreement ident (map fst (accepted_of es rs)) claimed acknowledged completeness = Some err
    | Inr l \<Rightarrow> first_disagreement ident (map fst (accepted_of es rs)) claimed acknowledged completeness = None
        \<and> el_completion l = completion
        \<and> receipt_entries (el_acquisition_receipt l) =
            map (\<lambda>(e, ack). (source_record_id sha256 e, sa_outcome ack)) (accepted_of es rs)
        \<and> map ev_raw (el_events l) = concat (map (\<lambda>(e, _). retained_bytes policy e) (accepted_of es rs))
        \<and> (provider_is_complete (provider_completeness (el_completion l)) \<longrightarrow>
             claim_supported members pages caps outcome errs (map fst (accepted_of es rs)))"
proof -
  let ?acks = "accepted_of es rs"
  have totals: "acknowledged_records b = length ?acks"
      "acknowledged_payload_bytes b = (\<Sum>e\<leftarrow>map fst ?acks. payload_len (env_record e))"
      "acknowledged_source_bytes b = (\<Sum>e\<leftarrow>map fst ?acks. source_len (env_record e))"
      "saw_fragment b \<longleftrightarrow> \<not> (\<forall>e \<in> set (map fst ?acks). record_is_complete (env_state e))"
      "acquisition_assignments b = map (\<lambda>(e, ack). (source_record_id sha256 e, sa_outcome ack)) ?acks"
      "map ev_raw (lb_events b) = concat (map (\<lambda>(e, _). retained_bytes policy e) ?acks)"
    using accept_all_totals [OF assms(1)]
    by (simp_all add: stream_totals_def LedgerBuilder_new_def split_def comp_def)
  have ident: "lb_identity b = ident"
    using accept_all_identity [OF assms(1)] by (simp add: LedgerBuilder_new_def)
  have ok: "builder_ok sha256 b"
    using accept_all_reachable [OF reachable_new assms(1)] by (rule reachable_builder_ok)
  note new = FetchCompletion_new_ok [OF assms(2)]
  show ?thesis
  proof (cases "first_disagreement ident (map fst ?acks) claimed acknowledged completeness")
    case (Some err)
    then have "seal sha256 b completion = Inl err" using totals(1-4)
      by (auto simp: seal_def first_disagreement_def new ident provider_completeness_def Let_def split: if_split_asm)
    then show ?thesis using Some by simp
  next
    case None
    then have "completion_matches b completion" using totals(1-4)
      by (cases acknowledged) (auto simp: completion_matches_def first_disagreement_def new ident split: if_split_asm)
    then obtain l where l: "seal sha256 b completion = Inr l" using seal_Inr [OF ok] by blast
    then have fields: "el_events l = lb_events b" "el_acquisition_receipt l = sealed_receipt b" "el_completion l = completion"
      by (simp_all add: seal_Inr [OF ok])
    have "claim_supported members pages caps outcome errs (map fst ?acks)" if "is_fetch_complete completeness"
      using None that assms(2)
      by (auto simp: claim_supported_def first_disagreement_def FetchCompletion_new_def list_ex_iff split: if_split_asm)
    then show ?thesis
      using None l totals(5,6) by (simp add: fields sealed_receipt_def provider_completeness_def new)
  qed
qed

lemma sample_repeated:
  obtains ack b where "accept_all sample_sha256 (\<lambda>_. AuthorizeSourceExact) (LedgerBuilder_new sample_identity ''s'')
      [sample_first ''ok'', sample_first ''ok''] = ([Inr ack, Inl (UnexpectedAcquisitionSequence 1 0)], b)"
proof -
  let ?p = "\<lambda>_. AuthorizeSourceExact"
  obtain ack b where first: "accept sample_sha256 ?p sample_new (sample_first ''ok'') = (Inr ack, b)"
    using sample_first_accepted by blast
  then have "next_acquisition_sequence b = 1" "\<not> lb_analysis_projection_v3 b" "lb_identity b = sample_identity"
      "lb_source_identity_digest b = ''s''"
    by (auto elim!: accept_cases simp: plan_ok_def sample_defs)
  then have "accept sample_sha256 ?p b (sample_first ''ok'') = (Inl (UnexpectedAcquisitionSequence 1 0), b)"
    by (simp add: accept_def accept_plan_def validate_identity_def sample_defs Let_def)
  then show thesis using first that by (simp add: sample_new_def)
qed

theorem completion_is_believed_as_supported_witness:
  "\<exists>rs b l completion miscounted.
     accept_all sample_sha256 (\<lambda>_. AuthorizeSourceExact) (LedgerBuilder_new sample_identity ''s'')
       [sample_first ''ok'', sample_first ''ok''] = (rs, b)
     \<and> seal sample_sha256 b completion = Inr l \<and> provider_is_complete (provider_completeness (el_completion l))
     \<and> map ev_raw (el_events l) = [''ok'' @ [CHR 0x0A]]
     \<and> seal sample_sha256 b miscounted = Inl CompletionRecordCountMismatch"
proof -
  let ?p = "\<lambda>_. AuthorizeSourceExact" and ?es = "[sample_first ''ok'', sample_first ''ok'']"
  let ?new = "\<lambda>n. FetchCompletion_new sample_identity \<lparr>started_at = 0, ended_at = 1\<rparr>
      \<lparr>ack_records = n, ack_payload_bytes = 2, ack_source_bytes = 3\<rparr> \<lparr>attempted = 1, completed = 1\<rparr> \<lparr>attempted = 1, completed = 1\<rparr>
      \<lparr>first_cursor = None, final_cursor = None, high_water_marks = []\<rparr> [] AdapterFinished [] (FetchComplete FixedSnapshotVerified)"
  obtain ack b where run: "accept_all sample_sha256 ?p (LedgerBuilder_new sample_identity ''s'') ?es =
      ([Inr ack, Inl (UnexpectedAcquisitionSequence 1 0)], b)" by (rule sample_repeated)
  obtain c c' where new: "?new 1 = Inr c" "?new 2 = Inr c'" by (simp add: FetchCompletion_new_def)
  note one = completion_is_believed_as_supported [OF run new(1)]
  note two = completion_is_believed_as_supported [OF run new(2)]
  have lens: "payload_len (env_record (sample_first ''ok'')) = 2" "source_len (env_record (sample_first ''ok'')) = 3"
    "record_is_complete (env_state (sample_first ''ok''))"
    by (simp_all add: sample_defs payload_len_def source_len_def saturating_add_u64_def)
  obtain l where l: "seal sample_sha256 b c = Inr l" "map ev_raw (el_events l) = [''ok'' @ [CHR 0x0A]]" "el_completion l = c"
    using one lens by (auto simp: first_disagreement_def retained_bytes_def sample_defs split: sum.splits)
  moreover have "seal sample_sha256 b c' = Inl CompletionRecordCountMismatch"
    using two by (auto simp: first_disagreement_def split: sum.splits if_split_asm)
  moreover have "provider_is_complete (provider_completeness (el_completion l))"
    using FetchCompletion_new_ok(4) [OF new(1)] l(3) by (simp add: provider_completeness_def)
  ultimately show ?thesis using run by (intro exI conjI)
qed

text \<open>
  C18.  If the policy pairs every changed record with a constructor-verified receipt and no receipt
  collision occurred, the sealed ledger passes every check of \<open>checked_export_v1\<close> and of the import.
\<close>

theorem sealed_ledger_exports:
  assumes "clean sha256 policy b" and "verified_policy sha256 policy" and "seal sha256 b completion = Inr l"
  shows "checked_export_v1 sha256 l = Inr l \<and> checked_sealed_ledger_import_v1 sha256 l = Inr l"
  using sealed_validates [OF reachable_builder_ok [OF clean_reachable [OF assms(1)]]
      clean_receipts_ok [OF assms(1,2)] assms(3)]
  by (simp add: checked_export_v1_def checked_sealed_ledger_import_v1_def)

lemma redact_first_clean:
  obtains ack b where "accept sample_sha256 redact_policy sample_new (sample_first ''password=hunter2'') = (Inr ack, b)"
    and "clean sample_sha256 redact_policy b"
proof -
  obtain ack b where run: "accept sample_sha256 redact_policy sample_new (sample_first ''password=hunter2'') = (Inr ack, b)"
    using redact_first_accepted by blast
  have "clean sample_sha256 redact_policy sample_new" unfolding sample_new_def by (rule clean_new)
  then have "clean sample_sha256 redact_policy b" using run by (rule clean_accept) simp
  then show thesis using run that by blast
qed

theorem sealed_ledger_exports_witness:
  "\<exists>ack b l. accept sample_sha256 redact_policy sample_new (sample_first ''password=hunter2'') = (Inr ack, b)
     \<and> seal sample_sha256 b (sample_completion b) = Inr l \<and> checked_export_v1 sample_sha256 l = Inr l"
proof -
  obtain ack b where run: "accept sample_sha256 redact_policy sample_new (sample_first ''password=hunter2'') = (Inr ack, b)"
    and cl: "clean sample_sha256 redact_policy b" by (rule redact_first_clean)
  obtain l where "seal sample_sha256 b (sample_completion b) = Inr l"
    using sample_seals [OF reachable_builder_ok [OF clean_reachable [OF cl]]] by blast
  then show ?thesis using run sealed_ledger_exports [OF cl verified_redact_policy] by blast
qed

text \<open>
  C19.  Round trip: the bytes of a record acknowledged as source exact are returned unchanged by
  \<open>exact_bytes\<close> of the sealed ledger, whatever envelopes follow before the seal.
\<close>

theorem exact_bytes_round_trip:
  assumes "reachable sha256 policy b" and "accept sha256 policy b envelope = (Inr ack, b1)"
    and "sa_outcome ack = Persisted eid SourceExact"
    and "accept_all sha256 policy b1 later = (results, b2)" and "seal sha256 b2 completion = Inr l"
  shows "exact_bytes l eid = Inr (record_exact_bytes (env_record envelope))"
proof -
  obtain rec receipt e where "retained envelope (policy envelope) = Some (rec, SourceExact, receipt)"
      "event l eid = Inr e" "ev_raw e = record_exact_bytes rec"
    using persisted_bytes [OF assms] by blast
  moreover from this(1) have "rec = env_record envelope" by (cases "policy envelope") auto
  ultimately show ?thesis by (simp add: exact_bytes_def)
qed

theorem exact_bytes_round_trip_witness:
  "\<exists>ack b1 results b2 l eid.
     accept sample_sha256 (\<lambda>_. AuthorizeSourceExact) sample_new (sample_first ''ok'') = (Inr ack, b1)
     \<and> accept_all sample_sha256 (\<lambda>_. AuthorizeSourceExact) b1 [sample_second ''two''] = (results, b2)
     \<and> seal sample_sha256 b2 (sample_completion b2) = Inr l
     \<and> exact_bytes l eid = Inr (''ok'' @ [CHR 0x0A])"
proof -
  let ?p = "\<lambda>_. AuthorizeSourceExact"
  obtain ack b1 eid where run: "accept sample_sha256 ?p sample_new (sample_first ''ok'') = (Inr ack, b1)"
      "sa_outcome ack = Persisted eid SourceExact"
    using sample_first_accepted by blast
  have r: "reachable sample_sha256 ?p sample_new" unfolding sample_new_def by (rule reachable_new)
  obtain results b2 where more: "accept_all sample_sha256 ?p b1 [sample_second ''two''] = (results, b2)"
    by (cases "accept_all sample_sha256 ?p b1 [sample_second ''two'']")
  have "reachable sample_sha256 ?p b1" using reachable_accept [OF r, of "sample_first ''ok''"] run by simp
  then have "builder_ok sample_sha256 b2" using accept_all_reachable [OF _ more] reachable_builder_ok by blast
  then obtain l where l: "seal sample_sha256 b2 (sample_completion b2) = Inr l" using sample_seals by blast
  have "exact_bytes l eid = Inr (''ok'' @ [CHR 0x0A])"
    using exact_bytes_round_trip [OF r run more l] by (simp add: sample_first_def RawEnvelopeV1_new_def)
  then show ?thesis using run more l by blast
qed

lemma expand_window:
  assumes "reachable sha256 policy b" and "seal sha256 b completion = Inr l"
  shows "case ledger_position l anchor of
      None \<Rightarrow> expand l anchor before after = Inl (UnknownEvent anchor)
    | Some i \<Rightarrow> ev_id (el_events l ! i) = anchor \<and> (\<exists>x. expand l anchor before after = Inr x
        \<and> expansion_anchor x = anchor
        \<and> window_of i before after (el_events l) (expansion_events x) (expansion_anchor_offset x)
        \<and> ev_id (expansion_events x ! expansion_anchor_offset x) = anchor)"
proof (cases "ledger_position l anchor")
  case None
  then show ?thesis by (simp add: expand_def ledger_position_def)
next
  case (Some i)
  have ok: "ledger_ok l" using sealed_events [OF assms] by simp
  have i: "i < length (el_events l)" "ev_id (el_events l ! i) = anchor"
    using ledger_index.pos_iff [OF ok] Some by blast+
  show ?thesis
    using expand_spec [OF ok Some, of before after] window_ofI [OF i(1), of before after]
      window_of_nth [OF window_ofI [OF i(1), of before after]] i(2) Some
    by simp
qed

lemma sample_ledger:
  obtains b l eid where "reachable sample_sha256 (\<lambda>_. AuthorizeSourceExact) b"
    and "seal sample_sha256 b (sample_completion b) = Inr l"
    and "length (el_events l) = 1" and "ledger_position l eid = Some 0"
proof -
  let ?p = "\<lambda>_. AuthorizeSourceExact"
  obtain ack b eid where run: "accept sample_sha256 ?p sample_new (sample_first ''ok'') = (Inr ack, b)"
      "sa_outcome ack = Persisted eid SourceExact"
    using sample_first_accepted by blast
  have r: "reachable sample_sha256 ?p sample_new" unfolding sample_new_def by (rule reachable_new)
  have rb: "reachable sample_sha256 ?p b" using reachable_accept [OF r, of "sample_first ''ok''"] run by simp
  obtain l where l: "seal sample_sha256 b (sample_completion b) = Inr l"
    using sample_seals [OF reachable_builder_ok [OF rb]] by blast
  obtain rec where "lb_events b = lb_events sample_new @ [derived_event sample_sha256 sample_new (sample_first ''ok'') rec SourceExact]"
    using accept_persists [OF run] by blast
  then have one: "length (el_events l) = 1"
    using sealed_events [OF rb l] by (simp add: sample_new_def LedgerBuilder_new_def)
  then have "ledger_position l (ev_id (el_events l ! 0)) = Some 0"
    using ledger_index.pos_nth [OF sealed_events(1) [OF rb l], of 0] by simp
  with rb l one show thesis by (rule that)
qed

lemma expand_same_lane_window:
  assumes "reachable sha256 policy b" and "seal sha256 b completion = Inr l"
  shows "case ledger_position l anchor of
      None \<Rightarrow> expand_same_lane l anchor before after = Inl (UnknownEvent anchor)
    | Some i \<Rightarrow> (\<exists>x k. expand_same_lane l anchor before after = Inr x \<and> expansion_anchor x = anchor
        \<and> window_of k before after (filter (\<lambda>e. ev_lane e = ev_lane (el_events l ! i)) (el_events l))
            (expansion_events x) (expansion_anchor_offset x)
        \<and> expansion_events x ! expansion_anchor_offset x = el_events l ! i)"
proof (cases "ledger_position l anchor")
  case None
  then show ?thesis by (simp add: expand_same_lane_def ledger_position_def)
next
  case (Some i)
  have ok: "ledger_ok l" using sealed_events [OF assms] by simp
  have i: "i < length (el_events l)" using ledger_index.pos_iff [OF ok] Some by blast
  define lane where "lane = ev_lane (el_events l ! i)"
  define own where "own = filter (\<lambda>e. ev_lane e = lane) (el_events l)"
  obtain k where k: "k < length (lane_indices (el_events l) lane)" "lane_indices (el_events l) lane ! k = i"
    using lane_offset [OF i] by (auto simp: lane_def)
  have own_k: "own ! k = el_events l ! i" and len: "k < length own"
    using k lane_indices_events [of "el_events l" lane] by (metis nth_map own_def, metis length_map own_def)
  note spec = expand_same_lane_spec [OF ok Some lane_def k, of before after, folded own_def]
  show ?thesis
    using spec window_ofI [OF len, of before after] window_of_nth [OF window_ofI [OF len, of before after]] own_k Some
    by (auto simp flip: lane_def own_def)
qed

text \<open>
  C20.  Neither expansion of a sealed ledger panics.  Around a known event \<open>expand\<close> returns the
  contiguous window of the events with the event at the reported offset, cut only by the ends of the
  ledger; \<open>expand_same_lane\<close> returns the window within the events of its own lane: events of other
  lanes neither appear nor use up the allowance.  Both report an unknown event as such.
\<close>

theorem expansions_return_windows:
  assumes "reachable sha256 policy b" and "seal sha256 b completion = Inr l"
  shows "case ledger_position l anchor of
      None \<Rightarrow> expand l anchor before after = Inl (UnknownEvent anchor)
        \<and> expand_same_lane l anchor before after = Inl (UnknownEvent anchor)
    | Some i \<Rightarrow> ev_id (el_events l ! i) = anchor
        \<and> (\<exists>x. expand l anchor before after = Inr x \<and> expansion_anchor x = anchor
            \<and> window_of i before after (el_events l) (expansion_events x) (expansion_anchor_offset x)
            \<and> ev_id (expansion_events x ! expansion_anchor_offset x) = anchor)
        \<and> (\<exists>x k. expand_same_lane l anchor before after = Inr x \<and> expansion_anchor x = anchor
            \<and> window_of k before after (filter (\<lambda>e. ev_lane e = ev_lane (el_events l ! i)) (el_events l))
                (expansion_events x) (expansion_anchor_offset x)
            \<and> expansion_events x ! expansion_anchor_offset x = el_events l ! i)"
  using expand_window [OF assms, of anchor before after] expand_same_lane_window [OF assms, of anchor before after]
  by (simp split: option.splits)

theorem expansions_return_windows_witness:
  "\<exists>b l anchor x y. seal sample_sha256 b (sample_completion b) = Inr l
     \<and> expand l anchor 3 3 = Inr x \<and> expansion_anchor_offset x < length (expansion_events x)
     \<and> expand_same_lane l anchor 3 3 = Inr y \<and> expansion_anchor_offset y < length (expansion_events y)"
proof -
  obtain b l eid where s: "reachable sample_sha256 (\<lambda>_. AuthorizeSourceExact) b"
      "seal sample_sha256 b (sample_completion b) = Inr l" and pos: "ledger_position l eid = Some 0"
    by (rule sample_ledger)
  have "(\<exists>x. expand l eid 3 3 = Inr x \<and> expansion_anchor_offset x < length (expansion_events x))
      \<and> (\<exists>y. expand_same_lane l eid 3 3 = Inr y \<and> expansion_anchor_offset y < length (expansion_events y))"
    using expansions_return_windows [OF s, of eid 3 3] pos by (auto simp: window_of_def)
  then show ?thesis using s(2) by blast
qed

text \<open>
  C22.  \<open>analysis_projection_v3\<close> accepts exactly the non-empty, strictly increasing, in-range position
  lists; the projection keeps the identity and the bytes of every selected event and its indexes
  are again exact.
\<close>

theorem analysis_projection_preserves:
  assumes "reachable sha256 policy b" and "seal sha256 b completion = Inr l"
  shows "case analysis_projection_v3 l ps of
      Inl err \<Rightarrow> err = InvalidAnalysisProjection \<and> \<not> (ps \<noteq> [] \<and> projection_positions_ok l ps)
    | Inr l' \<Rightarrow> ps \<noteq> [] \<and> projection_positions_ok l ps \<and> ledger_ok l'
        \<and> map ev_id (el_events l') = map (\<lambda>p. ev_id (el_events l ! p)) ps
        \<and> passthrough l' = map (\<lambda>p. passthrough l ! p) ps"
proof -
  have ok: "ledger_ok l" using sealed_events [OF assms] by simp
  have raw: "map ev_raw (project_events l ps) = map (\<lambda>p. map ev_raw (el_events l) ! p) ps" if "projection_positions_ok l ps"
    using that by (intro nth_equalityI) (simp_all add: project_events_def nth_enumerate_eq projection_positions_ok_def)
  show ?thesis
  proof (cases "analysis_projection_v3 l ps")
    case (Inl err)
    have "length (el_events l) \<le> u64_max" using ok by (simp add: ledger_ok_def)
    then have "err = InvalidAnalysisProjection"
      using Inl by (auto simp: analysis_projection_v3_def projection_loop split: if_splits)
    then show ?thesis using Inl analysis_projection_Inr [OF ok, of ps] by auto
  next
    case (Inr l')
    then show ?thesis
      using analysis_projection_Inr [OF ok, of ps l'] analysis_projection_ledger_ok [OF ok Inr] raw project_events_ids [of l ps]
      by (simp add: passthrough_def)
  qed
qed

theorem analysis_projection_preserves_witness:
  "\<exists>b l l'. seal sample_sha256 b (sample_completion b) = Inr l \<and> analysis_projection_v3 l [0] = Inr l'
     \<and> passthrough l' = [passthrough l ! 0]"
proof -
  obtain b l eid where s: "reachable sample_sha256 (\<lambda>_. AuthorizeSourceExact) b"
      "seal sample_sha256 b (sample_completion b) = Inr l" and one: "length (el_events l) = 1"
    by (rule sample_ledger)
  have "projection_positions_ok l [0]" using one by (simp add: projection_positions_ok_def)
  then have "\<exists>l'. analysis_projection_v3 l [0] = Inr l' \<and> passthrough l' = [passthrough l ! 0]"
    using analysis_projection_preserves [OF s, of "[0]"] by (cases "analysis_projection_v3 l [0]") auto
  then show ?thesis using s(2) by blast
qed

text \<open>
  C23.  The receipt map is overwritten before a receipt collision is reported: once \<open>accept\<close> has
  failed with \<open>TransformationReceiptCollision\<close> on a builder whose ledger would have exported, no
  ledger sealed from the builder it leaves behind passes \<open>checked_export_v1\<close>.
\<close>

theorem receipt_collision_poisons_builder:
  assumes "clean sha256 policy b" and "verified_policy sha256 policy"
    and "accept sha256 policy b envelope = (Inl TransformationReceiptCollision, b')"
    and "seal sha256 b' completion = Inr l"
  shows "\<exists>err. checked_export_v1 sha256 l = Inl err"
  using collision_breaks_export [OF assms] by (auto simp: checked_export_v1_def)

lemma redact_second_collides:
  assumes "accept sample_sha256 redact_policy sample_new (sample_first ''password=hunter2'') = (Inr ack, b)"
  shows "\<exists>b'. accept sample_sha256 redact_policy b (sample_second ''password=hunter2'') = (Inl TransformationReceiptCollision, b')"
proof -
  obtain t where t: "PreparedTransformationReceiptV1_new sample_sha256 ''redact''
      (Framed ''password=hunter2'' [CHR 0x0A]) redacted [\<lparr>op_start = 9, op_end = 16, op_replacement = ''***''\<rparr>] = Inr t"
    using sample_receipt by blast
  then have pol: "redact_policy (sample_first ''password=hunter2'') = AuthorizePostPolicyReceipt redacted t"
      "redact_policy (sample_second ''password=hunter2'') = AuthorizePostPolicyReceipt redacted t"
    by (simp_all add: redact_policy_def sample_defs)
  let ?e0 = "sample_first ''password=hunter2''" and ?e1 = "sample_second ''password=hunter2''"
  let ?basis = "PostPolicy (tr_policy_digest t) (tr_id t)"
  let ?id0 = "ev_id (derived_event sample_sha256 sample_new ?e0 redacted ?basis)"
  let ?ev1 = "derived_event sample_sha256 b ?e1 redacted ?basis"
  have digest: "tr_policy_digest t = ''redact''" "length (tr_id t) = 32"
    using t by (simp_all add: transformation_new_Inr receipt_id_def sample_sha256_def Let_def)
  have src: "source_record_id sample_sha256 ?e1 \<noteq> source_record_id sample_sha256 ?e0"
    by (simp add: source_record_id_def sample_sha256_def le_bytes_32_eq sample_length Let_def)
  obtain p where p: "plan_ok sample_sha256 redact_policy sample_new ?e0 p" "b = commit_plan ?e0 p (insert_receipt (ap_receipt p) sample_new)"
    using assms by (cases rule: accept_cases) auto
  have ev: "ap_event p = Some (derived_event sample_sha256 sample_new ?e0 redacted ?basis)"
      "ap_receipt p = Some (receipt_bind t ?id0)"
    using plan_event [OF p(1)] pol by (simp_all add: Let_def)
  have b: "lb_identity b = sample_identity" "lb_source_identity_digest b = ''s''" "\<not> lb_analysis_projection_v3 b"
      "next_acquisition_sequence b = 1" "map_of (next_lane_sequences b) (''bb'', Stdout) = None"
      "acknowledged_records b = 1" "acknowledged_payload_bytes b = 16" "acknowledged_source_bytes b = 17"
      "source_record_ids b = {source_record_id sample_sha256 ?e0}"
      "length (lb_events b) = 1" "map_of (lb_positions b) = [?id0 \<mapsto> 0]"
      "map_of (lb_transformation_receipts b) (tr_id t) = Some (receipt_bind t ?id0)"
    using p(1) ev unfolding p(2)
    by (simp_all add: plan_ok_def sample_new_def sample_first_def LedgerBuilder_new_def RawEnvelopeV1_new_def
        payload_len_def source_len_def saturating_add_u64_def insert_receipt_def receipt_bind_def)
  have "ev_id ?ev1 \<noteq> ?id0"
    using digest b(1)
    by (simp add: derived_event_def authorized_event_def event_id_def event_hasher_def sample_sha256_def source_record_id_def
        hash_persisted_provider_attestations_def hash_correlation_def update_field_def domain_hasher_def
        authorized_content_hash_def le_bytes_32_eq sample_defs sample_attestation_def Let_def)
  then have "persist_authorized sample_sha256 b ?e1 redacted ?basis (source_record_id sample_sha256 ?e1)
      = Inr (Persisted (ev_id ?ev1) ?basis, length (record_exact_bytes redacted), ?ev1)"
    using b by (simp add: persist_authorized_Inr redacted_def)
  then have auth: "authorize sample_sha256 b ?e1 (source_record_id sample_sha256 ?e1) (redact_policy ?e1)
      = Inr (Persisted (ev_id ?ev1) ?basis, length (record_exact_bytes redacted), Some ?ev1, Some (receipt_bind t (ev_id ?ev1)))"
    by (simp add: pol authorize_retained)
  have "\<exists>q. accept_plan sample_sha256 redact_policy b ?e1 = Inr q \<and> ap_receipt q = Some (receipt_bind t (ev_id ?ev1))"
    using b src
    by (subst accept_plan_complete [where policy = redact_policy, OF _ _ _ _ _ _ _ _ _ _ auth])
      (simp_all add: validate_identity_def sample_second_def RawEnvelopeV1_new_def builder_identity_def sample_identity_def
        payload_len_def source_len_def saturating_add_u64_def)
  then show ?thesis
    using b(12) by (auto simp: accept_def receipt_collides_def receipt_bind_def)
qed

theorem receipt_collision_poisons_builder_witness:
  "\<exists>b b' l err. accept sample_sha256 redact_policy b (sample_second ''password=hunter2'')
       = (Inl TransformationReceiptCollision, b')
     \<and> seal sample_sha256 b' (sample_completion b') = Inr l \<and> checked_export_v1 sample_sha256 l = Inl err"
proof -
  obtain ack b where run: "accept sample_sha256 redact_policy sample_new (sample_first ''password=hunter2'') = (Inr ack, b)"
    and cl: "clean sample_sha256 redact_policy b" by (rule redact_first_clean)
  obtain b' where hit: "accept sample_sha256 redact_policy b (sample_second ''password=hunter2'')
      = (Inl TransformationReceiptCollision, b')"
    using redact_second_collides [OF run] by blast
  have "builder_ok sample_sha256 b'"
    using accept_builder_ok [OF hit] reachable_builder_ok [OF clean_reachable [OF cl]] by blast
  then obtain l where l: "seal sample_sha256 b' (sample_completion b') = Inr l" using sample_seals by blast
  from receipt_collision_poisons_builder [OF cl verified_redact_policy hit l] hit l show ?thesis by blast
qed

end
