(* ===== verification/Classify.thy ===== *)
theory Classify
  imports Ledger
begin

text \<open>
  The frozen line recognizers of the framer (\<open>evidentrail-framing/src/classify.rs\<close>): byte
  predicates on one payload, the start of a block of each family, and the continuation of a block
  with the state of the family's parser.
\<close>

section \<open>Byte helpers\<close>

definition starts_with :: "bytes \<Rightarrow> bytes \<Rightarrow> bool" where
  "starts_with line needle \<longleftrightarrow> take (length needle) line = needle"

definition ends_with :: "bytes \<Rightarrow> bytes \<Rightarrow> bool" where
  "ends_with line needle \<longleftrightarrow> length needle \<le> length line \<and> drop (length line - length needle) line = needle"

text \<open>\<open>u8::is_ascii_whitespace\<close>: space, tab, line feed, form feed and carriage return.\<close>

definition is_ascii_whitespace :: "char \<Rightarrow> bool" where
  "is_ascii_whitespace byte \<longleftrightarrow> byte \<in> {CHR '' '', CHR 0x09, CHR 0x0A, CHR 0x0C, CHR 0x0D}"

definition is_ascii_digit :: "char \<Rightarrow> bool" where
  "is_ascii_digit byte \<longleftrightarrow> CHR ''0'' \<le> byte \<and> byte \<le> CHR ''9''"

definition first_is_whitespace :: "bytes \<Rightarrow> bool" where
  "first_is_whitespace line \<longleftrightarrow> (case line of [] \<Rightarrow> False | byte # _ \<Rightarrow> is_ascii_whitespace byte)"

definition get_byte :: "bytes \<Rightarrow> nat \<Rightarrow> char option" where
  "get_byte line i = (if i < length line then Some (line ! i) else None)"

fun trim_ascii_start :: "bytes \<Rightarrow> bytes" where
  "trim_ascii_start [] = []"
| "trim_ascii_start (byte # line) = (if is_ascii_whitespace byte then trim_ascii_start line else byte # line)"

definition token_before_message :: "bytes \<Rightarrow> bytes" where
  "token_before_message line =
     (let end = (case position_of (\<lambda>byte. byte = CHR '':'' \<or> is_ascii_whitespace byte) line of
                   None \<Rightarrow> length line | Some end \<Rightarrow> end)
      in take end line)"

definition windows :: "nat \<Rightarrow> bytes \<Rightarrow> bytes list" where
  "windows n line = map (\<lambda>i. take n (drop i line)) [0..<length line + 1 - n]"

definition contains_bytes :: "bytes \<Rightarrow> bytes \<Rightarrow> bool" where
  "contains_bytes haystack needle \<longleftrightarrow>
     needle \<noteq> [] \<and> list_ex (\<lambda>window. window = needle) (windows (length needle) haystack)"

definition is_safe_ascii_line :: "bytes \<Rightarrow> bool" where
  "is_safe_ascii_line line \<longleftrightarrow>
     list_all (\<lambda>byte. byte = CHR 0x09 \<or> (CHR 0x20 \<le> byte \<and> byte \<le> CHR 0x7E)) line"

definition is_blank :: "bytes \<Rightarrow> bool" where
  "is_blank line \<longleftrightarrow> list_all is_ascii_whitespace line"

definition leading_digits :: "bytes \<Rightarrow> nat" where
  "leading_digits line = length (takeWhile is_ascii_digit line)"

section \<open>Line recognizers\<close>

definition is_python_traceback :: "bytes \<Rightarrow> bool" where
  "is_python_traceback line \<longleftrightarrow> line = ''Traceback (most recent call last):''"

definition is_python_frame :: "bytes \<Rightarrow> bool" where
  "is_python_frame line \<longleftrightarrow>
     starts_with line (''  File '' @ [CHR 0x22]) \<or> starts_with line (''  File '' @ [CHR 0x27])"

definition is_python_indented_detail :: "bytes \<Rightarrow> bool" where
  "is_python_indented_detail line \<longleftrightarrow> starts_with line ''    '' \<or> starts_with line [CHR 0x09]"

definition is_python_exception_terminal :: "bytes \<Rightarrow> bool" where
  "is_python_exception_terminal line \<longleftrightarrow>
     (if first_is_whitespace line \<or> line = [] then False
      else let head = token_before_message line in
        ends_with head ''Error'' \<or> ends_with head ''Exception''
        \<or> head = ''KeyboardInterrupt'' \<or> head = ''SystemExit'' \<or> head = ''GeneratorExit'')"

definition is_python_chain_separator :: "bytes \<Rightarrow> bool" where
  "is_python_chain_separator line \<longleftrightarrow>
     line = ''During handling of the above exception, another exception occurred:''
     \<or> line = ''The above exception was the direct cause of the following exception:''"

definition is_jvm_dotnet_explicit_start :: "bytes \<Rightarrow> bool" where
  "is_jvm_dotnet_explicit_start line \<longleftrightarrow>
     starts_with line (''Exception in thread '' @ [CHR 0x22])
     \<or> starts_with line ''Unhandled exception.'' \<or> starts_with line ''Unhandled Exception:''"

definition is_jvm_dotnet_exception_header :: "bytes \<Rightarrow> bool" where
  "is_jvm_dotnet_exception_header line \<longleftrightarrow>
     (if first_is_whitespace line then False
      else let head = token_before_message line in
        List.member head (CHR ''.'') \<and> (ends_with head ''Exception'' \<or> ends_with head ''Error''))"

definition is_javascript_error_header :: "bytes \<Rightarrow> bool" where
  "is_javascript_error_header line \<longleftrightarrow>
     List.member [''Error'', ''TypeError'', ''ReferenceError'', ''RangeError'', ''SyntaxError'', ''URIError'',
       ''EvalError'', ''AggregateError''] (token_before_message line)"

definition is_stack_frame :: "bytes \<Rightarrow> bool" where
  "is_stack_frame line \<longleftrightarrow>
     (let leading = length (takeWhile (\<lambda>byte. byte = CHR '' '' \<or> byte = CHR 0x09) line)
      in 0 < leading \<and> starts_with (drop leading line) ''at '')"

definition is_nested_cause :: "bytes \<Rightarrow> bool" where
  "is_nested_cause line \<longleftrightarrow>
     (let trimmed = trim_ascii_start line in
      starts_with trimmed ''Caused by:'' \<or> starts_with trimmed ''Suppressed:'' \<or> starts_with trimmed ''Wrapped by:'')"

definition is_elided_stack_frames :: "bytes \<Rightarrow> bool" where
  "is_elided_stack_frames line \<longleftrightarrow>
     (let trimmed = trim_ascii_start line in starts_with trimmed ''... '' \<and> ends_with trimmed '' more'')"

definition is_dotnet_inner_boundary :: "bytes \<Rightarrow> bool" where
  "is_dotnet_inner_boundary line \<longleftrightarrow>
     (let trimmed = trim_ascii_start line in
      starts_with trimmed ''---> '' \<or> trimmed = ''--- End of inner exception stack trace ---'')"

definition is_rust_panic_start :: "bytes \<Rightarrow> bool" where
  "is_rust_panic_start line \<longleftrightarrow>
     starts_with line ''panicked at ''
     \<or> (starts_with line (''thread '' @ [CHR 0x27]) \<and> contains_bytes line (CHR 0x27 # '' panicked at ''))
     \<or> (starts_with line (''thread '' @ [CHR 0x22]) \<and> contains_bytes line (CHR 0x22 # '' panicked at ''))"

definition is_rust_backtrace_marker :: "bytes \<Rightarrow> bool" where
  "is_rust_backtrace_marker line \<longleftrightarrow> trim_ascii_start line = ''stack backtrace:''"

definition is_rust_frame :: "bytes \<Rightarrow> bool" where
  "is_rust_frame line \<longleftrightarrow>
     (let trimmed = trim_ascii_start line;
          digits = leading_digits trimmed;
          location = (if starts_with trimmed ''at '' then Some (drop 3 trimmed) else None)
      in (0 < digits \<and> get_byte trimmed digits = Some (CHR '':''))
         \<or> (length trimmed < length line
            \<and> (case location of None \<Rightarrow> False
               | Some value \<Rightarrow> List.member value (CHR ''/'') \<or> List.member value (CHR 0x5C) \<or> List.member value (CHR '':''))))"

definition is_rust_panic_detail :: "bytes \<Rightarrow> bool" where
  "is_rust_panic_detail line \<longleftrightarrow>
     (let trimmed = trim_ascii_start line in
      starts_with trimmed ''note: run with '' \<or> starts_with trimmed ''left:'' \<or> starts_with trimmed ''right:'')"

definition is_go_panic_start :: "bytes \<Rightarrow> bool" where
  "is_go_panic_start line \<longleftrightarrow> starts_with line ''panic:'' \<or> starts_with line ''fatal error:''"

definition is_go_goroutine :: "bytes \<Rightarrow> bool" where
  "is_go_goroutine line \<longleftrightarrow>
     (let trimmed = trim_ascii_start line in
      if \<not> starts_with trimmed ''goroutine '' \<or> \<not> ends_with trimmed '':'' then False
      else let after_prefix = drop (length ''goroutine '') trimmed; digits = leading_digits after_prefix
        in 0 < digits \<and> get_byte after_prefix digits = Some (CHR '' ''))"

definition is_go_function :: "bytes \<Rightarrow> bool" where
  "is_go_function line \<longleftrightarrow> line \<noteq> [] \<and> \<not> first_is_whitespace line \<and> ends_with line '')''
     \<and> List.member line (CHR ''('') \<and> \<not> List.member line (CHR '' '')"

definition is_go_location :: "bytes \<Rightarrow> bool" where
  "is_go_location line \<longleftrightarrow>
     (if \<not> first_is_whitespace line then False else contains_bytes (trim_ascii_start line) ''.go:'')"

definition is_go_created_by :: "bytes \<Rightarrow> bool" where
  "is_go_created_by line \<longleftrightarrow> starts_with (trim_ascii_start line) ''created by ''"

definition is_compiler_strong_start :: "bytes \<Rightarrow> bool" where
  "is_compiler_strong_start line \<longleftrightarrow>
     starts_with line ''error['' \<or> starts_with line ''warning['' \<or> starts_with line ''fatal error C''"

definition is_compiler_generic_start :: "bytes \<Rightarrow> bool" where
  "is_compiler_generic_start line \<longleftrightarrow> starts_with line ''error:'' \<or> starts_with line ''warning:''"

definition is_compiler_structural_line :: "bytes \<Rightarrow> bool" where
  "is_compiler_structural_line line \<longleftrightarrow>
     (let trimmed = trim_ascii_start line in
      if list_ex (starts_with trimmed) [''-->'', '':::'', ''= note:'', ''= help:'', ''help:'', ''note:'', ''^''] then True
      else if starts_with trimmed ''|'' then True
      else let digits = leading_digits trimmed
        in 0 < digits \<and> starts_with (trim_ascii_start (drop digits trimmed)) ''|'')"

definition is_assertion_start :: "bytes \<Rightarrow> bool" where
  "is_assertion_start line \<longleftrightarrow>
     starts_with line ''AssertionError'' \<or> starts_with line ''AssertionFailedError''
     \<or> starts_with line ''org.opentest4j.AssertionFailedError'' \<or> starts_with line ''assertion failed:''
     \<or> (starts_with line ''assertion '' \<and> ends_with line '' failed'')"

definition is_assertion_detail :: "bytes \<Rightarrow> bool" where
  "is_assertion_detail line \<longleftrightarrow>
     (let trimmed = trim_ascii_start line in
      list_ex (starts_with trimmed) [''left:'', ''right:'', ''expected:'', ''actual:'', ''Expected:'', ''Actual:''])"

definition is_expected_diff_header :: "bytes \<Rightarrow> bool" where
  "is_expected_diff_header line \<longleftrightarrow> starts_with line ''--- expected'' \<or> starts_with line ''--- Expected''"

definition is_actual_diff_header :: "bytes \<Rightarrow> bool" where
  "is_actual_diff_header line \<longleftrightarrow> starts_with line ''+++ actual'' \<or> starts_with line ''+++ Actual''"

definition is_diff_continuation :: "bytes \<Rightarrow> bool" where
  "is_diff_continuation line \<longleftrightarrow> is_expected_diff_header line \<or> is_actual_diff_header line
     \<or> starts_with line ''@@ '' \<or> starts_with line ''+ '' \<or> starts_with line ''- ''
     \<or> starts_with line ''>'' \<or> starts_with line ''<''"

section \<open>Recognition state and continuations\<close>

datatype Family = Python | JvmDotNet | JavaScript | RustFamily | GoFamily | CompilerFamily | AssertionFamily

datatype PythonPhase = Traceback | Terminal | AwaitTraceback

datatype GoPhase = AwaitGoroutine | Frames

record RecognitionState =
  family :: Family
  depth :: nat
  python_phase :: PythonPhase
  go_phase :: GoPhase

abbreviation next_is :: "bytes option \<Rightarrow> (bytes \<Rightarrow> bool) \<Rightarrow> bool" where
  "next_is next_line P \<equiv> (case next_line of None \<Rightarrow> False | Some candidate \<Rightarrow> P candidate)"

definition deeper :: "RecognitionState \<Rightarrow> RecognitionState" where
  "deeper state = state\<lparr>depth := saturating_add_u16 (depth state) 1\<rparr>"

text \<open>A continuation returns the updated state when the line is accepted.\<close>

definition python_continuation :: "RecognitionState \<Rightarrow> bytes \<Rightarrow> bytes option \<Rightarrow> RecognitionState option" where
  "python_continuation state line next_line =
     (case python_phase state of
        Traceback \<Rightarrow>
          if is_python_frame line \<or> is_python_indented_detail line then Some state
          else if is_python_exception_terminal line then Some (state\<lparr>python_phase := Terminal\<rparr>)
          else if is_python_chain_separator line then Some ((deeper state)\<lparr>python_phase := AwaitTraceback\<rparr>)
          else if is_blank line \<and> next_is next_line (\<lambda>c. is_python_frame c \<or> is_python_exception_terminal c)
          then Some state else None
      | Terminal \<Rightarrow>
          if is_python_chain_separator line then Some ((deeper state)\<lparr>python_phase := AwaitTraceback\<rparr>)
          else if is_blank line \<and> next_is next_line is_python_chain_separator then Some state else None
      | AwaitTraceback \<Rightarrow>
          if is_python_traceback line then Some (state\<lparr>python_phase := Traceback\<rparr>)
          else if is_blank line \<and> next_is next_line is_python_traceback then Some state else None)"

definition jvm_dotnet_continuation :: "RecognitionState \<Rightarrow> bytes \<Rightarrow> bytes option \<Rightarrow> RecognitionState option" where
  "jvm_dotnet_continuation state line next_line =
     (if is_nested_cause line \<or> is_dotnet_inner_boundary line then Some (deeper state)
      else if is_stack_frame line \<or> is_elided_stack_frames line then Some state
      else if is_blank line
        \<and> next_is next_line (\<lambda>c. is_stack_frame c \<or> is_nested_cause c \<or> is_dotnet_inner_boundary c)
      then Some state else None)"

definition javascript_continuation :: "RecognitionState \<Rightarrow> bytes \<Rightarrow> bytes option \<Rightarrow> RecognitionState option" where
  "javascript_continuation state line next_line =
     (if is_nested_cause line then Some (deeper state)
      else if is_stack_frame line \<or> is_elided_stack_frames line then Some state
      else if is_blank line \<and> next_is next_line (\<lambda>c. is_stack_frame c \<or> is_nested_cause c)
      then Some state else None)"

definition rust_continuation :: "bytes \<Rightarrow> bytes option \<Rightarrow> bool" where
  "rust_continuation line next_line \<longleftrightarrow>
     is_rust_backtrace_marker line \<or> is_rust_frame line \<or> is_rust_panic_detail line
     \<or> (is_blank line \<and> next_is next_line (\<lambda>c. is_rust_backtrace_marker c \<or> is_rust_frame c))"

definition go_continuation :: "RecognitionState \<Rightarrow> bytes \<Rightarrow> bytes option \<Rightarrow> RecognitionState option" where
  "go_continuation state line next_line =
     (if is_go_goroutine line then Some ((deeper state)\<lparr>go_phase := Frames\<rparr>)
      else if go_phase state = Frames \<and> (is_go_function line \<or> is_go_location line \<or> is_go_created_by line)
      then Some state
      else if is_blank line \<and> next_is next_line is_go_goroutine then Some state else None)"

definition compiler_continuation :: "bytes \<Rightarrow> bytes option \<Rightarrow> bool" where
  "compiler_continuation line next_line \<longleftrightarrow>
     is_compiler_structural_line line \<or> (is_blank line \<and> next_is next_line is_compiler_structural_line)"

definition assertion_continuation :: "bytes \<Rightarrow> bytes option \<Rightarrow> bool" where
  "assertion_continuation line next_line \<longleftrightarrow>
     is_assertion_detail line \<or> is_diff_continuation line
     \<or> (is_blank line \<and> next_is next_line (\<lambda>c. is_assertion_detail c \<or> is_diff_continuation c))"

section \<open>Events\<close>

definition is_joinable_line :: "Event \<Rightarrow> bool" where
  "is_joinable_line e \<longleftrightarrow> record_is_complete (ev_record_state e)
     \<and> (case event_terminator e of None \<Rightarrow> False
        | Some t \<Rightarrow> t = [CHR 0x0A] \<or> t = [CHR 0x0D, CHR 0x0A] \<or> t = [CHR 0x0D] \<or> t = [])
     \<and> \<not> List.member (event_payload e) (CHR 0x0A) \<and> \<not> List.member (event_payload e) (CHR 0x0D)
     \<and> is_safe_ascii_line (event_payload e)"

definition is_provider_atomic :: "Event \<Rightarrow> bool" where
  "is_provider_atomic e \<longleftrightarrow> record_is_complete (ev_record_state e)
     \<and> (event_terminator e = None \<or> List.member (event_payload e) (CHR 0x0A) \<or> List.member (event_payload e) (CHR 0x0D))"

definition is_opaque_line :: "Event \<Rightarrow> bool" where
  "is_opaque_line e \<longleftrightarrow> \<not> is_safe_ascii_line (event_payload e)"

definition joinable_payload :: "Event option \<Rightarrow> bytes option" where
  "joinable_payload next = (case next of None \<Rightarrow> None | Some e \<Rightarrow> if is_joinable_line e then Some (event_payload e) else None)"

definition start_family :: "bytes \<Rightarrow> bytes option \<Rightarrow> Family option" where
  "start_family line next_line =
     (if is_python_traceback line then Some Python
      else if is_rust_panic_start line then Some RustFamily
      else if is_go_panic_start line then Some GoFamily
      else if is_compiler_strong_start line
        \<or> (is_compiler_generic_start line \<and> next_is next_line is_compiler_structural_line) then Some CompilerFamily
      else if is_assertion_start line
        \<or> (is_expected_diff_header line \<and> next_is next_line is_actual_diff_header) then Some AssertionFamily
      else if is_jvm_dotnet_explicit_start line
        \<or> (is_jvm_dotnet_exception_header line \<and> next_is next_line is_stack_frame) then Some JvmDotNet
      else if is_javascript_error_header line \<and> next_is next_line is_stack_frame then Some JavaScript
      else None)"

definition recognized_start :: "Event \<Rightarrow> Event option \<Rightarrow> RecognitionState option" where
  "recognized_start e next =
     (if \<not> is_joinable_line e then None
      else map_option (\<lambda>fam. \<lparr>family = fam, depth = 1, python_phase = Traceback, go_phase = AwaitGoroutine\<rparr>)
        (start_family (event_payload e) (joinable_payload next)))"

definition recognized_continuation :: "RecognitionState \<Rightarrow> Event \<Rightarrow> Event option \<Rightarrow> RecognitionState option" where
  "recognized_continuation state e next =
     (if \<not> is_joinable_line e then None
      else let line = event_payload e; next_line = joinable_payload next in
        case family state of
          Python \<Rightarrow> python_continuation state line next_line
        | JvmDotNet \<Rightarrow> jvm_dotnet_continuation state line next_line
        | JavaScript \<Rightarrow> javascript_continuation state line next_line
        | RustFamily \<Rightarrow> if rust_continuation line next_line then Some state else None
        | GoFamily \<Rightarrow> go_continuation state line next_line
        | CompilerFamily \<Rightarrow> if compiler_continuation line next_line then Some state else None
        | AssertionFamily \<Rightarrow> if assertion_continuation line next_line then Some state else None)"

definition looks_like_orphan_continuation :: "Event \<Rightarrow> bool" where
  "looks_like_orphan_continuation e \<longleftrightarrow>
     (if \<not> is_joinable_line e then False
      else let line = event_payload e in
        is_python_frame line \<or> is_python_indented_detail line \<or> is_python_chain_separator line
        \<or> is_stack_frame line \<or> is_nested_cause line \<or> is_elided_stack_frames line \<or> is_dotnet_inner_boundary line
        \<or> is_rust_backtrace_marker line \<or> is_rust_frame line \<or> is_go_goroutine line \<or> is_go_location line
        \<or> is_compiler_structural_line line \<or> is_diff_continuation line)"

end
