(* ===== verification/Block.thy ===== *)
theory Block
  imports Ledger_Sealed
begin

text \<open>
  Atomic event blocks (\<open>evidentrail-core/src/block.rs\<close>): proposed memberships, their reconciliation
  with a sealed ledger into one exhaustive partition, and the lookups of the resulting index.
  \<open>BlockPanic\<close> and \<open>BlockLookupPanic\<close> stand for an index out of range.
\<close>

section \<open>Proposals and blocks\<close>

datatype BlockState = ProviderAtomic | Reconstructed | Ambiguous | FallbackSingleton

datatype BlockConfidence = Certain | High | Medium | Low | UnknownConfidence

record BlockAssignment =
  ba_lane :: LaneKey
  ba_member_ids :: "EventId list"
  ba_member_lane_sequences :: "nat list"
  ba_framing_policy :: FramingPolicy
  ba_state :: BlockState
  ba_confidence :: BlockConfidence

definition new_same_lane_v1 ::
  "LaneKey \<Rightarrow> (EventId \<times> nat) list \<Rightarrow> FramingPolicy \<Rightarrow> BlockState \<Rightarrow> BlockConfidence \<Rightarrow> BlockAssignment" where
  "new_same_lane_v1 lane members policy state confidence =
     \<lparr>ba_lane = lane, ba_member_ids = map fst members, ba_member_lane_sequences = map snd members,
      ba_framing_policy = policy, ba_state = state, ba_confidence = confidence\<rparr>"

record EventBlock =
  eb_id :: BlockId
  eb_ordinal :: nat
  eb_lane :: LaneKey
  eb_member_ids :: "EventId list"
  eb_member_lane_sequences :: "nat list"
  eb_member_positions :: "nat list"
  eb_framing_policy :: FramingPolicy
  eb_state :: BlockState
  eb_confidence :: BlockConfidence

datatype BlockReconciliationError =
    EmptyAssignment nat | ForeignMember nat nat EventId | MemberLaneMismatch nat nat
  | MemberLaneSequenceMismatch nat nat | DuplicateMember nat nat EventId
  | ReversedMembers nat nat nat | ReversedLaneSequence nat nat nat
  | NonContiguousLaneSequence nat nat nat | DuplicateBlockAssignment nat nat BlockId
  | OverlappingMember nat nat EventId | MissingEvents "EventId list" | BlockIdCollision BlockId
  | BlockCountOverflow | BlockPanic

datatype BlockLookupError = UnknownBlock BlockId | UnknownBlockEvent EventId | BlockLookupPanic

record CandidateBlock =
  cb_id :: BlockId
  cb_lane :: LaneKey
  cb_member_ids :: "EventId list"
  cb_member_lane_sequences :: "nat list"
  cb_member_positions :: "nat list"
  cb_framing_policy :: FramingPolicy
  cb_state :: BlockState
  cb_confidence :: BlockConfidence

record SeenBlockIdentity =
  sb_assignment_index :: nat
  sb_lane :: LaneKey
  sb_member_ids :: "EventId list"
  sb_member_lane_sequences :: "nat list"
  sb_framing_policy :: FramingPolicy

record BlockIndex =
  bi_ledger :: EventLedger
  bi_blocks :: "EventBlock list"
  bi_block_positions :: "(BlockId, nat) btree_map"
  bi_event_block_positions :: "(EventId, nat) btree_map"

section \<open>Block identity\<close>

definition block_update_hash_field :: "bytes \<Rightarrow> bytes \<Rightarrow> bytes" where
  "block_update_hash_field hasher value = hasher @ u64_le_bytes (length value) @ value"

definition same_lane_block_id_v1 ::
  "(bytes \<Rightarrow> bytes) \<Rightarrow> RetrievalId \<Rightarrow> LaneKey \<Rightarrow> EventId list \<Rightarrow> nat list \<Rightarrow> FramingPolicy \<Rightarrow> BlockId" where
  "same_lane_block_id_v1 sha256 retrieval lane member_ids member_lane_sequences policy =
     (let membership_id = block_id sha256 retrieval member_ids policy;
          hasher = block_update_hash_field [] ''evidentrail/event-block/same-lane/v1'';
          hasher = block_update_hash_field hasher membership_id;
          hasher = block_update_hash_field hasher (fst lane);
          hasher = block_update_hash_field hasher (stream_code (snd lane));
          hasher = (case snd lane of
              OtherVersionedStream version code \<Rightarrow>
                block_update_hash_field (block_update_hash_field hasher (u16_le_bytes version)) (u16_le_bytes code)
            | _ \<Rightarrow> hasher)
      in sha256 (foldl (\<lambda>hasher lane_sequence. block_update_hash_field hasher (u64_le_bytes lane_sequence))
           hasher member_lane_sequences))"

definition assignment_block_id :: "(bytes \<Rightarrow> bytes) \<Rightarrow> EventLedger \<Rightarrow> BlockAssignment \<Rightarrow> BlockId" where
  "assignment_block_id sha256 l a = same_lane_block_id_v1 sha256 (el_retrieval_id l) (ba_lane a)
     (ba_member_ids a) (ba_member_lane_sequences a) (ba_framing_policy a)"

section \<open>Reconciliation\<close>

text \<open>The checks against the previous member's declared sequence.\<close>

definition check_sequence :: "nat \<Rightarrow> BlockAssignment \<Rightarrow> nat \<Rightarrow> (BlockReconciliationError, unit) result" where
  "check_sequence assignment_index a member_index =
     (if member_index = 0 then Inr ()
      else rbind (nth_or BlockPanic (ba_member_lane_sequences a) (member_index - 1)) (\<lambda>previous_sequence.
        rbind (nth_or BlockPanic (ba_member_lane_sequences a) member_index) (\<lambda>sequence.
        if sequence \<le> previous_sequence
        then Inl (ReversedLaneSequence assignment_index (member_index - 1) member_index)
        else if checked_add_u64 previous_sequence 1 \<noteq> Some sequence
        then Inl (NonContiguousLaneSequence assignment_index (member_index - 1) member_index)
        else Inr ())))"

definition member_step ::
  "EventLedger \<Rightarrow> nat \<Rightarrow> BlockAssignment \<Rightarrow> nat list \<times> nat set \<Rightarrow> nat \<times> EventId \<Rightarrow>
   (BlockReconciliationError, nat list \<times> nat set) result" where
  "member_step l assignment_index a state member =
     (case state of (positions, seen_member_positions) \<Rightarrow> case member of (member_index, eid) \<Rightarrow>
       rbind (check_sequence assignment_index a member_index) (\<lambda>_.
       rbind (ok_or (ForeignMember assignment_index member_index eid) (ledger_position l eid)) (\<lambda>position.
       if position \<in> seen_member_positions then Inl (DuplicateMember assignment_index member_index eid)
       else rbind (nth_or BlockPanic (el_events l) position) (\<lambda>e.
       if ev_lane e \<noteq> ba_lane a then Inl (MemberLaneMismatch assignment_index member_index)
       else rbind (nth_or BlockPanic (ba_member_lane_sequences a) member_index) (\<lambda>sequence.
       if ev_lane_sequence e \<noteq> sequence then Inl (MemberLaneSequenceMismatch assignment_index member_index)
       else if positions \<noteq> [] \<and> position < last positions
       then Inl (ReversedMembers assignment_index (member_index - 1) member_index)
       else Inr (positions @ [position], insert position seen_member_positions))))))"

definition overlap_step ::
  "nat \<Rightarrow> BlockAssignment \<Rightarrow> nat option list \<Rightarrow> unit \<Rightarrow> nat \<times> nat \<Rightarrow> (BlockReconciliationError, unit) result" where
  "overlap_step assignment_index a owners u member =
     (case member of (member_index, position) \<Rightarrow>
       rbind (nth_or BlockPanic owners position) (\<lambda>owner.
       case owner of
         None \<Rightarrow> Inr ()
       | Some first_assignment_index \<Rightarrow>
           rbind (nth_or BlockPanic (ba_member_ids a) member_index) (\<lambda>eid.
           Inl (OverlappingMember first_assignment_index assignment_index eid))))"

record ReconcileState =
  rs_owners :: "nat option list"
  rs_seen_ids :: "(BlockId, SeenBlockIdentity) btree_map"
  rs_candidates :: "CandidateBlock list"

definition same_identity :: "SeenBlockIdentity \<Rightarrow> BlockAssignment \<Rightarrow> bool" where
  "same_identity seen a \<longleftrightarrow> sb_lane seen = ba_lane a \<and> sb_member_ids seen = ba_member_ids a
     \<and> sb_member_lane_sequences seen = ba_member_lane_sequences a \<and> sb_framing_policy seen = ba_framing_policy a"

definition assignment_loop_step ::
  "(bytes \<Rightarrow> bytes) \<Rightarrow> EventLedger \<Rightarrow> ReconcileState \<Rightarrow> nat \<times> BlockAssignment \<Rightarrow>
   (BlockReconciliationError, ReconcileState) result" where
  "assignment_loop_step sha256 l s ia =
     (case ia of (assignment_index, a) \<Rightarrow>
       if ba_member_ids a = [] then Inl (EmptyAssignment assignment_index)
       else rbind (rfold (member_step l assignment_index a) ([], {}) (enumerate 0 (ba_member_ids a))) (\<lambda>(positions, seen).
       let bid = assignment_block_id sha256 l a in
       case map_of (rs_seen_ids s) bid of
         Some seen \<Rightarrow>
           if same_identity seen a
           then Inl (DuplicateBlockAssignment (sb_assignment_index seen) assignment_index bid)
           else Inl (BlockIdCollision bid)
       | None \<Rightarrow>
           rbind (rfold (overlap_step assignment_index a (rs_owners s)) () (enumerate 0 positions)) (\<lambda>_.
           Inr \<lparr>rs_owners = fold (\<lambda>position owners. owners[position := Some assignment_index]) positions (rs_owners s),
                rs_seen_ids = bt_insert bid \<lparr>sb_assignment_index = assignment_index, sb_lane = ba_lane a,
                  sb_member_ids = ba_member_ids a, sb_member_lane_sequences = ba_member_lane_sequences a,
                  sb_framing_policy = ba_framing_policy a\<rparr> (rs_seen_ids s),
                rs_candidates = rs_candidates s @ [\<lparr>cb_id = bid, cb_lane = ba_lane a, cb_member_ids = ba_member_ids a,
                  cb_member_lane_sequences = ba_member_lane_sequences a, cb_member_positions = positions,
                  cb_framing_policy = ba_framing_policy a, cb_state = ba_state a,
                  cb_confidence = ba_confidence a\<rparr>]\<rparr>)))"

definition seal_block_step ::
  "EventBlock list \<times> (BlockId, nat) btree_map \<times> (EventId, nat) btree_map \<Rightarrow> CandidateBlock \<Rightarrow>
   (BlockReconciliationError, EventBlock list \<times> (BlockId, nat) btree_map \<times> (EventId, nat) btree_map) result" where
  "seal_block_step state c =
     (case state of (blocks, block_positions, event_block_positions) \<Rightarrow>
       rbind (ok_or BlockCountOverflow (u64_try_from (length blocks))) (\<lambda>ordinal.
       Inr (blocks @ [\<lparr>eb_id = cb_id c, eb_ordinal = ordinal, eb_lane = cb_lane c, eb_member_ids = cb_member_ids c,
              eb_member_lane_sequences = cb_member_lane_sequences c, eb_member_positions = cb_member_positions c,
              eb_framing_policy = cb_framing_policy c, eb_state = cb_state c, eb_confidence = cb_confidence c\<rparr>],
            bt_insert (cb_id c) (length blocks) block_positions,
            fold (\<lambda>eid m. bt_insert eid (length blocks) m) (cb_member_ids c) event_block_positions)))"

definition missing_events :: "EventLedger \<Rightarrow> nat option list \<Rightarrow> EventId list" where
  "missing_events l owners = map (\<lambda>(position, e). ev_id e) (filter (\<lambda>(position, e). owners ! position = None) (enumerate 0 (el_events l)))"

definition BlockIndex_reconcile ::
  "(bytes \<Rightarrow> bytes) \<Rightarrow> EventLedger \<Rightarrow> BlockAssignment list \<Rightarrow> (BlockReconciliationError, BlockIndex) result" where
  "BlockIndex_reconcile sha256 l assignments =
     rbind (rfold (assignment_loop_step sha256 l)
         \<lparr>rs_owners = replicate (length (el_events l)) None, rs_seen_ids = [], rs_candidates = []\<rparr>
         (enumerate 0 assignments)) (\<lambda>s.
     let missing = missing_events l (rs_owners s) in
     if missing \<noteq> [] then Inl (MissingEvents missing)
     else rbind (rfold seal_block_step ([], [], []) (sort_key (\<lambda>c. hd (cb_member_positions c)) (rs_candidates s)))
       (\<lambda>(blocks, block_positions, event_block_positions).
       Inr \<lparr>bi_ledger = l, bi_blocks = blocks, bi_block_positions = block_positions,
            bi_event_block_positions = event_block_positions\<rparr>))"

section \<open>Lookups\<close>

definition block :: "BlockIndex \<Rightarrow> BlockId \<Rightarrow> (BlockLookupError, EventBlock) result" where
  "block i bid = rbind (ok_or (UnknownBlock bid) (map_of (bi_block_positions i) bid)) (nth_or BlockLookupPanic (bi_blocks i))"

definition block_for_event :: "BlockIndex \<Rightarrow> EventId \<Rightarrow> (BlockLookupError, EventBlock) result" where
  "block_for_event i eid =
     rbind (ok_or (UnknownBlockEvent eid) (map_of (bi_event_block_positions i) eid)) (nth_or BlockLookupPanic (bi_blocks i))"

record BlockExpansion =
  be_block :: EventBlock
  be_events :: "Event list"

definition expansion :: "BlockIndex \<Rightarrow> EventBlock \<Rightarrow> (BlockLookupError, BlockExpansion) result" where
  "expansion i b =
     rbind (rfold (\<lambda>events p. rbind (nth_or BlockLookupPanic (el_events (bi_ledger i)) p) (\<lambda>e. Inr (events @ [e]))) []
         (eb_member_positions b))
       (\<lambda>events. Inr \<lparr>be_block = b, be_events = events\<rparr>)"

definition expand_block :: "BlockIndex \<Rightarrow> BlockId \<Rightarrow> (BlockLookupError, BlockExpansion) result" where
  "expand_block i bid = rbind (block i bid) (expansion i)"

definition expand_event :: "BlockIndex \<Rightarrow> EventId \<Rightarrow> (BlockLookupError, BlockExpansion) result" where
  "expand_event i eid = rbind (block_for_event i eid) (expansion i)"

definition expansion_exact_bytes :: "BlockExpansion \<Rightarrow> bytes" where
  "expansion_exact_bytes x = fold (\<lambda>e bytes. bytes @ ev_raw e) (be_events x) []"

end
