(* ===== verification/Framing.thy ===== *)
theory Framing
  imports Classify Block
begin

text \<open>
  The source-lane framer (\<open>evidentrail-framing/src/framer.rs\<close>): the scan of one lane into blocks
  and the framing of a sealed ledger.
\<close>

definition FRAMING_POLICY_NAME_V1 :: bytes where
  "FRAMING_POLICY_NAME_V1 = ''evidentrail/source-lane-atomic-framer''"

definition FRAMING_POLICY_VERSION_V1 :: bytes where
  "FRAMING_POLICY_VERSION_V1 = ''1''"

definition MAX_RECONSTRUCTED_BLOCK_LINES_V1 :: nat where "MAX_RECONSTRUCTED_BLOCK_LINES_V1 = 256"
definition MAX_RECONSTRUCTED_BLOCK_BYTES_V1 :: nat where "MAX_RECONSTRUCTED_BLOCK_BYTES_V1 = 1024 * 1024"
definition MAX_RECONSTRUCTED_STATE_DEPTH_V1 :: nat where "MAX_RECONSTRUCTED_STATE_DEPTH_V1 = 32"
definition MAX_CONTINUATION_GAP_NANOS_V1 :: nat where "MAX_CONTINUATION_GAP_NANOS_V1 = 30000000000"

definition source_lane_framing_policy_v1 :: FramingPolicy where
  "source_lane_framing_policy_v1 = \<lparr>framing_policy = FRAMING_POLICY_NAME_V1, framing_version = FRAMING_POLICY_VERSION_V1\<rparr>"

datatype SourceLaneFramingError = BlockByteCountOverflow | Reconciliation BlockReconciliationError

section \<open>Time and lookahead\<close>

datatype MonotonicRelation = WithinBound | Unavailable | Boundary

definition monotonic_relation :: "Event \<Rightarrow> Event \<Rightarrow> MonotonicRelation" where
  "monotonic_relation previous next =
     (if checked_add_u64 (ev_lane_sequence previous) 1 \<noteq> Some (ev_lane_sequence next) then Boundary
      else case adapter_monotonic_time (ev_timestamps previous) of
        None \<Rightarrow> Unavailable
      | Some previous_time \<Rightarrow>
          (case adapter_monotonic_time (ev_timestamps next) of
             None \<Rightarrow> Unavailable
           | Some next_time \<Rightarrow>
               if previous_time \<le> next_time \<and> next_time - previous_time \<le> MAX_CONTINUATION_GAP_NANOS_V1
               then WithinBound else Boundary))"

definition get_event :: "Event list \<Rightarrow> nat \<Rightarrow> Event option" where
  "get_event events i = (if i < length events then Some (events ! i) else None)"

definition eligible_lookahead :: "RecognitionState \<Rightarrow> nat \<Rightarrow> nat \<Rightarrow> nat \<Rightarrow> Event list \<Rightarrow> Event option" where
  "eligible_lookahead recognition current_bytes start candidate_index events =
     Option.bind (get_event events candidate_index) (\<lambda>candidate.
     Option.bind (checked_add_u64 candidate_index 1) (\<lambda>lookahead_index.
     Option.bind (get_event events lookahead_index) (\<lambda>lookahead.
     Option.bind (if start \<le> candidate_index then checked_add_u64 (candidate_index - start) 2 else None) (\<lambda>lines.
     if MAX_RECONSTRUCTED_BLOCK_LINES_V1 < lines \<or> monotonic_relation candidate lookahead = Boundary then None
     else Option.bind (checked_add_u64 current_bytes (length (ev_raw candidate))) (\<lambda>bytes_with_candidate.
     Option.bind (checked_add_u64 bytes_with_candidate (length (ev_raw lookahead))) (\<lambda>bytes_with_lookahead.
     if MAX_RECONSTRUCTED_BLOCK_BYTES_V1 < bytes_with_lookahead then None
     else Option.bind (recognized_continuation recognition lookahead None) (\<lambda>continuation.
     if depth continuation \<le> MAX_RECONSTRUCTED_STATE_DEPTH_V1 then Some lookahead else None)))))))"

definition singleton_classification :: "Event \<Rightarrow> Event option \<Rightarrow> BlockState \<times> BlockConfidence" where
  "singleton_classification e next =
     (if \<not> record_is_complete (ev_record_state e) then (Ambiguous, UnknownConfidence)
      else if is_provider_atomic e then (ProviderAtomic, Certain)
      else if recognized_start e next \<noteq> None \<or> looks_like_orphan_continuation e then (Ambiguous, Low)
      else if is_opaque_line e \<or> \<not> is_joinable_line e then (FallbackSingleton, UnknownConfidence)
      else (FallbackSingleton, Certain))"

section \<open>The scan of a lane\<close>

text \<open>
  The inner loop: how far the block that starts at \<open>index\<close> reaches, whether a cap ended it and
  whether some gap could not be timed.
\<close>

function extend_block ::
  "Event list \<Rightarrow> nat \<Rightarrow> RecognitionState \<Rightarrow> nat \<Rightarrow> bool \<Rightarrow> bool \<Rightarrow> nat \<Rightarrow>
   (SourceLaneFramingError, nat \<times> bool \<times> bool) result" where
  "extend_block events index recognition bytes terminated_by_cap timing_uncertain end =
     (if terminated_by_cap \<or> length events \<le> end then Inr (end, terminated_by_cap, timing_uncertain)
      else let candidate = events ! end; relation = monotonic_relation (events ! (end - 1)) candidate in
      if relation = Boundary then Inr (end, terminated_by_cap, timing_uncertain)
      else let timing_uncertain = timing_uncertain \<or> relation = Unavailable;
               candidate_next = eligible_lookahead recognition bytes index end events in
      case recognized_continuation recognition candidate candidate_next of
        None \<Rightarrow> Inr (end, terminated_by_cap, timing_uncertain)
      | Some continuation \<Rightarrow>
          if MAX_RECONSTRUCTED_STATE_DEPTH_V1 < depth continuation \<or> MAX_RECONSTRUCTED_BLOCK_LINES_V1 \<le> end - index
          then Inr (end, True, timing_uncertain)
          else case checked_add_u64 bytes (length (ev_raw candidate)) of
            None \<Rightarrow> Inl BlockByteCountOverflow
          | Some next_bytes \<Rightarrow>
              if MAX_RECONSTRUCTED_BLOCK_BYTES_V1 < next_bytes then Inr (end, True, timing_uncertain)
              else extend_block events index continuation next_bytes terminated_by_cap timing_uncertain (end + 1))"
  by pat_completeness auto
termination
  by (relation "measure (\<lambda>(events, _, _, _, _, _, end). length events - end)") auto

declare extend_block.simps [simp del]

definition assignment :: "LaneKey \<Rightarrow> Event list \<Rightarrow> FramingPolicy \<Rightarrow> BlockState \<Rightarrow> BlockConfidence \<Rightarrow> BlockAssignment" where
  "assignment lane events policy state confidence =
     new_same_lane_v1 lane (map (\<lambda>e. (ev_id e, ev_lane_sequence e)) events) policy state confidence"

text \<open>\<open>events[from..to]\<close>\<close>

definition slice :: "'a list \<Rightarrow> nat \<Rightarrow> nat \<Rightarrow> 'a list" where
  "slice xs from to = take (to - from) (drop from xs)"

definition reconstruct :: "Event list \<Rightarrow> nat \<Rightarrow> (SourceLaneFramingError, (nat \<times> bool \<times> bool) option) result" where
  "reconstruct events index =
     (case recognized_start (events ! index) (get_event events (index + 1)) of
        None \<Rightarrow> Inr None
      | Some recognition \<Rightarrow>
          let bytes = length (ev_raw (events ! index)) in
          rbind (extend_block events index recognition bytes (MAX_RECONSTRUCTED_BLOCK_BYTES_V1 < bytes) False (index + 1))
            (\<lambda>outcome. Inr (Some outcome)))"

definition singleton_assignment :: "LaneKey \<Rightarrow> Event list \<Rightarrow> FramingPolicy \<Rightarrow> nat \<Rightarrow> BlockAssignment" where
  "singleton_assignment lane events policy index =
     (case singleton_classification (events ! index) (get_event events (index + 1)) of (state, confidence) \<Rightarrow>
        assignment lane (slice events index (index + 1)) policy state confidence)"

definition block_confidence :: "bool \<Rightarrow> bool \<Rightarrow> BlockConfidence" where
  "block_confidence terminated_by_cap timing_uncertain = (if terminated_by_cap \<or> timing_uncertain then Medium else High)"

function frame_lane_from ::
  "LaneKey \<Rightarrow> Event list \<Rightarrow> FramingPolicy \<Rightarrow> BlockAssignment list \<Rightarrow> nat \<Rightarrow>
   (SourceLaneFramingError, BlockAssignment list) result" where
  "frame_lane_from lane events policy assignments index =
     (if length events \<le> index then Inr assignments
      else rbind (reconstruct events index) (\<lambda>r.
        case r of
          None \<Rightarrow> frame_lane_from lane events policy (assignments @ [singleton_assignment lane events policy index]) (index + 1)
        | Some (end, terminated_by_cap, timing_uncertain) \<Rightarrow>
            if index + 1 < end
            then frame_lane_from lane events policy
              (assignments @ [assignment lane (slice events index end) policy Reconstructed
                 (block_confidence terminated_by_cap timing_uncertain)]) end
            else frame_lane_from lane events policy
              (assignments @ [singleton_assignment lane events policy index]) (index + 1)))"
  by pat_completeness auto
termination
  by (relation "measure (\<lambda>(_, events, _, _, index). length events - index)") auto

declare frame_lane_from.simps [simp del]

definition frame_lane ::
  "LaneKey \<Rightarrow> Event list \<Rightarrow> FramingPolicy \<Rightarrow> BlockAssignment list \<Rightarrow> (SourceLaneFramingError, BlockAssignment list) result" where
  "frame_lane lane events policy assignments = frame_lane_from lane events policy assignments 0"

section \<open>Framing a ledger\<close>

definition push_lane_event :: "Event \<Rightarrow> (LaneKey, Event list) btree_map \<Rightarrow> (LaneKey, Event list) btree_map" where
  "push_lane_event e m =
     bt_insert (ev_lane e) ((case map_of m (ev_lane e) of None \<Rightarrow> [] | Some es \<Rightarrow> es) @ [e]) m"

definition source_lanes :: "Event list \<Rightarrow> (LaneKey, Event list) btree_map" where
  "source_lanes events = fold push_lane_event events []"

definition lane_assignments :: "EventLedger \<Rightarrow> (SourceLaneFramingError, BlockAssignment list) result" where
  "lane_assignments l =
     rfold (\<lambda>assignments (lane, events). frame_lane lane events source_lane_framing_policy_v1 assignments) []
       (source_lanes (el_events l))"

definition frame_source_lanes_v1 ::
  "(bytes \<Rightarrow> bytes) \<Rightarrow> EventLedger \<Rightarrow> (SourceLaneFramingError, BlockIndex) result" where
  "frame_source_lanes_v1 sha256 l =
     rbind (lane_assignments l) (\<lambda>assignments. map_err Reconciliation (BlockIndex_reconcile sha256 l assignments))"

end
