(* ===== verification/Block_Partition.thy ===== *)
theory Block_Partition
  imports Block
begin

text \<open>
  Reconciliation accepts exactly the proposals that partition the ledger into non-empty, contiguous
  runs of one lane, and the index it builds answers every lookup.
\<close>

section \<open>Members of one proposal\<close>

definition member_at :: "EventLedger \<Rightarrow> BlockAssignment \<Rightarrow> nat \<Rightarrow> nat \<Rightarrow> bool" where
  "member_at l a k p \<longleftrightarrow> ledger_position l (ba_member_ids a ! k) = Some p
     \<and> ev_lane (el_events l ! p) = ba_lane a \<and> ev_lane_sequence (el_events l ! p) = ba_member_lane_sequences a ! k
     \<and> (0 < k \<longrightarrow> ba_member_lane_sequences a ! k = Suc (ba_member_lane_sequences a ! (k - 1))
          \<and> ba_member_lane_sequences a ! k \<le> u64_max)"

definition members_upto :: "EventLedger \<Rightarrow> BlockAssignment \<Rightarrow> nat \<Rightarrow> nat list \<Rightarrow> bool" where
  "members_upto l a n ps \<longleftrightarrow> length ps = n \<and> sorted_wrt (<) ps \<and> (\<forall>k < n. member_at l a k (ps ! k))"

definition members_ok :: "EventLedger \<Rightarrow> BlockAssignment \<Rightarrow> nat list \<Rightarrow> bool" where
  "members_ok l a ps \<longleftrightarrow> members_upto l a (length (ba_member_ids a)) ps"

text \<open>What the only constructor of proposals establishes.\<close>

definition assignment_shape :: "BlockAssignment \<Rightarrow> bool" where
  "assignment_shape a \<longleftrightarrow> length (ba_member_lane_sequences a) = length (ba_member_ids a)"

lemma assignment_shape_new [simp]: "assignment_shape (new_same_lane_v1 lane members policy state confidence)"
  by (simp add: assignment_shape_def new_same_lane_v1_def)

lemma sorted_wrt_snoc_last:
  fixes p :: nat
  shows "sorted_wrt (<) (ps @ [p]) \<longleftrightarrow> sorted_wrt (<) ps \<and> (ps = [] \<or> last ps < p)"
proof (cases ps rule: rev_cases)
  case (snoc qs q)
  then show ?thesis by (auto simp: sorted_wrt_append)
qed simp

lemma members_upto_Suc:
  "members_upto l a (Suc n) qs \<longleftrightarrow> (\<exists>ps p. qs = ps @ [p] \<and> members_upto l a n ps \<and> member_at l a n p \<and> (ps = [] \<or> last ps < p))"
proof (cases qs rule: rev_cases)
  case Nil
  then show ?thesis by (auto simp: members_upto_def)
next
  case (snoc ps p)
  show ?thesis
    unfolding members_upto_def snoc sorted_wrt_snoc_last
    by (auto simp: nth_append less_Suc_eq)
qed

lemma check_sequence_Inr:
  "n < length (ba_member_lane_sequences a) \<Longrightarrow> check_sequence ai a n = Inr () \<longleftrightarrow>
     (0 < n \<longrightarrow> ba_member_lane_sequences a ! n = Suc (ba_member_lane_sequences a ! (n - 1))
        \<and> ba_member_lane_sequences a ! n \<le> u64_max)"
  by (auto simp: check_sequence_def checked_add_u64_def)

lemma member_step_Inr:
  assumes ok: "ledger_ok l" and n: "n < length (ba_member_ids a)" "assignment_shape a" and S: "S = set ps"
    and sorted: "sorted_wrt (<) ps"
  shows "member_step l ai a (ps, S) (n, ba_member_ids a ! n) = Inr st \<longleftrightarrow>
    (\<exists>p. st = (ps @ [p], insert p S) \<and> member_at l a n p \<and> (ps = [] \<or> last ps < p))"
proof -
  have range: "ledger_position l eid = Some p \<Longrightarrow> p < length (el_events l)" for eid p
    using ledger_index.pos_iff [OF ok] by blast
  have n': "n < length (ba_member_lane_sequences a)" using n by (simp add: assignment_shape_def)
  have last: "(p \<notin> S \<and> \<not> (ps \<noteq> [] \<and> p < last ps)) \<longleftrightarrow> (ps = [] \<or> last ps < p)" for p
    using sorted S by (cases ps rule: rev_cases) (auto simp: sorted_wrt_append)
  show ?thesis
  proof (cases "check_sequence ai a n")
    case (Inl err)
    then have "check_sequence ai a n \<noteq> Inr ()" by simp
    then have "\<not> member_at l a n p" for p using check_sequence_Inr [OF n'] by (auto simp: member_at_def)
    then show ?thesis using Inl by (simp add: member_step_def)
  next
    case (Inr u)
    then have check: "check_sequence ai a n = Inr ()" by simp
    show ?thesis
    proof (cases "ledger_position l (ba_member_ids a ! n)")
      case None
      then show ?thesis using check by (simp add: member_step_def member_at_def)
    next
      case (Some p)
      have at: "member_at l a n q \<longleftrightarrow> q = p \<and> ev_lane (el_events l ! p) = ba_lane a
          \<and> ev_lane_sequence (el_events l ! p) = ba_member_lane_sequences a ! n" for q
        using check check_sequence_Inr [OF n'] Some by (auto simp: member_at_def)
      have "member_step l ai a (ps, S) (n, ba_member_ids a ! n) =
          (if p \<in> S then Inl (DuplicateMember ai n (ba_member_ids a ! n))
           else if ev_lane (el_events l ! p) \<noteq> ba_lane a then Inl (MemberLaneMismatch ai n)
           else if ev_lane_sequence (el_events l ! p) \<noteq> ba_member_lane_sequences a ! n
           then Inl (MemberLaneSequenceMismatch ai n)
           else if ps \<noteq> [] \<and> p < last ps then Inl (ReversedMembers ai (n - 1) n)
           else Inr (ps @ [p], insert p S))"
        using check Some range [OF Some] n' by (simp add: member_step_def)
      also have "\<dots> = Inr st \<longleftrightarrow> (p \<notin> S \<and> \<not> (ps \<noteq> [] \<and> p < last ps)) \<and> ev_lane (el_events l ! p) = ba_lane a
          \<and> ev_lane_sequence (el_events l ! p) = ba_member_lane_sequences a ! n \<and> st = (ps @ [p], insert p S)"
        by (simp split: if_split) blast
      finally show ?thesis unfolding last at by blast
    qed
  qed
qed

lemma members_loop:
  assumes ok: "ledger_ok l" and shape: "assignment_shape a" and n: "n \<le> length (ba_member_ids a)"
  shows "rfold (member_step l ai a) ([], {}) (take n (enumerate 0 (ba_member_ids a))) = Inr st \<longleftrightarrow>
    (\<exists>ps. members_upto l a n ps \<and> st = (ps, set ps))"
  using n
proof (induction n arbitrary: st)
  case 0
  then show ?case by (auto simp: members_upto_def)
next
  case (Suc n)
  have split: "take (Suc n) (enumerate 0 (ba_member_ids a)) = take n (enumerate 0 (ba_member_ids a)) @ [(n, ba_member_ids a ! n)]"
    using Suc.prems by (simp add: take_Suc_conv_app_nth nth_enumerate_eq)
  have "rfold (member_step l ai a) ([], {}) (take (Suc n) (enumerate 0 (ba_member_ids a))) = Inr st \<longleftrightarrow>
      (\<exists>ps. members_upto l a n ps \<and> member_step l ai a (ps, set ps) (n, ba_member_ids a ! n) = Inr st)"
    using Suc by (simp add: split rfold_append result_simps) (metis surj_pair)
  also have "\<dots> \<longleftrightarrow> (\<exists>ps p. members_upto l a n ps \<and> st = (ps @ [p], insert p (set ps)) \<and> member_at l a n p
      \<and> (ps = [] \<or> last ps < p))"
  proof -
    have "member_step l ai a (ps, set ps) (n, ba_member_ids a ! n) = Inr st \<longleftrightarrow>
        (\<exists>p. st = (ps @ [p], insert p (set ps)) \<and> member_at l a n p \<and> (ps = [] \<or> last ps < p))"
      if "members_upto l a n ps" for ps
      using that Suc.prems by (intro member_step_Inr [OF ok _ shape refl]) (simp_all add: members_upto_def)
    then show ?thesis by blast
  qed
  also have "\<dots> \<longleftrightarrow> (\<exists>qs. members_upto l a (Suc n) qs \<and> st = (qs, set qs))"
    by (auto simp: members_upto_Suc)
  finally show ?case .
qed

lemma members_loop_all:
  assumes "ledger_ok l" and "assignment_shape a"
  shows "rfold (member_step l ai a) ([], {}) (enumerate 0 (ba_member_ids a)) = Inr st \<longleftrightarrow>
    (\<exists>ps. members_ok l a ps \<and> st = (ps, set ps))"
  using members_loop [OF assms order_refl, of ai st] by (simp add: members_ok_def)

lemma members_ok_unique: "members_ok l a ps \<Longrightarrow> members_ok l a qs \<Longrightarrow> ps = qs"
  by (auto simp: members_ok_def members_upto_def member_at_def intro!: nth_equalityI)

lemma members_lists_unique:
  "list_all2 (members_ok l) as pss \<Longrightarrow> list_all2 (members_ok l) as qss \<Longrightarrow> pss = qss"
  unfolding list_all2_conv_all_nth by (rule nth_equalityI) (simp, metis members_ok_unique)

lemma members_ok_range:
  assumes "ledger_ok l" and "members_ok l a ps" and "p \<in> set ps"
  shows "p < length (el_events l)"
proof -
  obtain k where "k < length (ba_member_ids a)" "ps ! k = p"
    using assms(2,3) by (auto simp: members_ok_def members_upto_def in_set_conv_nth)
  then have "ledger_position l (ba_member_ids a ! k) = Some p"
    using assms(2) by (auto simp: members_ok_def members_upto_def member_at_def)
  then show ?thesis using ledger_index.pos_iff [OF assms(1)] by blast
qed

lemma members_ok_ids:
  assumes "ledger_ok l" and "members_ok l a ps"
  shows "map (\<lambda>p. ev_id (el_events l ! p)) ps = ba_member_ids a"
proof (rule nth_equalityI)
  fix k assume "k < length (map (\<lambda>p. ev_id (el_events l ! p)) ps)"
  then have "ledger_position l (ba_member_ids a ! k) = Some (ps ! k)" "k < length ps"
    using assms(2) by (auto simp: members_ok_def members_upto_def member_at_def)
  then show "map (\<lambda>p. ev_id (el_events l ! p)) ps ! k = ba_member_ids a ! k"
    using ledger_index.pos_iff [OF assms(1)] by simp
qed (use assms(2) in \<open>simp add: members_ok_def members_upto_def\<close>)

section \<open>The loop over the proposals\<close>

lemma overlap_loop:
  assumes "\<forall>p \<in> set ps. p < length owners" and "m + length ps \<le> length (ba_member_ids a)"
  shows "rfold (overlap_step ai a owners) () (enumerate m ps) = Inr () \<longleftrightarrow> (\<forall>p \<in> set ps. owners ! p = None)"
  using assms
proof (induction ps arbitrary: m)
  case (Cons p ps)
  have "overlap_step ai a owners () (m, p) = Inr () \<longleftrightarrow> owners ! p = None"
    using Cons.prems by (auto simp: overlap_step_def split: option.split)
  then show ?case using Cons by (auto simp: result_simps)
qed simp

lemma set_owners:
  "q < length owners \<Longrightarrow> fold (\<lambda>p owners. owners[p := Some ai]) ps owners ! q =
     (if q \<in> set ps then Some ai else owners ! q)"
  by (induction ps arbitrary: owners) (auto simp: nth_list_update)

lemma length_set_owners [simp]: "length (fold (\<lambda>p owners. owners[p := Some ai]) ps owners) = length owners"
  by (induction ps arbitrary: owners) auto

definition candidate_of :: "(bytes \<Rightarrow> bytes) \<Rightarrow> EventLedger \<Rightarrow> BlockAssignment \<Rightarrow> nat list \<Rightarrow> CandidateBlock" where
  "candidate_of sha256 l a ps = \<lparr>cb_id = assignment_block_id sha256 l a, cb_lane = ba_lane a,
     cb_member_ids = ba_member_ids a, cb_member_lane_sequences = ba_member_lane_sequences a,
     cb_member_positions = ps, cb_framing_policy = ba_framing_policy a, cb_state = ba_state a,
     cb_confidence = ba_confidence a\<rparr>"

text \<open>A family of position lists for the proposals: valid, non-empty, disjoint, distinct identities.\<close>

definition placed :: "(bytes \<Rightarrow> bytes) \<Rightarrow> EventLedger \<Rightarrow> BlockAssignment list \<Rightarrow> nat list list \<Rightarrow> bool" where
  "placed sha256 l as pss \<longleftrightarrow> list_all2 (members_ok l) as pss \<and> (\<forall>a \<in> set as. ba_member_ids a \<noteq> [])
     \<and> distinct (concat pss) \<and> distinct (map (assignment_block_id sha256 l) as)"

definition loop_state ::
  "(bytes \<Rightarrow> bytes) \<Rightarrow> EventLedger \<Rightarrow> BlockAssignment list \<Rightarrow> nat list list \<Rightarrow> ReconcileState \<Rightarrow> bool" where
  "loop_state sha256 l as pss s \<longleftrightarrow> length (rs_owners s) = length (el_events l)
     \<and> (\<forall>p < length (el_events l). rs_owners s ! p = None \<longleftrightarrow> p \<notin> set (concat pss))
     \<and> dom (map_of (rs_seen_ids s)) = assignment_block_id sha256 l ` set as
     \<and> (\<forall>bid seen. map_of (rs_seen_ids s) bid = Some seen \<longrightarrow> (\<exists>a \<in> set as. same_identity seen a))
     \<and> rs_candidates s = map2 (candidate_of sha256 l) as pss"

lemma placed_snoc:
  assumes "length as = length pss"
  shows "placed sha256 l (as @ [a]) (pss @ [ps]) \<longleftrightarrow> placed sha256 l as pss \<and> members_ok l a ps \<and> ba_member_ids a \<noteq> []
    \<and> distinct ps \<and> set (concat pss) \<inter> set ps = {} \<and> assignment_block_id sha256 l a \<notin> assignment_block_id sha256 l ` set as"
  using assms by (auto simp: placed_def list_all2_append)

lemma members_ok_distinct: "members_ok l a ps \<Longrightarrow> distinct ps"
  by (simp add: members_ok_def members_upto_def strict_sorted_iff)

definition next_state :: "(bytes \<Rightarrow> bytes) \<Rightarrow> EventLedger \<Rightarrow> ReconcileState \<Rightarrow> nat \<Rightarrow> BlockAssignment \<Rightarrow> nat list \<Rightarrow> ReconcileState" where
  "next_state sha256 l s ai a ps =
     \<lparr>rs_owners = fold (\<lambda>p owners. owners[p := Some ai]) ps (rs_owners s),
      rs_seen_ids = bt_insert (assignment_block_id sha256 l a) \<lparr>sb_assignment_index = ai, sb_lane = ba_lane a,
        sb_member_ids = ba_member_ids a, sb_member_lane_sequences = ba_member_lane_sequences a,
        sb_framing_policy = ba_framing_policy a\<rparr> (rs_seen_ids s),
      rs_candidates = rs_candidates s @ [candidate_of sha256 l a ps]\<rparr>"

lemma assignment_loop_step_Inr:
  assumes ok: "ledger_ok l" and shape: "assignment_shape a" and len: "length (rs_owners s) = length (el_events l)"
  shows "assignment_loop_step sha256 l s (ai, a) = Inr s' \<longleftrightarrow>
    (\<exists>ps. members_ok l a ps \<and> ba_member_ids a \<noteq> [] \<and> map_of (rs_seen_ids s) (assignment_block_id sha256 l a) = None
       \<and> (\<forall>p \<in> set ps. rs_owners s ! p = None) \<and> s' = next_state sha256 l s ai a ps)"
proof -
  let ?bid = "assignment_block_id sha256 l a"
  have overlap: "rfold (overlap_step ai a (rs_owners s)) () (enumerate 0 ps) = Inr u \<longleftrightarrow> (\<forall>p \<in> set ps. rs_owners s ! p = None)"
    if "members_ok l a ps" for ps u
    using members_ok_range [OF ok that] that len overlap_loop [of ps "rs_owners s" 0 a ai]
    by (simp add: members_ok_def members_upto_def)
  show ?thesis
  proof (cases "map_of (rs_seen_ids s) ?bid")
    case None
    then show ?thesis
      by (auto simp: assignment_loop_step_def result_simps members_loop_all [OF ok shape] overlap next_state_def
          candidate_of_def Let_def)
  next
    case (Some seen)
    then show ?thesis
      by (auto simp: assignment_loop_step_def result_simps members_loop_all [OF ok shape] Let_def)
  qed
qed

lemma loop_state_length: "loop_state sha256 l as pss s \<Longrightarrow> length (rs_owners s) = length (el_events l)"
  by (simp add: loop_state_def)

lemma loop_state_next:
  assumes "loop_state sha256 l as pss s" and "length as = length pss"
  shows "loop_state sha256 l (as @ [a]) (pss @ [ps]) (next_state sha256 l s ai a ps)"
  using assms by (auto simp: loop_state_def next_state_def set_owners same_identity_def)

lemma loop_free:
  assumes "ledger_ok l" and "loop_state sha256 l as pss s" and "members_ok l a ps"
  shows "(\<forall>p \<in> set ps. rs_owners s ! p = None) \<longleftrightarrow> set (concat pss) \<inter> set ps = {}"
  using assms(2) members_ok_range [OF assms(1,3)] by (fastforce simp: loop_state_def)

lemma loop_fresh:
  "loop_state sha256 l as pss s \<Longrightarrow> map_of (rs_seen_ids s) (assignment_block_id sha256 l a) = None \<longleftrightarrow>
     assignment_block_id sha256 l a \<notin> assignment_block_id sha256 l ` set as"
  by (metis domIff loop_state_def)

text \<open>The loop succeeds exactly when the proposals can be placed.\<close>

lemma assignments_loop:
  assumes ok: "ledger_ok l" and shape: "\<forall>a \<in> set as. assignment_shape a"
  shows "rfold (assignment_loop_step sha256 l) \<lparr>rs_owners = replicate (length (el_events l)) None, rs_seen_ids = [], rs_candidates = []\<rparr>
      (enumerate 0 as) = Inr s \<Longrightarrow> \<exists>pss. placed sha256 l as pss \<and> loop_state sha256 l as pss s"
    and "placed sha256 l as pss \<Longrightarrow> \<exists>s. rfold (assignment_loop_step sha256 l)
      \<lparr>rs_owners = replicate (length (el_events l)) None, rs_seen_ids = [], rs_candidates = []\<rparr> (enumerate 0 as) = Inr s
      \<and> loop_state sha256 l as pss s"
  using shape
proof (induction as arbitrary: s pss rule: rev_induct)
  case Nil
  {
    case 1
    then show ?case by (auto simp: placed_def loop_state_def)
  next
    case 2
    then show ?case by (simp add: placed_def loop_state_def)
  }
next
  case (snoc a as)
  let ?init = "\<lparr>rs_owners = replicate (length (el_events l)) None, rs_seen_ids = [], rs_candidates = []\<rparr>"
  {
    case 1
    then obtain t where t: "rfold (assignment_loop_step sha256 l) ?init (enumerate 0 as) = Inr t"
      and step: "assignment_loop_step sha256 l t (length as, a) = Inr s"
      by (auto simp: enumerate_snoc rfold_append result_simps)
    from snoc.IH(1) [OF t] 1 obtain pss where p: "placed sha256 l as pss" and st: "loop_state sha256 l as pss t" by auto
    have len: "length as = length pss" using p by (auto simp: placed_def dest: list_all2_lengthD)
    have "assignment_shape a" using 1 by simp
    with step obtain ps where "members_ok l a ps" "ba_member_ids a \<noteq> []"
        "map_of (rs_seen_ids t) (assignment_block_id sha256 l a) = None" "\<forall>p \<in> set ps. rs_owners t ! p = None"
        "s = next_state sha256 l t (length as) a ps"
      using assignment_loop_step_Inr [OF ok _ loop_state_length [OF st]] by blast
    then show ?case
      using p loop_state_next [OF st len] placed_snoc [OF len] loop_free [OF ok st] loop_fresh [OF st] members_ok_distinct
      by blast
  next
    case 2
    then obtain qss ps where pss: "pss = qss @ [ps]"
      by (cases pss rule: rev_cases) (auto simp: placed_def dest: list_all2_lengthD)
    have len: "length as = length qss" using 2 pss by (auto simp: placed_def dest: list_all2_lengthD)
    note split = 2(1) [unfolded pss placed_snoc [OF len]]
    from snoc.IH(2) [of qss] split 2 obtain t where t: "rfold (assignment_loop_step sha256 l) ?init (enumerate 0 as) = Inr t"
      and st: "loop_state sha256 l as qss t" by auto
    have "assignment_shape a" using 2 by simp
    then have "assignment_loop_step sha256 l t (length as, a) = Inr (next_state sha256 l t (length as) a ps)"
      using split loop_free [OF ok st] loop_fresh [OF st] assignment_loop_step_Inr [OF ok _ loop_state_length [OF st]] by blast
    then show ?case
      using t loop_state_next [OF st len] by (simp add: pss enumerate_snoc rfold_append)
  }
qed

text \<open>Valid, disjoint proposals are only ever refused because two block identities collide.\<close>

lemma assignment_loop_step_Inl:
  assumes ok: "ledger_ok l" and st: "loop_state sha256 l as pss s" and m: "members_ok l a ps"
    and a: "assignment_shape a" "ba_member_ids a \<noteq> []" and free: "set (concat pss) \<inter> set ps = {}"
    and others: "\<forall>a' \<in> set as. ba_member_ids a' \<noteq> ba_member_ids a"
    and err: "assignment_loop_step sha256 l s (ai, a) = Inl e"
  shows "\<exists>bid. e = BlockIdCollision bid"
proof (cases "map_of (rs_seen_ids s) (assignment_block_id sha256 l a)")
  case None
  then have "assignment_loop_step sha256 l s (ai, a) = Inr (next_state sha256 l s ai a ps)"
    using m a loop_free [OF ok st m] free assignment_loop_step_Inr [OF ok a(1) loop_state_length [OF st]] by blast
  then show ?thesis using err by simp
next
  case (Some seen)
  then obtain a' where "a' \<in> set as" "same_identity seen a'" using st unfolding loop_state_def by blast
  then have "\<not> same_identity seen a" using others by (auto simp: same_identity_def)
  moreover have "rfold (member_step l ai a) ([], {}) (enumerate 0 (ba_member_ids a)) = Inr (ps, set ps)"
    using members_loop_all [OF ok a(1)] m by blast
  ultimately have "assignment_loop_step sha256 l s (ai, a) = Inl (BlockIdCollision (assignment_block_id sha256 l a))"
    using Some a(2) by (simp add: assignment_loop_step_def)
  then show ?thesis using err by auto
qed

lemma members_disjoint_ids:
  assumes "members_ok l a ps" and "members_ok l a' qs" and "ba_member_ids a \<noteq> []" and "set ps \<inter> set qs = {}"
  shows "ba_member_ids a \<noteq> ba_member_ids a'"
proof
  assume eq: "ba_member_ids a = ba_member_ids a'"
  have "0 < length (ba_member_ids a)" using assms(3) by simp
  then have "ps ! 0 = qs ! 0" "0 < length ps" "0 < length qs"
    using assms(1,2) eq by (auto simp: members_ok_def members_upto_def member_at_def)
  then show False using assms(4) nth_mem by (metis disjoint_iff)
qed

lemma assignments_loop_Inl:
  assumes ok: "ledger_ok l" and all: "list_all2 (members_ok l) as pss"
    and a: "\<forall>a \<in> set as. assignment_shape a \<and> ba_member_ids a \<noteq> []" and d: "distinct (concat pss)"
    and err: "rfold (assignment_loop_step sha256 l) \<lparr>rs_owners = replicate (length (el_events l)) None, rs_seen_ids = [],
      rs_candidates = []\<rparr> (enumerate 0 as) = Inl e"
  shows "\<exists>bid. e = BlockIdCollision bid"
  using all a d err
proof (induction as arbitrary: pss rule: rev_induct)
  case (snoc a as)
  let ?loop = "rfold (assignment_loop_step sha256 l) \<lparr>rs_owners = replicate (length (el_events l)) None, rs_seen_ids = [],
      rs_candidates = []\<rparr> (enumerate 0 as)"
  obtain qss ps where pss: "pss = qss @ [ps]" and qss: "list_all2 (members_ok l) as qss" and ps: "members_ok l a ps"
    using snoc.prems(1) by (auto simp: list_all2_append1 list_all2_Cons1)
  show ?case
  proof (cases ?loop)
    case (Inl e')
    then have "e' = e" using snoc.prems(4) by (simp add: enumerate_snoc rfold_append)
    then show ?thesis using snoc.IH [OF qss] snoc.prems(2,3) Inl pss by simp
  next
    case (Inr t)
    then obtain rss where rss: "placed sha256 l as rss" and st: "loop_state sha256 l as rss t"
      using assignments_loop(1) [OF ok _ Inr] snoc.prems(2) by auto
    have "rss = qss" using rss qss by (intro members_lists_unique [of l as]) (simp_all add: placed_def)
    then have st: "loop_state sha256 l as qss t" using st by simp
    have step: "assignment_loop_step sha256 l t (length as, a) = Inl e"
      using Inr snoc.prems(4) by (simp add: enumerate_snoc rfold_append result_simps)
    have "ba_member_ids a' \<noteq> ba_member_ids a" if a': "a' \<in> set as" for a'
    proof (rule in_set_impl_in_set_zip1 [OF list_all2_lengthD [OF qss] a'])
      fix qs assume zip: "(a', qs) \<in> set (zip as qss)"
      then have "members_ok l a' qs" "qs \<in> set qss" using qss by (auto simp: list_all2_iff dest: set_zip_rightD)
      moreover have "set qs \<inter> set ps = {}" using \<open>qs \<in> set qss\<close> snoc.prems(3) pss by auto
      ultimately show ?thesis using members_disjoint_ids ps a' snoc.prems(2) by simp
    qed
    then show ?thesis
      using assignment_loop_step_Inl [OF ok st ps _ _ _ _ step] snoc.prems(2,3) pss by auto
  qed
qed simp

section \<open>Sealing the index\<close>

definition block_of :: "nat \<Rightarrow> CandidateBlock \<Rightarrow> EventBlock" where
  "block_of k c = \<lparr>eb_id = cb_id c, eb_ordinal = k, eb_lane = cb_lane c, eb_member_ids = cb_member_ids c,
     eb_member_lane_sequences = cb_member_lane_sequences c, eb_member_positions = cb_member_positions c,
     eb_framing_policy = cb_framing_policy c, eb_state = cb_state c, eb_confidence = cb_confidence c\<rparr>"

lemma seal_blocks_loop:
  "length cs \<le> u64_max \<Longrightarrow> rfold seal_block_step ([], [], []) cs =
     Inr (map (\<lambda>(k, c). block_of k c) (enumerate 0 cs),
          fold (\<lambda>(k, c). bt_insert (cb_id c) k) (enumerate 0 cs) [],
          fold (\<lambda>(k, c) m. fold (\<lambda>e. bt_insert e k) (cb_member_ids c) m) (enumerate 0 cs) [])"
  by (induction cs rule: rev_induct)
    (simp_all add: rfold_append enumerate_snoc seal_block_step_def block_of_def u64_try_from_def)

lemma missing_events_Nil:
  assumes "loop_state sha256 l as pss s"
  shows "missing_events l (rs_owners s) = [] \<longleftrightarrow> {..<length (el_events l)} \<subseteq> set (concat pss)"
proof -
  have "missing_events l (rs_owners s) = [] \<longleftrightarrow> (\<forall>p < length (el_events l). rs_owners s ! p \<noteq> None)"
    unfolding missing_events_def map_is_Nil_conv filter_empty_conv
    by (fastforce simp: in_set_enumerate_eq nth_enumerate_eq in_set_conv_nth)
  also have "\<dots> \<longleftrightarrow> (\<forall>p < length (el_events l). p \<in> set (concat pss))"
    using assms unfolding loop_state_def by blast
  finally show ?thesis by (simp add: subset_iff)
qed

lemma map2_concat: "length as = length pss \<Longrightarrow>
    concat (map cb_member_positions (map2 (candidate_of sha256 l) as pss)) = concat pss
    \<and> map cb_id (map2 (candidate_of sha256 l) as pss) = map (assignment_block_id sha256 l) as"
  by (induction as pss rule: list_induct2) (simp_all add: candidate_of_def)

text \<open>The partition that an index represents.\<close>

definition block_ok :: "EventLedger \<Rightarrow> EventBlock \<Rightarrow> bool" where
  "block_ok l b \<longleftrightarrow> eb_member_positions b \<noteq> [] \<and> sorted_wrt (<) (eb_member_positions b)
     \<and> map (\<lambda>p. ev_id (el_events l ! p)) (eb_member_positions b) = eb_member_ids b
     \<and> map (\<lambda>p. ev_lane_sequence (el_events l ! p)) (eb_member_positions b) = eb_member_lane_sequences b
     \<and> (\<forall>p \<in> set (eb_member_positions b). p < length (el_events l) \<and> ev_lane (el_events l ! p) = eb_lane b)
     \<and> (\<forall>k. Suc k < length (eb_member_lane_sequences b) \<longrightarrow>
          eb_member_lane_sequences b ! Suc k = Suc (eb_member_lane_sequences b ! k))"

definition block_index_ok :: "BlockIndex \<Rightarrow> bool" where
  "block_index_ok i \<longleftrightarrow> ledger_ok (bi_ledger i)
     \<and> (\<forall>b \<in> set (bi_blocks i). block_ok (bi_ledger i) b)
     \<and> distinct (concat (map eb_member_positions (bi_blocks i)))
     \<and> set (concat (map eb_member_positions (bi_blocks i))) = {..<length (el_events (bi_ledger i))}
     \<and> sorted (map (\<lambda>b. hd (eb_member_positions b)) (bi_blocks i))
     \<and> map eb_ordinal (bi_blocks i) = [0..<length (bi_blocks i)]
     \<and> (\<forall>bid k. map_of (bi_block_positions i) bid = Some k \<longleftrightarrow> k < length (bi_blocks i) \<and> eb_id (bi_blocks i ! k) = bid)
     \<and> (\<forall>eid k. map_of (bi_event_block_positions i) eid = Some k \<longleftrightarrow>
          k < length (bi_blocks i) \<and> eid \<in> set (eb_member_ids (bi_blocks i ! k)))"

interpretation block_index: position_index block_index_ok bi_blocks eb_id "\<lambda>i. map_of (bi_block_positions i)"
  by unfold_locales (simp add: block_index_ok_def)

lemma members_ok_block_ok:
  assumes ok: "ledger_ok l" and m: "members_ok l a ps" and ne: "ba_member_ids a \<noteq> []" and shape: "assignment_shape a"
  shows "block_ok l (block_of k (candidate_of sha256 l a ps))"
proof -
  have len: "length ps = length (ba_member_ids a)" and sorted: "sorted_wrt (<) ps"
    and at: "\<And>j. j < length ps \<Longrightarrow> member_at l a j (ps ! j)"
    using m by (auto simp: members_ok_def members_upto_def)
  have seqs: "map (\<lambda>p. ev_lane_sequence (el_events l ! p)) ps = ba_member_lane_sequences a"
    using at len shape by (intro nth_equalityI) (auto simp: member_at_def assignment_shape_def)
  have lanes: "ev_lane (el_events l ! p) = ba_lane a" if "p \<in> set ps" for p
    using at that by (auto simp: member_at_def in_set_conv_nth)
  have contiguous: "ba_member_lane_sequences a ! Suc j = Suc (ba_member_lane_sequences a ! j)"
    if "Suc j < length (ba_member_lane_sequences a)" for j
    using at [of "Suc j"] that len shape by (simp add: member_at_def assignment_shape_def)
  show ?thesis
    using len ne sorted seqs lanes contiguous members_ok_ids [OF ok m] members_ok_range [OF ok m]
    by (auto simp: block_ok_def block_of_def candidate_of_def)
qed


lemma block_of_fields [simp]:
  "eb_id (block_of k c) = cb_id c" "eb_ordinal (block_of k c) = k" "eb_member_ids (block_of k c) = cb_member_ids c"
  "eb_member_positions (block_of k c) = cb_member_positions c"
  by (simp_all add: block_of_def)

text \<open>The candidates of a placement, and the order in which they are sealed.\<close>

definition sealed_order :: "(bytes \<Rightarrow> bytes) \<Rightarrow> EventLedger \<Rightarrow> BlockAssignment list \<Rightarrow> nat list list \<Rightarrow> CandidateBlock list" where
  "sealed_order sha256 l as pss = sort_key (\<lambda>c. hd (cb_member_positions c)) (map2 (candidate_of sha256 l) as pss)"

definition index_of :: "EventLedger \<Rightarrow> CandidateBlock list \<Rightarrow> BlockIndex" where
  "index_of l cs = \<lparr>bi_ledger = l, bi_blocks = map (\<lambda>(k, c). block_of k c) (enumerate 0 cs),
     bi_block_positions = fold (\<lambda>(k, c). bt_insert (cb_id c) k) (enumerate 0 cs) [],
     bi_event_block_positions = fold (\<lambda>(k, c) m. fold (\<lambda>e. bt_insert e k) (cb_member_ids c) m) (enumerate 0 cs) []\<rparr>"

lemma placed_length: "placed sha256 l as pss \<Longrightarrow> length as = length pss"
  by (auto simp: placed_def dest: list_all2_lengthD)

lemma set_sealed_order:
  assumes "placed sha256 l as pss" and "c \<in> set (sealed_order sha256 l as pss)"
  obtains a ps where "a \<in> set as" and "members_ok l a ps" and "ps \<in> set pss" and "c = candidate_of sha256 l a ps"
proof -
  obtain a ps where "(a, ps) \<in> set (zip as pss)" "c = candidate_of sha256 l a ps"
    using assms(2) by (auto simp: sealed_order_def)
  moreover have "\<forall>(a, ps) \<in> set (zip as pss). members_ok l a ps"
    using assms(1) by (simp add: placed_def list_all2_iff)
  ultimately show ?thesis using that by (blast dest: set_zip_leftD set_zip_rightD)
qed

lemma sealed_order_perm: "mset (sealed_order sha256 l as pss) = mset (map2 (candidate_of sha256 l) as pss)"
  by (simp add: sealed_order_def)

lemma sealed_order_positions:
  assumes "placed sha256 l as pss"
  shows "mset (concat (map cb_member_positions (sealed_order sha256 l as pss))) = mset (concat pss)"
  using mset_concat_perm [OF sealed_order_perm, of cb_member_positions] map2_concat [OF placed_length [OF assms]]
  by metis

lemma sealed_order_ids:
  assumes "placed sha256 l as pss"
  shows "mset (map cb_id (sealed_order sha256 l as pss)) = mset (map (assignment_block_id sha256 l) as)"
  using sealed_order_perm [of sha256 l as pss] map2_concat [OF placed_length [OF assms]] by (metis mset_map)

lemma placed_count:
  assumes ok: "ledger_ok l" and p: "placed sha256 l as pss"
  shows "length as \<le> length (el_events l)"
proof -
  have all: "members_ok l a ps \<and> ba_member_ids a \<noteq> []" if "(a, ps) \<in> set (zip as pss)" for a ps
    using p that by (auto simp: placed_def list_all2_iff dest: set_zip_leftD)
  have "1 \<le> length ps \<and> set ps \<subseteq> {..<length (el_events l)}" if ps: "ps \<in> set pss" for ps
  proof -
    obtain a where "(a, ps) \<in> set (zip as pss)"
      by (rule in_set_impl_in_set_zip2 [OF placed_length [OF p] ps])
    from all [OF this] have m: "members_ok l a ps" "ba_member_ids a \<noteq> []" by simp_all
    then have "length ps = length (ba_member_ids a)" by (simp add: members_ok_def members_upto_def)
    then show ?thesis using m(2) members_ok_range [OF ok m(1)] by (auto simp: Suc_le_eq)
  qed
  then have "sum_list (map (\<lambda>_. 1) pss) \<le> sum_list (map length pss)" "set (concat pss) \<subseteq> {..<length (el_events l)}"
    by (auto intro: sum_list_mono)
  moreover have "sum_list (map length pss) = card (set (concat pss))"
    using p by (simp only: placed_def distinct_card length_concat)
  ultimately show ?thesis
    using placed_length [OF p] card_mono [of "{..<length (el_events l)}" "set (concat pss)"]
    by (simp add: sum_list_const_mult [of 1, simplified] sum_list_triv)
qed

text \<open>Reconciliation succeeds exactly on the proposals that can be placed without leaving an event out.\<close>

lemma blocks_reconcile_Inr:
  assumes ok: "ledger_ok l" and shape: "\<forall>a \<in> set as. assignment_shape a"
  shows "BlockIndex_reconcile sha256 l as = Inr i \<longleftrightarrow>
    (\<exists>pss. placed sha256 l as pss \<and> {..<length (el_events l)} \<subseteq> set (concat pss)
       \<and> i = index_of l (sealed_order sha256 l as pss))"
proof -
  let ?init = "\<lparr>rs_owners = replicate (length (el_events l)) None, rs_seen_ids = [], rs_candidates = []\<rparr>"
  let ?loop = "rfold (assignment_loop_step sha256 l) ?init (enumerate 0 as)"
  have seal: "(case missing_events l (rs_owners s) of [] \<Rightarrow>
        rbind (rfold seal_block_step ([], [], []) (sort_key (\<lambda>c. hd (cb_member_positions c)) (rs_candidates s)))
          (\<lambda>(blocks, block_positions, event_block_positions).
             Inr \<lparr>bi_ledger = l, bi_blocks = blocks, bi_block_positions = block_positions,
               bi_event_block_positions = event_block_positions\<rparr>)
      | missing \<Rightarrow> Inl (MissingEvents missing)) = Inr i \<longleftrightarrow>
      {..<length (el_events l)} \<subseteq> set (concat pss) \<and> i = index_of l (sealed_order sha256 l as pss)"
    if p: "placed sha256 l as pss" and st: "loop_state sha256 l as pss s" for s pss
  proof -
    have "length (sealed_order sha256 l as pss) \<le> u64_max"
      using placed_count [OF ok p] placed_length [OF p] ok by (simp add: sealed_order_def ledger_ok_def)
    moreover have "sort_key (\<lambda>c. hd (cb_member_positions c)) (rs_candidates s) = sealed_order sha256 l as pss"
      using st by (simp add: sealed_order_def loop_state_def)
    ultimately show ?thesis
      using missing_events_Nil [OF st]
      by (cases "missing_events l (rs_owners s)") (auto simp: seal_blocks_loop index_of_def)
  qed
  have "BlockIndex_reconcile sha256 l as = Inr i \<longleftrightarrow> (\<exists>s. ?loop = Inr s \<and>
      (case missing_events l (rs_owners s) of [] \<Rightarrow>
        rbind (rfold seal_block_step ([], [], []) (sort_key (\<lambda>c. hd (cb_member_positions c)) (rs_candidates s)))
          (\<lambda>(blocks, block_positions, event_block_positions).
             Inr \<lparr>bi_ledger = l, bi_blocks = blocks, bi_block_positions = block_positions,
               bi_event_block_positions = event_block_positions\<rparr>)
      | missing \<Rightarrow> Inl (MissingEvents missing)) = Inr i)"
    unfolding BlockIndex_reconcile_def rbind_Inr Let_def
    by (intro arg_cong [where f = Ex] ext conj_cong refl) (simp split: list.split)
  also have "\<dots> \<longleftrightarrow> (\<exists>pss. placed sha256 l as pss \<and> {..<length (el_events l)} \<subseteq> set (concat pss)
       \<and> i = index_of l (sealed_order sha256 l as pss))"
    using assignments_loop [OF ok shape] seal by blast
  finally show ?thesis .
qed

section \<open>The index\<close>

lemma block_ids_of_members:
  assumes "ledger_ok l" and "placed sha256 l as pss"
  shows "concat (map cb_member_ids (sealed_order sha256 l as pss)) =
    map (\<lambda>p. ev_id (el_events l ! p)) (concat (map cb_member_positions (sealed_order sha256 l as pss)))"
proof -
  have "cb_member_ids c = map (\<lambda>p. ev_id (el_events l ! p)) (cb_member_positions c)"
    if "c \<in> set (sealed_order sha256 l as pss)" for c
  proof (rule set_sealed_order [OF assms(2) that])
    fix a ps assume "members_ok l a ps" and "c = candidate_of sha256 l a ps"
    then show ?thesis using members_ok_ids [OF assms(1)] by (simp add: candidate_of_def)
  qed
  then have "map cb_member_ids (sealed_order sha256 l as pss) =
      map (map (\<lambda>p. ev_id (el_events l ! p))) (map cb_member_positions (sealed_order sha256 l as pss))"
    by simp
  then show ?thesis by (simp only: map_concat)
qed

lemma positions_distinct_ids:
  assumes "ledger_ok l" and "distinct ps" and "set ps \<subseteq> {..<length (el_events l)}"
  shows "distinct (map (\<lambda>p. ev_id (el_events l ! p)) ps)"
proof -
  have "inj_on (\<lambda>p. ev_id (el_events l ! p)) {..<length (el_events l)}"
    using ledger_index.pos_nth [OF assms(1)] by (intro inj_onI) (metis lessThan_iff option.inject)
  then show ?thesis using assms(2,3) by (simp add: distinct_map inj_on_subset)
qed

lemma placed_subset:
  assumes ok: "ledger_ok l" and p: "placed sha256 l as pss"
  shows "set (concat pss) \<subseteq> {..<length (el_events l)}"
proof -
  have "p < length (el_events l)" if ps: "ps \<in> set pss" and "p \<in> set ps" for ps p
  proof -
    obtain a where "(a, ps) \<in> set (zip as pss)"
      by (rule in_set_impl_in_set_zip2 [OF placed_length [OF p] ps])
    then have "members_ok l a ps" using p by (auto simp: placed_def list_all2_iff)
    then show ?thesis using members_ok_range [OF ok] that(2) by blast
  qed
  then show ?thesis by auto
qed

lemma index_of_fields [simp]:
  "bi_ledger (index_of l cs) = l" "length (bi_blocks (index_of l cs)) = length cs"
  "k < length cs \<Longrightarrow> bi_blocks (index_of l cs) ! k = block_of k (cs ! k)"
  "map eb_member_positions (bi_blocks (index_of l cs)) = map cb_member_positions cs"
  "map eb_ordinal (bi_blocks (index_of l cs)) = [0..<length cs]"
  "map (\<lambda>b. f (eb_member_positions b)) (bi_blocks (index_of l cs)) = map (\<lambda>c. f (cb_member_positions c)) cs"
  by (auto simp: index_of_def nth_enumerate_eq intro!: nth_equalityI)

lemma index_of_ok:
  assumes ok: "ledger_ok l" and shape: "\<forall>a \<in> set as. assignment_shape a" and p: "placed sha256 l as pss"
    and all: "{..<length (el_events l)} \<subseteq> set (concat pss)"
  shows "block_index_ok (index_of l (sealed_order sha256 l as pss))"
proof -
  let ?cs = "sealed_order sha256 l as pss" and ?i = "index_of l (sealed_order sha256 l as pss)"
  note perm = sealed_order_positions [OF p]
  have positions: "set (concat (map cb_member_positions ?cs)) = {..<length (el_events l)}"
    using placed_subset [OF ok p] all perm by (metis mset_eq_setD subset_antisym)
  have distinct: "distinct (concat (map cb_member_positions ?cs))"
    using p perm by (metis mset_eq_imp_distinct_iff placed_def)
  have ids: "distinct (map cb_id ?cs)"
    using p sealed_order_ids [OF p] by (metis mset_eq_imp_distinct_iff placed_def)
  have members: "distinct (concat (map cb_member_ids ?cs))"
    unfolding block_ids_of_members [OF ok p] using positions distinct by (intro positions_distinct_ids [OF ok]) auto
  have "block_ok l (block_of k c)" if c: "c \<in> set ?cs" for k c
  proof (rule set_sealed_order [OF p c])
    fix a ps assume "a \<in> set as" and "members_ok l a ps" and "c = candidate_of sha256 l a ps"
    then show ?thesis using members_ok_block_ok [OF ok] shape p by (simp add: placed_def)
  qed
  then have blocks: "\<forall>b \<in> set (bi_blocks ?i). block_ok l b"
    by (auto simp: index_of_def in_set_enumerate_eq)
  have sorted: "sorted (map (\<lambda>c. hd (cb_member_positions c)) ?cs)" by (simp add: sealed_order_def)
  have by_id: "map_of (bi_block_positions ?i) bid = Some k \<longleftrightarrow> k < length (bi_blocks ?i) \<and> eb_id (bi_blocks ?i ! k) = bid" for bid k
    using index_fold [OF ids] by (auto simp: index_of_def nth_enumerate_eq)
  have by_event: "map_of (bi_event_block_positions ?i) eid = Some k \<longleftrightarrow>
      k < length (bi_blocks ?i) \<and> eid \<in> set (eb_member_ids (bi_blocks ?i ! k))" for eid k
    using group_index_fold [OF members] by (auto simp: index_of_def nth_enumerate_eq)
  show ?thesis
    unfolding block_index_ok_def using ok blocks distinct positions sorted by_id by_event by simp
qed

lemma reconcile_index_ok:
  assumes "ledger_ok l" and "\<forall>a \<in> set as. assignment_shape a" and "BlockIndex_reconcile sha256 l as = Inr i"
  shows "block_index_ok i" and "bi_ledger i = l"
  using assms index_of_ok by (auto simp: blocks_reconcile_Inr)

section \<open>Lookups\<close>

lemma expansion_loop:
  "\<forall>p \<in> set ps. p < length events \<Longrightarrow>
   rfold (\<lambda>acc p. rbind (nth_or panic events p) (\<lambda>e. Inr (acc @ [e]))) acc ps = Inr (acc @ map ((!) events) ps)"
  by (induction ps arbitrary: acc) auto

lemma expansion_ok:
  assumes "block_index_ok i" and "b \<in> set (bi_blocks i)"
  shows "expansion i b = Inr \<lparr>be_block = b, be_events = map ((!) (el_events (bi_ledger i))) (eb_member_positions b)\<rparr>"
proof -
  have "\<forall>p \<in> set (eb_member_positions b). p < length (el_events (bi_ledger i))"
    using assms by (auto simp: block_index_ok_def block_ok_def)
  then show ?thesis by (simp add: expansion_def expansion_loop)
qed

lemma block_lookup:
  assumes "block_index_ok i"
  shows "block i bid = (case map_of (bi_block_positions i) bid of None \<Rightarrow> Inl (UnknownBlock bid) | Some k \<Rightarrow> Inr (bi_blocks i ! k))"
proof (cases "map_of (bi_block_positions i) bid")
  case (Some k)
  then have "k < length (bi_blocks i)" using block_index.pos_iff [OF assms] by blast
  then show ?thesis using Some by (simp add: block_def)
qed (simp add: block_def)

lemma block_event_iff:
  assumes "block_index_ok i"
  shows "map_of (bi_event_block_positions i) eid = Some k \<longleftrightarrow>
    k < length (bi_blocks i) \<and> eid \<in> set (eb_member_ids (bi_blocks i ! k))"
  using assms unfolding block_index_ok_def by blast

lemma block_for_event_lookup:
  assumes "block_index_ok i"
  shows "block_for_event i eid =
    (case map_of (bi_event_block_positions i) eid of None \<Rightarrow> Inl (UnknownBlockEvent eid) | Some k \<Rightarrow> Inr (bi_blocks i ! k))"
proof (cases "map_of (bi_event_block_positions i) eid")
  case (Some k)
  then have "k < length (bi_blocks i)" using block_event_iff [OF assms] by blast
  then show ?thesis using Some by (simp add: block_for_event_def)
qed (simp add: block_for_event_def)

text \<open>Every event of the ledger is a member of some block.\<close>

lemma event_in_block:
  assumes ok: "block_index_ok i" and e: "e \<in> set (el_events (bi_ledger i))"
  obtains k where "k < length (bi_blocks i)" and "ev_id e \<in> set (eb_member_ids (bi_blocks i ! k))"
proof -
  obtain p where p: "p < length (el_events (bi_ledger i))" "el_events (bi_ledger i) ! p = e"
    using e by (auto simp: in_set_conv_nth)
  then have "p \<in> set (concat (map eb_member_positions (bi_blocks i)))" using ok by (simp add: block_index_ok_def)
  then obtain b where b: "b \<in> set (bi_blocks i)" "p \<in> set (eb_member_positions b)" by auto
  then have "eb_member_ids b = map (\<lambda>p. ev_id (el_events (bi_ledger i) ! p)) (eb_member_positions b)"
    using ok by (auto simp: block_index_ok_def block_ok_def)
  then have "ev_id e \<in> set (eb_member_ids b)" using b p by auto
  then show ?thesis using that b(1) by (metis in_set_conv_nth)
qed

end
