(* ===== verification/Framing_Partition.thy ===== *)
theory Framing_Partition
  imports Framing Block_Partition
begin

text \<open>
  The scan of a lane terminates without error, cuts the lane into consecutive runs and never joins
  records across a gap, a cap or a lane; together with reconciliation this frames every sealed
  ledger unless two block identities collide.
\<close>

section \<open>Slices\<close>

lemma length_slice [simp]: "length (slice xs a b) = min (b - a) (length xs - a)"
  by (simp add: slice_def)

lemma nth_slice [simp]: "k < b - a \<Longrightarrow> b \<le> length xs \<Longrightarrow> slice xs a b ! k = xs ! (a + k)"
  by (simp add: slice_def)

lemma slice_map: "slice (map f xs) a b = map f (slice xs a b)"
  by (simp add: slice_def take_map drop_map)

lemma slice_Suc: "a \<le> b \<Longrightarrow> b < length xs \<Longrightarrow> slice xs a (Suc b) = slice xs a b @ [xs ! b]"
  by (simp add: slice_def Suc_diff_le take_Suc_conv_app_nth)

lemma slice_single: "a < length xs \<Longrightarrow> slice xs a (Suc a) = [xs ! a]"
  by (simp add: slice_def take_Suc_conv_app_nth Cons_nth_drop_Suc [symmetric])

lemma slice_drop: "a \<le> b \<Longrightarrow> slice xs a b @ drop b xs = drop a xs"
  by (simp add: slice_def) (metis append_take_drop_id drop_drop le_add_diff_inverse2)

section \<open>The inner loop\<close>

definition raw_bytes :: "Event list \<Rightarrow> nat" where
  "raw_bytes events = sum_list (map (\<lambda>e. length (ev_raw e)) events)"

lemma raw_bytes_simps [simp]: "raw_bytes [] = 0" "raw_bytes (e # es) = length (ev_raw e) + raw_bytes es"
    "raw_bytes (es @ fs) = raw_bytes es + raw_bytes fs"
  by (simp_all add: raw_bytes_def)

text \<open>
  A run of consecutive, joinable lines: next to each other in the lane, no gap that a trustworthy
  clock measured as too long, and every gap measured when the run counts as timed.
\<close>

definition linked :: "bool \<Rightarrow> Event \<Rightarrow> Event \<Rightarrow> bool" where
  "linked timed e f \<longleftrightarrow> monotonic_relation e f \<noteq> Boundary \<and> (timed \<longrightarrow> monotonic_relation e f = WithinBound)"

definition run_ok :: "bool \<Rightarrow> Event list \<Rightarrow> bool" where
  "run_ok timed es \<longleftrightarrow> es \<noteq> [] \<and> length es \<le> MAX_RECONSTRUCTED_BLOCK_LINES_V1
     \<and> (\<forall>e \<in> set es. is_joinable_line e) \<and> (\<forall>k. Suc k < length es \<longrightarrow> linked timed (es ! k) (es ! Suc k))"

lemma run_ok_weaken: "run_ok timed es \<Longrightarrow> (timed' \<Longrightarrow> timed) \<Longrightarrow> run_ok timed' es"
  by (auto simp: run_ok_def linked_def)

lemma run_ok_snoc:
  assumes "run_ok timed es" and "is_joinable_line e" and "linked timed (last es) e" and "length es < MAX_RECONSTRUCTED_BLOCK_LINES_V1"
  shows "run_ok timed (es @ [e])"
proof -
  have "linked timed ((es @ [e]) ! k) ((es @ [e]) ! Suc k)" if k: "Suc k < length (es @ [e])" for k
  proof (cases "Suc k = length es")
    case True
    then have "(es @ [e]) ! k = last es" "(es @ [e]) ! Suc k = e"
      using assms(1) by (auto simp: nth_append last_conv_nth run_ok_def simp flip: True)
    then show ?thesis using assms(3) by simp
  next
    case False
    then show ?thesis using assms(1) k by (simp add: run_ok_def nth_append)
  qed
  then show ?thesis using assms by (auto simp: run_ok_def)
qed

lemma continuation_joinable: "recognized_continuation state e next = Some state' \<Longrightarrow> is_joinable_line e"
  by (simp add: recognized_continuation_def split: if_splits)

lemma start_joinable: "recognized_start e next = Some state \<Longrightarrow> is_joinable_line e"
  by (simp add: recognized_start_def split: if_splits)

definition fits :: "Event list \<Rightarrow> bool" where
  "fits events \<longleftrightarrow> (\<forall>e \<in> set events. length (ev_raw e) \<le> 9223372036854775807)"

text \<open>The loop returns, and extends a run within the caps.\<close>

lemma extend_block_returns:
  assumes "fits events" and "bytes \<le> MAX_RECONSTRUCTED_BLOCK_BYTES_V1 \<or> cap"
  shows "\<exists>r. extend_block events index recognition bytes cap unc end = Inr r"
  using assms
proof (induction events index recognition bytes cap unc "end" rule: extend_block.induct)
  case (1 events index recognition bytes cap unc "end")
  show ?case
  proof (cases "cap \<or> length events \<le> end")
    case False
    then have "length (ev_raw (events ! end)) \<le> 9223372036854775807" using "1.prems"(1) by (simp add: fits_def)
    then have no_overflow: "checked_add_u64 bytes (length (ev_raw (events ! end))) = Some (bytes + length (ev_raw (events ! end)))"
      using "1.prems"(2) False by (simp add: checked_add_u64_def MAX_RECONSTRUCTED_BLOCK_BYTES_V1_def)
    show ?thesis
      using False "1.IH" "1.prems" no_overflow
      by (subst extend_block.simps) (auto simp: Let_def split: option.split)
  qed (subst extend_block.simps, simp)
qed

lemma extend_block_run:
  assumes "extend_block events index recognition bytes cap unc end = Inr (end', cap', unc')"
    and "index < end" and "end \<le> length events" and "run_ok (\<not> unc) (slice events index end)"
    and "bytes = raw_bytes (slice events index end)" and "bytes \<le> MAX_RECONSTRUCTED_BLOCK_BYTES_V1 \<or> cap"
  shows "end \<le> end' \<and> end' \<le> length events \<and> run_ok (\<not> unc') (slice events index end')
    \<and> (end < end' \<longrightarrow> raw_bytes (slice events index end') \<le> MAX_RECONSTRUCTED_BLOCK_BYTES_V1)"
  using assms
proof (induction events index recognition bytes cap unc "end" rule: extend_block.induct)
  case (1 events index recognition bytes cap unc "end")
  let ?c = "events ! end" and ?relation = "monotonic_relation (events ! (end - 1)) (events ! end)"
  let ?unc = "unc \<or> ?relation = Unavailable"
  note unfolded = "1.prems"(1) [unfolded extend_block.simps [of events index recognition bytes cap unc "end"] Let_def]
  have weak: "run_ok (\<not> ?unc) (slice events index end)" using run_ok_weaken [OF "1.prems"(4)] by simp
  show ?case
  proof (cases "cap \<or> length events \<le> end \<or> ?relation = Boundary")
    case True
    then have "end' = end \<and> unc' = unc" using unfolded by (auto split: if_splits)
    then show ?thesis using "1.prems" by simp
  next
    case False
    then have go: "\<not> cap" "\<not> (cap \<or> length events \<le> end)" "end < length events" "?relation \<noteq> Boundary" by auto
    show ?thesis
    proof (cases "recognized_continuation recognition ?c (eligible_lookahead recognition bytes index end events)")
      case None
      then have "end' = end \<and> unc' = ?unc" using unfolded go by auto
      then show ?thesis using "1.prems" weak by simp
    next
      case (Some continuation)
      let ?stop = "MAX_RECONSTRUCTED_STATE_DEPTH_V1 < depth continuation \<or> MAX_RECONSTRUCTED_BLOCK_LINES_V1 \<le> end - index
        \<or> MAX_RECONSTRUCTED_BLOCK_BYTES_V1 < bytes + length (ev_raw ?c)"
      show ?thesis
      proof (cases ?stop)
        case True
        then have "end' = end \<and> unc' = ?unc"
          using unfolded go Some by (auto simp: checked_add_u64_def split: if_splits)
        then show ?thesis using "1.prems" weak by simp
      next
        case no: False
        then have sum: "checked_add_u64 bytes (length (ev_raw ?c)) = Some (bytes + length (ev_raw ?c))"
          by (simp add: checked_add_u64_def MAX_RECONSTRUCTED_BLOCK_BYTES_V1_def)
        then have rest: "extend_block events index continuation (bytes + length (ev_raw ?c)) cap ?unc (end + 1) = Inr (end', cap', unc')"
          using unfolded go Some no by simp
        have grow: "slice events index (Suc end) = slice events index end @ [?c]"
          using "1.prems"(2) go(3) by (simp add: slice_Suc)
        have "last (slice events index end) = events ! (end - 1)"
          using "1.prems"(2) go(3) by (subst last_conv_nth) (auto simp: slice_def)
        then have "run_ok (\<not> ?unc) (slice events index (Suc end))"
          unfolding grow using weak go "1.prems"(2) no continuation_joinable [OF Some]
          by (intro run_ok_snoc) (auto simp: linked_def intro: MonotonicRelation.exhaust)
        then show ?thesis
          using "1.IH" [OF go(2) refl refl go(4) refl refl Some _ sum] rest no "1.prems"(2,5) go(3) grow
          by (cases "end' = Suc end") simp_all
      qed
    qed
  qed
qed

section \<open>The scan of a lane\<close>

text \<open>What a proposal of the scan says about the events it covers.\<close>

definition reconstructed_run :: "BlockConfidence \<Rightarrow> Event list \<Rightarrow> bool" where
  "reconstructed_run confidence es \<longleftrightarrow> 1 < length es \<and> run_ok (confidence = High) es
     \<and> raw_bytes es \<le> MAX_RECONSTRUCTED_BLOCK_BYTES_V1 \<and> confidence \<in> {Medium, High}"

definition framed :: "LaneKey \<Rightarrow> FramingPolicy \<Rightarrow> BlockAssignment \<Rightarrow> Event list \<Rightarrow> bool" where
  "framed lane policy a es \<longleftrightarrow> (\<exists>state confidence. a = assignment lane es policy state confidence
     \<and> (if state = Reconstructed then reconstructed_run confidence es else \<exists>e. es = [e]))"

lemma singleton_framed:
  assumes "index < length events"
  shows "framed lane policy (singleton_assignment lane events policy index) [events ! index]"
proof -
  obtain state confidence where c: "singleton_classification (events ! index) (get_event events (index + 1)) = (state, confidence)"
    by fastforce
  moreover have "state \<noteq> Reconstructed" using c by (auto simp: singleton_classification_def split: if_splits)
  ultimately show ?thesis
    using assms by (auto simp: framed_def singleton_assignment_def slice_single)
qed

lemma reconstruct_run:
  assumes "reconstruct events index = Inr (Some (end, cap, unc))" and "index < length events" and "index + 1 < end"
  shows "end \<le> length events \<and> framed lane policy
    (assignment lane (slice events index end) policy Reconstructed (block_confidence cap unc)) (slice events index end)"
proof -
  let ?bytes = "length (ev_raw (events ! index))"
  obtain recognition where start: "recognized_start (events ! index) (get_event events (index + 1)) = Some recognition"
    and loop: "extend_block events index recognition ?bytes (MAX_RECONSTRUCTED_BLOCK_BYTES_V1 < ?bytes) False (index + 1)
      = Inr (end, cap, unc)"
    using assms(1) by (auto simp: reconstruct_def Let_def result_simps split: option.splits)
  have "run_ok True [events ! index]"
    using start_joinable [OF start] by (simp add: run_ok_def MAX_RECONSTRUCTED_BLOCK_LINES_V1_def)
  moreover have "?bytes \<le> MAX_RECONSTRUCTED_BLOCK_BYTES_V1 \<or> MAX_RECONSTRUCTED_BLOCK_BYTES_V1 < ?bytes" by linarith
  ultimately have "end \<le> length events \<and> run_ok (\<not> unc) (slice events index end)
      \<and> raw_bytes (slice events index end) \<le> MAX_RECONSTRUCTED_BLOCK_BYTES_V1"
    using extend_block_run [OF loop] assms(2,3) slice_single [OF assms(2)] by simp
  moreover from this have "reconstructed_run (block_confidence cap unc) (slice events index end)"
    using assms(2,3) run_ok_weaken [of "\<not> unc" "slice events index end"]
    by (auto simp: reconstructed_run_def block_confidence_def)
  ultimately show ?thesis
    unfolding framed_def by (metis (full_types))
qed

text \<open>The scan cuts what is left of the lane into consecutive framed runs.\<close>

lemma frame_lane_from_runs:
  assumes "frame_lane_from lane events policy acc index = Inr as" and "index \<le> length events"
  shows "\<exists>new runs. as = acc @ new \<and> list_all2 (framed lane policy) new runs \<and> concat runs = drop index events"
  using assms
proof (induction lane events policy acc index arbitrary: as rule: frame_lane_from.induct)
  case (1 lane events policy acc index)
  note unfolded = "1.prems"(1) [unfolded frame_lane_from.simps [of lane events policy acc index]]
  show ?case
  proof (cases "length events \<le> index")
    case True
    then show ?thesis using unfolded by (intro exI [of _ "[]"]) simp
  next
    case False
    then have index: "index < length events" by simp
    from unfolded False obtain r where r: "reconstruct events index = Inr r"
      by (auto simp: result_simps split: if_splits)
    have step: ?thesis
      if block: "framed lane policy a (slice events index to)" and to: "index < to" "to \<le> length events"
        and tail: "\<exists>new runs. as = (acc @ [a]) @ new \<and> list_all2 (framed lane policy) new runs \<and> concat runs = drop to events"
      for a to
    proof -
      from tail obtain new runs where "as = acc @ (a # new)" "list_all2 (framed lane policy) new runs" "concat runs = drop to events"
        by auto
      then show ?thesis
        using block slice_drop [of index to events] to(1)
        by (intro exI [of _ "a # new"] exI [of _ "slice events index to # runs"]) simp
    qed
    show ?thesis
    proof (cases "\<exists>end cap unc. r = Some (end, cap, unc) \<and> index + 1 < end")
      case True
      then obtain "end" cap unc where long: "r = Some (end, cap, unc)" "index + 1 < end" by blast
      note run = reconstruct_run [OF r [unfolded long(1)] index long(2), of lane policy]
      let ?a = "assignment lane (slice events index end) policy Reconstructed (block_confidence cap unc)"
      have "frame_lane_from lane events policy (acc @ [?a]) end = Inr as" using unfolded False r long by simp
      then show ?thesis
        using "1.IH"(2) [OF False r long(1) refl refl long(2)] run long(2) by (intro step [of ?a "end"]) simp_all
    next
      case single: False
      let ?a = "singleton_assignment lane events policy index"
      have rest: "frame_lane_from lane events policy (acc @ [?a]) (index + 1) = Inr as"
        using unfolded False r single by (auto split: option.splits prod.splits)
      have "\<exists>new runs. as = (acc @ [?a]) @ new \<and> list_all2 (framed lane policy) new runs \<and> concat runs = drop (index + 1) events"
      proof (cases r)
        case None
        then show ?thesis using "1.IH"(1) [OF False r] rest index by simp
      next
        case (Some x)
        obtain "end" cap unc where x: "x = (end, cap, unc)" by (cases x)
        show ?thesis using "1.IH"(3) [OF False r Some x [symmetric] refl] rest index single Some x by auto
      qed
      then show ?thesis
        using singleton_framed [OF index] index by (intro step [of ?a "index + 1"]) (simp_all add: slice_single)
    qed
  qed
qed

lemma reconstruct_returns: "fits events \<Longrightarrow> \<exists>r. reconstruct events index = Inr r"
proof (cases "recognized_start (events ! index) (get_event events (index + 1))")
  case (Some recognition)
  assume "fits events"
  let ?bytes = "length (ev_raw (events ! index))"
  have "?bytes \<le> MAX_RECONSTRUCTED_BLOCK_BYTES_V1 \<or> MAX_RECONSTRUCTED_BLOCK_BYTES_V1 < ?bytes" by linarith
  from extend_block_returns [OF \<open>fits events\<close> this, of index recognition False "index + 1"]
  show ?thesis using Some by (auto simp: reconstruct_def)
qed (simp add: reconstruct_def)

lemma frame_lane_from_returns:
  assumes "fits events"
  shows "\<exists>as. frame_lane_from lane events policy acc index = Inr as"
  using assms
proof (induction lane events policy acc index rule: frame_lane_from.induct)
  case (1 lane events policy acc index)
  obtain r where r: "reconstruct events index = Inr r" using reconstruct_returns [OF "1.prems"] by blast
  show ?case
  proof (cases "length events \<le> index")
    case False
    show ?thesis
    proof (cases r)
      case None
      then show ?thesis using "1.IH"(1) [OF False r None "1.prems"] False r by (simp add: frame_lane_from.simps [of _ _ _ acc])
    next
      case (Some x)
      obtain "end" cap unc where x: "x = (end, cap, unc)" by (cases x)
      show ?thesis
      proof (cases "index + 1 < end")
        case True
        then show ?thesis
          using "1.IH"(2) [OF False r Some x [symmetric] refl True "1.prems"] False r Some x
          by (simp add: frame_lane_from.simps [of _ _ _ acc])
      next
        case short: False
        then show ?thesis
          using "1.IH"(3) [OF False r Some x [symmetric] refl short "1.prems"] False r Some x
          by (simp add: frame_lane_from.simps [of _ _ _ acc])
      qed
    qed
  qed (simp add: frame_lane_from.simps)
qed

section \<open>Lanes of a ledger\<close>

lemma source_lanes_lookup:
  "map_of (source_lanes events) lane = (if filter (\<lambda>e. ev_lane e = lane) events = [] then None
     else Some (filter (\<lambda>e. ev_lane e = lane) events))"
proof (induction events rule: rev_induct)
  case (snoc e events)
  have "source_lanes (events @ [e]) = push_lane_event e (source_lanes events)" by (simp add: source_lanes_def)
  then show ?case using snoc.IH by (auto simp: push_lane_event_def split: option.split if_splits)
qed (simp add: source_lanes_def)

lemma source_lanes_ordered: "bt_ordered (source_lanes events)"
proof (induction events rule: rev_induct)
  case (snoc e events)
  have "source_lanes (events @ [e]) = push_lane_event e (source_lanes events)" by (simp add: source_lanes_def)
  then show ?case using snoc.IH by (simp add: push_lane_event_def bt_ordered_insert)
qed (simp add: source_lanes_def)

lemma source_lanes_member:
  assumes "(lane, es) \<in> set (source_lanes events)"
  shows "es = filter (\<lambda>e. ev_lane e = lane) events" and "es = map ((!) events) (lane_indices events lane)"
proof -
  have "map_of (source_lanes events) lane = Some es"
    using assms bt_ordered_distinct [OF source_lanes_ordered] by simp
  then show es: "es = filter (\<lambda>e. ev_lane e = lane) events" by (simp add: source_lanes_lookup split: if_splits)
  then show "es = map ((!) events) (lane_indices events lane)" by (simp add: lane_indices_events)
qed

lemma source_lanes_keys: "fst ` set (source_lanes events) = ev_lane ` set events"
proof -
  have "fst ` set (source_lanes events) = dom (map_of (source_lanes events))" by (simp add: dom_map_of_conv_image_fst)
  also have "\<dots> = {lane. filter (\<lambda>e. ev_lane e = lane) events \<noteq> []}" by (auto simp: dom_def source_lanes_lookup)
  also have "\<dots> = ev_lane ` set events" unfolding filter_empty_conv by blast
  finally show ?thesis .
qed

section \<open>The proposals as a placement\<close>

lemma concat_eq_map:
  "concat runs = map f ps \<Longrightarrow> \<exists>pss. concat pss = ps \<and> runs = map (map f) pss"
proof (induction runs arbitrary: ps)
  case Nil
  then show ?case by (intro exI [of _ "[]"]) simp
next
  case (Cons run runs)
  then obtain qs rs where ps: "ps = qs @ rs" "map f qs = run" "map f rs = concat runs"
    by (auto simp: append_eq_map_conv)
  obtain pss where "concat pss = rs" "runs = map (map f) pss" using Cons.IH [OF ps(3) [symmetric]] by blast
  then show ?case using ps by (intro exI [of _ "qs # pss"]) simp
qed

lemma sorted_concat: "sorted_wrt R (concat pss) \<Longrightarrow> ps \<in> set pss \<Longrightarrow> sorted_wrt R ps"
  by (induction pss) (auto simp: sorted_wrt_append)

lemma framed_nonempty: "framed lane policy a es \<Longrightarrow> es \<noteq> []"
  by (auto simp: framed_def reconstructed_run_def split: if_splits)

lemma framed_contiguous:
  assumes "framed lane policy a es" and "Suc k < length es"
  shows "checked_add_u64 (ev_lane_sequence (es ! k)) 1 = Some (ev_lane_sequence (es ! Suc k))"
proof -
  have "monotonic_relation (es ! k) (es ! Suc k) \<noteq> Boundary"
    using assms by (auto simp: framed_def reconstructed_run_def run_ok_def linked_def split: if_splits)
  then show ?thesis by (auto simp: monotonic_relation_def split: if_splits)
qed

definition placement :: "EventLedger \<Rightarrow> BlockAssignment \<Rightarrow> nat list \<Rightarrow> bool" where
  "placement l a ps \<longleftrightarrow> members_ok l a ps \<and> assignment_shape a \<and> ba_member_ids a \<noteq> []
     \<and> framed (ba_lane a) source_lane_framing_policy_v1 a (map ((!) (el_events l)) ps)"

lemma framed_placement:
  assumes ok: "ledger_ok l" and f: "framed lane source_lane_framing_policy_v1 a (map ((!) (el_events l)) ps)"
    and sorted: "sorted_wrt (<) ps" and lane: "\<forall>p \<in> set ps. p < length (el_events l) \<and> ev_lane (el_events l ! p) = lane"
  shows "placement l a ps"
proof -
  let ?es = "map ((!) (el_events l)) ps"
  obtain state confidence where a: "a = assignment lane ?es source_lane_framing_policy_v1 state confidence"
    using f unfolding framed_def by blast
  have fields: "ba_lane a = lane" "ba_member_ids a = map ev_id ?es" "ba_member_lane_sequences a = map ev_lane_sequence ?es"
    by (simp_all add: a assignment_def new_same_lane_v1_def)
  have "member_at l a k (ps ! k)" if k: "k < length ps" for k
  proof -
    have p: "ps ! k < length (el_events l)" "ev_lane (el_events l ! (ps ! k)) = lane" using lane k by auto
    moreover have "ev_lane_sequence (?es ! k) = Suc (ev_lane_sequence (?es ! (k - 1))) \<and> ev_lane_sequence (?es ! k) \<le> u64_max" if "0 < k"
      using framed_contiguous [OF f, of "k - 1"] that k by (auto simp: checked_simps)
    ultimately show ?thesis
      using k ledger_index.pos_nth [OF ok p(1)] by (auto simp: member_at_def fields)
  qed
  then have "members_ok l a ps" using sorted by (simp add: members_ok_def members_upto_def fields)
  then show ?thesis using f framed_nonempty [OF f] by (simp add: placement_def assignment_shape_def fields)
qed

lemma lane_placement:
  assumes ok: "ledger_ok l" and es: "es = map ((!) (el_events l)) (lane_indices (el_events l) lane)"
    and frame: "frame_lane lane es source_lane_framing_policy_v1 acc = Inr as"
  shows "\<exists>new pss. as = acc @ new \<and> list_all2 (placement l) new pss \<and> concat pss = lane_indices (el_events l) lane"
proof -
  obtain new runs where new: "as = acc @ new" "list_all2 (framed lane source_lane_framing_policy_v1) new runs" "concat runs = es"
    using frame_lane_from_runs [OF frame [unfolded frame_lane_def]] by auto
  obtain pss where pss: "concat pss = lane_indices (el_events l) lane" "runs = map (map ((!) (el_events l))) pss"
    using concat_eq_map new(3) es by metis
  have "placement l a ps" if "framed lane source_lane_framing_policy_v1 a (map ((!) (el_events l)) ps)" "ps \<in> set pss" for a ps
  proof (rule framed_placement [OF ok that(1)])
    show "sorted_wrt (<) ps" using sorted_concat [of "(<)" pss ps] that(2) lane_indices_sorted pss(1) by metis
    have "set ps \<subseteq> set (lane_indices (el_events l) lane)" using that(2) by (auto simp flip: pss(1))
    then show "\<forall>p \<in> set ps. p < length (el_events l) \<and> ev_lane (el_events l ! p) = lane" by (auto simp: lane_indices_def)
  qed
  then have "list_all2 (placement l) new pss"
    using new(2) pss(2) by (auto simp: list_all2_map2 list_all2_conv_all_nth)
  then show ?thesis using new(1) pss(1) by blast
qed

lemma lanes_placement:
  assumes ok: "ledger_ok l" and lanes: "\<forall>(lane, es) \<in> set lanes. es = map ((!) (el_events l)) (lane_indices (el_events l) lane)"
    and frame: "rfold (\<lambda>acc (lane, es). frame_lane lane es source_lane_framing_policy_v1 acc) [] lanes = Inr as"
  shows "\<exists>pss. list_all2 (placement l) as pss \<and> concat pss = concat (map (\<lambda>(lane, es). lane_indices (el_events l) lane) lanes)"
  using lanes frame
proof (induction lanes arbitrary: as rule: rev_induct)
  case (snoc x lanes)
  obtain lane es where x: "x = (lane, es)" by fastforce
  from snoc.prems(2) obtain acc where acc: "rfold (\<lambda>acc (lane, es). frame_lane lane es source_lane_framing_policy_v1 acc) [] lanes = Inr acc"
    and last: "frame_lane lane es source_lane_framing_policy_v1 acc = Inr as"
    by (auto simp: x rfold_append result_simps)
  obtain pss where pss: "list_all2 (placement l) acc pss" "concat pss = concat (map (\<lambda>(lane, es). lane_indices (el_events l) lane) lanes)"
    using snoc.IH [OF _ acc] snoc.prems(1) by auto
  have "es = map ((!) (el_events l)) (lane_indices (el_events l) lane)" using snoc.prems(1) x by simp
  from lane_placement [OF ok this last] obtain new qss
    where "as = acc @ new" "list_all2 (placement l) new qss" "concat qss = lane_indices (el_events l) lane" by blast
  then show ?case using pss x by (intro exI [of _ "pss @ qss"]) (simp add: list_all2_appendI)
qed simp

lemma lane_indices_set: "set (lane_indices events lane) = {p. p < length events \<and> ev_lane (events ! p) = lane}"
  by (auto simp: lane_indices_def)

lemma lanes_cover:
  assumes "distinct lanes" and "set lanes = ev_lane ` set events"
  shows "distinct (concat (map (lane_indices events) lanes))"
    and "set (concat (map (lane_indices events) lanes)) = {..<length events}"
proof -
  show "distinct (concat (map (lane_indices events) lanes))"
    using assms(1)
    by (induction lanes) (auto simp: lane_indices_set, simp add: lane_indices_def)
  show "set (concat (map (lane_indices events) lanes)) = {..<length events}"
    using assms(2) by (auto simp: lane_indices_set)
qed

lemma frame_lanes_return:
  "\<forall>(lane, es) \<in> set lanes. fits es \<Longrightarrow>
     \<exists>as. rfold (\<lambda>acc (lane, es). frame_lane lane es source_lane_framing_policy_v1 acc) acc lanes = Inr as"
proof (induction lanes arbitrary: acc)
  case (Cons x lanes)
  obtain lane es where x: "x = (lane, es)" by fastforce
  then have "fits es" using Cons.prems by simp
  from frame_lane_from_returns [OF this] obtain as where "frame_lane lane es source_lane_framing_policy_v1 acc = Inr as"
    unfolding frame_lane_def by blast
  then show ?case using Cons x by simp
qed simp

lemma lane_assignments_returns:
  assumes "fits (el_events l)"
  shows "\<exists>as. lane_assignments l = Inr as"
proof -
  have "\<forall>(lane, es) \<in> set (source_lanes (el_events l)). fits es"
    using source_lanes_member(1) assms by (fastforce simp: fits_def)
  then show ?thesis using frame_lanes_return unfolding lane_assignments_def by blast
qed

text \<open>Framing proposes a partition of the ledger into placements.\<close>

lemma lane_assignments_placed:
  assumes ok: "ledger_ok l" and fits: "fits (el_events l)"
  obtains as pss where "lane_assignments l = Inr as" and "list_all2 (placement l) as pss"
    and "distinct (concat pss)" and "set (concat pss) = {..<length (el_events l)}"
proof -
  let ?lanes = "source_lanes (el_events l)"
  obtain as where as: "lane_assignments l = Inr as" using lane_assignments_returns [OF fits] by blast
  have members: "\<forall>(lane, es) \<in> set ?lanes. es = map ((!) (el_events l)) (lane_indices (el_events l) lane)"
    using source_lanes_member(2) by blast
  have "map (\<lambda>(lane, es). lane_indices (el_events l) lane) ?lanes = map (lane_indices (el_events l)) (map fst ?lanes)"
    by (simp add: case_prod_unfold)
  then obtain pss where pss: "list_all2 (placement l) as pss" "concat pss = concat (map (lane_indices (el_events l)) (map fst ?lanes))"
    using lanes_placement [OF ok members] as unfolding lane_assignments_def by metis
  show ?thesis
    using that [OF as pss(1)] lanes_cover [OF bt_ordered_distinct [OF source_lanes_ordered]] source_lanes_keys pss(2)
    by (metis list.set_map)
qed

lemma placement_lists:
  assumes "list_all2 (placement l) as pss"
  shows "list_all2 (members_ok l) as pss" and "\<forall>a \<in> set as. assignment_shape a" and "\<forall>a \<in> set as. ba_member_ids a \<noteq> []"
  using assms by (auto simp: list_all2_conv_all_nth placement_def in_set_conv_nth)

lemma reconcile_collision:
  assumes ok: "ledger_ok l" and p: "list_all2 (placement l) as pss" and d: "distinct (concat pss)"
    and cover: "set (concat pss) = {..<length (el_events l)}" and err: "BlockIndex_reconcile sha256 l as = Inl e"
  shows "\<exists>bid. e = BlockIdCollision bid"
proof (cases "rfold (assignment_loop_step sha256 l) \<lparr>rs_owners = replicate (length (el_events l)) None, rs_seen_ids = [],
      rs_candidates = []\<rparr> (enumerate 0 as)")
  case (Inl e')
  then have "e' = e" using err by (simp add: BlockIndex_reconcile_def)
  then show ?thesis using assignments_loop_Inl [OF ok placement_lists(1) [OF p] _ d] Inl placement_lists [OF p] by blast
next
  case (Inr s)
  then obtain qss where q: "placed sha256 l as qss" using assignments_loop(1) [OF ok placement_lists(2) [OF p]] by blast
  then have "qss = pss" using placement_lists(1) [OF p] by (intro members_lists_unique [of l as]) (simp_all add: placed_def)
  then have "\<exists>i. BlockIndex_reconcile sha256 l as = Inr i"
    using blocks_reconcile_Inr [OF ok placement_lists(2) [OF p]] q cover by blast
  then show ?thesis using err by auto
qed

text \<open>What framing promises about one block of the index.\<close>

definition framed_block :: "EventLedger \<Rightarrow> EventBlock \<Rightarrow> bool" where
  "framed_block l b \<longleftrightarrow>
     (let es = map ((!) (el_events l)) (eb_member_positions b) in
      if eb_state b = Reconstructed then reconstructed_run (eb_confidence b) es else length es = 1)"

lemma framed_state:
  "framed lane policy a es \<Longrightarrow> (if ba_state a = Reconstructed then reconstructed_run (ba_confidence a) es else length es = 1)"
  by (auto simp: framed_def assignment_def new_same_lane_v1_def split: if_splits)

lemma placement_framed_block: "placement l a ps \<Longrightarrow> framed_block l (block_of k (candidate_of sha256 l a ps))"
  using framed_state by (fastforce simp: placement_def framed_block_def block_of_def candidate_of_def Let_def)

lemma reconcile_framed:
  assumes ok: "ledger_ok l" and p: "list_all2 (placement l) as pss" and i: "BlockIndex_reconcile sha256 l as = Inr i"
    and b: "b \<in> set (bi_blocks i)"
  shows "framed_block l b"
proof -
  obtain qss where q: "placed sha256 l as qss" and i': "i = index_of l (sealed_order sha256 l as qss)"
    using blocks_reconcile_Inr [OF ok placement_lists(2) [OF p]] i by blast
  have "qss = pss" using q placement_lists(1) [OF p] by (intro members_lists_unique [of l as]) (simp_all add: placed_def)
  then obtain k c where b': "b = block_of k c" and c: "c \<in> set (sealed_order sha256 l as pss)"
    using b i' by (auto simp: index_of_def in_set_enumerate_eq)
  then obtain a ps where "(a, ps) \<in> set (zip as pss)" "c = candidate_of sha256 l a ps"
    by (auto simp: sealed_order_def)
  then show ?thesis using b' placement_framed_block p by (auto simp: list_all2_iff)
qed

lemma frame_source_lanes_spec:
  assumes ok: "ledger_ok l" and fits: "fits (el_events l)"
  shows "case frame_source_lanes_v1 sha256 l of
      Inr i \<Rightarrow> block_index_ok i \<and> bi_ledger i = l \<and> (\<forall>b \<in> set (bi_blocks i). framed_block l b)
    | Inl e \<Rightarrow> \<exists>bid. e = Reconciliation (BlockIdCollision bid)"
proof -
  obtain as pss where as: "lane_assignments l = Inr as" and p: "list_all2 (placement l) as pss"
    and d: "distinct (concat pss)" and cover: "set (concat pss) = {..<length (el_events l)}"
    by (rule lane_assignments_placed [OF assms])
  show ?thesis
  proof (cases "BlockIndex_reconcile sha256 l as")
    case (Inl e)
    then show ?thesis using reconcile_collision [OF ok p d cover] as by (auto simp: frame_source_lanes_v1_def)
  next
    case (Inr i)
    then show ?thesis
      using reconcile_index_ok [OF ok placement_lists(2) [OF p] Inr] reconcile_framed [OF ok p Inr] as
      by (simp add: frame_source_lanes_v1_def)
  qed
qed

section \<open>Lanes are framed independently\<close>

lemma frame_lane_from_acc:
  "frame_lane_from lane events policy (acc @ new) index =
     rbind (frame_lane_from lane events policy new index) (\<lambda>as. Inr (acc @ as))"
proof (induction lane events policy new index rule: frame_lane_from.induct)
  case (1 lane events policy new index)
  note unfold = frame_lane_from.simps [of lane events policy new index] frame_lane_from.simps [of lane events policy "acc @ new" index]
  show ?case
  proof (cases "length events \<le> index")
    case False
    show ?thesis
    proof (cases "reconstruct events index")
      case (Inr r)
      show ?thesis
      proof (cases r)
        case None
        then show ?thesis using "1.IH"(1) [OF False Inr] False Inr by (simp add: unfold)
      next
        case (Some x)
        obtain "end" cap unc where x: "x = (end, cap, unc)" by (cases x)
        show ?thesis
          using "1.IH"(2,3) [OF False Inr Some x [symmetric] refl] False Inr Some x by (cases "index + 1 < end") (simp_all add: unfold)
      qed
    qed (use False in \<open>simp add: unfold\<close>)
  qed (simp add: unfold)
qed

lemma frame_lane_acc:
  "frame_lane lane events policy acc = rbind (frame_lane lane events policy []) (\<lambda>as. Inr (acc @ as))"
  using frame_lane_from_acc [of lane events policy acc "[]" 0] by (simp add: frame_lane_def)

lemma frame_lane_lanes:
  assumes "frame_lane lane events policy [] = Inr as"
  shows "\<forall>a \<in> set as. ba_lane a = lane"
proof -
  obtain runs where "list_all2 (framed lane policy) as runs"
    using frame_lane_from_runs [OF assms [unfolded frame_lane_def]] by auto
  moreover have "framed lane policy a es \<Longrightarrow> ba_lane a = lane" for a es
    by (auto simp: framed_def assignment_def new_same_lane_v1_def)
  ultimately show ?thesis by (metis in_set_conv_nth list_all2_conv_all_nth)
qed

lemma lanes_independent:
  assumes "rfold (\<lambda>acc (lane, es). frame_lane lane es source_lane_framing_policy_v1 acc) acc lanes = Inr as"
    and "distinct (map fst lanes)"
  shows "\<exists>new. as = acc @ new \<and> (\<forall>lane. Inr (filter (\<lambda>a. ba_lane a = lane) new) =
    (case map_of lanes lane of None \<Rightarrow> Inr [] | Some es \<Rightarrow> frame_lane lane es source_lane_framing_policy_v1 []))"
  using assms
proof (induction lanes arbitrary: acc)
  case (Cons x lanes)
  obtain lane es where x: "x = (lane, es)" by fastforce
  from Cons.prems(1) obtain first where first: "frame_lane lane es source_lane_framing_policy_v1 [] = Inr first"
    and rest: "rfold (\<lambda>acc (lane, es). frame_lane lane es source_lane_framing_policy_v1 acc) (acc @ first) lanes = Inr as"
    by (auto simp: x result_simps frame_lane_acc [of lane es source_lane_framing_policy_v1 acc])
  from Cons.IH [OF rest] Cons.prems(2) obtain new where new: "as = (acc @ first) @ new"
    "\<And>lane. Inr (filter (\<lambda>a. ba_lane a = lane) new) =
       (case map_of lanes lane of None \<Rightarrow> Inr [] | Some es \<Rightarrow> frame_lane lane es source_lane_framing_policy_v1 [])" by auto
  have none: "map_of lanes lane = None" using Cons.prems(2) by (simp add: x map_of_eq_None_iff)
  have "Inr (filter (\<lambda>a. ba_lane a = other) (first @ new)) =
      (case map_of (x # lanes) other of None \<Rightarrow> Inr [] | Some es \<Rightarrow> frame_lane other es source_lane_framing_policy_v1 [])" for other
  proof (cases "other = lane")
    case True
    have "filter (\<lambda>a. ba_lane a = lane) new = []" using new(2) [of lane] none by simp
    then show ?thesis using True first frame_lane_lanes [OF first] by (simp add: x)
  next
    case False
    have "filter (\<lambda>a. ba_lane a = other) first = []" using frame_lane_lanes [OF first] False by (auto simp: filter_empty_conv)
    then show ?thesis using False new(2) [of other] by (simp add: x)
  qed
  then show ?case using new(1) by (intro exI [of _ "first @ new"]) simp
qed simp

end
