(* ===== verification/Framing_Properties.thy ===== *)
theory Framing_Properties
  imports Framing_Partition Ledger_Properties
begin

text \<open>
  Properties of block reconciliation and of the source-lane framer over sealed ledgers.
\<close>

section \<open>Samples\<close>

text \<open>A sealed ledger with one event, and the four lines of a Go panic followed by an ordinary line.\<close>

lemma sample_sealed_with:
  assumes "length payload \<le> 1000"
  obtains b l e where "reachable sha256 (\<lambda>_. AuthorizeSourceExact) b"
    and "seal sha256 b (sample_completion b) = Inr l" and "el_events l = [e]"
    and "ev_lane e = (''a'', Stdout)" and "ev_lane_sequence e = 0" and "ev_raw e = payload @ [CHR 0x0A]" and "ev_record_state e = RecordComplete"
proof -
  let ?p = "\<lambda>_. AuthorizeSourceExact"
  have r: "reachable sha256 ?p sample_new" unfolding sample_new_def by (rule reachable_new)
  have "\<exists>ack b e. accept sha256 ?p sample_new (sample_first payload) = (Inr ack, b) \<and> lb_events b = [e]
      \<and> ev_lane e = (''a'', Stdout) \<and> ev_lane_sequence e = 0 \<and> ev_raw e = payload @ [CHR 0x0A] \<and> ev_record_state e = RecordComplete"
    using assms by (simp add: accept_def accept_plan_def validate_identity_def authorize_retained persist_authorized_def
      authorized_event_def receipt_collides_def sample_defs checked_add_u64_def u64_try_from_def payload_len_def source_len_def
      saturating_add_u64_def Let_def)
  then obtain ack b e where run: "accept sha256 ?p sample_new (sample_first payload) = (Inr ack, b)" "lb_events b = [e]"
    "ev_lane e = (''a'', Stdout)" "ev_lane_sequence e = 0" "ev_raw e = payload @ [CHR 0x0A]" "ev_record_state e = RecordComplete" by blast
  have reach: "reachable sha256 ?p b" using reachable_accept [OF r, of "sample_first payload"] run(1) by simp
  then obtain l where l: "seal sha256 b (sample_completion b) = Inr l"
    using sample_seals reachable_builder_ok by blast
  then have "el_events l = [e]" using run(2) by (simp add: seal_Inr [OF reachable_builder_ok [OF reach]])
  then show thesis using that reach l run by blast
qed

lemma sample_sealed:
  obtains b l e where "reachable sample_sha256 (\<lambda>_. AuthorizeSourceExact) b"
    and "seal sample_sha256 b (sample_completion b) = Inr l" and "el_events l = [e]"
    and "ev_lane e = (''a'', Stdout)" and "ev_lane_sequence e = 0" and "ev_raw e = ''ok'' @ [CHR 0x0A]"
  by (rule sample_sealed_with [where payload = "''ok''"]) simp_all

definition sample_line :: "nat \<Rightarrow> bytes \<Rightarrow> Event" where
  "sample_line k line = \<lparr>ev_id = [char_of k], ev_source_record_id = [char_of k], ev_content_hash = [], ev_exactness_basis = SourceExact,
     ev_ordinal = k, ev_acquisition_sequence = k, ev_lane = (''a'', Stderr), ev_lane_sequence = k,
     ev_raw = line @ [CHR 0x0A], ev_payload_len = length line, ev_terminator_len = Some 1, ev_native_event_id = None,
     ev_cursor = None, ev_record_state = RecordComplete, ev_timestamps = EnvelopeTimestamps_default, ev_metadata = None,
     ev_provider_attestations = [], ev_hints = \<lparr>hint_format = None, hint_encoding = None\<rparr>\<rparr>"

definition sample_panic :: "Event list" where
  "sample_panic = [sample_line 0 ''panic: boom'', sample_line 1 ''goroutine 1 [running]:'',
     sample_line 2 ''main.main()'', sample_line 3 ''done'']"

text \<open>A ledger in which a line of another lane stands inside the panic.\<close>

definition sample_interleaved :: "Event list" where
  "sample_interleaved = [sample_line 0 ''panic: boom'', (sample_line 4 ''tick'')\<lparr>ev_lane := (''b'', Stdout)\<rparr>,
     sample_line 1 ''goroutine 1 [running]:'', sample_line 2 ''main.main()'', sample_line 3 ''done'']"

lemma sample_panic_framed:
  "frame_lane (''a'', Stderr) sample_panic source_lane_framing_policy_v1 [] =
     Inr [assignment (''a'', Stderr) (take 3 sample_panic) source_lane_framing_policy_v1 Reconstructed Medium,
          assignment (''a'', Stderr) (drop 3 sample_panic) source_lane_framing_policy_v1 FallbackSingleton Certain]"
  by code_simp

section \<open>Reconciliation\<close>

definition proposed :: "BlockAssignment \<Rightarrow> bool" where
  "proposed a \<longleftrightarrow> (\<exists>lane members policy state confidence. a = new_same_lane_v1 lane members policy state confidence)"

lemma proposed_shape: "\<forall>a \<in> set as. proposed a \<Longrightarrow> \<forall>a \<in> set as. assignment_shape a"
  by (auto simp: proposed_def)

lemma sealed_ok: "reachable sha256 policy b \<Longrightarrow> seal sha256 b completion = Inr l \<Longrightarrow> ledger_ok l"
  using seal_ledger_ok reachable_builder_ok by blast

text \<open>
  C28.  \<open>BlockIndex::reconcile\<close> accepts a list of proposals exactly when they partition the sealed
  ledger: there are position lists, one per proposal, each non-empty, increasing, within the
  proposal's lane, with consecutive lane sequences equal to the declared ones and the declared
  identities; no position is used twice, every position is used, and no two block identities
  coincide.
\<close>

theorem reconcile_accepts_exactly_partitions:
  assumes "reachable sha256 policy b" and "seal sha256 b completion = Inr l" and "\<forall>a \<in> set as. proposed a"
  shows "(\<exists>i. BlockIndex_reconcile sha256 l as = Inr i) \<longleftrightarrow>
    (\<exists>pss. list_all2 (members_ok l) as pss \<and> (\<forall>a \<in> set as. ba_member_ids a \<noteq> [])
       \<and> distinct (concat pss) \<and> set (concat pss) = {..<length (el_events l)}
       \<and> distinct (map (assignment_block_id sha256 l) as))"
proof -
  note ok = sealed_ok [OF assms(1,2)] and shape = proposed_shape [OF assms(3)]
  have "(\<exists>i. BlockIndex_reconcile sha256 l as = Inr i) \<longleftrightarrow>
      (\<exists>pss. placed sha256 l as pss \<and> {..<length (el_events l)} \<subseteq> set (concat pss))"
    using blocks_reconcile_Inr [OF ok shape] by blast
  also have "\<dots> \<longleftrightarrow> (\<exists>pss. placed sha256 l as pss \<and> set (concat pss) = {..<length (el_events l)})"
    using placed_subset [OF ok] by blast
  finally show ?thesis unfolding placed_def by blast
qed

lemma sample_members:
  assumes "ledger_ok l" and "el_events l = [e]"
  shows "members_ok l (assignment (ev_lane e) [e] source_lane_framing_policy_v1 FallbackSingleton Certain) [0]"
  using ledger_index.pos_nth [OF assms(1), of 0] assms(2)
  by (simp add: members_ok_def members_upto_def member_at_def assignment_def new_same_lane_v1_def)

lemma sample_proposed: "proposed (assignment lane es policy state confidence)"
  unfolding proposed_def assignment_def by blast

lemma sample_reconciled:
  assumes "reachable sha256 policy b" and "seal sha256 b completion = Inr l" and "el_events l = [e]"
  shows "\<exists>i. BlockIndex_reconcile sha256 l
    [assignment (ev_lane e) [e] source_lane_framing_policy_v1 FallbackSingleton Certain] = Inr i"
proof -
  let ?a = "assignment (ev_lane e) [e] source_lane_framing_policy_v1 FallbackSingleton Certain"
  note ok = sealed_ok [OF assms(1,2)]
  have "placed sha256 l [?a] [[0]]"
    using sample_members [OF ok assms(3)] by (simp add: placed_def assignment_def new_same_lane_v1_def)
  then show ?thesis
    using blocks_reconcile_Inr [OF ok, of "[?a]" sha256] proposed_shape [of "[?a]"] sample_proposed assms(3)
    by (auto simp: lessThan_Suc)
qed

theorem reconcile_accepts_exactly_partitions_witness:
  "\<exists>b l e. reachable sample_sha256 (\<lambda>_. AuthorizeSourceExact) b \<and> seal sample_sha256 b (sample_completion b) = Inr l
     \<and> el_events l = [e]
     \<and> (\<exists>i. BlockIndex_reconcile sample_sha256 l
          [assignment (ev_lane e) [e] source_lane_framing_policy_v1 FallbackSingleton Certain] = Inr i)
     \<and> \<not> (\<exists>i. BlockIndex_reconcile sample_sha256 l [] = Inr i)"
proof -
  obtain b l e where s: "reachable sample_sha256 (\<lambda>_. AuthorizeSourceExact) b" "seal sample_sha256 b (sample_completion b) = Inr l"
    "el_events l = [e]" by (rule sample_sealed)
  let ?a = "assignment (ev_lane e) [e] source_lane_framing_policy_v1 FallbackSingleton Certain"
  have "list_all2 (members_ok l) [?a] [[0]]" using sample_members [OF sealed_ok [OF s(1,2)] s(3)] by simp
  moreover have "(\<forall>a \<in> set [?a]. ba_member_ids a \<noteq> []) \<and> distinct (concat [[0 :: nat]])
      \<and> set (concat [[0]]) = {..<length (el_events l)} \<and> distinct (map (assignment_block_id sample_sha256 l) [?a])"
    by (simp add: assignment_def new_same_lane_v1_def s(3) lessThan_Suc)
  moreover have "\<forall>a \<in> set [?a]. proposed a" using sample_proposed by simp
  ultimately have "\<exists>i. BlockIndex_reconcile sample_sha256 l [?a] = Inr i"
    using reconcile_accepts_exactly_partitions [OF s(1,2), of "[?a]"] by blast
  moreover have "\<not> (\<exists>i. BlockIndex_reconcile sample_sha256 l [] = Inr i)"
    using reconcile_accepts_exactly_partitions [OF s(1,2), of "[]"] s(3) by (simp add: lessThan_Suc)
  ultimately show ?thesis using s by blast
qed

text \<open>
  C29.  On a reconciled index every event of the ledger belongs to exactly one block; looking that
  block up by the event, by its identity and by expansion succeeds without a panic and returns the
  member events of that block, all of the same lane.
\<close>

theorem reconciled_index_answers:
  assumes "reachable sha256 policy b" and "seal sha256 b completion = Inr l" and "\<forall>a \<in> set as. proposed a"
    and "BlockIndex_reconcile sha256 l as = Inr i" and "e \<in> set (el_events l)"
  shows "\<exists>blk \<in> set (bi_blocks i). block_for_event i (ev_id e) = Inr blk \<and> block i (eb_id blk) = Inr blk
    \<and> (\<forall>other \<in> set (bi_blocks i). ev_id e \<in> set (eb_member_ids other) \<longrightarrow> other = blk)
    \<and> (\<exists>x. expand_event i (ev_id e) = Inr x \<and> be_block x = blk \<and> e \<in> set (be_events x)
         \<and> map ev_id (be_events x) = eb_member_ids blk
         \<and> (\<forall>f \<in> set (be_events x). f \<in> set (el_events l) \<and> ev_lane f = ev_lane e))"
proof -
  have ok: "block_index_ok i" and l: "bi_ledger i = l"
    using reconcile_index_ok [OF sealed_ok [OF assms(1,2)] proposed_shape [OF assms(3)] assms(4)] by simp_all
  obtain k where k: "k < length (bi_blocks i)" "ev_id e \<in> set (eb_member_ids (bi_blocks i ! k))"
    using event_in_block [OF ok] assms(5) l by metis
  let ?blk = "bi_blocks i ! k"
  have blk: "?blk \<in> set (bi_blocks i)" "block_ok l ?blk" using k ok l by (auto simp: block_index_ok_def)
  have at: "map_of (bi_event_block_positions i) (ev_id e) = Some k" using block_event_iff [OF ok] k by blast
  have lookup: "block_for_event i (ev_id e) = Inr ?blk" using block_for_event_lookup [OF ok] at by simp
  have "block i (eb_id ?blk) = Inr ?blk" using block_lookup [OF ok] block_index.pos_nth [OF ok k(1)] by simp
  moreover have "\<forall>other \<in> set (bi_blocks i). ev_id e \<in> set (eb_member_ids other) \<longrightarrow> other = ?blk"
    using block_event_iff [OF ok] at by (metis in_set_conv_nth option.inject)
  moreover have "\<exists>x. expand_event i (ev_id e) = Inr x \<and> be_block x = ?blk \<and> e \<in> set (be_events x)
         \<and> map ev_id (be_events x) = eb_member_ids ?blk
         \<and> (\<forall>f \<in> set (be_events x). f \<in> set (el_events l) \<and> ev_lane f = ev_lane e)"
  proof -
    let ?es = "map ((!) (el_events l)) (eb_member_positions ?blk)"
    have ids: "map ev_id ?es = eb_member_ids ?blk" using blk(2) by (simp add: block_ok_def comp_def)
    have es: "set ?es \<subseteq> set (el_events l)" "\<forall>f \<in> set ?es. ev_lane f = eb_lane ?blk" using blk(2) by (auto simp: block_ok_def)
    have "ev_id e \<in> set (map ev_id ?es)" using k(2) ids by simp
    then obtain f where f: "f \<in> set ?es" "ev_id f = ev_id e" by (metis image_iff list.set_map)
    have "f = e" using f es(1) assms(5) ledger_index.keys_distinct [OF sealed_ok [OF assms(1,2)]]
      by (metis distinct_map inj_onD subsetD)
    then have e: "e \<in> set ?es" using f by simp
    have "expand_event i (ev_id e) = Inr \<lparr>be_block = ?blk, be_events = ?es\<rparr>"
      using lookup expansion_ok [OF ok blk(1)] l by (simp add: expand_event_def)
    moreover have "\<forall>f \<in> set ?es. f \<in> set (el_events l) \<and> ev_lane f = ev_lane e"
      using subsetD [OF es(1)] bspec [OF es(2)] bspec [OF es(2) e] by simp
    ultimately show ?thesis using ids e by (intro exI [of _ "\<lparr>be_block = ?blk, be_events = ?es\<rparr>"]) simp
  qed
  ultimately show ?thesis using blk(1) lookup by blast
qed

theorem reconciled_index_answers_witness:
  "\<exists>b l e i. reachable sample_sha256 (\<lambda>_. AuthorizeSourceExact) b \<and> seal sample_sha256 b (sample_completion b) = Inr l
     \<and> el_events l = [e]
     \<and> BlockIndex_reconcile sample_sha256 l
          [assignment (ev_lane e) [e] source_lane_framing_policy_v1 FallbackSingleton Certain] = Inr i
     \<and> (\<exists>blk. block_for_event i (ev_id e) = Inr blk)"
proof -
  obtain b l e where s: "reachable sample_sha256 (\<lambda>_. AuthorizeSourceExact) b" "seal sample_sha256 b (sample_completion b) = Inr l"
    "el_events l = [e]" by (rule sample_sealed)
  let ?a = "assignment (ev_lane e) [e] source_lane_framing_policy_v1 FallbackSingleton Certain"
  obtain i where i: "BlockIndex_reconcile sample_sha256 l [?a] = Inr i" using sample_reconciled [OF s] by blast
  have "\<forall>a \<in> set [?a]. proposed a" and "e \<in> set (el_events l)" using sample_proposed s(3) by simp_all
  from reconciled_index_answers [OF s(1,2) this(1) i this(2)] show ?thesis using s i by blast
qed

section \<open>Framing\<close>

text \<open>
  C30.  Framing a sealed ledger returns, whatever its events: either an index whose blocks partition
  the ledger, in which every block is a single event or a reconstructed run of at most 256 joinable,
  lane-adjacent lines of at most 1 MiB in total (every gap measured and within the bound when the
  confidence is \<open>High\<close>), or the report that two block identities collide.  No other error of
  reconciliation and no byte-count overflow can occur.
\<close>

theorem framing_partitions_sealed_ledger:
  assumes "reachable sha256 policy b" and "seal sha256 b completion = Inr l" and "fits (el_events l)"
  shows "case frame_source_lanes_v1 sha256 l of
      Inr i \<Rightarrow> block_index_ok i \<and> bi_ledger i = l \<and> (\<forall>blk \<in> set (bi_blocks i). framed_block l blk)
    | Inl e \<Rightarrow> \<exists>bid. e = Reconciliation (BlockIdCollision bid)"
  by (rule frame_source_lanes_spec [OF sealed_ok [OF assms(1,2)] assms(3)])

theorem framing_partitions_sealed_ledger_witness:
  "\<exists>b l. reachable sample_sha256 (\<lambda>_. AuthorizeSourceExact) b \<and> seal sample_sha256 b (sample_completion b) = Inr l
     \<and> length (el_events l) = 1
     \<and> (case frame_source_lanes_v1 sample_sha256 l of
          Inr i \<Rightarrow> block_index_ok i \<and> bi_ledger i = l \<and> (\<forall>blk \<in> set (bi_blocks i). framed_block l blk)
        | Inl e \<Rightarrow> \<exists>bid. e = Reconciliation (BlockIdCollision bid))"
proof -
  obtain b l e where s: "reachable sample_sha256 (\<lambda>_. AuthorizeSourceExact) b" "seal sample_sha256 b (sample_completion b) = Inr l"
    "el_events l = [e]" "ev_raw e = ''ok'' @ [CHR 0x0A]" by (rule sample_sealed)
  then have "fits (el_events l)" by (simp add: fits_def)
  from framing_partitions_sealed_ledger [OF s(1,2) this] show ?thesis using s(1-3) by auto
qed

text \<open>
  Lanes are framed independently: the proposals for a lane are exactly those of scanning the lane's
  events alone.
\<close>

lemma framing_is_lane_local:
  assumes "lane_assignments l = Inr as"
  shows "frame_lane lane (filter (\<lambda>e. ev_lane e = lane) (el_events l)) source_lane_framing_policy_v1 []
    = Inr (filter (\<lambda>a. ba_lane a = lane) as)"
proof -
  have "frame_lane lane [] source_lane_framing_policy_v1 [] = Inr []" by (simp add: frame_lane_def frame_lane_from.simps)
  moreover obtain new where "as = [] @ new" and "Inr (filter (\<lambda>a. ba_lane a = lane) new) =
      (case map_of (source_lanes (el_events l)) lane of None \<Rightarrow> Inr []
       | Some es \<Rightarrow> frame_lane lane es source_lane_framing_policy_v1 [])"
    using lanes_independent [OF assms [unfolded lane_assignments_def] bt_ordered_distinct [OF source_lanes_ordered]] by blast
  ultimately show ?thesis by (simp add: source_lanes_lookup split: if_splits)
qed

text \<open>What a proposal says of the events it covers: they are a singleton or a reconstructed run within the caps.\<close>

definition proposes_run :: "LaneKey \<Rightarrow> BlockAssignment \<Rightarrow> Event list \<Rightarrow> bool" where
  "proposes_run lane a es \<longleftrightarrow> (\<exists>state confidence. a = assignment lane es source_lane_framing_policy_v1 state confidence
      \<and> (if state = Reconstructed
         then 1 < length es \<and> length es \<le> MAX_RECONSTRUCTED_BLOCK_LINES_V1
           \<and> raw_bytes es \<le> MAX_RECONSTRUCTED_BLOCK_BYTES_V1 \<and> (\<forall>e \<in> set es. is_joinable_line e)
           \<and> (\<forall>k. Suc k < length es \<longrightarrow> monotonic_relation (es ! k) (es ! Suc k) \<noteq> Boundary
                \<and> (confidence = High \<longrightarrow> monotonic_relation (es ! k) (es ! Suc k) = WithinBound))
         else length es = 1))"

lemma framed_proposes_run: "framed lane source_lane_framing_policy_v1 a es \<Longrightarrow> proposes_run lane a es"
proof -
  assume "framed lane source_lane_framing_policy_v1 a es"
  then obtain state confidence where a: "a = assignment lane es source_lane_framing_policy_v1 state confidence"
    and run: "if state = Reconstructed then reconstructed_run confidence es else \<exists>e. es = [e]"
    unfolding framed_def by blast
  then show ?thesis
    unfolding proposes_run_def by (intro exI [of _ state] exI [of _ confidence] conjI a)
      (auto simp: reconstructed_run_def run_ok_def linked_def split: if_splits)
qed

text \<open>
  C31.  Framing terminates with a list of proposals on every ledger whose records fit in memory.  Each
  lane is scanned on its own: its proposals cut the events of the lane, alone and in order, into
  consecutive runs without loss, whatever the other lanes hold between them, and each is a singleton
  or a reconstructed run within the caps on lines, bytes and gaps.
\<close>

theorem lane_framing_cuts_into_runs:
  assumes "fits (el_events l)"
  shows "\<exists>as. lane_assignments l = Inr as \<and> (\<forall>lane. \<exists>runs. concat runs = filter (\<lambda>e. ev_lane e = lane) (el_events l)
    \<and> list_all2 (proposes_run lane) (filter (\<lambda>a. ba_lane a = lane) as) runs)"
proof -
  obtain as where as: "lane_assignments l = Inr as" using lane_assignments_returns [OF assms] by blast
  have "\<exists>runs. concat runs = filter (\<lambda>e. ev_lane e = lane) (el_events l)
      \<and> list_all2 (proposes_run lane) (filter (\<lambda>a. ba_lane a = lane) as) runs" for lane
    using frame_lane_from_runs [OF framing_is_lane_local [OF as, of lane, unfolded frame_lane_def]]
    by (auto intro: list_all2_mono framed_proposes_run)
  then show ?thesis using as by blast
qed

theorem lane_framing_cuts_into_runs_witness:
  "\<exists>l as runs. el_events l = sample_interleaved \<and> lane_assignments l = Inr as
     \<and> filter (\<lambda>a. ba_lane a = (''a'', Stderr)) as =
         [assignment (''a'', Stderr) (take 3 sample_panic) source_lane_framing_policy_v1 Reconstructed Medium,
          assignment (''a'', Stderr) (drop 3 sample_panic) source_lane_framing_policy_v1 FallbackSingleton Certain]
     \<and> concat runs = sample_panic \<and> length runs = 2"
proof -
  obtain l :: EventLedger where l: "el_events l = sample_interleaved"
    by (rule that [of "\<lparr>el_retrieval_id = [], el_plan_id = [], el_plan_digest = [], el_source_identity_digest = [],
      el_adapter = fetch_adapter sample_identity, el_completion = sample_completion sample_new, el_acquisition_receipt_id = [],
      el_acquisition_receipt = sealed_receipt sample_new, el_transformation_receipts = [], el_events = sample_interleaved,
      el_positions = [], el_lane_positions = []\<rparr>"]) simp
  have "fits (el_events l)" by (simp add: fits_def l sample_interleaved_def sample_line_def)
  from lane_framing_cuts_into_runs [OF this] obtain as runs where as: "lane_assignments l = Inr as"
    and runs: "concat runs = filter (\<lambda>e. ev_lane e = (''a'', Stderr)) (el_events l)"
      "list_all2 (proposes_run (''a'', Stderr)) (filter (\<lambda>a. ba_lane a = (''a'', Stderr)) as) runs" by blast
  have panic: "filter (\<lambda>e. ev_lane e = (''a'', Stderr)) sample_interleaved = sample_panic"
    by (simp add: sample_interleaved_def sample_panic_def sample_line_def)
  then have "filter (\<lambda>a. ba_lane a = (''a'', Stderr)) as =
      [assignment (''a'', Stderr) (take 3 sample_panic) source_lane_framing_policy_v1 Reconstructed Medium,
       assignment (''a'', Stderr) (drop 3 sample_panic) source_lane_framing_policy_v1 FallbackSingleton Certain]"
    using framing_is_lane_local [OF as, of "(''a'', Stderr)"] sample_panic_framed l by simp
  moreover from this have "length runs = 2" using list_all2_lengthD [OF runs(2)] by simp
  ultimately show ?thesis using as l runs(1) panic by (intro exI [of _ l] exI [of _ as] exI [of _ runs]) simp
qed

end
