(* ===== verification/Presentation.thy ===== *)
theory Presentation
  imports Ledger_Sealed
begin

text \<open>
  Presentation accounting: dispositions and counts (\<open>evidentrail-schema/src/coverage.rs\<close>), the
  exhaustive presentation receipt (\<open>evidentrail-core/src/coverage.rs\<close>), the passthrough decision
  (\<open>passthrough.rs\<close>) and the result status (\<open>result_status.rs\<close>).
\<close>

section \<open>Receipts\<close>

type_synonym PatternId = bytes

datatype PresentationDisposition = ShownVerbatim | PatternRepresented PatternId | RetainedRaw

record PresentationCounts =
  shown_verbatim :: nat
  pattern_represented :: nat
  retained_raw :: nat

definition presented_total :: "PresentationCounts \<Rightarrow> nat" where
  "presented_total c = shown_verbatim c + pattern_represented c + retained_raw c"

definition PresentationCounts_default :: PresentationCounts where
  "PresentationCounts_default = \<lparr>shown_verbatim = 0, pattern_represented = 0, retained_raw = 0\<rparr>"

type_synonym PresentationAssignment = "EventId \<times> PresentationDisposition"
type_synonym PresentationReceiptEntry = "EventId \<times> PresentationDisposition"

datatype PresentationReconciliationError =
    PresentationUnknownEvent EventId | PresentationDuplicateAssignment EventId
  | PresentationMissingAssignments "EventId list" | PresentationPanic

record PresentationReceipt =
  pr_id :: PresentationReceiptId
  pr_retrieval_id :: RetrievalId
  pr_entries :: "PresentationReceiptEntry list"
  pr_counts :: PresentationCounts

fun hash_disposition :: "bytes \<Rightarrow> PresentationDisposition \<Rightarrow> bytes" where
  "hash_disposition hasher ShownVerbatim = update_field hasher ''shown-verbatim''"
| "hash_disposition hasher (PatternRepresented pattern_id) =
     update_field (update_field hasher ''pattern-represented'') pattern_id"
| "hash_disposition hasher RetainedRaw = update_field hasher ''retained-raw''"

definition presentation_receipt_id ::
  "(bytes \<Rightarrow> bytes) \<Rightarrow> RetrievalId \<Rightarrow> PresentationReceiptEntry list \<Rightarrow> PresentationReceiptId" where
  "presentation_receipt_id sha256 retrieval entries =
     sha256 (foldl (\<lambda>hasher (eid, disposition). hash_disposition (update_field hasher eid) disposition)
       (presentation_receipt_hasher retrieval) entries)"

definition presentation_step ::
  "EventLedger \<Rightarrow> (EventId, PresentationDisposition) btree_map \<Rightarrow> PresentationAssignment \<Rightarrow>
   (PresentationReconciliationError, (EventId, PresentationDisposition) btree_map) result" where
  "presentation_step l by_id a =
     (case a of (eid, disposition) \<Rightarrow>
       if \<not> contains l eid then Inl (PresentationUnknownEvent eid)
       else if map_of by_id eid \<noteq> None then Inl (PresentationDuplicateAssignment eid)
       else Inr (bt_insert eid disposition by_id))"

fun count_disposition :: "PresentationDisposition \<Rightarrow> PresentationCounts \<Rightarrow> PresentationCounts" where
  "count_disposition ShownVerbatim c = c\<lparr>shown_verbatim := shown_verbatim c + 1\<rparr>"
| "count_disposition (PatternRepresented _) c = c\<lparr>pattern_represented := pattern_represented c + 1\<rparr>"
| "count_disposition RetainedRaw c = c\<lparr>retained_raw := retained_raw c + 1\<rparr>"

text \<open>
  The closure over the events in ledger order: it removes the disposition from the map, counts it
  and emits the entry.  \<open>PresentationPanic\<close> stands for the \<open>expect\<close> on the lookup.
\<close>

definition present_entry_step ::
  "PresentationReceiptEntry list \<times> PresentationCounts \<times> (EventId, PresentationDisposition) btree_map \<Rightarrow> Event \<Rightarrow>
   (PresentationReconciliationError, PresentationReceiptEntry list \<times> PresentationCounts \<times> (EventId, PresentationDisposition) btree_map) result" where
  "present_entry_step state e =
     (case state of (entries, counts, by_id) \<Rightarrow>
       rbind (ok_or PresentationPanic (map_of by_id (ev_id e))) (\<lambda>disposition.
       Inr (entries @ [(ev_id e, disposition)], count_disposition disposition counts, bt_remove (ev_id e) by_id)))"

definition PresentationReceipt_reconcile ::
  "(bytes \<Rightarrow> bytes) \<Rightarrow> EventLedger \<Rightarrow> PresentationAssignment list \<Rightarrow>
   (PresentationReconciliationError, PresentationReceipt) result" where
  "PresentationReceipt_reconcile sha256 l assignments =
     rbind (rfold (presentation_step l) [] assignments) (\<lambda>by_id.
     let missing = filter (\<lambda>eid. map_of by_id eid = None) (map ev_id (el_events l)) in
     if missing \<noteq> [] then Inl (PresentationMissingAssignments missing)
     else rbind (rfold present_entry_step ([], PresentationCounts_default, by_id) (el_events l)) (\<lambda>(entries, counts, rest).
     Inr \<lparr>pr_id = presentation_receipt_id sha256 (el_retrieval_id l) entries, pr_retrieval_id = el_retrieval_id l,
          pr_entries = entries, pr_counts = counts\<rparr>))"

section \<open>Passthrough\<close>

record WholeRenderAssessmentV1 =
  total_rendered_tokens :: nat
  total_token_limit :: nat

definition assessment_fits :: "WholeRenderAssessmentV1 \<Rightarrow> bool" where
  "assessment_fits a \<longleftrightarrow> total_rendered_tokens a \<le> total_token_limit a"

record PassthroughSelection =
  ps_assessment :: WholeRenderAssessmentV1
  ps_presentation_receipt :: PresentationReceipt

datatype PassthroughDecision = PassthroughSelected PassthroughSelection | CompilationRequired WholeRenderAssessmentV1

datatype PassthroughSelectionError = PresentationInvariantViolation

definition select_whole_render_passthrough ::
  "(bytes \<Rightarrow> bytes) \<Rightarrow> EventLedger \<Rightarrow> WholeRenderAssessmentV1 \<Rightarrow>
   (PassthroughSelectionError, PassthroughDecision) result" where
  "select_whole_render_passthrough sha256 l assessment =
     (if \<not> assessment_fits assessment then Inr (CompilationRequired assessment)
      else rbind (map_err (\<lambda>_. PresentationInvariantViolation)
          (PresentationReceipt_reconcile sha256 l (map (\<lambda>e. (ev_id e, ShownVerbatim)) (el_events l)))) (\<lambda>receipt.
        Inr (PassthroughSelected \<lparr>ps_assessment = assessment, ps_presentation_receipt = receipt\<rparr>)))"

section \<open>Result status\<close>

datatype NeedsMoreReasonV1 =
    FixedOverheadExceedsBudget | MandatoryEvidenceExceedsBudget | CandidateConfidenceBelowSupportedEnvelope
  | QuestionUnsupported | ScopeUnsupported | NeedsMoreOtherVersioned nat nat

datatype SelectionStateV1 =
    StatePassthrough PassthroughSelection | StateCompiled PresentationReceipt
  | StateNeedsMore NeedsMoreReasonV1 PresentationReceipt

fun state_presentation_receipt :: "SelectionStateV1 \<Rightarrow> PresentationReceipt" where
  "state_presentation_receipt (StatePassthrough selection) = ps_presentation_receipt selection"
| "state_presentation_receipt (StateCompiled receipt) = receipt"
| "state_presentation_receipt (StateNeedsMore _ receipt) = receipt"

record ResultStatusV1 =
  status_acquisition :: FetchCompleteness
  status_selection :: SelectionStateV1

datatype ResultStatusConstructionError =
    PresentationRetrievalMismatch | PresentationEventCountMismatch | PresentationEventOrderMismatch
  | PresentationCountMismatch | InvalidPassthroughAccounting | CompiledMasqueradesAsPassthrough
  | CompiledHasNoPresentedEvidence | NeedsMoreAccountingInvariantViolation

text \<open>\<open>unaccounted_count\<close> is the constant 0, so its comparison with 0 never fails.\<close>

definition validate_receipt_binding ::
  "EventLedger \<Rightarrow> PresentationReceipt \<Rightarrow> (ResultStatusConstructionError, unit) result" where
  "validate_receipt_binding l receipt =
     (if pr_retrieval_id receipt \<noteq> el_retrieval_id l then Inl PresentationRetrievalMismatch
      else if length (pr_entries receipt) \<noteq> length (el_events l) then Inl PresentationEventCountMismatch
      else if list_ex (\<lambda>(entry, e). fst entry \<noteq> ev_id e) (zip (pr_entries receipt) (el_events l))
      then Inl PresentationEventOrderMismatch
      else if presented_total (pr_counts receipt) \<noteq> length (el_events l) then Inl PresentationCountMismatch
      else Inr ())"

definition status_passthrough ::
  "EventLedger \<Rightarrow> PassthroughSelection \<Rightarrow> (ResultStatusConstructionError, ResultStatusV1) result" where
  "status_passthrough l selection =
     (let receipt = ps_presentation_receipt selection in
      rbind (validate_receipt_binding l receipt) (\<lambda>_.
      let counts = pr_counts receipt in
      if shown_verbatim counts \<noteq> length (el_events l) \<or> pattern_represented counts \<noteq> 0 \<or> retained_raw counts \<noteq> 0
        \<or> list_ex (\<lambda>entry. snd entry \<noteq> ShownVerbatim) (pr_entries receipt)
      then Inl InvalidPassthroughAccounting
      else Inr \<lparr>status_acquisition = completion_completeness (el_completion l),
                status_selection = StatePassthrough selection\<rparr>))"

definition status_compiled ::
  "EventLedger \<Rightarrow> PresentationReceipt \<Rightarrow> (ResultStatusConstructionError, ResultStatusV1) result" where
  "status_compiled l receipt =
     rbind (validate_receipt_binding l receipt) (\<lambda>_.
     let counts = pr_counts receipt in
     if shown_verbatim counts = length (el_events l) then Inl CompiledMasqueradesAsPassthrough
     else if shown_verbatim counts = 0 \<and> pattern_represented counts = 0 then Inl CompiledHasNoPresentedEvidence
     else Inr \<lparr>status_acquisition = completion_completeness (el_completion l), status_selection = StateCompiled receipt\<rparr>)"

definition status_needs_more ::
  "(bytes \<Rightarrow> bytes) \<Rightarrow> EventLedger \<Rightarrow> NeedsMoreReasonV1 \<Rightarrow> (ResultStatusConstructionError, ResultStatusV1) result" where
  "status_needs_more sha256 l reason =
     rbind (map_err (\<lambda>_. NeedsMoreAccountingInvariantViolation)
         (PresentationReceipt_reconcile sha256 l (map (\<lambda>e. (ev_id e, RetainedRaw)) (el_events l)))) (\<lambda>receipt.
     rbind (validate_receipt_binding l receipt) (\<lambda>_.
     Inr \<lparr>status_acquisition = completion_completeness (el_completion l),
          status_selection = StateNeedsMore reason receipt\<rparr>))"

section \<open>Reconciliation accepts exactly one disposition per event\<close>

definition dispositions_of :: "EventLedger \<Rightarrow> PresentationAssignment list \<Rightarrow> PresentationReceiptEntry list" where
  "dispositions_of l as = map (\<lambda>e. (ev_id e, the (map_of as (ev_id e)))) (el_events l)"

definition count_all :: "PresentationDisposition list \<Rightarrow> PresentationCounts" where
  "count_all ds = \<lparr>shown_verbatim = length (filter (\<lambda>d. d = ShownVerbatim) ds),
     pattern_represented = length (filter (\<lambda>d. \<exists>p. d = PatternRepresented p) ds),
     retained_raw = length (filter (\<lambda>d. d = RetainedRaw) ds)\<rparr>"

lemma count_all_fold: "fold count_disposition ds PresentationCounts_default = count_all ds"
proof (induction ds rule: rev_induct)
  case (snoc d ds)
  then show ?case by (cases d) (simp_all add: count_all_def)
qed (simp add: count_all_def PresentationCounts_default_def)

lemma count_all_total: "presented_total (count_all ds) = length ds"
proof (induction ds)
  case (Cons d ds)
  then show ?case by (cases d) (simp_all add: count_all_def presented_total_def)
qed (simp add: count_all_def presented_total_def)

lemma fold_bt_dom: "map_of (fold (\<lambda>(k, v). bt_insert k v) kvs []) k = None \<longleftrightarrow> k \<notin> fst ` set kvs"
proof (induction kvs rule: rev_induct)
  case (snoc kv kvs)
  then show ?case by (cases kv) simp
qed simp

lemma presentation_loop:
  "rfold (presentation_step l) [] as = Inr m \<longleftrightarrow>
     distinct (map fst as) \<and> (\<forall>eid \<in> fst ` set as. contains l eid) \<and> m = fold (\<lambda>(eid, d). bt_insert eid d) as []"
proof (induction as arbitrary: m rule: rev_induct)
  case (snoc a as)
  obtain eid d where a: "a = (eid, d)" by fastforce
  have step: "presentation_step l t a = Inr m \<longleftrightarrow> contains l eid \<and> map_of t eid = None \<and> m = bt_insert eid d t" for t
    by (auto simp: a presentation_step_def)
  show ?case
    unfolding rfold_append rbind_Inr snoc.IH
    by (auto simp: step rbind_Inr) (force simp: a fold_bt_dom)+
qed auto

lemma fold_bt_lookup:
  "distinct (map fst kvs) \<Longrightarrow> map_of (fold (\<lambda>(k, v). bt_insert k v) kvs []) k = map_of kvs k"
proof (induction kvs rule: rev_induct)
  case (snoc kv kvs)
  obtain k' v where kv: "kv = (k', v)" by fastforce
  have "map_of kvs k' = None" using snoc.prems kv by (simp add: map_of_eq_None_iff)
  then show ?case using snoc kv by (simp add: map_add_def split: option.split)
qed simp

lemma receipt_entry_loop:
  assumes "distinct (map ev_id es)" and "\<forall>e \<in> set es. map_of m (ev_id e) \<noteq> None"
  shows "\<exists>rest. rfold present_entry_step (entries, counts, m) es =
    Inr (entries @ map (\<lambda>e. (ev_id e, the (map_of m (ev_id e)))) es,
         fold count_disposition (map (\<lambda>e. the (map_of m (ev_id e))) es) counts, rest)"
  using assms
proof (induction es arbitrary: entries counts m)
  case (Cons e es)
  obtain d where d: "map_of m (ev_id e) = Some d" using Cons.prems(2) by auto
  have other: "map_of (bt_remove (ev_id e) m) (ev_id f) = map_of m (ev_id f)" if "f \<in> set es" for f
    using Cons.prems(1) that by (auto simp: image_iff)
  have rest: "\<exists>rest. rfold present_entry_step (entries @ [(ev_id e, d)], count_disposition d counts, bt_remove (ev_id e) m) es =
      Inr ((entries @ [(ev_id e, d)]) @ map (\<lambda>f. (ev_id f, the (map_of (bt_remove (ev_id e) m) (ev_id f)))) es,
         fold count_disposition (map (\<lambda>f. the (map_of (bt_remove (ev_id e) m) (ev_id f))) es) (count_disposition d counts), rest)"
    using Cons.prems other by (intro Cons.IH) simp_all
  have step: "present_entry_step (entries, counts, m) e =
      Inr (entries @ [(ev_id e, d)], count_disposition d counts, bt_remove (ev_id e) m)"
    using d by (simp add: present_entry_step_def)
  show ?case using rest d other by (simp add: step cong: map_cong)
qed simp

lemma ledger_contains: "ledger_ok l \<Longrightarrow> contains l eid \<longleftrightarrow> eid \<in> ev_id ` set (el_events l)"
  using ledger_index.pos_None [of l eid] by (auto simp: contains_def ledger_position_def)

definition one_each :: "EventLedger \<Rightarrow> PresentationAssignment list \<Rightarrow> bool" where
  "one_each l as \<longleftrightarrow> distinct (map fst as) \<and> fst ` set as = ev_id ` set (el_events l)"

definition receipt_of :: "(bytes \<Rightarrow> bytes) \<Rightarrow> EventLedger \<Rightarrow> PresentationAssignment list \<Rightarrow> PresentationReceipt" where
  "receipt_of sha256 l as = \<lparr>pr_id = presentation_receipt_id sha256 (el_retrieval_id l) (dispositions_of l as),
     pr_retrieval_id = el_retrieval_id l, pr_entries = dispositions_of l as,
     pr_counts = count_all (map snd (dispositions_of l as))\<rparr>"

lemma presentation_reconcile_Inr:
  assumes ok: "ledger_ok l"
  shows "PresentationReceipt_reconcile sha256 l as = Inr r \<longleftrightarrow> one_each l as \<and> r = receipt_of sha256 l as"
proof (cases "distinct (map fst as) \<and> (\<forall>eid \<in> fst ` set as. contains l eid)")
  case False
  then have "\<not> one_each l as" using ledger_contains [OF ok] by (auto simp: one_each_def)
  moreover have "PresentationReceipt_reconcile sha256 l as \<noteq> Inr r"
    using False by (auto simp: PresentationReceipt_reconcile_def result_simps presentation_loop)
  ultimately show ?thesis by simp
next
  case True
  let ?m = "fold (\<lambda>(eid, d). bt_insert eid d) as []"
  have loop: "rfold (presentation_step l) [] as = Inr ?m" using True presentation_loop by blast
  have sub: "fst ` set as \<subseteq> ev_id ` set (el_events l)" using True ledger_contains [OF ok] by blast
  have none: "map_of ?m eid = None \<longleftrightarrow> eid \<notin> fst ` set as" for eid by (rule fold_bt_dom)
  have get: "map_of ?m eid = map_of as eid" for eid using True fold_bt_lookup by blast
  show ?thesis
  proof (cases "ev_id ` set (el_events l) \<subseteq> fst ` set as")
    case False
    then have "filter (\<lambda>eid. map_of ?m eid = None) (map ev_id (el_events l)) \<noteq> []"
      unfolding none by (auto simp: filter_empty_conv)
    then have "PresentationReceipt_reconcile sha256 l as \<noteq> Inr r"
      by (simp add: PresentationReceipt_reconcile_def loop Let_def)
    moreover have "\<not> one_each l as" using False by (auto simp: one_each_def)
    ultimately show ?thesis by simp
  next
    case all: True
    then have missing: "filter (\<lambda>eid. map_of ?m eid = None) (map ev_id (el_events l)) = []"
      unfolding none by (auto simp: filter_empty_conv)
    have "distinct (map ev_id (el_events l))" by (rule ledger_index.keys_distinct [OF ok])
    moreover have "\<forall>e \<in> set (el_events l). map_of ?m (ev_id e) \<noteq> None" using all by (auto simp: none)
    ultimately obtain rest where "rfold present_entry_step ([], PresentationCounts_default, ?m) (el_events l) =
        Inr (dispositions_of l as, fold count_disposition (map snd (dispositions_of l as)) PresentationCounts_default, rest)"
      using receipt_entry_loop [of "el_events l" ?m "[]" PresentationCounts_default]
      by (auto simp: get dispositions_of_def comp_def)
    then have "PresentationReceipt_reconcile sha256 l as = Inr (receipt_of sha256 l as)"
      using missing by (simp add: PresentationReceipt_reconcile_def loop Let_def receipt_of_def count_all_fold)
    moreover have "one_each l as" using True all sub by (simp add: one_each_def)
    ultimately show ?thesis by auto
  qed
qed

lemma receipt_of_bound: "validate_receipt_binding l (receipt_of sha256 l as) = Inr ()"
  by (auto simp: validate_receipt_binding_def receipt_of_def dispositions_of_def count_all_total list_ex_iff zip_map1 zip_same_conv_map)

lemma one_each_const: "ledger_ok l \<Longrightarrow> one_each l (map (\<lambda>e. (ev_id e, d)) (el_events l))"
  using ledger_index.keys_distinct [of l] by (force simp: one_each_def comp_def)

lemma dispositions_const:
  "dispositions_of l (map (\<lambda>e. (ev_id e, d)) (el_events l)) = map (\<lambda>e. (ev_id e, d)) (el_events l)"
proof -
  have "map_of (map (\<lambda>e. (ev_id e, d)) es) eid = (if eid \<in> ev_id ` set es then Some d else None)" for es :: "Event list" and eid
    by (induction es) auto
  then show ?thesis by (simp add: dispositions_of_def)
qed

end
