(* ===== verification/Retained.thy ===== *)
theory Retained
  imports Ledger_Sealed
begin

text \<open>
  Evidence references (\<open>evidentrail-core/src/reference.rs\<close>), bounded expansion of a retained result
  (\<open>expansion.rs\<close>) and the in-memory result store (\<open>evidentrail-store/src/memory.rs\<close>).
  \<open>StorePanic\<close> stands for a panic inside a ledger lookup.
\<close>

section \<open>Evidence references\<close>

type_synonym ResultId = bytes
type_synonym EvidenceReferenceId = bytes

definition MAX_EVIDENCE_REFERENCE_TARGETS :: nat where "MAX_EVIDENCE_REFERENCE_TARGETS = 4096"

datatype EvidenceTargetRef = TargetEvent EventId | TargetBlock BlockId

fun target_code :: "EvidenceTargetRef \<Rightarrow> bytes" where
  "target_code (TargetEvent _) = ''event''"
| "target_code (TargetBlock _) = ''block''"

fun target_hash_bytes :: "EvidenceTargetRef \<Rightarrow> bytes" where
  "target_hash_bytes (TargetEvent eid) = eid"
| "target_hash_bytes (TargetBlock bid) = bid"

datatype ExpansionRelationV1 =
  Exact | SameLaneBeforeAfter | GlobalBeforeAfter | PatternMembers | SameAttestedTrace | AroundOnset

fun relation_code :: "ExpansionRelationV1 \<Rightarrow> bytes" where
  "relation_code Exact = ''exact''"
| "relation_code SameLaneBeforeAfter = ''same_lane_before_after''"
| "relation_code GlobalBeforeAfter = ''global_before_after''"
| "relation_code PatternMembers = ''pattern_members''"
| "relation_code SameAttestedTrace = ''same_attested_trace''"
| "relation_code AroundOnset = ''around_onset''"

text \<open>The derived order is the declaration order.\<close>

fun relation_rank :: "ExpansionRelationV1 \<Rightarrow> nat" where
  "relation_rank Exact = 0"
| "relation_rank SameLaneBeforeAfter = 1"
| "relation_rank GlobalBeforeAfter = 2"
| "relation_rank PatternMembers = 3"
| "relation_rank SameAttestedTrace = 4"
| "relation_rank AroundOnset = 5"

lemma relation_rank_inj: "relation_rank a = relation_rank b \<Longrightarrow> a = b"
  by (cases a; cases b) simp_all

instantiation ExpansionRelationV1 :: linorder
begin

definition less_eq_ExpansionRelationV1 where
  "(a :: ExpansionRelationV1) \<le> b \<longleftrightarrow> relation_rank a \<le> relation_rank b"

definition less_ExpansionRelationV1 where
  "(a :: ExpansionRelationV1) < b \<longleftrightarrow> relation_rank a < relation_rank b"

instance
  by standard (auto simp: less_eq_ExpansionRelationV1_def less_ExpansionRelationV1_def intro: relation_rank_inj)

end

record EvidenceReferenceV1 =
  er_id :: EvidenceReferenceId
  er_result_id :: ResultId
  er_targets :: "EvidenceTargetRef list"
  er_allowed_relations :: "ExpansionRelationV1 list"
  er_issued_at :: int
  er_expires_at :: int

datatype EvidenceReferenceConstructionError =
    EmptyTargets | TooManyTargets | DuplicateTarget | EmptyRelations | DuplicateRelation
  | ExactRelationRequired | InvalidLifetime | DeclaredIdMismatch

datatype EvidenceReferenceUnavailable = EvidenceReferenceUnavailable

text \<open>\<open>i128::to_le_bytes\<close>: sixteen bytes of the two's complement.\<close>

definition i128_le_bytes :: "int \<Rightarrow> bytes" where
  "i128_le_bytes t = le_bytes 16 (nat (t mod 2 ^ 128))"

definition evidence_reference_id ::
  "(bytes \<Rightarrow> bytes) \<Rightarrow> ResultId \<Rightarrow> EvidenceTargetRef list \<Rightarrow> ExpansionRelationV1 list \<Rightarrow> int \<Rightarrow> int \<Rightarrow> EvidenceReferenceId" where
  "evidence_reference_id sha256 result targets allowed issued expires =
     (let hasher = domain_hasher ''evidentrail/evidence-reference/v1'';
          hasher = update_field hasher (u16_le_bytes 1);
          hasher = update_field hasher result;
          hasher = update_field hasher (i128_le_bytes issued);
          hasher = update_field hasher (i128_le_bytes expires);
          hasher = update_field hasher (u64_le_bytes (length targets));
          hasher = foldl (\<lambda>hasher target. update_field (update_field hasher (target_code target)) (target_hash_bytes target))
            hasher targets;
          hasher = update_field hasher (u64_le_bytes (length allowed));
          hasher = foldl (\<lambda>hasher relation. update_field hasher (relation_code relation)) hasher allowed
      in sha256 hasher)"

text \<open>A \<open>BTreeSet\<close> of the relations, listed in order.\<close>

definition relation_set :: "ExpansionRelationV1 list \<Rightarrow> ExpansionRelationV1 list" where
  "relation_set relations = sort (remdups relations)"

definition validate_material ::
  "EvidenceTargetRef list \<Rightarrow> ExpansionRelationV1 list \<Rightarrow> int \<Rightarrow> int \<Rightarrow>
   (EvidenceReferenceConstructionError, EvidenceTargetRef list \<times> ExpansionRelationV1 list) result" where
  "validate_material targets relations issued expires =
     (if targets = [] then Inl EmptyTargets
      else if length targets > MAX_EVIDENCE_REFERENCE_TARGETS then Inl TooManyTargets
      else if length (remdups targets) \<noteq> length targets then Inl DuplicateTarget
      else if relations = [] then Inl EmptyRelations
      else let relation_count = length relations; allowed = relation_set relations in
      if length allowed \<noteq> relation_count then Inl DuplicateRelation
      else if \<not> List.member allowed Exact then Inl ExactRelationRequired
      else if issued \<ge> expires then Inl InvalidLifetime
      else Inr (targets, allowed))"

definition EvidenceReferenceV1_issue ::
  "(bytes \<Rightarrow> bytes) \<Rightarrow> ResultId \<Rightarrow> EvidenceTargetRef list \<Rightarrow> ExpansionRelationV1 list \<Rightarrow> int \<Rightarrow> int \<Rightarrow>
   (EvidenceReferenceConstructionError, EvidenceReferenceV1) result" where
  "EvidenceReferenceV1_issue sha256 result targets relations issued expires =
     rbind (validate_material targets relations issued expires) (\<lambda>(targets, allowed).
     Inr \<lparr>er_id = evidence_reference_id sha256 result targets allowed issued expires, er_result_id = result,
          er_targets = targets, er_allowed_relations = allowed, er_issued_at = issued, er_expires_at = expires\<rparr>)"

definition verify_declared ::
  "(bytes \<Rightarrow> bytes) \<Rightarrow> EvidenceReferenceId \<Rightarrow> ResultId \<Rightarrow> EvidenceTargetRef list \<Rightarrow> ExpansionRelationV1 list \<Rightarrow> int \<Rightarrow> int \<Rightarrow>
   (EvidenceReferenceConstructionError, EvidenceReferenceV1) result" where
  "verify_declared sha256 declared result targets relations issued expires =
     rbind (EvidenceReferenceV1_issue sha256 result targets relations issued expires) (\<lambda>reference.
     if er_id reference \<noteq> declared then Inl DeclaredIdMismatch else Inr reference)"

definition reference_authorize ::
  "EvidenceReferenceV1 \<Rightarrow> ResultId \<Rightarrow> ExpansionRelationV1 \<Rightarrow> int \<Rightarrow> (EvidenceReferenceUnavailable, unit) result" where
  "reference_authorize r expected_result relation now =
     (if er_result_id r \<noteq> expected_result \<or> now < er_issued_at r \<or> now \<ge> er_expires_at r
        \<or> binary_search_by_key id (er_allowed_relations r) relation = None
      then Inl EvidenceReferenceUnavailable else Inr ())"

section \<open>Expansion\<close>

definition MAX_EXPANSION_EVENTS :: nat where "MAX_EXPANSION_EVENTS = 512"
definition MAX_EXPANSION_BYTES :: nat where "MAX_EXPANSION_BYTES = 8 * 1024 * 1024"
definition MAX_EXPANSION_BEFORE_AFTER :: nat where "MAX_EXPANSION_BEFORE_AFTER = 256"

datatype ResultStoreError =
    DuplicateResultId | TimestampOverflow | InvalidReferenceMaterial | InvalidExpansionLimit
  | InvalidEvidenceAlias | AliasManifestAlreadyPublished | InsufficientExpansionBudget | ReferenceUnavailable
  | StorePanic

record ExpansionLimitV1 =
  max_events :: nat
  max_bytes :: nat
  limit_before :: nat
  limit_after :: nat

definition ExpansionLimitV1_new :: "nat \<Rightarrow> nat \<Rightarrow> nat \<Rightarrow> nat \<Rightarrow> (ResultStoreError, ExpansionLimitV1) result" where
  "ExpansionLimitV1_new events bytes before after =
     (if events = 0 \<or> events > MAX_EXPANSION_EVENTS \<or> bytes = 0 \<or> bytes > MAX_EXPANSION_BYTES
        \<or> before > MAX_EXPANSION_BEFORE_AFTER \<or> after > MAX_EXPANSION_BEFORE_AFTER
      then Inl InvalidExpansionLimit
      else Inr \<lparr>max_events = events, max_bytes = bytes, limit_before = before, limit_after = after\<rparr>)"

record ExpansionRequestV1 =
  rq_result_id :: ResultId
  rq_reference_id :: EvidenceReferenceId
  rq_relation :: ExpansionRelationV1
  rq_limit :: ExpansionLimitV1

record ExpandedEventV1 =
  xe_event_id :: EventId
  xe_exactness_basis :: ExactnessBasis
  xe_acquisition_sequence :: nat
  xe_lane_sequence :: nat
  xe_record_state :: RecordState
  xe_exact_bytes :: bytes

definition from_event :: "Event \<Rightarrow> ExpandedEventV1" where
  "from_event e = \<lparr>xe_event_id = ev_id e, xe_exactness_basis = ev_exactness_basis e,
     xe_acquisition_sequence = ev_acquisition_sequence e, xe_lane_sequence = ev_lane_sequence e,
     xe_record_state = ev_record_state e, xe_exact_bytes = ev_raw e\<rparr>"

record ExpansionResponseV1 =
  rp_result_id :: ResultId
  rp_reference_id :: EvidenceReferenceId
  rp_relation :: ExpansionRelationV1
  rp_events :: "ExpandedEventV1 list"
  rp_returned_bytes :: nat
  rp_truncated :: bool

text \<open>\<open>map_err(|_| ReferenceUnavailable)\<close> on a lookup result; a panic is not an error value.\<close>

fun lookup_unavailable :: "LedgerLookupError \<Rightarrow> ResultStoreError" where
  "lookup_unavailable LookupPanic = StorePanic"
| "lookup_unavailable _ = ReferenceUnavailable"

definition single_event_target :: "EvidenceReferenceV1 \<Rightarrow> (ResultStoreError, EventId) result" where
  "single_event_target r = (case er_targets r of [TargetEvent eid] \<Rightarrow> Inr eid | _ \<Rightarrow> Inl ReferenceUnavailable)"

definition exact_target :: "EventLedger \<Rightarrow> EvidenceTargetRef \<Rightarrow> (ResultStoreError, Event) result" where
  "exact_target l target =
     (case target of
        TargetEvent eid \<Rightarrow> map_err lookup_unavailable (event l eid)
      | TargetBlock _ \<Rightarrow> Inl ReferenceUnavailable)"

definition expansion_candidates ::
  "EventLedger \<Rightarrow> EvidenceReferenceV1 \<Rightarrow> ExpansionRequestV1 \<Rightarrow> (ResultStoreError, Event list) result" where
  "expansion_candidates l r request =
     (case rq_relation request of
        Exact \<Rightarrow> rfold (\<lambda>events target. rbind (exact_target l target) (\<lambda>e. Inr (events @ [e]))) [] (er_targets r)
      | GlobalBeforeAfter \<Rightarrow>
          rbind (single_event_target r) (\<lambda>eid.
          map_err lookup_unavailable (rbind (expand l eid (limit_before (rq_limit request)) (limit_after (rq_limit request)))
            (\<lambda>x. Inr (expansion_events x))))
      | SameLaneBeforeAfter \<Rightarrow>
          rbind (single_event_target r) (\<lambda>eid.
          map_err lookup_unavailable (rbind (expand_same_lane l eid (limit_before (rq_limit request)) (limit_after (rq_limit request)))
            (\<lambda>x. Inr (expansion_events x))))
      | _ \<Rightarrow> Inl ReferenceUnavailable)"

text \<open>\<open>try_fold\<close> with \<open>checked_add\<close>.\<close>

fun required_bytes :: "nat \<Rightarrow> Event list \<Rightarrow> nat option" where
  "required_bytes required [] = Some required"
| "required_bytes required (e # es) =
     (case checked_add_u64 required (length (ev_raw e)) of None \<Rightarrow> None | Some required' \<Rightarrow> required_bytes required' es)"

text \<open>The loop over the candidates: skip repeated events, stop at a limit.\<close>

fun collect_events ::
  "ExpansionLimitV1 \<Rightarrow> EventId set \<Rightarrow> ExpandedEventV1 list \<Rightarrow> nat \<Rightarrow> Event list \<Rightarrow> ExpandedEventV1 list \<times> nat \<times> bool" where
  "collect_events limit seen events returned_bytes [] = (events, returned_bytes, False)"
| "collect_events limit seen events returned_bytes (e # es) =
     (if ev_id e \<in> seen then collect_events limit seen events returned_bytes es
      else case checked_add_u64 returned_bytes (length (ev_raw e)) of
        None \<Rightarrow> (events, returned_bytes, True)
      | Some next_bytes \<Rightarrow>
          if length events = max_events limit \<or> next_bytes > max_bytes limit then (events, returned_bytes, True)
          else collect_events limit (insert (ev_id e) seen) (events @ [from_event e]) next_bytes es)"

definition expand_retained_result_v1 ::
  "EventLedger \<Rightarrow> EvidenceReferenceV1 \<Rightarrow> ExpansionRequestV1 \<Rightarrow> int \<Rightarrow> (ResultStoreError, ExpansionResponseV1) result" where
  "expand_retained_result_v1 l r request now =
     (if er_id r \<noteq> rq_reference_id request \<or> er_result_id r \<noteq> rq_result_id request then Inl ReferenceUnavailable
      else rbind (map_err (\<lambda>_. ReferenceUnavailable) (reference_authorize r (rq_result_id request) (rq_relation request) now)) (\<lambda>_.
      rbind (expansion_candidates l r request) (\<lambda>candidates.
      if rq_relation request = Exact \<and> length candidates > 1
        \<and> (length candidates > max_events (rq_limit request)
           \<or> (case required_bytes 0 candidates of None \<Rightarrow> True | Some bytes \<Rightarrow> bytes > max_bytes (rq_limit request)))
      then Inl InsufficientExpansionBudget
      else case collect_events (rq_limit request) {} [] 0 candidates of (events, returned_bytes, truncated) \<Rightarrow>
        Inr \<lparr>rp_result_id = rq_result_id request, rp_reference_id = rq_reference_id request,
             rp_relation = rq_relation request, rp_events = events, rp_returned_bytes = returned_bytes,
             rp_truncated = truncated\<rparr>)))"

section \<open>References are canonical\<close>

lemma relation_set_sorted: "sorted_wrt (<) (relation_set relations)"
  by (simp add: relation_set_def strict_sorted_iff)

lemma set_relation_set [simp]: "set (relation_set relations) = set relations"
  by (simp add: relation_set_def)

lemma relation_set_cong: "set as = set bs \<Longrightarrow> relation_set as = relation_set bs"
  by (metis relation_set_sorted set_relation_set strict_sorted_equal)

lemma length_remdups_eq: "length (remdups xs) = length xs \<longleftrightarrow> distinct xs"
  by (metis card_set distinct_card card_distinct length_remdups_card_conv)

lemma length_relation_set: "length (relation_set relations) = length relations \<longleftrightarrow> distinct relations"
  by (simp add: relation_set_def length_remdups_eq)

definition material_ok :: "EvidenceTargetRef list \<Rightarrow> ExpansionRelationV1 list \<Rightarrow> int \<Rightarrow> int \<Rightarrow> bool" where
  "material_ok targets relations issued expires \<longleftrightarrow>
     targets \<noteq> [] \<and> length targets \<le> MAX_EVIDENCE_REFERENCE_TARGETS \<and> distinct targets
     \<and> distinct relations \<and> Exact \<in> set relations \<and> issued < expires"

definition reference_of ::
  "(bytes \<Rightarrow> bytes) \<Rightarrow> ResultId \<Rightarrow> EvidenceTargetRef list \<Rightarrow> ExpansionRelationV1 list \<Rightarrow> int \<Rightarrow> int \<Rightarrow> EvidenceReferenceV1" where
  "reference_of sha256 result targets relations issued expires =
     \<lparr>er_id = evidence_reference_id sha256 result targets (relation_set relations) issued expires, er_result_id = result,
      er_targets = targets, er_allowed_relations = relation_set relations, er_issued_at = issued, er_expires_at = expires\<rparr>"

lemma issue_Inr:
  "EvidenceReferenceV1_issue sha256 result targets relations issued expires = Inr r \<longleftrightarrow>
     material_ok targets relations issued expires \<and> r = reference_of sha256 result targets relations issued expires"
  by (auto simp: EvidenceReferenceV1_issue_def validate_material_def material_ok_def reference_of_def Let_def
      length_remdups_eq length_relation_set List.member_iff)

lemma authorize_Inr:
  assumes "sorted_wrt (<) (er_allowed_relations r)"
  shows "reference_authorize r result relation now = Inr () \<longleftrightarrow>
    er_result_id r = result \<and> er_issued_at r \<le> now \<and> now < er_expires_at r \<and> relation \<in> set (er_allowed_relations r)"
  using binary_search_by_key_None [of id "er_allowed_relations r" relation] assms
  by (auto simp: reference_authorize_def)

section \<open>Candidates are events of the ledger\<close>

definition ledger_events :: "EventLedger \<Rightarrow> Event list \<Rightarrow> bool" where
  "ledger_events l es \<longleftrightarrow> set es \<subseteq> set (el_events l) \<and> distinct (map ev_id es)"

lemma ledger_events_subseq:
  assumes "ledger_ok l"
  shows "ledger_events l (take n (drop m (el_events l)))"
    and "ledger_events l (take n (drop m (filter P (el_events l))))"
proof -
  have d: "distinct (map ev_id (el_events l))" by (rule ledger_index.keys_distinct [OF assms])
  show "ledger_events l (take n (drop m (el_events l)))"
    using d by (auto simp: ledger_events_def simp flip: take_map drop_map dest: in_set_takeD in_set_dropD)
  have "distinct (map ev_id (filter P (el_events l)))" using d by (rule distinct_map_filter)
  then show "ledger_events l (take n (drop m (filter P (el_events l))))"
    by (auto simp: ledger_events_def simp flip: take_map drop_map dest!: in_set_takeD in_set_dropD)
qed

lemma expand_events:
  assumes "ledger_ok l" and "expand l eid before after = Inr x"
  shows "ledger_events l (expansion_events x)"
proof (cases "ledger_position l eid")
  case None
  then show ?thesis using assms(2) by (simp add: expand_def ledger_position_def)
next
  case (Some i)
  then show ?thesis using assms(2) ledger_events_subseq(1) [OF assms(1)] by (auto simp: expand_spec [OF assms(1)])
qed

lemma expand_same_lane_events:
  assumes ok: "ledger_ok l" and x: "expand_same_lane l eid before after = Inr x"
  shows "ledger_events l (expansion_events x)"
proof (cases "ledger_position l eid")
  case None
  then show ?thesis using x by (simp add: expand_same_lane_def ledger_position_def)
next
  case (Some i)
  then have i: "i < length (el_events l)" using ledger_index.pos_iff [OF ok] by blast
  obtain k where k: "k < length (lane_indices (el_events l) (ev_lane (el_events l ! i)))"
      "lane_indices (el_events l) (ev_lane (el_events l ! i)) ! k = i"
    by (rule lane_offset [OF i])
  show ?thesis
    using x ledger_events_subseq(2) [OF ok] by (auto simp: expand_same_lane_spec [OF ok Some refl k])
qed

lemma exact_target_Inr:
  assumes "ledger_ok l"
  shows "exact_target l t = Inr e \<longleftrightarrow> e \<in> set (el_events l) \<and> t = TargetEvent (ev_id e)"
proof (cases t)
  case (TargetEvent eid)
  show ?thesis
  proof (cases "ledger_position l eid")
    case None
    then have "eid \<notin> ev_id ` set (el_events l)" using ledger_index.pos_None [OF assms] by simp
    then show ?thesis using TargetEvent None by (auto simp: exact_target_def event_ledger_ok [OF assms])
  next
    case (Some i)
    then have i: "i < length (el_events l)" "ev_id (el_events l ! i) = eid" using ledger_index.pos_iff [OF assms] by auto
    have "e = el_events l ! i" if "e \<in> set (el_events l)" "ev_id e = eid" for e
      using that i ledger_index.keys_distinct [OF assms] by (metis distinct_map inj_onD nth_mem)
    then show ?thesis using TargetEvent Some i by (auto simp: exact_target_def event_ledger_ok [OF assms])
  qed
qed (simp add: exact_target_def)

lemma exact_targets_loop:
  assumes "ledger_ok l"
  shows "rfold (\<lambda>events t. rbind (exact_target l t) (\<lambda>e. Inr (events @ [e]))) acc ts = Inr out \<longleftrightarrow>
    (\<exists>es. out = acc @ es \<and> set es \<subseteq> set (el_events l) \<and> ts = map (\<lambda>e. TargetEvent (ev_id e)) es)"
proof (induction ts arbitrary: acc)
  case Nil
  then show ?case by auto
next
  case (Cons t ts)
  have "rfold (\<lambda>events t. rbind (exact_target l t) (\<lambda>e. Inr (events @ [e]))) acc (t # ts) = Inr out \<longleftrightarrow>
      (\<exists>e es. e \<in> set (el_events l) \<and> t = TargetEvent (ev_id e) \<and> out = (acc @ [e]) @ es
         \<and> set es \<subseteq> set (el_events l) \<and> ts = map (\<lambda>e. TargetEvent (ev_id e)) es)"
    by (auto simp: result_simps exact_target_Inr [OF assms] Cons.IH)
  also have "\<dots> \<longleftrightarrow> (\<exists>es. out = acc @ es \<and> set es \<subseteq> set (el_events l) \<and> t # ts = map (\<lambda>e. TargetEvent (ev_id e)) es)"
    by (auto simp: Cons_eq_map_conv)
  finally show ?case .
qed

lemma candidates_events:
  assumes ok: "ledger_ok l" and d: "distinct (er_targets r)" and c: "expansion_candidates l r request = Inr es"
  shows "ledger_events l es"
proof (cases "rq_relation request")
  case Exact
  then have "set es \<subseteq> set (el_events l)" "er_targets r = map (\<lambda>e. TargetEvent (ev_id e)) es"
    using c exact_targets_loop [OF ok, of "[]"] by (auto simp: expansion_candidates_def)
  then show ?thesis using d by (auto simp: ledger_events_def distinct_map inj_on_def)
next
  case SameLaneBeforeAfter
  then show ?thesis
    using c expand_same_lane_events [OF ok] by (auto simp: expansion_candidates_def result_simps)
next
  case GlobalBeforeAfter
  then show ?thesis using c expand_events [OF ok] by (auto simp: expansion_candidates_def result_simps)
qed (use c in \<open>simp_all add: expansion_candidates_def\<close>)

section \<open>Responses stay within their limit\<close>

definition expanded_bytes :: "ExpandedEventV1 list \<Rightarrow> nat" where
  "expanded_bytes xs = sum_list (map (\<lambda>x. length (xe_exact_bytes x)) xs)"

definition within :: "ExpansionLimitV1 \<Rightarrow> ExpandedEventV1 list \<Rightarrow> bool" where
  "within limit xs \<longleftrightarrow> length xs \<le> max_events limit \<and> expanded_bytes xs \<le> max_bytes limit"

lemma expanded_bytes_simps [simp]:
  "expanded_bytes [] = 0" "expanded_bytes (xs @ ys) = expanded_bytes xs + expanded_bytes ys"
  "expanded_bytes (from_event e # xs) = length (ev_raw e) + expanded_bytes xs"
  by (simp_all add: expanded_bytes_def from_event_def)

text \<open>On candidates without repetition the loop returns the longest prefix within the limit.\<close>

lemma collect_prefix:
  assumes "collect_events limit seen xs (expanded_bytes xs) es = (out, bytes, truncated)"
    and "distinct (map ev_id es)" and "ev_id ` set es \<inter> seen = {}" and "within limit xs" and "max_bytes limit \<le> u64_max"
  shows "\<exists>k \<le> length es. out = xs @ map from_event (take k es) \<and> bytes = expanded_bytes out \<and> within limit out
    \<and> (truncated \<longleftrightarrow> k < length es)
    \<and> (k < length es \<longrightarrow> \<not> within limit (xs @ map from_event (take (Suc k) es)))"
  using assms
proof (induction es arbitrary: seen xs)
  case (Cons e es)
  have fresh: "ev_id e \<notin> seen" using Cons.prems(3) by auto
  show ?case
  proof (cases "within limit (xs @ [from_event e])")
    case False
    then have "out = xs \<and> bytes = expanded_bytes xs \<and> truncated"
      using Cons.prems(1,4) fresh by (auto simp: within_def checked_add_u64_def split: option.splits if_splits)
    then show ?thesis using False Cons.prems(4) by (intro exI [of _ 0]) simp
  next
    case True
    then have "length xs \<noteq> max_events limit" "expanded_bytes xs + length (ev_raw e) \<le> max_bytes limit"
      by (auto simp: within_def)
    then have "collect_events limit (insert (ev_id e) seen) (xs @ [from_event e]) (expanded_bytes (xs @ [from_event e])) es
        = (out, bytes, truncated)"
      using Cons.prems(1,5) fresh by (simp add: checked_add_u64_fits)
    from Cons.IH [OF this _ _ True Cons.prems(5)] Cons.prems(2,3) obtain k where "k \<le> length es"
      "out = xs @ map from_event (take (Suc k) (e # es)) \<and> bytes = expanded_bytes out \<and> within limit out
        \<and> (truncated \<longleftrightarrow> Suc k < length (e # es))
        \<and> (Suc k < length (e # es) \<longrightarrow> \<not> within limit (xs @ map from_event (take (Suc (Suc k)) (e # es))))"
      by auto
    then show ?thesis by (intro exI [of _ "Suc k"]) auto
  qed
qed auto

lemma required_bytes_sum: "required_bytes b es = Some c \<Longrightarrow> c = b + sum_list (map (\<lambda>e. length (ev_raw e)) es)"
proof (induction es arbitrary: b)
  case (Cons e es)
  then have "c = (b + length (ev_raw e)) + sum_list (map (\<lambda>e. length (ev_raw e)) es)"
    by (intro Cons.IH) (simp add: checked_simps split: option.splits)
  then show ?case by simp
qed simp

lemma expanded_bytes_map: "expanded_bytes (map from_event es) = sum_list (map (\<lambda>e. length (ev_raw e)) es)"
  by (simp add: expanded_bytes_def from_event_def comp_def)

text \<open>Exact expansion of several targets is all or nothing.\<close>

lemma exact_all_or_nothing:
  assumes "length es \<le> max_events limit" and "required_bytes 0 es = Some b" and "b \<le> max_bytes limit"
  shows "within limit (map from_event es)"
  using assms required_bytes_sum [OF assms(2)] by (simp add: within_def expanded_bytes_map)

lemma within_prefix: "within limit (map from_event es) \<Longrightarrow> within limit (map from_event (take k es))"
proof -
  assume w: "within limit (map from_event es)"
  have "expanded_bytes (map from_event es) = expanded_bytes (map from_event (take k es)) + expanded_bytes (map from_event (drop k es))"
    by (metis append_take_drop_id expanded_bytes_simps(2) map_append)
  then show ?thesis using w by (auto simp: within_def)
qed

end
