(* ===== verification/Store.thy ===== *)
theory Store
  imports Retained
begin

text \<open>
  The in-memory result store (\<open>evidentrail-store/src/memory.rs\<close>).  A state-changing operation
  returns its result and the next store; on an error the store is the old one where the code
  returns before its first write.
\<close>

section \<open>Aliases and results\<close>

definition DEFAULT_RESULT_TTL_NANOS :: int where "DEFAULT_RESULT_TTL_NANOS = 1800 * 1000000000"

record EvidenceAliasV1 =
  alias_result_id :: ResultId
  one_based_ordinal :: nat

definition EvidenceAliasV1_new :: "ResultId \<Rightarrow> nat \<Rightarrow> (ResultStoreError, EvidenceAliasV1) result" where
  "EvidenceAliasV1_new result ordinal =
     (if ordinal = 0 \<or> ordinal > MAX_LOG_BRIEF_EVIDENCE_PACKETS then Inl InvalidEvidenceAlias
      else Inr \<lparr>alias_result_id = result, one_based_ordinal = ordinal\<rparr>)"

definition zero_based_index :: "EvidenceAliasV1 \<Rightarrow> nat" where
  "zero_based_index a = one_based_ordinal a - 1"

record AliasExpansionRequestV1 =
  ax_result_id :: ResultId
  ax_alias :: EvidenceAliasV1
  ax_relation :: ExpansionRelationV1
  ax_limit :: ExpansionLimitV1

record MemoryResult =
  mr_ledger :: EventLedger
  mr_created_at :: int
  mr_expires_at :: int
  mr_references :: "(EvidenceReferenceId, EvidenceReferenceV1) btree_map"
  mr_evidence_alias_manifest :: "EvidenceReferenceId list option"
  mr_pending_event_alias_manifest :: "EvidenceReferenceId list"

type_synonym MemoryResultStore = "(ResultId, MemoryResult) btree_map"

record RegisteredResultV1 =
  reg_expires_at :: int
  reg_references :: "EvidenceReferenceV1 list"

record PreparedPacketReferencesV1 =
  pp_result_id :: ResultId
  pp_result_created_at :: int
  pp_expires_at :: int
  pp_references :: "EvidenceReferenceV1 list"

section \<open>Registration\<close>

text \<open>\<open>i128::checked_add\<close>\<close>

definition fixed_expiry :: "int \<Rightarrow> (ResultStoreError, int) result" where
  "fixed_expiry created =
     (let t = created + DEFAULT_RESULT_TTL_NANOS in
      if - (2 ^ 127) \<le> t \<and> t < 2 ^ 127 then Inr t else Inl TimestampOverflow)"

definition store_insert ::
  "ResultId \<Rightarrow> EventLedger \<Rightarrow> int \<Rightarrow> MemoryResultStore \<Rightarrow> (ResultStoreError, int) result \<times> MemoryResultStore" where
  "store_insert result l created s =
     (if map_of s result \<noteq> None then (Inl DuplicateResultId, s)
      else case fixed_expiry created of
        Inl e \<Rightarrow> (Inl e, s)
      | Inr expires \<Rightarrow>
          (Inr expires, bt_insert result \<lparr>mr_ledger = l, mr_created_at = created, mr_expires_at = expires, mr_references = [],
             mr_evidence_alias_manifest = None, mr_pending_event_alias_manifest = []\<rparr> s))"

definition event_reference_step ::
  "(bytes \<Rightarrow> bytes) \<Rightarrow> ResultId \<Rightarrow> int \<Rightarrow> int \<Rightarrow>
   EvidenceReferenceV1 list \<times> (EvidenceReferenceId, EvidenceReferenceV1) btree_map \<Rightarrow> Event \<Rightarrow>
   (ResultStoreError, EvidenceReferenceV1 list \<times> (EvidenceReferenceId, EvidenceReferenceV1) btree_map) result" where
  "event_reference_step sha256 result created expires state e =
     (case state of (references, registered) \<Rightarrow>
       rbind (map_err (\<lambda>_. InvalidReferenceMaterial) (EvidenceReferenceV1_issue sha256 result [TargetEvent (ev_id e)]
           [Exact, SameLaneBeforeAfter, GlobalBeforeAfter] created expires)) (\<lambda>reference.
       if map_of registered (er_id reference) \<noteq> None then Inl InvalidReferenceMaterial
       else Inr (references @ [reference], bt_insert (er_id reference) reference registered)))"

definition insert_with_event_references ::
  "(bytes \<Rightarrow> bytes) \<Rightarrow> ResultId \<Rightarrow> EventLedger \<Rightarrow> int \<Rightarrow> MemoryResultStore \<Rightarrow>
   (ResultStoreError, RegisteredResultV1) result \<times> MemoryResultStore" where
  "insert_with_event_references sha256 result l created s =
     (if map_of s result \<noteq> None then (Inl DuplicateResultId, s)
      else case rbind (fixed_expiry created) (\<lambda>expires.
          rbind (rfold (event_reference_step sha256 result created expires) ([], []) (el_events l)) (\<lambda>state. Inr (expires, state))) of
        Inl e \<Rightarrow> (Inl e, s)
      | Inr (expires, references, registered) \<Rightarrow>
          (Inr \<lparr>reg_expires_at = expires, reg_references = references\<rparr>,
           bt_insert result \<lparr>mr_ledger = l, mr_created_at = created, mr_expires_at = expires, mr_references = registered,
             mr_evidence_alias_manifest = None, mr_pending_event_alias_manifest = map er_id references\<rparr> s))"

text \<open>The lookup of an unexpired result that most operations start with.\<close>

definition live_result :: "MemoryResultStore \<Rightarrow> ResultId \<Rightarrow> int \<Rightarrow> (ResultStoreError, MemoryResult) result" where
  "live_result s result now =
     rbind (ok_or ReferenceUnavailable (map_of s result)) (\<lambda>r.
     if now < mr_created_at r \<or> now \<ge> mr_expires_at r then Inl ReferenceUnavailable else Inr r)"

definition publish_event_aliases ::
  "ResultId \<Rightarrow> int \<Rightarrow> MemoryResultStore \<Rightarrow> (ResultStoreError, unit) result \<times> MemoryResultStore" where
  "publish_event_aliases result now s =
     (case live_result s result now of
        Inl e \<Rightarrow> (Inl e, s)
      | Inr r \<Rightarrow>
          if mr_evidence_alias_manifest r \<noteq> None then (Inl AliasManifestAlreadyPublished, s)
          else (Inr (), bt_insert result (r\<lparr>mr_evidence_alias_manifest := Some (mr_pending_event_alias_manifest r),
                  mr_pending_event_alias_manifest := []\<rparr>) s))"

section \<open>Packet references\<close>

definition reference_map_step ::
  "(EvidenceReferenceId, EvidenceReferenceV1) btree_map \<Rightarrow> EvidenceReferenceV1 \<Rightarrow>
   (ResultStoreError, (EvidenceReferenceId, EvidenceReferenceV1) btree_map) result" where
  "reference_map_step registered reference =
     (if map_of registered (er_id reference) \<noteq> None then Inl InvalidReferenceMaterial
      else Inr (bt_insert (er_id reference) reference registered))"

definition reference_map ::
  "EvidenceReferenceV1 list \<Rightarrow> (ResultStoreError, (EvidenceReferenceId, EvidenceReferenceV1) btree_map) result" where
  "reference_map references = rfold reference_map_step [] references"

definition packet_step ::
  "(bytes \<Rightarrow> bytes) \<Rightarrow> EventLedger \<Rightarrow> ResultId \<Rightarrow> int \<Rightarrow> int \<Rightarrow> EventId set \<times> EvidenceReferenceV1 list \<Rightarrow> EventId list \<Rightarrow>
   (ResultStoreError, EventId set \<times> EvidenceReferenceV1 list) result" where
  "packet_step sha256 l result issued expires state packet =
     (case state of (assigned, references) \<Rightarrow>
       if packet = [] then Inl InvalidReferenceMaterial
       else if length (remdups packet) \<noteq> length packet
         \<or> list_ex (\<lambda>eid. \<not> contains l eid) packet \<or> list_ex (\<lambda>eid. eid \<in> assigned) packet
       then Inl InvalidReferenceMaterial
       else let targets = map (\<lambda>e. TargetEvent (ev_id e)) (filter (\<lambda>e. List.member packet (ev_id e)) (el_events l)) in
       if length targets \<noteq> length (remdups packet) then Inl InvalidReferenceMaterial
       else rbind (map_err (\<lambda>_. InvalidReferenceMaterial)
           (EvidenceReferenceV1_issue sha256 result targets [Exact] issued expires)) (\<lambda>reference.
         Inr (assigned \<union> set packet, references @ [reference])))"

definition build_packet_references ::
  "(bytes \<Rightarrow> bytes) \<Rightarrow> EventLedger \<Rightarrow> ResultId \<Rightarrow> EventId list list \<Rightarrow> int \<Rightarrow> int \<Rightarrow>
   (ResultStoreError, EvidenceReferenceV1 list) result" where
  "build_packet_references sha256 l result packets issued expires =
     (if length packets > MAX_LOG_BRIEF_EVIDENCE_PACKETS then Inl InvalidReferenceMaterial
      else rbind (rfold (packet_step sha256 l result issued expires) ({}, []) packets) (\<lambda>(assigned, references).
        rbind (reference_map references) (\<lambda>_. Inr references)))"

definition prepare_packet_references ::
  "(bytes \<Rightarrow> bytes) \<Rightarrow> ResultId \<Rightarrow> EventId list list \<Rightarrow> int \<Rightarrow> MemoryResultStore \<Rightarrow>
   (ResultStoreError, PreparedPacketReferencesV1) result" where
  "prepare_packet_references sha256 result packets now s =
     rbind (live_result s result now) (\<lambda>r.
     rbind (build_packet_references sha256 (mr_ledger r) result packets now (mr_expires_at r)) (\<lambda>references.
     Inr \<lparr>pp_result_id = result, pp_result_created_at = mr_created_at r, pp_expires_at = mr_expires_at r,
          pp_references = references\<rparr>))"

text \<open>The checks of the commit, before its first write.\<close>

definition commit_checks ::
  "PreparedPacketReferencesV1 \<Rightarrow> int \<Rightarrow> MemoryResultStore \<Rightarrow>
   (ResultStoreError, MemoryResult \<times> (EvidenceReferenceId, EvidenceReferenceV1) btree_map) result" where
  "commit_checks prepared now s =
     rbind (reference_map (pp_references prepared)) (\<lambda>registered.
     rbind (ok_or ReferenceUnavailable (map_of s (pp_result_id prepared))) (\<lambda>r.
     if mr_created_at r \<noteq> pp_result_created_at prepared \<or> mr_expires_at r \<noteq> pp_expires_at prepared
       \<or> now < mr_created_at r \<or> now \<ge> mr_expires_at r then Inl ReferenceUnavailable
     else if mr_evidence_alias_manifest r \<noteq> None then Inl AliasManifestAlreadyPublished
     else if list_ex (\<lambda>(refid, _). map_of (mr_references r) refid \<noteq> None) registered then Inl InvalidReferenceMaterial
     else Inr (r, registered)))"

definition commit_packet_references ::
  "PreparedPacketReferencesV1 \<Rightarrow> int \<Rightarrow> MemoryResultStore \<Rightarrow>
   (ResultStoreError, RegisteredResultV1) result \<times> MemoryResultStore" where
  "commit_packet_references prepared now s =
     (case commit_checks prepared now s of
        Inl e \<Rightarrow> (Inl e, s)
      | Inr (r, registered) \<Rightarrow>
          (Inr \<lparr>reg_expires_at = pp_expires_at prepared, reg_references = pp_references prepared\<rparr>,
           bt_insert (pp_result_id prepared)
             (r\<lparr>mr_evidence_alias_manifest := Some (map er_id (pp_references prepared)),
                mr_pending_event_alias_manifest := [],
                mr_references := fold (\<lambda>(refid, reference). bt_insert refid reference) registered (mr_references r)\<rparr>) s))"

section \<open>Issued references\<close>

definition supported_relation :: "ExpansionRelationV1 \<Rightarrow> bool" where
  "supported_relation relation \<longleftrightarrow> (case relation of Exact \<Rightarrow> True | SameLaneBeforeAfter \<Rightarrow> True | GlobalBeforeAfter \<Rightarrow> True | _ \<Rightarrow> False)"

definition issue_checks ::
  "(bytes \<Rightarrow> bytes) \<Rightarrow> ResultId \<Rightarrow> EventId list \<Rightarrow> ExpansionRelationV1 list \<Rightarrow> int \<Rightarrow> MemoryResultStore \<Rightarrow>
   (ResultStoreError, MemoryResult \<times> EvidenceReferenceV1) result" where
  "issue_checks sha256 result event_ids relations now s =
     rbind (live_result s result now) (\<lambda>r.
     if event_ids = [] \<or> list_ex (\<lambda>eid. \<not> contains (mr_ledger r) eid) event_ids then Inl InvalidReferenceMaterial
     else if list_ex (\<lambda>relation. \<not> supported_relation relation) relations
       \<or> (length event_ids \<noteq> 1 \<and> list_ex (\<lambda>relation. relation \<noteq> Exact) relations) then Inl InvalidReferenceMaterial
     else rbind (map_err (\<lambda>_. InvalidReferenceMaterial)
         (EvidenceReferenceV1_issue sha256 result (map TargetEvent event_ids) relations now (mr_expires_at r))) (\<lambda>reference.
       if map_of (mr_references r) (er_id reference) \<noteq> None then Inl InvalidReferenceMaterial
       else Inr (r, reference)))"

definition issue_event_reference ::
  "(bytes \<Rightarrow> bytes) \<Rightarrow> ResultId \<Rightarrow> EventId list \<Rightarrow> ExpansionRelationV1 list \<Rightarrow> int \<Rightarrow> MemoryResultStore \<Rightarrow>
   (ResultStoreError, EvidenceReferenceV1) result \<times> MemoryResultStore" where
  "issue_event_reference sha256 result event_ids relations now s =
     (case issue_checks sha256 result event_ids relations now s of
        Inl e \<Rightarrow> (Inl e, s)
      | Inr (r, reference) \<Rightarrow>
          (Inr reference, bt_insert result (r\<lparr>mr_references := bt_insert (er_id reference) reference (mr_references r)\<rparr>) s))"

section \<open>Reads and removal\<close>

definition store_ledger :: "ResultId \<Rightarrow> int \<Rightarrow> MemoryResultStore \<Rightarrow> (ResultStoreError, EventLedger) result" where
  "store_ledger result now s = rbind (live_result s result now) (\<lambda>r. Inr (mr_ledger r))"

definition registered_reference_metadata ::
  "ResultId \<Rightarrow> int \<Rightarrow> MemoryResultStore \<Rightarrow> (ResultStoreError, EvidenceReferenceV1 list) result" where
  "registered_reference_metadata result now s = rbind (live_result s result now) (\<lambda>r. Inr (map snd (mr_references r)))"

definition store_expand ::
  "ExpansionRequestV1 \<Rightarrow> int \<Rightarrow> MemoryResultStore \<Rightarrow> (ResultStoreError, ExpansionResponseV1) result" where
  "store_expand request now s =
     rbind (live_result s (rq_result_id request) now) (\<lambda>r.
     rbind (ok_or ReferenceUnavailable (map_of (mr_references r) (rq_reference_id request))) (\<lambda>reference.
     expand_retained_result_v1 (mr_ledger r) reference request now))"

definition expand_alias ::
  "AliasExpansionRequestV1 \<Rightarrow> int \<Rightarrow> MemoryResultStore \<Rightarrow> (ResultStoreError, ExpansionResponseV1) result" where
  "expand_alias request now s =
     rbind (ok_or ReferenceUnavailable (map_of s (ax_result_id request))) (\<lambda>r.
     if alias_result_id (ax_alias request) \<noteq> ax_result_id request then Inl ReferenceUnavailable
     else if now < mr_created_at r \<or> now \<ge> mr_expires_at r then Inl ReferenceUnavailable
     else rbind (ok_or ReferenceUnavailable (mr_evidence_alias_manifest r)) (\<lambda>manifest.
     rbind (nth_or ReferenceUnavailable manifest (zero_based_index (ax_alias request))) (\<lambda>refid.
     store_expand \<lparr>rq_result_id = ax_result_id request, rq_reference_id = refid, rq_relation = ax_relation request,
       rq_limit = ax_limit request\<rparr> now s)))"

definition store_delete :: "ResultId \<Rightarrow> MemoryResultStore \<Rightarrow> MemoryResultStore" where
  "store_delete result s = bt_remove result s"

definition cleanup_expired :: "int \<Rightarrow> MemoryResultStore \<Rightarrow> nat \<times> MemoryResultStore" where
  "cleanup_expired now s =
     (let kept = filter (\<lambda>(_, r). now < mr_expires_at r) s in (length s - length kept, kept))"

section \<open>The store as a state machine\<close>

text \<open>
  Every call of a store.  The ledgers are those that sealing and projection produce.  A prepared packet manifest comes from some earlier state; the store is not
  locked between preparing and committing it.
\<close>

inductive stored :: "(bytes \<Rightarrow> bytes) \<Rightarrow> MemoryResultStore \<Rightarrow> bool" for sha256 where
  stored_new: "stored sha256 []"
| stored_insert: "stored sha256 s \<Longrightarrow> ledger_ok l \<Longrightarrow> stored sha256 (snd (store_insert result l created s))"
| stored_insert_events: "stored sha256 s \<Longrightarrow> ledger_ok l \<Longrightarrow> stored sha256 (snd (insert_with_event_references sha256 result l created s))"
| stored_publish: "stored sha256 s \<Longrightarrow> stored sha256 (snd (publish_event_aliases result now s))"
| stored_commit: "stored sha256 s \<Longrightarrow> stored sha256 s0 \<Longrightarrow> prepare_packet_references sha256 result packets earlier s0 = Inr prepared \<Longrightarrow>
    stored sha256 (snd (commit_packet_references prepared now s))"
| stored_issue: "stored sha256 s \<Longrightarrow> stored sha256 (snd (issue_event_reference sha256 result event_ids relations now s))"
| stored_delete: "stored sha256 s \<Longrightarrow> stored sha256 (store_delete result s)"
| stored_cleanup: "stored sha256 s \<Longrightarrow> stored sha256 (snd (cleanup_expired now s))"

text \<open>One call, by its arguments, and the store after it.\<close>

datatype StoreCall =
    CallInsert ResultId EventLedger int | CallInsertEvents ResultId EventLedger int | CallPublish ResultId int
  | CallCommit PreparedPacketReferencesV1 int
  | CallIssue ResultId "EventId list" "ExpansionRelationV1 list" int
  | CallDelete ResultId | CallCleanup int

fun apply_call :: "(bytes \<Rightarrow> bytes) \<Rightarrow> StoreCall \<Rightarrow> MemoryResultStore \<Rightarrow> MemoryResultStore" where
  "apply_call sha256 (CallInsert result l created) s = snd (store_insert result l created s)"
| "apply_call sha256 (CallInsertEvents result l created) s = snd (insert_with_event_references sha256 result l created s)"
| "apply_call sha256 (CallPublish result now) s = snd (publish_event_aliases result now s)"
| "apply_call sha256 (CallCommit prepared now) s = snd (commit_packet_references prepared now s)"
| "apply_call sha256 (CallIssue result event_ids relations now) s = snd (issue_event_reference sha256 result event_ids relations now s)"
| "apply_call sha256 (CallDelete result) s = store_delete result s"
| "apply_call sha256 (CallCleanup now) s = snd (cleanup_expired now s)"

text \<open>What every stored result satisfies.\<close>

definition reference_ok :: "(bytes \<Rightarrow> bytes) \<Rightarrow> ResultId \<Rightarrow> int \<Rightarrow> int \<Rightarrow> EvidenceReferenceV1 \<Rightarrow> bool" where
  "reference_ok sha256 result created expires r \<longleftrightarrow>
     (\<exists>targets relations issued. material_ok targets relations issued expires \<and> created \<le> issued
        \<and> r = reference_of sha256 result targets relations issued expires)"

definition result_ok :: "(bytes \<Rightarrow> bytes) \<Rightarrow> ResultId \<Rightarrow> MemoryResult \<Rightarrow> bool" where
  "result_ok sha256 result r \<longleftrightarrow> ledger_ok (mr_ledger r) \<and> mr_expires_at r = mr_created_at r + DEFAULT_RESULT_TTL_NANOS
     \<and> (\<forall>refid reference. map_of (mr_references r) refid = Some reference \<longrightarrow>
          er_id reference = refid \<and> reference_ok sha256 result (mr_created_at r) (mr_expires_at r) reference)
     \<and> set (mr_pending_event_alias_manifest r) \<subseteq> dom (map_of (mr_references r))
     \<and> (\<forall>manifest. mr_evidence_alias_manifest r = Some manifest \<longrightarrow>
          set manifest \<subseteq> dom (map_of (mr_references r)) \<and> mr_pending_event_alias_manifest r = [])"

definition store_ok :: "(bytes \<Rightarrow> bytes) \<Rightarrow> MemoryResultStore \<Rightarrow> bool" where
  "store_ok sha256 s \<longleftrightarrow> bt_ordered s \<and> (\<forall>result r. map_of s result = Some r \<longrightarrow> result_ok sha256 result r)"

definition prepared_ok :: "(bytes \<Rightarrow> bytes) \<Rightarrow> PreparedPacketReferencesV1 \<Rightarrow> bool" where
  "prepared_ok sha256 p \<longleftrightarrow> (\<forall>r \<in> set (pp_references p).
     reference_ok sha256 (pp_result_id p) (pp_result_created_at p) (pp_expires_at p) r)"

end
