(* ===== verification/Store_Invariant.thy ===== *)
theory Store_Invariant
  imports Store
begin

text \<open>
  Every operation of the store keeps its invariant: fixed lifetimes, references that belong to their
  result and commit to their own content, and alias manifests without dangling entries.
\<close>

section \<open>Reference maps\<close>

definition reference_index :: "EvidenceReferenceV1 list \<Rightarrow> (EvidenceReferenceId, EvidenceReferenceV1) btree_map" where
  "reference_index refs = fold (\<lambda>r. bt_insert (er_id r) r) refs []"

lemma reference_index_Some:
  "distinct (map er_id refs) \<Longrightarrow> map_of (reference_index refs) k = Some r \<longleftrightarrow> r \<in> set refs \<and> er_id r = k"
proof (induction refs rule: rev_induct)
  case (snoc x refs)
  then show ?case by (auto simp: reference_index_def image_iff)
qed (simp add: reference_index_def)

lemma fresh_reference: "map_of (reference_index refs) k = None \<longleftrightarrow> k \<notin> er_id ` set refs"
  by (induction refs rule: rev_induct) (simp_all add: reference_index_def)

lemma reference_index_dom: "dom (map_of (reference_index refs)) = er_id ` set refs"
proof -
  have "dom (map_of (reference_index refs)) = {k. map_of (reference_index refs) k \<noteq> None}" by (simp add: dom_def)
  then show ?thesis unfolding fresh_reference by simp
qed

lemma reference_index_ordered: "bt_ordered (reference_index refs)"
  by (induction refs rule: rev_induct) (auto simp: reference_index_def bt_ordered_insert)

lemma reference_index_snoc [simp]: "reference_index (refs @ [r]) = bt_insert (er_id r) r (reference_index refs)"
  by (simp add: reference_index_def)

lemma reference_map_Inr:
  "reference_map refs = Inr m \<longleftrightarrow> distinct (map er_id refs) \<and> m = reference_index refs"
proof (induction refs arbitrary: m rule: rev_induct)
  case Nil
  then show ?case by (auto simp: reference_map_def reference_index_def)
next
  case (snoc r refs)
  have "reference_map (refs @ [r]) = Inr m \<longleftrightarrow> (\<exists>t. reference_map refs = Inr t \<and> reference_map_step t r = Inr m)"
    by (simp add: reference_map_def rfold_append rbind_Inr)
  moreover have "reference_map_step (reference_index refs) r = Inr m \<longleftrightarrow>
      er_id r \<notin> er_id ` set refs \<and> m = reference_index (refs @ [r])"
    unfolding reference_map_step_def fresh_reference by auto
  ultimately show ?case by (auto simp: snoc.IH)
qed

definition event_reference :: "(bytes \<Rightarrow> bytes) \<Rightarrow> ResultId \<Rightarrow> int \<Rightarrow> int \<Rightarrow> Event \<Rightarrow> EvidenceReferenceV1" where
  "event_reference sha256 result created expires e =
     reference_of sha256 result [TargetEvent (ev_id e)] [Exact, SameLaneBeforeAfter, GlobalBeforeAfter] created expires"

lemma event_material:
  "material_ok [TargetEvent eid] [Exact, SameLaneBeforeAfter, GlobalBeforeAfter] created expires \<longleftrightarrow> created < expires"
  by (simp add: material_ok_def MAX_EVIDENCE_REFERENCE_TARGETS_def)

lemma event_reference_step_Inr:
  "event_reference_step sha256 result created expires (refs, reference_index refs) e = Inr st \<longleftrightarrow>
     created < expires \<and> er_id (event_reference sha256 result created expires e) \<notin> er_id ` set refs
     \<and> st = (refs @ [event_reference sha256 result created expires e],
             reference_index (refs @ [event_reference sha256 result created expires e]))"
  unfolding event_reference_step_def prod.case rbind_Inr map_err_Inr issue_Inr event_material fresh_reference
    event_reference_def [symmetric]
  by auto

lemma event_references_loop:
  assumes "rfold (event_reference_step sha256 result created expires) ([], []) es = Inr (refs, m)"
  shows "refs = map (event_reference sha256 result created expires) es \<and> distinct (map er_id refs)
    \<and> m = reference_index refs \<and> (es \<noteq> [] \<longrightarrow> created < expires)"
  using assms
proof (induction es arbitrary: refs m rule: rev_induct)
  case Nil
  then show ?case by (simp add: reference_index_def)
next
  case (snoc e es)
  from snoc.prems obtain refs' m' where prev: "rfold (event_reference_step sha256 result created expires) ([], []) es = Inr (refs', m')"
    and step: "event_reference_step sha256 result created expires (refs', m') e = Inr (refs, m)"
    by (auto simp: rfold_append rbind_Inr)
  note ih = snoc.IH [OF prev]
  then have "event_reference_step sha256 result created expires (refs', reference_index refs') e = Inr (refs, m)" using step by simp
  then show ?case using ih by (auto simp: event_reference_step_Inr)
qed

section \<open>Invariant\<close>

lemma reference_ok_id: "reference_ok sha256 result created expires r \<Longrightarrow> er_result_id r = result \<and> er_expires_at r = expires
    \<and> created \<le> er_issued_at r \<and> sorted_wrt (<) (er_allowed_relations r) \<and> distinct (er_targets r)"
  by (auto simp: reference_ok_def reference_of_def relation_set_sorted material_ok_def)

lemma store_ok_insert:
  "store_ok sha256 s \<Longrightarrow> result_ok sha256 result r \<Longrightarrow> store_ok sha256 (bt_insert result r s)"
  by (auto simp: store_ok_def bt_ordered_insert)

lemma store_ok_result: "store_ok sha256 s \<Longrightarrow> map_of s result = Some r \<Longrightarrow> result_ok sha256 result r"
  by (simp add: store_ok_def)

lemma live_result_Inr:
  "live_result s result now = Inr r \<longleftrightarrow> map_of s result = Some r \<and> mr_created_at r \<le> now \<and> now < mr_expires_at r"
  by (cases "map_of s result") (auto simp: live_result_def)

lemma fixed_expiry_Inr: "fixed_expiry created = Inr expires \<Longrightarrow> expires = created + DEFAULT_RESULT_TTL_NANOS"
  by (auto simp: fixed_expiry_def Let_def split: if_splits)

lemma ttl_positive: "created < created + DEFAULT_RESULT_TTL_NANOS"
  by (simp add: DEFAULT_RESULT_TTL_NANOS_def)

lemma store_insert_ok: "store_ok sha256 s \<Longrightarrow> ledger_ok l \<Longrightarrow> store_ok sha256 (snd (store_insert result l created s))"
  by (auto simp: store_insert_def result_ok_def fixed_expiry_Inr intro!: store_ok_insert split: sum.split)

lemma event_reference_ok:
  "created < expires \<Longrightarrow> reference_ok sha256 result created expires (event_reference sha256 result created expires e)"
  unfolding reference_ok_def event_reference_def using event_material by blast

lemma event_references_ok:
  assumes "rfold (event_reference_step sha256 result created expires) ([], []) (el_events l) = Inr (refs, m)"
    and "ledger_ok l" and "expires = created + DEFAULT_RESULT_TTL_NANOS"
  shows "result_ok sha256 result \<lparr>mr_ledger = l, mr_created_at = created, mr_expires_at = expires, mr_references = m,
    mr_evidence_alias_manifest = None, mr_pending_event_alias_manifest = map er_id refs\<rparr>"
proof -
  note loop = event_references_loop [OF assms(1)]
  have "reference_ok sha256 result created expires r" if "r \<in> set refs" for r
    using that loop event_reference_ok by auto
  then show ?thesis
    using loop assms(2,3) by (auto simp: result_ok_def reference_index_Some reference_index_dom)
qed

lemma insert_with_event_references_ok:
  assumes "store_ok sha256 s" and "ledger_ok l"
  shows "store_ok sha256 (snd (insert_with_event_references sha256 result l created s))"
proof (cases "map_of s result = None \<and> (\<exists>expires refs m. fixed_expiry created = Inr expires
    \<and> rfold (event_reference_step sha256 result created expires) ([], []) (el_events l) = Inr (refs, m))")
  case True
  then obtain expires refs m where "map_of s result = None" "fixed_expiry created = Inr expires"
    and loop: "rfold (event_reference_step sha256 result created expires) ([], []) (el_events l) = Inr (refs, m)" by blast
  then show ?thesis
    using store_ok_insert [OF assms(1) event_references_ok [OF loop assms(2) fixed_expiry_Inr]]
    by (simp add: insert_with_event_references_def)
next
  case False
  then have "snd (insert_with_event_references sha256 result l created s) = s"
    by (auto simp: insert_with_event_references_def rbind_def split: sum.splits)
  then show ?thesis using assms(1) by simp
qed

lemma publish_ok: "store_ok sha256 s \<Longrightarrow> store_ok sha256 (snd (publish_event_aliases result now s))"
proof (cases "live_result s result now")
  case (Inr r)
  assume ok: "store_ok sha256 s"
  have "map_of s result = Some r" using Inr live_result_Inr by blast
  then have "result_ok sha256 result r" by (rule store_ok_result [OF ok])
  then have "result_ok sha256 result (r\<lparr>mr_evidence_alias_manifest := Some (mr_pending_event_alias_manifest r),
      mr_pending_event_alias_manifest := []\<rparr>)"
    by (auto simp: result_ok_def)
  then show ?thesis using store_ok_insert [OF ok] ok Inr by (simp add: publish_event_aliases_def)
qed (simp add: publish_event_aliases_def)

lemma packet_references_ok:
  assumes "rfold (packet_step sha256 l result issued expires) ({}, []) packets = Inr st"
  shows "\<forall>r \<in> set (snd st). \<exists>targets. material_ok targets [Exact] issued expires
    \<and> r = reference_of sha256 result targets [Exact] issued expires"
proof (rule rfold_invariant [OF assms, where P = "\<lambda>_ st. \<forall>r \<in> set (snd st). \<exists>targets. material_ok targets [Exact] issued expires
    \<and> r = reference_of sha256 result targets [Exact] issued expires"])
  fix ys packet t t'
  assume all: "\<forall>r \<in> set (snd t). \<exists>targets. material_ok targets [Exact] issued expires
      \<and> r = reference_of sha256 result targets [Exact] issued expires"
    and step: "packet_step sha256 l result issued expires t packet = Inr t'"
  obtain assigned refs where t: "t = (assigned, refs)" by fastforce
  from step obtain targets where "snd t' = refs @ [reference_of sha256 result targets [Exact] issued expires]"
    "material_ok targets [Exact] issued expires"
    by (auto simp: t packet_step_def Let_def rbind_Inr map_err_Inr issue_Inr split: if_splits)
  then show "\<forall>r \<in> set (snd t'). \<exists>targets. material_ok targets [Exact] issued expires
      \<and> r = reference_of sha256 result targets [Exact] issued expires"
    using all t by auto
qed simp

lemma prepare_ok:
  assumes "prepare_packet_references sha256 result packets now s = Inr p"
  shows "prepared_ok sha256 p"
proof -
  obtain r refs where r: "live_result s result now = Inr r"
    and refs: "build_packet_references sha256 (mr_ledger r) result packets now (mr_expires_at r) = Inr refs"
    and p: "p = \<lparr>pp_result_id = result, pp_result_created_at = mr_created_at r, pp_expires_at = mr_expires_at r, pp_references = refs\<rparr>"
    using assms by (auto simp: prepare_packet_references_def rbind_Inr)
  from refs obtain assigned where "rfold (packet_step sha256 (mr_ledger r) result now (mr_expires_at r)) ({}, []) packets = Inr (assigned, refs)"
    by (auto simp: build_packet_references_def rbind_Inr split: if_splits)
  from packet_references_ok [OF this] show ?thesis
    using r unfolding prepared_ok_def reference_ok_def live_result_Inr p by fastforce
qed

lemma merge_lookup:
  assumes "distinct (map fst kvs)"
  shows "map_of (fold (\<lambda>(k, v). bt_insert k v) kvs m) k = (case map_of kvs k of None \<Rightarrow> map_of m k | Some v \<Rightarrow> Some v)"
proof (cases "map_of kvs k")
  case None
  then have "k \<notin> fst ` set kvs" by (simp add: map_of_eq_None_iff)
  then show ?thesis using bt.fold_put_other [of k kvs m] None by simp
next
  case (Some v)
  then show ?thesis using bt.fold_put_get [OF assms map_of_SomeD [OF Some], of m] by simp
qed

lemma commit_checks_Inr:
  assumes "commit_checks p now s = Inr (r, registered)"
  shows "map_of s (pp_result_id p) = Some r" and "registered = reference_index (pp_references p)"
    and "distinct (map er_id (pp_references p))" and "mr_created_at r = pp_result_created_at p"
    and "mr_expires_at r = pp_expires_at p" and "mr_evidence_alias_manifest r = None"
    and "\<forall>x \<in> set (pp_references p). map_of (mr_references r) (er_id x) = None"
proof -
  have *: "reference_map (pp_references p) = Inr registered \<and> map_of s (pp_result_id p) = Some r
      \<and> mr_created_at r = pp_result_created_at p \<and> mr_expires_at r = pp_expires_at p \<and> mr_evidence_alias_manifest r = None
      \<and> \<not> list_ex (\<lambda>(refid, _). map_of (mr_references r) refid \<noteq> None) registered"
    using assms by (auto simp: commit_checks_def rbind_Inr ok_or_Inr split: if_splits)
  then show "map_of s (pp_result_id p) = Some r" "registered = reference_index (pp_references p)"
    "distinct (map er_id (pp_references p))" "mr_created_at r = pp_result_created_at p"
    "mr_expires_at r = pp_expires_at p" "mr_evidence_alias_manifest r = None"
    by (simp_all add: reference_map_Inr)
  have "\<forall>k \<in> fst ` set registered. map_of (mr_references r) k = None" using * by (auto simp: list_ex_iff)
  moreover have "fst ` set registered = er_id ` set (pp_references p)"
    using * reference_index_dom by (simp add: reference_map_Inr flip: dom_map_of_conv_image_fst)
  ultimately show "\<forall>x \<in> set (pp_references p). map_of (mr_references r) (er_id x) = None" by blast
qed

lemma merged_references:
  assumes "distinct (map er_id refs)"
  shows "map_of (fold (\<lambda>(k, v). bt_insert k v) (reference_index refs) m) k =
    (case map_of (reference_index refs) k of None \<Rightarrow> map_of m k | Some v \<Rightarrow> Some v)"
  by (rule merge_lookup [OF bt_ordered_distinct [OF reference_index_ordered]])

lemma commit_ok:
  assumes ok: "store_ok sha256 s" and p: "prepared_ok sha256 p"
  shows "store_ok sha256 (snd (commit_packet_references p now s))"
proof (cases "commit_checks p now s")
  case (Inr x)
  obtain r registered where x: "x = (r, registered)" by fastforce
  note c = commit_checks_Inr [OF Inr [unfolded x]]
  let ?refs = "fold (\<lambda>(refid, reference). bt_insert refid reference) registered (mr_references r)"
  have r: "result_ok sha256 (pp_result_id p) r" by (rule store_ok_result [OF ok c(1)])
  have lookup: "map_of ?refs k = (case map_of (reference_index (pp_references p)) k of None \<Rightarrow> map_of (mr_references r) k | Some v \<Rightarrow> Some v)" for k
    using merged_references [OF c(3)] c(2) by simp
  have "er_id ref = k \<and> reference_ok sha256 (pp_result_id p) (mr_created_at r) (mr_expires_at r) ref" if "map_of ?refs k = Some ref" for k ref
  proof (cases "map_of (reference_index (pp_references p)) k")
    case None
    then have "map_of (mr_references r) k = Some ref" using that lookup by simp
    then show ?thesis using r unfolding result_ok_def by blast
  next
    case (Some v)
    then have "v = ref" using that lookup by simp
    then have "ref \<in> set (pp_references p)" "er_id ref = k" using Some reference_index_Some [OF c(3)] by auto
    then show ?thesis using p c(4,5) by (simp add: prepared_ok_def)
  qed
  moreover have "set (map er_id (pp_references p)) \<subseteq> dom (map_of ?refs)"
    using fresh_reference [of "pp_references p"] by (force simp: lookup dom_def split: option.split)
  ultimately have "result_ok sha256 (pp_result_id p) (r\<lparr>mr_evidence_alias_manifest := Some (map er_id (pp_references p)),
      mr_pending_event_alias_manifest := [], mr_references := ?refs\<rparr>)"
    using r by (simp add: result_ok_def)
  then show ?thesis using store_ok_insert [OF ok] Inr x by (simp add: commit_packet_references_def)
qed (simp add: commit_packet_references_def ok)

lemma issue_checks_Inr:
  assumes "issue_checks sha256 result event_ids relations now s = Inr (r, ref)"
  shows "map_of s result = Some r" and "mr_created_at r \<le> now" and "map_of (mr_references r) (er_id ref) = None"
    and "material_ok (map TargetEvent event_ids) relations now (mr_expires_at r)"
    and "ref = reference_of sha256 result (map TargetEvent event_ids) relations now (mr_expires_at r)"
  using assms by (auto simp: issue_checks_def rbind_Inr map_err_Inr issue_Inr live_result_Inr split: if_splits)

lemma issue_ok:
  assumes ok: "store_ok sha256 s"
  shows "store_ok sha256 (snd (issue_event_reference sha256 result event_ids relations now s))"
proof (cases "issue_checks sha256 result event_ids relations now s")
  case (Inr x)
  obtain r ref where x: "x = (r, ref)" by fastforce
  note c = issue_checks_Inr [OF Inr [unfolded x]]
  have r: "result_ok sha256 result r" by (rule store_ok_result [OF ok c(1)])
  have "reference_ok sha256 result (mr_created_at r) (mr_expires_at r) ref"
    unfolding reference_ok_def using c(2,4,5) by blast
  then have "result_ok sha256 result (r\<lparr>mr_references := bt_insert (er_id ref) ref (mr_references r)\<rparr>)"
    using r by (auto simp: result_ok_def)
  then show ?thesis using store_ok_insert [OF ok] Inr x by (simp add: issue_event_reference_def)
qed (simp add: issue_event_reference_def ok)

lemma map_of_filter_distinct:
  "distinct (map fst s) \<Longrightarrow> map_of (filter P s) k =
     (case map_of s k of None \<Rightarrow> None | Some v \<Rightarrow> if P (k, v) then Some v else None)"
  by (induction s) (auto split: option.split simp: map_of_eq_None_iff dest: map_of_SomeD)

lemma cleanup_lookup:
  assumes "bt_ordered s"
  shows "map_of (snd (cleanup_expired now s)) result = Some r \<longleftrightarrow> map_of s result = Some r \<and> now < mr_expires_at r"
  unfolding cleanup_expired_def Let_def snd_conv map_of_filter_distinct [OF bt_ordered_distinct [OF assms]]
  by (auto split: option.split)

lemma cleanup_ok: "store_ok sha256 s \<Longrightarrow> store_ok sha256 (snd (cleanup_expired now s))"
  unfolding store_ok_def using cleanup_lookup
  by (metis bt_ordered_filter cleanup_expired_def snd_conv)

lemma delete_ok: "store_ok sha256 s \<Longrightarrow> store_ok sha256 (store_delete result s)"
  by (auto simp: store_ok_def store_delete_def bt.invar_drop split: if_splits)

lemma stored_store_ok: "stored sha256 s \<Longrightarrow> store_ok sha256 s"
  by (induction rule: stored.induct)
    (simp_all add: store_insert_ok insert_with_event_references_ok publish_ok commit_ok prepare_ok issue_ok delete_ok cleanup_ok,
     simp add: store_ok_def)

section \<open>Retention\<close>

text \<open>The result is stored with this ledger and lifetime, and these references resolve.\<close>

definition retains ::
  "ResultId \<Rightarrow> EventLedger \<Rightarrow> int \<Rightarrow> int \<Rightarrow> EvidenceReferenceV1 set \<Rightarrow> MemoryResultStore \<Rightarrow> bool" where
  "retains result l created expires refs s \<longleftrightarrow> bt_ordered s \<and>
     (\<exists>r. map_of s result = Some r \<and> mr_ledger r = l \<and> mr_created_at r = created \<and> mr_expires_at r = expires
        \<and> (\<forall>ref \<in> refs. map_of (mr_references r) (er_id ref) = Some ref))"

text \<open>Calls that neither delete the result nor clean up after its expiry.\<close>

fun spares :: "ResultId \<Rightarrow> int \<Rightarrow> StoreCall \<Rightarrow> bool" where
  "spares result expires (CallDelete other) = (other \<noteq> result)"
| "spares result expires (CallCleanup now) = (now < expires)"
| "spares result expires _ = True"

lemma retains_other:
  "retains result l created expires refs s \<Longrightarrow> other \<noteq> result \<Longrightarrow> retains result l created expires refs (bt_insert other r s)"
  by (auto simp: retains_def bt_ordered_insert)

lemma retains_update:
  assumes "retains result l created expires refs s" and "map_of s result = Some r"
    and "mr_ledger r' = mr_ledger r" and "mr_created_at r' = mr_created_at r" and "mr_expires_at r' = mr_expires_at r"
    and "\<And>k ref. map_of (mr_references r) k = Some ref \<Longrightarrow> map_of (mr_references r') k = Some ref"
  shows "retains result l created expires refs (bt_insert result r' s)"
  using assms by (auto simp: retains_def bt_ordered_insert)

lemma retains_insert: "retains result l created expires refs s \<Longrightarrow> retains result l created expires refs (snd (store_insert other l' now s))"
proof (cases "other = result")
  case False
  assume "retains result l created expires refs s"
  then show ?thesis using retains_other [OF _ False] by (auto simp: store_insert_def split: sum.split)
qed (auto simp: store_insert_def retains_def)

lemma retains_insert_events:
  assumes "retains result l created expires refs s"
  shows "retains result l created expires refs (snd (insert_with_event_references sha256 other l' now s))"
proof (cases "other = result")
  case True
  then show ?thesis using assms by (auto simp: insert_with_event_references_def retains_def)
next
  case False
  then show ?thesis
    using assms retains_other [OF assms False] by (simp add: insert_with_event_references_def split: sum.split prod.split)
qed

lemma retains_publish:
  assumes "retains result l created expires refs s"
  shows "retains result l created expires refs (snd (publish_event_aliases other now s))"
proof (cases "live_result s other now")
  case (Inr r)
  then have "map_of s other = Some r" by (simp add: live_result_Inr)
  then show ?thesis
    using assms Inr retains_other [OF assms] retains_update [OF assms]
    by (cases "other = result") (simp_all add: publish_event_aliases_def)
qed (simp add: publish_event_aliases_def assms)

lemma retains_commit:
  assumes "retains result l created expires refs s"
  shows "retains result l created expires refs (snd (commit_packet_references p now s))"
proof (cases "commit_checks p now s")
  case (Inr x)
  obtain r registered where x: "x = (r, registered)" by fastforce
  note c = commit_checks_Inr [OF Inr [unfolded x]]
  let ?r = "r\<lparr>mr_evidence_alias_manifest := Some (map er_id (pp_references p)), mr_pending_event_alias_manifest := [],
      mr_references := fold (\<lambda>(refid, reference). bt_insert refid reference) registered (mr_references r)\<rparr>"
  have keep: "map_of (mr_references ?r) k = Some ref" if "map_of (mr_references r) k = Some ref" for k ref
  proof -
    have "k \<notin> er_id ` set (pp_references p)" using that c(7) by auto
    then have "map_of (reference_index (pp_references p)) k = None" by (simp add: fresh_reference)
    then show ?thesis using that merged_references [OF c(3), of "mr_references r" k] c(2) by simp
  qed
  have "retains result l created expires refs (bt_insert (pp_result_id p) ?r s)"
  proof (cases "pp_result_id p = result")
    case True
    show ?thesis unfolding True by (rule retains_update [OF assms c(1) [unfolded True]]) (use keep in auto)
  next
    case False
    then show ?thesis by (rule retains_other [OF assms])
  qed
  then show ?thesis using Inr x by (simp add: commit_packet_references_def)
qed (simp add: commit_packet_references_def assms)

lemma retains_issue:
  assumes "retains result l created expires refs s"
  shows "retains result l created expires refs (snd (issue_event_reference sha256 other event_ids relations now s))"
proof (cases "issue_checks sha256 other event_ids relations now s")
  case (Inr x)
  obtain r ref where x: "x = (r, ref)" by fastforce
  note c = issue_checks_Inr [OF Inr [unfolded x]]
  let ?r = "r\<lparr>mr_references := bt_insert (er_id ref) ref (mr_references r)\<rparr>"
  have keep: "map_of (mr_references ?r) k = Some v" if "map_of (mr_references r) k = Some v" for k v
    using that c(3) by auto
  have "retains result l created expires refs (bt_insert other ?r s)"
  proof (cases "other = result")
    case True
    show ?thesis unfolding True by (rule retains_update [OF assms c(1) [unfolded True]]) (use keep in auto)
  next
    case False
    then show ?thesis by (rule retains_other [OF assms])
  qed
  then show ?thesis using Inr x by (simp add: issue_event_reference_def)
qed (simp add: issue_event_reference_def assms)

lemma retains_cleanup:
  assumes "retains result l created expires refs s" and "now < expires"
  shows "retains result l created expires refs (snd (cleanup_expired now s))"
proof -
  have o: "bt_ordered s" using assms(1) by (simp add: retains_def)
  have "bt_ordered (snd (cleanup_expired now s))" using o by (simp add: cleanup_expired_def bt_ordered_filter Let_def)
  then show ?thesis using assms cleanup_lookup [OF o] unfolding retains_def by blast
qed

lemma retains_call:
  assumes "retains result l created expires refs s" and "spares result expires c"
  shows "retains result l created expires refs (apply_call sha256 c s)"
proof (cases c)
  case (CallDelete other)
  then show ?thesis using assms by (auto simp: store_delete_def retains_def bt.invar_drop)
qed (use assms in \<open>simp_all add: retains_insert retains_insert_events retains_publish retains_commit retains_issue retains_cleanup\<close>)

lemma retains_calls:
  "retains result l created expires refs s \<Longrightarrow> \<forall>c \<in> set calls. spares result expires c \<Longrightarrow>
     retains result l created expires refs (fold (apply_call sha256) calls s)"
  by (induction calls arbitrary: s) (simp_all add: retains_call)

lemma insert_events_retains:
  assumes ok: "store_ok sha256 s" and run: "insert_with_event_references sha256 result l created s = (Inr reg, s1)"
  shows "reg_references reg = map (event_reference sha256 result created (reg_expires_at reg)) (el_events l)"
    and "reg_expires_at reg = created + DEFAULT_RESULT_TTL_NANOS"
    and "retains result l created (reg_expires_at reg) (set (reg_references reg)) s1"
proof -
  obtain expires refs m where fixed: "fixed_expiry created = Inr expires"
    and loop: "rfold (event_reference_step sha256 result created expires) ([], []) (el_events l) = Inr (refs, m)"
    and reg: "reg = \<lparr>reg_expires_at = expires, reg_references = refs\<rparr>"
    and s1: "s1 = bt_insert result \<lparr>mr_ledger = l, mr_created_at = created, mr_expires_at = expires, mr_references = m,
        mr_evidence_alias_manifest = None, mr_pending_event_alias_manifest = map er_id refs\<rparr> s"
    using run by (auto simp: insert_with_event_references_def rbind_Inr split: if_splits sum.splits prod.splits)
  note facts = event_references_loop [OF loop]
  show "reg_references reg = map (event_reference sha256 result created (reg_expires_at reg)) (el_events l)"
    using facts reg by simp
  show "reg_expires_at reg = created + DEFAULT_RESULT_TTL_NANOS" using fixed_expiry_Inr [OF fixed] reg by simp
  have "bt_ordered s1" using ok s1 by (simp add: store_ok_def bt_ordered_insert)
  then show "retains result l created (reg_expires_at reg) (set (reg_references reg)) s1"
    using facts reg s1 by (auto simp: retains_def reference_index_Some)
qed

end
