(* ===== verification/Result_Properties.thy ===== *)
theory Result_Properties
  imports Presentation Store_Invariant Framing_Properties
begin

text \<open>
  Properties of presentation accounting, result status, evidence references, bounded expansion and
  the in-memory result store.
\<close>

section \<open>Presentation\<close>

lemma dispositions_set: "one_each l as \<Longrightarrow> set (dispositions_of l as) = set as"
proof -
  assume one: "one_each l as"
  let ?f = "\<lambda>k. (k, the (map_of as k))"
  have "set (dispositions_of l as) = ?f ` ev_id ` set (el_events l)" by (simp add: dispositions_of_def image_image)
  also have "\<dots> = ?f ` fst ` set as" using one by (simp add: one_each_def)
  also have "\<dots> = set as"
  proof -
    have "?f (fst x) = x" if x: "x \<in> set as" for x
    proof -
      have "map_of as (fst x) = Some (snd x)" using x one by (intro map_of_is_SomeI) (simp_all add: one_each_def)
      then show ?thesis by simp
    qed
    then show ?thesis by (simp add: image_image)
  qed
  finally show ?thesis .
qed

text \<open>
  C34.  \<open>PresentationReceipt::reconcile\<close> accepts a list of assignments exactly when it names every
  event of the sealed ledger once and nothing else; the receipt lists the given dispositions in
  ledger order and its counts add up to the number of events.
\<close>

theorem presentation_receipt_is_exhaustive:
  assumes "reachable sha256 policy b" and "seal sha256 b completion = Inr l"
  shows "((\<exists>r. PresentationReceipt_reconcile sha256 l as = Inr r) \<longleftrightarrow>
      distinct (map fst as) \<and> fst ` set as = ev_id ` set (el_events l))
    \<and> (\<forall>r. PresentationReceipt_reconcile sha256 l as = Inr r \<longrightarrow>
      map fst (pr_entries r) = map ev_id (el_events l) \<and> set (pr_entries r) = set as
      \<and> pr_counts r = count_all (map snd (pr_entries r)) \<and> presented_total (pr_counts r) = length (el_events l))"
proof (intro conjI allI impI)
  note spec = presentation_reconcile_Inr [OF sealed_ok [OF assms]]
  show "(\<exists>r. PresentationReceipt_reconcile sha256 l as = Inr r) \<longleftrightarrow>
      distinct (map fst as) \<and> fst ` set as = ev_id ` set (el_events l)"
    using spec by (auto simp: one_each_def)
  fix r assume "PresentationReceipt_reconcile sha256 l as = Inr r"
  then have one: "one_each l as" and r: "r = receipt_of sha256 l as" using spec by auto
  show "map fst (pr_entries r) = map ev_id (el_events l)" by (simp add: r receipt_of_def dispositions_of_def comp_def)
  show "set (pr_entries r) = set as" by (simp add: r receipt_of_def dispositions_set [OF one])
  show "pr_counts r = count_all (map snd (pr_entries r))" by (simp add: r receipt_of_def)
  show "presented_total (pr_counts r) = length (el_events l)" by (simp add: r receipt_of_def count_all_total dispositions_of_def)
qed

theorem presentation_receipt_is_exhaustive_witness:
  "\<exists>b l e. seal sample_sha256 b (sample_completion b) = Inr l \<and> el_events l = [e]
     \<and> (\<exists>r. PresentationReceipt_reconcile sample_sha256 l [(ev_id e, RetainedRaw)] = Inr r)
     \<and> \<not> (\<exists>r. PresentationReceipt_reconcile sample_sha256 l [] = Inr r)"
proof -
  obtain b l e where s: "reachable sample_sha256 (\<lambda>_. AuthorizeSourceExact) b" "seal sample_sha256 b (sample_completion b) = Inr l"
    "el_events l = [e]" by (rule sample_sealed)
  show ?thesis
    using presentation_receipt_is_exhaustive [OF s(1,2), of "[(ev_id e, RetainedRaw)]"]
      presentation_receipt_is_exhaustive [OF s(1,2), of "[]"] s by auto
qed

lemma shown_all: "shown_verbatim (count_all ds) = length ds \<longleftrightarrow> (\<forall>d \<in> set ds. d = ShownVerbatim)"
proof (cases "\<forall>d \<in> set ds. d = ShownVerbatim")
  case True
  then show ?thesis by (simp add: count_all_def)
next
  case False
  then obtain d where "d \<in> set ds" "d \<noteq> ShownVerbatim" by blast
  then have "length (filter (\<lambda>d. d = ShownVerbatim) ds) < length ds" by (rule length_filter_less)
  then show ?thesis using False by (simp add: count_all_def)
qed

lemma none_presented:
  "shown_verbatim (count_all ds) = 0 \<and> pattern_represented (count_all ds) = 0 \<longleftrightarrow> (\<forall>d \<in> set ds. d = RetainedRaw)"
proof -
  have "d = RetainedRaw \<longleftrightarrow> d \<noteq> ShownVerbatim \<and> (\<forall>p. d \<noteq> PatternRepresented p)" for d by (cases d) auto
  then show ?thesis by (auto simp: count_all_def filter_empty_conv)
qed

lemma only_shown:
  "\<forall>d \<in> set ds. d = ShownVerbatim \<Longrightarrow> pattern_represented (count_all ds) = 0 \<and> retained_raw (count_all ds) = 0"
  by (auto simp: count_all_def filter_empty_conv)

text \<open>
  Which check a receipt fails against a ledger, if any; a reconciled receipt never fails the
  comparison of its counts.
\<close>

definition binding_error :: "EventLedger \<Rightarrow> PresentationReceipt \<Rightarrow> ResultStatusConstructionError option" where
  "binding_error l r =
     (if pr_retrieval_id r \<noteq> el_retrieval_id l then Some PresentationRetrievalMismatch
      else if length (pr_entries r) \<noteq> length (el_events l) then Some PresentationEventCountMismatch
      else if map fst (pr_entries r) \<noteq> map ev_id (el_events l) then Some PresentationEventOrderMismatch
      else None)"

lemma list_ex_zip_map: "length xs = length ys \<Longrightarrow> list_ex (\<lambda>(x, y). f x \<noteq> g y) (zip xs ys) \<longleftrightarrow> map f xs \<noteq> map g ys"
  by (induction xs ys rule: list_induct2) auto

lemma binding_reconciled:
  assumes "pr_counts r = count_all (map snd (pr_entries r))"
  shows "validate_receipt_binding l r = (case binding_error l r of Some e \<Rightarrow> Inl e | None \<Rightarrow> Inr ())"
  using assms by (simp add: validate_receipt_binding_def binding_error_def list_ex_zip_map count_all_total)

text \<open>The status the dispositions of a bound receipt allow.\<close>

definition compiled_verdict :: "EventLedger \<Rightarrow> PresentationReceipt \<Rightarrow> (ResultStatusConstructionError, ResultStatusV1) result" where
  "compiled_verdict l r =
     (case binding_error l r of Some e \<Rightarrow> Inl e
      | None \<Rightarrow>
          if \<forall>entry \<in> set (pr_entries r). snd entry = ShownVerbatim then Inl CompiledMasqueradesAsPassthrough
          else if \<forall>entry \<in> set (pr_entries r). snd entry = RetainedRaw then Inl CompiledHasNoPresentedEvidence
          else Inr \<lparr>status_acquisition = completion_completeness (el_completion l), status_selection = StateCompiled r\<rparr>)"

definition passthrough_verdict :: "EventLedger \<Rightarrow> PassthroughSelection \<Rightarrow> (ResultStatusConstructionError, ResultStatusV1) result" where
  "passthrough_verdict l selection =
     (case binding_error l (ps_presentation_receipt selection) of Some e \<Rightarrow> Inl e
      | None \<Rightarrow>
          if \<forall>entry \<in> set (pr_entries (ps_presentation_receipt selection)). snd entry = ShownVerbatim
          then Inr \<lparr>status_acquisition = completion_completeness (el_completion l), status_selection = StatePassthrough selection\<rparr>
          else Inl InvalidPassthroughAccounting)"

lemma bound_length: "binding_error l r = None \<Longrightarrow> length (el_events l) = length (map snd (pr_entries r))"
  by (simp add: binding_error_def split: if_split_asm)

lemma compiled_reconciled:
  assumes counts: "pr_counts r = count_all (map snd (pr_entries r))"
  shows "status_compiled l r = compiled_verdict l r"
proof (cases "binding_error l r")
  case None
  show ?thesis
    unfolding status_compiled_def compiled_verdict_def binding_reconciled [OF counts] None Let_def counts
      bound_length [OF None] shown_all none_presented by simp
next
  case (Some e)
  then show ?thesis by (simp add: status_compiled_def compiled_verdict_def binding_reconciled [OF counts])
qed

lemma passthrough_reconciled:
  assumes counts: "pr_counts r = count_all (map snd (pr_entries r))"
  shows "status_passthrough l \<lparr>ps_assessment = a, ps_presentation_receipt = r\<rparr> =
    passthrough_verdict l \<lparr>ps_assessment = a, ps_presentation_receipt = r\<rparr>"
proof (cases "binding_error l r")
  case None
  have "\<forall>entry \<in> set (pr_entries r). snd entry = ShownVerbatim \<Longrightarrow>
      pattern_represented (count_all (map snd (pr_entries r))) = 0 \<and> retained_raw (count_all (map snd (pr_entries r))) = 0"
    by (rule only_shown) simp
  then show ?thesis
    unfolding status_passthrough_def passthrough_verdict_def PassthroughSelection.select_convs
      binding_reconciled [OF counts] None Let_def counts bound_length [OF None] shown_all by (auto simp: list_ex_iff)
next
  case (Some e)
  then show ?thesis by (simp add: status_passthrough_def passthrough_verdict_def binding_reconciled [OF counts])
qed

lemma reconciled_const:
  assumes "ledger_ok l"
  shows "PresentationReceipt_reconcile sha256 l (map (\<lambda>e. (ev_id e, d)) (el_events l)) =
    Inr (receipt_of sha256 l (map (\<lambda>e. (ev_id e, d)) (el_events l)))"
    and "pr_entries (receipt_of sha256 l (map (\<lambda>e. (ev_id e, d)) (el_events l))) = map (\<lambda>e. (ev_id e, d)) (el_events l)"
  using presentation_reconcile_Inr [OF assms] one_each_const [OF assms] by (auto simp: receipt_of_def dispositions_const)

text \<open>
  C35.  The result status is honest.  For a sealed ledger and a receipt reconciled against any sealed
  ledger: the receipt is refused, as compiled and as passthrough alike, unless it is about the same
  retrieval and names the ledger's events in order, with the first mismatch as the error; a bound
  receipt is accepted as passthrough exactly when it shows every event verbatim, and as compiled
  exactly when some event is not shown verbatim and some event is shown or represented.  The
  passthrough decision selects exactly the assessments that fit, with a receipt that shows every
  event of the ledger verbatim.  The needs-more state can always be constructed and retains every
  event of the ledger raw.  The acquisition state is the one of the ledger throughout.
\<close>

theorem result_status_is_honest:
  assumes "reachable sha256 policy b" and "seal sha256 b completion = Inr l"
    and "reachable sha256 policy' b'" and "seal sha256 b' completion' = Inr l'"
    and "PresentationReceipt_reconcile sha256 l' as = Inr r"
  shows "status_compiled l r = compiled_verdict l r
    \<and> status_passthrough l \<lparr>ps_assessment = a, ps_presentation_receipt = r\<rparr> =
        passthrough_verdict l \<lparr>ps_assessment = a, ps_presentation_receipt = r\<rparr>
    \<and> (\<exists>shown. map fst (pr_entries shown) = map ev_id (el_events l) \<and> snd ` set (pr_entries shown) \<subseteq> {ShownVerbatim}
        \<and> pr_retrieval_id shown = el_retrieval_id l
        \<and> select_whole_render_passthrough sha256 l a =
            Inr (if total_rendered_tokens a \<le> total_token_limit a
                 then PassthroughSelected \<lparr>ps_assessment = a, ps_presentation_receipt = shown\<rparr> else CompilationRequired a)
        \<and> status_passthrough l \<lparr>ps_assessment = a, ps_presentation_receipt = shown\<rparr> =
            Inr \<lparr>status_acquisition = completion_completeness (el_completion l),
                 status_selection = StatePassthrough \<lparr>ps_assessment = a, ps_presentation_receipt = shown\<rparr>\<rparr>
        \<and> status_compiled l shown = Inl CompiledMasqueradesAsPassthrough)
    \<and> (\<exists>raw. map fst (pr_entries raw) = map ev_id (el_events l) \<and> snd ` set (pr_entries raw) \<subseteq> {RetainedRaw}
        \<and> pr_retrieval_id raw = el_retrieval_id l
        \<and> status_needs_more sha256 l reason =
            Inr \<lparr>status_acquisition = completion_completeness (el_completion l), status_selection = StateNeedsMore reason raw\<rparr>)"
proof -
  note ok = sealed_ok [OF assms(1,2)]
  have "r = receipt_of sha256 l' as" using presentation_reconcile_Inr [OF sealed_ok [OF assms(3,4)]] assms(5) by blast
  then have counts: "pr_counts r = count_all (map snd (pr_entries r))" by (simp add: receipt_of_def)
  have const_counts: "pr_counts (receipt_of sha256 l (map (\<lambda>e. (ev_id e, d)) (el_events l))) =
      count_all (map snd (pr_entries (receipt_of sha256 l (map (\<lambda>e. (ev_id e, d)) (el_events l)))))" for d
    by (simp add: receipt_of_def)
  have retrieval: "pr_retrieval_id (receipt_of sha256 l (map (\<lambda>e. (ev_id e, d)) (el_events l))) = el_retrieval_id l" for d
    by (simp add: receipt_of_def)
  let ?shown = "receipt_of sha256 l (map (\<lambda>e. (ev_id e, ShownVerbatim)) (el_events l))"
  let ?raw = "receipt_of sha256 l (map (\<lambda>e. (ev_id e, RetainedRaw)) (el_events l))"
  have bound: "binding_error l ?shown = None" using reconciled_const(2) [OF ok] retrieval by (simp add: binding_error_def comp_def)
  note facts = reconciled_const [OF ok] retrieval comp_def image_subset_iff bound
    compiled_reconciled [OF const_counts] passthrough_reconciled [OF const_counts] compiled_verdict_def passthrough_verdict_def
    select_whole_render_passthrough_def assessment_fits_def status_needs_more_def receipt_of_bound
  show ?thesis
  proof (intro conjI)
    show "status_compiled l r = compiled_verdict l r" by (rule compiled_reconciled [OF counts])
    show "status_passthrough l \<lparr>ps_assessment = a, ps_presentation_receipt = r\<rparr> =
        passthrough_verdict l \<lparr>ps_assessment = a, ps_presentation_receipt = r\<rparr>" by (rule passthrough_reconciled [OF counts])
  qed (rule exI [of _ ?shown], simp add: facts, rule exI [of _ ?raw], simp add: facts)
qed

text \<open>The receipt of a ledger without events does not name the event of the sample ledger.\<close>

theorem result_status_is_honest_witness:
  "\<exists>b l e. seal sample_sha256 b (sample_completion b) = Inr l \<and> el_events l = [e]
     \<and> (\<exists>none l' shown. seal sample_sha256 sample_new (sample_completion sample_new) = Inr l'
          \<and> PresentationReceipt_reconcile sample_sha256 l' [] = Inr none
          \<and> status_compiled l none \<in> {Inl PresentationRetrievalMismatch, Inl PresentationEventCountMismatch}
          \<and> PresentationReceipt_reconcile sample_sha256 l [(ev_id e, PatternRepresented ''p'')] = Inr shown
          \<and> status_passthrough l \<lparr>ps_assessment = \<lparr>total_rendered_tokens = 10, total_token_limit = 20\<rparr>, ps_presentation_receipt = shown\<rparr> =
              Inl InvalidPassthroughAccounting)"
proof -
  let ?p = "\<lambda>_. AuthorizeSourceExact" and ?a = "\<lparr>total_rendered_tokens = 10, total_token_limit = 20\<rparr>"
  obtain b l e where s: "reachable sample_sha256 ?p b" "seal sample_sha256 b (sample_completion b) = Inr l"
    "el_events l = [e]" by (rule sample_sealed)
  have new: "reachable sample_sha256 ?p sample_new" unfolding sample_new_def by (rule reachable_new)
  obtain l' where l': "seal sample_sha256 sample_new (sample_completion sample_new) = Inr l'"
    using sample_seals [OF reachable_builder_ok [OF new]] by blast
  have empty: "el_events l' = []" using sealed_events(2) [OF new l'] by (simp add: sample_new_def LedgerBuilder_new_def)
  note spec = presentation_reconcile_Inr [OF sealed_ok [OF s(1,2)]] presentation_reconcile_Inr [OF sealed_ok [OF new l']]
  obtain none where none: "PresentationReceipt_reconcile sample_sha256 l' [] = Inr none" "none = receipt_of sample_sha256 l' []"
    using spec(2) empty by (auto simp: one_each_def)
  obtain shown where shown: "PresentationReceipt_reconcile sample_sha256 l [(ev_id e, PatternRepresented ''p'')] = Inr shown"
      "shown = receipt_of sample_sha256 l [(ev_id e, PatternRepresented ''p'')]"
    using spec(1) s(3) by (auto simp: one_each_def)
  have "status_compiled l none \<in> {Inl PresentationRetrievalMismatch, Inl PresentationEventCountMismatch}"
    using result_status_is_honest [OF s(1,2) new l' none(1)] s(3) empty
    by (simp add: compiled_verdict_def binding_error_def none(2) receipt_of_def dispositions_of_def)
  moreover have "status_passthrough l \<lparr>ps_assessment = ?a, ps_presentation_receipt = shown\<rparr> = Inl InvalidPassthroughAccounting"
    using result_status_is_honest [OF s(1,2) s(1,2) shown(1)] s(3)
    by (simp add: passthrough_verdict_def binding_error_def shown(2) receipt_of_def dispositions_of_def)
  ultimately show ?thesis using s l' none(1) shown(1) by blast
qed

section \<open>References and expansion\<close>

text \<open>
  C36.  A reference can be issued exactly for one to 4096 distinct targets, distinct relations that
  include \<open>Exact\<close> and a non-empty lifetime; its declared identity then verifies for the same material
  whatever the order of the relations, and it authorizes exactly the granted relations on its own
  result within its half-open lifetime.
\<close>

theorem reference_issue_verifies_and_authorizes:
  assumes "EvidenceReferenceV1_issue sha256 result targets relations issued expires = Inr r"
    and "distinct relations'" and "set relations' = set relations"
  shows "material_ok targets relations issued expires
    \<and> verify_declared sha256 (er_id r) result targets relations' issued expires = Inr r
    \<and> (\<forall>declared. declared \<noteq> er_id r \<longrightarrow> verify_declared sha256 declared result targets relations' issued expires = Inl DeclaredIdMismatch)
    \<and> (\<forall>other relation now. reference_authorize r other relation now = Inr () \<longleftrightarrow>
         other = result \<and> relation \<in> set relations \<and> issued \<le> now \<and> now < expires)"
proof -
  have m: "material_ok targets relations issued expires" and r: "r = reference_of sha256 result targets relations issued expires"
    using assms(1) by (simp_all add: issue_Inr)
  have "material_ok targets relations' issued expires" using m assms(2,3) by (simp add: material_ok_def)
  moreover have "reference_of sha256 result targets relations' issued expires = r"
    using relation_set_cong [OF assms(3)] by (simp add: r reference_of_def)
  ultimately have issue: "EvidenceReferenceV1_issue sha256 result targets relations' issued expires = Inr r"
    by (simp add: issue_Inr)
  have "sorted_wrt (<) (er_allowed_relations r)" by (simp add: r reference_of_def relation_set_sorted)
  then have "reference_authorize r other relation now = Inr () \<longleftrightarrow>
      other = result \<and> relation \<in> set relations \<and> issued \<le> now \<and> now < expires" for other relation now
    by (auto simp: authorize_Inr r reference_of_def)
  then show ?thesis using m issue by (auto simp: verify_declared_def)
qed

theorem reference_issue_verifies_and_authorizes_witness:
  "\<exists>r. EvidenceReferenceV1_issue sample_sha256 ''result'' [TargetEvent ''e''] [Exact, GlobalBeforeAfter] 5 9 = Inr r
     \<and> verify_declared sample_sha256 (er_id r) ''result'' [TargetEvent ''e''] [GlobalBeforeAfter, Exact] 5 9 = Inr r
     \<and> reference_authorize r ''result'' Exact 8 = Inr () \<and> reference_authorize r ''result'' Exact 9 \<noteq> Inr ()"
proof -
  obtain r where r: "EvidenceReferenceV1_issue sample_sha256 ''result'' [TargetEvent ''e''] [Exact, GlobalBeforeAfter] 5 9 = Inr r"
    by (simp add: issue_Inr material_ok_def MAX_EVIDENCE_REFERENCE_TARGETS_def)
  have "verify_declared sample_sha256 (er_id r) ''result'' [TargetEvent ''e''] [GlobalBeforeAfter, Exact] 5 9 = Inr r
     \<and> reference_authorize r ''result'' Exact 8 = Inr () \<and> reference_authorize r ''result'' Exact 9 \<noteq> Inr ()"
    using reference_issue_verifies_and_authorizes [OF r, of "[GlobalBeforeAfter, Exact]"] by (simp add: insert_commute)
  then show ?thesis using r by blast
qed

text \<open>
  C37.  A response to an authorized expansion of a sealed ledger stays within its limit and contains
  only events of the ledger: it is the longest prefix of the candidates within the limit, it is
  marked truncated exactly when a candidate is left out, and an exact expansion of several targets
  is never cut.
\<close>

lemma expand_retained_spec:
  assumes ok: "ledger_ok l" and d: "distinct (er_targets r)" and u64: "max_bytes (rq_limit rq) \<le> u64_max"
    and run: "expand_retained_result_v1 l r rq now = Inr rp"
  shows "within (rq_limit rq) (rp_events rp) \<and> rp_returned_bytes rp = expanded_bytes (rp_events rp)
    \<and> (\<exists>es k. expansion_candidates l r rq = Inr es \<and> set es \<subseteq> set (el_events l) \<and> distinct (map ev_id es) \<and> k \<le> length es
         \<and> rp_events rp = map from_event (take k es) \<and> (rp_truncated rp \<longleftrightarrow> k < length es)
         \<and> (k < length es \<longrightarrow> \<not> within (rq_limit rq) (map from_event (take (Suc k) es)))
         \<and> (rq_relation rq = Exact \<and> 1 < length es \<longrightarrow> k = length es))"
proof -
  from run obtain es where es: "expansion_candidates l r rq = Inr es"
    by (auto simp: expand_retained_result_v1_def rbind_Inr split: if_splits)
  obtain out bytes truncated where c: "collect_events (rq_limit rq) {} [] 0 es = (out, bytes, truncated)"
    by (cases "collect_events (rq_limit rq) {} [] 0 es") auto
  have rp: "rp_events rp = out" "rp_returned_bytes rp = bytes" "rp_truncated rp = truncated"
    and budget: "rq_relation rq = Exact \<and> 1 < length es \<longrightarrow> length es \<le> max_events (rq_limit rq)
      \<and> (\<exists>b. required_bytes 0 es = Some b \<and> b \<le> max_bytes (rq_limit rq))"
    using run es c by (auto simp: expand_retained_result_v1_def rbind_Inr split: if_splits option.splits)
  have le: "ledger_events l es" by (rule candidates_events [OF ok d es])
  obtain k where k: "k \<le> length es" "out = map from_event (take k es)" "bytes = expanded_bytes out" "within (rq_limit rq) out"
    "truncated \<longleftrightarrow> k < length es" "k < length es \<longrightarrow> \<not> within (rq_limit rq) (map from_event (take (Suc k) es))"
    using collect_prefix [of "rq_limit rq" "{}" "[]" es out bytes truncated] c le u64
    by (auto simp: ledger_events_def within_def [of _ "[]"])
  have "k = length es" if "rq_relation rq = Exact" "1 < length es"
  proof (rule ccontr)
    assume "k \<noteq> length es"
    then have "\<not> within (rq_limit rq) (map from_event (take (Suc k) es))" using k by simp
    moreover have "within (rq_limit rq) (map from_event es)" using budget that exact_all_or_nothing by blast
    ultimately show False using within_prefix by blast
  qed
  then have "\<exists>es k. expansion_candidates l r rq = Inr es \<and> set es \<subseteq> set (el_events l) \<and> distinct (map ev_id es) \<and> k \<le> length es
         \<and> rp_events rp = map from_event (take k es) \<and> (rp_truncated rp \<longleftrightarrow> k < length es)
         \<and> (k < length es \<longrightarrow> \<not> within (rq_limit rq) (map from_event (take (Suc k) es)))
         \<and> (rq_relation rq = Exact \<and> 1 < length es \<longrightarrow> k = length es)"
    using es k(1,2,5,6) le rp by (intro exI [of _ es] exI [of _ k]) (simp add: ledger_events_def)
  then show ?thesis using k(3,4) rp by simp
qed

lemma limit_new:
  "ExpansionLimitV1_new events bytes before after = Inr limit \<Longrightarrow>
     0 < max_events limit \<and> max_events limit \<le> MAX_EXPANSION_EVENTS \<and> 0 < max_bytes limit
     \<and> max_bytes limit \<le> MAX_EXPANSION_BYTES \<and> max_bytes limit \<le> u64_max"
  by (auto simp: ExpansionLimitV1_new_def MAX_EXPANSION_BYTES_def split: if_splits)

theorem expansion_response_bounded:
  assumes "reachable sha256 policy b" and "seal sha256 b completion = Inr l"
    and "EvidenceReferenceV1_issue sha256 result targets relations issued expires = Inr r"
    and "ExpansionLimitV1_new events bytes before after = Inr (rq_limit rq)"
    and "expand_retained_result_v1 l r rq now = Inr rp"
  shows "length (rp_events rp) \<le> max_events (rq_limit rq) \<and> max_events (rq_limit rq) \<le> MAX_EXPANSION_EVENTS
    \<and> rp_returned_bytes rp = sum_list (map (\<lambda>x. length (xe_exact_bytes x)) (rp_events rp))
    \<and> rp_returned_bytes rp \<le> max_bytes (rq_limit rq) \<and> max_bytes (rq_limit rq) \<le> MAX_EXPANSION_BYTES
    \<and> (\<exists>es k. expansion_candidates l r rq = Inr es \<and> set es \<subseteq> set (el_events l) \<and> k \<le> length es
         \<and> rp_events rp = map from_event (take k es) \<and> (rp_truncated rp \<longleftrightarrow> k < length es)
         \<and> (k < length es \<longrightarrow> \<not> within (rq_limit rq) (map from_event (take (Suc k) es)))
         \<and> (rq_relation rq = Exact \<and> 1 < length es \<longrightarrow> \<not> rp_truncated rp))"
proof -
  note limit = limit_new [OF assms(4)]
  have "distinct (er_targets r)" using assms(3) by (auto simp: issue_Inr material_ok_def reference_of_def)
  note spec = expand_retained_spec [OF sealed_ok [OF assms(1,2)] this _ assms(5)]
  obtain es k where "expansion_candidates l r rq = Inr es" "set es \<subseteq> set (el_events l)" "k \<le> length es"
      "rp_events rp = map from_event (take k es)" "rp_truncated rp \<longleftrightarrow> k < length es"
      "k < length es \<longrightarrow> \<not> within (rq_limit rq) (map from_event (take (Suc k) es))"
      "rq_relation rq = Exact \<and> 1 < length es \<longrightarrow> k = length es"
    using spec limit by blast
  then have "\<exists>es k. expansion_candidates l r rq = Inr es \<and> set es \<subseteq> set (el_events l) \<and> k \<le> length es
         \<and> rp_events rp = map from_event (take k es) \<and> (rp_truncated rp \<longleftrightarrow> k < length es)
         \<and> (k < length es \<longrightarrow> \<not> within (rq_limit rq) (map from_event (take (Suc k) es)))
         \<and> (rq_relation rq = Exact \<and> 1 < length es \<longrightarrow> \<not> rp_truncated rp)"
    by (intro exI [of _ es] exI [of _ k]) simp
  then show ?thesis using spec limit by (simp add: within_def [of _ "rp_events rp"] expanded_bytes_def)
qed

text \<open>Exact expansion of a single event.\<close>

lemma expand_single_exact:
  assumes ok: "ledger_ok l" and e: "e \<in> set (el_events l)" and r: "er_targets r = [TargetEvent (ev_id e)]"
    and auth: "reference_authorize r (rq_result_id rq) Exact now = Inr ()" and rq: "rq_relation rq = Exact"
    "rq_reference_id rq = er_id r" "rq_result_id rq = er_result_id r"
    and fits: "0 < max_events (rq_limit rq)" "length (ev_raw e) \<le> max_bytes (rq_limit rq)" "max_bytes (rq_limit rq) \<le> u64_max"
  shows "expand_retained_result_v1 l r rq now = Inr \<lparr>rp_result_id = er_result_id r, rp_reference_id = er_id r, rp_relation = Exact,
    rp_events = [from_event e], rp_returned_bytes = length (ev_raw e), rp_truncated = False\<rparr>"
proof -
  have "exact_target l (TargetEvent (ev_id e)) = Inr e" using e exact_target_Inr [OF ok] by blast
  then have "expansion_candidates l r rq = Inr [e]" by (simp add: expansion_candidates_def rq r)
  moreover have "collect_events (rq_limit rq) {} [] 0 [e] = ([from_event e], length (ev_raw e), False)"
    using fits by (simp add: checked_add_u64_fits)
  ultimately show ?thesis using auth rq by (simp add: expand_retained_result_v1_def)
qed

lemma event_reference_fields:
  "er_id (event_reference sha256 result created expires e) =
     evidence_reference_id sha256 result [TargetEvent (ev_id e)] (relation_set [Exact, SameLaneBeforeAfter, GlobalBeforeAfter]) created expires"
  "er_result_id (event_reference sha256 result created expires e) = result"
  "er_targets (event_reference sha256 result created expires e) = [TargetEvent (ev_id e)]"
  by (simp_all add: event_reference_def reference_of_def)

lemma event_reference_authorizes:
  assumes "created \<le> now" and "now < expires"
  shows "reference_authorize (event_reference sha256 result created expires e) result Exact now = Inr ()"
  using assms by (subst authorize_Inr) (simp_all add: event_reference_def reference_of_def relation_set_sorted)

theorem expansion_response_bounded_witness:
  "\<exists>b l e r rp. seal sample_sha256 b (sample_completion b) = Inr l \<and> el_events l = [e]
     \<and> expand_retained_result_v1 l r \<lparr>rq_result_id = ''result'', rq_reference_id = er_id r, rq_relation = Exact,
          rq_limit = \<lparr>max_events = 1, max_bytes = 100, limit_before = 0, limit_after = 0\<rparr>\<rparr> 5 = Inr rp
     \<and> length (rp_events rp) \<le> 1 \<and> rp_returned_bytes rp \<le> 100"
proof -
  obtain b l e where s: "reachable sample_sha256 (\<lambda>_. AuthorizeSourceExact) b" "seal sample_sha256 b (sample_completion b) = Inr l"
    "el_events l = [e]" "ev_raw e = ''ok'' @ [CHR 0x0A]" by (rule sample_sealed)
  let ?r = "event_reference sample_sha256 ''result'' 5 9 e"
  let ?rq = "\<lparr>rq_result_id = ''result'', rq_reference_id = er_id ?r, rq_relation = Exact,
      rq_limit = \<lparr>max_events = 1, max_bytes = 100, limit_before = 0, limit_after = 0\<rparr>\<rparr>"
  have issue: "EvidenceReferenceV1_issue sample_sha256 ''result'' [TargetEvent (ev_id e)] [Exact, SameLaneBeforeAfter, GlobalBeforeAfter] 5 9 = Inr ?r"
    by (simp add: issue_Inr event_material event_reference_def)
  have limit: "ExpansionLimitV1_new 1 100 0 0 = Inr (rq_limit ?rq)"
    by (simp add: ExpansionLimitV1_new_def MAX_EXPANSION_EVENTS_def MAX_EXPANSION_BYTES_def)
  obtain rp where "expand_retained_result_v1 l ?r ?rq 5 = Inr rp"
    using expand_single_exact [OF sealed_ok [OF s(1,2)], of e ?r ?rq 5] event_reference_authorizes [of 5 5 9] s
    by (simp add: event_reference_fields(2,3))
  then show ?thesis using s(2,3) expansion_response_bounded [OF s(1,2) issue limit] by fastforce
qed

section \<open>The result store\<close>

lemma retained_expand:
  assumes ok: "store_ok sha256 s" and l: "ledger_ok l"
    and run: "insert_with_event_references sha256 result l created s = (Inr reg, s1)"
    and calls: "\<forall>c \<in> set calls. spares result (reg_expires_at reg) c"
    and k: "k < length (el_events l)" and now: "created \<le> now" "now < reg_expires_at reg"
    and limit: "0 < max_events limit" "length (ev_raw (el_events l ! k)) \<le> max_bytes limit" "max_bytes limit \<le> u64_max"
  shows "store_expand \<lparr>rq_result_id = result, rq_reference_id = er_id (reg_references reg ! k), rq_relation = Exact, rq_limit = limit\<rparr>
      now (fold (apply_call sha256) calls s1) =
    Inr \<lparr>rp_result_id = result, rp_reference_id = er_id (reg_references reg ! k), rp_relation = Exact,
      rp_events = [from_event (el_events l ! k)], rp_returned_bytes = length (ev_raw (el_events l ! k)), rp_truncated = False\<rparr>"
proof -
  note ins = insert_events_retains [OF ok run]
  let ?e = "el_events l ! k" and ?s = "fold (apply_call sha256) calls s1"
  let ?ref = "event_reference sha256 result created (reg_expires_at reg) ?e"
  have ref: "reg_references reg ! k = ?ref" using ins(1) k by simp
  have "?ref \<in> set (reg_references reg)" using ref k ins(1) by (metis length_map nth_mem)
  then obtain r where r: "map_of ?s result = Some r" "mr_ledger r = l" "mr_created_at r = created" "mr_expires_at r = reg_expires_at reg"
      "map_of (mr_references r) (er_id ?ref) = Some ?ref"
    using retains_calls [OF ins(3) calls, of sha256] unfolding retains_def by blast
  have live: "live_result ?s result now = Inr r" using r now by (simp add: live_result_Inr)
  let ?rq = "\<lparr>rq_result_id = result, rq_reference_id = er_id ?ref, rq_relation = Exact, rq_limit = limit\<rparr>"
  have "expand_retained_result_v1 l ?ref ?rq now = Inr \<lparr>rp_result_id = er_result_id ?ref, rp_reference_id = er_id ?ref,
      rp_relation = Exact, rp_events = [from_event ?e], rp_returned_bytes = length (ev_raw ?e), rp_truncated = False\<rparr>"
    using k now limit event_reference_authorizes [OF now] by (intro expand_single_exact [OF l]) (simp_all add: event_reference_fields(2,3))
  then show ?thesis using live r by (simp add: store_expand_def ref event_reference_fields(2))
qed

text \<open>
  C38.  In every reachable store each result expires exactly 30 minutes after its creation, every
  registered reference is stored under its own identity, commits to its own content, belongs to its
  result, is issued within the result's lifetime and expires with it, and no alias manifest, pending
  or published, names an unregistered reference.
\<close>

theorem store_invariant:
  assumes "stored sha256 s"
  shows "store_ok sha256 s"
  by (rule stored_store_ok [OF assms])

lemma sample_inserted:
  assumes "el_events l = [e]"
  shows "\<exists>reg s. insert_with_event_references sample_sha256 ''result'' l 5 [] = (Inr reg, s)"
proof -
  let ?ref = "event_reference sample_sha256 ''result'' 5 (5 + DEFAULT_RESULT_TTL_NANOS) e"
  have "event_reference_step sample_sha256 ''result'' 5 (5 + DEFAULT_RESULT_TTL_NANOS) ([], reference_index []) e =
      Inr ([?ref], reference_index ([] @ [?ref]))"
    by (subst event_reference_step_Inr) (simp add: DEFAULT_RESULT_TTL_NANOS_def)
  moreover have "fixed_expiry 5 = Inr (5 + DEFAULT_RESULT_TTL_NANOS)" by (simp add: fixed_expiry_def DEFAULT_RESULT_TTL_NANOS_def)
  ultimately show ?thesis by (simp add: insert_with_event_references_def assms reference_index_def)
qed

lemma sample_stored:
  obtains l e reg s where "ledger_ok l" and "el_events l = [e]" and "ev_raw e = ''ok'' @ [CHR 0x0A]"
    and "insert_with_event_references sample_sha256 ''result'' l 5 [] = (Inr reg, s)" and "stored sample_sha256 s"
proof -
  obtain b l e where s: "reachable sample_sha256 (\<lambda>_. AuthorizeSourceExact) b" "seal sample_sha256 b (sample_completion b) = Inr l"
    "el_events l = [e]" "ev_raw e = ''ok'' @ [CHR 0x0A]" by (rule sample_sealed)
  note ok = sealed_ok [OF s(1,2)]
  obtain reg t where run: "insert_with_event_references sample_sha256 ''result'' l 5 [] = (Inr reg, t)"
    using sample_inserted [OF s(3)] by blast
  have "stored sample_sha256 t" using stored_insert_events [OF stored_new ok, of sample_sha256 "''result''" 5] run by simp
  then show thesis using that ok s run by blast
qed

theorem store_invariant_witness:
  "\<exists>l reg s. insert_with_event_references sample_sha256 ''result'' l 5 [] = (Inr reg, s) \<and> length (el_events l) = 1
     \<and> store_ok sample_sha256 s"
proof -
  obtain l e reg s where x: "ledger_ok l" "el_events l = [e]" "ev_raw e = ''ok'' @ [CHR 0x0A]"
    "insert_with_event_references sample_sha256 ''result'' l 5 [] = (Inr reg, s)" "stored sample_sha256 s"
    by (rule sample_stored)
  then show ?thesis using store_invariant [OF x(5)] by (intro exI [of _ l] exI [of _ reg] exI [of _ s]) simp
qed

text \<open>
  C39.  A reachable store answers an expansion only for a stored result within its fixed lifetime and
  through a reference that is registered for it, issued no later than now and grants the relation;
  the answer contains only events of that result's ledger, with their exact bytes, within the limit.
\<close>

theorem store_answers_only_live_results:
  assumes "stored sha256 s" and "store_expand rq now s = Inr rp"
    and "ExpansionLimitV1_new events bytes before after = Inr (rq_limit rq)"
  shows "\<exists>r ref. map_of s (rq_result_id rq) = Some r \<and> mr_created_at r \<le> now
    \<and> now < mr_created_at r + DEFAULT_RESULT_TTL_NANOS
    \<and> map_of (mr_references r) (rq_reference_id rq) = Some ref \<and> er_issued_at ref \<le> now
    \<and> rq_relation rq \<in> set (er_allowed_relations ref)
    \<and> (\<forall>x \<in> set (rp_events rp). \<exists>e \<in> set (el_events (mr_ledger r)). x = from_event e)
    \<and> length (rp_events rp) \<le> max_events (rq_limit rq) \<and> rp_returned_bytes rp \<le> max_bytes (rq_limit rq)"
proof -
  from assms(2) obtain r ref where live: "live_result s (rq_result_id rq) now = Inr r"
    and ref: "map_of (mr_references r) (rq_reference_id rq) = Some ref"
    and run: "expand_retained_result_v1 (mr_ledger r) ref rq now = Inr rp"
    by (auto simp: store_expand_def rbind_Inr ok_or_Inr)
  have r: "map_of s (rq_result_id rq) = Some r" "mr_created_at r \<le> now" "now < mr_expires_at r"
    using live by (simp_all add: live_result_Inr)
  have ok: "result_ok sha256 (rq_result_id rq) r" by (rule store_ok_result [OF stored_store_ok [OF assms(1)] r(1)])
  then have rok: "reference_ok sha256 (rq_result_id rq) (mr_created_at r) (mr_expires_at r) ref"
    using ref unfolding result_ok_def by blast
  note fields = reference_ok_id [OF rok]
  have "reference_authorize ref (rq_result_id rq) (rq_relation rq) now = Inr ()"
    using run by (auto simp: expand_retained_result_v1_def rbind_Inr map_err_Inr split: if_splits)
  then have "er_issued_at ref \<le> now" "rq_relation rq \<in> set (er_allowed_relations ref)"
    using fields by (simp_all add: authorize_Inr)
  moreover have "mr_expires_at r = mr_created_at r + DEFAULT_RESULT_TTL_NANOS" and "ledger_ok (mr_ledger r)"
    using ok by (simp_all add: result_ok_def)
  moreover note spec = expand_retained_spec [OF this(2) _ _ run]
  moreover have limit: "0 < max_events (rq_limit rq)" "max_bytes (rq_limit rq) \<le> u64_max"
    using limit_new [OF assms(3)] by simp_all
  moreover obtain es k where es: "set es \<subseteq> set (el_events (mr_ledger r))" "rp_events rp = map from_event (take k es)"
    using spec fields limit by blast
  then have "\<forall>x \<in> set (rp_events rp). \<exists>e \<in> set (el_events (mr_ledger r)). x = from_event e"
    by (auto dest: in_set_takeD)
  moreover have "within (rq_limit rq) (rp_events rp)" "rp_returned_bytes rp = expanded_bytes (rp_events rp)"
    using spec fields limit by blast+
  ultimately show ?thesis
    using r ref by (intro exI [of _ r] exI [of _ ref]) (simp add: within_def)
qed

theorem store_answers_only_live_results_witness:
  "\<exists>l reg s rp. insert_with_event_references sample_sha256 ''result'' l 5 [] = (Inr reg, s)
     \<and> store_expand \<lparr>rq_result_id = ''result'', rq_reference_id = er_id (hd (reg_references reg)), rq_relation = Exact,
          rq_limit = \<lparr>max_events = 1, max_bytes = 100, limit_before = 0, limit_after = 0\<rparr>\<rparr> 6 s = Inr rp
     \<and> rp_returned_bytes rp \<le> 100"
proof -
  obtain l e reg s where x: "ledger_ok l" "el_events l = [e]" "ev_raw e = ''ok'' @ [CHR 0x0A]"
    "insert_with_event_references sample_sha256 ''result'' l 5 [] = (Inr reg, s)" "stored sample_sha256 s"
    by (rule sample_stored)
  let ?rq = "\<lparr>rq_result_id = ''result'', rq_reference_id = er_id (hd (reg_references reg)), rq_relation = Exact,
      rq_limit = \<lparr>max_events = 1, max_bytes = 100, limit_before = 0, limit_after = 0\<rparr>\<rparr>"
  note ins = insert_events_retains [OF stored_store_ok [OF stored_new] x(4)]
  have "reg_references reg \<noteq> []" using ins(1) x(2) by simp
  then obtain rp where rp: "store_expand ?rq 6 s = Inr rp"
    using retained_expand [OF stored_store_ok [OF stored_new] x(1,4), of "[]" 0 6 "rq_limit ?rq"] ins(2) x(2,3)
    by (simp add: hd_conv_nth DEFAULT_RESULT_TTL_NANOS_def)
  have limit: "ExpansionLimitV1_new 1 100 0 0 = Inr (rq_limit ?rq)"
    by (simp add: ExpansionLimitV1_new_def MAX_EXPANSION_EVENTS_def MAX_EXPANSION_BYTES_def)
  from store_answers_only_live_results [OF x(5) rp limit] show ?thesis using x(4) rp by fastforce
qed

text \<open>
  C40.  Retention round trip: once a sealed ledger is inserted with its event references, and whatever
  calls follow that neither delete the result nor clean up after its expiry, each event's reference
  returns exactly that event with its exact bytes at every moment of the fixed lifetime, for every
  limit the event fits in.
\<close>

theorem retained_event_round_trip:
  assumes "stored sha256 s" and "reachable sha256 policy b" and "seal sha256 b completion = Inr l"
    and "insert_with_event_references sha256 result l created s = (Inr reg, s1)"
    and "\<forall>c \<in> set calls. spares result (reg_expires_at reg) c" and "k < length (el_events l)"
    and "created \<le> now" and "now < created + DEFAULT_RESULT_TTL_NANOS"
    and "ExpansionLimitV1_new events bytes before after = Inr limit" and "length (ev_raw (el_events l ! k)) \<le> max_bytes limit"
  shows "\<exists>rp. store_expand \<lparr>rq_result_id = result, rq_reference_id = er_id (reg_references reg ! k), rq_relation = Exact, rq_limit = limit\<rparr>
      now (fold (apply_call sha256) calls s1) = Inr rp
    \<and> rp_events rp = [from_event (el_events l ! k)] \<and> xe_exact_bytes (hd (rp_events rp)) = ev_raw (el_events l ! k)
    \<and> \<not> rp_truncated rp"
  using retained_expand [OF stored_store_ok [OF assms(1)] sealed_ok [OF assms(2,3)] assms(4,5,6,7), of limit]
    limit_new [OF assms(9)] assms(8,10) insert_events_retains(2) [OF stored_store_ok [OF assms(1)] assms(4)]
  by (simp add: from_event_def)

theorem retained_event_round_trip_witness:
  "\<exists>l reg s rp. insert_with_event_references sample_sha256 ''result'' l 5 [] = (Inr reg, s)
     \<and> store_expand \<lparr>rq_result_id = ''result'', rq_reference_id = er_id (reg_references reg ! 0), rq_relation = Exact,
          rq_limit = \<lparr>max_events = 1, max_bytes = 100, limit_before = 0, limit_after = 0\<rparr>\<rparr> 6
          (fold (apply_call sample_sha256) [CallPublish ''result'' 5, CallDelete ''other'', CallCleanup 7] s) = Inr rp
     \<and> xe_exact_bytes (hd (rp_events rp)) = ''ok'' @ [CHR 0x0A]"
proof -
  obtain b l e where s: "reachable sample_sha256 (\<lambda>_. AuthorizeSourceExact) b" "seal sample_sha256 b (sample_completion b) = Inr l"
    "el_events l = [e]" "ev_raw e = ''ok'' @ [CHR 0x0A]" by (rule sample_sealed)
  obtain reg t where run: "insert_with_event_references sample_sha256 ''result'' l 5 [] = (Inr reg, t)"
    using sample_inserted [OF s(3)] by blast
  note ins = insert_events_retains [OF stored_store_ok [OF stored_new] run]
  have calls: "\<forall>c \<in> set [CallPublish ''result'' 5, CallDelete ''other'', CallCleanup 7]. spares ''result'' (reg_expires_at reg) c"
    using ins(2) by (simp add: DEFAULT_RESULT_TTL_NANOS_def)
  have limit: "ExpansionLimitV1_new 1 100 0 0 = Inr \<lparr>max_events = 1, max_bytes = 100, limit_before = 0, limit_after = 0\<rparr>"
    by (simp add: ExpansionLimitV1_new_def MAX_EXPANSION_EVENTS_def MAX_EXPANSION_BYTES_def)
  have "0 < length (el_events l)" "(5 :: int) \<le> 6" "(6 :: int) < 5 + DEFAULT_RESULT_TTL_NANOS"
    "length (ev_raw (el_events l ! 0)) \<le> max_bytes \<lparr>max_events = 1, max_bytes = 100, limit_before = 0, limit_after = 0\<rparr>"
    by (simp_all add: s(3,4) DEFAULT_RESULT_TTL_NANOS_def)
  from retained_event_round_trip [OF stored_new s(1,2) run calls this(1,2,3) limit this(4)]
  show ?thesis using run s(3,4) by auto
qed

end
