(* ===== verification/Query.thy ===== *)
theory Query
  imports Hash Classify
begin

text \<open>
  Question preprocessing of the lexical lane (\<open>evidentrail-candidates/src/query.rs\<close> and the bounds
  of \<open>bounds.rs\<close>): the bounded scan of a byte string into ASCII tokens with a visitor that may
  stop it, the closed identifier grammars, and the canonical query material.  The last section
  relates the scan to the list of all tokens.
\<close>

section \<open>Bounds and reasons\<close>

definition MAX_QUESTION_BYTES_V1 :: nat where "MAX_QUESTION_BYTES_V1 = 64 * 1024"
definition MAX_QUERY_TOKENS_V1 :: nat where "MAX_QUERY_TOKENS_V1 = 256"
definition MIN_QUERY_TERM_BYTES_V1 :: nat where "MIN_QUERY_TERM_BYTES_V1 = 2"
definition MAX_QUERY_TERM_BYTES_V1 :: nat where "MAX_QUERY_TERM_BYTES_V1 = 128"
definition MAX_QUERY_TERMS_V1 :: nat where "MAX_QUERY_TERMS_V1 = 128"
definition MAX_VALIDATED_QUERY_IDENTIFIERS_V1 :: nat where "MAX_VALIDATED_QUERY_IDENTIFIERS_V1 = 32"

datatype CandidateNeedsMoreReasonV1 =
    QuestionBytesCap | QueryTokenCountCap | QueryTokenBytesCap | QueryTermCountCap
  | ValidatedIdentifierCountCap | PrimaryBlockCountCap | PrimaryBytesScannedCap
  | IdentifierBlockFanoutCap | MandatoryBlockCountCap | EmittedSignalCountCap
  | CoverageAnalysisTokenCap | CoverageSignalObservationCap | CoverageSourceLaneCap
  | CoverageFacetOutputCap | CoverageAffinityOutputCap | CoverageSentinelOutputCap
  | ProviderIdentityBytesScannedCap | ProviderAttestationBytesScannedCap
  | ProviderAttestationCountCap | ProviderCorrelationKeyCap | ProviderGraphNodeCap
  | ProviderGraphEdgeCap | ProviderRelationFanoutCap | ProviderGraphDegreeCap
  | ProviderFacetOutputCap | ProviderAffinityOutputCap | ArithmeticCapacity

section \<open>Token bytes\<close>

text \<open>\<open>u8::is_ascii_alphanumeric\<close>, \<open>u8::is_ascii_hexdigit\<close> and \<open>u8::to_ascii_lowercase\<close>.\<close>

definition is_ascii_upper :: "char \<Rightarrow> bool" where
  "is_ascii_upper byte \<longleftrightarrow> CHR ''A'' \<le> byte \<and> byte \<le> CHR ''Z''"

definition is_ascii_alphanumeric :: "char \<Rightarrow> bool" where
  "is_ascii_alphanumeric byte \<longleftrightarrow>
     is_ascii_digit byte \<or> is_ascii_upper byte \<or> CHR ''a'' \<le> byte \<and> byte \<le> CHR ''z''"

definition is_ascii_hexdigit :: "char \<Rightarrow> bool" where
  "is_ascii_hexdigit byte \<longleftrightarrow>
     is_ascii_digit byte \<or> CHR ''A'' \<le> byte \<and> byte \<le> CHR ''F'' \<or> CHR ''a'' \<le> byte \<and> byte \<le> CHR ''f''"

definition to_ascii_lowercase :: "char \<Rightarrow> char" where
  "to_ascii_lowercase byte = (if is_ascii_upper byte then char_of (of_char byte + 32 :: nat) else byte)"

definition is_token_byte :: "char \<Rightarrow> bool" where
  "is_token_byte byte \<longleftrightarrow> is_ascii_alphanumeric byte \<or> byte = CHR ''_'' \<or> byte = CHR ''-'' \<or> byte = CHR ''.'' \<or> byte = CHR ''/''"

definition canonicalize_ascii :: "bytes \<Rightarrow> bytes" where
  "canonicalize_ascii token = map to_ascii_lowercase token"

definition is_trim_byte :: "char \<Rightarrow> bool" where
  "is_trim_byte byte \<longleftrightarrow> byte = CHR ''.'' \<or> byte = CHR ''-''"

text \<open>The two trimming loops, from the front and from the back.\<close>

definition trim_token_punctuation :: "bytes \<Rightarrow> bytes" where
  "trim_token_punctuation token = rev (dropWhile is_trim_byte (rev (dropWhile is_trim_byte token)))"

text \<open>\<open>slice::split\<close>: the pieces between the separators, empty ones included.\<close>

fun split_on :: "(char \<Rightarrow> bool) \<Rightarrow> bytes \<Rightarrow> bytes list" where
  "split_on P [] = [[]]"
| "split_on P (byte # bytes) =
     (if P byte then [] # split_on P bytes
      else case split_on P bytes of piece # pieces \<Rightarrow> (byte # piece) # pieces | [] \<Rightarrow> [[byte]])"

section \<open>Identifier grammars\<close>

definition is_canonical_uuid :: "bytes \<Rightarrow> bool" where
  "is_canonical_uuid token \<longleftrightarrow>
     length token = 36
     \<and> list_all (\<lambda>(position, byte). if position = 8 \<or> position = 13 \<or> position = 18 \<or> position = 23
          then byte = CHR ''-'' else is_ascii_hexdigit byte) (enumerate 0 token)
     \<and> CHR ''1'' \<le> token ! 14 \<and> token ! 14 \<le> CHR ''8''
     \<and> (token ! 19 = CHR ''8'' \<or> token ! 19 = CHR ''9'' \<or> token ! 19 = CHR ''a'' \<or> token ! 19 = CHR ''b'')"

definition is_rust_error_code :: "bytes \<Rightarrow> bool" where
  "is_rust_error_code token \<longleftrightarrow>
     length token = 5 \<and> token ! 0 = CHR ''e'' \<and> list_all is_ascii_digit (drop 1 token) \<and> drop 1 token \<noteq> ''0000''"

definition is_trace_hex :: "bytes \<Rightarrow> nat \<Rightarrow> bool" where
  "is_trace_hex token expected_len \<longleftrightarrow>
     length token = expected_len \<and> list_all is_ascii_hexdigit token \<and> list_ex (\<lambda>byte. byte \<noteq> CHR ''0'') token"

definition is_trace_label :: "bytes \<Rightarrow> bool" where
  "is_trace_label token \<longleftrightarrow> List.member [''trace'', ''trace_id'', ''trace-id'', ''trace.id'', ''traceid''] token"

definition is_span_label :: "bytes \<Rightarrow> bool" where
  "is_span_label token \<longleftrightarrow> List.member [''span'', ''span_id'', ''span-id'', ''span.id'', ''spanid''] token"

definition has_trace_label :: "bytes list \<Rightarrow> nat \<Rightarrow> bool" where
  "has_trace_label tokens value_position \<longleftrightarrow>
     (1 \<le> value_position \<and> is_trace_label (tokens ! (value_position - 1)))
     \<or> (2 \<le> value_position \<and> tokens ! (value_position - 2) = ''trace'' \<and> tokens ! (value_position - 2 + 1) = ''id'')"

definition has_span_label :: "bytes list \<Rightarrow> nat \<Rightarrow> bool" where
  "has_span_label tokens value_position \<longleftrightarrow>
     (1 \<le> value_position \<and> is_span_label (tokens ! (value_position - 1)))
     \<or> (2 \<le> value_position \<and> tokens ! (value_position - 2) = ''span'' \<and> tokens ! (value_position - 2 + 1) = ''id'')"

definition is_identifier_label :: "bytes \<Rightarrow> bool" where
  "is_identifier_label token \<longleftrightarrow> is_trace_label token \<or> is_span_label token"

definition is_stop_term :: "bytes \<Rightarrow> bool" where
  "is_stop_term token \<longleftrightarrow> List.member
     [''an'', ''and'', ''are'', ''did'', ''do'', ''does'', ''for'', ''from'', ''how'', ''in'', ''is'', ''it'', ''log'',
      ''logs'', ''of'', ''on'', ''the'', ''to'', ''was'', ''were'', ''what'', ''when'', ''where'', ''why'', ''with''] token"

datatype ValidatedIdentifierKindV1 = CanonicalUuid | TraceIdHex128 | SpanIdHex64 | RustCompilerErrorCode

fun identifier_kind_code :: "ValidatedIdentifierKindV1 \<Rightarrow> bytes" where
  "identifier_kind_code CanonicalUuid = ''canonical_uuid''"
| "identifier_kind_code TraceIdHex128 = ''trace_id_hex_128''"
| "identifier_kind_code SpanIdHex64 = ''span_id_hex_64''"
| "identifier_kind_code RustCompilerErrorCode = ''rust_compiler_error_code''"

text \<open>The declaration order, which \<open>derive(Ord)\<close> makes the order of the type.\<close>

fun identifier_kind_rank :: "ValidatedIdentifierKindV1 \<Rightarrow> nat" where
  "identifier_kind_rank CanonicalUuid = 0"
| "identifier_kind_rank TraceIdHex128 = 1"
| "identifier_kind_rank SpanIdHex64 = 2"
| "identifier_kind_rank RustCompilerErrorCode = 3"

lemma identifier_kind_rank_inj: "identifier_kind_rank a = identifier_kind_rank b \<Longrightarrow> a = b"
  by (cases a; cases b) simp_all

instantiation ValidatedIdentifierKindV1 :: linorder
begin

definition less_eq_ValidatedIdentifierKindV1 where
  "(a :: ValidatedIdentifierKindV1) \<le> b \<longleftrightarrow> identifier_kind_rank a \<le> identifier_kind_rank b"

definition less_ValidatedIdentifierKindV1 where
  "(a :: ValidatedIdentifierKindV1) < b \<longleftrightarrow> identifier_kind_rank a < identifier_kind_rank b"

instance
  by standard (auto simp: less_eq_ValidatedIdentifierKindV1_def less_ValidatedIdentifierKindV1_def
      intro: identifier_kind_rank_inj)

end

section \<open>The token visitor\<close>

text \<open>
  A visitor is a closure \<open>FnMut(&[u8]) -> bool\<close>: it updates its captured state and says whether to
  go on.  The functions return whether the scan goes on and the state.
\<close>

type_synonym 's visitor = "'s \<Rightarrow> bytes \<Rightarrow> bool \<times> 's"

fun component_loop :: "'s visitor \<Rightarrow> bytes \<Rightarrow> bytes \<Rightarrow> 's \<Rightarrow> bytes list \<Rightarrow> bool \<times> 's" where
  "component_loop visit token slash_component s [] = (True, s)"
| "component_loop visit token slash_component s (component # components) =
     (if component = [] \<or> component = slash_component \<or> component = token
      then component_loop visit token slash_component s components
      else case visit s component of
        (False, s) \<Rightarrow> (False, s)
      | (True, s) \<Rightarrow> component_loop visit token slash_component s components)"

fun slash_loop :: "'s visitor \<Rightarrow> bytes \<Rightarrow> 's \<Rightarrow> bytes list \<Rightarrow> bool \<times> 's" where
  "slash_loop visit token s [] = (True, s)"
| "slash_loop visit token s (piece # pieces) =
     (let slash_component = trim_token_punctuation piece in
      if slash_component = [] then slash_loop visit token s pieces
      else case (if slash_component \<noteq> token then visit s slash_component else (True, s)) of
        (False, s) \<Rightarrow> (False, s)
      | (True, s) \<Rightarrow>
          if is_canonical_uuid slash_component then slash_loop visit token s pieces
          else case component_loop visit token slash_component s (split_on is_trim_byte slash_component) of
            (False, s) \<Rightarrow> (False, s)
          | (True, s) \<Rightarrow> slash_loop visit token s pieces)"

definition visit_compound_tokens :: "'s visitor \<Rightarrow> 's \<Rightarrow> bytes \<Rightarrow> bool \<times> 's" where
  "visit_compound_tokens visit s token =
     (case visit s token of
        (False, s) \<Rightarrow> (False, s)
      | (True, s) \<Rightarrow> slash_loop visit token s (split_on (\<lambda>byte. byte = CHR ''/'') token))"

text \<open>
  The scan: \<open>start\<close> is the run of token bytes in progress, \<open>None\<close> outside a run.  The state is
  returned when the visitor stops the scan or the input ends.
\<close>

fun token_scan :: "'s visitor \<Rightarrow> 's \<Rightarrow> bytes option \<Rightarrow> bytes \<Rightarrow> 's" where
  "token_scan visit s start [] =
     (case start of
        None \<Rightarrow> s
      | Some run \<Rightarrow> let token = trim_token_punctuation run in
          if token \<noteq> [] then snd (visit_compound_tokens visit s token) else s)"
| "token_scan visit s start (byte # bytes) =
     (if is_token_byte byte
      then token_scan visit s (Some ((case start of None \<Rightarrow> [] | Some run \<Rightarrow> run) @ [byte])) bytes
      else case start of
        None \<Rightarrow> token_scan visit s None bytes
      | Some run \<Rightarrow> let token = trim_token_punctuation run in
          if token \<noteq> []
          then (case visit_compound_tokens visit s token of
                  (False, s) \<Rightarrow> s
                | (True, s) \<Rightarrow> token_scan visit s None bytes)
          else token_scan visit s None bytes)"

definition for_each_ascii_token :: "bytes \<Rightarrow> 's visitor \<Rightarrow> 's \<Rightarrow> 's" where
  "for_each_ascii_token bytes visit s = token_scan visit s None bytes"

section \<open>Preprocessing\<close>

type_synonym QueryTermV1 = bytes
type_synonym QuestionDigest = bytes

record ValidatedQueryIdentifierV1 =
  vi_kind :: ValidatedIdentifierKindV1
  vi_token :: bytes

record PreprocessedQueryV1 =
  pq_question_digest :: QuestionDigest
  pq_terms :: "QueryTermV1 list"
  pq_identifiers :: "ValidatedQueryIdentifierV1 list"

definition canonical_semantic_key :: "ValidatedQueryIdentifierV1 \<Rightarrow> bytes" where
  "canonical_semantic_key identifier = identifier_kind_code (vi_kind identifier) @ [CHR 0x00] @ vi_token identifier"

definition collect_token :: "bytes list visitor" where
  "collect_token tokens token =
     (if length tokens \<ge> MAX_QUERY_TOKENS_V1 then (False, tokens)
      else if length token > MAX_QUERY_TERM_BYTES_V1 then (False, tokens @ [[]])
      else (True, tokens @ [canonicalize_ascii token]))"

definition count_token :: "nat \<Rightarrow> nat visitor" where
  "count_token limit seen token =
     (case checked_add_u64 seen 1 of None \<Rightarrow> (False, seen) | Some next_count \<Rightarrow> (next_count < limit, next_count))"

definition count_ascii_tokens_up_to :: "bytes \<Rightarrow> nat \<Rightarrow> nat" where
  "count_ascii_tokens_up_to bytes limit = for_each_ascii_token bytes (count_token limit) 0"

definition identifier_kind_at :: "bytes list \<Rightarrow> nat \<Rightarrow> bytes \<Rightarrow> ValidatedIdentifierKindV1 option" where
  "identifier_kind_at tokens position token =
     (if is_canonical_uuid token then Some CanonicalUuid
      else if is_rust_error_code token then Some RustCompilerErrorCode
      else if has_trace_label tokens position \<and> is_trace_hex token 32 then Some TraceIdHex128
      else if has_span_label tokens position \<and> is_trace_hex token 16 then Some SpanIdHex64
      else None)"

definition identifier_material :: "bytes list \<Rightarrow> (ValidatedIdentifierKindV1 \<times> bytes) list" where
  "identifier_material tokens =
     btree_set (List.map_filter (\<lambda>(position, token). map_option (\<lambda>kind. (kind, token)) (identifier_kind_at tokens position token))
       (enumerate 0 tokens))"

definition query_terms :: "bytes list \<Rightarrow> bytes list \<Rightarrow> bytes list" where
  "query_terms identifier_tokens tokens =
     btree_set (filter (\<lambda>token. MIN_QUERY_TERM_BYTES_V1 \<le> length token \<and> \<not> List.member identifier_tokens token
       \<and> \<not> is_stop_term token \<and> \<not> is_identifier_label token) tokens)"

definition preprocess_query_v1 ::
  "(bytes \<Rightarrow> bytes) \<Rightarrow> bytes \<Rightarrow> (CandidateNeedsMoreReasonV1, PreprocessedQueryV1) result" where
  "preprocess_query_v1 sha256 question =
     (if length question > MAX_QUESTION_BYTES_V1 then Inl QuestionBytesCap
      else let tokens = for_each_ascii_token question collect_token [] in
      if tokens \<noteq> [] \<and> last tokens = [] then Inl QueryTokenBytesCap
      else if count_ascii_tokens_up_to question (MAX_QUERY_TOKENS_V1 + 1) > MAX_QUERY_TOKENS_V1 then Inl QueryTokenCountCap
      else let material = identifier_material tokens in
      if length material > MAX_VALIDATED_QUERY_IDENTIFIERS_V1 then Inl ValidatedIdentifierCountCap
      else let terms = query_terms (map snd material) tokens in
      if length terms > MAX_QUERY_TERMS_V1 then Inl QueryTermCountCap
      else Inr \<lparr>pq_question_digest = derive_question_digest_v1 sha256 question, pq_terms = terms,
             pq_identifiers = sort_key (\<lambda>identifier. (vi_token identifier, vi_kind identifier))
               (map (\<lambda>(kind, token). \<lparr>vi_kind = kind, vi_token = token\<rparr>) material)\<rparr>)"

section \<open>All tokens of a byte string\<close>

text \<open>
  The reference: the tokens in the order of the scan, without a visitor.  A compound is a maximal
  run of token bytes, trimmed; its tokens are the compound, its slash components and their parts.
\<close>

definition component_tokens :: "bytes \<Rightarrow> bytes \<Rightarrow> bytes list" where
  "component_tokens token slash_component =
     filter (\<lambda>component. \<not> (component = [] \<or> component = slash_component \<or> component = token))
       (split_on is_trim_byte slash_component)"

definition slash_tokens :: "bytes \<Rightarrow> bytes \<Rightarrow> bytes list" where
  "slash_tokens token piece =
     (let slash_component = trim_token_punctuation piece in
      if slash_component = [] then []
      else (if slash_component \<noteq> token then [slash_component] else [])
        @ (if is_canonical_uuid slash_component then [] else component_tokens token slash_component))"

definition compound_tokens :: "bytes \<Rightarrow> bytes list" where
  "compound_tokens token = token # concat (map (slash_tokens token) (split_on (\<lambda>byte. byte = CHR ''/'') token))"

definition compounds :: "bytes list \<Rightarrow> bytes list" where
  "compounds pieces = filter (\<lambda>token. token \<noteq> []) (map trim_token_punctuation pieces)"

definition ascii_tokens :: "bytes \<Rightarrow> bytes list" where
  "ascii_tokens bytes = concat (map compound_tokens (compounds (split_on (\<lambda>byte. \<not> is_token_byte byte) bytes)))"

fun visit_all :: "'s visitor \<Rightarrow> 's \<Rightarrow> bytes list \<Rightarrow> bool \<times> 's" where
  "visit_all visit s [] = (True, s)"
| "visit_all visit s (token # tokens) =
     (case visit s token of (False, s) \<Rightarrow> (False, s) | (True, s) \<Rightarrow> visit_all visit s tokens)"

lemma visit_all_append:
  "visit_all visit s (xs @ ys) = (case visit_all visit s xs of (False, s) \<Rightarrow> (False, s) | (True, s) \<Rightarrow> visit_all visit s ys)"
  by (induction xs arbitrary: s) (auto split: prod.splits bool.splits)

lemma component_loop_visits:
  "component_loop visit token slash_component s components =
     visit_all visit s (filter (\<lambda>component. \<not> (component = [] \<or> component = slash_component \<or> component = token)) components)"
  by (induction components arbitrary: s) (auto split: prod.splits bool.splits)

lemma slash_loop_visits: "slash_loop visit token s pieces = visit_all visit s (concat (map (slash_tokens token) pieces))"
proof (induction pieces arbitrary: s)
  case (Cons piece pieces)
  then show ?case
    by (cases "visit s (trim_token_punctuation piece)"; cases "fst (visit s (trim_token_punctuation piece))")
      (auto simp: slash_tokens_def component_tokens_def component_loop_visits visit_all_append Let_def split: prod.splits bool.splits)
qed simp

lemma visit_compound_visits: "visit_compound_tokens visit s token = visit_all visit s (compound_tokens token)"
  by (auto simp: visit_compound_tokens_def compound_tokens_def slash_loop_visits split: prod.splits bool.splits)

text \<open>Splitting after a run without separators.\<close>

lemma split_on_nonempty [simp]: "split_on P bytes \<noteq> []"
  by (induction bytes) (auto split: list.splits)

lemma split_on_Cons: "\<not> P byte \<Longrightarrow> split_on P (byte # bytes) = (byte # hd (split_on P bytes)) # tl (split_on P bytes)"
  by (cases "split_on P bytes") (use split_on_nonempty [of P bytes] in auto)

lemma split_on_run:
  "list_all (\<lambda>byte. \<not> P byte) run \<Longrightarrow> split_on P (run @ bytes) = (run @ hd (split_on P bytes)) # tl (split_on P bytes)"
  by (induction run) (simp_all add: split_on_Cons del: split_on.simps(2))

lemma compounds_Cons: "compounds (piece # pieces) =
  (if trim_token_punctuation piece = [] then compounds pieces else trim_token_punctuation piece # compounds pieces)"
  by (simp add: compounds_def)

lemma trim_Nil [simp]: "trim_token_punctuation [] = []"
  by (simp add: trim_token_punctuation_def)

lemma token_scan_visits:
  assumes "list_all is_token_byte (case start of None \<Rightarrow> [] | Some run \<Rightarrow> run)"
  shows "token_scan visit s start bytes =
    snd (visit_all visit s (concat (map compound_tokens (compounds
      (split_on (\<lambda>byte. \<not> is_token_byte byte) ((case start of None \<Rightarrow> [] | Some run \<Rightarrow> run) @ bytes))))))"
  using assms
proof (induction visit s start bytes rule: token_scan.induct)
  case (1 visit s start)
  then show ?case
    using split_on_run [of "\<lambda>byte. \<not> is_token_byte byte" _ "[]"]
    by (cases start) (auto simp: compounds_Cons compounds_def visit_compound_visits Let_def)
next
  case (2 visit s start byte bytes)
  show ?case
  proof (cases "is_token_byte byte")
    case True
    then show ?thesis using "2.IH"(1) [OF True] "2.prems" by (cases start) simp_all
  next
    case byte: False
    show ?thesis
    proof (cases start)
      case None
      then show ?thesis using "2.IH"(2) [OF byte None] byte by (simp add: compounds_Cons)
    next
      case (Some run)
      have split: "split_on (\<lambda>byte. \<not> is_token_byte byte) (run @ byte # bytes) = run # split_on (\<lambda>byte. \<not> is_token_byte byte) bytes"
        using split_on_run [of "\<lambda>byte. \<not> is_token_byte byte" run "byte # bytes"] "2.prems" Some byte by simp
      show ?thesis
      proof (cases "trim_token_punctuation run = []")
        case True
        then show ?thesis using "2.IH"(4) [OF byte Some refl] Some byte split by (simp add: compounds_Cons)
      next
        case False
        obtain go t where visited: "visit_compound_tokens visit s (trim_token_punctuation run) = (go, t)" by fastforce
        show ?thesis
          using "2.IH"(3) [OF byte Some refl False visited [symmetric]] visited Some byte split False
          by (cases go) (simp_all add: compounds_Cons visit_all_append visit_compound_visits)
      qed
    qed
  qed
qed

lemma for_each_ascii_token_visits: "for_each_ascii_token bytes visit s = snd (visit_all visit s (ascii_tokens bytes))"
  using token_scan_visits [of None visit s bytes] by (simp add: for_each_ascii_token_def ascii_tokens_def)

end
