(* ===== verification/Query_Spec.thy ===== *)
theory Query_Spec
  imports Query
begin

text \<open>
  The reference description of question preprocessing: the result over the list of all tokens, and
  what every preprocessed query satisfies.  The bound on the number of tokens is the one that keeps
  the counters of the lexical lane within their types.
\<close>

section \<open>The number of tokens\<close>

abbreviation total_length :: "bytes list \<Rightarrow> nat" where
  "total_length pieces \<equiv> sum_list (map length pieces)"

lemma split_on_total: "total_length (split_on P bytes) \<le> length bytes"
proof (induction bytes)
  case (Cons byte bytes)
  then show ?case by (cases "split_on P bytes") auto
qed simp

lemma nonempty_pieces: "length (filter (\<lambda>piece. piece \<noteq> []) pieces) \<le> total_length pieces"
proof (induction pieces)
  case (Cons piece pieces)
  then show ?case by (cases piece) auto
qed simp

lemma length_trim: "length (trim_token_punctuation token) \<le> length token"
  unfolding trim_token_punctuation_def
  by (metis length_dropWhile_le length_rev order_trans)

lemma length_filter_weaken: "(\<And>x. P x \<Longrightarrow> Q x) \<Longrightarrow> length (filter P xs) \<le> length (filter Q xs)"
  by (induction xs) (auto simp: le_SucI)

lemma component_tokens_count: "length (component_tokens token slash_component) \<le> length slash_component"
proof -
  let ?pieces = "split_on is_trim_byte slash_component"
  have "length (component_tokens token slash_component) \<le> length (filter (\<lambda>piece. piece \<noteq> []) ?pieces)"
    unfolding component_tokens_def by (rule length_filter_weaken) simp
  then show ?thesis using nonempty_pieces [of ?pieces] split_on_total [of is_trim_byte slash_component] by linarith
qed

lemma slash_tokens_count: "length (slash_tokens token piece) \<le> 2 * length piece"
proof (cases "trim_token_punctuation piece = []")
  case False
  then have "length (slash_tokens token piece) \<le> 1 + length (trim_token_punctuation piece)"
    using component_tokens_count [of token "trim_token_punctuation piece"] by (auto simp: slash_tokens_def Let_def)
  moreover have "1 \<le> length (trim_token_punctuation piece)" using False by (simp add: Suc_le_eq)
  ultimately show ?thesis using length_trim [of piece] by linarith
qed (simp add: slash_tokens_def)

lemma concat_count: "(\<And>piece. piece \<in> set pieces \<Longrightarrow> length (f piece) \<le> c * length piece) \<Longrightarrow>
  length (concat (map f pieces)) \<le> c * total_length pieces"
  by (induction pieces) (auto simp: add_mult_distrib2 intro: add_mono)

lemma compound_tokens_count: "token \<noteq> [] \<Longrightarrow> length (compound_tokens token) \<le> 3 * length token"
  using concat_count [of "split_on (\<lambda>byte. byte = CHR ''/'') token" "slash_tokens token" 2] slash_tokens_count [of token]
    split_on_total [of "\<lambda>byte. byte = CHR ''/''" token]
  by (cases token) (fastforce simp: compound_tokens_def)+

lemma compounds_total: "total_length (compounds pieces) \<le> total_length pieces"
  by (induction pieces) (auto simp: compounds_Cons compounds_def intro: add_mono length_trim order_trans [OF _ le_add2])

lemma compounds_nonempty: "token \<in> set (compounds pieces) \<Longrightarrow> token \<noteq> []"
  by (simp add: compounds_def)

lemma ascii_tokens_count: "length (ascii_tokens bytes) \<le> 3 * length bytes"
proof -
  let ?cs = "compounds (split_on (\<lambda>byte. \<not> is_token_byte byte) bytes)"
  have "length (ascii_tokens bytes) \<le> 3 * total_length ?cs"
    unfolding ascii_tokens_def by (rule concat_count) (simp add: compounds_nonempty compound_tokens_count)
  then show ?thesis
    using compounds_total split_on_total [of "\<lambda>byte. \<not> is_token_byte byte" bytes] by (meson mult_le_mono2 order_trans)
qed

lemma ascii_tokens_nonempty: "token \<in> set (ascii_tokens bytes) \<Longrightarrow> token \<noteq> []"
  by (auto simp: ascii_tokens_def compounds_def compound_tokens_def slash_tokens_def component_tokens_def Let_def
      split: if_splits)

section \<open>The two bounded scans\<close>

abbreviation short :: "bytes \<Rightarrow> bool" where
  "short token \<equiv> length token \<le> MAX_QUERY_TERM_BYTES_V1"

lemma collect_visits:
  assumes "length acc \<le> MAX_QUERY_TOKENS_V1"
  shows "snd (visit_all collect_token acc tokens) =
    (let bounded = take (MAX_QUERY_TOKENS_V1 - length acc) tokens in
     acc @ map canonicalize_ascii (takeWhile short bounded) @ (if list_all short bounded then [] else [[]]))"
  using assms
proof (induction tokens arbitrary: acc)
  case (Cons token tokens)
  show ?case
  proof (cases "length acc < MAX_QUERY_TOKENS_V1")
    case True
    then obtain k where k: "MAX_QUERY_TOKENS_V1 - length acc = Suc k" by (metis Suc_diff_Suc)
    then show ?thesis
      using True Cons.IH [of "acc @ [canonicalize_ascii token]"] Cons.prems
      by (auto simp: collect_token_def [of acc token] Let_def diff_Suc split: nat.splits)
  qed (use Cons.prems in \<open>simp add: collect_token_def\<close>)
qed simp

lemma count_visits:
  assumes "n < limit" and "limit \<le> u64_max"
  shows "snd (visit_all (count_token limit) n tokens) = min (n + length tokens) limit"
  using assms
proof (induction tokens arbitrary: n)
  case (Cons token tokens)
  show ?case
    using Cons.prems Cons.IH [of "Suc n"]
    by (cases "Suc n < limit") (simp_all add: count_token_def checked_add_u64_def)
qed simp

lemma takeWhile_all: "list_all P xs \<Longrightarrow> takeWhile P xs = xs"
  by (simp add: list_all_iff)

section \<open>The reference\<close>

definition canonical_tokens :: "bytes \<Rightarrow> bytes list" where
  "canonical_tokens question = map canonicalize_ascii (ascii_tokens question)"

definition query_of :: "(bytes \<Rightarrow> bytes) \<Rightarrow> bytes \<Rightarrow> PreprocessedQueryV1" where
  "query_of sha256 question =
     (let tokens = canonical_tokens question; material = identifier_material tokens in
      \<lparr>pq_question_digest = derive_question_digest_v1 sha256 question, pq_terms = query_terms (map snd material) tokens,
       pq_identifiers = sort_key (\<lambda>identifier. (vi_token identifier, vi_kind identifier))
         (map (\<lambda>(kind, token). \<lparr>vi_kind = kind, vi_token = token\<rparr>) material)\<rparr>)"

definition preprocess_reference :: "(bytes \<Rightarrow> bytes) \<Rightarrow> bytes \<Rightarrow> (CandidateNeedsMoreReasonV1, PreprocessedQueryV1) result" where
  "preprocess_reference sha256 question =
     (let tokens = ascii_tokens question; query = query_of sha256 question in
      if MAX_QUESTION_BYTES_V1 < length question then Inl QuestionBytesCap
      else if list_ex (\<lambda>token. MAX_QUERY_TERM_BYTES_V1 < length token) (take MAX_QUERY_TOKENS_V1 tokens) then Inl QueryTokenBytesCap
      else if MAX_QUERY_TOKENS_V1 < length tokens then Inl QueryTokenCountCap
      else if MAX_VALIDATED_QUERY_IDENTIFIERS_V1 < length (pq_identifiers query) then Inl ValidatedIdentifierCountCap
      else if MAX_QUERY_TERMS_V1 < length (pq_terms query) then Inl QueryTermCountCap
      else Inr query)"

lemma collected_tokens:
  "for_each_ascii_token question collect_token [] =
     map canonicalize_ascii (takeWhile short (take MAX_QUERY_TOKENS_V1 (ascii_tokens question)))
     @ (if list_all short (take MAX_QUERY_TOKENS_V1 (ascii_tokens question)) then [] else [[]])"
  using collect_visits [of "[]" "ascii_tokens question"] by (simp add: for_each_ascii_token_visits Let_def)

lemma counted_tokens:
  "count_ascii_tokens_up_to question (MAX_QUERY_TOKENS_V1 + 1) = min (length (ascii_tokens question)) (MAX_QUERY_TOKENS_V1 + 1)"
  using count_visits [of 0 "MAX_QUERY_TOKENS_V1 + 1"]
  by (simp add: count_ascii_tokens_up_to_def for_each_ascii_token_visits MAX_QUERY_TOKENS_V1_def)

lemma canonicalize_eq_Nil [simp]: "canonicalize_ascii token = [] \<longleftrightarrow> token = []"
  by (simp add: canonicalize_ascii_def)

lemma preprocess_query_reference: "preprocess_query_v1 sha256 question = preprocess_reference sha256 question"
proof (cases "list_all short (take MAX_QUERY_TOKENS_V1 (ascii_tokens question))")
  case True
  let ?bounded = "take MAX_QUERY_TOKENS_V1 (ascii_tokens question)"
  have collected: "for_each_ascii_token question collect_token [] = map canonicalize_ascii ?bounded"
    using True by (simp add: collected_tokens takeWhile_all)
  have "last (map canonicalize_ascii ?bounded) \<noteq> []" if "?bounded \<noteq> []"
  proof -
    have "last ?bounded \<in> set (ascii_tokens question)" using that by (meson in_set_takeD last_in_set)
    then show ?thesis using that ascii_tokens_nonempty by (auto simp: last_map)
  qed
  then have complete: "\<not> (map canonicalize_ascii ?bounded \<noteq> [] \<and> last (map canonicalize_ascii ?bounded) = [])"
    by auto
  have no_long: "\<not> list_ex (\<lambda>token. MAX_QUERY_TERM_BYTES_V1 < length token) ?bounded"
    using True by (auto simp: list_all_iff list_ex_iff)
  have counted: "MAX_QUERY_TOKENS_V1 < count_ascii_tokens_up_to question (MAX_QUERY_TOKENS_V1 + 1) \<longleftrightarrow>
      MAX_QUERY_TOKENS_V1 < length (ascii_tokens question)"
    by (simp only: counted_tokens) auto
  show ?thesis
  proof (cases "MAX_QUERY_TOKENS_V1 < length (ascii_tokens question)")
    case True
    then show ?thesis
      by (simp only: preprocess_query_v1_def preprocess_reference_def collected complete no_long counted Let_def if_False if_True)
  next
    case False
    then have "?bounded = ascii_tokens question" by simp
    then show ?thesis
      using complete no_long
      by (simp only: preprocess_query_v1_def preprocess_reference_def collected counted False Let_def if_False)
        (simp add: query_of_def canonical_tokens_def Let_def)
  qed
next
  case False
  then have "list_ex (\<lambda>token. MAX_QUERY_TERM_BYTES_V1 < length token) (take MAX_QUERY_TOKENS_V1 (ascii_tokens question))"
    by (auto simp: list_all_iff list_ex_iff not_le)
  with False show ?thesis
    by (simp add: preprocess_query_v1_def preprocess_reference_def collected_tokens Let_def)
qed

section \<open>Well-formed queries\<close>

text \<open>The length of an identifier of each kind: a token has at most one kind.\<close>

fun identifier_length :: "ValidatedIdentifierKindV1 \<Rightarrow> nat" where
  "identifier_length CanonicalUuid = 36"
| "identifier_length TraceIdHex128 = 32"
| "identifier_length SpanIdHex64 = 16"
| "identifier_length RustCompilerErrorCode = 5"

lemma identifier_length_inj [simp]: "identifier_length a = identifier_length b \<longleftrightarrow> a = b"
  by (cases a; cases b) simp_all

definition query_ok :: "PreprocessedQueryV1 \<Rightarrow> bool" where
  "query_ok query \<longleftrightarrow>
     sorted_wrt (<) (pq_terms query) \<and> length (pq_terms query) \<le> MAX_QUERY_TERMS_V1
     \<and> (\<forall>t \<in> set (pq_terms query). MIN_QUERY_TERM_BYTES_V1 \<le> length t \<and> short t \<and> canonicalize_ascii t = t)
     \<and> sorted_wrt (<) (map vi_token (pq_identifiers query)) \<and> length (pq_identifiers query) \<le> MAX_VALIDATED_QUERY_IDENTIFIERS_V1
     \<and> (\<forall>i \<in> set (pq_identifiers query). length (vi_token i) = identifier_length (vi_kind i) \<and> canonicalize_ascii (vi_token i) = vi_token i)
     \<and> set (pq_terms query) \<inter> vi_token ` set (pq_identifiers query) = {}"

lemma identifier_kind_length: "identifier_kind_at tokens position token = Some kind \<Longrightarrow> length token = identifier_length kind"
  by (auto simp: identifier_kind_at_def is_canonical_uuid_def is_rust_error_code_def is_trace_hex_def split: if_splits)

lemma identifier_material_mem:
  "(kind, token) \<in> set (identifier_material tokens) \<longleftrightarrow>
     (\<exists>i < length tokens. tokens ! i = token \<and> identifier_kind_at tokens i token = Some kind)"
proof -
  have "(kind, token) \<in> set (identifier_material tokens) \<longleftrightarrow>
      (\<exists>i t. (i, t) \<in> set (enumerate 0 tokens) \<and> identifier_kind_at tokens i t = Some kind \<and> t = token)"
    by (auto simp: identifier_material_def List.map_filter_def image_iff split: prod.splits) force+
  also have "\<dots> \<longleftrightarrow> (\<exists>i < length tokens. tokens ! i = token \<and> identifier_kind_at tokens i token = Some kind)"
    by (auto simp: in_set_enumerate_eq)
  finally show ?thesis .
qed

lemma to_ascii_lowercase_idem: "to_ascii_lowercase (to_ascii_lowercase byte) = to_ascii_lowercase byte"
proof -
  have "\<not> is_ascii_upper (char_of (of_char byte + 32 :: nat))" if "is_ascii_upper byte"
    using that by (auto simp: is_ascii_upper_def less_eq_char_def of_char_of)
  then show ?thesis by (simp add: to_ascii_lowercase_def)
qed

lemma canonicalize_idem [simp]: "canonicalize_ascii (canonicalize_ascii token) = canonicalize_ascii token"
  by (simp add: canonicalize_ascii_def to_ascii_lowercase_idem)

lemma length_canonicalize [simp]: "length (canonicalize_ascii token) = length token"
  by (simp add: canonicalize_ascii_def)

lemma strict_sorted_by_fst:
  fixes f :: "'a \<Rightarrow> 'k::linorder" and g :: "'a \<Rightarrow> 'l::linorder"
  assumes "distinct (map f xs)"
  shows "sorted_wrt (<) (map f (sort_key (\<lambda>x. (f x, g x)) xs))"
proof -
  have "sorted (map (\<lambda>x. (f x, g x)) (sort_key (\<lambda>x. (f x, g x)) xs))" by simp
  then have "sorted (map f (sort_key (\<lambda>x. (f x, g x)) xs))"
    by (simp add: sorted_map) (erule sorted_wrt_mono_rel [rotated], auto simp: less_eq_prod_def)
  moreover have "distinct (map f (sort_key (\<lambda>x. (f x, g x)) xs))" using assms by (simp add: distinct_map)
  ultimately show ?thesis by (simp add: strict_sorted_iff)
qed

lemma query_of_terms:
  "t \<in> set (pq_terms (query_of sha256 question)) \<longleftrightarrow> t \<in> set (canonical_tokens question) \<and> MIN_QUERY_TERM_BYTES_V1 \<le> length t
     \<and> t \<notin> snd ` set (identifier_material (canonical_tokens question)) \<and> \<not> is_stop_term t \<and> \<not> is_identifier_label t"
  by (auto simp: query_of_def query_terms_def Let_def)

lemma query_of_identifiers:
  "i \<in> set (pq_identifiers (query_of sha256 question)) \<longleftrightarrow> (vi_kind i, vi_token i) \<in> set (identifier_material (canonical_tokens question))"
  by (cases i) (force simp: query_of_def Let_def)

lemma query_of_identifier_order:
  "sorted_wrt (<) (map vi_token (pq_identifiers (query_of sha256 question)))"
proof -
  let ?material = "identifier_material (canonical_tokens question)"
  have "inj_on snd (set ?material)"
    by (auto simp: inj_on_def identifier_material_mem dest!: identifier_kind_length)
  then have "distinct (map vi_token (map (\<lambda>(kind, token). \<lparr>vi_kind = kind, vi_token = token\<rparr>) ?material))"
    by (simp add: distinct_map comp_def case_prod_beta identifier_material_def)
  then show ?thesis by (simp add: query_of_def Let_def strict_sorted_by_fst)
qed

lemma preprocess_query_ok:
  assumes "preprocess_query_v1 sha256 question = Inr query"
  shows "query_ok query"
proof -
  have run: "query = query_of sha256 question" "length (pq_terms query) \<le> MAX_QUERY_TERMS_V1"
    "length (pq_identifiers query) \<le> MAX_VALIDATED_QUERY_IDENTIFIERS_V1"
    "\<not> list_ex (\<lambda>token. MAX_QUERY_TERM_BYTES_V1 < length token) (take MAX_QUERY_TOKENS_V1 (ascii_tokens question))"
    "length (ascii_tokens question) \<le> MAX_QUERY_TOKENS_V1"
    using assms by (auto simp: preprocess_query_reference preprocess_reference_def Let_def split: if_splits)
  then have short: "\<forall>t \<in> set (canonical_tokens question). short t \<and> canonicalize_ascii t = t"
    by (auto simp: canonical_tokens_def list_ex_iff not_less)
  have mem: "token \<in> set (canonical_tokens question) \<and> length token = identifier_length kind"
    if "(kind, token) \<in> set (identifier_material (canonical_tokens question))" for kind token
    using that identifier_kind_length by (auto simp: identifier_material_mem)
  have "sorted_wrt (<) (pq_terms query)" by (simp add: run(1) query_of_def query_terms_def Let_def)
  moreover have "set (pq_terms query) \<inter> vi_token ` set (pq_identifiers query) = {}"
    unfolding run(1) by (auto simp: query_of_terms query_of_identifiers image_iff) force
  moreover have "sorted_wrt (<) (map vi_token (pq_identifiers query))"
    unfolding run(1) by (rule query_of_identifier_order)
  moreover have "\<forall>i \<in> set (pq_identifiers query). length (vi_token i) = identifier_length (vi_kind i) \<and> canonicalize_ascii (vi_token i) = vi_token i"
    unfolding run(1) using mem short by (auto simp: query_of_identifiers)
  moreover have "\<forall>t \<in> set (pq_terms query). MIN_QUERY_TERM_BYTES_V1 \<le> length t \<and> short t \<and> canonicalize_ascii t = t"
    unfolding run(1) using short by (auto simp: query_of_terms)
  ultimately show ?thesis using run(2,3) by (simp add: query_ok_def)
qed

end
