(* ===== verification/Lexical.thy ===== *)
theory Lexical
  imports Query_Spec Block Select_Types
begin

text \<open>
  The lexical candidate lane (\<open>evidentrail-candidates/src/lexical.rs\<close> and \<open>types.rs\<close>): every
  reconciled block is scanned for the terms and identifiers of the query, and the statistics become
  the facets, affinities and mandatory reasons that the compiler hands to the selector.  A function
  that leaves early with a \<open>NeedsMore\<close> decision or an error returns a \<open>LaneStop\<close>; the entry point
  turns it into the decision.  \<open>usize\<close> is 64 bits wide.
\<close>

section \<open>Bounds and results\<close>

definition MAX_PRIMARY_BLOCKS_V1 :: nat where "MAX_PRIMARY_BLOCKS_V1 = 4096"
definition MAX_PRIMARY_BYTES_SCANNED_V1 :: nat where "MAX_PRIMARY_BYTES_SCANNED_V1 = 64 * 1024 * 1024"
definition MAX_IDENTIFIER_BLOCK_FANOUT_V1 :: nat where "MAX_IDENTIFIER_BLOCK_FANOUT_V1 = 64"
definition MAX_MANDATORY_BLOCKS_V1 :: nat where "MAX_MANDATORY_BLOCKS_V1 = 64"
definition MAX_EMITTED_SIGNALS_V1 :: nat where "MAX_EMITTED_SIGNALS_V1 = 65536"

text \<open>\<open>CandidatePanic\<close> stands for the \<open>expect\<close> on a block lookup and for an index out of range.\<close>

datatype CandidateBuildErrorV1 =
  FacetContractViolation | FixedPointContractViolation | BlockIndexContractViolation | CandidatePanic

datatype LaneStop = StopNeedsMore CandidateNeedsMoreReasonV1 | StopError CandidateBuildErrorV1

datatype CandidateFacetV1 =
    QueryTermFacet ProductionFacetV1
  | QueryIdentifierFacet ProductionFacetV1 ValidatedIdentifierKindV1

fun candidate_facet :: "CandidateFacetV1 \<Rightarrow> ProductionFacetV1" where
  "candidate_facet (QueryTermFacet f) = f"
| "candidate_facet (QueryIdentifierFacet f _) = f"

record MandatoryIdentifierReasonV1 =
  mi_facet_id :: FacetIdV1
  mi_identifier_kind :: ValidatedIdentifierKindV1

record PrimaryBlockCandidateV1 =
  pc_block_id :: BlockId
  pc_packet_id :: PacketIdV1
  pc_ordered_event_ids :: "EventId list"
  pc_affinities :: "FacetAffinityV1 list"
  pc_mandatory_reasons :: "MandatoryIdentifierReasonV1 list"
  pc_exact_byte_count :: nat
  pc_document_token_count :: nat

definition PrimaryBlockCandidateV1_new ::
  "BlockId \<Rightarrow> EventId list \<Rightarrow> FacetAffinityV1 list \<Rightarrow> MandatoryIdentifierReasonV1 list \<Rightarrow> nat \<Rightarrow> nat \<Rightarrow> PrimaryBlockCandidateV1" where
  "PrimaryBlockCandidateV1_new bid eids affs reasons byte_count token_count =
     \<lparr>pc_block_id = bid, pc_packet_id = bid, pc_ordered_event_ids = eids, pc_affinities = affs,
      pc_mandatory_reasons = reasons, pc_exact_byte_count = byte_count, pc_document_token_count = token_count\<rparr>"

record LexicalCandidateUniverseV1 =
  lu_retrieval_id :: RetrievalId
  lu_question_digest :: QuestionDigest
  lu_facets :: "CandidateFacetV1 list"
  lu_primary_blocks :: "PrimaryBlockCandidateV1 list"
  lu_scanned_bytes :: nat
  lu_scanned_tokens :: nat
  lu_emitted_signal_count :: nat
  lu_mandatory_block_count :: nat

datatype CandidateGenerationDecisionV1 =
  CandidatesReady LexicalCandidateUniverseV1 | CandidatesNeedMore CandidateNeedsMoreReasonV1

record BlockStatistics =
  bs_block_id :: BlockId
  bs_ordered_event_ids :: "EventId list"
  bs_exact_bytes :: nat
  bs_document_tokens :: nat
  bs_term_frequencies :: "nat list"
  bs_identifier_matches :: "bool list"

section \<open>Checked arithmetic\<close>

definition checked_mul_u128 :: "nat \<Rightarrow> nat \<Rightarrow> nat option" where
  "checked_mul_u128 a b = (if a * b \<le> u128_max then Some (a * b) else None)"

definition checked_add_u128 :: "nat \<Rightarrow> nat \<Rightarrow> nat option" where
  "checked_add_u128 a b = (if a + b \<le> u128_max then Some (a + b) else None)"

definition checked_sub_u64 :: "nat \<Rightarrow> nat \<Rightarrow> nat option" where
  "checked_sub_u64 a b = (if b \<le> a then Some (a - b) else None)"

definition u32_try_from :: "nat \<Rightarrow> nat option" where
  "u32_try_from n = (if n \<le> 4294967295 then Some n else None)"

definition checked_signal_increment :: "nat \<Rightarrow> (CandidateNeedsMoreReasonV1, nat) result" where
  "checked_signal_increment current =
     rbind (ok_or ArithmeticCapacity (checked_add_u64 current 1)) (\<lambda>next_count.
     if next_count > MAX_EMITTED_SIGNALS_V1 then Inl EmittedSignalCountCap else Inr next_count)"

definition checked_scanned_bytes :: "nat \<Rightarrow> nat \<Rightarrow> (CandidateNeedsMoreReasonV1, nat) result" where
  "checked_scanned_bytes current additional =
     rbind (ok_or ArithmeticCapacity (checked_add_u64 current additional)) (\<lambda>next_bytes.
     if next_bytes > MAX_PRIMARY_BYTES_SCANNED_V1 then Inl PrimaryBytesScannedCap else Inr next_bytes)"

definition with_authorized_event_scan ::
  "nat \<Rightarrow> nat \<Rightarrow> nat \<Rightarrow> (unit \<Rightarrow> 't) \<Rightarrow> (CandidateNeedsMoreReasonV1, nat \<times> 't) result" where
  "with_authorized_event_scan already_scanned current_block_bytes event_bytes scan =
     rbind (ok_or ArithmeticCapacity (checked_add_u64 current_block_bytes event_bytes)) (\<lambda>next_block_bytes.
     rbind (checked_scanned_bytes already_scanned next_block_bytes) (\<lambda>_.
     Inr (next_block_bytes, scan ())))"

definition idf_weight :: "nat \<Rightarrow> nat \<Rightarrow> (CandidateBuildErrorV1, nat) result" where
  "idf_weight block_count document_frequency =
     rbind (ok_or FixedPointContractViolation
       (Option.bind (checked_sub_u64 block_count document_frequency) (\<lambda>v. checked_add_u64 v 1))) (\<lambda>v.
     rbind (ok_or FixedPointContractViolation (checked_mul_u128 AFFINITY_SCALE_V1 v)) (\<lambda>numerator.
     rbind (ok_or FixedPointContractViolation (checked_add_u64 block_count 1)) (\<lambda>denominator.
     rbind (ok_or FixedPointContractViolation (u32_try_from (numerator div denominator))) (\<lambda>micros.
     map_err (\<lambda>_. FixedPointContractViolation) (FacetWeightV1_new micros)))))"

definition bm25_affinity :: "nat \<Rightarrow> nat \<Rightarrow> nat \<Rightarrow> nat \<Rightarrow> (CandidateBuildErrorV1, nat) result" where
  "bm25_affinity term_frequency document_tokens total_document_tokens block_count =
     (if term_frequency = 0 \<or> total_document_tokens = 0 \<or> block_count = 0 then Inl FixedPointContractViolation
      else
      rbind (ok_or FixedPointContractViolation
        (Option.bind (checked_mul_u128 10 total_document_tokens) (\<lambda>v. checked_mul_u128 v term_frequency))) (\<lambda>base.
      rbind (ok_or FixedPointContractViolation (checked_mul_u128 base AFFINITY_SCALE_V1)) (\<lambda>numerator.
      rbind (ok_or FixedPointContractViolation (checked_mul_u128 3 total_document_tokens)) (\<lambda>length_floor.
      rbind (ok_or FixedPointContractViolation
        (Option.bind (checked_add_u128 base length_floor) (\<lambda>v.
         Option.bind (checked_mul_u128 9 document_tokens) (\<lambda>component.
         Option.bind (checked_mul_u128 component block_count) (\<lambda>component. checked_add_u128 v component))))) (\<lambda>denominator.
      rbind (ok_or FixedPointContractViolation (u32_try_from (numerator div denominator))) (\<lambda>micros.
      map_err (\<lambda>_. FixedPointContractViolation) (AffinityV1_new micros)))))))"

section \<open>Scanning the blocks\<close>

text \<open>
  The canonical token of a raw token in a list sorted by canonical tokens: \<open>binary_search_by\<close> with
  \<open>compare_canonical_to_raw\<close>.
\<close>

definition find_canonical :: "('a \<Rightarrow> bytes) \<Rightarrow> 'a list \<Rightarrow> bytes \<Rightarrow> nat option" where
  "find_canonical canonical_token xs raw = binary_search_by_key canonical_token xs (canonicalize_ascii raw)"

record BlockScan =
  sc_document_tokens :: nat
  sc_term_frequencies :: "nat list"
  sc_identifier_matches :: "bool list"
  sc_arithmetic_exhausted :: bool

definition count_term :: "PreprocessedQueryV1 \<Rightarrow> bytes \<Rightarrow> nat list \<Rightarrow> nat list option" where
  "count_term query token frequencies =
     (case find_canonical id (pq_terms query) token of
        None \<Rightarrow> Some frequencies
      | Some position \<Rightarrow>
          map_option (\<lambda>next_frequency. frequencies[position := next_frequency]) (checked_add_u64 (frequencies ! position) 1))"

definition mark_identifier :: "PreprocessedQueryV1 \<Rightarrow> bytes \<Rightarrow> bool list \<Rightarrow> bool list" where
  "mark_identifier query token matches =
     (case find_canonical vi_token (pq_identifiers query) token of
        None \<Rightarrow> matches
      | Some position \<Rightarrow> matches[position := True])"

definition scan_token :: "PreprocessedQueryV1 \<Rightarrow> BlockScan visitor" where
  "scan_token query scan token =
     (case checked_add_u64 (sc_document_tokens scan) 1 of
        None \<Rightarrow> (False, scan\<lparr>sc_arithmetic_exhausted := True\<rparr>)
      | Some next_document_tokens \<Rightarrow>
          let scan = scan\<lparr>sc_document_tokens := next_document_tokens\<rparr> in
          case count_term query token (sc_term_frequencies scan) of
            None \<Rightarrow> (False, scan\<lparr>sc_arithmetic_exhausted := True\<rparr>)
          | Some frequencies \<Rightarrow>
              (True, scan\<lparr>sc_term_frequencies := frequencies,
                 sc_identifier_matches := mark_identifier query token (sc_identifier_matches scan)\<rparr>))"

definition new_scan :: "PreprocessedQueryV1 \<Rightarrow> BlockScan" where
  "new_scan query = \<lparr>sc_document_tokens = 0, sc_term_frequencies = replicate (length (pq_terms query)) 0,
     sc_identifier_matches = replicate (length (pq_identifiers query)) False, sc_arithmetic_exhausted = False\<rparr>"

definition event_scan_step ::
  "PreprocessedQueryV1 \<Rightarrow> nat \<Rightarrow> nat \<times> BlockScan \<Rightarrow> Event \<Rightarrow> (CandidateNeedsMoreReasonV1, nat \<times> BlockScan) result" where
  "event_scan_step query scanned_bytes state e =
     (case state of (block_bytes, scan) \<Rightarrow>
       rbind (ok_or ArithmeticCapacity (u64_try_from (length (ev_raw e)))) (\<lambda>event_bytes.
       rbind (with_authorized_event_scan scanned_bytes block_bytes event_bytes
           (\<lambda>_. for_each_ascii_token (ev_raw e) (scan_token query) scan)) (\<lambda>(block_bytes, scan).
       if sc_arithmetic_exhausted scan then Inl ArithmeticCapacity else Inr (block_bytes, scan))))"

text \<open>One \<open>checked_add(1)\<close> for every position that is hit: document frequencies and fanouts.\<close>

definition bump_hits :: "nat list \<Rightarrow> bool list \<Rightarrow> (CandidateNeedsMoreReasonV1, nat list) result" where
  "bump_hits counts hits =
     rfold (\<lambda>counts (position, hit).
         if hit then rbind (ok_or ArithmeticCapacity (checked_add_u64 (counts ! position) 1)) (\<lambda>v. Inr (counts[position := v]))
         else Inr counts)
       counts (enumerate 0 hits)"

record LaneState =
  ls_statistics :: "BlockStatistics list"
  ls_scanned_bytes :: nat
  ls_scanned_tokens :: nat
  ls_document_frequencies :: "nat list"
  ls_identifier_fanout :: "nat list"

definition block_scan_step ::
  "PreprocessedQueryV1 \<Rightarrow> BlockIndex \<Rightarrow> LaneState \<Rightarrow> EventBlock \<Rightarrow> (LaneStop, LaneState) result" where
  "block_scan_step query blocks s b =
     rbind (map_err (\<lambda>_. StopError CandidatePanic) (expand_block blocks (eb_id b))) (\<lambda>expanded.
     map_err StopNeedsMore (
     rbind (rfold (event_scan_step query (ls_scanned_bytes s)) (0, new_scan query) (be_events expanded)) (\<lambda>(block_bytes, scan).
     rbind (checked_scanned_bytes (ls_scanned_bytes s) block_bytes) (\<lambda>scanned_bytes.
     rbind (ok_or ArithmeticCapacity (checked_add_u64 (ls_scanned_tokens s) (sc_document_tokens scan))) (\<lambda>scanned_tokens.
     rbind (bump_hits (ls_document_frequencies s) (map (\<lambda>frequency. frequency > 0) (sc_term_frequencies scan))) (\<lambda>frequencies.
     rbind (bump_hits (ls_identifier_fanout s) (sc_identifier_matches scan)) (\<lambda>fanout.
     Inr \<lparr>ls_statistics = ls_statistics s @ [\<lparr>bs_block_id = eb_id b, bs_ordered_event_ids = eb_member_ids b,
            bs_exact_bytes = block_bytes, bs_document_tokens = sc_document_tokens scan,
            bs_term_frequencies = sc_term_frequencies scan, bs_identifier_matches = sc_identifier_matches scan\<rparr>],
          ls_scanned_bytes = scanned_bytes, ls_scanned_tokens = scanned_tokens,
          ls_document_frequencies = frequencies, ls_identifier_fanout = fanout\<rparr>)))))))"

section \<open>Facets and annotations\<close>

definition term_facet ::
  "(bytes \<Rightarrow> bytes) \<Rightarrow> nat \<Rightarrow> QueryTermV1 \<Rightarrow> nat \<Rightarrow> (CandidateBuildErrorV1, ProductionFacetV1) result" where
  "term_facet sha256 block_count canonical_term document_frequency =
     rbind (ok_or FixedPointContractViolation (u64_try_from document_frequency)) (\<lambda>document_frequency.
     rbind (idf_weight block_count document_frequency) (\<lambda>weight.
     map_err (\<lambda>_. FacetContractViolation) (ProductionFacetV1_new sha256 QueryTerm canonical_term weight)))"

definition identifier_facet ::
  "(bytes \<Rightarrow> bytes) \<Rightarrow> nat \<Rightarrow> ValidatedQueryIdentifierV1 \<Rightarrow> (CandidateBuildErrorV1, ProductionFacetV1) result" where
  "identifier_facet sha256 full_weight identifier =
     map_err (\<lambda>_. FacetContractViolation)
       (ProductionFacetV1_new sha256 ValidatedQueryIdentifier (canonical_semantic_key identifier) full_weight)"

text \<open>The two loops over one block's statistics; the state is the output so far and the signal count.\<close>

definition term_affinity_step ::
  "FacetIdV1 list \<Rightarrow> nat \<Rightarrow> nat \<Rightarrow> BlockStatistics \<Rightarrow> FacetAffinityV1 list \<times> nat \<Rightarrow> nat \<times> nat \<Rightarrow>
   (LaneStop, FacetAffinityV1 list \<times> nat) result" where
  "term_affinity_step term_facet_ids scanned_tokens block_count statistics state pf =
     (case (state, pf) of ((affs, emitted), (position, frequency)) \<Rightarrow>
       if frequency = 0 then Inr (affs, emitted)
       else rbind (map_err StopError (bm25_affinity frequency (bs_document_tokens statistics) scanned_tokens block_count)) (\<lambda>affinity.
         rbind (nth_or (StopError CandidatePanic) term_facet_ids position) (\<lambda>fid.
         rbind (map_err StopNeedsMore (checked_signal_increment emitted)) (\<lambda>emitted.
         Inr (affs @ [\<lparr>affinity_facet = fid, affinity_micros = affinity\<rparr>], emitted)))))"

definition identifier_match_step ::
  "FacetIdV1 list \<Rightarrow> ValidatedQueryIdentifierV1 list \<Rightarrow> nat \<Rightarrow> FacetAffinityV1 list \<times> MandatoryIdentifierReasonV1 list \<times> nat \<Rightarrow>
   nat \<times> bool \<Rightarrow> (LaneStop, FacetAffinityV1 list \<times> MandatoryIdentifierReasonV1 list \<times> nat) result" where
  "identifier_match_step identifier_facet_ids identifiers full_affinity state pm =
     (case (state, pm) of ((affs, reasons, emitted), (position, matched)) \<Rightarrow>
       if \<not> matched then Inr (affs, reasons, emitted)
       else rbind (nth_or (StopError CandidatePanic) identifier_facet_ids position) (\<lambda>fid.
         rbind (nth_or (StopError CandidatePanic) identifiers position) (\<lambda>identifier.
         rbind (map_err StopNeedsMore (checked_signal_increment emitted)) (\<lambda>emitted.
         rbind (map_err StopNeedsMore (checked_signal_increment emitted)) (\<lambda>emitted.
         Inr (affs @ [\<lparr>affinity_facet = fid, affinity_micros = full_affinity\<rparr>],
              reasons @ [\<lparr>mi_facet_id = fid, mi_identifier_kind = vi_kind identifier\<rparr>], emitted))))))"

definition annotate_block_step ::
  "FacetIdV1 list \<Rightarrow> FacetIdV1 list \<Rightarrow> ValidatedQueryIdentifierV1 list \<Rightarrow> nat \<Rightarrow> nat \<Rightarrow> nat \<Rightarrow>
   PrimaryBlockCandidateV1 list \<times> nat \<Rightarrow> BlockStatistics \<Rightarrow> (LaneStop, PrimaryBlockCandidateV1 list \<times> nat) result" where
  "annotate_block_step term_facet_ids identifier_facet_ids identifiers full_affinity scanned_tokens block_count state statistics =
     (case state of (primary_blocks, emitted) \<Rightarrow>
       rbind (rfold (term_affinity_step term_facet_ids scanned_tokens block_count statistics) ([], emitted)
           (enumerate 0 (bs_term_frequencies statistics))) (\<lambda>(affs, emitted).
       rbind (rfold (identifier_match_step identifier_facet_ids identifiers full_affinity) (affs, [], emitted)
           (enumerate 0 (bs_identifier_matches statistics))) (\<lambda>(affs, reasons, emitted).
       Inr (primary_blocks @ [PrimaryBlockCandidateV1_new (bs_block_id statistics) (bs_ordered_event_ids statistics)
              (sort_key affinity_facet affs) (sort_key mi_facet_id reasons) (bs_exact_bytes statistics) (bs_document_tokens statistics)],
            emitted))))"

definition rmap :: "('a \<Rightarrow> ('e, 'b) result) \<Rightarrow> 'a list \<Rightarrow> ('e, 'b list) result" where
  "rmap f xs = rfold (\<lambda>ys x. rbind (f x) (\<lambda>y. Inr (ys @ [y]))) [] xs"

text \<open>The part of the function after the scan.\<close>

definition annotate_statistics ::
  "(bytes \<Rightarrow> bytes) \<Rightarrow> PreprocessedQueryV1 \<Rightarrow> BlockIndex \<Rightarrow> LaneState \<Rightarrow> (LaneStop, LexicalCandidateUniverseV1) result" where
  "annotate_statistics sha256 query blocks s =
     (if list_ex (\<lambda>fanout. fanout > MAX_IDENTIFIER_BLOCK_FANOUT_V1) (ls_identifier_fanout s)
      then Inl (StopNeedsMore IdentifierBlockFanoutCap)
      else let mandatory_block_count =
          length (filter (\<lambda>statistics. list_ex id (bs_identifier_matches statistics)) (ls_statistics s)) in
      if mandatory_block_count > MAX_MANDATORY_BLOCKS_V1 then Inl (StopNeedsMore MandatoryBlockCountCap)
      else
      rbind (ok_or (StopError FixedPointContractViolation) (u64_try_from (length (ls_statistics s)))) (\<lambda>block_count.
      rbind (map_err StopError (rmap (\<lambda>(canonical_term, frequency). term_facet sha256 block_count canonical_term frequency)
          (zip (pq_terms query) (ls_document_frequencies s)))) (\<lambda>term_facets.
      rbind (map_err (\<lambda>_. StopError FixedPointContractViolation) (FacetWeightV1_new AFFINITY_SCALE_V1)) (\<lambda>full_weight.
      rbind (map_err StopError (rmap (identifier_facet sha256 full_weight) (pq_identifiers query))) (\<lambda>identifier_facets.
      rbind (map_err (\<lambda>_. StopError FixedPointContractViolation) (AffinityV1_new AFFINITY_SCALE_V1)) (\<lambda>full_affinity.
      rbind (rfold (annotate_block_step (map facet_id term_facets) (map facet_id identifier_facets) (pq_identifiers query)
              full_affinity (ls_scanned_tokens s) block_count) ([], 0) (ls_statistics s)) (\<lambda>(primary_blocks, emitted).
      Inr \<lparr>lu_retrieval_id = el_retrieval_id (bi_ledger blocks), lu_question_digest = pq_question_digest query,
           lu_facets = sort_key (\<lambda>f. facet_id (candidate_facet f))
             (map QueryTermFacet term_facets
              @ map2 (\<lambda>f identifier. QueryIdentifierFacet f (vi_kind identifier)) identifier_facets (pq_identifiers query)),
           lu_primary_blocks = primary_blocks, lu_scanned_bytes = ls_scanned_bytes s, lu_scanned_tokens = ls_scanned_tokens s,
           lu_emitted_signal_count = emitted, lu_mandatory_block_count = mandatory_block_count\<rparr>)))))))"

fun lane_decision ::
  "(LaneStop, LexicalCandidateUniverseV1) result \<Rightarrow> (CandidateBuildErrorV1, CandidateGenerationDecisionV1) result" where
  "lane_decision (Inl (StopNeedsMore reason)) = Inr (CandidatesNeedMore reason)"
| "lane_decision (Inl (StopError e)) = Inl e"
| "lane_decision (Inr universe) = Inr (CandidatesReady universe)"

definition annotate_preprocessed_query_v1 ::
  "(bytes \<Rightarrow> bytes) \<Rightarrow> PreprocessedQueryV1 \<Rightarrow> BlockIndex \<Rightarrow> (CandidateBuildErrorV1, CandidateGenerationDecisionV1) result" where
  "annotate_preprocessed_query_v1 sha256 query blocks =
     lane_decision
       (if length (bi_blocks blocks) > MAX_PRIMARY_BLOCKS_V1 then Inl (StopNeedsMore PrimaryBlockCountCap)
        else rbind (rfold (block_scan_step query blocks)
            \<lparr>ls_statistics = [], ls_scanned_bytes = 0, ls_scanned_tokens = 0,
             ls_document_frequencies = replicate (length (pq_terms query)) 0,
             ls_identifier_fanout = replicate (length (pq_identifiers query)) 0\<rparr> (bi_blocks blocks))
          (annotate_statistics sha256 query blocks))"

definition generate_lexical_candidates_v1 ::
  "(bytes \<Rightarrow> bytes) \<Rightarrow> bytes \<Rightarrow> BlockIndex \<Rightarrow> (CandidateBuildErrorV1, CandidateGenerationDecisionV1) result" where
  "generate_lexical_candidates_v1 sha256 question blocks =
     (case preprocess_query_v1 sha256 question of
        Inl reason \<Rightarrow> Inr (CandidatesNeedMore reason)
      | Inr query \<Rightarrow> annotate_preprocessed_query_v1 sha256 query blocks)"

end
