(* ===== verification/Lexical_Spec.thy ===== *)
theory Lexical_Spec
  imports Lexical Framing_Partition
begin

text \<open>
  The reference description of the lexical lane: the statistics of a block as counts over its tokens,
  the weights in closed form, and the decision as a function of the totals.  The loops of the lane
  are shown to compute it; with it no counter overflows and no error or panic is reachable.
\<close>

section \<open>Statistics of a block\<close>

definition block_events :: "BlockIndex \<Rightarrow> EventBlock \<Rightarrow> Event list" where
  "block_events i b = map ((!) (el_events (bi_ledger i))) (eb_member_positions b)"

definition tokens_in :: "Event list \<Rightarrow> bytes list" where
  "tokens_in es = concat (map (\<lambda>e. ascii_tokens (ev_raw e)) es)"

definition bytes_of :: "Event list \<Rightarrow> nat" where
  "bytes_of es = sum_list (map (\<lambda>e. length (ev_raw e)) es)"

definition occurrences :: "bytes list \<Rightarrow> bytes \<Rightarrow> nat" where
  "occurrences tokens canonical = length (filter (\<lambda>token. canonicalize_ascii token = canonical) tokens)"

definition occurs :: "bytes list \<Rightarrow> bytes \<Rightarrow> bool" where
  "occurs tokens canonical \<longleftrightarrow> occurrences tokens canonical > 0"

definition scan_of :: "PreprocessedQueryV1 \<Rightarrow> bytes list \<Rightarrow> BlockScan" where
  "scan_of query tokens = \<lparr>sc_document_tokens = length tokens, sc_term_frequencies = map (occurrences tokens) (pq_terms query),
     sc_identifier_matches = map (\<lambda>identifier. occurs tokens (vi_token identifier)) (pq_identifiers query),
     sc_arithmetic_exhausted = False\<rparr>"

lemma occurrences_Nil [simp]: "occurrences [] = (\<lambda>_. 0)"
  by (simp add: occurrences_def fun_eq_iff)

lemma occurrences_snoc [simp]:
  "occurrences (tokens @ [token]) canonical = occurrences tokens canonical + (if canonicalize_ascii token = canonical then 1 else 0)"
  by (simp add: occurrences_def)

lemma occurs_snoc [simp]: "occurs (tokens @ [token]) canonical \<longleftrightarrow> canonicalize_ascii token = canonical \<or> occurs tokens canonical"
  by (simp add: occurs_def)

lemma occurrences_le: "occurrences tokens canonical \<le> length tokens"
  by (simp add: occurrences_def)

lemma new_scan_of: "new_scan query = scan_of query []"
  by (simp add: new_scan_def scan_of_def occurs_def map_replicate_const)

lemma find_canonical_Some:
  "sorted_wrt (<) (map f xs) \<Longrightarrow> find_canonical f xs token = Some k \<longleftrightarrow> k < length xs \<and> f (xs ! k) = canonicalize_ascii token"
  by (simp add: find_canonical_def binary_search_by_key_Some)

text \<open>Updating the position that a token is found at is updating every position by its own key.\<close>

lemma update_found:
  assumes sorted: "sorted_wrt (<) (map f xs)"
  shows "(case find_canonical f xs token of None \<Rightarrow> map g xs | Some k \<Rightarrow> (map g xs)[k := h (xs ! k)]) =
    map (\<lambda>x. if f x = canonicalize_ascii token then h x else g x) xs"
proof (cases "find_canonical f xs token")
  case None
  then have "canonicalize_ascii token \<notin> f ` set xs"
    using sorted by (simp add: find_canonical_def binary_search_by_key_None)
  then have "f x \<noteq> canonicalize_ascii token" if "x \<in> set xs" for x using that by force
  with None show ?thesis by simp
next
  case (Some k)
  then have k: "k < length xs" "f (xs ! k) = canonicalize_ascii token" using find_canonical_Some [OF sorted] by blast+
  have "distinct (map f xs)" using sorted by (simp add: strict_sorted_iff)
  then have "f (xs ! j) = canonicalize_ascii token \<longleftrightarrow> j = k" if "j < length xs" for j
    using k that by (metis distinct_conv_nth length_map nth_map)
  then show ?thesis using Some k by (auto intro!: nth_equalityI simp: nth_list_update)
qed

lemma scan_token_step:
  assumes q: "query_ok query" and n: "length tokens < u64_max"
  shows "scan_token query (scan_of query tokens) token = (True, scan_of query (tokens @ [token]))"
proof -
  have sorted: "sorted_wrt (<) (map id (pq_terms query))" "sorted_wrt (<) (map vi_token (pq_identifiers query))"
    using q by (simp_all add: query_ok_def)
  have fits: "checked_add_u64 (occurrences tokens t) 1 = Some (occurrences tokens t + 1)" for t
    using occurrences_le [of tokens t] n by (simp add: checked_add_u64_def)
  have "count_term query token (map (occurrences tokens) (pq_terms query)) =
    Some (case find_canonical id (pq_terms query) token of None \<Rightarrow> map (occurrences tokens) (pq_terms query)
      | Some k \<Rightarrow> (map (occurrences tokens) (pq_terms query))[k := occurrences tokens (pq_terms query ! k) + 1])"
  proof (cases "find_canonical id (pq_terms query) token")
    case (Some k)
    then have "k < length (pq_terms query)" using find_canonical_Some [OF sorted(1)] by blast
    then show ?thesis using Some fits by (simp add: count_term_def)
  qed (simp add: count_term_def)
  also have "\<dots> = Some (map (occurrences (tokens @ [token])) (pq_terms query))"
    using update_found [OF sorted(1), where token = token and g = "occurrences tokens" and h = "\<lambda>t. occurrences tokens t + 1"]
    by (auto simp: eq_commute [of "canonicalize_ascii token"])
  finally have terms: "count_term query token (map (occurrences tokens) (pq_terms query)) =
    Some (map (occurrences (tokens @ [token])) (pq_terms query))" .
  have matches: "mark_identifier query token (map (\<lambda>i. occurs tokens (vi_token i)) (pq_identifiers query)) =
    map (\<lambda>i. occurs (tokens @ [token]) (vi_token i)) (pq_identifiers query)"
    unfolding mark_identifier_def
      update_found [OF sorted(2), where token = token and g = "\<lambda>i. occurs tokens (vi_token i)" and h = "\<lambda>_. True"]
    by auto
  show ?thesis
    using n terms matches by (simp add: scan_token_def scan_of_def checked_add_u64_def Let_def)
qed

lemma scan_visits:
  assumes "query_ok query" and "length (seen @ tokens) \<le> u64_max"
  shows "visit_all (scan_token query) (scan_of query seen) tokens = (True, scan_of query (seen @ tokens))"
  using assms(2)
proof (induction tokens arbitrary: seen)
  case (Cons token tokens)
  then show ?case using scan_token_step [OF assms(1), of seen token] Cons.IH [of "seen @ [token]"] by simp
qed simp

section \<open>The scan of the blocks\<close>

definition statistic_of :: "PreprocessedQueryV1 \<Rightarrow> BlockIndex \<Rightarrow> EventBlock \<Rightarrow> BlockStatistics" where
  "statistic_of query i b =
     (let tokens = tokens_in (block_events i b) in
      \<lparr>bs_block_id = eb_id b, bs_ordered_event_ids = eb_member_ids b, bs_exact_bytes = bytes_of (block_events i b),
       bs_document_tokens = length tokens, bs_term_frequencies = map (occurrences tokens) (pq_terms query),
       bs_identifier_matches = map (\<lambda>identifier. occurs tokens (vi_token identifier)) (pq_identifiers query)\<rparr>)"

definition blocks_bytes :: "BlockIndex \<Rightarrow> EventBlock list \<Rightarrow> nat" where
  "blocks_bytes i bs = sum_list (map (\<lambda>b. bytes_of (block_events i b)) bs)"

definition blocks_tokens :: "BlockIndex \<Rightarrow> EventBlock list \<Rightarrow> nat" where
  "blocks_tokens i bs = sum_list (map (\<lambda>b. length (tokens_in (block_events i b))) bs)"

definition blocks_with :: "BlockIndex \<Rightarrow> EventBlock list \<Rightarrow> bytes \<Rightarrow> nat" where
  "blocks_with i bs canonical = length (filter (\<lambda>b. occurs (tokens_in (block_events i b)) canonical) bs)"

definition lane_of :: "PreprocessedQueryV1 \<Rightarrow> BlockIndex \<Rightarrow> EventBlock list \<Rightarrow> LaneState" where
  "lane_of query i bs = \<lparr>ls_statistics = map (statistic_of query i) bs, ls_scanned_bytes = blocks_bytes i bs,
     ls_scanned_tokens = blocks_tokens i bs, ls_document_frequencies = map (blocks_with i bs) (pq_terms query),
     ls_identifier_fanout = map (\<lambda>identifier. blocks_with i bs (vi_token identifier)) (pq_identifiers query)\<rparr>"

lemma tokens_in_count: "length (tokens_in es) \<le> 3 * bytes_of es"
  unfolding tokens_in_def bytes_of_def
  by (induction es) (auto simp: add_mult_distrib2 intro: add_mono ascii_tokens_count)

lemma bytes_of_snoc [simp]: "bytes_of (es @ [e]) = bytes_of es + length (ev_raw e)"
  by (simp add: bytes_of_def)

lemma tokens_in_snoc [simp]: "tokens_in (es @ [e]) = tokens_in es @ ascii_tokens (ev_raw e)"
  by (simp add: tokens_in_def)

lemma empty_events [simp]: "bytes_of [] = 0" "tokens_in [] = []"
  by (simp_all add: bytes_of_def tokens_in_def)

lemma checked_scanned_bytes_cap:
  "current \<le> MAX_PRIMARY_BYTES_SCANNED_V1 \<Longrightarrow> additional \<le> MAX_PRIMARY_BYTES_SCANNED_V1 + 9223372036854775807 \<Longrightarrow>
   checked_scanned_bytes current additional =
     (if current + additional \<le> MAX_PRIMARY_BYTES_SCANNED_V1 then Inr (current + additional) else Inl PrimaryBytesScannedCap)"
  by (simp add: checked_scanned_bytes_def checked_add_u64_def MAX_PRIMARY_BYTES_SCANNED_V1_def)

lemma event_scan_step_of:
  assumes q: "query_ok query" and e: "length (ev_raw e) \<le> 9223372036854775807"
    and within: "scanned + bytes_of es \<le> MAX_PRIMARY_BYTES_SCANNED_V1"
  shows "event_scan_step query scanned (bytes_of es, scan_of query (tokens_in es)) e =
    (if scanned + bytes_of (es @ [e]) \<le> MAX_PRIMARY_BYTES_SCANNED_V1
     then Inr (bytes_of (es @ [e]), scan_of query (tokens_in (es @ [e]))) else Inl PrimaryBytesScannedCap)"
proof -
  have add: "checked_add_u64 (bytes_of es) (length (ev_raw e)) = Some (bytes_of (es @ [e]))"
    using e within by (simp add: checked_add_u64_def MAX_PRIMARY_BYTES_SCANNED_V1_def)
  have cap: "checked_scanned_bytes scanned (bytes_of (es @ [e])) =
      (if scanned + bytes_of (es @ [e]) \<le> MAX_PRIMARY_BYTES_SCANNED_V1 then Inr (scanned + bytes_of (es @ [e])) else Inl PrimaryBytesScannedCap)"
    using e within by (intro checked_scanned_bytes_cap) simp_all
  have len64: "u64_try_from (length (ev_raw e)) = Some (length (ev_raw e))" using e by (simp add: u64_try_from_def)
  show ?thesis
  proof (cases "scanned + bytes_of (es @ [e]) \<le> MAX_PRIMARY_BYTES_SCANNED_V1")
    case True
    then have "length (tokens_in es @ ascii_tokens (ev_raw e)) \<le> u64_max"
      using tokens_in_count [of "es @ [e]"] by (simp add: MAX_PRIMARY_BYTES_SCANNED_V1_def)
    then have "visit_all (scan_token query) (scan_of query (tokens_in es)) (ascii_tokens (ev_raw e)) =
        (True, scan_of query (tokens_in (es @ [e])))"
      using scan_visits [OF q, of "tokens_in es" "ascii_tokens (ev_raw e)"] by simp
    then show ?thesis
      using True by (simp add: event_scan_step_def len64 add [unfolded bytes_of_snoc] cap [unfolded bytes_of_snoc] with_authorized_event_scan_def for_each_ascii_token_visits)
        (simp add: scan_of_def)
  next
    case False
    then show ?thesis by (simp only: event_scan_step_def len64 add cap with_authorized_event_scan_def prod.case ok_or_simps rbind_simps if_False)
  qed
qed

lemma event_scan_loop:
  assumes q: "query_ok query" and fits: "fits es" and scanned: "scanned \<le> MAX_PRIMARY_BYTES_SCANNED_V1"
  shows "rfold (event_scan_step query scanned) (0, new_scan query) es =
    (if scanned + bytes_of es \<le> MAX_PRIMARY_BYTES_SCANNED_V1 then Inr (bytes_of es, scan_of query (tokens_in es))
     else Inl PrimaryBytesScannedCap)"
  using fits
proof (induction es rule: rev_induct)
  case Nil
  then show ?case using scanned by (simp add: new_scan_of)
next
  case (snoc e es)
  then have "fits es" and e: "length (ev_raw e) \<le> 9223372036854775807" by (simp_all add: fits_def)
  with snoc.IH event_scan_step_of [OF q e, of scanned es] show ?case
    by (cases "scanned + bytes_of es \<le> MAX_PRIMARY_BYTES_SCANNED_V1") (simp_all add: rfold_append)
qed

lemma bump_hits_map:
  assumes "\<And>x. x \<in> set xs \<Longrightarrow> f x < u64_max"
  shows "bump_hits (map f xs) (map g xs) = Inr (map (\<lambda>x. f x + (if g x then 1 else 0)) xs)"
proof -
  let ?step = "\<lambda>counts (position, hit). if hit then rbind (ok_or ArithmeticCapacity (checked_add_u64 (counts ! position) 1))
    (\<lambda>v. Inr (counts[position := v])) else Inr counts"
  have "rfold ?step (map f xs) (enumerate 0 (map g (take k xs))) =
      Inr (map (\<lambda>x. f x + (if g x then 1 else 0)) (take k xs) @ map f (drop k xs))" if "k \<le> length xs" for k
    using that
  proof (induction k)
    case (Suc k)
    then have k: "k < length xs" by simp
    have "checked_add_u64 (f (xs ! k)) 1 = Some (f (xs ! k) + 1)"
      using assms [of "xs ! k"] k by (simp add: checked_add_u64_def)
    with Suc k show ?case
      by (simp add: take_Suc_conv_app_nth enumerate_snoc rfold_append Cons_nth_drop_Suc [symmetric] list_update_append nth_append)
  qed simp
  from this [of "length xs"] show ?thesis by (simp add: bump_hits_def)
qed

lemma blocks_with_snoc: "blocks_with i (bs @ [b]) canonical =
  blocks_with i bs canonical + (if occurs (tokens_in (block_events i b)) canonical then 1 else 0)"
  by (simp add: blocks_with_def)

lemma blocks_snoc [simp]: "blocks_bytes i (bs @ [b]) = blocks_bytes i bs + bytes_of (block_events i b)"
  "blocks_tokens i (bs @ [b]) = blocks_tokens i bs + length (tokens_in (block_events i b))"
  by (simp_all add: blocks_bytes_def blocks_tokens_def)

lemma blocks_with_le: "blocks_with i bs canonical \<le> length bs"
  by (simp add: blocks_with_def)

lemma blocks_tokens_count: "blocks_tokens i bs \<le> 3 * blocks_bytes i bs"
  unfolding blocks_tokens_def blocks_bytes_def
  by (induction bs) (auto simp: add_mult_distrib2 intro: add_mono tokens_in_count)

text \<open>Looking up and expanding a block of the index gives its events.\<close>

lemma expand_indexed:
  assumes i: "block_index_ok i" and b: "b \<in> set (bi_blocks i)"
  shows "expand_block i (eb_id b) = Inr \<lparr>be_block = b, be_events = block_events i b\<rparr>"
proof -
  obtain k where "k < length (bi_blocks i)" "bi_blocks i ! k = b" using b by (auto simp: in_set_conv_nth)
  then have "map_of (bi_block_positions i) (eb_id b) = Some k" using block_index.pos_iff [OF i] by blast
  then have "block i (eb_id b) = Inr b" using \<open>bi_blocks i ! k = b\<close> by (simp add: block_lookup [OF i])
  then show ?thesis using expansion_ok [OF i b] by (simp add: expand_block_def block_events_def)
qed

lemma block_events_fit:
  assumes "block_index_ok i" and "fits (el_events (bi_ledger i))" and "b \<in> set (bi_blocks i)"
  shows "fits (block_events i b)"
proof -
  have "set (eb_member_positions b) \<subseteq> {..<length (el_events (bi_ledger i))}" using assms by (auto simp: block_index_ok_def block_ok_def)
  then show ?thesis using assms by (auto simp: fits_def block_events_def subset_iff)
qed

lemma block_scan_step_of:
  assumes q: "query_ok query" and i: "block_index_ok i" and fits: "fits (el_events (bi_ledger i))"
    and b: "b \<in> set (bi_blocks i)" and within: "blocks_bytes i bs \<le> MAX_PRIMARY_BYTES_SCANNED_V1" and n: "length bs < u64_max"
  shows "block_scan_step query i (lane_of query i bs) b =
    (if blocks_bytes i (bs @ [b]) \<le> MAX_PRIMARY_BYTES_SCANNED_V1 then Inr (lane_of query i (bs @ [b]))
     else Inl (StopNeedsMore PrimaryBytesScannedCap))"
proof -
  note expand = expand_indexed [OF i b] and scan = event_scan_loop [OF q block_events_fit [OF i fits b] within]
  show ?thesis
  proof (cases "blocks_bytes i (bs @ [b]) \<le> MAX_PRIMARY_BYTES_SCANNED_V1")
    case True
    then have bytes: "blocks_bytes i bs + bytes_of (block_events i b) \<le> MAX_PRIMARY_BYTES_SCANNED_V1" by simp
    have tokens: "checked_add_u64 (blocks_tokens i bs) (length (tokens_in (block_events i b))) =
        Some (blocks_tokens i bs + length (tokens_in (block_events i b)))"
      using bytes blocks_tokens_count [of i bs] tokens_in_count [of "block_events i b"]
      by (simp add: checked_add_u64_def MAX_PRIMARY_BYTES_SCANNED_V1_def)
    have scanned: "checked_scanned_bytes (blocks_bytes i bs) (bytes_of (block_events i b)) = Inr (blocks_bytes i bs + bytes_of (block_events i b))"
      using bytes by (subst checked_scanned_bytes_cap) simp_all
    have below: "blocks_with i bs canonical < u64_max" for canonical using n blocks_with_le [of i bs canonical] by linarith
    note bump = bump_hits_map [of "pq_terms query" "blocks_with i bs" "occurs (tokens_in (block_events i b))"]
      bump_hits_map [of "pq_identifiers query" "\<lambda>identifier. blocks_with i bs (vi_token identifier)"
        "\<lambda>identifier. occurs (tokens_in (block_events i b)) (vi_token identifier)"]
    show ?thesis
      using bytes bump below
      by (simp add: block_scan_step_def expand lane_of_def scan scanned tokens scan_of_def statistic_of_def blocks_with_snoc
          Let_def comp_def flip: occurs_def)
  next
    case False
    then have "\<not> blocks_bytes i bs + bytes_of (block_events i b) \<le> MAX_PRIMARY_BYTES_SCANNED_V1" by simp
    then show ?thesis using False by (simp add: block_scan_step_def expand scan lane_of_def)
  qed
qed

lemma block_scan_loop:
  assumes q: "query_ok query" and i: "block_index_ok i" and fits: "fits (el_events (bi_ledger i))"
    and bs: "set bs \<subseteq> set (bi_blocks i)" and n: "length bs \<le> u64_max"
  shows "rfold (block_scan_step query i) (lane_of query i []) bs =
    (if blocks_bytes i bs \<le> MAX_PRIMARY_BYTES_SCANNED_V1 then Inr (lane_of query i bs) else Inl (StopNeedsMore PrimaryBytesScannedCap))"
  using bs n
proof (induction bs rule: rev_induct)
  case Nil
  then show ?case by (simp add: blocks_bytes_def)
next
  case (snoc b bs)
  then have "b \<in> set (bi_blocks i)" and "length bs < u64_max" by simp_all
  note step = block_scan_step_of [OF q i fits this(1) _ this(2)]
  show ?case
    using snoc step by (cases "blocks_bytes i bs \<le> MAX_PRIMARY_BYTES_SCANNED_V1") (simp_all add: rfold_append)
qed

section \<open>Weights and affinities\<close>

definition idf_micros :: "nat \<Rightarrow> nat \<Rightarrow> nat" where
  "idf_micros n df = AFFINITY_SCALE_V1 * (n - df + 1) div (n + 1)"

definition bm25_micros :: "nat \<Rightarrow> nat \<Rightarrow> nat \<Rightarrow> nat \<Rightarrow> nat" where
  "bm25_micros f d t n = 10 * t * f * AFFINITY_SCALE_V1 div (10 * t * f + 3 * t + 9 * d * n)"

lemma idf_micros_range: "df \<le> n \<Longrightarrow> n \<le> MAX_PRIMARY_BLOCKS_V1 \<Longrightarrow> 0 < idf_micros n df \<and> idf_micros n df \<le> AFFINITY_SCALE_V1"
proof -
  assume n: "df \<le> n" "n \<le> MAX_PRIMARY_BLOCKS_V1"
  have "n + 1 \<le> AFFINITY_SCALE_V1" using n by (simp add: MAX_PRIMARY_BLOCKS_V1_def AFFINITY_SCALE_V1_def)
  then have "n + 1 \<le> AFFINITY_SCALE_V1 * (n - df + 1)" by (simp add: le_trans)
  moreover have "AFFINITY_SCALE_V1 * (n - df + 1) \<le> AFFINITY_SCALE_V1 * (n + 1)" by (intro mult_le_mono2) simp
  ultimately have "0 < idf_micros n df" and "idf_micros n df \<le> AFFINITY_SCALE_V1 * (n + 1) div (n + 1)"
    unfolding idf_micros_def by (simp_all only: div_greater_zero_iff div_le_mono) simp
  moreover have "AFFINITY_SCALE_V1 * (n + 1) div (n + 1) = AFFINITY_SCALE_V1" by (rule nonzero_mult_div_cancel_right) simp
  ultimately show ?thesis by simp
qed

lemma idf_weight_closed:
  assumes "df \<le> n" and "n \<le> MAX_PRIMARY_BLOCKS_V1"
  shows "idf_weight n df = Inr (idf_micros n df)"
  using idf_micros_range [OF assms] assms
  by (simp add: idf_weight_def idf_micros_def checked_sub_u64_def checked_add_u64_def checked_mul_u128_def u32_try_from_def
      FacetWeightV1_new_def AFFINITY_SCALE_V1_def MAX_PRIMARY_BLOCKS_V1_def)

lemma bm25_micros_range:
  assumes "0 < f" and "f \<le> t" and "d \<le> t" and "n \<le> MAX_PRIMARY_BLOCKS_V1"
  shows "0 < bm25_micros f d t n \<and> bm25_micros f d t n \<le> AFFINITY_SCALE_V1"
proof -
  let ?base = "10 * t * f" and ?denominator = "10 * t * f + 3 * t + 9 * d * n"
  have t: "0 < t" using assms by simp
  have "9 * d * n \<le> 9 * t * 4096" using assms by (intro mult_le_mono) (simp_all add: MAX_PRIMARY_BLOCKS_V1_def)
  moreover have "t \<le> t * f" using assms by simp
  ultimately have "3 * t + 9 * (d * n) \<le> 9999990 * (t * f)" by linarith
  then have "?denominator \<le> ?base * AFFINITY_SCALE_V1" by (simp add: AFFINITY_SCALE_V1_def mult.assoc mult.commute [of f])
  moreover have "0 < ?denominator" using t by simp
  ultimately have "0 < bm25_micros f d t n" by (simp add: bm25_micros_def div_greater_zero_iff)
  moreover have "bm25_micros f d t n \<le> AFFINITY_SCALE_V1"
  proof -
    have "?base * AFFINITY_SCALE_V1 \<le> ?denominator * AFFINITY_SCALE_V1" by (intro mult_le_mono1) simp
    then have "bm25_micros f d t n \<le> ?denominator * AFFINITY_SCALE_V1 div ?denominator"
      unfolding bm25_micros_def by (rule div_le_mono)
    then show ?thesis using \<open>0 < ?denominator\<close> by (simp split: if_splits)
  qed
  ultimately show ?thesis ..
qed

lemma bm25_affinity_closed:
  assumes f: "0 < f" "f \<le> t" and d: "d \<le> t" and t: "t \<le> 3 * MAX_PRIMARY_BYTES_SCANNED_V1"
    and n: "0 < n" "n \<le> MAX_PRIMARY_BLOCKS_V1"
  shows "bm25_affinity f d t n = Inr (bm25_micros f d t n)"
proof -
  let ?m = "3 * MAX_PRIMARY_BYTES_SCANNED_V1"
  have tf: "t * f \<le> ?m * ?m" using f t by (intro mult_le_mono) simp_all
  have dn: "d * n \<le> ?m * MAX_PRIMARY_BLOCKS_V1" using d t n by (intro mult_le_mono) simp_all
  have micros: "0 < bm25_micros f d t n" "bm25_micros f d t n \<le> AFFINITY_SCALE_V1" using bm25_micros_range [OF f d n(2)] by simp_all
  have fits: "10 * t \<le> u128_max" "10 * t * f \<le> u128_max" "10 * t * f * AFFINITY_SCALE_V1 \<le> u128_max" "3 * t \<le> u128_max"
    "9 * d \<le> u128_max" "9 * d * n \<le> u128_max" "10 * t * f + 3 * t \<le> u128_max" "10 * t * f + 3 * t + 9 * d * n \<le> u128_max"
    using tf dn t d by (simp_all add: MAX_PRIMARY_BYTES_SCANNED_V1_def MAX_PRIMARY_BLOCKS_V1_def AFFINITY_SCALE_V1_def mult.commute [of f])
  have products: "checked_mul_u128 10 t = Some (10 * t)" "checked_mul_u128 (10 * t) f = Some (10 * t * f)"
    "checked_mul_u128 (10 * t * f) AFFINITY_SCALE_V1 = Some (10 * t * f * AFFINITY_SCALE_V1)" "checked_mul_u128 3 t = Some (3 * t)"
    "checked_mul_u128 9 d = Some (9 * d)" "checked_mul_u128 (9 * d) n = Some (9 * d * n)"
    by (simp_all only: checked_mul_u128_def fits if_True)
  have sums: "checked_add_u128 (10 * t * f) (3 * t) = Some (10 * t * f + 3 * t)"
    "checked_add_u128 (10 * t * f + 3 * t) (9 * d * n) = Some (10 * t * f + 3 * t + 9 * d * n)"
    by (simp_all only: checked_add_u128_def fits if_True)
  have "u32_try_from (bm25_micros f d t n) = Some (bm25_micros f d t n)" "AffinityV1_new (bm25_micros f d t n) = Inr (bm25_micros f d t n)"
    using micros by (simp_all add: u32_try_from_def AffinityV1_new_def AFFINITY_SCALE_V1_def)
  moreover have "0 < t" using f by simp
  ultimately show ?thesis
    using f(1) n(1) by (simp add: bm25_affinity_def products sums flip: bm25_micros_def)
qed

end
