(* ===== verification/Lexical_Decision.thy ===== *)
theory Lexical_Decision
  imports Lexical_Spec
begin

text \<open>
  The second half of the lexical lane: facets, affinities and mandatory reasons of every block, and
  the decision as a function of the query and the block index alone.
\<close>

section \<open>Facets\<close>

definition facet_key_id :: "(bytes \<Rightarrow> bytes) \<Rightarrow> ProductionFacetKindV1 \<Rightarrow> bytes \<Rightarrow> FacetIdV1" where
  "facet_key_id sha256 kind key =
     sha256 (update_hash_field (update_hash_field (''evidentrail/select/facet/v1'' @ [CHR 0x00]) (facet_kind_code kind)) key)"

definition term_facet_id :: "(bytes \<Rightarrow> bytes) \<Rightarrow> QueryTermV1 \<Rightarrow> FacetIdV1" where
  "term_facet_id sha256 t = facet_key_id sha256 QueryTerm t"

definition identifier_facet_id :: "(bytes \<Rightarrow> bytes) \<Rightarrow> ValidatedQueryIdentifierV1 \<Rightarrow> FacetIdV1" where
  "identifier_facet_id sha256 identifier = facet_key_id sha256 ValidatedQueryIdentifier (canonical_semantic_key identifier)"

definition term_facets_of :: "(bytes \<Rightarrow> bytes) \<Rightarrow> PreprocessedQueryV1 \<Rightarrow> BlockIndex \<Rightarrow> ProductionFacetV1 list" where
  "term_facets_of sha256 query i = map (\<lambda>t. \<lparr>facet_id = term_facet_id sha256 t, facet_kind = QueryTerm,
     facet_weight = idf_micros (length (bi_blocks i)) (blocks_with i (bi_blocks i) t)\<rparr>) (pq_terms query)"

definition identifier_facets_of :: "(bytes \<Rightarrow> bytes) \<Rightarrow> PreprocessedQueryV1 \<Rightarrow> ProductionFacetV1 list" where
  "identifier_facets_of sha256 query = map (\<lambda>identifier. \<lparr>facet_id = identifier_facet_id sha256 identifier,
     facet_kind = ValidatedQueryIdentifier, facet_weight = AFFINITY_SCALE_V1\<rparr>) (pq_identifiers query)"

lemma rmap_map: "(\<And>x. x \<in> set xs \<Longrightarrow> f x = Inr (g x)) \<Longrightarrow> rmap f xs = Inr (map g xs)"
proof -
  assume f: "\<And>x. x \<in> set xs \<Longrightarrow> f x = Inr (g x)"
  have "rfold (\<lambda>ys x. rbind (f x) (\<lambda>y. Inr (ys @ [y]))) acc xs = Inr (acc @ map g xs)" for acc
    using f by (induction xs arbitrary: acc) auto
  then show ?thesis by (simp add: rmap_def)
qed

lemma term_facet_closed:
  assumes "query_ok query" and "t \<in> set (pq_terms query)" and "df \<le> n" and "n \<le> MAX_PRIMARY_BLOCKS_V1"
  shows "term_facet sha256 n t df = Inr \<lparr>facet_id = term_facet_id sha256 t, facet_kind = QueryTerm, facet_weight = idf_micros n df\<rparr>"
proof -
  have "t \<noteq> []" "length t \<le> MAX_FACET_SEMANTIC_KEY_BYTES_V1"
    using assms(1,2) by (auto simp: query_ok_def MIN_QUERY_TERM_BYTES_V1_def MAX_QUERY_TERM_BYTES_V1_def MAX_FACET_SEMANTIC_KEY_BYTES_V1_def)
  moreover have "u64_try_from df = Some df" using assms(3,4) by (simp add: u64_try_from_def MAX_PRIMARY_BLOCKS_V1_def)
  ultimately show ?thesis
    using idf_weight_closed [OF assms(3,4)]
    by (simp add: term_facet_def ProductionFacetV1_new_def term_facet_id_def facet_key_id_def Let_def)
qed

lemma identifier_facet_closed:
  assumes "query_ok query" and "identifier \<in> set (pq_identifiers query)"
  shows "identifier_facet sha256 AFFINITY_SCALE_V1 identifier = Inr \<lparr>facet_id = identifier_facet_id sha256 identifier,
    facet_kind = ValidatedQueryIdentifier, facet_weight = AFFINITY_SCALE_V1\<rparr>"
proof -
  have "length (identifier_kind_code kind) \<le> 24 \<and> identifier_length kind \<le> 36" for kind by (cases kind) simp_all
  moreover have "length (vi_token identifier) = identifier_length (vi_kind identifier)" using assms by (simp add: query_ok_def)
  ultimately have "length (canonical_semantic_key identifier) \<le> 24 + 1 + 36"
    unfolding canonical_semantic_key_def by (metis (no_types, lifting) add_mono length_append length_Cons list.size(3) One_nat_def add.assoc order_refl)
  then have "\<not> MAX_FACET_SEMANTIC_KEY_BYTES_V1 < length (canonical_semantic_key identifier)"
    by (simp add: MAX_FACET_SEMANTIC_KEY_BYTES_V1_def)
  moreover have "canonical_semantic_key identifier \<noteq> []" by (simp add: canonical_semantic_key_def)
  ultimately show ?thesis
    by (simp add: identifier_facet_def ProductionFacetV1_new_def identifier_facet_id_def facet_key_id_def Let_def)
qed

section \<open>The annotation of a block\<close>

definition term_affinities_of :: "(bytes \<Rightarrow> bytes) \<Rightarrow> PreprocessedQueryV1 \<Rightarrow> BlockIndex \<Rightarrow> EventBlock \<Rightarrow> FacetAffinityV1 list" where
  "term_affinities_of sha256 query i b =
     (let tokens = tokens_in (block_events i b) in
      map (\<lambda>t. \<lparr>affinity_facet = term_facet_id sha256 t,
          affinity_micros = bm25_micros (occurrences tokens t) (length tokens) (blocks_tokens i (bi_blocks i)) (length (bi_blocks i))\<rparr>)
        (filter (\<lambda>t. occurs tokens t) (pq_terms query)))"

definition matched_identifiers :: "PreprocessedQueryV1 \<Rightarrow> BlockIndex \<Rightarrow> EventBlock \<Rightarrow> ValidatedQueryIdentifierV1 list" where
  "matched_identifiers query i b = filter (\<lambda>identifier. occurs (tokens_in (block_events i b)) (vi_token identifier)) (pq_identifiers query)"

definition annotation_of :: "(bytes \<Rightarrow> bytes) \<Rightarrow> PreprocessedQueryV1 \<Rightarrow> BlockIndex \<Rightarrow> EventBlock \<Rightarrow> PrimaryBlockCandidateV1" where
  "annotation_of sha256 query i b =
     \<lparr>pc_block_id = eb_id b, pc_packet_id = eb_id b, pc_ordered_event_ids = eb_member_ids b,
      pc_affinities = sort_key affinity_facet (term_affinities_of sha256 query i b
        @ map (\<lambda>identifier. \<lparr>affinity_facet = identifier_facet_id sha256 identifier, affinity_micros = AFFINITY_SCALE_V1\<rparr>)
            (matched_identifiers query i b)),
      pc_mandatory_reasons = sort_key mi_facet_id
        (map (\<lambda>identifier. \<lparr>mi_facet_id = identifier_facet_id sha256 identifier, mi_identifier_kind = vi_kind identifier\<rparr>)
          (matched_identifiers query i b)),
      pc_exact_byte_count = bytes_of (block_events i b), pc_document_token_count = length (tokens_in (block_events i b))\<rparr>"

definition block_signals :: "PreprocessedQueryV1 \<Rightarrow> BlockIndex \<Rightarrow> EventBlock \<Rightarrow> nat" where
  "block_signals query i b =
     length (filter (\<lambda>t. occurs (tokens_in (block_events i b)) t) (pq_terms query)) + 2 * length (matched_identifiers query i b)"

lemma signal_increment:
  "n \<le> MAX_EMITTED_SIGNALS_V1 \<Longrightarrow>
   checked_signal_increment n = (if n + 1 \<le> MAX_EMITTED_SIGNALS_V1 then Inr (n + 1) else Inl EmittedSignalCountCap)"
  by (simp add: checked_signal_increment_def checked_add_u64_def MAX_EMITTED_SIGNALS_V1_def)

lemma term_affinity_step_pair:
  "term_affinity_step ids tokens n statistics (affs, emitted) (position, frequency) =
     (if frequency = 0 then Inr (affs, emitted)
      else rbind (map_err StopError (bm25_affinity frequency (bs_document_tokens statistics) tokens n)) (\<lambda>affinity.
        rbind (nth_or (StopError CandidatePanic) ids position) (\<lambda>fid.
        rbind (map_err StopNeedsMore (checked_signal_increment emitted)) (\<lambda>emitted.
        Inr (affs @ [\<lparr>affinity_facet = fid, affinity_micros = affinity\<rparr>], emitted)))))"
  by (simp add: term_affinity_step_def)

lemma identifier_match_step_pair:
  "identifier_match_step ids identifiers full (affs, reasons, emitted) (position, matched) =
     (if \<not> matched then Inr (affs, reasons, emitted)
      else rbind (nth_or (StopError CandidatePanic) ids position) (\<lambda>fid.
        rbind (nth_or (StopError CandidatePanic) identifiers position) (\<lambda>identifier.
        rbind (map_err StopNeedsMore (checked_signal_increment emitted)) (\<lambda>emitted.
        rbind (map_err StopNeedsMore (checked_signal_increment emitted)) (\<lambda>emitted.
        Inr (affs @ [\<lparr>affinity_facet = fid, affinity_micros = full\<rparr>],
             reasons @ [\<lparr>mi_facet_id = fid, mi_identifier_kind = vi_kind identifier\<rparr>], emitted))))))"
  by (simp add: identifier_match_step_def)

lemma term_affinity_loop:
  assumes bm25: "\<And>t. t \<in> set ts \<Longrightarrow> 0 < f t \<Longrightarrow> bm25_affinity (f t) (bs_document_tokens statistics) tokens n = Inr (m t)"
    and emitted: "emitted \<le> MAX_EMITTED_SIGNALS_V1"
  shows "rfold (term_affinity_step (map g (ts @ rest)) tokens n statistics) ([], emitted) (enumerate 0 (map f ts)) =
    (let hits = filter (\<lambda>t. 0 < f t) ts in
     if emitted + length hits \<le> MAX_EMITTED_SIGNALS_V1
     then Inr (map (\<lambda>t. \<lparr>affinity_facet = g t, affinity_micros = m t\<rparr>) hits, emitted + length hits)
     else Inl (StopNeedsMore EmittedSignalCountCap))"
  using bm25
proof (induction ts arbitrary: rest rule: rev_induct)
  case Nil
  then show ?case using emitted by simp
next
  case (snoc t ts)
  define hits where "hits = filter (\<lambda>t. 0 < f t) ts"
  have IH: "rfold (term_affinity_step (map g (ts @ t # rest)) tokens n statistics) ([], emitted) (enumerate 0 (map f ts)) =
    (if emitted + length hits \<le> MAX_EMITTED_SIGNALS_V1
     then Inr (map (\<lambda>t. \<lparr>affinity_facet = g t, affinity_micros = m t\<rparr>) hits, emitted + length hits)
     else Inl (StopNeedsMore EmittedSignalCountCap))"
    using snoc.IH [of "t # rest"] snoc.prems by (simp add: Let_def hits_def)
  have nth: "nth_or (StopError CandidatePanic) (map g (ts @ t # rest)) (length ts) = Inr (g t)" by (simp add: nth_or_def nth_append)
  show ?case
  proof (cases "0 < f t")
    case True
    then show ?thesis
      using IH nth snoc.prems [of t] signal_increment [of "emitted + length hits"]
      by (cases "emitted + length hits \<le> MAX_EMITTED_SIGNALS_V1")
        (simp_all add: enumerate_snoc rfold_append term_affinity_step_pair Let_def flip: hits_def)
  next
    case False
    then show ?thesis using IH by (simp add: enumerate_snoc rfold_append term_affinity_step_pair Let_def flip: hits_def)
  qed
qed

lemma identifier_match_loop:
  assumes emitted: "emitted \<le> MAX_EMITTED_SIGNALS_V1"
  shows "rfold (identifier_match_step (map g (is @ rest)) (is @ rest) full) (affs, [], emitted) (enumerate 0 (map f is)) =
    (let hits = filter f is in
     if emitted + 2 * length hits \<le> MAX_EMITTED_SIGNALS_V1
     then Inr (affs @ map (\<lambda>identifier. \<lparr>affinity_facet = g identifier, affinity_micros = full\<rparr>) hits,
       map (\<lambda>identifier. \<lparr>mi_facet_id = g identifier, mi_identifier_kind = vi_kind identifier\<rparr>) hits, emitted + 2 * length hits)
     else Inl (StopNeedsMore EmittedSignalCountCap))"
proof (induction "is" arbitrary: rest rule: rev_induct)
  case Nil
  then show ?case using emitted by simp
next
  case (snoc t ts)
  define hits where "hits = filter f ts"
  have IH: "rfold (identifier_match_step (map g (ts @ t # rest)) (ts @ t # rest) full) (affs, [], emitted) (enumerate 0 (map f ts)) =
    (if emitted + 2 * length hits \<le> MAX_EMITTED_SIGNALS_V1
     then Inr (affs @ map (\<lambda>identifier. \<lparr>affinity_facet = g identifier, affinity_micros = full\<rparr>) hits,
       map (\<lambda>identifier. \<lparr>mi_facet_id = g identifier, mi_identifier_kind = vi_kind identifier\<rparr>) hits, emitted + 2 * length hits)
     else Inl (StopNeedsMore EmittedSignalCountCap))"
    using snoc.IH [of "t # rest"] by (simp add: Let_def hits_def)
  have nth: "nth_or (StopError CandidatePanic) (map g (ts @ t # rest)) (length ts) = Inr (g t)"
    "nth_or (StopError CandidatePanic) (ts @ t # rest) (length ts) = Inr t" by (simp_all add: nth_or_def nth_append)
  show ?case
  proof (cases "f t")
    case True
    then show ?thesis
      using IH nth signal_increment [of "emitted + 2 * length hits"] signal_increment [of "emitted + 2 * length hits + 1"]
      by (cases "emitted + 2 * length hits \<le> MAX_EMITTED_SIGNALS_V1"; cases "emitted + 2 * length hits + 1 \<le> MAX_EMITTED_SIGNALS_V1")
        (simp_all add: enumerate_snoc rfold_append identifier_match_step_pair Let_def flip: hits_def)
  next
    case False
    then show ?thesis using IH by (simp add: enumerate_snoc rfold_append identifier_match_step_pair Let_def flip: hits_def)
  qed
qed

lemma block_token_bounds:
  assumes "b \<in> set bs" and "blocks_bytes i bs \<le> MAX_PRIMARY_BYTES_SCANNED_V1"
  shows "length (tokens_in (block_events i b)) \<le> blocks_tokens i bs" and "blocks_tokens i bs \<le> 3 * MAX_PRIMARY_BYTES_SCANNED_V1"
proof -
  show "length (tokens_in (block_events i b)) \<le> blocks_tokens i bs"
    unfolding blocks_tokens_def by (rule member_le_sum_list) (use assms(1) in simp_all)
  show "blocks_tokens i bs \<le> 3 * MAX_PRIMARY_BYTES_SCANNED_V1" using blocks_tokens_count [of i bs] assms(2) by linarith
qed

lemma annotate_block_of:
  assumes n: "length (bi_blocks i) \<le> MAX_PRIMARY_BLOCKS_V1"
    and bytes: "blocks_bytes i (bi_blocks i) \<le> MAX_PRIMARY_BYTES_SCANNED_V1" and b: "b \<in> set (bi_blocks i)"
    and emitted: "emitted \<le> MAX_EMITTED_SIGNALS_V1"
  shows "annotate_block_step (map (term_facet_id sha256) (pq_terms query)) (map (identifier_facet_id sha256) (pq_identifiers query))
      (pq_identifiers query) AFFINITY_SCALE_V1 (blocks_tokens i (bi_blocks i)) (length (bi_blocks i)) (cands, emitted) (statistic_of query i b) =
    (if emitted + block_signals query i b \<le> MAX_EMITTED_SIGNALS_V1
     then Inr (cands @ [annotation_of sha256 query i b], emitted + block_signals query i b)
     else Inl (StopNeedsMore EmittedSignalCountCap))"
proof -
  define tokens where "tokens = tokens_in (block_events i b)"
  define hits where "hits = filter (\<lambda>t. occurs tokens t) (pq_terms query)"
  have stat: "bs_document_tokens (statistic_of query i b) = length tokens"
    "bs_term_frequencies (statistic_of query i b) = map (occurrences tokens) (pq_terms query)"
    "bs_identifier_matches (statistic_of query i b) = map (\<lambda>identifier. occurs tokens (vi_token identifier)) (pq_identifiers query)"
    "bs_block_id (statistic_of query i b) = eb_id b" "bs_ordered_event_ids (statistic_of query i b) = eb_member_ids b"
    "bs_exact_bytes (statistic_of query i b) = bytes_of (block_events i b)"
    by (simp_all add: statistic_of_def tokens_def Let_def)
  note bounds = block_token_bounds [OF b bytes, folded tokens_def]
  have "0 < length (bi_blocks i)" using b by (cases "bi_blocks i") auto
  then have bm25: "bm25_affinity (occurrences tokens t) (bs_document_tokens (statistic_of query i b)) (blocks_tokens i (bi_blocks i)) (length (bi_blocks i)) =
      Inr (bm25_micros (occurrences tokens t) (length tokens) (blocks_tokens i (bi_blocks i)) (length (bi_blocks i)))"
    if "0 < occurrences tokens t" for t
    unfolding stat using that bounds n occurrences_le [of tokens t] by (intro bm25_affinity_closed) simp_all
  have terms: "rfold (term_affinity_step (map (term_facet_id sha256) (pq_terms query)) (blocks_tokens i (bi_blocks i)) (length (bi_blocks i))
        (statistic_of query i b)) ([], emitted) (enumerate 0 (bs_term_frequencies (statistic_of query i b))) =
      (if emitted + length hits \<le> MAX_EMITTED_SIGNALS_V1
       then Inr (term_affinities_of sha256 query i b, emitted + length hits) else Inl (StopNeedsMore EmittedSignalCountCap))"
    using term_affinity_loop [of "pq_terms query" "occurrences tokens" "statistic_of query i b" "blocks_tokens i (bi_blocks i)"
      "length (bi_blocks i)" "\<lambda>t. bm25_micros (occurrences tokens t) (length tokens) (blocks_tokens i (bi_blocks i)) (length (bi_blocks i))"
      emitted "term_facet_id sha256" "[]", OF bm25 emitted]
    by (simp add: stat hits_def term_affinities_of_def Let_def occurs_def flip: tokens_def)
  have matched: "filter (\<lambda>identifier. occurs tokens (vi_token identifier)) (pq_identifiers query) = matched_identifiers query i b"
    by (simp add: matched_identifiers_def tokens_def)
  note idents = identifier_match_loop [of "emitted + length hits" "identifier_facet_id sha256" "pq_identifiers query" "[]" AFFINITY_SCALE_V1
      "term_affinities_of sha256 query i b" "\<lambda>identifier. occurs tokens (vi_token identifier)", unfolded matched]
  have signals: "block_signals query i b = length hits + 2 * length (matched_identifiers query i b)"
    by (simp add: block_signals_def hits_def tokens_def)
  show ?thesis
  proof (cases "emitted + length hits \<le> MAX_EMITTED_SIGNALS_V1")
    case True
    then show ?thesis
      using terms idents [OF True] signals
      by (simp add: annotate_block_step_def stat annotation_of_def PrimaryBlockCandidateV1_new_def Let_def add.assoc flip: tokens_def)
  next
    case False
    then show ?thesis using terms signals by (simp add: annotate_block_step_def)
  qed
qed

lemma annotate_blocks_loop:
  assumes n: "length (bi_blocks i) \<le> MAX_PRIMARY_BLOCKS_V1"
    and bytes: "blocks_bytes i (bi_blocks i) \<le> MAX_PRIMARY_BYTES_SCANNED_V1" and bs: "set bs \<subseteq> set (bi_blocks i)"
  shows "rfold (annotate_block_step (map (term_facet_id sha256) (pq_terms query)) (map (identifier_facet_id sha256) (pq_identifiers query))
      (pq_identifiers query) AFFINITY_SCALE_V1 (blocks_tokens i (bi_blocks i)) (length (bi_blocks i))) ([], 0) (map (statistic_of query i) bs) =
    (let signals = sum_list (map (block_signals query i) bs) in
     if signals \<le> MAX_EMITTED_SIGNALS_V1 then Inr (map (annotation_of sha256 query i) bs, signals)
     else Inl (StopNeedsMore EmittedSignalCountCap))"
  using bs
proof (induction bs rule: rev_induct)
  case (snoc b bs)
  then have "b \<in> set (bi_blocks i)" by simp
  note step = annotate_block_of [OF n bytes this, of "sum_list (map (block_signals query i) bs)" sha256 query "map (annotation_of sha256 query i) bs"]
  show ?case
    using snoc step by (cases "sum_list (map (block_signals query i) bs) \<le> MAX_EMITTED_SIGNALS_V1") (simp_all add: rfold_append Let_def)
qed simp

section \<open>The decision\<close>

definition lexical_universe :: "(bytes \<Rightarrow> bytes) \<Rightarrow> PreprocessedQueryV1 \<Rightarrow> BlockIndex \<Rightarrow> LexicalCandidateUniverseV1" where
  "lexical_universe sha256 query i =
     \<lparr>lu_retrieval_id = el_retrieval_id (bi_ledger i), lu_question_digest = pq_question_digest query,
      lu_facets = sort_key (\<lambda>f. facet_id (candidate_facet f))
        (map QueryTermFacet (term_facets_of sha256 query i)
         @ map2 (\<lambda>f identifier. QueryIdentifierFacet f (vi_kind identifier)) (identifier_facets_of sha256 query) (pq_identifiers query)),
      lu_primary_blocks = map (annotation_of sha256 query i) (bi_blocks i), lu_scanned_bytes = blocks_bytes i (bi_blocks i),
      lu_scanned_tokens = blocks_tokens i (bi_blocks i),
      lu_emitted_signal_count = sum_list (map (block_signals query i) (bi_blocks i)),
      lu_mandatory_block_count = length (filter (\<lambda>b. matched_identifiers query i b \<noteq> []) (bi_blocks i))\<rparr>"

definition lexical_reference :: "(bytes \<Rightarrow> bytes) \<Rightarrow> PreprocessedQueryV1 \<Rightarrow> BlockIndex \<Rightarrow> CandidateGenerationDecisionV1" where
  "lexical_reference sha256 query i =
     (let universe = lexical_universe sha256 query i in
      if MAX_PRIMARY_BLOCKS_V1 < length (bi_blocks i) then CandidatesNeedMore PrimaryBlockCountCap
      else if MAX_PRIMARY_BYTES_SCANNED_V1 < lu_scanned_bytes universe then CandidatesNeedMore PrimaryBytesScannedCap
      else if list_ex (\<lambda>identifier. MAX_IDENTIFIER_BLOCK_FANOUT_V1 < blocks_with i (bi_blocks i) (vi_token identifier)) (pq_identifiers query)
        then CandidatesNeedMore IdentifierBlockFanoutCap
      else if MAX_MANDATORY_BLOCKS_V1 < lu_mandatory_block_count universe then CandidatesNeedMore MandatoryBlockCountCap
      else if MAX_EMITTED_SIGNALS_V1 < lu_emitted_signal_count universe then CandidatesNeedMore EmittedSignalCountCap
      else CandidatesReady universe)"

lemma mandatory_blocks:
  "length (filter (\<lambda>statistics. list_ex id (bs_identifier_matches statistics)) (map (statistic_of query i) bs)) =
   length (filter (\<lambda>b. matched_identifiers query i b \<noteq> []) bs)"
  by (induction bs) (auto simp: statistic_of_def matched_identifiers_def filter_empty_conv list_ex_iff Let_def)

lemma annotate_statistics_of:
  assumes q: "query_ok query" and n: "length (bi_blocks i) \<le> MAX_PRIMARY_BLOCKS_V1"
    and bytes: "blocks_bytes i (bi_blocks i) \<le> MAX_PRIMARY_BYTES_SCANNED_V1"
  shows "lane_decision (annotate_statistics sha256 query i (lane_of query i (bi_blocks i))) = Inr (lexical_reference sha256 query i)"
proof -
  let ?n = "length (bi_blocks i)" and ?lane = "lane_of query i (bi_blocks i)"
  have "u64_try_from ?n = Some ?n" using n by (simp add: u64_try_from_def MAX_PRIMARY_BLOCKS_V1_def)
  moreover have "rmap (\<lambda>(t, frequency). term_facet sha256 ?n t frequency) (zip (pq_terms query) (ls_document_frequencies ?lane)) =
      Inr (map (\<lambda>(t, frequency). \<lparr>facet_id = term_facet_id sha256 t, facet_kind = QueryTerm, facet_weight = idf_micros ?n frequency\<rparr>)
        (zip (pq_terms query) (ls_document_frequencies ?lane)))"
    using term_facet_closed [OF q] n blocks_with_le [of i "bi_blocks i"]
    by (intro rmap_map) (auto simp: lane_of_def set_zip)
  then have "rmap (\<lambda>(t, frequency). term_facet sha256 ?n t frequency) (zip (pq_terms query) (ls_document_frequencies ?lane)) =
      Inr (term_facets_of sha256 query i)"
    by (simp add: term_facets_of_def lane_of_def zip_map2 zip_same_conv_map comp_def)
  moreover have "rmap (identifier_facet sha256 AFFINITY_SCALE_V1) (pq_identifiers query) = Inr (identifier_facets_of sha256 query)"
    unfolding identifier_facets_of_def using identifier_facet_closed [OF q] by (rule rmap_map)
  moreover have "FacetWeightV1_new AFFINITY_SCALE_V1 = Inr AFFINITY_SCALE_V1" "AffinityV1_new AFFINITY_SCALE_V1 = Inr AFFINITY_SCALE_V1"
    by (simp_all add: FacetWeightV1_new_def AffinityV1_new_def AFFINITY_SCALE_V1_def)
  moreover have "map facet_id (term_facets_of sha256 query i) = map (term_facet_id sha256) (pq_terms query)"
    "map facet_id (identifier_facets_of sha256 query) = map (identifier_facet_id sha256) (pq_identifiers query)"
    by (simp_all add: term_facets_of_def identifier_facets_of_def)
  moreover have "rfold (annotate_block_step (map (term_facet_id sha256) (pq_terms query)) (map (identifier_facet_id sha256) (pq_identifiers query))
      (pq_identifiers query) AFFINITY_SCALE_V1 (ls_scanned_tokens ?lane) ?n) ([], 0) (ls_statistics ?lane) =
    (let signals = sum_list (map (block_signals query i) (bi_blocks i)) in
     if signals \<le> MAX_EMITTED_SIGNALS_V1 then Inr (map (annotation_of sha256 query i) (bi_blocks i), signals)
     else Inl (StopNeedsMore EmittedSignalCountCap))"
    using annotate_blocks_loop [OF n bytes order_refl, of sha256 query] by (simp add: lane_of_def)
  moreover have "length (ls_statistics ?lane) = ?n" "ls_scanned_bytes ?lane = blocks_bytes i (bi_blocks i)"
    "ls_scanned_tokens ?lane = blocks_tokens i (bi_blocks i)" by (simp_all add: lane_of_def)
  moreover have "length (filter (\<lambda>statistics. list_ex id (bs_identifier_matches statistics)) (ls_statistics ?lane)) =
      length (filter (\<lambda>b. matched_identifiers query i b \<noteq> []) (bi_blocks i))"
    using mandatory_blocks [of query i "bi_blocks i"] by (simp add: lane_of_def)
  moreover have "list_ex (\<lambda>fanout. fanout > MAX_IDENTIFIER_BLOCK_FANOUT_V1) (ls_identifier_fanout ?lane) =
      list_ex (\<lambda>identifier. MAX_IDENTIFIER_BLOCK_FANOUT_V1 < blocks_with i (bi_blocks i) (vi_token identifier)) (pq_identifiers query)"
    by (simp add: lane_of_def list_ex_iff)
  ultimately show ?thesis
    using n bytes by (simp add: annotate_statistics_def lexical_reference_def lexical_universe_def Let_def)
qed

lemma annotate_reference:
  assumes q: "query_ok query" and i: "block_index_ok i" and fits: "fits (el_events (bi_ledger i))"
  shows "annotate_preprocessed_query_v1 sha256 query i = Inr (lexical_reference sha256 query i)"
proof (cases "MAX_PRIMARY_BLOCKS_V1 < length (bi_blocks i)")
  case True
  then show ?thesis by (simp add: annotate_preprocessed_query_v1_def lexical_reference_def Let_def)
next
  case False
  have "length (bi_blocks i) \<le> u64_max" using False by (simp add: MAX_PRIMARY_BLOCKS_V1_def)
  note scan = block_scan_loop [OF q i fits order_refl this]
  have initial: "\<lparr>ls_statistics = [], ls_scanned_bytes = 0, ls_scanned_tokens = 0,
      ls_document_frequencies = replicate (length (pq_terms query)) 0,
      ls_identifier_fanout = replicate (length (pq_identifiers query)) 0\<rparr> = lane_of query i []"
    by (simp add: lane_of_def blocks_bytes_def blocks_tokens_def blocks_with_def [of i "[]", abs_def] map_replicate_const)
  show ?thesis
  proof (cases "blocks_bytes i (bi_blocks i) \<le> MAX_PRIMARY_BYTES_SCANNED_V1")
    case True
    then show ?thesis
      using False annotate_statistics_of [OF q _ True, of sha256] by (simp add: annotate_preprocessed_query_v1_def initial scan)
  next
    case over: False
    then show ?thesis
      using False by (simp add: annotate_preprocessed_query_v1_def initial scan lexical_reference_def lexical_universe_def Let_def)
  qed
qed

end
