(* ===== verification/Candidate_Properties.thy ===== *)
theory Candidate_Properties
  imports Lexical_Decision Framing_Properties
begin

text \<open>
  Properties of the lexical candidate lane: question preprocessing against its reference, and the
  lane on a reconciled block index.
\<close>

section \<open>Preprocessing\<close>

text \<open>
  C12.  Question preprocessing computes its reference: the two bounded scans with their early stops
  decide exactly the caps on bytes, token length, token count, identifiers and terms, in that order,
  and an accepted question yields strictly sorted lower-case terms and identifiers of a unique kind,
  without overlap and within the caps.
\<close>

theorem preprocess_query_matches_reference:
  "preprocess_query_v1 sha256 question = preprocess_reference sha256 question
   \<and> (case preprocess_query_v1 sha256 question of Inl _ \<Rightarrow> True | Inr query \<Rightarrow> query_ok query)"
  using preprocess_query_reference [of sha256 question] preprocess_query_ok [of sha256 question]
  by (simp split: sum.splits)

text \<open>
  The documentation says that the case of a token does not affect the canonical terms.  It does: a
  UUID whose variant digit is an upper-case \<open>A\<close> or \<open>B\<close> is not recognized while the compound is
  split, so that its hyphen components become terms beside the identifier.
\<close>

theorem question_case_changes_terms:
  "map_err (\<lambda>_. ()) (rbind (preprocess_query_v1 sha256 ''550e8400-e29b-41d4-a716-446655440000'')
      (\<lambda>query. Inr (pq_terms query, map vi_token (pq_identifiers query)))) =
     Inr ([], [''550e8400-e29b-41d4-a716-446655440000''])
   \<and> map_err (\<lambda>_. ()) (rbind (preprocess_query_v1 sha256 ''550e8400-e29b-41d4-A716-446655440000'')
      (\<lambda>query. Inr (pq_terms query, map vi_token (pq_identifiers query)))) =
     Inr ([''41d4'', ''446655440000'', ''550e8400'', ''a716'', ''e29b''], [''550e8400-e29b-41d4-a716-446655440000''])"
  by code_simp

section \<open>The lexical lane\<close>

lemma universe_members:
  "map pc_ordered_event_ids (lu_primary_blocks (lexical_universe sha256 query i)) = map eb_member_ids (bi_blocks i)"
  "map pc_packet_id (lu_primary_blocks (lexical_universe sha256 query i)) = map eb_id (bi_blocks i)"
  by (simp_all add: lexical_universe_def annotation_of_def)

lemma universe_facets:
  "(\<lambda>f. facet_id (candidate_facet f)) ` set (lu_facets (lexical_universe sha256 query i)) =
     term_facet_id sha256 ` set (pq_terms query) \<union> identifier_facet_id sha256 ` set (pq_identifiers query)"
proof -
  have "map (\<lambda>f. facet_id (candidate_facet f)) (map QueryTermFacet (term_facets_of sha256 query i)
      @ map2 (\<lambda>f identifier. QueryIdentifierFacet f (vi_kind identifier)) (identifier_facets_of sha256 query) (pq_identifiers query)) =
    map (term_facet_id sha256) (pq_terms query) @ map (identifier_facet_id sha256) (pq_identifiers query)"
    by (simp add: term_facets_of_def identifier_facets_of_def zip_map1 zip_same_conv_map comp_def)
  then have "(\<lambda>f. facet_id (candidate_facet f)) ` set (map QueryTermFacet (term_facets_of sha256 query i)
      @ map2 (\<lambda>f identifier. QueryIdentifierFacet f (vi_kind identifier)) (identifier_facets_of sha256 query) (pq_identifiers query)) =
    set (map (term_facet_id sha256) (pq_terms query) @ map (identifier_facet_id sha256) (pq_identifiers query))"
    by (metis list.set_map)
  then show ?thesis by (simp add: lexical_universe_def)
qed

text \<open>An affinity of a block is in range and names a facet of the universe.\<close>

lemma annotation_affinities:
  assumes b: "b \<in> set (bi_blocks i)" and n: "length (bi_blocks i) \<le> MAX_PRIMARY_BLOCKS_V1"
    and bytes: "blocks_bytes i (bi_blocks i) \<le> MAX_PRIMARY_BYTES_SCANNED_V1"
    and a: "a \<in> set (pc_affinities (annotation_of sha256 query i b))"
  shows "0 < affinity_micros a \<and> affinity_micros a \<le> AFFINITY_SCALE_V1
    \<and> affinity_facet a \<in> term_facet_id sha256 ` set (pq_terms query) \<union> identifier_facet_id sha256 ` set (pq_identifiers query)"
proof -
  let ?tokens = "tokens_in (block_events i b)"
  consider (lexical) t where "t \<in> set (pq_terms query)" and "occurs ?tokens t" and "a = \<lparr>affinity_facet = term_facet_id sha256 t,
        affinity_micros = bm25_micros (occurrences ?tokens t) (length ?tokens) (blocks_tokens i (bi_blocks i)) (length (bi_blocks i))\<rparr>"
    | (forced) x where "x \<in> set (pq_identifiers query)"
        and "a = \<lparr>affinity_facet = identifier_facet_id sha256 x, affinity_micros = AFFINITY_SCALE_V1\<rparr>"
    using a by (auto simp: annotation_of_def term_affinities_of_def matched_identifiers_def Let_def)
  then show ?thesis
  proof cases
    case lexical
    have "0 < bm25_micros (occurrences ?tokens t) (length ?tokens) (blocks_tokens i (bi_blocks i)) (length (bi_blocks i))
        \<and> bm25_micros (occurrences ?tokens t) (length ?tokens) (blocks_tokens i (bi_blocks i)) (length (bi_blocks i)) \<le> AFFINITY_SCALE_V1"
      using lexical(2) block_token_bounds(1) [OF b bytes] occurrences_le [of ?tokens t] n
      by (intro bm25_micros_range) (simp_all add: occurs_def)
    then show ?thesis using lexical by simp
  next
    case forced
    then show ?thesis by (simp add: AFFINITY_SCALE_V1_def)
  qed
qed

text \<open>A block is mandatory exactly when it contains an identifier of the query as a token.\<close>

lemma annotation_mandatory:
  "pc_mandatory_reasons (annotation_of sha256 query i b) \<noteq> [] \<longleftrightarrow>
     (\<exists>identifier \<in> set (pq_identifiers query). \<exists>token \<in> set (tokens_in (block_events i b)). canonicalize_ascii token = vi_token identifier)"
proof -
  have "mset (sort_key mi_facet_id xs) = {#} \<longleftrightarrow> xs = []" for xs :: "MandatoryIdentifierReasonV1 list" by simp
  then have "pc_mandatory_reasons (annotation_of sha256 query i b) \<noteq> [] \<longleftrightarrow> matched_identifiers query i b \<noteq> []"
    by (simp add: annotation_of_def flip: mset_zero_iff)
  also have "\<dots> \<longleftrightarrow> (\<exists>identifier \<in> set (pq_identifiers query). occurs (tokens_in (block_events i b)) (vi_token identifier))"
    by (auto simp: matched_identifiers_def filter_empty_conv)
  finally show ?thesis by (auto simp: occurs_def occurrences_def filter_empty_conv)
qed

text \<open>
  C32.  On the reconciled blocks of a sealed ledger the lexical lane always returns a decision, and it
  is the reference decision: a question or a block universe over a cap asks for more with the first
  exceeded cap, and every other input yields the universe in which each block keeps its members and
  identity, each affinity is in range and names a declared facet, and a block is mandatory exactly
  when it contains a validated identifier as a whole token.  No counter overflows and no error or
  panic of the lane is reachable.
\<close>

theorem lexical_lane_matches_reference:
  assumes "reachable sha256 policy b" and "seal sha256 b completion = Inr l" and "fits (el_events l)"
    and "\<forall>a \<in> set as. proposed a" and "BlockIndex_reconcile sha256 l as = Inr i"
  shows "generate_lexical_candidates_v1 sha256 question i =
      Inr (case preprocess_reference sha256 question of
             Inl reason \<Rightarrow> CandidatesNeedMore reason
           | Inr query \<Rightarrow> lexical_reference sha256 query i)
    \<and> (\<forall>query u. preprocess_reference sha256 question = Inr query \<and> lexical_reference sha256 query i = CandidatesReady u \<longrightarrow>
        map pc_packet_id (lu_primary_blocks u) = map eb_id (bi_blocks i)
      \<and> map pc_ordered_event_ids (lu_primary_blocks u) = map eb_member_ids (bi_blocks i)
      \<and> (\<forall>c \<in> set (lu_primary_blocks u). \<forall>a \<in> set (pc_affinities c). 0 < affinity_micros a \<and> affinity_micros a \<le> AFFINITY_SCALE_V1
           \<and> affinity_facet a \<in> (\<lambda>f. facet_id (candidate_facet f)) ` set (lu_facets u))
      \<and> (\<forall>k < length (bi_blocks i). pc_mandatory_reasons (lu_primary_blocks u ! k) \<noteq> [] \<longleftrightarrow>
           (\<exists>identifier \<in> set (pq_identifiers query). \<exists>token \<in> set (tokens_in (block_events i (bi_blocks i ! k))).
              canonicalize_ascii token = vi_token identifier)))"
proof (intro conjI allI impI)
  note index = reconcile_index_ok [OF sealed_ok [OF assms(1,2)] proposed_shape [OF assms(4)] assms(5)]
  show "generate_lexical_candidates_v1 sha256 question i = Inr (case preprocess_reference sha256 question of
      Inl reason \<Rightarrow> CandidatesNeedMore reason | Inr query \<Rightarrow> lexical_reference sha256 query i)"
    using annotate_reference [OF _ index(1), of _ sha256] index(2) assms(3) preprocess_query_ok [of sha256 question]
    by (auto simp: generate_lexical_candidates_v1_def preprocess_query_reference split: sum.splits)
next
  fix query u
  assume "preprocess_reference sha256 question = Inr query \<and> lexical_reference sha256 query i = CandidatesReady u"
  then have u: "u = lexical_universe sha256 query i" and n: "length (bi_blocks i) \<le> MAX_PRIMARY_BLOCKS_V1"
    and bytes: "blocks_bytes i (bi_blocks i) \<le> MAX_PRIMARY_BYTES_SCANNED_V1"
    by (auto simp: lexical_reference_def lexical_universe_def Let_def split: if_splits)
  show "map pc_packet_id (lu_primary_blocks u) = map eb_id (bi_blocks i)"
    and "map pc_ordered_event_ids (lu_primary_blocks u) = map eb_member_ids (bi_blocks i)"
    unfolding u by (simp_all only: universe_members)
  have blocks: "lu_primary_blocks u = map (annotation_of sha256 query i) (bi_blocks i)" by (simp add: u lexical_universe_def)
  show "\<forall>c \<in> set (lu_primary_blocks u). \<forall>a \<in> set (pc_affinities c). 0 < affinity_micros a \<and> affinity_micros a \<le> AFFINITY_SCALE_V1
      \<and> affinity_facet a \<in> (\<lambda>f. facet_id (candidate_facet f)) ` set (lu_facets u)"
    unfolding u universe_facets using annotation_affinities [OF _ n bytes] by (simp add: lexical_universe_def)
  show "pc_mandatory_reasons (lu_primary_blocks u ! k) \<noteq> [] \<longleftrightarrow>
      (\<exists>identifier \<in> set (pq_identifiers query). \<exists>token \<in> set (tokens_in (block_events i (bi_blocks i ! k))).
         canonicalize_ascii token = vi_token identifier)" if "k < length (bi_blocks i)" for k
    using that annotation_mandatory by (simp add: blocks)
qed

theorem lexical_lane_matches_reference_witness:
  "\<exists>l i query. BlockIndex_reconcile sample_sha256 l
        [assignment (ev_lane (hd (el_events l))) (el_events l) source_lane_framing_policy_v1 FallbackSingleton Certain] = Inr i
     \<and> preprocess_reference sample_sha256 ''is it ok?'' = Inr query \<and> pq_terms query = [''ok'']
     \<and> generate_lexical_candidates_v1 sample_sha256 ''is it ok?'' i = Inr (lexical_reference sample_sha256 query i)"
proof -
  obtain b l e where s: "reachable sample_sha256 (\<lambda>_. AuthorizeSourceExact) b" "seal sample_sha256 b (sample_completion b) = Inr l"
    "el_events l = [e]" "ev_raw e = ''ok'' @ [CHR 0x0A]" by (rule sample_sealed)
  let ?a = "assignment (ev_lane e) [e] source_lane_framing_policy_v1 FallbackSingleton Certain"
  obtain i where i: "BlockIndex_reconcile sample_sha256 l [?a] = Inr i" using sample_reconciled [OF s(1-3)] by blast
  have "\<forall>a \<in> set [?a]. proposed a" and "fits (el_events l)" using sample_proposed s(3,4) by (simp_all add: fits_def)
  note decision = lexical_lane_matches_reference [OF s(1,2) this(2,1) i, of "''is it ok?''"]
  have "rbind (preprocess_reference sample_sha256 ''is it ok?'') (\<lambda>query. Inr (pq_terms query)) = Inr [''ok'']" by code_simp
  then obtain query where query: "preprocess_reference sample_sha256 ''is it ok?'' = Inr query" "pq_terms query = [''ok'']"
    by (auto simp: rbind_Inr)
  show ?thesis
    using i query conjunct1 [OF decision] s(3) by (intro exI [of _ l] exI [of _ i] exI [of _ query]) simp
qed

end
