(* ===== verification/Coverage_Types.thy ===== *)
theory Coverage_Types
  imports Lexical
begin

text \<open>
  The vocabulary of the failure and coverage lane (\<open>evidentrail-candidates/src/coverage_types.rs\<close>): closed
  signal, boundary, stratum and risk kinds with their codes and derived orders, facet roles and the
  annotations that the lane returns.
\<close>

section \<open>Kinds\<close>

datatype FailureSignalKindV1 =
    Signal_Error | Signal_Fatal | Signal_Critical | Signal_Panic | Signal_Exception | Signal_Assertion | Signal_CompilerError | Signal_Crash | Signal_Failure

fun failure_code :: "FailureSignalKindV1 \<Rightarrow> bytes" where
  "failure_code Signal_Error = ''error''"
| "failure_code Signal_Fatal = ''fatal''"
| "failure_code Signal_Critical = ''critical''"
| "failure_code Signal_Panic = ''panic''"
| "failure_code Signal_Exception = ''exception''"
| "failure_code Signal_Assertion = ''assertion''"
| "failure_code Signal_CompilerError = ''compiler_error''"
| "failure_code Signal_Crash = ''crash''"
| "failure_code Signal_Failure = ''failure''"

text \<open>The derived order of a kind is its declaration order.\<close>

fun failure_rank :: "FailureSignalKindV1 \<Rightarrow> nat" where
  "failure_rank Signal_Error = 0"
| "failure_rank Signal_Fatal = 1"
| "failure_rank Signal_Critical = 2"
| "failure_rank Signal_Panic = 3"
| "failure_rank Signal_Exception = 4"
| "failure_rank Signal_Assertion = 5"
| "failure_rank Signal_CompilerError = 6"
| "failure_rank Signal_Crash = 7"
| "failure_rank Signal_Failure = 8"

lemma failure_rank_inj: "failure_rank a = failure_rank b \<Longrightarrow> a = b"
  by (cases a; cases b) simp_all

instantiation FailureSignalKindV1 :: linorder
begin

definition less_eq_FailureSignalKindV1 where "(a :: FailureSignalKindV1) \<le> b \<longleftrightarrow> failure_rank a \<le> failure_rank b"

definition less_FailureSignalKindV1 where "(a :: FailureSignalKindV1) < b \<longleftrightarrow> failure_rank a < failure_rank b"

instance
  by standard (auto simp: less_eq_FailureSignalKindV1_def less_FailureSignalKindV1_def intro: failure_rank_inj)

end

datatype OnsetSignalKindV1 =
    Onset_Deployment | Onset_Restart | Onset_Migration | Onset_ConfigurationChange | Onset_FeatureFlagChange

fun onset_code :: "OnsetSignalKindV1 \<Rightarrow> bytes" where
  "onset_code Onset_Deployment = ''deployment''"
| "onset_code Onset_Restart = ''restart''"
| "onset_code Onset_Migration = ''migration''"
| "onset_code Onset_ConfigurationChange = ''configuration_change''"
| "onset_code Onset_FeatureFlagChange = ''feature_flag_change''"

fun onset_rank :: "OnsetSignalKindV1 \<Rightarrow> nat" where
  "onset_rank Onset_Deployment = 0"
| "onset_rank Onset_Restart = 1"
| "onset_rank Onset_Migration = 2"
| "onset_rank Onset_ConfigurationChange = 3"
| "onset_rank Onset_FeatureFlagChange = 4"

lemma onset_rank_inj: "onset_rank a = onset_rank b \<Longrightarrow> a = b"
  by (cases a; cases b) simp_all

instantiation OnsetSignalKindV1 :: linorder
begin

definition less_eq_OnsetSignalKindV1 where "(a :: OnsetSignalKindV1) \<le> b \<longleftrightarrow> onset_rank a \<le> onset_rank b"

definition less_OnsetSignalKindV1 where "(a :: OnsetSignalKindV1) < b \<longleftrightarrow> onset_rank a < onset_rank b"

instance
  by standard (auto simp: less_eq_OnsetSignalKindV1_def less_OnsetSignalKindV1_def intro: onset_rank_inj)

end

datatype OnsetBoundaryRoleV1 =
    FirstFailureInLane | LastAvailableBeforeFirstFailure | FirstExplicitOnsetInLane | LastAvailableBeforeFirstExplicitOnset

fun boundary_code :: "OnsetBoundaryRoleV1 \<Rightarrow> bytes" where
  "boundary_code FirstFailureInLane = ''first_failure_in_lane''"
| "boundary_code LastAvailableBeforeFirstFailure = ''last_available_before_first_failure''"
| "boundary_code FirstExplicitOnsetInLane = ''first_explicit_onset_in_lane''"
| "boundary_code LastAvailableBeforeFirstExplicitOnset = ''last_available_before_first_explicit_onset''"

fun boundary_rank :: "OnsetBoundaryRoleV1 \<Rightarrow> nat" where
  "boundary_rank FirstFailureInLane = 0"
| "boundary_rank LastAvailableBeforeFirstFailure = 1"
| "boundary_rank FirstExplicitOnsetInLane = 2"
| "boundary_rank LastAvailableBeforeFirstExplicitOnset = 3"

lemma boundary_rank_inj: "boundary_rank a = boundary_rank b \<Longrightarrow> a = b"
  by (cases a; cases b) simp_all

instantiation OnsetBoundaryRoleV1 :: linorder
begin

definition less_eq_OnsetBoundaryRoleV1 where "(a :: OnsetBoundaryRoleV1) \<le> b \<longleftrightarrow> boundary_rank a \<le> boundary_rank b"

definition less_OnsetBoundaryRoleV1 where "(a :: OnsetBoundaryRoleV1) < b \<longleftrightarrow> boundary_rank a < boundary_rank b"

instance
  by standard (auto simp: less_eq_OnsetBoundaryRoleV1_def less_OnsetBoundaryRoleV1_def intro: boundary_rank_inj)

end

datatype SourceCoverageStratumKindV1 =
    RetrievalHead | RetrievalTail | SourceStreamHead | SourceStreamTail

fun stratum_code :: "SourceCoverageStratumKindV1 \<Rightarrow> bytes" where
  "stratum_code RetrievalHead = ''retrieval_head''"
| "stratum_code RetrievalTail = ''retrieval_tail''"
| "stratum_code SourceStreamHead = ''source_stream_head''"
| "stratum_code SourceStreamTail = ''source_stream_tail''"

fun stratum_rank :: "SourceCoverageStratumKindV1 \<Rightarrow> nat" where
  "stratum_rank RetrievalHead = 0"
| "stratum_rank RetrievalTail = 1"
| "stratum_rank SourceStreamHead = 2"
| "stratum_rank SourceStreamTail = 3"

lemma stratum_rank_inj: "stratum_rank a = stratum_rank b \<Longrightarrow> a = b"
  by (cases a; cases b) simp_all

instantiation SourceCoverageStratumKindV1 :: linorder
begin

definition less_eq_SourceCoverageStratumKindV1 where "(a :: SourceCoverageStratumKindV1) \<le> b \<longleftrightarrow> stratum_rank a \<le> stratum_rank b"

definition less_SourceCoverageStratumKindV1 where "(a :: SourceCoverageStratumKindV1) < b \<longleftrightarrow> stratum_rank a < stratum_rank b"

instance
  by standard (auto simp: less_eq_SourceCoverageStratumKindV1_def less_SourceCoverageStratumKindV1_def intro: stratum_rank_inj)

end

datatype ReconstructionRiskKindV1 =
    Risk_MediumConfidence | Risk_LowConfidence | Risk_UnknownConfidence | Risk_AmbiguousBoundary | Risk_FallbackSingleton | Risk_Fragment

fun risk_code :: "ReconstructionRiskKindV1 \<Rightarrow> bytes" where
  "risk_code Risk_MediumConfidence = ''medium_confidence''"
| "risk_code Risk_LowConfidence = ''low_confidence''"
| "risk_code Risk_UnknownConfidence = ''unknown_confidence''"
| "risk_code Risk_AmbiguousBoundary = ''ambiguous_boundary''"
| "risk_code Risk_FallbackSingleton = ''fallback_singleton''"
| "risk_code Risk_Fragment = ''fragment''"

fun risk_rank :: "ReconstructionRiskKindV1 \<Rightarrow> nat" where
  "risk_rank Risk_MediumConfidence = 0"
| "risk_rank Risk_LowConfidence = 1"
| "risk_rank Risk_UnknownConfidence = 2"
| "risk_rank Risk_AmbiguousBoundary = 3"
| "risk_rank Risk_FallbackSingleton = 4"
| "risk_rank Risk_Fragment = 5"

lemma risk_rank_inj: "risk_rank a = risk_rank b \<Longrightarrow> a = b"
  by (cases a; cases b) simp_all

instantiation ReconstructionRiskKindV1 :: linorder
begin

definition less_eq_ReconstructionRiskKindV1 where "(a :: ReconstructionRiskKindV1) \<le> b \<longleftrightarrow> risk_rank a \<le> risk_rank b"

definition less_ReconstructionRiskKindV1 where "(a :: ReconstructionRiskKindV1) < b \<longleftrightarrow> risk_rank a < risk_rank b"

instance
  by standard (auto simp: less_eq_ReconstructionRiskKindV1_def less_ReconstructionRiskKindV1_def intro: risk_rank_inj)

end

datatype CoverageSentinelKindV1 =
    SourceSentinel SourceCoverageStratumKindV1 | StratumSentinel nat nat | RiskSentinel ReconstructionRiskKindV1

text \<open>The derived order: the variant first, then its fields.\<close>

fun sentinel_rank :: "CoverageSentinelKindV1 \<Rightarrow> nat \<times> nat \<times> nat" where
  "sentinel_rank (SourceSentinel kind) = (0, stratum_rank kind, 0)"
| "sentinel_rank (StratumSentinel index strata) = (1, index, strata)"
| "sentinel_rank (RiskSentinel kind) = (2, risk_rank kind, 0)"

lemma sentinel_rank_inj: "sentinel_rank a = sentinel_rank b \<Longrightarrow> a = b"
  by (cases a; cases b) (auto intro: stratum_rank_inj risk_rank_inj)

instantiation CoverageSentinelKindV1 :: linorder
begin

definition less_eq_CoverageSentinelKindV1 where
  "(a :: CoverageSentinelKindV1) \<le> b \<longleftrightarrow> sentinel_rank a \<le> sentinel_rank b"

definition less_CoverageSentinelKindV1 where
  "(a :: CoverageSentinelKindV1) < b \<longleftrightarrow> sentinel_rank a < sentinel_rank b"

instance
  by standard (auto simp: less_eq_CoverageSentinelKindV1_def less_CoverageSentinelKindV1_def intro: sentinel_rank_inj)

end

datatype CoverageFacetRoleV1 =
    FailureFacet FailureSignalKindV1 | ExplicitOnsetFacet OnsetSignalKindV1 | OnsetBoundaryFacet OnsetBoundaryRoleV1
  | SourceFacet SourceCoverageStratumKindV1 | AcquisitionOrderStratumFacet nat nat
  | ReconstructionRiskFacet ReconstructionRiskKindV1

section \<open>Annotations\<close>

definition BREADTH_COVERAGE_FACET_WEIGHT_DENOMINATOR_V1 :: nat where "BREADTH_COVERAGE_FACET_WEIGHT_DENOMINATOR_V1 = 4"

record FailureBlockFactV1 =
  ff_signals :: "(FailureSignalKindV1 \<times> nat) list"
  ff_signal_occurrence_count :: nat
  ff_failure_block_ordinal_in_lane :: nat
  ff_failure_block_count_in_lane :: nat

text \<open>\<open>OnsetBoundaryFactV1\<close>: the role and the boundary block, ordered in this order.\<close>

type_synonym OnsetBoundaryFactV1 = "OnsetBoundaryRoleV1 \<times> BlockId"

record CoverageSentinelV1 =
  sn_kind :: CoverageSentinelKindV1
  sn_facet_id :: FacetIdV1

record CoverageFacetV1 =
  cf_facet :: ProductionFacetV1
  cf_role :: CoverageFacetRoleV1

record CoverageBlockAnnotationV1 =
  cba_block_id :: BlockId
  cba_failure :: "FailureBlockFactV1 option"
  cba_onset_signals :: "(OnsetSignalKindV1 \<times> nat) list"
  cba_onset_boundaries :: "OnsetBoundaryFactV1 list"
  cba_reconstruction_risks :: "ReconstructionRiskKindV1 list"
  cba_sentinels :: "CoverageSentinelV1 list"
  cba_affinities :: "FacetAffinityV1 list"

record CoverageAccountingV1 =
  acc_scanned_bytes :: nat
  acc_scanned_analysis_tokens :: nat
  acc_failure_signal_observations :: nat
  acc_onset_signal_observations :: nat
  acc_reconstruction_risk_fact_count :: nat
  acc_reconstruction_risk_representative_count :: nat
  acc_source_lane_count :: nat
  acc_emitted_facet_count :: nat
  acc_emitted_affinity_count :: nat
  acc_emitted_sentinel_count :: nat

record CoverageCandidateUniverseV1 =
  cu_retrieval_id :: RetrievalId
  cu_facets :: "CoverageFacetV1 list"
  cu_annotations :: "CoverageBlockAnnotationV1 list"
  cu_accounting :: CoverageAccountingV1

datatype CoverageGenerationDecisionV1 =
  CoverageReady CoverageCandidateUniverseV1 | CoverageNeedsMore CandidateNeedsMoreReasonV1

end
