(* ===== verification/Coverage.thy ===== *)
theory Coverage
  imports Coverage_Types
begin

text \<open>
  The failure and coverage lane (\<open>evidentrail-candidates/src/coverage.rs\<close>): the token scan for failure
  and onset signals, the emitter with its output caps, and the four annotation passes over the
  blocks.  A mutable slice is passed and returned; an index out of range is \<open>CandidatePanic\<close>.
\<close>

section \<open>Bounds\<close>

definition MAX_COVERAGE_ANALYSIS_TOKENS_V1 :: nat where "MAX_COVERAGE_ANALYSIS_TOKENS_V1 = 8 * 1024 * 1024"
definition MAX_COVERAGE_SIGNAL_OBSERVATIONS_V1 :: nat where "MAX_COVERAGE_SIGNAL_OBSERVATIONS_V1 = 65536"
definition MAX_COVERAGE_SOURCE_LANES_V1 :: nat where "MAX_COVERAGE_SOURCE_LANES_V1 = 1024"
definition MAX_TIME_COVERAGE_STRATA_V1 :: nat where "MAX_TIME_COVERAGE_STRATA_V1 = 8"
definition MAX_RECONSTRUCTION_RISK_REPRESENTATIVES_PER_KIND_V1 :: nat where
  "MAX_RECONSTRUCTION_RISK_REPRESENTATIVES_PER_KIND_V1 = 5"
definition MAX_COVERAGE_OUTPUT_FACETS_V1 :: nat where "MAX_COVERAGE_OUTPUT_FACETS_V1 = 4096"
definition MAX_COVERAGE_OUTPUT_AFFINITIES_V1 :: nat where "MAX_COVERAGE_OUTPUT_AFFINITIES_V1 = 32768"
definition MAX_COVERAGE_OUTPUT_SENTINELS_V1 :: nat where "MAX_COVERAGE_OUTPUT_SENTINELS_V1 = 8192"

datatype GenerationFailure = GenerationNeedsMore CandidateNeedsMoreReasonV1 | GenerationBuild CandidateBuildErrorV1

section \<open>Checked counters\<close>

definition checked_add_u32 :: "nat \<Rightarrow> nat \<Rightarrow> nat option" where
  "checked_add_u32 a b = u32_try_from (a + b)"

definition u8_try_from :: "nat \<Rightarrow> nat option" where
  "u8_try_from n = (if n \<le> 255 then Some n else None)"

definition checked_div :: "nat \<Rightarrow> nat \<Rightarrow> nat option" where
  "checked_div a b = (if b = 0 then None else Some (a div b))"

definition checked_signal_observation_increment :: "nat \<Rightarrow> nat \<Rightarrow> (CandidateNeedsMoreReasonV1, nat) result" where
  "checked_signal_observation_increment current_family other_family =
     rbind (ok_or ArithmeticCapacity (checked_add_u64 current_family other_family)) (\<lambda>current_total.
     if current_total \<ge> MAX_COVERAGE_SIGNAL_OBSERVATIONS_V1 then Inl CoverageSignalObservationCap
     else ok_or ArithmeticCapacity (checked_add_u64 current_family 1))"

definition checked_bounded_increment ::
  "nat \<Rightarrow> nat \<Rightarrow> CandidateNeedsMoreReasonV1 \<Rightarrow> (CandidateNeedsMoreReasonV1, nat) result" where
  "checked_bounded_increment current maximum cap_reason =
     rbind (ok_or ArithmeticCapacity (checked_add_u64 current 1)) (\<lambda>next_count.
     if next_count > maximum then Inl cap_reason else Inr next_count)"

definition increment_signal_count :: "('k::linorder, nat) btree_map \<Rightarrow> 'k \<Rightarrow> (unit, ('k, nat) btree_map) result" where
  "increment_signal_count counts kind =
     (let current = (case map_of counts kind of None \<Rightarrow> 0 | Some n \<Rightarrow> n) in
      rbind (ok_or () (checked_add_u32 current 1)) (\<lambda>next_count. Inr (bt_insert kind next_count counts)))"

section \<open>Token grammars\<close>

definition ascii_eq :: "bytes \<Rightarrow> bytes \<Rightarrow> bool" where
  "ascii_eq left right_lowercase \<longleftrightarrow> length left = length right_lowercase
     \<and> list_all (\<lambda>(l, r). to_ascii_lowercase l = r) (zip left right_lowercase)"

definition is_exception_class_token :: "bytes \<Rightarrow> bool" where
  "is_exception_class_token token =
     (if ends_with token ''Exception'' \<or> ends_with token ''Error'' then
        let suffix = (if ends_with token ''Exception'' then ''Exception'' else ''Error'');
            head = take (length token - length suffix) token in
        length suffix \<le> length token \<and> head \<noteq> [] \<and> list_all (\<lambda>b. is_ascii_alphanumeric b \<or> b = CHR ''_'') head
          \<and> list_ex is_ascii_upper head
      else False)"

definition is_rust_compiler_error_code :: "bytes \<Rightarrow> bool" where
  "is_rust_compiler_error_code token \<longleftrightarrow> length token = 5 \<and> (token ! 0 = CHR ''E'' \<or> token ! 0 = CHR ''e'')
     \<and> list_all is_ascii_digit (drop 1 token) \<and> drop 1 token \<noteq> ''0000''"

definition classify_failure_signal :: "bytes \<Rightarrow> FailureSignalKindV1 option" where
  "classify_failure_signal token =
     (if ascii_eq token ''error'' then Some Signal_Error
      else if ascii_eq token ''fatal'' then Some Signal_Fatal
      else if ascii_eq token ''critical'' then Some Signal_Critical
      else if ascii_eq token ''panic'' \<or> ascii_eq token ''panicked'' \<or> ascii_eq token ''panicking'' then Some Signal_Panic
      else if ascii_eq token ''assert'' \<or> ascii_eq token ''assertion'' \<or> ascii_eq token ''assertionerror''
      then Some Signal_Assertion
      else if ascii_eq token ''exception'' \<or> is_exception_class_token token then Some Signal_Exception
      else if is_rust_compiler_error_code token then Some Signal_CompilerError
      else if ascii_eq token ''crash'' \<or> ascii_eq token ''crashed'' \<or> ascii_eq token ''crashing'' then Some Signal_Crash
      else if ascii_eq token ''fail'' \<or> ascii_eq token ''failed'' \<or> ascii_eq token ''failure'' then Some Signal_Failure
      else None)"

definition classify_onset_signal :: "bytes \<Rightarrow> OnsetSignalKindV1 option" where
  "classify_onset_signal token =
     (if list_ex (ascii_eq token) [''deploy'', ''deployed'', ''deployment'', ''redeployed''] then Some Onset_Deployment
      else if list_ex (ascii_eq token) [''restart'', ''restarted'', ''restarting''] then Some Onset_Restart
      else if list_ex (ascii_eq token) [''migration'', ''migrate'', ''migrated'', ''migrating''] then Some Onset_Migration
      else if list_ex (ascii_eq token) [''reconfigured'', ''configuration-change'', ''configuration_changed'',
          ''config-reload'', ''config_reloaded''] then Some Onset_ConfigurationChange
      else if list_ex (ascii_eq token) [''feature-flag-enabled'', ''feature-flag-disabled'', ''feature_flag_enabled'',
          ''feature_flag_disabled'', ''feature.flag.enabled'', ''feature.flag.disabled''] then Some Onset_FeatureFlagChange
      else None)"

definition negates_failure :: "bytes \<Rightarrow> bool" where
  "negates_failure token \<longleftrightarrow> ascii_eq token ''no'' \<or> ascii_eq token ''without'' \<or> ascii_eq token ''zero''"

section \<open>The scan\<close>

text \<open>What the token visitor updates; the counts belong to the block, the totals to the whole scan.\<close>

record TokenScan =
  ts_tokens :: nat
  ts_failures :: nat
  ts_onsets :: nat
  ts_failure_counts :: "(FailureSignalKindV1, nat) btree_map"
  ts_onset_counts :: "(OnsetSignalKindV1, nat) btree_map"
  ts_previous_negates :: bool
  ts_scan_failure :: "CandidateNeedsMoreReasonV1 option"

definition observe_failure :: "bytes \<Rightarrow> TokenScan \<Rightarrow> (CandidateNeedsMoreReasonV1, TokenScan) result" where
  "observe_failure token s =
     (case classify_failure_signal token of
        None \<Rightarrow> Inr s
      | Some kind \<Rightarrow>
          if ts_previous_negates s then Inr s
          else rbind (checked_signal_observation_increment (ts_failures s) (ts_onsets s)) (\<lambda>observations.
            rbind (map_err (\<lambda>_. ArithmeticCapacity) (increment_signal_count (ts_failure_counts s) kind)) (\<lambda>counts.
            Inr (s\<lparr>ts_failures := observations, ts_failure_counts := counts\<rparr>))))"

definition observe_onset :: "bytes \<Rightarrow> TokenScan \<Rightarrow> (CandidateNeedsMoreReasonV1, TokenScan) result" where
  "observe_onset token s =
     (case classify_onset_signal token of
        None \<Rightarrow> Inr s
      | Some kind \<Rightarrow>
          rbind (checked_signal_observation_increment (ts_onsets s) (ts_failures s)) (\<lambda>observations.
          rbind (map_err (\<lambda>_. ArithmeticCapacity) (increment_signal_count (ts_onset_counts s) kind)) (\<lambda>counts.
          Inr (s\<lparr>ts_onsets := observations, ts_onset_counts := counts\<rparr>))))"

definition coverage_token :: "TokenScan visitor" where
  "coverage_token s token =
     (case rbind (checked_bounded_increment (ts_tokens s) MAX_COVERAGE_ANALYSIS_TOKENS_V1 CoverageAnalysisTokenCap) (\<lambda>tokens.
           rbind (observe_failure token (s\<lparr>ts_tokens := tokens\<rparr>)) (observe_onset token)) of
        Inl reason \<Rightarrow> (False, s\<lparr>ts_scan_failure := Some reason\<rparr>)
      | Inr s \<Rightarrow> (True, s\<lparr>ts_previous_negates := negates_failure token\<rparr>))"

definition coverage_event_step ::
  "nat \<times> bool \<times> TokenScan \<Rightarrow> Event \<Rightarrow> (CandidateNeedsMoreReasonV1, nat \<times> bool \<times> TokenScan) result" where
  "coverage_event_step state e =
     (case state of (scanned_bytes, has_fragment, s) \<Rightarrow>
       rbind (ok_or ArithmeticCapacity (u64_try_from (length (ev_raw e)))) (\<lambda>event_bytes.
       rbind (checked_scanned_bytes scanned_bytes event_bytes) (\<lambda>scanned_bytes.
       let s = for_each_ascii_token (ev_raw e) coverage_token (s\<lparr>ts_previous_negates := False, ts_scan_failure := None\<rparr>) in
       case ts_scan_failure s of
         Some reason \<Rightarrow> Inl reason
       | None \<Rightarrow> Inr (scanned_bytes, has_fragment \<or> \<not> record_is_complete (ev_record_state e), s))))"

record BlockFacts =
  bf_block_id :: BlockId
  bf_ordinal :: nat
  bf_lane :: LaneKey
  bf_first_lane_sequence :: nat
  bf_state :: BlockState
  bf_confidence :: BlockConfidence
  bf_has_fragment :: bool

record WorkAnnotation =
  wa_block_id :: BlockId
  wa_failure_counts :: "(FailureSignalKindV1, nat) btree_map"
  wa_onset_counts :: "(OnsetSignalKindV1, nat) btree_map"
  wa_failure_lane_position :: "(nat \<times> nat) option"
  wa_onset_boundaries :: "OnsetBoundaryFactV1 list"
  wa_reconstruction_risks :: "ReconstructionRiskKindV1 list"
  wa_sentinels :: "(CoverageSentinelKindV1 \<times> FacetIdV1, CoverageSentinelV1) btree_map"
  wa_affinities :: "(FacetIdV1, FacetAffinityV1) btree_map"

definition WorkAnnotation_new :: "BlockId \<Rightarrow> WorkAnnotation" where
  "WorkAnnotation_new bid = \<lparr>wa_block_id = bid, wa_failure_counts = [], wa_onset_counts = [], wa_failure_lane_position = None,
     wa_onset_boundaries = [], wa_reconstruction_risks = [], wa_sentinels = [], wa_affinities = []\<rparr>"

record CoverageScan =
  cv_facts :: "BlockFacts list"
  cv_work :: "WorkAnnotation list"
  cv_scanned_bytes :: nat
  cv_scanned_analysis_tokens :: nat
  cv_failure_signal_observations :: nat
  cv_onset_signal_observations :: nat

definition coverage_block_step :: "BlockIndex \<Rightarrow> CoverageScan \<Rightarrow> EventBlock \<Rightarrow> (GenerationFailure, CoverageScan) result" where
  "coverage_block_step blocks s b =
     rbind (map_err (\<lambda>_. GenerationBuild BlockIndexContractViolation) (expand_block blocks (eb_id b))) (\<lambda>expansion.
     rbind (nth_or (GenerationBuild BlockIndexContractViolation) (eb_member_lane_sequences b) 0) (\<lambda>first_lane_sequence.
     rbind (map_err GenerationNeedsMore (rfold coverage_event_step
         (cv_scanned_bytes s, False,
          \<lparr>ts_tokens = cv_scanned_analysis_tokens s, ts_failures = cv_failure_signal_observations s,
           ts_onsets = cv_onset_signal_observations s, ts_failure_counts = [], ts_onset_counts = [],
           ts_previous_negates = False, ts_scan_failure = None\<rparr>) (be_events expansion))) (\<lambda>(scanned_bytes, has_fragment, scan).
     Inr \<lparr>cv_facts = cv_facts s @ [\<lparr>bf_block_id = eb_id b, bf_ordinal = eb_ordinal b, bf_lane = eb_lane b,
            bf_first_lane_sequence = first_lane_sequence, bf_state = eb_state b, bf_confidence = eb_confidence b,
            bf_has_fragment = has_fragment\<rparr>],
          cv_work = cv_work s @ [(WorkAnnotation_new (eb_id b))
            \<lparr>wa_failure_counts := ts_failure_counts scan, wa_onset_counts := ts_onset_counts scan\<rparr>],
          cv_scanned_bytes = scanned_bytes, cv_scanned_analysis_tokens = ts_tokens scan,
          cv_failure_signal_observations = ts_failures scan, cv_onset_signal_observations = ts_onsets scan\<rparr>)))"

section \<open>The emitter\<close>

record OutputEmitter =
  oe_facets :: "(FacetIdV1, CoverageFacetV1) btree_map"
  oe_affinity_count :: nat
  oe_sentinel_count :: nat
  oe_full_weight :: nat
  oe_breadth_weight :: nat
  oe_full_affinity :: nat

definition OutputEmitter_new :: "(CandidateBuildErrorV1, OutputEmitter) result" where
  "OutputEmitter_new =
     rbind (map_err (\<lambda>_. FixedPointContractViolation) (FacetWeightV1_new AFFINITY_SCALE_V1)) (\<lambda>full_weight.
     rbind (map_err (\<lambda>_. FixedPointContractViolation)
       (FacetWeightV1_new (AFFINITY_SCALE_V1 div BREADTH_COVERAGE_FACET_WEIGHT_DENOMINATOR_V1))) (\<lambda>breadth_weight.
     rbind (map_err (\<lambda>_. FixedPointContractViolation) (AffinityV1_new AFFINITY_SCALE_V1)) (\<lambda>full_affinity.
     Inr \<lparr>oe_facets = [], oe_affinity_count = 0, oe_sentinel_count = 0, oe_full_weight = full_weight,
          oe_breadth_weight = breadth_weight, oe_full_affinity = full_affinity\<rparr>)))"

fun production_kind :: "CoverageFacetRoleV1 \<Rightarrow> ProductionFacetKindV1" where
  "production_kind (FailureFacet _) = FailureRole"
| "production_kind (ExplicitOnsetFacet _) = OnsetRole"
| "production_kind (OnsetBoundaryFacet _) = OnsetRole"
| "production_kind (SourceFacet _) = SourceCoverageStratum"
| "production_kind (AcquisitionOrderStratumFacet _ _) = TimeCoverageStratum"
| "production_kind (ReconstructionRiskFacet _) = ReconstructionRiskCoverage"

definition append_key_part :: "bytes \<Rightarrow> bytes \<Rightarrow> bytes" where
  "append_key_part key part = key @ rev (u64_le_bytes (length part)) @ part"

fun role_key_parts :: "CoverageFacetRoleV1 \<Rightarrow> bytes list" where
  "role_key_parts (FailureFacet kind) = [''failure'', failure_code kind]"
| "role_key_parts (ExplicitOnsetFacet kind) = [''explicit_onset'', onset_code kind]"
| "role_key_parts (OnsetBoundaryFacet role) = [''onset_boundary'', boundary_code role]"
| "role_key_parts (SourceFacet kind) = [''source'', stratum_code kind]"
| "role_key_parts (AcquisitionOrderStratumFacet index strata) = [''acquisition_order_stratum'', [char_of index], [char_of strata]]"
| "role_key_parts (ReconstructionRiskFacet kind) = [''reconstruction_risk'', risk_code kind]"

definition semantic_key :: "CoverageFacetRoleV1 \<Rightarrow> BlockId option \<Rightarrow> bytes" where
  "semantic_key role lane_anchor =
     (let key = append_key_part [] ''evidentrail/failure-onset-raw-coverage/v1'';
          key = foldl append_key_part key (role_key_parts role) in
      case lane_anchor of Some anchor \<Rightarrow> append_key_part key anchor | None \<Rightarrow> key)"

definition register_facet ::
  "(bytes \<Rightarrow> bytes) \<Rightarrow> CoverageFacetRoleV1 \<Rightarrow> BlockId option \<Rightarrow> OutputEmitter \<Rightarrow> (GenerationFailure, FacetIdV1 \<times> OutputEmitter) result" where
  "register_facet sha256 role lane_anchor em =
     (let kind = production_kind role; key = semantic_key role lane_anchor;
          weight = (if is_coverage_only kind then oe_breadth_weight em else oe_full_weight em) in
      rbind (map_err (\<lambda>_. GenerationBuild FacetContractViolation) (ProductionFacetV1_new sha256 kind key weight)) (\<lambda>facet.
      case map_of (oe_facets em) (facet_id facet) of
        Some existing \<Rightarrow>
          if cf_role existing \<noteq> role then Inl (GenerationBuild FacetContractViolation) else Inr (facet_id facet, em)
      | None \<Rightarrow>
          if length (oe_facets em) \<ge> MAX_COVERAGE_OUTPUT_FACETS_V1 then Inl (GenerationNeedsMore CoverageFacetOutputCap)
          else Inr (facet_id facet, em\<lparr>oe_facets := bt_insert (facet_id facet) \<lparr>cf_facet = facet, cf_role = role\<rparr> (oe_facets em)\<rparr>)))"

definition add_affinity ::
  "FacetIdV1 \<Rightarrow> WorkAnnotation \<times> OutputEmitter \<Rightarrow> (GenerationFailure, WorkAnnotation \<times> OutputEmitter) result" where
  "add_affinity fid state =
     (case state of (a, em) \<Rightarrow>
      if map_of (wa_affinities a) fid \<noteq> None then Inr (a, em)
      else rbind (map_err GenerationNeedsMore (checked_bounded_increment (oe_affinity_count em) MAX_COVERAGE_OUTPUT_AFFINITIES_V1
          CoverageAffinityOutputCap)) (\<lambda>n.
        Inr (a\<lparr>wa_affinities := bt_insert fid \<lparr>affinity_facet = fid, affinity_micros = oe_full_affinity em\<rparr> (wa_affinities a)\<rparr>,
             em\<lparr>oe_affinity_count := n\<rparr>)))"

definition add_sentinel ::
  "CoverageSentinelKindV1 \<Rightarrow> FacetIdV1 \<Rightarrow> WorkAnnotation \<times> OutputEmitter \<Rightarrow> (GenerationFailure, WorkAnnotation \<times> OutputEmitter) result" where
  "add_sentinel kind fid state =
     (case state of (a, em) \<Rightarrow>
      if map_of (wa_sentinels a) (kind, fid) \<noteq> None then Inr (a, em)
      else rbind (map_err GenerationNeedsMore (checked_bounded_increment (oe_sentinel_count em) MAX_COVERAGE_OUTPUT_SENTINELS_V1
          CoverageSentinelOutputCap)) (\<lambda>n.
        add_affinity fid (a\<lparr>wa_sentinels := bt_insert (kind, fid) \<lparr>sn_kind = kind, sn_facet_id = fid\<rparr> (wa_sentinels a)\<rparr>,
          em\<lparr>oe_sentinel_count := n\<rparr>)))"

end
