(* ===== verification/Coverage_Lane.thy ===== *)
theory Coverage_Lane
  imports Coverage
begin

text \<open>
  The annotation passes of the failure and coverage lane and its entry point
  (\<open>evidentrail-candidates/src/coverage.rs\<close>).  A pass takes the work annotations and the emitter and
  returns them; \<open>at_work\<close> is a call on \<open>&mut work[position]\<close>.
\<close>

type_synonym lane_work = "WorkAnnotation list \<times> OutputEmitter"

definition at_work ::
  "nat \<Rightarrow> (WorkAnnotation \<times> OutputEmitter \<Rightarrow> (GenerationFailure, WorkAnnotation \<times> OutputEmitter) result) \<Rightarrow> lane_work \<Rightarrow>
   (GenerationFailure, lane_work) result" where
  "at_work position f state =
     (case state of (work, em) \<Rightarrow>
      rbind (nth_or (GenerationBuild CandidatePanic) work position) (\<lambda>a.
      rbind (f (a, em)) (\<lambda>(a, em). Inr (work[position := a], em))))"

section \<open>Failure and onset signals\<close>

definition role_affinity_step ::
  "(bytes \<Rightarrow> bytes) \<Rightarrow> WorkAnnotation \<times> OutputEmitter \<Rightarrow> CoverageFacetRoleV1 \<Rightarrow> (GenerationFailure, WorkAnnotation \<times> OutputEmitter) result" where
  "role_affinity_step sha256 state role =
     (case state of (a, em) \<Rightarrow>
      rbind (register_facet sha256 role None em) (\<lambda>(fid, em). add_affinity fid (a, em)))"

definition signal_step :: "(bytes \<Rightarrow> bytes) \<Rightarrow> lane_work \<Rightarrow> WorkAnnotation \<Rightarrow> (GenerationFailure, lane_work) result" where
  "signal_step sha256 state a =
     (case state of (annotated, em) \<Rightarrow>
      rbind (rfold (role_affinity_step sha256) (a, em) (map (\<lambda>(kind, _). FailureFacet kind) (wa_failure_counts a))) (\<lambda>(a, em).
      rbind (rfold (role_affinity_step sha256) (a, em) (map (\<lambda>(kind, _). ExplicitOnsetFacet kind) (wa_onset_counts a))) (\<lambda>(a, em).
      Inr (annotated @ [a], em))))"

definition annotate_failure_and_explicit_onset :: "(bytes \<Rightarrow> bytes) \<Rightarrow> lane_work \<Rightarrow> (GenerationFailure, lane_work) result" where
  "annotate_failure_and_explicit_onset sha256 state =
     (case state of (work, em) \<Rightarrow> rfold (signal_step sha256) ([], em) work)"

section \<open>Lanes and boundaries\<close>

definition add_source_sentinel ::
  "(bytes \<Rightarrow> bytes) \<Rightarrow> SourceCoverageStratumKindV1 \<Rightarrow> BlockId option \<Rightarrow> WorkAnnotation \<times> OutputEmitter \<Rightarrow>
   (GenerationFailure, WorkAnnotation \<times> OutputEmitter) result" where
  "add_source_sentinel sha256 kind lane_anchor state =
     (case state of (a, em) \<Rightarrow>
      rbind (register_facet sha256 (SourceFacet kind) lane_anchor em) (\<lambda>(fid, em).
      add_sentinel (SourceSentinel kind) fid (a, em)))"

definition mark_boundary ::
  "(bytes \<Rightarrow> bytes) \<Rightarrow> OnsetBoundaryRoleV1 \<Rightarrow> BlockId \<Rightarrow> BlockId \<Rightarrow> WorkAnnotation \<times> OutputEmitter \<Rightarrow>
   (GenerationFailure, WorkAnnotation \<times> OutputEmitter) result" where
  "mark_boundary sha256 role lane_anchor boundary_block_id state =
     (case state of (a, em) \<Rightarrow>
      rbind (register_facet sha256 (OnsetBoundaryFacet role) (Some lane_anchor) em) (\<lambda>(fid, em).
      add_affinity fid (a\<lparr>wa_onset_boundaries := btree_set ((role, boundary_block_id) # wa_onset_boundaries a)\<rparr>, em)))"

definition add_onset_boundary ::
  "(bytes \<Rightarrow> bytes) \<Rightarrow> nat list \<Rightarrow> nat \<Rightarrow> BlockId \<Rightarrow> OnsetBoundaryRoleV1 \<times> OnsetBoundaryRoleV1 \<Rightarrow> BlockFacts list \<Rightarrow> lane_work \<Rightarrow>
   (GenerationFailure, lane_work) result" where
  "add_onset_boundary sha256 lane_positions boundary_position lane_anchor roles facts state =
     rbind (nth_or (GenerationBuild CandidatePanic) facts boundary_position) (\<lambda>boundary.
     rbind (at_work boundary_position (mark_boundary sha256 (fst roles) lane_anchor (bf_block_id boundary)) state) (\<lambda>state.
     rbind (ok_or (GenerationBuild BlockIndexContractViolation)
         (position_of (\<lambda>position. position = boundary_position) lane_positions)) (\<lambda>boundary_lane_position.
     case checked_sub_u64 boundary_lane_position 1 of
       None \<Rightarrow> Inr state
     | Some context_lane_position \<Rightarrow>
         rbind (nth_or (GenerationBuild CandidatePanic) lane_positions context_lane_position) (\<lambda>context_position.
         at_work context_position (mark_boundary sha256 (snd roles) lane_anchor (bf_block_id boundary)) state))))"

definition failure_position_step ::
  "nat \<Rightarrow> WorkAnnotation list \<Rightarrow> nat \<times> nat \<Rightarrow> (GenerationFailure, WorkAnnotation list) result" where
  "failure_position_step failure_block_count work item =
     (case item of (ordinal, position) \<Rightarrow>
      rbind (ok_or (GenerationNeedsMore ArithmeticCapacity) (u32_try_from ordinal)) (\<lambda>ordinal.
      rbind (nth_or (GenerationBuild CandidatePanic) work position) (\<lambda>a.
      Inr (work[position := a\<lparr>wa_failure_lane_position := Some (ordinal, failure_block_count)\<rparr>]))))"

text \<open>The positions of a lane whose annotation satisfies a condition, in order.\<close>

definition positions_with ::
  "(WorkAnnotation \<Rightarrow> bool) \<Rightarrow> WorkAnnotation list \<Rightarrow> nat list \<Rightarrow> (GenerationFailure, nat list) result" where
  "positions_with P work positions =
     rbind (rmap (nth_or (GenerationBuild CandidatePanic) work) positions) (\<lambda>annotations.
     Inr (map fst (filter (\<lambda>(_, a). P a) (zip positions annotations))))"

definition lane_step ::
  "(bytes \<Rightarrow> bytes) \<Rightarrow> BlockFacts list \<Rightarrow> lane_work \<Rightarrow> nat list \<Rightarrow> (GenerationFailure, lane_work) result" where
  "lane_step sha256 facts state positions =
     (case positions of
        [] \<Rightarrow> Inl (GenerationBuild BlockIndexContractViolation)
      | first_position # _ \<Rightarrow>
          let last_position = last positions in
          rbind (nth_or (GenerationBuild CandidatePanic) facts first_position) (\<lambda>anchor.
          rbind (at_work first_position (add_source_sentinel sha256 SourceStreamHead (Some (bf_block_id anchor))) state) (\<lambda>state.
          rbind (at_work last_position (add_source_sentinel sha256 SourceStreamTail (Some (bf_block_id anchor))) state) (\<lambda>(work, em).
          rbind (positions_with (\<lambda>a. wa_failure_counts a \<noteq> []) work positions) (\<lambda>failure_positions.
          rbind (ok_or (GenerationNeedsMore ArithmeticCapacity) (u32_try_from (length failure_positions))) (\<lambda>failure_block_count.
          rbind (rfold (failure_position_step failure_block_count) work (enumerate 0 failure_positions)) (\<lambda>work.
          rbind (case failure_positions of
              [] \<Rightarrow> Inr (work, em)
            | boundary_position # _ \<Rightarrow> add_onset_boundary sha256 positions boundary_position (bf_block_id anchor)
                (FirstFailureInLane, LastAvailableBeforeFirstFailure) facts (work, em)) (\<lambda>(work, em).
          rbind (positions_with (\<lambda>a. wa_onset_counts a \<noteq> []) work positions) (\<lambda>onset_positions.
          case onset_positions of
            [] \<Rightarrow> Inr (work, em)
          | boundary_position # _ \<Rightarrow> add_onset_boundary sha256 positions boundary_position (bf_block_id anchor)
              (FirstExplicitOnsetInLane, LastAvailableBeforeFirstExplicitOnset) facts (work, em))))))))))"

definition annotate_lane_boundaries_and_source_coverage ::
  "(bytes \<Rightarrow> bytes) \<Rightarrow> BlockFacts list \<Rightarrow> (LaneKey, nat list) btree_map \<Rightarrow> lane_work \<Rightarrow> (GenerationFailure, lane_work) result" where
  "annotate_lane_boundaries_and_source_coverage sha256 facts lanes state =
     rfold (lane_step sha256 facts) state (map snd lanes)"

section \<open>Retrieval and time\<close>

definition stratum_step ::
  "(bytes \<Rightarrow> bytes) \<Rightarrow> nat \<Rightarrow> nat \<Rightarrow> lane_work \<Rightarrow> nat \<Rightarrow> (GenerationFailure, lane_work) result" where
  "stratum_step sha256 fact_count stratum_count state index =
     (case state of (work, em) \<Rightarrow>
      rbind (ok_or (GenerationNeedsMore ArithmeticCapacity)
        (Option.bind (checked_mul_u64 index fact_count) (\<lambda>value. checked_div value stratum_count))) (\<lambda>position.
      rbind (ok_or (GenerationBuild FixedPointContractViolation) (u8_try_from index)) (\<lambda>index.
      rbind (register_facet sha256 (AcquisitionOrderStratumFacet index stratum_count) None em) (\<lambda>(fid, em).
      at_work position (add_sentinel (StratumSentinel index stratum_count) fid) (work, em)))))"

definition annotate_retrieval_and_time_coverage ::
  "(bytes \<Rightarrow> bytes) \<Rightarrow> BlockFacts list \<Rightarrow> lane_work \<Rightarrow> (GenerationFailure, lane_work) result" where
  "annotate_retrieval_and_time_coverage sha256 facts state =
     (if fst state = [] then Inr state
      else rbind (at_work 0 (add_source_sentinel sha256 RetrievalHead None) state) (\<lambda>state.
        rbind (at_work (length (fst state) - 1) (add_source_sentinel sha256 RetrievalTail None) state) (\<lambda>state.
        let stratum_count = min (length facts) MAX_TIME_COVERAGE_STRATA_V1 in
        rbind (ok_or (GenerationBuild FixedPointContractViolation) (u8_try_from stratum_count)) (\<lambda>stratum_count_u8.
        rfold (stratum_step sha256 (length facts) stratum_count_u8) state [0..<stratum_count]))))"

section \<open>Reconstruction risk\<close>

record ReconstructionRiskOccurrence =
  ro_ordinal :: nat
  ro_block_id :: BlockId
  ro_work_position :: nat

definition risks_of :: "BlockFacts \<Rightarrow> ReconstructionRiskKindV1 list" where
  "risks_of bf = btree_set (
     (case bf_confidence bf of
        Medium \<Rightarrow> [Risk_MediumConfidence] | Low \<Rightarrow> [Risk_LowConfidence] | BlockConfidence.UnknownConfidence \<Rightarrow> [Risk_UnknownConfidence]
      | Certain \<Rightarrow> [] | High \<Rightarrow> [])
     @ (case bf_state bf of
          Ambiguous \<Rightarrow> [Risk_AmbiguousBoundary] | FallbackSingleton \<Rightarrow> [Risk_FallbackSingleton]
        | ProviderAtomic \<Rightarrow> [] | Reconstructed \<Rightarrow> [])
     @ (if bf_has_fragment bf then [Risk_Fragment] else []))"

definition push_occurrence ::
  "ReconstructionRiskOccurrence \<Rightarrow> ReconstructionRiskKindV1 \<Rightarrow> (ReconstructionRiskKindV1, ReconstructionRiskOccurrence list) btree_map \<Rightarrow>
   (ReconstructionRiskKindV1, ReconstructionRiskOccurrence list) btree_map" where
  "push_occurrence occurrence risk occurrences =
     bt_insert risk ((case map_of occurrences risk of None \<Rightarrow> [] | Some rs \<Rightarrow> rs) @ [occurrence]) occurrences"

definition risk_fact_step ::
  "WorkAnnotation list \<times> (ReconstructionRiskKindV1, ReconstructionRiskOccurrence list) btree_map \<times> nat \<Rightarrow>
   nat \<times> BlockFacts \<times> WorkAnnotation \<Rightarrow>
   (GenerationFailure, WorkAnnotation list \<times> (ReconstructionRiskKindV1, ReconstructionRiskOccurrence list) btree_map \<times> nat) result" where
  "risk_fact_step state item =
     (case state of (annotated, occurrences, fact_count) \<Rightarrow> case item of (work_position, bf, a) \<Rightarrow>
      let risks = risks_of bf in
      rbind (ok_or (GenerationNeedsMore ArithmeticCapacity) (checked_add_u64 fact_count (length risks))) (\<lambda>fact_count.
      Inr (annotated @ [a\<lparr>wa_reconstruction_risks := risks\<rparr>],
        fold (push_occurrence \<lparr>ro_ordinal = bf_ordinal bf, ro_block_id = bf_block_id bf, ro_work_position = work_position\<rparr>)
          risks occurrences, fact_count)))"

definition canonical_stratified_offsets :: "nat \<Rightarrow> nat \<Rightarrow> (GenerationFailure, nat list) result" where
  "canonical_stratified_offsets occurrence_count representative_cap =
     (if occurrence_count = 0 \<or> representative_cap = 0 then Inr []
      else if occurrence_count \<le> representative_cap then Inr [0..<occurrence_count]
      else if representative_cap < 3 then Inl (GenerationBuild FixedPointContractViolation)
      else let last_occurrence = occurrence_count - 1; last_stratum = representative_cap - 1 in
      rmap (\<lambda>stratum. ok_or (GenerationNeedsMore ArithmeticCapacity)
        (Option.bind (checked_mul_u64 stratum last_occurrence) (\<lambda>numerator. checked_div numerator last_stratum)))
        [0..<representative_cap])"

definition representative_step ::
  "ReconstructionRiskKindV1 \<Rightarrow> FacetIdV1 \<Rightarrow> ReconstructionRiskOccurrence list \<Rightarrow> lane_work \<times> nat \<Rightarrow> nat \<Rightarrow>
   (GenerationFailure, lane_work \<times> nat) result" where
  "representative_step risk fid occurrences state offset =
     (case state of (lane, representative_count) \<Rightarrow>
      rbind (nth_or (GenerationBuild CandidatePanic) occurrences offset) (\<lambda>occurrence.
      rbind (at_work (ro_work_position occurrence) (add_sentinel (RiskSentinel risk) fid) lane) (\<lambda>lane.
      rbind (ok_or (GenerationNeedsMore ArithmeticCapacity) (checked_add_u64 representative_count 1)) (\<lambda>representative_count.
      Inr (lane, representative_count)))))"

definition risk_step ::
  "(bytes \<Rightarrow> bytes) \<Rightarrow> lane_work \<times> nat \<Rightarrow> ReconstructionRiskKindV1 \<times> ReconstructionRiskOccurrence list \<Rightarrow>
   (GenerationFailure, lane_work \<times> nat) result" where
  "risk_step sha256 state item =
     (case state of ((work, em), representative_count) \<Rightarrow> case item of (risk, occurrences) \<Rightarrow>
      let occurrences = sort_key (\<lambda>r. (ro_ordinal r, ro_block_id r)) occurrences in
      rbind (canonical_stratified_offsets (length occurrences) MAX_RECONSTRUCTION_RISK_REPRESENTATIVES_PER_KIND_V1) (\<lambda>offsets.
      rbind (register_facet sha256 (ReconstructionRiskFacet risk) None em) (\<lambda>(fid, em).
      rfold (representative_step risk fid occurrences) ((work, em), representative_count) offsets)))"

definition annotate_reconstruction_risk ::
  "(bytes \<Rightarrow> bytes) \<Rightarrow> BlockFacts list \<Rightarrow> lane_work \<Rightarrow> (GenerationFailure, lane_work \<times> nat \<times> nat) result" where
  "annotate_reconstruction_risk sha256 facts state =
     (case state of (work, em) \<Rightarrow>
      rbind (rfold risk_fact_step ([], [], 0) (enumerate 0 (zip facts work))) (\<lambda>(work, occurrences, fact_count).
      rbind (rfold (risk_step sha256) ((work, em), 0) occurrences) (\<lambda>(lane, representative_count).
      Inr (lane, fact_count, representative_count))))"

section \<open>The lane\<close>

definition finalize_annotation :: "WorkAnnotation \<Rightarrow> (GenerationFailure, CoverageBlockAnnotationV1) result" where
  "finalize_annotation a =
     rbind (case wa_failure_lane_position a of
         Some (ordinal, failure_count) \<Rightarrow>
           rbind (rfold (\<lambda>total (_, occurrence_count).
               ok_or (GenerationNeedsMore ArithmeticCapacity) (checked_add_u32 total occurrence_count)) 0 (wa_failure_counts a)) (\<lambda>total.
           Inr (Some \<lparr>ff_signals = wa_failure_counts a, ff_signal_occurrence_count = total,
             ff_failure_block_ordinal_in_lane = ordinal, ff_failure_block_count_in_lane = failure_count\<rparr>))
       | None \<Rightarrow> if wa_failure_counts a \<noteq> [] then Inl (GenerationBuild BlockIndexContractViolation) else Inr None) (\<lambda>failure.
     Inr \<lparr>cba_block_id = wa_block_id a, cba_failure = failure, cba_onset_signals = wa_onset_counts a,
          cba_onset_boundaries = wa_onset_boundaries a, cba_reconstruction_risks = wa_reconstruction_risks a,
          cba_sentinels = map snd (wa_sentinels a), cba_affinities = map snd (wa_affinities a)\<rparr>)"

definition lane_positions :: "BlockFacts list \<Rightarrow> (LaneKey, nat list) btree_map" where
  "lane_positions facts =
     fold (\<lambda>(position, bf) lanes. bt_insert (bf_lane bf)
         ((case map_of lanes (bf_lane bf) of None \<Rightarrow> [] | Some ps \<Rightarrow> ps) @ [position]) lanes)
       (enumerate 0 facts) []"

definition sorted_lanes :: "BlockFacts list \<Rightarrow> (LaneKey, nat list) btree_map" where
  "sorted_lanes facts = map (\<lambda>(lane, positions).
     (lane, sort_key (\<lambda>p. (bf_first_lane_sequence (facts ! p), bf_block_id (facts ! p))) positions)) (lane_positions facts)"

definition coverage_passes ::
  "(bytes \<Rightarrow> bytes) \<Rightarrow> BlockFacts list \<Rightarrow> (LaneKey, nat list) btree_map \<Rightarrow> WorkAnnotation list \<Rightarrow>
   (GenerationFailure, lane_work \<times> nat \<times> nat) result" where
  "coverage_passes sha256 facts lanes work =
     rbind (map_err GenerationBuild OutputEmitter_new) (\<lambda>em.
     rbind (annotate_failure_and_explicit_onset sha256 (work, em)) (\<lambda>state.
     rbind (annotate_lane_boundaries_and_source_coverage sha256 facts lanes state) (\<lambda>state.
     rbind (annotate_retrieval_and_time_coverage sha256 facts state) (\<lambda>state.
     annotate_reconstruction_risk sha256 facts state))))"

definition build_failure_coverage_candidates_v1 ::
  "(bytes \<Rightarrow> bytes) \<Rightarrow> BlockIndex \<Rightarrow> (GenerationFailure, CoverageCandidateUniverseV1) result" where
  "build_failure_coverage_candidates_v1 sha256 blocks =
     (if length (bi_blocks blocks) > MAX_PRIMARY_BLOCKS_V1 then Inl (GenerationNeedsMore PrimaryBlockCountCap)
      else rbind (rfold (coverage_block_step blocks)
          \<lparr>cv_facts = [], cv_work = [], cv_scanned_bytes = 0, cv_scanned_analysis_tokens = 0,
           cv_failure_signal_observations = 0, cv_onset_signal_observations = 0\<rparr> (bi_blocks blocks)) (\<lambda>s.
      let facts = cv_facts s; lanes = sorted_lanes facts in
      if length lanes > MAX_COVERAGE_SOURCE_LANES_V1 then Inl (GenerationNeedsMore CoverageSourceLaneCap)
      else rbind (coverage_passes sha256 facts lanes (cv_work s)) (\<lambda>((work, em), fact_count, representative_count).
      rbind (rmap finalize_annotation work) (\<lambda>annotations.
      Inr \<lparr>cu_retrieval_id = el_retrieval_id (bi_ledger blocks), cu_facets = map snd (oe_facets em),
           cu_annotations = sort_key cba_block_id annotations,
           cu_accounting = \<lparr>acc_scanned_bytes = cv_scanned_bytes s, acc_scanned_analysis_tokens = cv_scanned_analysis_tokens s,
             acc_failure_signal_observations = cv_failure_signal_observations s,
             acc_onset_signal_observations = cv_onset_signal_observations s,
             acc_reconstruction_risk_fact_count = fact_count, acc_reconstruction_risk_representative_count = representative_count,
             acc_source_lane_count = length lanes, acc_emitted_facet_count = length (oe_facets em),
             acc_emitted_affinity_count = oe_affinity_count em, acc_emitted_sentinel_count = oe_sentinel_count em\<rparr>\<rparr>))))"

definition generate_failure_coverage_candidates_v1 ::
  "(bytes \<Rightarrow> bytes) \<Rightarrow> BlockIndex \<Rightarrow> (CandidateBuildErrorV1, CoverageGenerationDecisionV1) result" where
  "generate_failure_coverage_candidates_v1 sha256 blocks =
     (case build_failure_coverage_candidates_v1 sha256 blocks of
        Inr universe \<Rightarrow> Inr (CoverageReady universe)
      | Inl (GenerationNeedsMore reason) \<Rightarrow> Inr (CoverageNeedsMore reason)
      | Inl (GenerationBuild e) \<Rightarrow> Inl e)"

end
