(* ===== verification/Coverage_Scan.thy ===== *)
theory Coverage_Scan
  imports Coverage_Lane Lexical_Spec
begin

text \<open>
  The scan of the coverage lane against its reference: the signals of a block as lists over its
  tokens, their counts, and the caps on the totals.  The scan either stops at a cap that the totals
  exceed or yields exactly the counts; no counter overflows.
\<close>

section \<open>Signals\<close>

text \<open>A failure word counts unless the token before it in the same record negates it.\<close>

fun failure_signals :: "bool \<Rightarrow> bytes list \<Rightarrow> FailureSignalKindV1 list" where
  "failure_signals negated [] = []"
| "failure_signals negated (token # tokens) =
     (case classify_failure_signal token of Some kind \<Rightarrow> if negated then [] else [kind] | None \<Rightarrow> [])
     @ failure_signals (negates_failure token) tokens"

definition onset_signals :: "bytes list \<Rightarrow> OnsetSignalKindV1 list" where
  "onset_signals tokens = List.map_filter classify_onset_signal tokens"

definition failures_in :: "Event list \<Rightarrow> FailureSignalKindV1 list" where
  "failures_in es = concat (map (\<lambda>e. failure_signals False (ascii_tokens (ev_raw e))) es)"

definition onsets_in :: "Event list \<Rightarrow> OnsetSignalKindV1 list" where
  "onsets_in es = concat (map (\<lambda>e. onset_signals (ascii_tokens (ev_raw e))) es)"

text \<open>The counts of a list of signals, in kind order.\<close>

definition signal_counts :: "'k::linorder list \<Rightarrow> ('k \<times> nat) list" where
  "signal_counts kinds = map (\<lambda>kind. (kind, count_list kinds kind)) (btree_set kinds)"

lemma signal_counts_Nil [simp]: "signal_counts [] = []"
  by (simp add: signal_counts_def btree_set_def)

lemma signal_counts_ordered: "bt_ordered (signal_counts kinds)"
  by (simp add: bt_ordered_def signal_counts_def comp_def)

lemma signal_counts_lookup: "map_of (signal_counts kinds) kind = (if kind \<in> set kinds then Some (count_list kinds kind) else None)"
  by (simp add: signal_counts_def map_of_map_restrict restrict_map_def)

lemma signal_counts_empty: "signal_counts kinds = [] \<longleftrightarrow> kinds = []"
proof -
  have "btree_set kinds = [] \<longleftrightarrow> set (btree_set kinds) = {}" by (simp only: set_empty)
  then show ?thesis by (simp add: signal_counts_def)
qed

text \<open>Ordered maps with the same lookups are equal.\<close>

lemma bt_ordered_ext:
  assumes "bt_ordered m" and "bt_ordered m'" and same: "map_of m = map_of m'"
  shows "m = m'"
proof -
  have distinct: "distinct (map fst m)" "distinct (map fst m')" using assms bt_ordered_distinct by blast+
  have entry: "e \<in> set n \<longleftrightarrow> map_of n (fst e) = Some (snd e)" if "distinct (map fst n)" for e and n :: "('a \<times> 'b) list"
    using map_of_eq_Some_iff [OF that, of "fst e" "snd e"] by simp
  have set: "set m = set m'" by (intro set_eqI) (simp only: entry [OF distinct(1)] entry [OF distinct(2)] same)
  then have "inj_on fst (set m \<union> set m')" using distinct by (simp add: distinct_map)
  with set show ?thesis
    using assms(1,2) distinct
    by (intro map_sorted_distinct_set_unique [where f = fst]) (simp_all add: bt_ordered_def strict_sorted_iff)
qed

lemma signal_counts_increment:
  "bt_insert kind (Suc (count_list kinds kind)) (signal_counts kinds) = signal_counts (kinds @ [kind])"
  by (intro bt_ordered_ext bt_ordered_insert signal_counts_ordered)
    (auto simp: signal_counts_lookup fun_eq_iff)

section \<open>The visitor\<close>

text \<open>The caps on the totals of a scan: which stop reasons they justify.\<close>

definition over_cap :: "CandidateNeedsMoreReasonV1 \<Rightarrow> nat \<Rightarrow> nat \<Rightarrow> nat \<Rightarrow> bool" where
  "over_cap reason bytes tokens signals \<longleftrightarrow>
     reason = PrimaryBytesScannedCap \<and> bytes > MAX_PRIMARY_BYTES_SCANNED_V1
   \<or> reason = CoverageAnalysisTokenCap \<and> tokens > MAX_COVERAGE_ANALYSIS_TOKENS_V1
   \<or> reason = CoverageSignalObservationCap \<and> signals > MAX_COVERAGE_SIGNAL_OBSERVATIONS_V1"

definition within_caps :: "nat \<Rightarrow> nat \<Rightarrow> nat \<Rightarrow> bool" where
  "within_caps bytes tokens signals \<longleftrightarrow> bytes \<le> MAX_PRIMARY_BYTES_SCANNED_V1
     \<and> tokens \<le> MAX_COVERAGE_ANALYSIS_TOKENS_V1 \<and> signals \<le> MAX_COVERAGE_SIGNAL_OBSERVATIONS_V1"

lemma over_cap_mono:
  "over_cap reason bytes tokens signals \<Longrightarrow> bytes \<le> bytes' \<Longrightarrow> tokens \<le> tokens' \<Longrightarrow> signals \<le> signals' \<Longrightarrow>
   over_cap reason bytes' tokens' signals'"
  by (auto simp: over_cap_def)

text \<open>The scan with \<open>F\<close> failures and \<open>O\<close> onsets counted for earlier blocks.\<close>

definition scan_at ::
  "nat \<Rightarrow> nat \<Rightarrow> nat \<Rightarrow> FailureSignalKindV1 list \<Rightarrow> OnsetSignalKindV1 list \<Rightarrow> bool \<Rightarrow> TokenScan" where
  "scan_at tokens F N fs ns negated = \<lparr>ts_tokens = tokens, ts_failures = F + length fs, ts_onsets = N + length ns,
     ts_failure_counts = signal_counts fs, ts_onset_counts = signal_counts ns, ts_previous_negates = negated,
     ts_scan_failure = None\<rparr>"

lemma observation_increment:
  "current + other \<le> MAX_COVERAGE_SIGNAL_OBSERVATIONS_V1 \<Longrightarrow> checked_signal_observation_increment current other =
     (if current + other < MAX_COVERAGE_SIGNAL_OBSERVATIONS_V1 then Inr (Suc current) else Inl CoverageSignalObservationCap)"
  by (simp add: checked_signal_observation_increment_def MAX_COVERAGE_SIGNAL_OBSERVATIONS_V1_def checked_add_u64_def)

lemma kind_increment:
  assumes "length kinds < MAX_COVERAGE_SIGNAL_OBSERVATIONS_V1"
  shows "increment_signal_count (signal_counts kinds) kind = Inr (signal_counts (kinds @ [kind]))"
proof -
  have "(case map_of (signal_counts kinds) kind of None \<Rightarrow> 0 | Some n \<Rightarrow> n) = count_list kinds kind"
    by (simp add: signal_counts_lookup)
  moreover have "count_list kinds kind < MAX_COVERAGE_SIGNAL_OBSERVATIONS_V1"
    using assms count_le_length [of kinds kind] by linarith
  ultimately show ?thesis
    by (simp add: increment_signal_count_def checked_add_u32_def u32_try_from_def MAX_COVERAGE_SIGNAL_OBSERVATIONS_V1_def
        signal_counts_increment)
qed

definition token_failures :: "bool \<Rightarrow> bytes \<Rightarrow> FailureSignalKindV1 list" where
  "token_failures negated token = (case classify_failure_signal token of Some kind \<Rightarrow> if negated then [] else [kind] | None \<Rightarrow> [])"

definition token_onsets :: "bytes \<Rightarrow> OnsetSignalKindV1 list" where
  "token_onsets token = (case classify_onset_signal token of Some kind \<Rightarrow> [kind] | None \<Rightarrow> [])"

lemma observe_failure_at:
  assumes "F + length fs + (N + length ns) \<le> MAX_COVERAGE_SIGNAL_OBSERVATIONS_V1"
  shows "observe_failure token (scan_at tokens F N fs ns negated) =
    (if F + length (fs @ token_failures negated token) + (N + length ns) \<le> MAX_COVERAGE_SIGNAL_OBSERVATIONS_V1
     then Inr (scan_at tokens F N (fs @ token_failures negated token) ns negated) else Inl CoverageSignalObservationCap)"
  using assms
  by (auto simp: observe_failure_def scan_at_def token_failures_def observation_increment kind_increment split: option.split)

lemma observe_onset_at:
  assumes "F + length fs + (N + length ns) \<le> MAX_COVERAGE_SIGNAL_OBSERVATIONS_V1"
  shows "observe_onset token (scan_at tokens F N fs ns negated) =
    (if F + length fs + (N + length (ns @ token_onsets token)) \<le> MAX_COVERAGE_SIGNAL_OBSERVATIONS_V1
     then Inr (scan_at tokens F N fs (ns @ token_onsets token) negated) else Inl CoverageSignalObservationCap)"
  using assms
  by (auto simp: observe_onset_def scan_at_def token_onsets_def observation_increment kind_increment split: option.split)

lemma coverage_token_at:
  fixes token :: bytes and negated :: bool
  assumes "within_caps bytes tokens (F + length fs + (N + length ns))"
  defines "fs' \<equiv> fs @ token_failures negated token" and "ns' \<equiv> ns @ token_onsets token"
  shows "within_caps bytes (Suc tokens) (F + length fs' + (N + length ns'))
      \<and> coverage_token (scan_at tokens F N fs ns negated) token = (True, scan_at (Suc tokens) F N fs' ns' (negates_failure token))
    \<or> (\<exists>reason s. coverage_token (scan_at tokens F N fs ns negated) token = (False, s) \<and> ts_scan_failure s = Some reason
      \<and> over_cap reason bytes (Suc tokens) (F + length fs' + (N + length ns')))"
proof -
  have tokens: "checked_bounded_increment tokens MAX_COVERAGE_ANALYSIS_TOKENS_V1 CoverageAnalysisTokenCap =
      (if tokens < MAX_COVERAGE_ANALYSIS_TOKENS_V1 then Inr (Suc tokens) else Inl CoverageAnalysisTokenCap)"
    using assms(1) by (simp add: within_caps_def checked_bounded_increment_def checked_add_u64_def MAX_COVERAGE_ANALYSIS_TOKENS_V1_def)
  have set_tokens: "(scan_at tokens F N fs ns negated)\<lparr>ts_tokens := n\<rparr> = scan_at n F N fs ns negated" for n
    by (simp add: scan_at_def)
  have fields: "ts_tokens (scan_at tokens F N fs ns negated) = tokens" for tokens F N fs ns negated by (simp add: scan_at_def)
  have negates: "(scan_at n F N fs' ns' negated)\<lparr>ts_previous_negates := b\<rparr> = scan_at n F N fs' ns' b" for n b
    by (simp add: scan_at_def)
  have total: "F + length fs + (N + length ns) \<le> MAX_COVERAGE_SIGNAL_OBSERVATIONS_V1" "bytes \<le> MAX_PRIMARY_BYTES_SCANNED_V1"
    using assms(1) by (simp_all add: within_caps_def)
  consider (tokens) "\<not> tokens < MAX_COVERAGE_ANALYSIS_TOKENS_V1"
    | (failures) "tokens < MAX_COVERAGE_ANALYSIS_TOKENS_V1" "\<not> F + length fs' + (N + length ns) \<le> MAX_COVERAGE_SIGNAL_OBSERVATIONS_V1"
    | (onsets) "tokens < MAX_COVERAGE_ANALYSIS_TOKENS_V1" "F + length fs' + (N + length ns) \<le> MAX_COVERAGE_SIGNAL_OBSERVATIONS_V1"
        "\<not> F + length fs' + (N + length ns') \<le> MAX_COVERAGE_SIGNAL_OBSERVATIONS_V1"
    | (within) "tokens < MAX_COVERAGE_ANALYSIS_TOKENS_V1" "F + length fs' + (N + length ns) \<le> MAX_COVERAGE_SIGNAL_OBSERVATIONS_V1"
        "F + length fs' + (N + length ns') \<le> MAX_COVERAGE_SIGNAL_OBSERVATIONS_V1" by linarith
  then show ?thesis
  proof cases
    case tokens': tokens
    then show ?thesis by (intro disjI2) (simp add: coverage_token_def fields tokens over_cap_def)
  next
    case failures
    have "length ns \<le> length ns'" by (simp add: ns'_def)
    with failures show ?thesis
      by (intro disjI2) (simp add: coverage_token_def fields tokens set_tokens observe_failure_at [OF total(1)] over_cap_def flip: fs'_def)
  next
    case onsets
    then show ?thesis
      by (intro disjI2) (simp add: coverage_token_def fields tokens set_tokens observe_failure_at [OF total(1)]
          observe_onset_at [OF onsets(2)] over_cap_def flip: fs'_def ns'_def)
  next
    case within
    then show ?thesis
      using total(2) by (intro disjI1) (simp add: coverage_token_def fields tokens set_tokens negates observe_failure_at [OF total(1)]
          observe_onset_at [OF within(2)] within_caps_def flip: fs'_def ns'_def)
  qed
qed

lemma failure_signals_Cons: "failure_signals negated (token # tokens) =
  token_failures negated token @ failure_signals (negates_failure token) tokens"
  by (simp add: token_failures_def)

lemma onset_signals_Cons: "onset_signals (token # tokens) = token_onsets token @ onset_signals tokens"
  by (simp add: onset_signals_def token_onsets_def List.map_filter_simps split: option.split)

lemma onset_signals_Nil [simp]: "onset_signals [] = []"
  by (simp add: onset_signals_def List.map_filter_simps)

lemma coverage_visits:
  assumes "within_caps bytes T (F + length fs + (N + length ns))"
  shows "(\<exists>negated'. visit_all coverage_token (scan_at T F N fs ns negated) tokens =
        (True, scan_at (T + length tokens) F N (fs @ failure_signals negated tokens) (ns @ onset_signals tokens) negated')
      \<and> within_caps bytes (T + length tokens)
          (F + length (fs @ failure_signals negated tokens) + (N + length (ns @ onset_signals tokens))))
    \<or> (\<exists>reason s. visit_all coverage_token (scan_at T F N fs ns negated) tokens = (False, s) \<and> ts_scan_failure s = Some reason
      \<and> over_cap reason bytes (T + length tokens)
          (F + length (fs @ failure_signals negated tokens) + (N + length (ns @ onset_signals tokens))))"
  using assms
proof (induction tokens arbitrary: T fs ns negated)
  case (Cons token tokens)
  from coverage_token_at [OF Cons.prems, of negated token] show ?case
  proof (elim disjE exE conjE)
    assume "within_caps bytes (Suc T) (F + length (fs @ token_failures negated token) + (N + length (ns @ token_onsets token)))"
      and step: "coverage_token (scan_at T F N fs ns negated) token =
        (True, scan_at (Suc T) F N (fs @ token_failures negated token) (ns @ token_onsets token) (negates_failure token))"
    from Cons.IH [OF this(1), of "negates_failure token"] step show ?thesis
      by (simp only: visit_all.simps prod.case bool.case failure_signals_Cons onset_signals_Cons append_assoc list.size add_Suc_right add_Suc add_0_right)
  next
    fix reason s
    assume step: "coverage_token (scan_at T F N fs ns negated) token = (False, s)" "ts_scan_failure s = Some reason"
      and cap: "over_cap reason bytes (Suc T) (F + length (fs @ token_failures negated token) + (N + length (ns @ token_onsets token)))"
    have "over_cap reason bytes (T + length (token # tokens)) (F + length (fs @ failure_signals negated (token # tokens))
        + (N + length (ns @ onset_signals (token # tokens))))"
      by (rule over_cap_mono [OF cap]) (simp_all add: failure_signals_Cons onset_signals_Cons del: failure_signals.simps)
    with step show ?thesis by (simp del: failure_signals.simps)
  qed
qed auto

section \<open>Events and blocks\<close>

lemma failures_in_snoc [simp]: "failures_in (es @ [e]) = failures_in es @ failure_signals False (ascii_tokens (ev_raw e))"
  by (simp add: failures_in_def)

lemma onsets_in_snoc [simp]: "onsets_in (es @ [e]) = onsets_in es @ onset_signals (ascii_tokens (ev_raw e))"
  by (simp add: onsets_in_def)

lemma signals_in_Nil [simp]: "failures_in [] = []" "onsets_in [] = []"
  by (simp_all add: failures_in_def onsets_in_def)

definition has_fragment :: "Event list \<Rightarrow> bool" where
  "has_fragment es \<longleftrightarrow> list_ex (\<lambda>e. \<not> record_is_complete (ev_record_state e)) es"

definition signals_in :: "Event list \<Rightarrow> nat" where
  "signals_in es = length (failures_in es) + length (onsets_in es)"

text \<open>What a loop with caps returns: a justified stop reason, or its exact state within the caps.\<close>

definition capped :: "nat \<Rightarrow> nat \<Rightarrow> nat \<Rightarrow> ('s \<Rightarrow> bool) \<Rightarrow> (CandidateNeedsMoreReasonV1, 's) result \<Rightarrow> bool" where
  "capped bytes tokens signals P r \<longleftrightarrow> (case r of
     Inl reason \<Rightarrow> over_cap reason bytes tokens signals | Inr s \<Rightarrow> within_caps bytes tokens signals \<and> P s)"

lemma coverage_event_step_at:
  assumes within: "within_caps (B + bytes_of es) (T + length (tokens_in es)) (F + N + signals_in es)"
    and e: "length (ev_raw e) \<le> 9223372036854775807"
  shows "capped (B + bytes_of (es @ [e])) (T + length (tokens_in (es @ [e]))) (F + N + signals_in (es @ [e]))
    (\<lambda>s. \<exists>negated. s = (B + bytes_of (es @ [e]), has_fragment (es @ [e]),
       scan_at (T + length (tokens_in (es @ [e]))) F N (failures_in (es @ [e])) (onsets_in (es @ [e])) negated))
    (coverage_event_step (B + bytes_of es, has_fragment es,
       scan_at (T + length (tokens_in es)) F N (failures_in es) (onsets_in es) negated) e)"
proof (cases "B + bytes_of (es @ [e]) \<le> MAX_PRIMARY_BYTES_SCANNED_V1")
  case True
  have len: "u64_try_from (length (ev_raw e)) = Some (length (ev_raw e))" using e by (simp add: u64_try_from_def)
  have bytes: "checked_scanned_bytes (B + bytes_of es) (length (ev_raw e)) = Inr (B + bytes_of (es @ [e]))"
    using True within e by (subst checked_scanned_bytes_cap) (simp_all add: within_caps_def)
  have reset: "(scan_at n F N fs ns b)\<lparr>ts_previous_negates := False, ts_scan_failure := None\<rparr> = scan_at n F N fs ns False" for n fs ns b
    by (simp add: scan_at_def)
  have "within_caps (B + bytes_of (es @ [e])) (T + length (tokens_in es)) (F + length (failures_in es) + (N + length (onsets_in es)))"
    using True within by (simp add: within_caps_def signals_in_def)
  from coverage_visits [OF this, of False "ascii_tokens (ev_raw e)"] show ?thesis
    by (elim disjE exE conjE)
      (auto simp: coverage_event_step_def len bytes reset capped_def for_each_ascii_token_visits signals_in_def has_fragment_def
        scan_at_def add.assoc add.left_commute add.commute)
next
  case False
  have len: "u64_try_from (length (ev_raw e)) = Some (length (ev_raw e))" using e by (simp add: u64_try_from_def)
  have "checked_scanned_bytes (B + bytes_of es) (length (ev_raw e)) = Inl PrimaryBytesScannedCap"
    using False within e by (subst checked_scanned_bytes_cap) (simp_all add: within_caps_def)
  then show ?thesis using False by (simp add: coverage_event_step_def len capped_def over_cap_def)
qed

lemma coverage_event_loop:
  assumes "within_caps B T (F + N)" and "fits es"
  shows "capped (B + bytes_of es) (T + length (tokens_in es)) (F + N + signals_in es)
    (\<lambda>s. \<exists>negated. s = (B + bytes_of es, has_fragment es,
       scan_at (T + length (tokens_in es)) F N (failures_in es) (onsets_in es) negated))
    (rfold coverage_event_step (B, False, scan_at T F N [] [] False) es)"
  using assms(2)
proof (induction es rule: rev_induct)
  case Nil
  then show ?case using assms(1) by (auto simp: capped_def has_fragment_def signals_in_def)
next
  case (snoc e es)
  then have e: "length (ev_raw e) \<le> 9223372036854775807" and "fits es" by (simp_all add: fits_def)
  note IH = snoc.IH [OF this(2)]
  show ?case
  proof (cases "rfold coverage_event_step (B, False, scan_at T F N [] [] False) es")
    case (Inl reason)
    with IH have "over_cap reason (B + bytes_of es) (T + length (tokens_in es)) (F + N + signals_in es)" by (simp add: capped_def)
    then have "over_cap reason (B + bytes_of (es @ [e])) (T + length (tokens_in (es @ [e]))) (F + N + signals_in (es @ [e]))"
      by (rule over_cap_mono) (simp_all add: signals_in_def)
    then show ?thesis using Inl by (simp add: rfold_append capped_def)
  next
    case (Inr s)
    with IH obtain negated where within: "within_caps (B + bytes_of es) (T + length (tokens_in es)) (F + N + signals_in es)"
      and s: "s = (B + bytes_of es, has_fragment es, scan_at (T + length (tokens_in es)) F N (failures_in es) (onsets_in es) negated)"
      by (auto simp: capped_def)
    have "rfold coverage_event_step (B, False, scan_at T F N [] [] False) (es @ [e]) = coverage_event_step s e"
      using Inr by (cases "coverage_event_step s e") (simp_all add: rfold_append)
    then show ?thesis using coverage_event_step_at [OF within e, of negated] by (simp only: s)
  qed
qed

definition facts_of :: "BlockIndex \<Rightarrow> EventBlock \<Rightarrow> BlockFacts" where
  "facts_of i b = \<lparr>bf_block_id = eb_id b, bf_ordinal = eb_ordinal b, bf_lane = eb_lane b,
     bf_first_lane_sequence = hd (eb_member_lane_sequences b), bf_state = eb_state b, bf_confidence = eb_confidence b,
     bf_has_fragment = has_fragment (block_events i b)\<rparr>"

definition work_of :: "BlockIndex \<Rightarrow> EventBlock \<Rightarrow> WorkAnnotation" where
  "work_of i b = (WorkAnnotation_new (eb_id b))\<lparr>wa_failure_counts := signal_counts (failures_in (block_events i b)),
     wa_onset_counts := signal_counts (onsets_in (block_events i b))\<rparr>"

definition failures_total :: "BlockIndex \<Rightarrow> EventBlock list \<Rightarrow> nat" where
  "failures_total i bs = sum_list (map (\<lambda>b. length (failures_in (block_events i b))) bs)"

definition onsets_total :: "BlockIndex \<Rightarrow> EventBlock list \<Rightarrow> nat" where
  "onsets_total i bs = sum_list (map (\<lambda>b. length (onsets_in (block_events i b))) bs)"

abbreviation signals_total :: "BlockIndex \<Rightarrow> EventBlock list \<Rightarrow> nat" where
  "signals_total i bs \<equiv> failures_total i bs + onsets_total i bs"

definition coverage_of :: "BlockIndex \<Rightarrow> EventBlock list \<Rightarrow> CoverageScan" where
  "coverage_of i bs = \<lparr>cv_facts = map (facts_of i) bs, cv_work = map (work_of i) bs, cv_scanned_bytes = blocks_bytes i bs,
     cv_scanned_analysis_tokens = blocks_tokens i bs, cv_failure_signal_observations = failures_total i bs,
     cv_onset_signal_observations = onsets_total i bs\<rparr>"

lemma totals_snoc [simp]: "failures_total i (bs @ [b]) = failures_total i bs + length (failures_in (block_events i b))"
  "onsets_total i (bs @ [b]) = onsets_total i bs + length (onsets_in (block_events i b))"
  by (simp_all add: failures_total_def onsets_total_def)

lemma member_sequences_nonempty:
  assumes "block_index_ok i" and "b \<in> set (bi_blocks i)"
  shows "eb_member_lane_sequences b \<noteq> []"
proof -
  have "block_ok (bi_ledger i) b" using assms by (simp add: block_index_ok_def)
  then show ?thesis unfolding block_ok_def by (metis list.map_disc_iff)
qed

lemma coverage_block_step_at:
  assumes i: "block_index_ok i" and fits: "fits (el_events (bi_ledger i))" and b: "b \<in> set (bi_blocks i)"
    and within: "within_caps (blocks_bytes i bs) (blocks_tokens i bs) (signals_total i bs)"
  shows "(case coverage_block_step i (coverage_of i bs) b of
      Inl failure \<Rightarrow> (\<exists>reason. failure = GenerationNeedsMore reason
        \<and> over_cap reason (blocks_bytes i (bs @ [b])) (blocks_tokens i (bs @ [b])) (signals_total i (bs @ [b])))
    | Inr s \<Rightarrow> s = coverage_of i (bs @ [b])
        \<and> within_caps (blocks_bytes i (bs @ [b])) (blocks_tokens i (bs @ [b])) (signals_total i (bs @ [b])))"
proof -
  let ?es = "block_events i b"
  let ?start = "(cv_scanned_bytes (coverage_of i bs), False, \<lparr>ts_tokens = cv_scanned_analysis_tokens (coverage_of i bs),
    ts_failures = cv_failure_signal_observations (coverage_of i bs), ts_onsets = cv_onset_signal_observations (coverage_of i bs),
    ts_failure_counts = [], ts_onset_counts = [], ts_previous_negates = False, ts_scan_failure = None\<rparr>)"
  have first: "nth_or e (eb_member_lane_sequences b) 0 = Inr (hd (eb_member_lane_sequences b))" for e :: GenerationFailure
    using member_sequences_nonempty [OF i b] by (simp add: hd_conv_nth)
  have start: "?start = (blocks_bytes i bs, False, scan_at (blocks_tokens i bs) (failures_total i bs) (onsets_total i bs) [] [] False)"
    by (simp add: coverage_of_def scan_at_def)
  have "failures_total i bs + onsets_total i bs + signals_in ?es = signals_total i (bs @ [b])" by (simp add: signals_in_def)
  then have "capped (blocks_bytes i (bs @ [b])) (blocks_tokens i (bs @ [b])) (signals_total i (bs @ [b]))
    (\<lambda>s. \<exists>negated. s = (blocks_bytes i (bs @ [b]), has_fragment ?es,
       scan_at (blocks_tokens i (bs @ [b])) (failures_total i bs) (onsets_total i bs) (failures_in ?es) (onsets_in ?es) negated))
    (rfold coverage_event_step ?start ?es)"
    using coverage_event_loop [OF within block_events_fit [OF i fits b]] by (simp only: start blocks_snoc)
  then show ?thesis
    by (cases "rfold coverage_event_step ?start ?es")
      (auto simp: capped_def coverage_block_step_def expand_indexed [OF i b] first coverage_of_def scan_at_def facts_of_def work_of_def)
qed

lemma coverage_block_loop:
  assumes i: "block_index_ok i" and fits: "fits (el_events (bi_ledger i))" and "set bs \<subseteq> set (bi_blocks i)"
  shows "(case rfold (coverage_block_step i) (coverage_of i []) bs of
      Inl failure \<Rightarrow> (\<exists>reason. failure = GenerationNeedsMore reason
        \<and> over_cap reason (blocks_bytes i bs) (blocks_tokens i bs) (signals_total i bs))
    | Inr s \<Rightarrow> s = coverage_of i bs \<and> within_caps (blocks_bytes i bs) (blocks_tokens i bs) (signals_total i bs))"
  using assms(3)
proof (induction bs rule: rev_induct)
  case Nil
  then show ?case by (simp add: within_caps_def blocks_bytes_def blocks_tokens_def failures_total_def onsets_total_def)
next
  case (snoc b bs)
  then have b: "b \<in> set (bi_blocks i)" and IH: "case rfold (coverage_block_step i) (coverage_of i []) bs of
      Inl failure \<Rightarrow> (\<exists>reason. failure = GenerationNeedsMore reason
        \<and> over_cap reason (blocks_bytes i bs) (blocks_tokens i bs) (signals_total i bs))
    | Inr s \<Rightarrow> s = coverage_of i bs \<and> within_caps (blocks_bytes i bs) (blocks_tokens i bs) (signals_total i bs)" by simp_all
  show ?case
  proof (cases "rfold (coverage_block_step i) (coverage_of i []) bs")
    case (Inl failure)
    with IH obtain reason where "failure = GenerationNeedsMore reason"
      and cap: "over_cap reason (blocks_bytes i bs) (blocks_tokens i bs) (signals_total i bs)" by auto
    moreover have "over_cap reason (blocks_bytes i (bs @ [b])) (blocks_tokens i (bs @ [b])) (signals_total i (bs @ [b]))"
      by (rule over_cap_mono [OF cap]) simp_all
    ultimately show ?thesis using Inl by (simp add: rfold_append)
  next
    case (Inr s)
    with IH have s: "s = coverage_of i bs" and within: "within_caps (blocks_bytes i bs) (blocks_tokens i bs) (signals_total i bs)"
      by simp_all
    have "rfold (coverage_block_step i) (coverage_of i []) (bs @ [b]) = coverage_block_step i s b"
      using Inr by (cases "coverage_block_step i s b") (simp_all add: rfold_append)
    then show ?thesis using coverage_block_step_at [OF i fits b within] by (simp only: s)
  qed
qed

end
