(* ===== verification/Coverage_Keys.thy ===== *)
theory Coverage_Keys
  imports Coverage_Lane Lexical_Decision
begin

text \<open>
  The facets of the coverage lane: their roles and anchors, how many there can be, and their keys.
  Every part of a key is preceded by its length, so that different roles have different keys, and two
  roles with one facet identity are a collision of the hash.
\<close>

section \<open>Roles and anchors\<close>

text \<open>The roles the lane uses, and the blocks that anchor a facet of a source lane.\<close>

fun role_ok :: "CoverageFacetRoleV1 \<Rightarrow> bool" where
  "role_ok (AcquisitionOrderStratumFacet index strata) \<longleftrightarrow> index < strata \<and> strata \<le> MAX_TIME_COVERAGE_STRATA_V1"
| "role_ok _ \<longleftrightarrow> True"

fun anchored :: "CoverageFacetRoleV1 \<Rightarrow> bool" where
  "anchored (OnsetBoundaryFacet _) \<longleftrightarrow> True"
| "anchored (SourceFacet kind) \<longleftrightarrow> kind = SourceStreamHead \<or> kind = SourceStreamTail"
| "anchored _ \<longleftrightarrow> False"

definition anchor_ok :: "BlockId set \<Rightarrow> CoverageFacetRoleV1 \<Rightarrow> BlockId option \<Rightarrow> bool" where
  "anchor_ok anchors role anchor \<longleftrightarrow> (case anchor of None \<Rightarrow> \<not> anchored role | Some bid \<Rightarrow> anchored role \<and> bid \<in> anchors)"

definition facet_places :: "BlockId set \<Rightarrow> (CoverageFacetRoleV1 \<times> BlockId option) set" where
  "facet_places anchors = {(role, anchor). role_ok role \<and> anchor_ok anchors role anchor}"

definition facet_name :: "(bytes \<Rightarrow> bytes) \<Rightarrow> CoverageFacetRoleV1 \<Rightarrow> BlockId option \<Rightarrow> FacetIdV1" where
  "facet_name sha256 role anchor = facet_key_id sha256 (production_kind role) (semantic_key role anchor)"

text \<open>There are 58 roles without an anchor and six with one.\<close>

definition free_roles :: "CoverageFacetRoleV1 list" where
  "free_roles = map FailureFacet [Signal_Error, Signal_Fatal, Signal_Critical, Signal_Panic, Signal_Exception, Signal_Assertion,
       Signal_CompilerError, Signal_Crash, Signal_Failure]
     @ map ExplicitOnsetFacet [Onset_Deployment, Onset_Restart, Onset_Migration, Onset_ConfigurationChange, Onset_FeatureFlagChange]
     @ map SourceFacet [RetrievalHead, RetrievalTail]
     @ concat (map (\<lambda>strata. map (\<lambda>index. AcquisitionOrderStratumFacet index strata) [0..<strata]) [0..<9])
     @ map ReconstructionRiskFacet [Risk_MediumConfidence, Risk_LowConfidence, Risk_UnknownConfidence, Risk_AmbiguousBoundary,
         Risk_FallbackSingleton, Risk_Fragment]"

definition anchored_roles :: "CoverageFacetRoleV1 list" where
  "anchored_roles = map OnsetBoundaryFacet [FirstFailureInLane, LastAvailableBeforeFirstFailure, FirstExplicitOnsetInLane,
       LastAvailableBeforeFirstExplicitOnset] @ map SourceFacet [SourceStreamHead, SourceStreamTail]"

lemma role_member: "role_ok role \<Longrightarrow> role \<in> set (if anchored role then anchored_roles else free_roles)"
proof (cases role)
  case (FailureFacet k)
  then show ?thesis by (cases k) (simp_all add: free_roles_def)
next
  case (ExplicitOnsetFacet k)
  then show ?thesis by (cases k) (simp_all add: free_roles_def)
next
  case (OnsetBoundaryFacet k)
  then show ?thesis by (cases k) (simp_all add: anchored_roles_def)
next
  case (SourceFacet k)
  then show ?thesis by (cases k) (simp_all add: free_roles_def anchored_roles_def)
next
  case (ReconstructionRiskFacet k)
  then show ?thesis by (cases k) (simp_all add: free_roles_def)
next
  case (AcquisitionOrderStratumFacet index strata)
  moreover assume "role_ok role"
  ultimately show ?thesis by (force simp: free_roles_def MAX_TIME_COVERAGE_STRATA_V1_def)
qed

lemma facet_places_subset:
  "facet_places anchors \<subseteq> (\<lambda>role. (role, None)) ` set free_roles \<union> (\<lambda>(role, bid). (role, Some bid)) ` (set anchored_roles \<times> anchors)"
  using role_member by (fastforce simp: facet_places_def anchor_ok_def split: option.splits if_splits)

lemma finite_places: "finite anchors \<Longrightarrow> finite (facet_places anchors)"
  by (rule finite_subset [OF facet_places_subset]) simp

lemma card_places:
  assumes "finite anchors"
  shows "card (facet_places anchors) \<le> 58 + 6 * card anchors"
proof -
  have "length free_roles = 58" "length anchored_roles = 6" by (simp_all add: free_roles_def anchored_roles_def upt_rec)
  then have free: "card ((\<lambda>role. (role, None :: BlockId option)) ` set free_roles) \<le> 58" and held: "card (set anchored_roles) \<le> 6"
    using card_image_le [of "set free_roles" "\<lambda>role. (role, None :: BlockId option)"] card_length [of free_roles] card_length [of anchored_roles] by simp_all
  have "card ((\<lambda>(role, bid). (role, Some bid)) ` (set anchored_roles \<times> anchors)) \<le> card (set anchored_roles \<times> anchors)"
    using assms by (intro card_image_le) simp
  also have "\<dots> \<le> 6 * card anchors" using held by (simp add: card_cartesian_product)
  finally have "card ((\<lambda>role. (role, None)) ` set free_roles \<union> (\<lambda>(role, bid). (role, Some bid)) ` (set anchored_roles \<times> anchors)) \<le> 58 + 6 * card anchors"
    using free by (intro le_trans [OF card_Un_le] add_mono)
  then show ?thesis
    using assms by (intro le_trans [OF card_mono [OF _ facet_places_subset]]) simp_all
qed

section \<open>Keys\<close>

definition key_part :: "bytes \<Rightarrow> bytes" where
  "key_part p = rev (u64_le_bytes (length p)) @ p"

lemma key_part_inj:
  assumes "key_part p @ r = key_part q @ s" and "length p \<le> u64_max" and "length q \<le> u64_max"
  shows "p = q \<and> r = s"
proof -
  have "u64_le_bytes (length p) = u64_le_bytes (length q)" "p @ r = q @ s" using assms(1) by (simp_all add: key_part_def)
  then show ?thesis using u64_le_bytes_inj [OF _ assms(2,3)] by simp
qed

lemma key_parts_inj:
  "concat (map key_part ps) = concat (map key_part qs) \<Longrightarrow> \<forall>p \<in> set (ps @ qs). length p \<le> u64_max \<Longrightarrow> ps = qs"
proof (induction ps arbitrary: qs)
  case Nil
  then show ?case by (cases qs) (simp_all add: key_part_def)
next
  case (Cons p ps)
  from Cons.prems obtain q qs' where qs: "qs = q # qs'" by (cases qs) (simp_all add: key_part_def)
  then show ?case using key_part_inj [of p "concat (map key_part ps)" q "concat (map key_part qs')"] Cons by simp
qed

definition anchor_part :: "BlockId option \<Rightarrow> bytes list" where
  "anchor_part anchor = (case anchor of None \<Rightarrow> [] | Some bid \<Rightarrow> [bid])"

lemma semantic_key_parts:
  "semantic_key role anchor = concat (map key_part (''evidentrail/failure-onset-raw-coverage/v1'' # role_key_parts role @ anchor_part anchor))"
proof -
  have "foldl append_key_part key parts = key @ concat (map key_part parts)" for key parts
    by (induction parts arbitrary: key) (simp_all add: append_key_part_def key_part_def)
  then show ?thesis
    by (simp add: semantic_key_def append_key_part_def key_part_def anchor_part_def Let_def split: option.split)
qed

lemma codes_inj: "failure_code f = failure_code f' \<Longrightarrow> f = f'" "onset_code n = onset_code n' \<Longrightarrow> n = n'"
  "boundary_code b = boundary_code b' \<Longrightarrow> b = b'" "stratum_code c = stratum_code c' \<Longrightarrow> c = c'" "risk_code r = risk_code r' \<Longrightarrow> r = r'"
proof -
  show "failure_code f = failure_code f' \<Longrightarrow> f = f'" by (cases f; cases f') simp_all
  show "onset_code n = onset_code n' \<Longrightarrow> n = n'" by (cases n; cases n') simp_all
  show "boundary_code b = boundary_code b' \<Longrightarrow> b = b'" by (cases b; cases b') simp_all
  show "stratum_code c = stratum_code c' \<Longrightarrow> c = c'" by (cases c; cases c') simp_all
  show "risk_code r = risk_code r' \<Longrightarrow> r = r'" by (cases r; cases r') simp_all
qed

lemma role_key_parts_inj:
  assumes "role_key_parts role @ ps = role_key_parts role' @ qs" and "role_ok role" and "role_ok role'"
  shows "role = role'"
proof -
  have small: "char_of m = (char_of n :: char) \<Longrightarrow> m < 256 \<Longrightarrow> n < 256 \<Longrightarrow> m = n" for m n :: nat
    by (metis char_of_eq_iff mod_less of_char_of)
  show ?thesis
    using assms by (cases role; cases role') (auto simp: MAX_TIME_COVERAGE_STRATA_V1_def dest: codes_inj small)
qed

lemma role_parts_short: "\<forall>p \<in> set (role_key_parts role). length p \<le> 50"
proof -
  have "length (failure_code f) \<le> 50" for f by (cases f) simp_all
  moreover have "length (onset_code n) \<le> 50" for n by (cases n) simp_all
  moreover have "length (boundary_code b) \<le> 50" for b by (cases b) simp_all
  moreover have "length (stratum_code c) \<le> 50" for c by (cases c) simp_all
  moreover have "length (risk_code r) \<le> 50" for r by (cases r) simp_all
  ultimately show ?thesis by (cases role) simp_all
qed

lemma semantic_key_bounds:
  assumes "\<forall>bid \<in> set (anchor_part anchor). length bid = 32"
  shows "8 \<le> length (semantic_key role anchor)" and "length (semantic_key role anchor) \<le> 1000"
proof -
  have "sum_list (map (\<lambda>p. 8 + length p) (role_key_parts role)) \<le> 3 * 58"
    using role_parts_short [of role] by (cases role) simp_all
  moreover have "sum_list (map (\<lambda>p. 8 + length p) (anchor_part anchor)) \<le> 40"
    using assms by (cases anchor) (simp_all add: anchor_part_def)
  moreover have "length (concat (map key_part parts)) = sum_list (map (\<lambda>p. 8 + length p) parts)" for parts
    by (induction parts) (simp_all add: key_part_def)
  ultimately show "8 \<le> length (semantic_key role anchor)" and "length (semantic_key role anchor) \<le> 1000"
    by (simp_all add: semantic_key_parts key_part_def)
qed

lemma semantic_key_short:
  assumes "anchor_ok anchors role anchor" and "\<forall>bid \<in> anchors. length bid = 32"
  shows "semantic_key role anchor \<noteq> [] \<and> length (semantic_key role anchor) \<le> MAX_FACET_SEMANTIC_KEY_BYTES_V1"
proof -
  have "\<forall>bid \<in> set (anchor_part anchor). length bid = 32" using assms by (cases anchor) (simp_all add: anchor_ok_def anchor_part_def)
  from semantic_key_bounds [OF this, of role] show ?thesis by (auto simp: MAX_FACET_SEMANTIC_KEY_BYTES_V1_def)
qed

section \<open>Identities\<close>

definition facet_preimage :: "CoverageFacetRoleV1 \<Rightarrow> BlockId option \<Rightarrow> bytes" where
  "facet_preimage role anchor = update_hash_field (update_hash_field (''evidentrail/select/facet/v1'' @ [CHR 0x00])
     (facet_kind_code (production_kind role))) (semantic_key role anchor)"

lemma facet_name_preimage: "facet_name sha256 role anchor = sha256 (facet_preimage role anchor)"
  by (simp add: facet_name_def facet_key_id_def facet_preimage_def)

lemma facet_preimage_inj:
  assumes same: "facet_preimage role anchor = facet_preimage role' anchor'" and roles: "role_ok role" "role_ok role'"
    and ids: "\<forall>bid \<in> set (anchor_part anchor @ anchor_part anchor'). length bid = 32"
  shows "role = role'"
proof -
  have key: "length (semantic_key role anchor) \<le> u64_max" "length (semantic_key role' anchor') \<le> u64_max"
    using semantic_key_bounds(2) [of anchor role] semantic_key_bounds(2) [of anchor' role'] ids by simp_all
  have code: "length (facet_kind_code kind) \<le> u64_max" for kind by (cases kind) simp_all
  have "u64_le_bytes (length (facet_kind_code (production_kind role))) = u64_le_bytes (length (facet_kind_code (production_kind role')))"
    and rest: "facet_kind_code (production_kind role) @ u64_le_bytes (length (semantic_key role anchor)) @ semantic_key role anchor =
      facet_kind_code (production_kind role') @ u64_le_bytes (length (semantic_key role' anchor')) @ semantic_key role' anchor'"
    using same key code by (simp_all add: facet_preimage_def update_hash_field_def)
  then have "semantic_key role anchor = semantic_key role' anchor'" using u64_le_bytes_inj [OF _ code code] by simp
  then have "role_key_parts role @ anchor_part anchor = role_key_parts role' @ anchor_part anchor'"
    using ids role_parts_short [of role] role_parts_short [of role']
      key_parts_inj [of "''evidentrail/failure-onset-raw-coverage/v1'' # role_key_parts role @ anchor_part anchor"
        "''evidentrail/failure-onset-raw-coverage/v1'' # role_key_parts role' @ anchor_part anchor'"]
    by (fastforce simp: semantic_key_parts)
  then show ?thesis using roles by (rule role_key_parts_inj)
qed

end
