(* ===== verification/Coverage_Emit.thy ===== *)
theory Coverage_Emit
  imports Coverage_Scan Coverage_Keys
begin

text \<open>
  The emitter of the coverage lane.  A pass is judged by the state it returns: it keeps the
  invariant of annotations and emitter, only adds to what was emitted, and otherwise stops with a
  permitted failure.  The rules for sequencing and loops are proved once for such judgements.
\<close>

lemma rbind_return [simp]: "rbind r Inr = r"
  by (cases r) simp_all

lemma rfold_snoc: "rfold f s (xs @ [x]) = rbind (rfold f s xs) (\<lambda>t. f t x)"
  by (simp add: rfold_append)

section \<open>Growing states\<close>

locale growing_state =
  fixes invar :: "'s \<Rightarrow> bool"
    and grows :: "'s \<Rightarrow> 's \<Rightarrow> bool"
    and permitted :: "'e \<Rightarrow> bool"
  assumes grows_refl: "grows s s"
    and grows_trans: "grows s t \<Longrightarrow> grows t u \<Longrightarrow> grows s u"
begin

definition outcome :: "('s \<Rightarrow> bool) \<Rightarrow> 's \<Rightarrow> ('e, 's) result \<Rightarrow> bool" where
  "outcome Q s r \<longleftrightarrow> (case r of Inl e \<Rightarrow> permitted e | Inr t \<Rightarrow> invar t \<and> grows s t \<and> Q t)"

lemma outcome_return: "invar s \<Longrightarrow> Q s \<Longrightarrow> outcome Q s (Inr s)"
  by (simp add: outcome_def grows_refl)

lemma outcome_weaken: "outcome Q s r \<Longrightarrow> (\<And>t. invar t \<Longrightarrow> grows s t \<Longrightarrow> Q t \<Longrightarrow> Q' t) \<Longrightarrow> outcome Q' s r"
  by (auto simp: outcome_def split: sum.splits)

lemma outcome_after: "grows s t \<Longrightarrow> outcome Q t r \<Longrightarrow> outcome Q s r"
  by (auto simp: outcome_def intro: grows_trans split: sum.splits)

lemma outcome_bind:
  assumes "outcome P s r" and "\<And>t. invar t \<Longrightarrow> grows s t \<Longrightarrow> P t \<Longrightarrow> outcome Q t (k t)"
  shows "outcome Q s (rbind r k)"
proof (cases r)
  case (Inl e)
  then show ?thesis using assms(1) by (simp add: outcome_def)
next
  case (Inr t)
  then have t: "invar t" "grows s t" "P t" using assms(1) by (simp_all add: outcome_def)
  then show ?thesis using outcome_after [OF t(2) assms(2) [OF t]] Inr by simp
qed

text \<open>A loop with an assertion on the items visited so far.\<close>

lemma outcome_loop:
  assumes "invar s" and "P [] s"
    and "\<And>ys y zs t. xs = ys @ y # zs \<Longrightarrow> invar t \<Longrightarrow> grows s t \<Longrightarrow> P ys t \<Longrightarrow> outcome (P (ys @ [y])) t (f t y)"
  shows "outcome (P xs) s (rfold f s xs)"
  using assms(3)
proof (induction xs rule: rev_induct)
  case Nil
  then show ?case using assms(1,2) by (simp add: outcome_return)
next
  case (snoc x xs)
  have "outcome (P xs) s (rfold f s xs)" using snoc.prems by (intro snoc.IH) simp
  then have "outcome (P (xs @ [x])) s (rbind (rfold f s xs) (\<lambda>t. f t x))"
    by (rule outcome_bind) (use snoc.prems [of xs x "[]"] in simp)
  then show ?case by (simp add: rfold_snoc)
qed

text \<open>A loop whose steps establish \<open>Q x\<close> for their own item and keep it for the earlier ones.\<close>

lemma outcome_fold:
  assumes "invar s"
    and step: "\<And>t x. invar t \<Longrightarrow> grows s t \<Longrightarrow> x \<in> set xs \<Longrightarrow> outcome (Q x) t (f t x)"
    and keep: "\<And>t u x. Q x t \<Longrightarrow> grows t u \<Longrightarrow> Q x u"
  shows "outcome (\<lambda>t. \<forall>x \<in> set xs. Q x t) s (rfold f s xs)"
proof (rule outcome_loop)
  fix ys y zs t
  assume "xs = ys @ y # zs" and t: "invar t" "grows s t" and Q: "\<forall>x \<in> set ys. Q x t"
  then have "outcome (Q y) t (f t y)" by (intro step) simp_all
  then show "outcome (\<lambda>u. \<forall>x \<in> set (ys @ [y]). Q x u) t (f t y)"
    by (rule outcome_weaken) (use Q keep in auto)
qed (use assms(1) in simp_all)

end

section \<open>The invariant\<close>

definition facet_of :: "(bytes \<Rightarrow> bytes) \<Rightarrow> CoverageFacetRoleV1 \<Rightarrow> BlockId option \<Rightarrow> ProductionFacetV1" where
  "facet_of sha256 role anchor = \<lparr>facet_id = facet_name sha256 role anchor, facet_kind = production_kind role,
     facet_weight = (if is_coverage_only (production_kind role) then AFFINITY_SCALE_V1 div BREADTH_COVERAGE_FACET_WEIGHT_DENOMINATOR_V1
       else AFFINITY_SCALE_V1)\<rparr>"

text \<open>A collision is two roles with one facet identity.\<close>

definition facet_collision :: "(bytes \<Rightarrow> bytes) \<Rightarrow> BlockId set \<Rightarrow> bool" where
  "facet_collision sha256 anchors \<longleftrightarrow> (\<exists>(role, anchor) \<in> facet_places anchors. \<exists>(role', anchor') \<in> facet_places anchors.
     role \<noteq> role' \<and> facet_name sha256 role anchor = facet_name sha256 role' anchor')"

lemma facet_collision_hash:
  assumes "facet_collision sha256 anchors" and "\<forall>bid \<in> anchors. length bid = 32"
  shows "\<exists>(role, anchor) \<in> facet_places anchors. \<exists>(role', anchor') \<in> facet_places anchors.
    facet_preimage role anchor \<noteq> facet_preimage role' anchor' \<and> sha256 (facet_preimage role anchor) = sha256 (facet_preimage role' anchor')"
proof -
  have "\<forall>bid \<in> set (anchor_part anchor). length bid = 32" if "(role, anchor) \<in> facet_places anchors" for role anchor
    using that assms(2) by (cases anchor) (auto simp: facet_places_def anchor_ok_def anchor_part_def)
  then have "facet_preimage role anchor \<noteq> facet_preimage role' anchor'"
    if "(role, anchor) \<in> facet_places anchors" "(role', anchor') \<in> facet_places anchors" "role \<noteq> role'" for role anchor role' anchor'
    using that facet_preimage_inj [of role anchor role' anchor'] by (auto simp: facet_places_def)
  then show ?thesis using assms(1) unfolding facet_collision_def facet_name_preimage by fastforce
qed

definition emission_stop :: "(bytes \<Rightarrow> bytes) \<Rightarrow> BlockId set \<Rightarrow> GenerationFailure \<Rightarrow> bool" where
  "emission_stop sha256 anchors failure \<longleftrightarrow> (case failure of
     GenerationNeedsMore reason \<Rightarrow> reason \<in> {CoverageAffinityOutputCap, CoverageSentinelOutputCap}
       \<or> reason = CoverageFacetOutputCap \<and> (finite anchors \<longrightarrow> MAX_COVERAGE_OUTPUT_FACETS_V1 < card (facet_places anchors))
   | GenerationBuild e \<Rightarrow> e = FacetContractViolation \<and> facet_collision sha256 anchors)"

definition emitter_ok :: "(bytes \<Rightarrow> bytes) \<Rightarrow> BlockId set \<Rightarrow> OutputEmitter \<Rightarrow> bool" where
  "emitter_ok sha256 anchors em \<longleftrightarrow> bt_ordered (oe_facets em) \<and> length (oe_facets em) \<le> MAX_COVERAGE_OUTPUT_FACETS_V1
     \<and> oe_affinity_count em \<le> MAX_COVERAGE_OUTPUT_AFFINITIES_V1 \<and> oe_sentinel_count em \<le> MAX_COVERAGE_OUTPUT_SENTINELS_V1
     \<and> oe_full_weight em = AFFINITY_SCALE_V1 \<and> oe_full_affinity em = AFFINITY_SCALE_V1
     \<and> oe_breadth_weight em = AFFINITY_SCALE_V1 div BREADTH_COVERAGE_FACET_WEIGHT_DENOMINATOR_V1
     \<and> (\<forall>fid f. map_of (oe_facets em) fid = Some f \<longrightarrow> role_ok (cf_role f)
          \<and> (\<exists>anchor. anchor_ok anchors (cf_role f) anchor \<and> fid = facet_name sha256 (cf_role f) anchor \<and> cf_facet f = facet_of sha256 (cf_role f) anchor))"

text \<open>An annotation: its maps are keyed by their values, and every sentinel has its affinity.\<close>

definition annotation_ok :: "OutputEmitter \<Rightarrow> WorkAnnotation \<Rightarrow> bool" where
  "annotation_ok em a \<longleftrightarrow> bt_ordered (wa_affinities a) \<and> bt_ordered (wa_sentinels a)
     \<and> (\<forall>fid f. map_of (wa_affinities a) fid = Some f \<longrightarrow>
          f = \<lparr>affinity_facet = fid, affinity_micros = AFFINITY_SCALE_V1\<rparr> \<and> map_of (oe_facets em) fid \<noteq> None)
     \<and> (\<forall>kind fid sn. map_of (wa_sentinels a) (kind, fid) = Some sn \<longrightarrow>
          sn = \<lparr>sn_kind = kind, sn_facet_id = fid\<rparr> \<and> map_of (wa_affinities a) fid \<noteq> None)"

text \<open>The emitter counts what \<open>work\<close> holds, beside \<open>R\<close> affinities and \<open>S\<close> sentinels elsewhere.\<close>

definition work_ok :: "(bytes \<Rightarrow> bytes) \<Rightarrow> BlockId set \<Rightarrow> nat \<Rightarrow> nat \<Rightarrow> lane_work \<Rightarrow> bool" where
  "work_ok sha256 anchors R S state \<longleftrightarrow> (case state of (work, em) \<Rightarrow> emitter_ok sha256 anchors em
     \<and> (\<forall>a \<in> set work. annotation_ok em a)
     \<and> oe_affinity_count em = R + sum_list (map (\<lambda>a. length (wa_affinities a)) work)
     \<and> oe_sentinel_count em = S + sum_list (map (\<lambda>a. length (wa_sentinels a)) work))"

definition annotation_extends :: "WorkAnnotation \<Rightarrow> WorkAnnotation \<Rightarrow> bool" where
  "annotation_extends a a' \<longleftrightarrow> wa_block_id a' = wa_block_id a \<and> wa_failure_counts a' = wa_failure_counts a
     \<and> wa_onset_counts a' = wa_onset_counts a \<and> set (wa_onset_boundaries a) \<subseteq> set (wa_onset_boundaries a')
     \<and> map_of (wa_affinities a) \<subseteq>\<^sub>m map_of (wa_affinities a') \<and> map_of (wa_sentinels a) \<subseteq>\<^sub>m map_of (wa_sentinels a')"

definition annotation_grows :: "WorkAnnotation \<Rightarrow> WorkAnnotation \<Rightarrow> bool" where
  "annotation_grows a a' \<longleftrightarrow> annotation_extends a a' \<and> wa_failure_lane_position a' = wa_failure_lane_position a
     \<and> wa_reconstruction_risks a' = wa_reconstruction_risks a"

definition work_grows :: "lane_work \<Rightarrow> lane_work \<Rightarrow> bool" where
  "work_grows s t \<longleftrightarrow> list_all2 annotation_grows (fst s) (fst t) \<and> map_of (oe_facets (snd s)) \<subseteq>\<^sub>m map_of (oe_facets (snd t))"

lemma annotation_extends_refl [simp]: "annotation_extends a a"
  by (simp add: annotation_extends_def)

lemma annotation_extends_trans: "annotation_extends a b \<Longrightarrow> annotation_extends b c \<Longrightarrow> annotation_extends a c"
  by (auto simp: annotation_extends_def intro: map_le_trans)

lemma annotation_grows_refl [simp]: "annotation_grows a a"
  by (simp add: annotation_grows_def)

lemma annotation_grows_trans: "annotation_grows a b \<Longrightarrow> annotation_grows b c \<Longrightarrow> annotation_grows a c"
  by (auto simp: annotation_grows_def intro: annotation_extends_trans)

interpretation emit: growing_state "work_ok sha256 anchors R S" work_grows "emission_stop sha256 anchors" for sha256 anchors R S
proof
  show "work_grows s s" for s by (simp add: work_grows_def list.rel_refl)
  show "work_grows s u" if "work_grows s t" "work_grows t u" for s t u
    using that list_all2_trans [of annotation_grows annotation_grows annotation_grows] annotation_grows_trans map_le_trans
    unfolding work_grows_def by (metis (full_types))
qed

abbreviation cell_ok :: "(bytes \<Rightarrow> bytes) \<Rightarrow> BlockId set \<Rightarrow> nat \<Rightarrow> nat \<Rightarrow> WorkAnnotation \<times> OutputEmitter \<Rightarrow> bool" where
  "cell_ok sha256 anchors R S s \<equiv> work_ok sha256 anchors R S ([fst s], snd s)"

abbreviation cell_grows :: "WorkAnnotation \<times> OutputEmitter \<Rightarrow> WorkAnnotation \<times> OutputEmitter \<Rightarrow> bool" where
  "cell_grows s t \<equiv> work_grows ([fst s], snd s) ([fst t], snd t)"

interpretation cell: growing_state "cell_ok sha256 anchors R S" cell_grows "emission_stop sha256 anchors" for sha256 anchors R S
  by unfold_locales (auto intro: emit.grows_refl emit.grows_trans)

section \<open>Operations on the emitter\<close>

text \<open>A facet map that does not hold a name of the lane holds fewer facets than there are places.\<close>

lemma facets_crowd:
  assumes em: "emitter_ok sha256 anchors em" and place: "role_ok role" "anchor_ok anchors role anchor"
    and fresh: "map_of (oe_facets em) (facet_name sha256 role anchor) = None" and "finite anchors"
  shows "length (oe_facets em) < card (facet_places anchors)"
proof -
  let ?names = "set (map fst (oe_facets em))" and ?name = "\<lambda>(role, anchor). facet_name sha256 role anchor"
  have distinct: "distinct (map fst (oe_facets em))" using em by (simp add: emitter_ok_def bt_ordered_distinct)
  have "fid \<in> ?name ` facet_places anchors" if "fid \<in> ?names" for fid
  proof -
    have "map_of (oe_facets em) fid \<noteq> None" using that by (simp add: map_of_eq_None_iff)
    then obtain f where "map_of (oe_facets em) fid = Some f" by blast
    then show ?thesis using em unfolding emitter_ok_def facet_places_def by blast
  qed
  moreover have "facet_name sha256 role anchor \<in> ?name ` facet_places anchors - ?names"
    using place fresh by (auto simp: facet_places_def map_of_eq_None_iff)
  ultimately have "?names \<subset> ?name ` facet_places anchors" by blast
  then have "card ?names < card (?name ` facet_places anchors)"
    using finite_places [OF assms(5)] by (intro psubset_card_mono) simp_all
  then show ?thesis using card_image_le [OF finite_places [OF assms(5)], of ?name] distinct_card [OF distinct] by simp
qed

lemma register_facet_ok:
  assumes ok: "work_ok sha256 anchors R S (work, em)" and role: "role_ok role" and anchor: "anchor_ok anchors role anchor"
    and ids: "\<forall>bid \<in> anchors. length bid = 32"
  shows "case register_facet sha256 role anchor em of
      Inl e \<Rightarrow> emission_stop sha256 anchors e
    | Inr (fid, em') \<Rightarrow> fid = facet_name sha256 role anchor \<and> work_ok sha256 anchors R S (work, em')
        \<and> work_grows (work, em) (work, em') \<and> map_of (oe_facets em') fid \<noteq> None"
proof -
  let ?fid = "facet_name sha256 role anchor" and ?facet = "facet_of sha256 role anchor"
  have em: "emitter_ok sha256 anchors em" using ok by (simp add: work_ok_def)
  have "production_kind role \<noteq> ProviderAttestedGraphRelation" by (cases role) simp_all
  then have new: "ProductionFacetV1_new sha256 (production_kind role) (semantic_key role anchor)
      (if is_coverage_only (production_kind role) then oe_breadth_weight em else oe_full_weight em) = Inr ?facet"
    using em semantic_key_short [OF anchor ids]
    by (auto simp: ProductionFacetV1_new_def emitter_ok_def facet_of_def facet_name_def facet_key_id_def Let_def)
  have id: "facet_id ?facet = ?fid" by (simp add: facet_of_def)
  show ?thesis
  proof (cases "map_of (oe_facets em) ?fid")
    case (Some existing)
    then obtain anchor' where existing: "role_ok (cf_role existing)" "anchor_ok anchors (cf_role existing) anchor'" "?fid = facet_name sha256 (cf_role existing) anchor'"
      using em by (auto simp: emitter_ok_def)
    then have "facet_collision sha256 anchors" if "cf_role existing \<noteq> role"
      unfolding facet_collision_def facet_places_def using that role anchor by blast
    then show ?thesis using Some ok by (auto simp: register_facet_def new id Let_def emission_stop_def emit.grows_refl)
  next
    case None
    let ?em = "em\<lparr>oe_facets := bt_insert ?fid \<lparr>cf_facet = ?facet, cf_role = role\<rparr> (oe_facets em)\<rparr>"
    have "work_ok sha256 anchors R S (work, ?em)" if "length (oe_facets em) < MAX_COVERAGE_OUTPUT_FACETS_V1"
      using ok that None role anchor
      by (auto simp: work_ok_def emitter_ok_def annotation_ok_def bt_ordered_insert length_bt_insert_fresh split: if_splits)
    moreover have "work_grows (work, em) (work, ?em)" using None by (auto simp: work_grows_def list.rel_refl map_le_def)
    moreover have "MAX_COVERAGE_OUTPUT_FACETS_V1 < card (facet_places anchors)" if "finite anchors" "\<not> length (oe_facets em) < MAX_COVERAGE_OUTPUT_FACETS_V1"
      using facets_crowd [OF em role anchor None that(1)] that(2) by simp
    ultimately show ?thesis
      using None by (auto simp: register_facet_def new id Let_def emission_stop_def not_le)
  qed
qed

lemma register_then:
  assumes "work_ok sha256 anchors R S (work, em)" and "role_ok role" and "anchor_ok anchors role anchor"
    and "\<forall>bid \<in> anchors. length bid = 32"
    and "\<And>em'. work_ok sha256 anchors R S (work, em') \<Longrightarrow> work_grows (work, em) (work, em') \<Longrightarrow>
      map_of (oe_facets em') (facet_name sha256 role anchor) \<noteq> None \<Longrightarrow>
      emit.outcome sha256 anchors R S Q (work, em') (k (facet_name sha256 role anchor, em'))"
  shows "emit.outcome sha256 anchors R S Q (work, em) (rbind (register_facet sha256 role anchor em) k)"
proof (cases "register_facet sha256 role anchor em")
  case (Inl e)
  then show ?thesis using register_facet_ok [OF assms(1-4)] by (simp add: emit.outcome_def)
next
  case (Inr r)
  then show ?thesis using register_facet_ok [OF assms(1-4)] assms(5) by (cases r) (auto intro: emit.outcome_after)
qed

lemma register_then_cell:
  assumes "cell_ok sha256 anchors R S (a, em)" and "role_ok role" and "anchor_ok anchors role anchor"
    and "\<forall>bid \<in> anchors. length bid = 32"
    and "\<And>em'. cell_ok sha256 anchors R S (a, em') \<Longrightarrow> cell_grows (a, em) (a, em') \<Longrightarrow>
      map_of (oe_facets em') (facet_name sha256 role anchor) \<noteq> None \<Longrightarrow>
      cell.outcome sha256 anchors R S Q (a, em') (k (facet_name sha256 role anchor, em'))"
  shows "cell.outcome sha256 anchors R S Q (a, em) (rbind (register_facet sha256 role anchor em) k)"
proof (cases "register_facet sha256 role anchor em")
  case (Inl e)
  then show ?thesis using register_facet_ok [OF assms(1) [unfolded fst_conv snd_conv] assms(2-4)] by (simp add: cell.outcome_def)
next
  case (Inr r)
  then obtain em' where r: "register_facet sha256 role anchor em = Inr (facet_name sha256 role anchor, em')"
    and em': "cell_ok sha256 anchors R S (a, em')" "cell_grows (a, em) (a, em')" "map_of (oe_facets em') (facet_name sha256 role anchor) \<noteq> None"
    using register_facet_ok [OF assms(1) [unfolded fst_conv snd_conv] assms(2-4)] by (cases r) auto
  show ?thesis using cell.outcome_after [OF em'(2) assms(5) [OF em']] by (simp add: r)
qed

lemma output_increment:
  "current \<le> maximum \<Longrightarrow> maximum < u64_max \<Longrightarrow> checked_bounded_increment current maximum reason =
     (if current < maximum then Inr (Suc current) else Inl reason)"
  by (auto simp: checked_bounded_increment_def checked_add_u64_def)

lemma add_affinity_ok:
  assumes ok: "cell_ok sha256 anchors R S (a, em)" and fid: "map_of (oe_facets em) fid \<noteq> None"
  shows "cell.outcome sha256 anchors R S (\<lambda>(a', em'). map_of (wa_affinities a') fid \<noteq> None) (a, em) (add_affinity fid (a, em))"
proof (cases "map_of (wa_affinities a) fid")
  case None
  let ?a = "a\<lparr>wa_affinities := bt_insert fid \<lparr>affinity_facet = fid, affinity_micros = oe_full_affinity em\<rparr> (wa_affinities a)\<rparr>"
  let ?em = "em\<lparr>oe_affinity_count := Suc (oe_affinity_count em)\<rparr>"
  have cap: "oe_affinity_count em \<le> MAX_COVERAGE_OUTPUT_AFFINITIES_V1" using ok by (simp add: work_ok_def emitter_ok_def)
  have "cell_ok sha256 anchors R S (?a, ?em)" if "oe_affinity_count em < MAX_COVERAGE_OUTPUT_AFFINITIES_V1"
    using ok that None fid
    by (auto simp: work_ok_def emitter_ok_def annotation_ok_def bt_ordered_insert length_bt_insert_fresh)
  moreover have "cell_grows (a, em) (?a, ?em)"
    using None by (auto simp: work_grows_def annotation_grows_def annotation_extends_def map_le_def)
  ultimately show ?thesis
    using None output_increment [OF cap]
    by (simp add: add_affinity_def cell.outcome_def emission_stop_def MAX_COVERAGE_OUTPUT_AFFINITIES_V1_def)
next
  case (Some f)
  then show ?thesis using ok by (simp add: add_affinity_def cell.outcome_return)
qed

lemma add_sentinel_ok:
  assumes ok: "cell_ok sha256 anchors R S (a, em)" and fid: "map_of (oe_facets em) fid \<noteq> None"
  shows "cell.outcome sha256 anchors R S (\<lambda>(a', em'). map_of (wa_sentinels a') (kind, fid) \<noteq> None) (a, em) (add_sentinel kind fid (a, em))"
proof (cases "map_of (wa_sentinels a) (kind, fid)")
  case None
  let ?ws = "bt_insert (kind, fid) \<lparr>sn_kind = kind, sn_facet_id = fid\<rparr> (wa_sentinels a)"
  let ?wa = "bt_insert fid \<lparr>affinity_facet = fid, affinity_micros = oe_full_affinity em\<rparr> (wa_affinities a)"
  let ?n = "Suc (oe_sentinel_count em)" and ?m = "Suc (oe_affinity_count em)"
  have caps: "oe_affinity_count em \<le> MAX_COVERAGE_OUTPUT_AFFINITIES_V1" "oe_sentinel_count em \<le> MAX_COVERAGE_OUTPUT_SENTINELS_V1"
    using ok by (simp_all add: work_ok_def emitter_ok_def)
  have both: "cell_ok sha256 anchors R S (a\<lparr>wa_sentinels := ?ws, wa_affinities := ?wa\<rparr>, em\<lparr>oe_sentinel_count := ?n, oe_affinity_count := ?m\<rparr>)"
    if "oe_sentinel_count em < MAX_COVERAGE_OUTPUT_SENTINELS_V1" "oe_affinity_count em < MAX_COVERAGE_OUTPUT_AFFINITIES_V1"
      "map_of (wa_affinities a) fid = None"
    using ok that None fid
    by (auto simp: work_ok_def emitter_ok_def annotation_ok_def bt_ordered_insert length_bt_insert_fresh)
  have one: "cell_ok sha256 anchors R S (a\<lparr>wa_sentinels := ?ws\<rparr>, em\<lparr>oe_sentinel_count := ?n\<rparr>)"
    if "oe_sentinel_count em < MAX_COVERAGE_OUTPUT_SENTINELS_V1" "map_of (wa_affinities a) fid \<noteq> None"
    using ok that None fid
    by (auto simp: work_ok_def emitter_ok_def annotation_ok_def bt_ordered_insert length_bt_insert_fresh)
  have grows: "cell_grows (a, em) (a\<lparr>wa_sentinels := ?ws, wa_affinities := ?wa\<rparr>, em\<lparr>oe_sentinel_count := ?n, oe_affinity_count := ?m\<rparr>)"
    if "map_of (wa_affinities a) fid = None"
    using None that by (auto simp: work_grows_def annotation_grows_def annotation_extends_def map_le_def)
  have grows': "cell_grows (a, em) (a\<lparr>wa_sentinels := ?ws\<rparr>, em\<lparr>oe_sentinel_count := ?n\<rparr>)"
    using None by (auto simp: work_grows_def annotation_grows_def annotation_extends_def map_le_def)
  show ?thesis
    using None output_increment [OF caps(1)] output_increment [OF caps(2)] both one grows grows'
    by (simp add: add_sentinel_def add_affinity_def cell.outcome_def emission_stop_def MAX_COVERAGE_OUTPUT_AFFINITIES_V1_def
        MAX_COVERAGE_OUTPUT_SENTINELS_V1_def)
next
  case (Some f)
  then show ?thesis using ok by (simp add: add_sentinel_def cell.outcome_return)
qed

section \<open>Operations on an annotation\<close>

text \<open>What an annotation must hold; each of these facts survives growth.\<close>

definition has_affinity :: "FacetIdV1 \<Rightarrow> WorkAnnotation \<Rightarrow> bool" where
  "has_affinity fid a \<longleftrightarrow> map_of (wa_affinities a) fid \<noteq> None"

definition has_sentinel :: "CoverageSentinelKindV1 \<Rightarrow> FacetIdV1 \<Rightarrow> WorkAnnotation \<Rightarrow> bool" where
  "has_sentinel kind fid a \<longleftrightarrow> map_of (wa_sentinels a) (kind, fid) \<noteq> None"

lemma extends_keeps:
  assumes "annotation_extends a a'"
  shows "has_affinity fid a \<Longrightarrow> has_affinity fid a'" and "has_sentinel kind fid a \<Longrightarrow> has_sentinel kind fid a'"
    and "x \<in> set (wa_onset_boundaries a) \<Longrightarrow> x \<in> set (wa_onset_boundaries a')"
  using assms by (force simp: annotation_extends_def has_affinity_def has_sentinel_def map_le_def dom_def)+

lemma grows_keeps:
  assumes "cell_grows s t"
  shows "has_affinity fid (fst s) \<Longrightarrow> has_affinity fid (fst t)" and "has_sentinel kind fid (fst s) \<Longrightarrow> has_sentinel kind fid (fst t)"
    and "x \<in> set (wa_onset_boundaries (fst s)) \<Longrightarrow> x \<in> set (wa_onset_boundaries (fst t))"
  using assms extends_keeps [of "fst s" "fst t"] by (auto simp: work_grows_def annotation_grows_def)

lemma role_affinity_step_ok:
  assumes "cell_ok sha256 anchors R S s" and "role_ok role" and "\<not> anchored role" and "\<forall>bid \<in> anchors. length bid = 32"
  shows "cell.outcome sha256 anchors R S (\<lambda>t. has_affinity (facet_name sha256 role None) (fst t)) s (role_affinity_step sha256 s role)"
  using assms
  by (cases s) (auto simp: role_affinity_step_def anchor_ok_def has_affinity_def split_beta
      intro!: register_then_cell cell.outcome_weaken [OF add_affinity_ok])

lemma add_source_sentinel_ok:
  assumes "cell_ok sha256 anchors R S s" and "anchor_ok anchors (SourceFacet kind) anchor" and "\<forall>bid \<in> anchors. length bid = 32"
  shows "cell.outcome sha256 anchors R S
    (\<lambda>t. has_sentinel (SourceSentinel kind) (facet_name sha256 (SourceFacet kind) anchor) (fst t)) s
    (add_source_sentinel sha256 kind anchor s)"
  using assms
  by (cases s) (auto simp: add_source_sentinel_def has_sentinel_def split_beta
      intro!: register_then_cell cell.outcome_weaken [OF add_sentinel_ok])

lemma mark_boundary_ok:
  assumes "cell_ok sha256 anchors R S s" and "bid \<in> anchors" and "\<forall>bid \<in> anchors. length bid = 32"
  shows "cell.outcome sha256 anchors R S
    (\<lambda>t. (role, boundary) \<in> set (wa_onset_boundaries (fst t)) \<and> has_affinity (facet_name sha256 (OnsetBoundaryFacet role) (Some bid)) (fst t)) s
    (mark_boundary sha256 role bid boundary s)"
proof -
  obtain a em where s: "s = (a, em)" by fastforce
  let ?a = "a\<lparr>wa_onset_boundaries := btree_set ((role, boundary) # wa_onset_boundaries a)\<rparr>"
  let ?fid = "facet_name sha256 (OnsetBoundaryFacet role) (Some bid)"
  have "cell.outcome sha256 anchors R S
      (\<lambda>t. (role, boundary) \<in> set (wa_onset_boundaries (fst t)) \<and> has_affinity ?fid (fst t)) (a, em') (add_affinity ?fid (?a, em'))"
    if "cell_ok sha256 anchors R S (a, em')" and fid: "map_of (oe_facets em') ?fid \<noteq> None" for em'
  proof -
    have ok: "cell_ok sha256 anchors R S (?a, em')" and grows: "cell_grows (a, em') (?a, em')"
      using that(1) by (auto simp: work_ok_def annotation_ok_def work_grows_def annotation_grows_def annotation_extends_def)
    show ?thesis
      by (rule cell.outcome_after [OF grows], rule cell.outcome_weaken [OF add_affinity_ok [OF ok fid]])
        (auto simp: has_affinity_def work_grows_def annotation_grows_def annotation_extends_def)
  qed
  then show ?thesis
    using assms by (auto simp: s mark_boundary_def anchor_ok_def intro!: register_then_cell)
qed

section \<open>Operations on the work list\<close>

lemma annotation_ok_mono: "annotation_ok em a \<Longrightarrow> map_of (oe_facets em) \<subseteq>\<^sub>m map_of (oe_facets em') \<Longrightarrow> annotation_ok em' a"
  by (auto simp: annotation_ok_def map_le_def dom_def)

lemma sum_list_update_split:
  fixes f :: "'a \<Rightarrow> nat"
  assumes "p < length xs"
  shows "sum_list (map f (xs[p := x])) = (sum_list (map f xs) - f (xs ! p)) + f x"
  using assms elem_le_sum_list [of p "map f xs"] by (simp add: map_update sum_list_update)

lemma at_work_ok:
  assumes ok: "work_ok sha256 anchors R S s" and p: "p < length (fst s)"
    and f: "\<And>R S. cell_ok sha256 anchors R S (fst s ! p, snd s) \<Longrightarrow>
      cell.outcome sha256 anchors R S (\<lambda>t. Q (fst t)) (fst s ! p, snd s) (f (fst s ! p, snd s))"
  shows "emit.outcome sha256 anchors R S (\<lambda>t. Q (fst t ! p)) s (at_work p f s)"
proof -
  obtain work em where s: "s = (work, em)" by fastforce
  let ?R = "R + (sum_list (map (\<lambda>a. length (wa_affinities a)) work) - length (wa_affinities (work ! p)))"
  let ?S = "S + (sum_list (map (\<lambda>a. length (wa_sentinels a)) work) - length (wa_sentinels (work ! p)))"
  have member: "length (wa_affinities (work ! p)) \<le> sum_list (map (\<lambda>a. length (wa_affinities a)) work)"
    "length (wa_sentinels (work ! p)) \<le> sum_list (map (\<lambda>a. length (wa_sentinels a)) work)"
    using p elem_le_sum_list [of p "map (\<lambda>a. length (wa_affinities a)) work"] elem_le_sum_list [of p "map (\<lambda>a. length (wa_sentinels a)) work"]
    by (simp_all add: s)
  have "cell_ok sha256 anchors ?R ?S (work ! p, em)" using ok p member by (simp add: work_ok_def s)
  then have step: "cell.outcome sha256 anchors ?R ?S (\<lambda>t. Q (fst t)) (work ! p, em) (f (work ! p, em))" using f by (simp add: s)
  show ?thesis
  proof (cases "f (work ! p, em)")
    case (Inl e)
    then show ?thesis using step p by (simp add: at_work_def s emit.outcome_def cell.outcome_def)
  next
    case (Inr t)
    then obtain a' em' where t: "f (work ! p, em) = Inr (a', em')" by (cases t) simp
    then have ok': "cell_ok sha256 anchors ?R ?S (a', em')" and grows: "cell_grows (work ! p, em) (a', em')" and Q: "Q a'"
      using step by (simp_all add: cell.outcome_def)
    have facets: "map_of (oe_facets em) \<subseteq>\<^sub>m map_of (oe_facets em')" using grows by (simp add: work_grows_def)
    have "annotation_ok em' a" if "a \<in> set (work[p := a'])" for a
      using that ok ok' annotation_ok_mono [OF _ facets] set_update_subset_insert [of work p a'] by (auto simp: s work_ok_def)
    then have "work_ok sha256 anchors R S (work[p := a'], em')"
      using ok' p by (simp add: s work_ok_def sum_list_update_split)
    moreover have "work_grows (work, em) (work[p := a'], em')"
      using grows p facets by (auto simp: s work_grows_def list_all2_conv_all_nth nth_list_update)
    ultimately show ?thesis using t p Q by (simp add: at_work_def s emit.outcome_def)
  qed
qed

lemma work_grows_length: "work_grows s t \<Longrightarrow> length (fst t) = length (fst s)"
  by (simp add: work_grows_def list_all2_conv_all_nth)

lemma work_grows_nth: "work_grows s t \<Longrightarrow> p < length (fst s) \<Longrightarrow> annotation_grows (fst s ! p) (fst t ! p)"
  by (simp add: work_grows_def list_all2_conv_all_nth)

text \<open>Updating other fields of the annotations keeps the invariant.\<close>

lemma work_ok_update:
  assumes "work_ok sha256 anchors R S (work, em)" and len: "length work' = length work"
    and same: "\<And>p. p < length work \<Longrightarrow> wa_affinities (work' ! p) = wa_affinities (work ! p) \<and> wa_sentinels (work' ! p) = wa_sentinels (work ! p)"
  shows "work_ok sha256 anchors R S (work', em)"
proof -
  have "map (\<lambda>a. length (wa_affinities a)) work' = map (\<lambda>a. length (wa_affinities a)) work"
    "map (\<lambda>a. length (wa_sentinels a)) work' = map (\<lambda>a. length (wa_sentinels a)) work"
    using same len by (auto intro: nth_equalityI)
  moreover have "annotation_ok em (work' ! p)" if "p < length work" for p
    using assms(1) that same [OF that] by (auto simp: work_ok_def annotation_ok_def all_set_conv_all_nth)
  ultimately show ?thesis using assms(1) len by (simp add: work_ok_def all_set_conv_all_nth)
qed

end
