(* ===== verification/Coverage_Passes.thy ===== *)
theory Coverage_Passes
  imports Coverage_Emit
begin

text \<open>
  The four passes of the coverage lane: what each establishes on the annotations, that it keeps the
  invariant of the emitter, and that it stops only for an output cap or a facet collision.
\<close>

section \<open>Signal facets\<close>

lemma cell_affinities_ok:
  assumes "cell_ok sha256 anchors R S s" and "\<forall>role \<in> set roles. role_ok role \<and> \<not> anchored role" and "\<forall>bid \<in> anchors. length bid = 32"
  shows "cell.outcome sha256 anchors R S (\<lambda>t. \<forall>role \<in> set roles. has_affinity (facet_name sha256 role None) (fst t)) s
    (rfold (role_affinity_step sha256) s roles)"
  using assms by (intro cell.outcome_fold role_affinity_step_ok) (auto intro: grows_keeps(1))

lemma cell_growsD: "work_grows ([a], em) ([a'], em') \<Longrightarrow> annotation_grows a a'"
  by (simp add: work_grows_def)

definition signal_roles :: "WorkAnnotation \<Rightarrow> CoverageFacetRoleV1 list" where
  "signal_roles a = map (\<lambda>(kind, _). FailureFacet kind) (wa_failure_counts a) @ map (\<lambda>(kind, _). ExplicitOnsetFacet kind) (wa_onset_counts a)"

lemma signal_step_ok:
  assumes ok: "work_ok sha256 anchors 0 0 (work, em)" and fresh: "wa_affinities a = []" "wa_sentinels a = []"
    and ids: "\<forall>bid \<in> anchors. length bid = 32"
  shows "case signal_step sha256 (work, em) a of Inl e \<Rightarrow> emission_stop sha256 anchors e
    | Inr (work', em') \<Rightarrow> work_ok sha256 anchors 0 0 (work', em')
        \<and> (\<exists>a'. work' = work @ [a'] \<and> annotation_grows a a' \<and> (\<forall>role \<in> set (signal_roles a). has_affinity (facet_name sha256 role None) a'))"
proof -
  let ?fs = "map (\<lambda>(kind, _). FailureFacet kind) (wa_failure_counts a)"
  let ?ns = "map (\<lambda>(kind, _). ExplicitOnsetFacet kind) (wa_onset_counts a)"
  let ?R = "sum_list (map (\<lambda>a. length (wa_affinities a)) work)" and ?S = "sum_list (map (\<lambda>a. length (wa_sentinels a)) work)"
  let ?k = "\<lambda>t :: WorkAnnotation \<times> OutputEmitter. rfold (role_affinity_step sha256) t (map (\<lambda>(kind, _). ExplicitOnsetFacet kind) (wa_onset_counts (fst t)))"
  have cell: "cell_ok sha256 anchors ?R ?S (a, em)" using ok fresh by (simp add: work_ok_def annotation_ok_def)
  have "cell.outcome sha256 anchors ?R ?S (\<lambda>t. \<forall>role \<in> set (signal_roles a). has_affinity (facet_name sha256 role None) (fst t)) (a, em)
      (rbind (rfold (role_affinity_step sha256) (a, em) ?fs) ?k)"
  proof (rule cell.outcome_bind [OF cell_affinities_ok [OF cell _ ids]])
    fix t
    assume t: "cell_ok sha256 anchors ?R ?S t" "cell_grows (a, em) t" "\<forall>role \<in> set ?fs. has_affinity (facet_name sha256 role None) (fst t)"
    then have counts: "wa_onset_counts (fst t) = wa_onset_counts a"
      by (simp add: work_grows_def annotation_grows_def annotation_extends_def)
    have "cell.outcome sha256 anchors ?R ?S (\<lambda>u. \<forall>role \<in> set ?ns. has_affinity (facet_name sha256 role None) (fst u)) t (?k t)"
      unfolding counts by (rule cell_affinities_ok [OF t(1) _ ids]) auto
    then show "cell.outcome sha256 anchors ?R ?S (\<lambda>u. \<forall>role \<in> set (signal_roles a). has_affinity (facet_name sha256 role None) (fst u)) t (?k t)"
      by (rule cell.outcome_weaken) (use t(3) grows_keeps(1) in \<open>auto simp: signal_roles_def\<close>)
  qed auto
  moreover have "signal_step sha256 (work, em) a =
      rbind (rbind (rfold (role_affinity_step sha256) (a, em) ?fs) ?k) (\<lambda>(a, em). Inr (work @ [a], em))"
    by (cases "rfold (role_affinity_step sha256) (a, em) ?fs") (auto simp: signal_step_def)
  moreover have "work_ok sha256 anchors 0 0 (work @ [a'], em')"
    if "cell_ok sha256 anchors ?R ?S (a', em')" "cell_grows (a, em) (a', em')" for a' em'
  proof -
    have "\<forall>b \<in> set work. annotation_ok em' b" using ok that(2) annotation_ok_mono by (auto simp: work_ok_def work_grows_def)
    then show ?thesis using that(1) by (simp add: work_ok_def)
  qed
  ultimately show ?thesis
    by (cases "rbind (rfold (role_affinity_step sha256) (a, em) ?fs) ?k") (auto simp: cell.outcome_def dest: cell_growsD)
qed

lemma signal_pass_ok:
  assumes "emitter_ok sha256 anchors em" and "oe_affinity_count em = 0" and "oe_sentinel_count em = 0"
    and fresh: "\<forall>a \<in> set work. wa_affinities a = [] \<and> wa_sentinels a = []" and ids: "\<forall>bid \<in> anchors. length bid = 32"
  shows "case annotate_failure_and_explicit_onset sha256 (work, em) of Inl e \<Rightarrow> emission_stop sha256 anchors e
    | Inr (work', em') \<Rightarrow> work_ok sha256 anchors 0 0 (work', em')
        \<and> list_all2 (\<lambda>a a'. annotation_grows a a' \<and> (\<forall>role \<in> set (signal_roles a). has_affinity (facet_name sha256 role None) a')) work work'"
  using fresh
proof (induction work rule: rev_induct)
  case Nil
  then show ?case using assms by (simp add: annotate_failure_and_explicit_onset_def work_ok_def)
next
  case (snoc a work)
  then have IH: "case rfold (signal_step sha256) ([], em) work of Inl e \<Rightarrow> emission_stop sha256 anchors e
    | Inr (work', em') \<Rightarrow> work_ok sha256 anchors 0 0 (work', em')
        \<and> list_all2 (\<lambda>a a'. annotation_grows a a' \<and> (\<forall>role \<in> set (signal_roles a). has_affinity (facet_name sha256 role None) a')) work work'"
    by (simp add: annotate_failure_and_explicit_onset_def)
  show ?case
  proof (cases "rfold (signal_step sha256) ([], em) work")
    case (Inl e)
    then show ?thesis using IH by (simp add: annotate_failure_and_explicit_onset_def rfold_append)
  next
    case (Inr s)
    obtain work' em' where s: "s = (work', em')" by fastforce
    then have ok: "work_ok sha256 anchors 0 0 (work', em')"
      and all: "list_all2 (\<lambda>a a'. annotation_grows a a' \<and> (\<forall>role \<in> set (signal_roles a). has_affinity (facet_name sha256 role None) a')) work work'"
      using IH Inr by simp_all
    have "annotate_failure_and_explicit_onset sha256 (work @ [a], em) = signal_step sha256 (work', em') a"
      using Inr by (simp add: annotate_failure_and_explicit_onset_def rfold_snoc s)
    then show ?thesis
      using signal_step_ok [OF ok _ _ ids, of a] snoc.prems all by (auto split: sum.splits intro: list_all2_appendI)
  qed
qed

section \<open>Lanes and boundaries\<close>

text \<open>Growth that may also place failing blocks in their lane.\<close>

definition work_extends :: "lane_work \<Rightarrow> lane_work \<Rightarrow> bool" where
  "work_extends s t \<longleftrightarrow> list_all2 (\<lambda>a a'. annotation_extends a a' \<and> wa_reconstruction_risks a' = wa_reconstruction_risks a) (fst s) (fst t)
     \<and> map_of (oe_facets (snd s)) \<subseteq>\<^sub>m map_of (oe_facets (snd t))"

lemma work_extends_nth: "work_extends s t \<longleftrightarrow> length (fst t) = length (fst s)
    \<and> (\<forall>p < length (fst s). annotation_extends (fst s ! p) (fst t ! p)
        \<and> wa_reconstruction_risks (fst t ! p) = wa_reconstruction_risks (fst s ! p))
    \<and> map_of (oe_facets (snd s)) \<subseteq>\<^sub>m map_of (oe_facets (snd t))"
  by (auto simp: work_extends_def list_all2_conv_all_nth)

lemma work_extends_trans:
  assumes "work_extends s t" and "work_extends t u"
  shows "work_extends s u"
proof -
  have "annotation_extends (fst s ! p) (fst u ! p) \<and> wa_reconstruction_risks (fst u ! p) = wa_reconstruction_risks (fst s ! p)"
    if "p < length (fst s)" for p
    using that assms annotation_extends_trans [of "fst s ! p" "fst t ! p" "fst u ! p"] by (simp add: work_extends_nth)
  then show ?thesis using assms map_le_trans by (auto simp: work_extends_nth)
qed

interpretation pass: growing_state "work_ok sha256 anchors R S" work_extends "emission_stop sha256 anchors" for sha256 anchors R S
  by unfold_locales (simp add: work_extends_nth, rule work_extends_trans)

abbreviation places :: "lane_work \<Rightarrow> (nat \<times> nat) option list" where
  "places t \<equiv> map wa_failure_lane_position (fst t)"

lemma grows_extends: "work_grows s t \<Longrightarrow> work_extends s t \<and> places t = places s"
  by (auto simp: work_grows_def work_extends_def annotation_grows_def list_all2_conv_all_nth intro: nth_equalityI)

lemma pass_outcome: "emit.outcome sha256 anchors R S Q s r \<Longrightarrow> pass.outcome sha256 anchors R S (\<lambda>t. Q t \<and> places t = places s) s r"
  by (cases r) (simp_all add: emit.outcome_def pass.outcome_def grows_extends)

lemma extends_nth: "work_extends s t \<Longrightarrow> p < length (fst s) \<Longrightarrow> annotation_extends (fst s ! p) (fst t ! p)"
  by (simp add: work_extends_def list_all2_conv_all_nth)

lemma extends_length: "work_extends s t \<Longrightarrow> length (fst t) = length (fst s)"
  by (simp add: work_extends_def list_all2_conv_all_nth)

lemma extends_list: "work_extends s t \<Longrightarrow> list_all2 annotation_extends (fst s) (fst t)"
  by (auto simp: work_extends_def elim!: list_all2_mono)

lemma add_onset_boundary_ok:
  assumes ok: "work_ok sha256 anchors R S s" and facts: "length facts = length (fst s)" and anchor: "anchor \<in> anchors"
    and ids: "\<forall>bid \<in> anchors. length bid = 32" and ps: "distinct ps" "\<forall>p \<in> set ps. p < length (fst s)" "bp \<in> set ps"
  shows "emit.outcome sha256 anchors R S (\<lambda>t. (fst roles, bf_block_id (facts ! bp)) \<in> set (wa_onset_boundaries (fst t ! bp))
      \<and> (\<forall>k. Suc k < length ps \<longrightarrow> ps ! Suc k = bp \<longrightarrow>
          (snd roles, bf_block_id (facts ! bp)) \<in> set (wa_onset_boundaries (fst t ! (ps ! k))))) s
    (add_onset_boundary sha256 ps bp anchor roles facts s)"
proof -
  obtain k where k: "k < length ps" "ps ! k = bp" using ps(3) by (auto simp: in_set_conv_nth)
  have position: "position_of (\<lambda>q. q = bp) ps = Some k" using position_of_unique [where xs = ps and f = id and i = k] k ps(1) by simp
  have bp: "bp < length (fst s)" using ps by blast
  have unique: "k' = k" if "k' < length ps" "ps ! k' = bp" for k' using that k ps(1) nth_eq_iff_index_eq by metis
  let ?at = "\<lambda>j role t. (role, bf_block_id (facts ! bp)) \<in> set (wa_onset_boundaries (fst t ! j))"
  have mark: "emit.outcome sha256 anchors R S (?at j role) t (at_work j (mark_boundary sha256 role anchor (bf_block_id (facts ! bp))) t)"
    if "work_ok sha256 anchors R S t" "j < length (fst t)" for j role t
    by (rule at_work_ok [OF that], rule cell.outcome_weaken [OF mark_boundary_ok [OF _ anchor ids]]) simp_all
  have rest: "emit.outcome sha256 anchors R S (\<lambda>u. ?at bp (fst roles) u \<and> (\<forall>k. Suc k < length ps \<longrightarrow> ps ! Suc k = bp \<longrightarrow> ?at (ps ! k) (snd roles) u)) t
      (case checked_sub_u64 k 1 of None \<Rightarrow> Inr t | Some j \<Rightarrow> rbind (nth_or (GenerationBuild CandidatePanic) ps j)
        (\<lambda>q. at_work q (mark_boundary sha256 (snd roles) anchor (bf_block_id (facts ! bp))) t))"
    if t: "work_ok sha256 anchors R S t" "work_grows s t" "?at bp (fst roles) t" for t
  proof (cases k)
    case 0
    then show ?thesis using t unique by (auto simp: checked_sub_u64_def intro!: emit.outcome_return dest: Suc_lessD)
  next
    case (Suc j)
    then have j: "j < length ps" "ps ! j < length (fst t)" using k ps(2) work_grows_length [OF t(2)] by auto
    have "emit.outcome sha256 anchors R S (\<lambda>u. ?at bp (fst roles) u \<and> (\<forall>k. Suc k < length ps \<longrightarrow> ps ! Suc k = bp \<longrightarrow> ?at (ps ! k) (snd roles) u)) t
        (at_work (ps ! j) (mark_boundary sha256 (snd roles) anchor (bf_block_id (facts ! bp))) t)"
    proof (rule emit.outcome_weaken [OF mark [OF t(1) j(2)]])
      fix u
      assume u: "work_grows t u" "?at (ps ! j) (snd roles) u"
      have "annotation_grows (fst t ! bp) (fst u ! bp)" using work_grows_nth [OF u(1)] bp work_grows_length [OF t(2)] by simp
      then have "?at bp (fst roles) u" using t(3) by (auto simp: annotation_grows_def annotation_extends_def)
      then show "?at bp (fst roles) u \<and> (\<forall>k. Suc k < length ps \<longrightarrow> ps ! Suc k = bp \<longrightarrow> ?at (ps ! k) (snd roles) u)"
        using u(2) unique Suc by auto
    qed
    then show ?thesis using Suc j(1) by (simp add: checked_sub_u64_def)
  qed
  have "nth_or (GenerationBuild CandidatePanic) facts bp = Inr (facts ! bp)" using bp facts by simp
  then show ?thesis
    unfolding add_onset_boundary_def position
    by (simp only: rbind_simps ok_or_simps) (rule emit.outcome_bind [OF mark [OF ok bp] rest])
qed

text \<open>The failing blocks of a lane get their ordinal among them and their number.\<close>

definition place_of :: "nat list \<Rightarrow> nat \<Rightarrow> nat \<times> nat" where
  "place_of fps p = (length (takeWhile (\<lambda>q. q \<noteq> p) fps), length fps)"

definition placed_work :: "nat \<Rightarrow> nat list \<Rightarrow> WorkAnnotation list \<Rightarrow> WorkAnnotation list" where
  "placed_work n fps work = map (\<lambda>p. if p \<in> set fps
     then (work ! p)\<lparr>wa_failure_lane_position := Some (length (takeWhile (\<lambda>q. q \<noteq> p) fps), n)\<rparr> else work ! p) [0..<length work]"

lemma failure_positions_placed:
  assumes "distinct fps" and "\<forall>p \<in> set fps. p < length work" and "length fps \<le> 4294967295"
  shows "rfold (failure_position_step n) work (enumerate 0 fps) = Inr (placed_work n fps work)"
  using assms
proof (induction fps rule: rev_induct)
  case Nil
  then show ?case by (simp add: placed_work_def map_nth)
next
  case (snoc p fps)
  have fresh: "takeWhile (\<lambda>q. q \<noteq> p') (fps @ [p]) = takeWhile (\<lambda>q. q \<noteq> p') fps" if "p' \<in> set fps" for p'
    using that by (auto simp: takeWhile_append)
  have "takeWhile (\<lambda>q. q \<noteq> p) (fps @ [p]) = fps" using snoc.prems(1) by (simp add: takeWhile_append takeWhile_eq_all_conv)
  moreover have "p < length work" "p \<notin> set fps" using snoc.prems by simp_all
  ultimately have "(placed_work n fps work)[p := (work ! p)\<lparr>wa_failure_lane_position := Some (length fps, n)\<rparr>] = placed_work n (fps @ [p]) work"
    using fresh by (intro nth_equalityI) (auto simp: placed_work_def nth_list_update)
  moreover have "nth_or (GenerationBuild CandidatePanic) (placed_work n fps work) p = Inr (work ! p)"
    using \<open>p < length work\<close> \<open>p \<notin> set fps\<close> by (simp add: placed_work_def)
  ultimately show ?case
    using snoc by (simp add: enumerate_append_eq rfold_append failure_position_step_def u32_try_from_def)
qed

lemma placed_work_ok:
  assumes "work_ok sha256 anchors R S (work, em)"
  shows "work_ok sha256 anchors R S (placed_work n fps work, em)" and "work_extends (work, em) (placed_work n fps work, em)"
  by (rule work_ok_update [OF assms]) (simp_all add: placed_work_def work_extends_nth annotation_extends_def)

text \<open>What the lane pass leaves on the blocks of a lane, in lane order.\<close>

definition boundary_marked ::
  "OnsetBoundaryRoleV1 \<times> OnsetBoundaryRoleV1 \<Rightarrow> (WorkAnnotation \<Rightarrow> bool) \<Rightarrow> BlockFacts list \<Rightarrow> nat list \<Rightarrow> lane_work \<Rightarrow> bool" where
  "boundary_marked roles P facts ps t \<longleftrightarrow> (case filter (\<lambda>p. P (fst t ! p)) ps of [] \<Rightarrow> True
   | bp # _ \<Rightarrow> (fst roles, bf_block_id (facts ! bp)) \<in> set (wa_onset_boundaries (fst t ! bp))
      \<and> (\<forall>k. Suc k < length ps \<longrightarrow> ps ! Suc k = bp \<longrightarrow>
          (snd roles, bf_block_id (facts ! bp)) \<in> set (wa_onset_boundaries (fst t ! (ps ! k)))))"

definition source_marked :: "(bytes \<Rightarrow> bytes) \<Rightarrow> SourceCoverageStratumKindV1 \<Rightarrow> BlockId option \<Rightarrow> WorkAnnotation \<Rightarrow> bool" where
  "source_marked sha256 kind anchor a \<longleftrightarrow> has_sentinel (SourceSentinel kind) (facet_name sha256 (SourceFacet kind) anchor) a"

definition lane_marked :: "(bytes \<Rightarrow> bytes) \<Rightarrow> BlockFacts list \<Rightarrow> nat list \<Rightarrow> lane_work \<Rightarrow> bool" where
  "lane_marked sha256 facts ps t \<longleftrightarrow> source_marked sha256 SourceStreamHead (Some (bf_block_id (facts ! hd ps))) (fst t ! hd ps)
     \<and> source_marked sha256 SourceStreamTail (Some (bf_block_id (facts ! hd ps))) (fst t ! last ps)
     \<and> boundary_marked (FirstFailureInLane, LastAvailableBeforeFirstFailure) (\<lambda>a. wa_failure_counts a \<noteq> []) facts ps t
     \<and> boundary_marked (FirstExplicitOnsetInLane, LastAvailableBeforeFirstExplicitOnset) (\<lambda>a. wa_onset_counts a \<noteq> []) facts ps t"

lemma boundary_marked_keep:
  assumes "boundary_marked roles P facts ps t" and "list_all2 annotation_extends (fst t) (fst u)" and "\<forall>p \<in> set ps. p < length (fst t)"
    and P: "\<And>a a'. annotation_extends a a' \<Longrightarrow> P a' = P a"
  shows "boundary_marked roles P facts ps u"
proof -
  have same: "filter (\<lambda>p. P (fst u ! p)) ps = filter (\<lambda>p. P (fst t ! p)) ps"
    using assms(3) P list_all2_nthD [OF assms(2)] by (intro filter_cong) auto
  have keep: "x \<in> set (wa_onset_boundaries (fst u ! p))" if "x \<in> set (wa_onset_boundaries (fst t ! p))" "p \<in> set ps" for x p
    using that assms(3) extends_keeps(3) [OF list_all2_nthD [OF assms(2)]] by blast
  have "bp \<in> set ps" if "filter (\<lambda>p. P (fst t ! p)) ps = bp # rest" for bp rest using arg_cong [OF that, of set] by auto
  then show ?thesis
    using assms(1) keep unfolding boundary_marked_def same by (auto split: list.splits dest: Suc_lessD)
qed

lemma source_marked_keep: "source_marked sha256 kind anchor a \<Longrightarrow> annotation_extends a a' \<Longrightarrow> source_marked sha256 kind anchor a'"
  by (simp add: source_marked_def extends_keeps(2))

lemma lane_marked_keep:
  assumes "lane_marked sha256 facts ps t" and "list_all2 annotation_extends (fst t) (fst u)" and "\<forall>p \<in> set ps. p < length (fst t)" and "ps \<noteq> []"
  shows "lane_marked sha256 facts ps u"
proof -
  have "hd ps < length (fst t)" "last ps < length (fst t)" using assms(3,4) by simp_all
  then show ?thesis
    using assms list_all2_nthD [OF assms(2)] unfolding lane_marked_def
    by (auto intro: source_marked_keep boundary_marked_keep simp: annotation_extends_def)
qed

lemma positions_with_ok:
  assumes "\<forall>p \<in> set ps. p < length work"
  shows "positions_with P work ps = Inr (filter (\<lambda>p. P (work ! p)) ps)"
proof -
  have "rmap (nth_or (GenerationBuild CandidatePanic) work) ps = Inr (map ((!) work) ps)" using assms by (intro rmap_map) simp
  then show ?thesis by (simp add: positions_with_def zip_map2 zip_same_conv_map filter_map comp_def)
qed

lemma boundary_step_ok:
  assumes ok: "work_ok sha256 anchors R S s" and facts: "length facts = length (fst s)" and anchor: "anchor \<in> anchors"
    and ids: "\<forall>bid \<in> anchors. length bid = 32" and ps: "distinct ps" "\<forall>p \<in> set ps. p < length (fst s)"
    and P: "\<And>a a'. annotation_extends a a' \<Longrightarrow> P a' = P a"
  shows "pass.outcome sha256 anchors R S (\<lambda>t. boundary_marked roles P facts ps t \<and> places t = places s) s
    (case filter (\<lambda>p. P (fst s ! p)) ps of [] \<Rightarrow> Inr s | bp # _ \<Rightarrow> add_onset_boundary sha256 ps bp anchor roles facts s)"
proof (cases "filter (\<lambda>p. P (fst s ! p)) ps")
  case Nil
  then show ?thesis using ok by (simp add: pass.outcome_return boundary_marked_def)
next
  case (Cons bp rest)
  have "bp \<in> set (filter (\<lambda>p. P (fst s ! p)) ps)" unfolding Cons by simp
  then have "bp \<in> set ps" by simp
  note step = pass_outcome [OF add_onset_boundary_ok [OF ok facts anchor ids ps this]]
  have "filter (\<lambda>p. P (fst t ! p)) ps = bp # rest" if "work_extends s t" for t
  proof -
    have "filter (\<lambda>p. P (fst t ! p)) ps = filter (\<lambda>p. P (fst s ! p)) ps"
      using ps(2) P extends_nth [OF that] by (intro filter_cong) auto
    with Cons show ?thesis by simp
  qed
  then show ?thesis
    using Cons by (auto simp: boundary_marked_def intro: pass.outcome_weaken [OF step])
qed

text \<open>The places after a lane with failing positions \<open>fps\<close>.\<close>

definition placed_at :: "nat list \<Rightarrow> (nat \<times> nat) option list \<Rightarrow> (nat \<times> nat) option list" where
  "placed_at fps old = map (\<lambda>p. if p \<in> set fps then Some (place_of fps p) else old ! p) [0..<length old]"

text \<open>The part of the lane step after its two sentinels.\<close>

definition lane_rest ::
  "(bytes \<Rightarrow> bytes) \<Rightarrow> BlockFacts list \<Rightarrow> nat list \<Rightarrow> lane_work \<Rightarrow> (GenerationFailure, lane_work) result" where
  "lane_rest sha256 facts positions state =
     (case state of (work, em) \<Rightarrow>
      rbind (positions_with (\<lambda>a. wa_failure_counts a \<noteq> []) work positions) (\<lambda>failure_positions.
      rbind (ok_or (GenerationNeedsMore ArithmeticCapacity) (u32_try_from (length failure_positions))) (\<lambda>failure_block_count.
      rbind (rfold (failure_position_step failure_block_count) work (enumerate 0 failure_positions)) (\<lambda>work.
      rbind (case failure_positions of
          [] \<Rightarrow> Inr (work, em)
        | boundary_position # _ \<Rightarrow> add_onset_boundary sha256 positions boundary_position (bf_block_id (facts ! hd positions))
            (FirstFailureInLane, LastAvailableBeforeFirstFailure) facts (work, em)) (\<lambda>(work, em).
      rbind (positions_with (\<lambda>a. wa_onset_counts a \<noteq> []) work positions) (\<lambda>onset_positions.
      case onset_positions of
        [] \<Rightarrow> Inr (work, em)
      | boundary_position # _ \<Rightarrow> add_onset_boundary sha256 positions boundary_position (bf_block_id (facts ! hd positions))
          (FirstExplicitOnsetInLane, LastAvailableBeforeFirstExplicitOnset) facts (work, em)))))))"

lemma lane_step_unfold:
  assumes "ps \<noteq> []" and "hd ps < length facts"
  shows "lane_step sha256 facts s ps =
    rbind (at_work (hd ps) (add_source_sentinel sha256 SourceStreamHead (Some (bf_block_id (facts ! hd ps)))) s) (\<lambda>t.
    rbind (at_work (last ps) (add_source_sentinel sha256 SourceStreamTail (Some (bf_block_id (facts ! hd ps)))) t) (lane_rest sha256 facts ps))"
proof -
  obtain p qs where ps: "ps = p # qs" using assms(1) by (cases ps) simp_all
  have "nth_or (GenerationBuild CandidatePanic) facts p = Inr (facts ! p)" using assms(2) ps by simp
  then show ?thesis
    unfolding lane_step_def lane_rest_def ps list.case Let_def list.sel by (simp only: rbind_simps)
qed

lemma lane_rest_ok:
  assumes ok: "work_ok sha256 anchors R S s" and facts: "length facts = length (fst s)" "length facts \<le> 4294967295"
    and anchor: "bf_block_id (facts ! hd ps) \<in> anchors" and ids: "\<forall>bid \<in> anchors. length bid = 32"
    and ps: "ps \<noteq> []" "distinct ps" "\<forall>p \<in> set ps. p < length (fst s)"
  shows "pass.outcome sha256 anchors R S
    (\<lambda>t. boundary_marked (FirstFailureInLane, LastAvailableBeforeFirstFailure) (\<lambda>a. wa_failure_counts a \<noteq> []) facts ps t
      \<and> boundary_marked (FirstExplicitOnsetInLane, LastAvailableBeforeFirstExplicitOnset) (\<lambda>a. wa_onset_counts a \<noteq> []) facts ps t
      \<and> places t = placed_at (filter (\<lambda>p. wa_failure_counts (fst s ! p) \<noteq> []) ps) (places s)) s
    (lane_rest sha256 facts ps s)"
proof -
  obtain work em where s: "s = (work, em)" by fastforce
  let ?fps = "filter (\<lambda>p. wa_failure_counts (work ! p) \<noteq> []) ps"
  let ?work = "placed_work (length ?fps) ?fps work"
  have "length ps \<le> length work" using ps s by (metis card_mono distinct_card finite_lessThan lessThan_iff subsetI card_lessThan fst_conv)
  then have "length ps \<le> 4294967295" using facts s by simp
  then have few: "length ?fps \<le> 4294967295" using le_trans [OF length_filter_le] by blast
  have placed: "rfold (failure_position_step (length ?fps)) work (enumerate 0 ?fps) = Inr ?work"
    using ps few s by (intro failure_positions_placed) auto
  note v = placed_work_ok [OF ok [unfolded s], of "length ?fps" ?fps]
  have len: "length ?work = length work" by (simp add: placed_work_def)
  have same: "filter (\<lambda>p. wa_failure_counts (?work ! p) \<noteq> []) ps = ?fps"
    using ps s by (intro filter_cong) (auto simp: placed_work_def)
  have at: "map wa_failure_lane_position ?work = placed_at ?fps (places s)"
    by (intro nth_equalityI) (auto simp: s placed_work_def placed_at_def place_of_def)
  have onset: "pass.outcome sha256 anchors R S (\<lambda>u. boundary_marked (FirstExplicitOnsetInLane, LastAvailableBeforeFirstExplicitOnset)
        (\<lambda>a. wa_onset_counts a \<noteq> []) facts ps u \<and> places u = places t) t
      (case t of (work, em) \<Rightarrow> rbind (positions_with (\<lambda>a. wa_onset_counts a \<noteq> []) work ps) (\<lambda>onset_positions. case onset_positions of
        [] \<Rightarrow> Inr (work, em) | bp # _ \<Rightarrow> add_onset_boundary sha256 ps bp (bf_block_id (facts ! hd ps))
          (FirstExplicitOnsetInLane, LastAvailableBeforeFirstExplicitOnset) facts (work, em)))"
    if "work_ok sha256 anchors R S t" "length (fst t) = length work" for t
  proof -
    obtain work' em' where t: "t = (work', em')" by fastforce
    have positions: "\<forall>p \<in> set ps. p < length (fst t)" using ps that(2) s by simp
    have "positions_with (\<lambda>a. wa_onset_counts a \<noteq> []) work' ps = Inr (filter (\<lambda>p. wa_onset_counts (work' ! p) \<noteq> []) ps)"
      using positions t by (intro positions_with_ok) simp
    moreover note boundary_step_ok [OF that(1) _ anchor ids ps(2) positions, of facts "\<lambda>a. wa_onset_counts a \<noteq> []"
        "(FirstExplicitOnsetInLane, LastAvailableBeforeFirstExplicitOnset)"]
    ultimately show ?thesis
      unfolding t prod.case fst_conv using facts s that(2) t by (simp add: annotation_extends_def)
  qed
  note failure = boundary_step_ok [OF v(1) _ anchor ids ps(2), of facts "\<lambda>a. wa_failure_counts a \<noteq> []"
      "(FirstFailureInLane, LastAvailableBeforeFirstFailure)", unfolded fst_conv same]
  have "pass.outcome sha256 anchors R S
    (\<lambda>t. boundary_marked (FirstFailureInLane, LastAvailableBeforeFirstFailure) (\<lambda>a. wa_failure_counts a \<noteq> []) facts ps t
      \<and> boundary_marked (FirstExplicitOnsetInLane, LastAvailableBeforeFirstExplicitOnset) (\<lambda>a. wa_onset_counts a \<noteq> []) facts ps t
      \<and> places t = placed_at ?fps (places s)) (?work, em)
    (rbind (case ?fps of [] \<Rightarrow> Inr (?work, em) | bp # _ \<Rightarrow> add_onset_boundary sha256 ps bp (bf_block_id (facts ! hd ps))
        (FirstFailureInLane, LastAvailableBeforeFirstFailure) facts (?work, em))
      (\<lambda>(work, em). rbind (positions_with (\<lambda>a. wa_onset_counts a \<noteq> []) work ps) (\<lambda>onset_positions. case onset_positions of
        [] \<Rightarrow> Inr (work, em) | bp # _ \<Rightarrow> add_onset_boundary sha256 ps bp (bf_block_id (facts ! hd ps))
          (FirstExplicitOnsetInLane, LastAvailableBeforeFirstExplicitOnset) facts (work, em))))"
  proof (rule pass.outcome_bind [OF failure])
    fix t
    assume t: "work_ok sha256 anchors R S t" "work_extends (?work, em) t"
      "boundary_marked (FirstFailureInLane, LastAvailableBeforeFirstFailure) (\<lambda>a. wa_failure_counts a \<noteq> []) facts ps t
        \<and> places t = map wa_failure_lane_position ?work"
    have length: "length (fst t) = length work" using extends_length [OF t(2)] len by simp
    show "pass.outcome sha256 anchors R S
      (\<lambda>t. boundary_marked (FirstFailureInLane, LastAvailableBeforeFirstFailure) (\<lambda>a. wa_failure_counts a \<noteq> []) facts ps t
        \<and> boundary_marked (FirstExplicitOnsetInLane, LastAvailableBeforeFirstExplicitOnset) (\<lambda>a. wa_onset_counts a \<noteq> []) facts ps t
        \<and> places t = placed_at ?fps (places s)) t
      (case t of (work, em) \<Rightarrow> rbind (positions_with (\<lambda>a. wa_onset_counts a \<noteq> []) work ps) (\<lambda>onset_positions. case onset_positions of
        [] \<Rightarrow> Inr (work, em) | bp # _ \<Rightarrow> add_onset_boundary sha256 ps bp (bf_block_id (facts ! hd ps))
          (FirstExplicitOnsetInLane, LastAvailableBeforeFirstExplicitOnset) facts (work, em)))"
    proof (rule pass.outcome_weaken [OF onset [OF t(1) length]])
      fix u
      assume "work_extends t u" and u: "boundary_marked (FirstExplicitOnsetInLane, LastAvailableBeforeFirstExplicitOnset)
        (\<lambda>a. wa_onset_counts a \<noteq> []) facts ps u \<and> places u = places t"
      moreover from this(1) have "boundary_marked (FirstFailureInLane, LastAvailableBeforeFirstFailure) (\<lambda>a. wa_failure_counts a \<noteq> []) facts ps u"
        by (rule boundary_marked_keep [OF conjunct1 [OF t(3)] extends_list]) (use length ps s in \<open>simp_all add: annotation_extends_def\<close>)
      ultimately show "boundary_marked (FirstFailureInLane, LastAvailableBeforeFirstFailure) (\<lambda>a. wa_failure_counts a \<noteq> []) facts ps u
        \<and> boundary_marked (FirstExplicitOnsetInLane, LastAvailableBeforeFirstExplicitOnset) (\<lambda>a. wa_onset_counts a \<noteq> []) facts ps u
        \<and> places u = placed_at ?fps (places s)" using t(3) at by simp
    qed
  qed (use ps len s facts in \<open>auto simp: annotation_extends_def\<close>)
  from pass.outcome_after [OF v(2) this] show ?thesis
    unfolding lane_rest_def s using placed few ps s by (simp add: positions_with_ok u32_try_from_def)
qed

lemma lane_step_ok:
  assumes ok: "work_ok sha256 anchors R S s" and facts: "length facts = length (fst s)" "length facts \<le> 4294967295"
    and anchor: "bf_block_id (facts ! hd ps) \<in> anchors" and ids: "\<forall>bid \<in> anchors. length bid = 32"
    and ps: "ps \<noteq> []" "distinct ps" "\<forall>p \<in> set ps. p < length (fst s)"
  shows "pass.outcome sha256 anchors R S
    (\<lambda>t. lane_marked sha256 facts ps t \<and> places t = placed_at (filter (\<lambda>p. wa_failure_counts (fst s ! p) \<noteq> []) ps) (places s)) s
    (lane_step sha256 facts s ps)"
proof -
  let ?bid = "bf_block_id (facts ! hd ps)"
  have hd: "hd ps < length (fst s)" "last ps < length (fst s)" using ps by simp_all
  have head: "anchored (SourceFacet SourceStreamHead)" and tail: "anchored (SourceFacet SourceStreamTail)" by simp_all
  have mark: "pass.outcome sha256 anchors R S (\<lambda>u. source_marked sha256 kind (Some ?bid) (fst u ! p) \<and> places u = places t) t
      (at_work p (add_source_sentinel sha256 kind (Some ?bid)) t)"
    if "work_ok sha256 anchors R S t" "p < length (fst t)" "anchored (SourceFacet kind)" for kind p t
    unfolding source_marked_def using anchor that(3)
    by (intro pass_outcome at_work_ok [OF that(1,2)] add_source_sentinel_ok ids) (simp_all add: anchor_ok_def)
  show ?thesis
    unfolding lane_step_unfold [OF ps(1) hd(1) [folded facts(1)]]
  proof (intro pass.outcome_bind [OF mark [OF ok hd(1) head]])
    fix t
    assume t: "work_ok sha256 anchors R S t" "work_extends s t"
      "source_marked sha256 SourceStreamHead (Some ?bid) (fst t ! hd ps) \<and> places t = places s"
    have last: "last ps < length (fst t)" using hd extends_length [OF t(2)] by simp
    show "pass.outcome sha256 anchors R S
      (\<lambda>u. lane_marked sha256 facts ps u \<and> places u = placed_at (filter (\<lambda>p. wa_failure_counts (fst s ! p) \<noteq> []) ps) (places s)) t
      (rbind (at_work (last ps) (add_source_sentinel sha256 SourceStreamTail (Some ?bid)) t) (lane_rest sha256 facts ps))"
    proof (rule pass.outcome_bind [OF mark [OF t(1) last tail]])
      fix u
      assume u: "work_ok sha256 anchors R S u" "work_extends t u"
        "source_marked sha256 SourceStreamTail (Some ?bid) (fst u ! last ps) \<and> places u = places t"
      have su: "work_extends s u" using work_extends_trans [OF t(2) u(2)] .
      have facts': "length facts = length (fst u)" and ps': "\<forall>p \<in> set ps. p < length (fst u)"
        using facts ps extends_length [OF su] by simp_all
      have same: "filter (\<lambda>p. wa_failure_counts (fst u ! p) \<noteq> []) ps = filter (\<lambda>p. wa_failure_counts (fst s ! p) \<noteq> []) ps"
        using ps(3) extends_nth [OF su] by (intro filter_cong) (auto simp: annotation_extends_def)
      show "pass.outcome sha256 anchors R S
        (\<lambda>v. lane_marked sha256 facts ps v \<and> places v = placed_at (filter (\<lambda>p. wa_failure_counts (fst s ! p) \<noteq> []) ps) (places s)) u
        (lane_rest sha256 facts ps u)"
      proof (rule pass.outcome_weaken [OF lane_rest_ok [OF u(1) facts' facts(2) anchor ids ps(1,2) ps']], unfold same)
        fix v
        assume v: "work_extends u v" "boundary_marked (FirstFailureInLane, LastAvailableBeforeFirstFailure) (\<lambda>a. wa_failure_counts a \<noteq> []) facts ps v
          \<and> boundary_marked (FirstExplicitOnsetInLane, LastAvailableBeforeFirstExplicitOnset) (\<lambda>a. wa_onset_counts a \<noteq> []) facts ps v
          \<and> places v = placed_at (filter (\<lambda>p. wa_failure_counts (fst s ! p) \<noteq> []) ps) (places u)"
        have "annotation_extends (fst t ! hd ps) (fst v ! hd ps)" "annotation_extends (fst u ! last ps) (fst v ! last ps)"
          using extends_nth work_extends_trans [OF u(2) v(1)] v(1) hd extends_length [OF t(2)] extends_length [OF su] by simp_all
        then have "source_marked sha256 SourceStreamHead (Some ?bid) (fst v ! hd ps)" "source_marked sha256 SourceStreamTail (Some ?bid) (fst v ! last ps)"
          using t(3) u(3) source_marked_keep by blast+
        then show "lane_marked sha256 facts ps v \<and> places v = placed_at (filter (\<lambda>p. wa_failure_counts (fst s ! p) \<noteq> []) ps) (places s)"
          using t(3) u(3) v(2) by (simp add: lane_marked_def)
      qed
    qed
  qed
qed

text \<open>The place of a failing block among the failing blocks of its lane.\<close>

definition lane_placed :: "(nat \<Rightarrow> bool) \<Rightarrow> nat list \<Rightarrow> lane_work \<Rightarrow> bool" where
  "lane_placed fails ps t \<longleftrightarrow> (\<forall>p \<in> set ps. wa_failure_lane_position (fst t ! p) = (if fails p then Some (place_of (filter fails ps) p) else None))"

lemma placed_at_nth:
  "p < length old \<Longrightarrow> placed_at fps old ! p = (if p \<in> set fps then Some (place_of fps p) else old ! p)"
  by (simp add: placed_at_def)

lemma lane_pass_ok:
  assumes ok: "work_ok sha256 anchors R S s" and facts: "length facts = length (fst s)" "length facts \<le> 4294967295"
    and anchors: "\<forall>ps \<in> set pss. bf_block_id (facts ! hd ps) \<in> anchors" and ids: "\<forall>bid \<in> anchors. length bid = 32"
    and pss: "\<forall>ps \<in> set pss. ps \<noteq> [] \<and> (\<forall>p \<in> set ps. p < length (fst s))" "distinct (concat pss)"
    and start: "\<forall>a \<in> set (fst s). wa_failure_lane_position a = None"
  shows "pass.outcome sha256 anchors R S
    (\<lambda>t. \<forall>ps \<in> set pss. lane_marked sha256 facts ps t \<and> lane_placed (\<lambda>p. wa_failure_counts (fst s ! p) \<noteq> []) ps t) s
    (rfold (lane_step sha256 facts) s pss)"
proof -
  let ?fails = "\<lambda>p. wa_failure_counts (fst s ! p) \<noteq> []"
  let ?P = "\<lambda>ys t. (\<forall>ps \<in> set ys. lane_marked sha256 facts ps t \<and> lane_placed ?fails ps t)
    \<and> (\<forall>p < length (fst s). p \<notin> set (concat ys) \<longrightarrow> wa_failure_lane_position (fst t ! p) = None)"
  have "pass.outcome sha256 anchors R S (?P pss) s (rfold (lane_step sha256 facts) s pss)"
  proof (rule pass.outcome_loop [OF ok])
    show "?P [] s" using start by simp
    fix ys ps zs t
    assume split: "pss = ys @ ps # zs" and t: "work_ok sha256 anchors R S t" "work_extends s t" and P: "?P ys t"
    have len: "length (fst t) = length (fst s)" using extends_length [OF t(2)] .
    have ps: "ps \<noteq> []" "distinct ps" "\<forall>p \<in> set ps. p < length (fst t)" and disjoint: "set ps \<inter> set (concat ys) = {}"
      using pss split len by auto
    have same: "filter (\<lambda>p. wa_failure_counts (fst t ! p) \<noteq> []) ps = filter ?fails ps"
      using ps(3) len extends_nth [OF t(2)] by (intro filter_cong) (auto simp: annotation_extends_def)
    have facts': "length facts = length (fst t)" and anchor: "bf_block_id (facts ! hd ps) \<in> anchors" using facts(1) len anchors split by simp_all
    show "pass.outcome sha256 anchors R S (?P (ys @ [ps])) t (lane_step sha256 facts t ps)"
    proof (rule pass.outcome_weaken [OF lane_step_ok [OF t(1) facts' facts(2) anchor ids ps]], unfold same)
      fix u
      assume u: "work_extends t u" "lane_marked sha256 facts ps u \<and> places u = placed_at (filter ?fails ps) (places t)"
      have place: "wa_failure_lane_position (fst u ! p) = (if p \<in> set ps \<and> ?fails p then Some (place_of (filter ?fails ps) p)
          else wa_failure_lane_position (fst t ! p))" if "p < length (fst s)" for p
        using arg_cong [OF conjunct2 [OF u(2)], of "\<lambda>l. l ! p"] that len extends_length [OF u(1)] by (simp add: placed_at_nth)
      have fresh: "wa_failure_lane_position (fst t ! p) = None" if "p \<in> set ps" for p
      proof -
        have "p < length (fst s)" "p \<notin> set (concat ys)" using that ps(3) len disjoint by (simp, blast)
        then show ?thesis using P by blast
      qed
      have "lane_placed ?fails ps u" unfolding lane_placed_def using place fresh ps(3) len by simp
      moreover have "lane_marked sha256 facts qs u \<and> lane_placed ?fails qs u" if qs: "qs \<in> set ys" for qs
      proof -
        have "qs \<noteq> []" "\<forall>p \<in> set qs. p < length (fst t)" using pss(1) split qs len by auto
        then have "lane_marked sha256 facts qs u" using P qs lane_marked_keep [OF _ extends_list [OF u(1)]] by blast
        moreover have "wa_failure_lane_position (fst u ! p) = wa_failure_lane_position (fst t ! p)" if "p \<in> set qs" for p
        proof -
          have "p \<notin> set ps" "p < length (fst s)" using disjoint qs that \<open>\<forall>p \<in> set qs. p < length (fst t)\<close> len by auto
          then show ?thesis using place by simp
        qed
        then have "lane_placed ?fails qs u" using P qs by (simp add: lane_placed_def)
        ultimately show ?thesis ..
      qed
      ultimately show "?P (ys @ [ps]) u" using u(2) P place by auto
    qed
  qed
  then show ?thesis by (rule pass.outcome_weaken) blast
qed

section \<open>Retrieval and time\<close>

abbreviation stratum_position :: "nat \<Rightarrow> nat \<Rightarrow> nat" where
  "stratum_position n index \<equiv> index * n div min n MAX_TIME_COVERAGE_STRATA_V1"

definition stratum_marked :: "(bytes \<Rightarrow> bytes) \<Rightarrow> nat \<Rightarrow> nat \<Rightarrow> WorkAnnotation \<Rightarrow> bool" where
  "stratum_marked sha256 index strata a \<longleftrightarrow>
     has_sentinel (StratumSentinel index strata) (facet_name sha256 (AcquisitionOrderStratumFacet index strata) None) a"

lemma stratum_position_bound:
  assumes "index < min n MAX_TIME_COVERAGE_STRATA_V1"
  shows "stratum_position n index < n"
proof -
  have "0 < n" "0 < min n MAX_TIME_COVERAGE_STRATA_V1" using assms by simp_all
  then have "index * n < n * min n MAX_TIME_COVERAGE_STRATA_V1" using assms by (simp add: mult.commute)
  then show ?thesis by (rule less_mult_imp_div_less)
qed

lemma stratum_step_ok:
  assumes ok: "work_ok sha256 anchors R S s" and n: "length (fst s) = n" "n \<le> MAX_PRIMARY_BLOCKS_V1"
    and index: "index < min n MAX_TIME_COVERAGE_STRATA_V1" and ids: "\<forall>bid \<in> anchors. length bid = 32"
  shows "emit.outcome sha256 anchors R S (\<lambda>t. stratum_marked sha256 index (min n MAX_TIME_COVERAGE_STRATA_V1) (fst t ! stratum_position n index)) s
    (stratum_step sha256 n (min n MAX_TIME_COVERAGE_STRATA_V1) s index)"
proof -
  let ?strata = "min n MAX_TIME_COVERAGE_STRATA_V1"
  obtain work em where s: "s = (work, em)" by fastforce
  have small: "index < 256" "?strata < 256" "index * n \<le> u64_max" "?strata \<noteq> 0"
  proof -
    show "index < 256" "?strata < 256" "?strata \<noteq> 0" using index by (simp_all add: MAX_TIME_COVERAGE_STRATA_V1_def)
    have "index * n \<le> 256 * 4096" using \<open>index < 256\<close> n(2) by (intro mult_le_mono) (simp_all add: MAX_PRIMARY_BLOCKS_V1_def)
    then show "index * n \<le> u64_max" by simp
  qed
  have "emit.outcome sha256 anchors R S (\<lambda>t. stratum_marked sha256 index ?strata (fst t ! stratum_position n index)) (work, em)
      (rbind (register_facet sha256 (AcquisitionOrderStratumFacet index ?strata) None em) (\<lambda>(fid, em).
        at_work (stratum_position n index) (add_sentinel (StratumSentinel index ?strata) fid) (work, em)))"
  proof (rule register_then)
    fix em'
    assume em': "work_ok sha256 anchors R S (work, em')"
      "map_of (oe_facets em') (facet_name sha256 (AcquisitionOrderStratumFacet index ?strata) None) \<noteq> None"
    show "emit.outcome sha256 anchors R S (\<lambda>t. stratum_marked sha256 index ?strata (fst t ! stratum_position n index)) (work, em')
      (case (facet_name sha256 (AcquisitionOrderStratumFacet index ?strata) None, em') of (fid, em) \<Rightarrow>
        at_work (stratum_position n index) (add_sentinel (StratumSentinel index ?strata) fid) (work, em))"
      unfolding prod.case
    proof (rule at_work_ok [OF em'(1)])
      show "stratum_position n index < length (fst (work, em'))" using stratum_position_bound [OF index] n(1) s by simp
    qed (use em'(2) in \<open>auto simp: stratum_marked_def has_sentinel_def intro: cell.outcome_weaken [OF add_sentinel_ok]\<close>)
  qed (use ok s index ids in \<open>auto simp: anchor_ok_def\<close>)
  moreover have "Option.bind (checked_mul_u64 index n) (\<lambda>value. checked_div value ?strata) = Some (stratum_position n index)"
    "u8_try_from index = Some index"
    using small(1,3) iffD2 [OF neq0_conv, OF iffD1 [OF neq0_conv, OF small(4)]]
    by (simp_all add: checked_mul_u64_def checked_div_def u8_try_from_def del: min_less_iff_conj)
  ultimately show ?thesis
    unfolding stratum_step_def s prod.case by (simp only: ok_or_simps rbind_simps)
qed

definition retrieval_marked :: "(bytes \<Rightarrow> bytes) \<Rightarrow> WorkAnnotation list \<Rightarrow> bool" where
  "retrieval_marked sha256 work \<longleftrightarrow> work = [] \<or> source_marked sha256 RetrievalHead None (hd work) \<and> source_marked sha256 RetrievalTail None (last work)
     \<and> (\<forall>index < min (length work) MAX_TIME_COVERAGE_STRATA_V1.
          stratum_marked sha256 index (min (length work) MAX_TIME_COVERAGE_STRATA_V1) (work ! stratum_position (length work) index))"

lemma stratum_marked_keep: "stratum_marked sha256 index strata a \<Longrightarrow> annotation_extends a a' \<Longrightarrow> stratum_marked sha256 index strata a'"
  by (simp add: stratum_marked_def extends_keeps(2))

lemma retrieval_marked_keep:
  assumes "retrieval_marked sha256 work" and "list_all2 annotation_extends work work'"
  shows "retrieval_marked sha256 work'"
proof (cases "work = []")
  case False
  have len: "length work' = length work" and at: "annotation_extends (work ! p) (work' ! p)" if "p < length work" for p
    using assms(2) that by (simp_all add: list_all2_conv_all_nth)
  then have "work' \<noteq> []" using assms(2) False by (auto simp: list_all2_conv_all_nth)
  then show ?thesis
    using assms False at unfolding retrieval_marked_def
    by (auto simp: hd_conv_nth last_conv_nth list_all2_lengthD [symmetric] stratum_position_bound intro: source_marked_keep stratum_marked_keep)
qed (use assms in \<open>simp add: retrieval_marked_def\<close>)

lemma grows_list_extends: "work_grows s t \<Longrightarrow> list_all2 annotation_extends (fst s) (fst t)"
  by (auto simp: work_grows_def annotation_grows_def list_all2_conv_all_nth)

lemma retrieval_pass_ok:
  assumes ok: "work_ok sha256 anchors R S s" and facts: "length facts = length (fst s)" "length facts \<le> MAX_PRIMARY_BLOCKS_V1"
    and ids: "\<forall>bid \<in> anchors. length bid = 32"
  shows "emit.outcome sha256 anchors R S (\<lambda>t. retrieval_marked sha256 (fst t)) s (annotate_retrieval_and_time_coverage sha256 facts s)"
proof (cases "fst s = []")
  case True
  then show ?thesis using ok by (simp add: annotate_retrieval_and_time_coverage_def emit.outcome_return retrieval_marked_def)
next
  case False
  let ?n = "length facts" and ?strata = "min (length facts) MAX_TIME_COVERAGE_STRATA_V1"
  have mark: "emit.outcome sha256 anchors R S (\<lambda>u. source_marked sha256 kind None (fst u ! p)) t (at_work p (add_source_sentinel sha256 kind None) t)"
    if "work_ok sha256 anchors R S t" "p < length (fst t)" "\<not> anchored (SourceFacet kind)" for kind p t
    unfolding source_marked_def using that(3) by (intro at_work_ok [OF that(1,2)] add_source_sentinel_ok ids) (simp_all add: anchor_ok_def)
  have free: "\<not> anchored (SourceFacet RetrievalHead)" "\<not> anchored (SourceFacet RetrievalTail)" by simp_all
  have strata: "u8_try_from ?strata = Some ?strata" by (simp add: u8_try_from_def MAX_TIME_COVERAGE_STRATA_V1_def)
  have zero: "0 < length (fst s)" using False by simp
  have "emit.outcome sha256 anchors R S (\<lambda>t. retrieval_marked sha256 (fst t)) s
    (rbind (at_work 0 (add_source_sentinel sha256 RetrievalHead None) s) (\<lambda>t.
     rbind (at_work (length (fst t) - 1) (add_source_sentinel sha256 RetrievalTail None) t) (\<lambda>u.
     rfold (stratum_step sha256 ?n ?strata) u [0..<?strata])))"
  proof (rule emit.outcome_bind [OF mark [OF ok zero free(1)]])
    fix t
    assume t: "work_ok sha256 anchors R S t" "work_grows s t" "source_marked sha256 RetrievalHead None (fst t ! 0)"
    have len: "length (fst t) = ?n" using work_grows_length [OF t(2)] facts(1) by simp
    then have last: "length (fst t) - 1 < length (fst t)" using zero facts(1) by simp
    show "emit.outcome sha256 anchors R S (\<lambda>t. retrieval_marked sha256 (fst t)) t
      (rbind (at_work (length (fst t) - 1) (add_source_sentinel sha256 RetrievalTail None) t) (\<lambda>u.
       rfold (stratum_step sha256 ?n ?strata) u [0..<?strata]))"
    proof (rule emit.outcome_bind [OF mark [OF t(1) last free(2)]])
      fix u
      assume u: "work_ok sha256 anchors R S u" "work_grows t u" "source_marked sha256 RetrievalTail None (fst u ! (length (fst t) - 1))"
      have lenu: "length (fst u) = ?n" using work_grows_length [OF u(2)] len by simp
      let ?Q = "\<lambda>index v. index < ?strata \<and> length (fst v) = ?n \<and> stratum_marked sha256 index ?strata (fst v ! stratum_position ?n index)"
      have "emit.outcome sha256 anchors R S (\<lambda>v. \<forall>index \<in> set [0..<?strata]. ?Q index v) u (rfold (stratum_step sha256 ?n ?strata) u [0..<?strata])"
      proof (rule emit.outcome_fold [OF u(1)])
        fix v index
        assume v: "work_ok sha256 anchors R S v" "work_grows u v" "index \<in> set [0..<?strata]"
        have lenv: "length (fst v) = ?n" using work_grows_length [OF v(2)] lenu by simp
        show "emit.outcome sha256 anchors R S (?Q index) v (stratum_step sha256 ?n ?strata v index)"
          by (rule emit.outcome_weaken [OF stratum_step_ok [OF v(1) lenv facts(2) _ ids]])
            (use v(3) lenv work_grows_length in auto)
      next
        fix v w :: lane_work and index
        assume Q: "?Q index v" and "work_grows v w"
        then have "annotation_grows (fst v ! stratum_position ?n index) (fst w ! stratum_position ?n index)"
          using stratum_position_bound [of index ?n] work_grows_nth by simp
        then show "?Q index w" using Q work_grows_length [OF \<open>work_grows v w\<close>] stratum_marked_keep by (auto simp: annotation_grows_def)
      qed
      then show "emit.outcome sha256 anchors R S (\<lambda>t. retrieval_marked sha256 (fst t)) u (rfold (stratum_step sha256 ?n ?strata) u [0..<?strata])"
      proof (rule emit.outcome_weaken)
        fix v
        assume v: "work_grows u v" "\<forall>index \<in> set [0..<?strata]. ?Q index v"
        have lenv: "length (fst v) = ?n" "0 < ?n" using work_grows_length [OF v(1)] lenu zero facts(1) by simp_all
        then have "fst v \<noteq> []" by auto
        then have ends: "hd (fst v) = fst v ! 0" "last (fst v) = fst v ! (?n - 1)" using lenv by (simp_all add: hd_conv_nth last_conv_nth)
        have "annotation_grows (fst t ! 0) (fst v ! 0)" "annotation_grows (fst u ! (?n - 1)) (fst v ! (?n - 1))"
          using work_grows_nth [OF emit.grows_trans [OF u(2) v(1)]] work_grows_nth [OF v(1)] len lenu lenv(2) by simp_all
        then have "source_marked sha256 RetrievalHead None (hd (fst v))" "source_marked sha256 RetrievalTail None (last (fst v))"
          using t(3) u(3) len source_marked_keep by (auto simp: ends annotation_grows_def)
        then show "retrieval_marked sha256 (fst v)" using v(2) lenv by (simp add: retrieval_marked_def)
      qed
    qed
  qed
  then show ?thesis
    unfolding annotate_retrieval_and_time_coverage_def Let_def strata ok_or_simps rbind_simps using False by simp
qed

end
