(* ===== verification/Coverage_Risk.thy ===== *)
theory Coverage_Risk
  imports Coverage_Passes
begin

text \<open>
  Grouping in the coverage lane: the lanes of the blocks and the occurrences of a reconstruction
  risk are groups of positions.  The last pass keeps the first and the last occurrence of every risk.
\<close>

section \<open>Grouping\<close>

definition push_group :: "'k::linorder \<times> 'v \<Rightarrow> ('k, 'v list) btree_map \<Rightarrow> ('k, 'v list) btree_map" where
  "push_group kv m = bt_insert (fst kv) ((case map_of m (fst kv) of None \<Rightarrow> [] | Some vs \<Rightarrow> vs) @ [snd kv]) m"

definition groups :: "('k::linorder \<times> 'v) list \<Rightarrow> ('k, 'v list) btree_map" where
  "groups kvs = map (\<lambda>k. (k, map snd (filter (\<lambda>kv. fst kv = k) kvs))) (btree_set (map fst kvs))"

lemma groups_ordered: "bt_ordered (groups kvs)"
  by (simp add: bt_ordered_def groups_def comp_def)

lemma groups_lookup: "map_of (groups kvs) k = (if k \<in> fst ` set kvs then Some (map snd (filter (\<lambda>kv. fst kv = k) kvs)) else None)"
  by (simp add: groups_def map_of_map_restrict restrict_map_def)

lemma fold_push_group: "fold push_group kvs [] = groups kvs"
proof (induction kvs rule: rev_induct)
  case Nil
  then show ?case by (simp add: groups_def btree_set_def)
next
  case (snoc kv kvs)
  have "filter (\<lambda>e. fst e = fst kv) kvs = []" if "fst kv \<notin> fst ` set kvs" unfolding filter_empty_conv using that by (metis image_eqI)
  then have "push_group kv (groups kvs) = groups (kvs @ [kv])"
    by (intro bt_ordered_ext) (auto simp: push_group_def groups_ordered bt_ordered_insert groups_lookup fun_eq_iff)
  with snoc show ?case by simp
qed

lemma map_fst_groups: "map fst (groups kvs) = btree_set (map fst kvs)"
  by (simp add: groups_def comp_def)

section \<open>Lanes\<close>

definition lane_members :: "BlockFacts list \<Rightarrow> LaneKey \<Rightarrow> nat list" where
  "lane_members facts lane = filter (\<lambda>p. bf_lane (facts ! p) = lane) [0..<length facts]"

text \<open>The blocks of a lane in lane order.\<close>

definition lane_order :: "BlockFacts list \<Rightarrow> LaneKey \<Rightarrow> nat list" where
  "lane_order facts lane = sort_key (\<lambda>p. (bf_first_lane_sequence (facts ! p), bf_block_id (facts ! p))) (lane_members facts lane)"

lemma map_filter_enumerate:
  "map snd (filter (\<lambda>kv. fst kv = k) (map (\<lambda>(p, x). (f x, p)) (enumerate 0 xs))) = filter (\<lambda>p. f (xs ! p) = k) [0..<length xs]"
proof (induction xs rule: rev_induct)
  case (snoc x xs)
  have "filter (\<lambda>p. f ((xs @ [x]) ! p) = k) [0..<length xs] = filter (\<lambda>p. f (xs ! p) = k) [0..<length xs]"
    by (intro filter_cong) (simp_all add: nth_append)
  then show ?case using snoc by (simp add: enumerate_append_eq)
qed simp

lemma lane_positions_groups: "lane_positions facts = groups (map (\<lambda>(p, bf). (bf_lane bf, p)) (enumerate 0 facts))"
proof -
  have "lane_positions facts = fold push_group (map (\<lambda>(p, bf). (bf_lane bf, p)) (enumerate 0 facts)) []"
    unfolding lane_positions_def fold_map by (intro fold_cong) (auto simp: push_group_def)
  then show ?thesis by (simp add: fold_push_group)
qed

lemma sorted_lanes_order: "sorted_lanes facts = map (\<lambda>lane. (lane, lane_order facts lane)) (btree_set (map bf_lane facts))"
proof -
  have "map fst (map (\<lambda>(p, bf). (bf_lane bf, p)) (enumerate 0 facts)) = map bf_lane (map snd (enumerate 0 facts))"
    by (simp only: map_map) (auto intro: map_cong)
  then have "map fst (map (\<lambda>(p, bf). (bf_lane bf, p)) (enumerate 0 facts)) = map bf_lane facts" by simp
  then show ?thesis
    unfolding sorted_lanes_def lane_positions_groups groups_def
    by (simp only: map_filter_enumerate) (simp add: comp_def lane_order_def lane_members_def)
qed

lemma lane_order_set: "set (lane_order facts lane) = {p. p < length facts \<and> bf_lane (facts ! p) = lane}"
  by (auto simp: lane_order_def lane_members_def)

lemma lane_order_distinct: "distinct (lane_order facts lane)"
  by (simp add: lane_order_def lane_members_def)

lemma lanes_partition:
  fixes facts :: "BlockFacts list"
  defines "pss \<equiv> map snd (sorted_lanes facts)"
  shows "\<forall>ps \<in> set pss. ps \<noteq> [] \<and> (\<forall>p \<in> set ps. p < length facts)" and "distinct (concat pss)"
    and "p < length facts \<Longrightarrow> lane_order facts (bf_lane (facts ! p)) \<in> set pss \<and> p \<in> set (lane_order facts (bf_lane (facts ! p)))"
proof -
  have pss: "pss = map (lane_order facts) (btree_set (map bf_lane facts))" by (simp add: pss_def sorted_lanes_order comp_def)
  have nonempty: "set (lane_order facts lane) \<noteq> {}" if "lane \<in> bf_lane ` set facts" for lane
    using that by (auto simp: lane_order_set in_set_conv_nth)
  show "\<forall>ps \<in> set pss. ps \<noteq> [] \<and> (\<forall>p \<in> set ps. p < length facts)"
  proof
    fix ps
    assume "ps \<in> set pss"
    then obtain lane where "lane \<in> bf_lane ` set facts" "ps = lane_order facts lane" by (auto simp: pss)
    then show "ps \<noteq> [] \<and> (\<forall>p \<in> set ps. p < length facts)" using nonempty [of lane] lane_order_set [of facts lane] by force
  qed
  have inj: "lane = lane'" if eq: "lane_order facts lane = lane_order facts lane'" and lane: "lane \<in> bf_lane ` set facts" for lane lane'
  proof -
    obtain p where "p \<in> set (lane_order facts lane)" using nonempty [OF lane] by (metis all_not_in_conv)
    moreover from this have "p \<in> set (lane_order facts lane')" using eq by simp
    ultimately show ?thesis by (simp add: lane_order_set)
  qed
  show "distinct (concat pss)"
  proof (rule distinct_concat)
    show "distinct pss" using inj by (auto simp: pss distinct_map inj_on_def)
    show "distinct ps" if "ps \<in> set pss" for ps using that by (auto simp: pss lane_order_distinct)
    show "set ps \<inter> set qs = {}" if "ps \<in> set pss" "qs \<in> set pss" "ps \<noteq> qs" for ps qs
      using that by (auto simp: pss lane_order_set)
  qed
  show "lane_order facts (bf_lane (facts ! p)) \<in> set pss \<and> p \<in> set (lane_order facts (bf_lane (facts ! p)))" if "p < length facts"
    using that by (simp add: pss lane_order_set)
qed

section \<open>Risk facts\<close>

definition risk_occurrence :: "nat \<Rightarrow> BlockFacts \<Rightarrow> ReconstructionRiskOccurrence" where
  "risk_occurrence p bf = \<lparr>ro_ordinal = bf_ordinal bf, ro_block_id = bf_block_id bf, ro_work_position = p\<rparr>"

definition risk_entries :: "BlockFacts list \<Rightarrow> (ReconstructionRiskKindV1 \<times> ReconstructionRiskOccurrence) list" where
  "risk_entries facts = concat (map (\<lambda>(p, bf). map (\<lambda>risk. (risk, risk_occurrence p bf)) (risks_of bf)) (enumerate 0 facts))"

definition risk_total :: "BlockFacts list \<Rightarrow> nat" where
  "risk_total facts = sum_list (map (\<lambda>bf. length (risks_of bf)) facts)"

definition risk_positions :: "BlockFacts list \<Rightarrow> ReconstructionRiskKindV1 \<Rightarrow> nat list" where
  "risk_positions facts risk = filter (\<lambda>p. risk \<in> set (risks_of (facts ! p))) [0..<length facts]"

lemma risk_entries_snoc: "risk_entries (facts @ [bf]) = risk_entries facts @ map (\<lambda>risk. (risk, risk_occurrence (length facts) bf)) (risks_of bf)"
  by (simp add: risk_entries_def enumerate_append_eq)

lemma risks_of_few: "length (risks_of bf) \<le> 3"
proof -
  have few: "length (btree_set xs) \<le> length xs" for xs :: "ReconstructionRiskKindV1 list" by (simp add: btree_set_def)
  show ?thesis
    unfolding risks_of_def by (rule le_trans [OF few]) (simp split: BlockConfidence.split BlockState.split)
qed

lemma risk_total_bound: "risk_total facts \<le> 3 * length facts"
  using risks_of_few by (induction facts) (auto simp: risk_total_def intro: add_mono)

lemma length_risk_entries: "length (risk_entries facts) = risk_total facts"
  by (induction facts rule: rev_induct) (simp_all add: risk_entries_snoc risk_total_def, simp add: risk_entries_def)

lemma fold_push_occurrence: "fold (push_occurrence r) risks m = fold push_group (map (\<lambda>risk. (risk, r)) risks) m"
  by (simp add: fold_map comp_def) (rule fold_cong, auto simp: push_group_def push_occurrence_def)

lemma risk_fact_loop:
  assumes "length zs \<le> MAX_PRIMARY_BLOCKS_V1"
  shows "rfold risk_fact_step ([], [], 0) (enumerate 0 zs) = Inr (map (\<lambda>(bf, a). a\<lparr>wa_reconstruction_risks := risks_of bf\<rparr>) zs,
    groups (risk_entries (map fst zs)), risk_total (map fst zs))"
  using assms
proof (induction zs rule: rev_induct)
  case Nil
  then show ?case by (simp add: groups_def risk_entries_def btree_set_def risk_total_def)
next
  case (snoc z zs)
  obtain bf a where z: "z = (bf, a)" by fastforce
  have "risk_total (map fst (zs @ [z])) \<le> u64_max"
    using risk_total_bound [of "map fst (zs @ [z])"] snoc.prems by (simp add: MAX_PRIMARY_BLOCKS_V1_def)
  then have "checked_add_u64 (risk_total (map fst zs)) (length (risks_of bf)) = Some (risk_total (map fst (zs @ [z])))"
    by (simp add: checked_add_u64_def risk_total_def z)
  moreover have "fold (push_occurrence (risk_occurrence (length zs) bf)) (risks_of bf) (groups (risk_entries (map fst zs))) =
      groups (risk_entries (map fst (zs @ [z])))"
    by (simp add: fold_push_occurrence risk_entries_snoc z flip: fold_push_group)
  ultimately show ?case
    using snoc by (simp add: enumerate_append_eq rfold_append risk_fact_step_def risk_occurrence_def z Let_def)
qed

lemma risk_group:
  "map snd (filter (\<lambda>kv. fst kv = risk) (risk_entries facts)) = map (\<lambda>p. risk_occurrence p (facts ! p)) (risk_positions facts risk)"
proof (induction facts rule: rev_induct)
  case Nil
  then show ?case by (simp add: risk_entries_def risk_positions_def)
next
  case (snoc bf facts)
  have single: "filter (\<lambda>r. r = risk) rs = (if risk \<in> set rs then [risk] else [])" if "distinct rs" for rs
    using that by (induction rs) auto
  have old: "risk_positions (facts @ [bf]) risk = risk_positions facts risk @ (if risk \<in> set (risks_of bf) then [length facts] else [])"
    by (simp add: risk_positions_def) (auto intro: filter_cong simp: nth_append)
  have "map snd (filter (\<lambda>kv. fst kv = risk) (map (\<lambda>r. (r, risk_occurrence (length facts) bf)) (risks_of bf))) =
      (if risk \<in> set (risks_of bf) then [risk_occurrence (length facts) bf] else [])"
    using single [of "risks_of bf"] by (simp add: filter_map comp_def risks_of_def)
  moreover have "map (\<lambda>p. risk_occurrence p ((facts @ [bf]) ! p)) (risk_positions facts risk) = map (\<lambda>p. risk_occurrence p (facts ! p)) (risk_positions facts risk)"
    by (intro map_cong) (auto simp: risk_positions_def nth_append)
  ultimately show ?case using snoc by (simp add: risk_entries_snoc old)
qed

section \<open>Representatives\<close>

text \<open>The offsets of the representatives: all of them, or five from the first to the last.\<close>

definition representatives :: "nat \<Rightarrow> nat list" where
  "representatives n = (if n \<le> MAX_RECONSTRUCTION_RISK_REPRESENTATIVES_PER_KIND_V1 then [0..<n]
     else map (\<lambda>stratum. stratum * (n - 1) div 4) [0..<MAX_RECONSTRUCTION_RISK_REPRESENTATIVES_PER_KIND_V1])"

lemma representatives_closed:
  assumes "n \<le> MAX_PRIMARY_BLOCKS_V1"
  shows "canonical_stratified_offsets n MAX_RECONSTRUCTION_RISK_REPRESENTATIVES_PER_KIND_V1 = Inr (representatives n)"
proof (cases "n \<le> MAX_RECONSTRUCTION_RISK_REPRESENTATIVES_PER_KIND_V1")
  case True
  then show ?thesis by (auto simp: canonical_stratified_offsets_def representatives_def MAX_RECONSTRUCTION_RISK_REPRESENTATIVES_PER_KIND_V1_def)
next
  case False
  have "rmap (\<lambda>stratum. ok_or (GenerationNeedsMore ArithmeticCapacity)
        (Option.bind (checked_mul_u64 stratum (n - 1)) (\<lambda>numerator. checked_div numerator (5 - 1)))) [0..<5] =
      Inr (map (\<lambda>stratum. stratum * (n - 1) div 4) [0..<5])"
  proof (rule rmap_map)
    fix stratum :: nat
    assume "stratum \<in> set [0..<5]"
    then have "stratum * (n - 1) \<le> 5 * 4096" using assms by (intro mult_le_mono) (auto simp: MAX_PRIMARY_BLOCKS_V1_def)
    then show "ok_or (GenerationNeedsMore ArithmeticCapacity)
        (Option.bind (checked_mul_u64 stratum (n - 1)) (\<lambda>numerator. checked_div numerator (5 - 1))) = Inr (stratum * (n - 1) div 4)"
      by (simp add: checked_mul_u64_def checked_div_def)
  qed
  then show ?thesis
    using False unfolding canonical_stratified_offsets_def representatives_def MAX_RECONSTRUCTION_RISK_REPRESENTATIVES_PER_KIND_V1_def Let_def
    by simp
qed

lemma representatives_bounds:
  "\<forall>offset \<in> set (representatives n). offset < n" "length (representatives n) \<le> 5"
  "0 < n \<Longrightarrow> 0 \<in> set (representatives n) \<and> n - 1 \<in> set (representatives n)"
proof -
  show "length (representatives n) \<le> 5" by (simp add: representatives_def MAX_RECONSTRUCTION_RISK_REPRESENTATIVES_PER_KIND_V1_def)
  have "[0..<5] = [0, 1, 2, 3, 4 :: nat]" by code_simp
  then show "\<forall>offset \<in> set (representatives n). offset < n"
    and "0 < n \<Longrightarrow> 0 \<in> set (representatives n) \<and> n - 1 \<in> set (representatives n)"
    by (auto simp: representatives_def MAX_RECONSTRUCTION_RISK_REPRESENTATIVES_PER_KIND_V1_def)
qed

interpretation counted: growing_state "\<lambda>s. work_ok sha256 anchors R S (fst s)" "\<lambda>s t. work_grows (fst s) (fst t)" "emission_stop sha256 anchors"
  for sha256 anchors R S
  by unfold_locales (auto intro: emit.grows_refl emit.grows_trans)

definition risk_marked :: "(bytes \<Rightarrow> bytes) \<Rightarrow> BlockFacts list \<Rightarrow> ReconstructionRiskKindV1 \<Rightarrow> WorkAnnotation list \<Rightarrow> bool" where
  "risk_marked sha256 facts risk work \<longleftrightarrow>
     (\<forall>offset \<in> set (representatives (length (risk_positions facts risk))).
        has_sentinel (RiskSentinel risk) (facet_name sha256 (ReconstructionRiskFacet risk) None) (work ! (risk_positions facts risk ! offset)))"

lemma representative_step_ok:
  assumes ok: "work_ok sha256 anchors R S s" and fid: "map_of (oe_facets (snd s)) fid \<noteq> None" and n: "n < u64_max"
    and offset: "offset < length rs" "ro_work_position (rs ! offset) < length (fst s)"
  shows "counted.outcome sha256 anchors R S
    (\<lambda>t. snd t = Suc n \<and> has_sentinel (RiskSentinel risk) fid (fst (fst t) ! ro_work_position (rs ! offset))) (s, n)
    (representative_step risk fid rs (s, n) offset)"
proof -
  have "emit.outcome sha256 anchors R S (\<lambda>t. has_sentinel (RiskSentinel risk) fid (fst t ! ro_work_position (rs ! offset))) s
      (at_work (ro_work_position (rs ! offset)) (add_sentinel (RiskSentinel risk) fid) s)"
    by (rule at_work_ok [OF ok offset(2)], rule cell.outcome_weaken [OF add_sentinel_ok])
      (use fid in \<open>auto simp: has_sentinel_def\<close>)
  moreover have "checked_add_u64 n 1 = Some (Suc n)" using n by (simp add: checked_add_u64_def)
  ultimately show ?thesis
    using offset(1)
    by (cases "at_work (ro_work_position (rs ! offset)) (add_sentinel (RiskSentinel risk) fid) s")
      (simp_all add: representative_step_def counted.outcome_def emit.outcome_def)
qed

lemma representative_loop:
  assumes ok: "work_ok sha256 anchors R S s" and fid: "map_of (oe_facets (snd s)) fid \<noteq> None" and n: "n + length offsets \<le> u64_max"
    and offsets: "\<forall>offset \<in> set offsets. offset < length rs \<and> ro_work_position (rs ! offset) < length (fst s)"
  shows "counted.outcome sha256 anchors R S
    (\<lambda>t. snd t = n + length offsets
      \<and> (\<forall>offset \<in> set offsets. has_sentinel (RiskSentinel risk) fid (fst (fst t) ! ro_work_position (rs ! offset)))) (s, n)
    (rfold (representative_step risk fid rs) (s, n) offsets)"
proof (rule counted.outcome_loop)
  fix ys offset zs t
  assume split: "offsets = ys @ offset # zs" and t: "work_ok sha256 anchors R S (fst t)" "work_grows (fst (s, n)) (fst t)"
    and P: "snd t = n + length ys \<and> (\<forall>offset \<in> set ys. has_sentinel (RiskSentinel risk) fid (fst (fst t) ! ro_work_position (rs ! offset)))"
  have grows: "work_grows s (fst t)" using t(2) by simp
  then have fid': "map_of (oe_facets (snd (fst t))) fid \<noteq> None" using fid by (force simp: work_grows_def map_le_def dom_def)
  have len: "length (fst (fst t)) = length (fst s)" using work_grows_length [OF grows] .
  have t': "t = (fst t, n + length ys)" using P by (cases t) simp
  have "counted.outcome sha256 anchors R S
      (\<lambda>u. snd u = Suc (n + length ys) \<and> has_sentinel (RiskSentinel risk) fid (fst (fst u) ! ro_work_position (rs ! offset))) (fst t, n + length ys)
      (representative_step risk fid rs (fst t, n + length ys) offset)"
    using n offsets split len by (intro representative_step_ok t fid') simp_all
  then show "counted.outcome sha256 anchors R S (\<lambda>u. snd u = n + length (ys @ [offset])
      \<and> (\<forall>offset \<in> set (ys @ [offset]). has_sentinel (RiskSentinel risk) fid (fst (fst u) ! ro_work_position (rs ! offset)))) t
      (representative_step risk fid rs t offset)"
    unfolding t' [symmetric]
  proof (rule counted.outcome_weaken)
    fix u
    assume u: "work_grows (fst t) (fst u)"
      "snd u = Suc (n + length ys) \<and> has_sentinel (RiskSentinel risk) fid (fst (fst u) ! ro_work_position (rs ! offset))"
    have "has_sentinel (RiskSentinel risk) fid (fst (fst u) ! ro_work_position (rs ! o'))" if "o' \<in> set ys" for o'
    proof -
      have "ro_work_position (rs ! o') < length (fst (fst t))" using that offsets split len by simp
      then have "annotation_extends (fst (fst t) ! ro_work_position (rs ! o')) (fst (fst u) ! ro_work_position (rs ! o'))"
        using work_grows_nth [OF u(1)] by (simp add: annotation_grows_def)
      from extends_keeps(2) [OF this] show ?thesis using P that by simp
    qed
    then show "snd u = n + length (ys @ [offset])
      \<and> (\<forall>offset \<in> set (ys @ [offset]). has_sentinel (RiskSentinel risk) fid (fst (fst u) ! ro_work_position (rs ! offset)))" using u(2) by simp
  qed
qed (use ok in simp_all)

lemma risk_step_ok:
  fixes risk :: ReconstructionRiskKindV1
  assumes ok: "work_ok sha256 anchors R S s" and facts: "length facts = length (fst s)" "length facts \<le> MAX_PRIMARY_BLOCKS_V1"
    and ordinals: "\<forall>p < length facts. bf_ordinal (facts ! p) = p" and ids: "\<forall>bid \<in> anchors. length bid = 32" and n: "n + 5 \<le> u64_max"
  defines "ps \<equiv> risk_positions facts risk"
  shows "counted.outcome sha256 anchors R S
    (\<lambda>t. snd t = n + length (representatives (length ps)) \<and> risk_marked sha256 facts risk (fst (fst t))) (s, n)
    (risk_step sha256 (s, n) (risk, map (\<lambda>p. risk_occurrence p (facts ! p)) ps))"
proof -
  let ?rs = "map (\<lambda>p. risk_occurrence p (facts ! p)) ps" and ?fid = "facet_name sha256 (ReconstructionRiskFacet risk) None"
  obtain work em where s: "s = (work, em)" by fastforce
  have ps: "p < length facts" if "p \<in> set ps" for p using that by (simp add: ps_def risk_positions_def)
  have "sorted_wrt (<) ps" by (simp add: ps_def risk_positions_def sorted_wrt_filter)
  then have "sorted_wrt (\<lambda>p q. (bf_ordinal (facts ! p), bf_block_id (facts ! p)) \<le> (bf_ordinal (facts ! q), bf_block_id (facts ! q))) ps"
    by (rule sorted_wrt_mono_rel [rotated]) (use ps ordinals in \<open>simp add: less_imp_le\<close>)
  then have sorted: "sort_key (\<lambda>r. (ro_ordinal r, ro_block_id r)) ?rs = ?rs"
    by (intro sort_key_id_if_sorted) (simp add: sorted_wrt_map risk_occurrence_def comp_def)
  have len: "length ps \<le> MAX_PRIMARY_BLOCKS_V1" using facts(2) length_filter_le [of _ "[0..<length facts]"]
    by (simp add: ps_def risk_positions_def) (meson le_trans length_filter_le length_upt)
  have loop: "counted.outcome sha256 anchors R S
      (\<lambda>t. snd t = n + length (representatives (length ps)) \<and> risk_marked sha256 facts risk (fst (fst t))) ((work, em'), n)
      (rfold (representative_step risk ?fid ?rs) ((work, em'), n) (representatives (length ps)))"
    if em': "work_ok sha256 anchors R S (work, em')" "map_of (oe_facets em') ?fid \<noteq> None" for em'
  proof (rule counted.outcome_weaken [OF representative_loop [OF em'(1)]])
    show "map_of (oe_facets (snd (work, em'))) ?fid \<noteq> None" using em'(2) by simp
    show "n + length (representatives (length ps)) \<le> u64_max" using n representatives_bounds(2) [of "length ps"] by linarith
    show "\<forall>offset \<in> set (representatives (length ps)). offset < length ?rs \<and> ro_work_position (?rs ! offset) < length (fst (work, em'))"
      using representatives_bounds(1) [of "length ps"] ps facts(1) s by (auto simp: risk_occurrence_def)
  qed (use representatives_bounds(1) [of "length ps"] in \<open>auto simp: risk_marked_def risk_occurrence_def ps_def\<close>)
  have step: "risk_step sha256 (s, n) (risk, ?rs) = rbind (register_facet sha256 (ReconstructionRiskFacet risk) None em) (\<lambda>(fid, em).
      rfold (representative_step risk fid ?rs) ((work, em), n) (representatives (length ps)))"
    unfolding risk_step_def s prod.case Let_def sorted length_map representatives_closed [OF len] rbind_simps ..
  have "role_ok (ReconstructionRiskFacet risk)" "anchor_ok anchors (ReconstructionRiskFacet risk) None" by (simp_all add: anchor_ok_def)
  note register = register_facet_ok [OF ok [unfolded s] this ids]
  show ?thesis
  proof (cases "register_facet sha256 (ReconstructionRiskFacet risk) None em")
    case (Inl e)
    then show ?thesis using register by (simp add: step counted.outcome_def)
  next
    case (Inr r)
    then obtain em' where r: "r = (?fid, em')" and em': "work_ok sha256 anchors R S (work, em')" "work_grows (work, em) (work, em')"
      "map_of (oe_facets em') ?fid \<noteq> None" using register by (cases r) auto
    have "counted.outcome sha256 anchors R S
        (\<lambda>t. snd t = n + length (representatives (length ps)) \<and> risk_marked sha256 facts risk (fst (fst t))) (s, n)
        (rfold (representative_step risk ?fid ?rs) ((work, em'), n) (representatives (length ps)))"
      by (rule counted.outcome_after [OF _ loop [OF em'(1,3)]]) (use em'(2) s in simp)
    then show ?thesis unfolding step Inr r rbind_simps prod.case .
  qed
qed

section \<open>The pass\<close>

definition present_risks :: "BlockFacts list \<Rightarrow> ReconstructionRiskKindV1 list" where
  "present_risks facts = btree_set (concat (map risks_of facts))"

definition representative_total :: "BlockFacts list \<Rightarrow> ReconstructionRiskKindV1 list \<Rightarrow> nat" where
  "representative_total facts risks = sum_list (map (\<lambda>risk. length (representatives (length (risk_positions facts risk)))) risks)"

lemma risk_entries_fst: "map fst (risk_entries facts) = concat (map risks_of facts)"
  by (induction facts rule: rev_induct) (simp_all add: risk_entries_snoc comp_def, simp add: risk_entries_def)

lemma risk_groups: "groups (risk_entries facts) =
    map (\<lambda>risk. (risk, map (\<lambda>p. risk_occurrence p (facts ! p)) (risk_positions facts risk))) (present_risks facts)"
  unfolding groups_def risk_entries_fst risk_group present_risks_def ..

lemma present_risks_few: "length (present_risks facts) \<le> 3 * length facts"
proof -
  have "length (present_risks facts) \<le> length (map fst (risk_entries facts))"
    by (simp add: present_risks_def risk_entries_fst btree_set_def)
  then show ?thesis using risk_total_bound [of facts] by (simp add: length_risk_entries)
qed

lemma representative_total_few: "representative_total facts risks \<le> 5 * length risks"
  unfolding representative_total_def using representatives_bounds(2) by (induction risks) (auto intro: add_mono)

lemma risk_marked_keep:
  assumes "risk_marked sha256 facts risk work" and "list_all2 annotation_extends work work'" and "length facts = length work"
  shows "risk_marked sha256 facts risk work'"
proof -
  have "annotation_extends (work ! (risk_positions facts risk ! offset)) (work' ! (risk_positions facts risk ! offset))"
    if "offset \<in> set (representatives (length (risk_positions facts risk)))" for offset
  proof -
    have "risk_positions facts risk ! offset \<in> set (risk_positions facts risk)" using that representatives_bounds(1) by simp
    then have "risk_positions facts risk ! offset < length work" using assms(3) by (simp add: risk_positions_def)
    then show ?thesis using assms(2) by (simp add: list_all2_conv_all_nth)
  qed
  then show ?thesis using assms(1) extends_keeps(2) unfolding risk_marked_def by blast
qed

lemma risk_loop_ok:
  assumes ok: "work_ok sha256 anchors R S s" and facts: "length facts = length (fst s)" "length facts \<le> MAX_PRIMARY_BLOCKS_V1"
    and ordinals: "\<forall>p < length facts. bf_ordinal (facts ! p) = p" and ids: "\<forall>bid \<in> anchors. length bid = 32"
    and few: "5 * length risks + 5 \<le> u64_max"
  shows "counted.outcome sha256 anchors R S
    (\<lambda>t. snd t = representative_total facts risks \<and> (\<forall>risk \<in> set risks. risk_marked sha256 facts risk (fst (fst t)))) (s, 0)
    (rfold (risk_step sha256) (s, 0) (map (\<lambda>risk. (risk, map (\<lambda>p. risk_occurrence p (facts ! p)) (risk_positions facts risk))) risks))"
  using few
proof (induction risks rule: rev_induct)
  case Nil
  then show ?case using ok by (simp add: counted.outcome_return representative_total_def)
next
  case (snoc risk risks)
  let ?items = "map (\<lambda>risk. (risk, map (\<lambda>p. risk_occurrence p (facts ! p)) (risk_positions facts risk)))"
  have IH: "counted.outcome sha256 anchors R S
    (\<lambda>t. snd t = representative_total facts risks \<and> (\<forall>risk \<in> set risks. risk_marked sha256 facts risk (fst (fst t)))) (s, 0)
    (rfold (risk_step sha256) (s, 0) (?items risks))" using snoc.prems by (intro snoc.IH) simp
  show ?case
    unfolding map_append list.map rfold_snoc
  proof (rule counted.outcome_bind [OF IH])
    fix t
    assume t: "work_ok sha256 anchors R S (fst t)" "work_grows (fst (s, 0 :: nat)) (fst t)"
      and P: "snd t = representative_total facts risks \<and> (\<forall>risk \<in> set risks. risk_marked sha256 facts risk (fst (fst t)))"
    have len: "length facts = length (fst (fst t))" using work_grows_length t(2) facts(1) by simp
    have n: "snd t + 5 \<le> u64_max" using P representative_total_few [of facts risks] snoc.prems by simp
    from risk_step_ok [OF t(1) len facts(2) ordinals ids n, of risk]
    show "counted.outcome sha256 anchors R S (\<lambda>t. snd t = representative_total facts (risks @ [risk])
        \<and> (\<forall>risk \<in> set (risks @ [risk]). risk_marked sha256 facts risk (fst (fst t)))) t
      (risk_step sha256 t (risk, map (\<lambda>p. risk_occurrence p (facts ! p)) (risk_positions facts risk)))"
      unfolding prod.collapse
    proof (rule counted.outcome_weaken)
      fix u
      assume u: "work_grows (fst t) (fst u)" "snd u = snd t + length (representatives (length (risk_positions facts risk)))
        \<and> risk_marked sha256 facts risk (fst (fst u))"
      have "risk_marked sha256 facts r (fst (fst u))" if "r \<in> set risks" for r
        using P that risk_marked_keep [OF _ grows_list_extends [OF u(1)] len] by blast
      then show "snd u = representative_total facts (risks @ [risk]) \<and> (\<forall>risk \<in> set (risks @ [risk]). risk_marked sha256 facts risk (fst (fst u)))"
        using u(2) P by (simp add: representative_total_def)
    qed
  qed
qed

lemma risk_pass_ok:
  assumes ok: "work_ok sha256 anchors R S s" and facts: "length facts = length (fst s)" "length facts \<le> MAX_PRIMARY_BLOCKS_V1"
    and ordinals: "\<forall>p < length facts. bf_ordinal (facts ! p) = p" and ids: "\<forall>bid \<in> anchors. length bid = 32"
  shows "case annotate_reconstruction_risk sha256 facts s of Inl e \<Rightarrow> emission_stop sha256 anchors e
    | Inr (t, fact_count, representative_count) \<Rightarrow> work_ok sha256 anchors R S t \<and> fact_count = risk_total facts
        \<and> representative_count = representative_total facts (present_risks facts) \<and> list_all2 annotation_extends (fst s) (fst t)
        \<and> places t = places s \<and> map wa_reconstruction_risks (fst t) = map risks_of facts
        \<and> (\<forall>risk. risk_marked sha256 facts risk (fst t))"
proof -
  obtain work em where s: "s = (work, em)" by fastforce
  let ?work = "map (\<lambda>(bf, a). a\<lparr>wa_reconstruction_risks := risks_of bf\<rparr>) (zip facts work)"
  have zip: "map fst (zip facts work) = facts" "length (zip facts work) \<le> MAX_PRIMARY_BLOCKS_V1" using facts s by simp_all
  have len: "length ?work = length work" using facts s by simp
  have fields: "wa_affinities (?work ! p) = wa_affinities (work ! p)" "wa_sentinels (?work ! p) = wa_sentinels (work ! p)"
    "annotation_extends (work ! p) (?work ! p)" "wa_failure_lane_position (?work ! p) = wa_failure_lane_position (work ! p)"
    "wa_reconstruction_risks (?work ! p) = risks_of (facts ! p)" if "p < length work" for p
    using that facts s by (simp_all add: annotation_extends_def)
  have start: "work_ok sha256 anchors R S (?work, em)"
    by (rule work_ok_update [OF ok [unfolded s] len]) (use fields in simp)
  have facts': "length facts = length (fst (?work, em))" using facts s len by simp
  have few: "5 * length (present_risks facts) + 5 \<le> u64_max"
    using present_risks_few [of facts] facts(2) by (simp add: MAX_PRIMARY_BLOCKS_V1_def)
  let ?loop = "rfold (risk_step sha256) ((?work, em), 0) (groups (risk_entries facts))"
  have loop: "counted.outcome sha256 anchors R S (\<lambda>t. snd t = representative_total facts (present_risks facts)
      \<and> (\<forall>risk \<in> set (present_risks facts). risk_marked sha256 facts risk (fst (fst t)))) ((?work, em), 0) ?loop"
    unfolding risk_groups by (rule risk_loop_ok [OF start facts' facts(2) ordinals ids few])
  have step: "annotate_reconstruction_risk sha256 facts s = rbind ?loop (\<lambda>(t, representative_count). Inr (t, risk_total facts, representative_count))"
    unfolding annotate_reconstruction_risk_def s prod.case risk_fact_loop [OF zip(2)] rbind_simps zip(1) ..
  have absent: "risk_marked sha256 facts risk work'" if "risk \<notin> set (present_risks facts)" for risk work'
    using that by (auto simp: risk_marked_def present_risks_def risk_positions_def representatives_def)
  show ?thesis
  proof (cases ?loop)
    case (Inl e)
    then show ?thesis using loop by (simp add: step counted.outcome_def)
  next
    case (Inr r)
    obtain t n where r: "r = (t, n)" by fastforce
    have t: "work_ok sha256 anchors R S t" "work_grows (?work, em) t" "n = representative_total facts (present_risks facts)"
      "\<forall>risk \<in> set (present_risks facts). risk_marked sha256 facts risk (fst t)"
      using loop unfolding Inr counted.outcome_def by (simp_all add: r)
    have len': "length (fst t) = length work" using work_grows_length [OF t(2)] len by simp
    have grows: "annotation_grows (?work ! p) (fst t ! p)" if "p < length work" for p using work_grows_nth [OF t(2)] that len by simp
    have "annotation_extends (work ! p) (fst t ! p) \<and> wa_failure_lane_position (fst t ! p) = wa_failure_lane_position (work ! p)
        \<and> wa_reconstruction_risks (fst t ! p) = risks_of (facts ! p)" if "p < length work" for p
      using annotation_extends_trans [OF fields(3) [OF that]] fields(4,5) [OF that] grows [OF that, unfolded annotation_grows_def]
      by (simp del: nth_map)
    then have "list_all2 annotation_extends work (fst t)" "places t = map wa_failure_lane_position work"
      "map wa_reconstruction_risks (fst t) = map risks_of facts"
      using len' facts s by (auto simp: list_all2_conv_all_nth intro: nth_equalityI)
    then show ?thesis using t absent unfolding step Inr r by (auto simp: s)
  qed
qed

end
