(* ===== verification/Coverage_Output.thy ===== *)
theory Coverage_Output
  imports Coverage_Lane
begin

text \<open>
  What the passes of the coverage lane emit: an upper bound on the affinities and sentinels each of
  them adds, and the fact that an output cap is reported only when that bound exceeds it.
\<close>

section \<open>Spending\<close>

definition spends :: "('a \<Rightarrow> OutputEmitter) \<Rightarrow> nat \<Rightarrow> nat \<Rightarrow> OutputEmitter \<Rightarrow> (GenerationFailure, 'a) result \<Rightarrow> bool" where
  "spends emitter m n em r \<longleftrightarrow> (case r of
     Inr x \<Rightarrow> oe_affinity_count (emitter x) \<le> oe_affinity_count em + m \<and> oe_sentinel_count (emitter x) \<le> oe_sentinel_count em + n
   | Inl e \<Rightarrow> (e = GenerationNeedsMore CoverageAffinityOutputCap \<longrightarrow> MAX_COVERAGE_OUTPUT_AFFINITIES_V1 < oe_affinity_count em + m)
       \<and> (e = GenerationNeedsMore CoverageSentinelOutputCap \<longrightarrow> MAX_COVERAGE_OUTPUT_SENTINELS_V1 < oe_sentinel_count em + n))"

text \<open>A computation that does not touch the emitter and reports neither cap.\<close>

definition uncapped :: "(GenerationFailure, 'a) result \<Rightarrow> bool" where
  "uncapped r \<longleftrightarrow> r \<noteq> Inl (GenerationNeedsMore CoverageAffinityOutputCap) \<and> r \<noteq> Inl (GenerationNeedsMore CoverageSentinelOutputCap)"

lemma spends_return: "spends emitter 0 0 (emitter x) (Inr x)"
  by (simp add: spends_def)

lemma spends_mono: "spends emitter m n em r \<Longrightarrow> m \<le> m' \<Longrightarrow> n \<le> n' \<Longrightarrow> spends emitter m' n' em r"
  by (auto simp: spends_def split: sum.splits)

lemma spends_bind:
  assumes "spends emitter m n em r" and "\<And>x. r = Inr x \<Longrightarrow> spends emitter' m' n' (emitter x) (k x)"
  shows "spends emitter' (m + m') (n + n') em (rbind r k)"
proof (cases r)
  case (Inl e)
  then show ?thesis using assms(1) by (auto simp: spends_def)
next
  case (Inr x)
  then have "spends emitter' m' n' (emitter x) (k x)" and "oe_affinity_count (emitter x) \<le> oe_affinity_count em + m"
    and "oe_sentinel_count (emitter x) \<le> oe_sentinel_count em + n" using assms by (simp_all add: spends_def)
  then show ?thesis using Inr by (auto simp: spends_def split: sum.splits)
qed

lemma spends_free: "uncapped r \<Longrightarrow> (\<And>x. r = Inr x \<Longrightarrow> spends emitter m n em (k x)) \<Longrightarrow> spends emitter m n em (rbind r k)"
  by (cases r) (auto simp: spends_def uncapped_def)

lemma spends_fold:
  assumes "\<And>t x. x \<in> set xs \<Longrightarrow> spends emitter (m x) (n x) (emitter t) (f t x)"
  shows "spends emitter (sum_list (map m xs)) (sum_list (map n xs)) (emitter t) (rfold f t xs)"
  using assms
proof (induction xs arbitrary: t)
  case (Cons x xs)
  have "spends emitter (m x + sum_list (map m xs)) (n x + sum_list (map n xs)) (emitter t) (rbind (f t x) (\<lambda>t. rfold f t xs))"
    using Cons.prems Cons.IH by (intro spends_bind) auto
  then show ?case by simp
qed (simp add: spends_return)

lemma spends_fold_const:
  assumes "\<And>t x. spends emitter m n (emitter t) (f t x)"
  shows "spends emitter (m * length xs) (n * length xs) (emitter t) (rfold f t xs)"
  using spends_fold [of xs emitter "\<lambda>_. m" "\<lambda>_. n" f t] assms by (simp add: sum_list_triv mult.commute)

lemma uncapped_simps [simp]: "uncapped (nth_or (GenerationBuild e) xs p)" "uncapped (ok_or (GenerationBuild e) y)"
  "uncapped (ok_or (GenerationNeedsMore ArithmeticCapacity) y)" "uncapped (Inr x)"
  by (auto simp: uncapped_def nth_or_def split: option.splits; cases y; simp)+

lemma uncapped_bind: "uncapped r \<Longrightarrow> (\<And>x. uncapped (k x)) \<Longrightarrow> uncapped (rbind r k)"
  by (cases r) (simp_all add: uncapped_def)

lemma uncapped_fold: "(\<And>t x. uncapped (f t x)) \<Longrightarrow> uncapped (rfold f t xs)"
  by (induction xs arbitrary: t) (simp_all add: uncapped_bind)

lemma uncapped_rmap: "(\<And>x. uncapped (f x)) \<Longrightarrow> uncapped (rmap f xs)"
  unfolding rmap_def by (intro uncapped_fold uncapped_bind) simp_all

section \<open>Operations\<close>

lemma register_facet_spends: "spends snd 0 0 em (register_facet sha256 role anchor em)"
  by (cases "ProductionFacetV1_new sha256 (production_kind role) (semantic_key role anchor)
      (if is_coverage_only (production_kind role) then oe_breadth_weight em else oe_full_weight em)")
    (auto simp: register_facet_def spends_def Let_def split: option.splits)

lemma increment_spends:
  "checked_bounded_increment k cap reason = Inr k' \<Longrightarrow> k' = Suc k"
  "checked_bounded_increment k cap reason = Inl e \<Longrightarrow> e = ArithmeticCapacity \<or> e = reason \<and> cap < Suc k"
  by (auto simp: checked_bounded_increment_def checked_add_u64_def split: if_splits)

lemma add_affinity_spends: "spends snd 1 0 (snd s) (add_affinity fid s)"
  by (cases s, cases "checked_bounded_increment (oe_affinity_count (snd s)) MAX_COVERAGE_OUTPUT_AFFINITIES_V1 CoverageAffinityOutputCap")
    (auto simp: add_affinity_def spends_def dest: increment_spends)

lemma add_sentinel_spends: "spends snd 1 1 (snd s) (add_sentinel kind fid s)"
proof -
  obtain a em where s: "s = (a, em)" by fastforce
  let ?a = "a\<lparr>wa_sentinels := bt_insert (kind, fid) \<lparr>sn_kind = kind, sn_facet_id = fid\<rparr> (wa_sentinels a)\<rparr>"
  show ?thesis
  proof (cases "checked_bounded_increment (oe_sentinel_count em) MAX_COVERAGE_OUTPUT_SENTINELS_V1 CoverageSentinelOutputCap")
    case (Inl e)
    then show ?thesis by (auto simp: s add_sentinel_def spends_def dest: increment_spends)
  next
    case (Inr n)
    from increment_spends(1) [OF this] have n: "n = Suc (oe_sentinel_count em)" .
    from add_affinity_spends [of "(?a, em\<lparr>oe_sentinel_count := n\<rparr>)" fid] show ?thesis
      using Inr by (auto simp: s add_sentinel_def n spends_def split: sum.splits)
  qed
qed

lemma at_work_spends:
  assumes "\<And>a. spends snd m n (snd t) (f (a, snd t))"
  shows "spends snd m n (snd t) (at_work p f t)"
proof -
  obtain work em where t: "t = (work, em)" by fastforce
  have "spends snd (m + 0) (n + 0) em (rbind (f (a, em)) (\<lambda>(a, em). Inr (work[p := a], em)))" for a
    using assms [of a] by (intro spends_bind) (auto simp: t spends_def)
  then show ?thesis by (auto simp: at_work_def t intro: spends_free)
qed

lemma spends_register:
  assumes "\<And>fid em'. spends emitter m n em' (k (fid, em'))"
  shows "spends emitter m n em (rbind (register_facet sha256 role anchor em) k)"
proof -
  have "spends emitter (0 + m) (0 + n) em (rbind (register_facet sha256 role anchor em) k)"
    by (rule spends_bind [OF register_facet_spends]) (metis assms prod.collapse)
  then show ?thesis by simp
qed

lemma role_affinity_step_spends: "spends snd 1 0 (snd s) (role_affinity_step sha256 s role)"
  using add_affinity_spends by (cases s) (force simp: role_affinity_step_def intro: spends_register)

lemma add_source_sentinel_spends: "spends snd 1 1 (snd s) (add_source_sentinel sha256 kind anchor s)"
  using add_sentinel_spends by (cases s) (force simp: add_source_sentinel_def intro: spends_register)

lemma mark_boundary_spends: "spends snd 1 0 (snd s) (mark_boundary sha256 role anchor bid s)"
  using add_affinity_spends by (cases s) (force simp: mark_boundary_def intro: spends_register)

section \<open>Passes\<close>

lemma role_affinity_keeps: "role_affinity_step sha256 s role = Inr t \<Longrightarrow> wa_onset_counts (fst t) = wa_onset_counts (fst s)"
  by (cases s, cases t) (auto simp: role_affinity_step_def add_affinity_def rbind_Inr split: if_splits)

lemma role_affinities_keep: "rfold (role_affinity_step sha256) s roles = Inr t \<Longrightarrow> wa_onset_counts (fst t) = wa_onset_counts (fst s)"
  by (induction roles arbitrary: s) (auto simp: rbind_Inr dest: role_affinity_keeps)

lemma role_affinities_spend: "spends snd (length roles) 0 (snd s) (rfold (role_affinity_step sha256) s roles)"
  using spends_fold_const [of snd 1 0 "role_affinity_step sha256" roles s] role_affinity_step_spends by simp

lemma signal_step_spends:
  "spends snd (length (wa_failure_counts a) + length (wa_onset_counts a)) 0 (snd t) (signal_step sha256 t a)"
proof -
  obtain annotated em where t: "t = (annotated, em)" by fastforce
  let ?roles = "map (\<lambda>(kind, _). FailureFacet kind) (wa_failure_counts a)"
  have "spends snd (length ?roles + (length (wa_onset_counts a) + 0)) (0 + (0 + 0)) em (signal_step sha256 t a)"
    unfolding signal_step_def t prod.case
  proof (rule spends_bind [OF role_affinities_spend [of _ "(a, em)", unfolded snd_conv]])
    fix s
    assume "rfold (role_affinity_step sha256) (a, em) ?roles = Inr s"
    then obtain a' em' where s: "s = (a', em')" and a': "wa_onset_counts a' = wa_onset_counts a"
      using role_affinities_keep [of sha256 "(a, em)" ?roles s] by (cases s) auto
    show "spends snd (length (wa_onset_counts a) + 0) (0 + 0) (snd s) (case s of (a, em) \<Rightarrow>
        rbind (rfold (role_affinity_step sha256) (a, em) (map (\<lambda>(kind, _). ExplicitOnsetFacet kind) (wa_onset_counts a)))
          (\<lambda>(a, em). Inr (annotated @ [a], em)))"
      using role_affinities_spend [of "map (\<lambda>(kind, _). ExplicitOnsetFacet kind) (wa_onset_counts a)" "(a', em')" sha256] a'
      unfolding s by (auto intro!: spends_bind simp: spends_def split: sum.splits)
  qed
  then show ?thesis by (simp add: t)
qed

definition signal_demand :: "WorkAnnotation list \<Rightarrow> nat" where
  "signal_demand work = sum_list (map (\<lambda>a. length (wa_failure_counts a) + length (wa_onset_counts a)) work)"

lemma signal_pass_spends: "spends snd (signal_demand work) 0 em (annotate_failure_and_explicit_onset sha256 (work, em))"
  using spends_fold [of work snd "\<lambda>a. length (wa_failure_counts a) + length (wa_onset_counts a)" "\<lambda>_. 0" "signal_step sha256" "([], em)"]
    signal_step_spends by (simp add: annotate_failure_and_explicit_onset_def signal_demand_def)

lemma add_onset_boundary_spends: "spends snd 2 0 (snd t) (add_onset_boundary sha256 ps bp anchor roles facts t)"
proof -
  have mark: "spends snd 1 0 (snd u) (at_work p (mark_boundary sha256 role anchor bid) u)" for p role bid u
    using mark_boundary_spends [of "(_, snd u)"] by (intro at_work_spends) simp
  have rest: "spends snd 1 0 (snd u) (rbind (ok_or (GenerationBuild BlockIndexContractViolation)
         (position_of (\<lambda>position. position = bp) ps)) (\<lambda>boundary_lane_position.
     case checked_sub_u64 boundary_lane_position 1 of
       None \<Rightarrow> Inr u
     | Some context_lane_position \<Rightarrow>
         rbind (nth_or (GenerationBuild CandidatePanic) ps context_lane_position) (\<lambda>context_position.
         at_work context_position (mark_boundary sha256 (snd roles) anchor bid) u)))" for u bid
    using mark [where u = u] spends_mono [OF spends_return [of snd u], of 1 0] by (auto intro!: spends_free split: option.split)
  have "spends snd (1 + 1) (0 + 0) (snd t) (add_onset_boundary sha256 ps bp anchor roles facts t)"
    unfolding add_onset_boundary_def by (intro spends_free spends_bind [OF mark] rest) simp
  then show ?thesis by (simp add: numeral_2_eq_2)
qed

lemma positions_with_uncapped: "uncapped (positions_with P work ps)"
  unfolding positions_with_def by (intro uncapped_bind uncapped_rmap) simp_all

lemma failure_positions_uncapped: "uncapped (rfold (failure_position_step k) work items)"
  by (intro uncapped_fold) (auto simp: failure_position_step_def split: prod.split intro!: uncapped_bind)

lemma boundary_spends:
  "spends snd 2 0 em (case ps' of [] \<Rightarrow> Inr (work, em) | p # _ \<Rightarrow> add_onset_boundary sha256 ps p anchor roles facts (work, em))"
  using add_onset_boundary_spends [of "(work, em)"] spends_mono [OF spends_return [of snd "(work, em)"], of 2 0]
  by (simp split: list.split)

lemma lane_step_spends: "spends snd 6 2 (snd t) (lane_step sha256 facts t ps)"
proof (cases ps)
  case (Cons p rest)
  have source: "spends snd 1 1 (snd u) (at_work p (add_source_sentinel sha256 kind anchor) u)" for p kind anchor u
    using add_source_sentinel_spends [of "(_, snd u)"] by (intro at_work_spends) simp
  have onset: "spends snd 2 0 (snd u) (case u of (work, em) \<Rightarrow> rbind (positions_with P work ps) (\<lambda>ps'. case ps' of [] \<Rightarrow> Inr (work, em)
      | p # _ \<Rightarrow> add_onset_boundary sha256 ps p anchor roles facts (work, em)))" for u P anchor roles
    by (cases u) (simp, intro spends_free [OF positions_with_uncapped] boundary_spends)
  have "spends snd (1 + (1 + (2 + 2))) (1 + (1 + (0 + 0))) (snd t) (lane_step sha256 facts t ps)"
    unfolding lane_step_def Cons list.case Let_def
  proof (rule spends_free [OF uncapped_simps(1)], rule spends_bind [OF source], rule spends_bind [OF source], split prod.split, intro allI impI)
    fix anchor work em and u :: lane_work
    assume u: "u = (work, em)"
    show "spends snd (2 + 2) (0 + 0) (snd u) (rbind (positions_with (\<lambda>a. wa_failure_counts a \<noteq> []) work (p # rest)) (\<lambda>failure_positions.
        rbind (ok_or (GenerationNeedsMore ArithmeticCapacity) (u32_try_from (length failure_positions))) (\<lambda>failure_block_count.
        rbind (rfold (failure_position_step failure_block_count) work (enumerate 0 failure_positions)) (\<lambda>work.
        rbind (case failure_positions of
            [] \<Rightarrow> Inr (work, em)
          | boundary_position # _ \<Rightarrow> add_onset_boundary sha256 (p # rest) boundary_position (bf_block_id anchor)
              (FirstFailureInLane, LastAvailableBeforeFirstFailure) facts (work, em)) (\<lambda>(work, em).
        rbind (positions_with (\<lambda>a. wa_onset_counts a \<noteq> []) work (p # rest)) (\<lambda>onset_positions.
        case onset_positions of
          [] \<Rightarrow> Inr (work, em)
        | boundary_position # _ \<Rightarrow> add_onset_boundary sha256 (p # rest) boundary_position (bf_block_id anchor)
            (FirstExplicitOnsetInLane, LastAvailableBeforeFirstExplicitOnset) facts (work, em)))))))"
      unfolding u snd_conv
      by (rule spends_free [OF positions_with_uncapped], rule spends_free [OF uncapped_simps(3)], rule spends_free [OF failure_positions_uncapped],
          rule spends_bind [OF boundary_spends], rule onset [unfolded Cons])
  qed
  then show ?thesis by (rule spends_mono) simp_all
qed (simp add: lane_step_def spends_def)

lemma lane_pass_spends: "spends snd (6 * length lanes) (2 * length lanes) (snd t) (annotate_lane_boundaries_and_source_coverage sha256 facts lanes t)"
  using spends_fold_const [of snd 6 2 "lane_step sha256 facts" "map snd lanes" t] lane_step_spends
  by (simp add: annotate_lane_boundaries_and_source_coverage_def)

lemma stratum_step_spends: "spends snd 1 1 (snd t) (stratum_step sha256 k n t index)"
proof -
  obtain work em where t: "t = (work, em)" by fastforce
  have "spends snd 1 1 em' (at_work p (add_sentinel kind fid) (work, em'))" for em' p kind fid
    using at_work_spends [of 1 1 "(work, em')" "add_sentinel kind fid" p] add_sentinel_spends [of "(_, em')"] by simp
  then show ?thesis
    unfolding stratum_step_def t prod.case snd_conv
    by (intro spends_free [OF uncapped_simps(3)] spends_free [OF uncapped_simps(2)] spends_register) simp
qed

lemma retrieval_pass_spends: "spends snd 10 10 (snd t) (annotate_retrieval_and_time_coverage sha256 facts t)"
proof (cases "fst t = []")
  case False
  have source: "spends snd 1 1 (snd u) (at_work p (add_source_sentinel sha256 kind anchor) u)" for p kind anchor u
    using add_source_sentinel_spends [of "(_, snd u)"] by (intro at_work_spends) simp
  have strata: "spends snd 8 8 (snd u) (rfold (stratum_step sha256 k n) u [0..<min m MAX_TIME_COVERAGE_STRATA_V1])" for k n m u
    using spends_fold_const [of snd 1 1 "stratum_step sha256 k n" "[0..<min m MAX_TIME_COVERAGE_STRATA_V1]" u] stratum_step_spends
    by (auto simp: MAX_TIME_COVERAGE_STRATA_V1_def elim: spends_mono)
  have "spends snd (1 + (1 + 8)) (1 + (1 + 8)) (snd t) (annotate_retrieval_and_time_coverage sha256 facts t)"
    using False unfolding annotate_retrieval_and_time_coverage_def Let_def
    by (simp only: if_False) (intro spends_bind [OF source] spends_free strata, simp)
  then show ?thesis by simp
qed (simp add: annotate_retrieval_and_time_coverage_def spends_def)

lemma rmap_length: "rmap f xs = Inr ys \<Longrightarrow> length ys = length xs"
proof -
  have "rfold (\<lambda>acc x. rbind (f x) (\<lambda>y. Inr (acc @ [y]))) acc xs = Inr ys \<Longrightarrow> length ys = length acc + length xs" for acc
    by (induction xs arbitrary: acc) (auto simp: rbind_Inr)
  from this [of "[]"] show "rmap f xs = Inr ys \<Longrightarrow> length ys = length xs" by (simp add: rmap_def)
qed

lemma offsets_few: "canonical_stratified_offsets k MAX_RECONSTRUCTION_RISK_REPRESENTATIVES_PER_KIND_V1 = Inr offsets \<Longrightarrow> length offsets \<le> 5"
  by (auto simp: canonical_stratified_offsets_def MAX_RECONSTRUCTION_RISK_REPRESENTATIVES_PER_KIND_V1_def Let_def
      dest: rmap_length split: if_splits)

lemma offsets_uncapped: "uncapped (canonical_stratified_offsets k cap)"
  by (auto simp: canonical_stratified_offsets_def Let_def uncapped_def [of "Inl _"] intro!: uncapped_rmap)

abbreviation counted_emitter :: "lane_work \<times> nat \<Rightarrow> OutputEmitter" where
  "counted_emitter t \<equiv> snd (fst t)"

lemma representative_step_spends: "spends counted_emitter 1 1 (counted_emitter t) (representative_step risk fid occurrences t offset)"
proof -
  obtain lane k where t: "t = (lane, k)" by fastforce
  have "spends snd 1 1 (snd lane) (at_work p (add_sentinel kind fid) lane)" for p kind
    using at_work_spends [of 1 1 lane "add_sentinel kind fid" p] add_sentinel_spends [of "(_, snd lane)"] by simp
  then have "spends counted_emitter (1 + 0) (1 + 0) (snd lane) (representative_step risk fid occurrences t offset)"
    unfolding representative_step_def t prod.case
    by (intro spends_free [OF uncapped_simps(1)] spends_bind spends_free [OF uncapped_simps(3)]) (assumption | simp add: spends_def)+
  then show ?thesis by (simp add: t)
qed

lemma risk_step_spends: "spends counted_emitter 5 5 (counted_emitter t) (risk_step sha256 t item)"
proof -
  obtain work em k risk occurrences where t: "t = ((work, em), k)" and item: "item = (risk, occurrences)" by (metis surj_pair)
  have "spends counted_emitter 5 5 em' (rfold (representative_step risk fid xs) ((work, em'), k) offsets)" if "length offsets \<le> 5" for fid em' xs offsets
    using spends_fold_const [of counted_emitter 1 1 "representative_step risk fid xs" offsets "((work, em'), k)"] representative_step_spends that
    by (auto elim: spends_mono)
  then show ?thesis
    unfolding risk_step_def t item prod.case Let_def fst_conv snd_conv
    by (intro spends_free [OF offsets_uncapped] spends_register) (simp add: offsets_few)
qed

lemma risk_kinds: "UNIV = {Risk_MediumConfidence, Risk_LowConfidence, Risk_UnknownConfidence, Risk_AmbiguousBoundary, Risk_FallbackSingleton, Risk_Fragment}"
  by (auto intro: ReconstructionRiskKindV1.exhaust)

lemma risk_facts_few:
  "rfold risk_fact_step (annotated, occurrences, k) items = Inr (work', occurrences', k') \<Longrightarrow> bt_ordered occurrences \<Longrightarrow> length occurrences' \<le> 6"
proof (induction items arbitrary: annotated occurrences k)
  case Nil
  then have "distinct (map fst occurrences')" by (simp add: bt_ordered_distinct)
  from distinct_card [OF this] have "length occurrences' = card (set (map fst occurrences'))" by (simp only: length_map)
  also have "\<dots> \<le> card (UNIV :: ReconstructionRiskKindV1 set)" by (rule card_mono [OF _ subset_UNIV]) (simp add: risk_kinds)
  finally show ?case by (simp add: risk_kinds)
next
  case (Cons item items)
  have "bt_ordered (fold (push_occurrence r) risks occurrences)" for r risks
    using Cons.prems(2) by (induction risks arbitrary: occurrences) (simp_all add: push_occurrence_def bt_ordered_insert)
  then show ?case using Cons by (auto simp: risk_fact_step_def Let_def rbind_Inr split: prod.splits)
qed

lemma risk_facts_uncapped: "uncapped (rfold risk_fact_step s items)"
  by (intro uncapped_fold) (auto simp: risk_fact_step_def Let_def split: prod.split intro!: uncapped_bind)

lemma risk_pass_spends: "spends (\<lambda>t. snd (fst t)) 30 30 (snd t) (annotate_reconstruction_risk sha256 facts t)"
proof -
  obtain work em where t: "t = (work, em)" by fastforce
  have "spends (\<lambda>t. snd (fst t)) (30 + 0) (30 + 0) em (rbind (rfold (risk_step sha256) ((work', em), 0) occurrences)
      (\<lambda>(lane, k). Inr (lane, n, k)))" if "length occurrences \<le> 6" for work' occurrences n
  proof (rule spends_bind)
    show "spends counted_emitter 30 30 em (rfold (risk_step sha256) ((work', em), 0) occurrences)"
      using spends_fold_const [of counted_emitter 5 5 "risk_step sha256" occurrences "((work', em), 0)"] risk_step_spends that
      by (auto elim: spends_mono)
  qed (auto simp: spends_def)
  note rest = this
  show ?thesis
    unfolding annotate_reconstruction_risk_def t prod.case snd_conv
  proof (rule spends_free [OF risk_facts_uncapped])
    fix x
    assume "rfold risk_fact_step ([], [], 0) (enumerate 0 (zip facts work)) = Inr x"
    moreover obtain work' occurrences n where x: "x = (work', occurrences, n)" by (metis surj_pair)
    ultimately have "length occurrences \<le> 6" by (auto dest: risk_facts_few simp: bt_ordered_def)
    then show "spends (\<lambda>t. snd (fst t)) 30 30 em (case x of (work, occurrences, fact_count) \<Rightarrow>
        rbind (rfold (risk_step sha256) ((work, em), 0) occurrences) (\<lambda>(lane, representative_count).
        Inr (lane, fact_count, representative_count)))"
      using rest [of occurrences work' n] by (simp add: x)
  qed
qed

lemma coverage_passes_spend:
  "case coverage_passes sha256 facts lanes work of
     Inl e \<Rightarrow> (e = GenerationNeedsMore CoverageAffinityOutputCap \<longrightarrow> MAX_COVERAGE_OUTPUT_AFFINITIES_V1 < signal_demand work + 6 * length lanes + 40)
       \<and> (e = GenerationNeedsMore CoverageSentinelOutputCap \<longrightarrow> MAX_COVERAGE_OUTPUT_SENTINELS_V1 < 2 * length lanes + 40)
   | Inr _ \<Rightarrow> True"
proof -
  have passes: "spends (\<lambda>t. snd (fst t)) (signal_demand work + (6 * length lanes + (10 + 30))) (0 + (2 * length lanes + (10 + 30))) em
      (rbind (annotate_failure_and_explicit_onset sha256 (work, em)) (\<lambda>state.
       rbind (annotate_lane_boundaries_and_source_coverage sha256 facts lanes state) (\<lambda>state.
       rbind (annotate_retrieval_and_time_coverage sha256 facts state) (\<lambda>state.
       annotate_reconstruction_risk sha256 facts state))))" for em
    by (intro spends_bind [OF signal_pass_spends] spends_bind [OF lane_pass_spends] spends_bind [OF retrieval_pass_spends] risk_pass_spends)
  show ?thesis
  proof (cases OutputEmitter_new)
    case (Inr em)
    then have "oe_affinity_count em = 0" "oe_sentinel_count em = 0" by (auto simp: OutputEmitter_new_def rbind_Inr)
    then show ?thesis using passes [of em] by (auto simp: coverage_passes_def Inr spends_def split: sum.splits)
  next
    case (Inl e)
    then show ?thesis by (simp add: coverage_passes_def Inl)
  qed
qed

end
