(* ===== verification/Coverage_Decision.thy ===== *)
theory Coverage_Decision
  imports Coverage_Risk Coverage_Output
begin

text \<open>
  The coverage lane as a whole: the passes composed, the annotations finalized, and the decision on a
  reconciled block index.
\<close>

section \<open>The passes together\<close>

definition signals_marked :: "(bytes \<Rightarrow> bytes) \<Rightarrow> WorkAnnotation \<Rightarrow> bool" where
  "signals_marked sha256 a \<longleftrightarrow> (\<forall>role \<in> set (signal_roles a). has_affinity (facet_name sha256 role None) a)"

lemma extends_roles: "annotation_extends a a' \<Longrightarrow> signal_roles a' = signal_roles a"
  by (simp add: signal_roles_def annotation_extends_def)

lemma signals_marked_keep: "signals_marked sha256 a \<Longrightarrow> annotation_extends a a' \<Longrightarrow> signals_marked sha256 a'"
  using extends_keeps(1) [of a a'] by (simp add: signals_marked_def extends_roles)

definition fresh_work :: "WorkAnnotation list \<Rightarrow> bool" where
  "fresh_work work \<longleftrightarrow> (\<forall>a \<in> set work. wa_affinities a = [] \<and> wa_sentinels a = [] \<and> wa_failure_lane_position a = None)"

definition passes_done :: "(bytes \<Rightarrow> bytes) \<Rightarrow> BlockFacts list \<Rightarrow> nat list list \<Rightarrow> WorkAnnotation list \<Rightarrow> lane_work \<Rightarrow> bool" where
  "passes_done sha256 facts pss work t \<longleftrightarrow> list_all2 annotation_extends work (fst t)
     \<and> map wa_reconstruction_risks (fst t) = map risks_of facts \<and> list_all (signals_marked sha256) (fst t)
     \<and> (\<forall>ps \<in> set pss. lane_marked sha256 facts ps t \<and> lane_placed (\<lambda>p. wa_failure_counts (work ! p) \<noteq> []) ps t)
     \<and> retrieval_marked sha256 (fst t) \<and> (\<forall>risk. risk_marked sha256 facts risk (fst t))"

lemma new_emitter: "\<exists>em. OutputEmitter_new = Inr em \<and> emitter_ok sha256 anchors em \<and> oe_affinity_count em = 0 \<and> oe_sentinel_count em = 0"
  by (simp add: OutputEmitter_new_def FacetWeightV1_new_def AffinityV1_new_def AFFINITY_SCALE_V1_def
      BREADTH_COVERAGE_FACET_WEIGHT_DENOMINATOR_V1_def emitter_ok_def)

text \<open>The judgement of a computation that is not a pass: a permitted stop, or a result with \<open>P\<close>.\<close>

definition settles :: "('e \<Rightarrow> bool) \<Rightarrow> ('a \<Rightarrow> bool) \<Rightarrow> ('e, 'a) result \<Rightarrow> bool" where
  "settles stop P r \<longleftrightarrow> (case r of Inl e \<Rightarrow> stop e | Inr x \<Rightarrow> P x)"

lemma settles_bind: "settles stop P r \<Longrightarrow> (\<And>x. P x \<Longrightarrow> settles stop Q (k x)) \<Longrightarrow> settles stop Q (rbind r k)"
  by (cases r) (simp_all add: settles_def)

lemma settles_weaken: "settles stop P r \<Longrightarrow> (\<And>x. P x \<Longrightarrow> Q x) \<Longrightarrow> settles stop Q r"
  by (cases r) (simp_all add: settles_def)

lemma lane_placed_cong:
  assumes "\<And>p. p \<in> set ps \<Longrightarrow> fails p = fails' p" and "\<And>p. p \<in> set ps \<Longrightarrow> wa_failure_lane_position (fst t ! p) = wa_failure_lane_position (fst u ! p)"
  shows "lane_placed fails ps t = lane_placed fails' ps u"
proof -
  have "filter fails ps = filter fails' ps" using assms(1) by (intro filter_cong) simp_all
  then show ?thesis using assms by (simp add: lane_placed_def)
qed

lemma list_all_keep: "list_all P xs \<Longrightarrow> list_all2 R xs ys \<Longrightarrow> (\<And>x y. P x \<Longrightarrow> R x y \<Longrightarrow> P y) \<Longrightarrow> list_all P ys"
  by (auto simp: list_all_length list_all2_conv_all_nth)

lemma list_extends_trans: "list_all2 annotation_extends xs ys \<Longrightarrow> list_all2 annotation_extends ys zs \<Longrightarrow> list_all2 annotation_extends xs zs"
  using annotation_extends_trans by (rule list_all2_trans)

text \<open>What holds after the first and after the second pass.\<close>

definition signals_done :: "(bytes \<Rightarrow> bytes) \<Rightarrow> BlockId set \<Rightarrow> WorkAnnotation list \<Rightarrow> lane_work \<Rightarrow> bool" where
  "signals_done sha256 anchors work t \<longleftrightarrow> work_ok sha256 anchors 0 0 t
     \<and> list_all2 (\<lambda>a a'. annotation_grows a a' \<and> signals_marked sha256 a') work (fst t)"

definition lanes_done ::
  "(bytes \<Rightarrow> bytes) \<Rightarrow> BlockId set \<Rightarrow> BlockFacts list \<Rightarrow> nat list list \<Rightarrow> WorkAnnotation list \<Rightarrow> lane_work \<Rightarrow> bool" where
  "lanes_done sha256 anchors facts pss work t \<longleftrightarrow> work_ok sha256 anchors 0 0 t \<and> list_all2 annotation_extends work (fst t)
     \<and> list_all (signals_marked sha256) (fst t)
     \<and> (\<forall>ps \<in> set pss. lane_marked sha256 facts ps t \<and> lane_placed (\<lambda>p. wa_failure_counts (work ! p) \<noteq> []) ps t)"

lemma signal_pass_settles:
  assumes "emitter_ok sha256 anchors em" and "oe_affinity_count em = 0" and "oe_sentinel_count em = 0" and "fresh_work work"
    and "\<forall>bid \<in> anchors. length bid = 32"
  shows "settles (emission_stop sha256 anchors) (signals_done sha256 anchors work) (annotate_failure_and_explicit_onset sha256 (work, em))"
proof -
  have "signals_done sha256 anchors work t" if "case t of (work', em') \<Rightarrow> work_ok sha256 anchors 0 0 (work', em')
      \<and> list_all2 (\<lambda>a a'. annotation_grows a a' \<and> (\<forall>role \<in> set (signal_roles a). has_affinity (facet_name sha256 role None) a')) work work'" for t
    using that by (cases t) (auto simp: signals_done_def signals_marked_def annotation_grows_def extends_roles elim!: list_all2_mono)
  then show ?thesis
    using signal_pass_ok [OF assms(1-3) _ assms(5), of work] assms(4) unfolding settles_def fresh_work_def by (auto split: sum.splits)
qed

lemma lane_pass_settles:
  assumes done1: "signals_done sha256 anchors work t" and fresh: "fresh_work work"
    and facts: "length facts = length work" "length facts \<le> 4294967295" "\<forall>ps \<in> set pss. bf_block_id (facts ! hd ps) \<in> anchors"
    and ids: "\<forall>bid \<in> anchors. length bid = 32"
    and lanes: "\<forall>ps \<in> set pss. ps \<noteq> [] \<and> (\<forall>p \<in> set ps. p < length facts)" "distinct (concat pss)"
  shows "settles (emission_stop sha256 anchors) (lanes_done sha256 anchors facts pss work) (rfold (lane_step sha256 facts) t pss)"
proof -
  have each: "annotation_grows (work ! p) (fst t ! p) \<and> signals_marked sha256 (fst t ! p)" if "p < length work" for p
    using done1 that by (simp add: signals_done_def list_all2_conv_all_nth)
  have len: "length facts = length (fst t)" using done1 facts(1) by (auto simp: signals_done_def dest: list_all2_lengthD)
  have counts: "wa_failure_counts (fst t ! p) = wa_failure_counts (work ! p)" "wa_failure_lane_position (fst t ! p) = None" if "p < length work" for p
    using each [OF that] that fresh by (auto simp: annotation_grows_def annotation_extends_def fresh_work_def)
  then have start: "\<forall>a \<in> set (fst t). wa_failure_lane_position a = None" using len facts(1) by (auto simp: in_set_conv_nth)
  have "pass.outcome sha256 anchors 0 0 (\<lambda>u. \<forall>ps \<in> set pss. lane_marked sha256 facts ps u
      \<and> lane_placed (\<lambda>p. wa_failure_counts (fst t ! p) \<noteq> []) ps u) t (rfold (lane_step sha256 facts) t pss)"
    using done1 lanes len by (intro lane_pass_ok [OF _ len facts(2,3) ids _ _ start]) (simp_all add: signals_done_def)
  moreover have "lanes_done sha256 anchors facts pss work u" if u: "work_ok sha256 anchors 0 0 u" "work_extends t u"
      "\<forall>ps \<in> set pss. lane_marked sha256 facts ps u \<and> lane_placed (\<lambda>p. wa_failure_counts (fst t ! p) \<noteq> []) ps u" for u
  proof -
    have "lane_placed (\<lambda>p. wa_failure_counts (fst t ! p) \<noteq> []) ps u = lane_placed (\<lambda>p. wa_failure_counts (work ! p) \<noteq> []) ps u"
      if "ps \<in> set pss" for ps using lanes(1) that counts(1) facts(1) by (intro lane_placed_cong) auto
    moreover have "annotation_extends (work ! p) (fst u ! p) \<and> signals_marked sha256 (fst u ! p)" if "p < length work" for p
      using each [OF that] extends_nth [OF u(2), of p] that len facts(1) annotation_extends_trans signals_marked_keep
      unfolding annotation_grows_def by (metis (no_types))
    ultimately show ?thesis
      using u extends_length [OF u(2)] len facts(1) by (simp add: lanes_done_def list_all2_conv_all_nth list_all_length)
  qed
  ultimately show ?thesis by (auto simp: settles_def pass.outcome_def split: sum.splits)
qed

text \<open>Growth after the lane pass keeps what it established.\<close>

lemma lanes_done_keep:
  assumes t: "lanes_done sha256 anchors facts pss work t" and lanes: "\<forall>ps \<in> set pss. ps \<noteq> [] \<and> (\<forall>p \<in> set ps. p < length work)"
    and u: "work_ok sha256 anchors 0 0 u" "list_all2 annotation_extends (fst t) (fst u)" "places u = places t"
  shows "lanes_done sha256 anchors facts pss work u"
proof -
  have len: "length (fst t) = length work" "length (fst u) = length work"
    using t list_all2_lengthD [OF u(2)] by (auto simp: lanes_done_def dest: list_all2_lengthD)
  have "lane_placed fails ps u = lane_placed fails ps t" if ps: "ps \<in> set pss" for ps fails
  proof (rule lane_placed_cong)
    fix p
    assume "p \<in> set ps"
    then have "p < length work" using lanes ps by blast
    then show "wa_failure_lane_position (fst u ! p) = wa_failure_lane_position (fst t ! p)"
      using arg_cong [OF u(3), of "\<lambda>l. l ! p"] len by simp
  qed simp
  moreover have "lane_marked sha256 facts ps u" if "ps \<in> set pss" for ps
    using t that lanes len(1) lane_marked_keep [OF _ u(2)] by (simp add: lanes_done_def)
  moreover have "list_all2 annotation_extends work (fst u)" using t list_extends_trans [OF _ u(2)] by (simp add: lanes_done_def)
  moreover have "list_all (signals_marked sha256) (fst u)"
    using t list_all_keep [OF _ u(2) signals_marked_keep] by (simp add: lanes_done_def)
  ultimately show ?thesis using t u(1) by (simp add: lanes_done_def)
qed

lemma retrieval_pass_settles:
  assumes t: "lanes_done sha256 anchors facts pss work t" and facts: "length facts = length work" "length facts \<le> MAX_PRIMARY_BLOCKS_V1"
    and ids: "\<forall>bid \<in> anchors. length bid = 32" and lanes: "\<forall>ps \<in> set pss. ps \<noteq> [] \<and> (\<forall>p \<in> set ps. p < length work)"
  shows "settles (emission_stop sha256 anchors) (\<lambda>u. lanes_done sha256 anchors facts pss work u \<and> retrieval_marked sha256 (fst u))
    (annotate_retrieval_and_time_coverage sha256 facts t)"
proof -
  have ok: "work_ok sha256 anchors 0 0 t" and len: "length facts = length (fst t)"
    using t facts(1) by (auto simp: lanes_done_def dest: list_all2_lengthD)
  have keep: "lanes_done sha256 anchors facts pss work u" if "work_ok sha256 anchors 0 0 u" "work_grows t u" for u
    using lanes_done_keep [OF t lanes that(1) grows_list_extends [OF that(2)]] grows_extends [OF that(2)] by blast
  show ?thesis
    using retrieval_pass_ok [OF ok len facts(2) ids] keep by (auto simp: emit.outcome_def settles_def split: sum.splits)
qed

lemma risk_pass_settles:
  assumes t: "lanes_done sha256 anchors facts pss work t" "retrieval_marked sha256 (fst t)"
    and facts: "length facts = length work" "length facts \<le> MAX_PRIMARY_BLOCKS_V1" "\<forall>p < length facts. bf_ordinal (facts ! p) = p"
    and ids: "\<forall>bid \<in> anchors. length bid = 32" and lanes: "\<forall>ps \<in> set pss. ps \<noteq> [] \<and> (\<forall>p \<in> set ps. p < length work)"
  shows "settles (emission_stop sha256 anchors) (\<lambda>(u, fact_count, representative_count). work_ok sha256 anchors 0 0 u
      \<and> passes_done sha256 facts pss work u \<and> fact_count = risk_total facts
      \<and> representative_count = representative_total facts (present_risks facts)) (annotate_reconstruction_risk sha256 facts t)"
proof -
  have ok: "work_ok sha256 anchors 0 0 t" and len: "length facts = length (fst t)"
    using t(1) facts(1) by (auto simp: lanes_done_def dest: list_all2_lengthD)
  have "passes_done sha256 facts pss work u" if "work_ok sha256 anchors 0 0 u" "list_all2 annotation_extends (fst t) (fst u)" "places u = places t"
      "map wa_reconstruction_risks (fst u) = map risks_of facts" "\<forall>risk. risk_marked sha256 facts risk (fst u)" for u
    using lanes_done_keep [OF t(1) lanes that(1-3)] retrieval_marked_keep [OF t(2) that(2)] that(4,5)
    by (simp add: passes_done_def lanes_done_def)
  then show ?thesis
    using risk_pass_ok [OF ok len facts(2,3) ids] unfolding settles_def by (fastforce split: sum.splits)
qed

text \<open>The first blocks of the source lanes anchor their facets.\<close>

definition lane_heads :: "BlockFacts list \<Rightarrow> BlockId set" where
  "lane_heads facts = (\<lambda>lane. bf_block_id (facts ! hd (lane_order facts lane))) ` bf_lane ` set facts"

lemma lane_heads_lanes: "(\<lambda>ps. bf_block_id (facts ! hd ps)) ` set (map snd (sorted_lanes facts)) = lane_heads facts"
  by (simp add: lane_heads_def sorted_lanes_order image_image)

lemma lane_heads_bound: "finite (lane_heads facts)" "card (lane_heads facts) \<le> card (bf_lane ` set facts)"
  by (simp_all add: lane_heads_def card_image_le)

lemma lane_heads_ids: "lane_heads facts \<subseteq> bf_block_id ` set facts"
proof -
  have "bf_block_id (facts ! hd ps) \<in> bf_block_id ` set facts" if "ps \<in> set (map snd (sorted_lanes facts))" for ps
    using lanes_partition(1) [of facts] that by auto
  then show ?thesis by (auto simp flip: lane_heads_lanes)
qed

lemma coverage_passes_ok:
  assumes fresh: "fresh_work work" and facts: "length facts = length work" "length facts \<le> MAX_PRIMARY_BLOCKS_V1"
    and ordinals: "\<forall>p < length facts. bf_ordinal (facts ! p) = p" and ids: "\<forall>f \<in> set facts. length (bf_block_id f) = 32"
  defines "anchors \<equiv> lane_heads facts" and "pss \<equiv> map snd (sorted_lanes facts)"
  shows "settles (emission_stop sha256 anchors)
    (\<lambda>(t, fact_count, representative_count). work_ok sha256 anchors 0 0 t \<and> passes_done sha256 facts pss work t
      \<and> fact_count = risk_total facts \<and> representative_count = representative_total facts (present_risks facts))
    (coverage_passes sha256 facts (sorted_lanes facts) work)"
proof -
  have ids': "\<forall>bid \<in> anchors. length bid = 32" using ids lane_heads_ids [of facts] by (auto simp: anchors_def)
  have anchors: "\<forall>ps \<in> set pss. bf_block_id (facts ! hd ps) \<in> anchors"
    unfolding anchors_def pss_def lane_heads_lanes [symmetric] by blast
  have u32: "length facts \<le> 4294967295" using facts(2) by (simp add: MAX_PRIMARY_BLOCKS_V1_def)
  have lanes: "\<forall>ps \<in> set pss. ps \<noteq> [] \<and> (\<forall>p \<in> set ps. p < length facts)" "distinct (concat pss)"
    using lanes_partition(1,2) [of facts] by (simp_all add: pss_def)
  note lanes' = lanes(1) [unfolded facts(1)]
  obtain em where em: "OutputEmitter_new = Inr em" "emitter_ok sha256 anchors em" "oe_affinity_count em = 0" "oe_sentinel_count em = 0"
    using new_emitter by blast
  show ?thesis
    unfolding coverage_passes_def em(1) map_err_simps rbind_simps annotate_lane_boundaries_and_source_coverage_def pss_def [symmetric]
    by (rule settles_bind [OF signal_pass_settles [OF em(2-4) fresh ids']],
        rule settles_bind [OF lane_pass_settles [OF _ fresh facts(1) u32 anchors ids' lanes]], assumption,
        rule settles_bind [OF retrieval_pass_settles [OF _ facts(1,2) ids' lanes']], assumption,
        erule conjE, rule risk_pass_settles [OF _ _ facts(1,2) ordinals ids' lanes'])
qed

section \<open>Finalizing\<close>

lemma signal_counts_length: "length (signal_counts kinds) = card (set kinds)"
  by (metis btree_set_facts(1,3) distinct_card length_map signal_counts_def)

lemma signal_counts_total: "sum_list (map snd (signal_counts kinds)) = length kinds"
proof -
  have "sum_list (map snd (signal_counts kinds)) = sum (count_list kinds) (set (btree_set kinds))"
    unfolding signal_counts_def map_map comp_def snd_conv by (rule sum_list_distinct_conv_sum_set) simp
  then show ?thesis by (simp add: sum_count_set)
qed

lemma occurrence_total:
  assumes "acc + sum_list (map snd counts) \<le> 4294967295"
  shows "rfold (\<lambda>total (_, occurrence_count). ok_or (GenerationNeedsMore ArithmeticCapacity) (checked_add_u32 total occurrence_count)) acc counts =
    Inr (acc + sum_list (map snd counts))"
  using assms by (induction counts arbitrary: acc) (auto simp: checked_add_u32_def u32_try_from_def)

definition final_of :: "WorkAnnotation \<Rightarrow> CoverageBlockAnnotationV1" where
  "final_of a = \<lparr>cba_block_id = wa_block_id a,
     cba_failure = map_option (\<lambda>(ordinal, failure_count). \<lparr>ff_signals = wa_failure_counts a,
       ff_signal_occurrence_count = sum_list (map snd (wa_failure_counts a)),
       ff_failure_block_ordinal_in_lane = ordinal, ff_failure_block_count_in_lane = failure_count\<rparr>) (wa_failure_lane_position a),
     cba_onset_signals = wa_onset_counts a, cba_onset_boundaries = wa_onset_boundaries a,
     cba_reconstruction_risks = wa_reconstruction_risks a, cba_sentinels = map snd (wa_sentinels a), cba_affinities = map snd (wa_affinities a)\<rparr>"

lemma finalize_final:
  assumes "wa_failure_lane_position a = None \<Longrightarrow> wa_failure_counts a = []" and "sum_list (map snd (wa_failure_counts a)) \<le> 4294967295"
  shows "finalize_annotation a = Inr (final_of a)"
  using assms by (cases "wa_failure_lane_position a") (auto simp: finalize_annotation_def final_of_def occurrence_total)

text \<open>What the emitter invariant gives for a finalized annotation.\<close>

definition carries :: "(bytes \<Rightarrow> bytes) \<Rightarrow> CoverageSentinelKindV1 \<Rightarrow> CoverageFacetRoleV1 \<Rightarrow> BlockId option \<Rightarrow> CoverageBlockAnnotationV1 \<Rightarrow> bool" where
  "carries sha256 kind role anchor c \<longleftrightarrow> \<lparr>sn_kind = kind, sn_facet_id = facet_name sha256 role anchor\<rparr> \<in> set (cba_sentinels c)"

definition covers :: "(bytes \<Rightarrow> bytes) \<Rightarrow> CoverageFacetRoleV1 \<Rightarrow> CoverageBlockAnnotationV1 \<Rightarrow> bool" where
  "covers sha256 role c \<longleftrightarrow> \<lparr>affinity_facet = facet_name sha256 role None, affinity_micros = AFFINITY_SCALE_V1\<rparr> \<in> set (cba_affinities c)"

lemma final_carries: "annotation_ok em a \<Longrightarrow> has_sentinel kind (facet_name sha256 role anchor) a \<Longrightarrow> carries sha256 kind role anchor (final_of a)"
  unfolding carries_def has_sentinel_def annotation_ok_def final_of_def by (force dest: map_of_SomeD)

lemma final_covers: "annotation_ok em a \<Longrightarrow> has_affinity (facet_name sha256 role None) a \<Longrightarrow> covers sha256 role (final_of a)"
  unfolding covers_def has_affinity_def annotation_ok_def final_of_def by (force dest: map_of_SomeD)

definition emission_ok :: "FacetIdV1 set \<Rightarrow> CoverageBlockAnnotationV1 \<Rightarrow> bool" where
  "emission_ok fids c \<longleftrightarrow> sorted_wrt (<) (map affinity_facet (cba_affinities c))
     \<and> (\<forall>f \<in> set (cba_affinities c). affinity_micros f = AFFINITY_SCALE_V1 \<and> affinity_facet f \<in> fids)
     \<and> (\<forall>sn \<in> set (cba_sentinels c). sn_facet_id sn \<in> affinity_facet ` set (cba_affinities c))"

lemma final_emission:
  assumes "annotation_ok em a"
  shows "emission_ok (fst ` set (oe_facets em)) (final_of a)"
proof -
  have distinct: "distinct (map fst (wa_affinities a))" "distinct (map fst (wa_sentinels a))"
    using assms by (simp_all add: annotation_ok_def bt_ordered_distinct)
  have entry: "affinity_facet f = fid \<and> affinity_micros f = AFFINITY_SCALE_V1 \<and> fid \<in> fst ` set (oe_facets em)" if "(fid, f) \<in> set (wa_affinities a)" for fid f
  proof -
    have "f = \<lparr>affinity_facet = fid, affinity_micros = AFFINITY_SCALE_V1\<rparr> \<and> map_of (oe_facets em) fid \<noteq> None"
      using assms map_of_is_SomeI [OF distinct(1) that] unfolding annotation_ok_def by blast
    then show ?thesis by (simp add: map_of_eq_None_iff)
  qed
  have sentinel: "sn_facet_id sn = fid \<and> fid \<in> fst ` set (wa_affinities a)" if "((kind, fid), sn) \<in> set (wa_sentinels a)" for kind fid sn
  proof -
    have "sn = \<lparr>sn_kind = kind, sn_facet_id = fid\<rparr> \<and> map_of (wa_affinities a) fid \<noteq> None"
      using assms map_of_is_SomeI [OF distinct(2) that] unfolding annotation_ok_def by blast
    then show ?thesis by (simp add: map_of_eq_None_iff)
  qed
  have keys: "map affinity_facet (map snd (wa_affinities a)) = map fst (wa_affinities a)" by (auto dest: entry)
  have fields: "cba_affinities (final_of a) = map snd (wa_affinities a)" "cba_sentinels (final_of a) = map snd (wa_sentinels a)"
    by (simp_all add: final_of_def)
  show ?thesis
    unfolding emission_ok_def fields
  proof (intro conjI ballI)
    show "sorted_wrt (<) (map affinity_facet (map snd (wa_affinities a)))"
      unfolding keys using assms by (simp add: annotation_ok_def bt_ordered_def)
    fix f
    assume "f \<in> set (map snd (wa_affinities a))"
    then obtain fid where "(fid, f) \<in> set (wa_affinities a)" by auto
    then show "affinity_micros f = AFFINITY_SCALE_V1" "affinity_facet f \<in> fst ` set (oe_facets em)" using entry by blast+
  next
    fix sn
    assume "sn \<in> set (map snd (wa_sentinels a))"
    then obtain kind fid where "((kind, fid), sn) \<in> set (wa_sentinels a)" by auto
    from sentinel [OF this] have "sn_facet_id sn \<in> set (map affinity_facet (map snd (wa_affinities a)))" by (simp only: keys set_map)
    then show "sn_facet_id sn \<in> affinity_facet ` set (map snd (wa_affinities a))" by (simp only: set_map)
  qed
qed

section \<open>The reference\<close>

abbreviation facts_in :: "BlockIndex \<Rightarrow> BlockFacts list" where
  "facts_in i \<equiv> map (facts_of i) (bi_blocks i)"

definition failures_at :: "BlockIndex \<Rightarrow> nat \<Rightarrow> FailureSignalKindV1 list" where
  "failures_at i p = failures_in (block_events i (bi_blocks i ! p))"

definition onsets_at :: "BlockIndex \<Rightarrow> nat \<Rightarrow> OnsetSignalKindV1 list" where
  "onsets_at i p = onsets_in (block_events i (bi_blocks i ! p))"

text \<open>The failure fact of a block: its signals, and its place among the failing blocks of its lane.\<close>

definition failure_fact :: "BlockIndex \<Rightarrow> nat \<Rightarrow> FailureBlockFactV1 option" where
  "failure_fact i p =
     (let failing = filter (\<lambda>q. failures_at i q \<noteq> []) (lane_order (facts_in i) (eb_lane (bi_blocks i ! p))) in
      if failures_at i p = [] then None
      else Some \<lparr>ff_signals = signal_counts (failures_at i p), ff_signal_occurrence_count = length (failures_at i p),
        ff_failure_block_ordinal_in_lane = fst (place_of failing p), ff_failure_block_count_in_lane = length failing\<rparr>)"

definition describes :: "(bytes \<Rightarrow> bytes) \<Rightarrow> BlockIndex \<Rightarrow> nat \<Rightarrow> CoverageBlockAnnotationV1 \<Rightarrow> bool" where
  "describes sha256 i p c \<longleftrightarrow> cba_block_id c = eb_id (bi_blocks i ! p) \<and> cba_failure c = failure_fact i p
     \<and> cba_onset_signals c = signal_counts (onsets_at i p) \<and> cba_reconstruction_risks c = risks_of (facts_in i ! p)
     \<and> (\<forall>kind \<in> set (failures_at i p). covers sha256 (FailureFacet kind) c)
     \<and> (\<forall>kind \<in> set (onsets_at i p). covers sha256 (ExplicitOnsetFacet kind) c)"

text \<open>The first block of a lane that satisfies \<open>P\<close>, and the one before it, carry the boundary.\<close>

definition bounded_by ::
  "OnsetBoundaryRoleV1 \<times> OnsetBoundaryRoleV1 \<Rightarrow> (nat \<Rightarrow> bool) \<Rightarrow> BlockIndex \<Rightarrow> nat list \<Rightarrow> CoverageBlockAnnotationV1 list \<Rightarrow> bool" where
  "bounded_by roles P i ps cs \<longleftrightarrow> (case filter P ps of [] \<Rightarrow> True
   | p # _ \<Rightarrow> (fst roles, eb_id (bi_blocks i ! p)) \<in> set (cba_onset_boundaries (cs ! p))
      \<and> (\<forall>k. Suc k < length ps \<longrightarrow> ps ! Suc k = p \<longrightarrow> (snd roles, eb_id (bi_blocks i ! p)) \<in> set (cba_onset_boundaries (cs ! (ps ! k)))))"

definition lane_covered :: "(bytes \<Rightarrow> bytes) \<Rightarrow> BlockIndex \<Rightarrow> LaneKey \<Rightarrow> CoverageBlockAnnotationV1 list \<Rightarrow> bool" where
  "lane_covered sha256 i lane cs \<longleftrightarrow>
     (let ps = lane_order (facts_in i) lane; anchor = Some (eb_id (bi_blocks i ! hd ps)) in
      carries sha256 (SourceSentinel SourceStreamHead) (SourceFacet SourceStreamHead) anchor (cs ! hd ps)
      \<and> carries sha256 (SourceSentinel SourceStreamTail) (SourceFacet SourceStreamTail) anchor (cs ! last ps)
      \<and> bounded_by (FirstFailureInLane, LastAvailableBeforeFirstFailure) (\<lambda>p. failures_at i p \<noteq> []) i ps cs
      \<and> bounded_by (FirstExplicitOnsetInLane, LastAvailableBeforeFirstExplicitOnset) (\<lambda>p. onsets_at i p \<noteq> []) i ps cs)"

definition retrieval_covered :: "(bytes \<Rightarrow> bytes) \<Rightarrow> CoverageBlockAnnotationV1 list \<Rightarrow> bool" where
  "retrieval_covered sha256 cs \<longleftrightarrow> cs = []
   \<or> carries sha256 (SourceSentinel RetrievalHead) (SourceFacet RetrievalHead) None (hd cs)
     \<and> carries sha256 (SourceSentinel RetrievalTail) (SourceFacet RetrievalTail) None (last cs)
     \<and> (let strata = min (length cs) MAX_TIME_COVERAGE_STRATA_V1 in \<forall>index < strata.
          carries sha256 (StratumSentinel index strata) (AcquisitionOrderStratumFacet index strata) None (cs ! (index * length cs div strata)))"

definition risks_covered :: "(bytes \<Rightarrow> bytes) \<Rightarrow> BlockIndex \<Rightarrow> CoverageBlockAnnotationV1 list \<Rightarrow> bool" where
  "risks_covered sha256 i cs \<longleftrightarrow> (\<forall>risk. let ps = risk_positions (facts_in i) risk in \<forall>offset \<in> set (representatives (length ps)).
     carries sha256 (RiskSentinel risk) (ReconstructionRiskFacet risk) None (cs ! (ps ! offset)))"

definition facets_ok :: "(bytes \<Rightarrow> bytes) \<Rightarrow> BlockId set \<Rightarrow> CoverageFacetV1 list \<Rightarrow> bool" where
  "facets_ok sha256 anchors fs \<longleftrightarrow> sorted_wrt (<) (map (\<lambda>f. facet_id (cf_facet f)) fs)
     \<and> (\<forall>f \<in> set fs. \<exists>anchor. anchor_ok anchors (cf_role f) anchor \<and> cf_facet f = facet_of sha256 (cf_role f) anchor)"

definition accounting_of :: "BlockIndex \<Rightarrow> CoverageFacetV1 list \<Rightarrow> CoverageBlockAnnotationV1 list \<Rightarrow> CoverageAccountingV1" where
  "accounting_of i fs cs = \<lparr>acc_scanned_bytes = blocks_bytes i (bi_blocks i), acc_scanned_analysis_tokens = blocks_tokens i (bi_blocks i),
     acc_failure_signal_observations = failures_total i (bi_blocks i), acc_onset_signal_observations = onsets_total i (bi_blocks i),
     acc_reconstruction_risk_fact_count = risk_total (facts_in i),
     acc_reconstruction_risk_representative_count = representative_total (facts_in i) (present_risks (facts_in i)),
     acc_source_lane_count = card (eb_lane ` set (bi_blocks i)), acc_emitted_facet_count = length fs,
     acc_emitted_affinity_count = sum_list (map (\<lambda>c. length (cba_affinities c)) cs),
     acc_emitted_sentinel_count = sum_list (map (\<lambda>c. length (cba_sentinels c)) cs)\<rparr>"

definition accounting_within :: "CoverageAccountingV1 \<Rightarrow> bool" where
  "accounting_within acc \<longleftrightarrow>
     within_caps (acc_scanned_bytes acc) (acc_scanned_analysis_tokens acc) (acc_failure_signal_observations acc + acc_onset_signal_observations acc)
     \<and> acc_source_lane_count acc \<le> MAX_COVERAGE_SOURCE_LANES_V1 \<and> acc_emitted_facet_count acc \<le> MAX_COVERAGE_OUTPUT_FACETS_V1
     \<and> acc_emitted_affinity_count acc \<le> MAX_COVERAGE_OUTPUT_AFFINITIES_V1 \<and> acc_emitted_sentinel_count acc \<le> MAX_COVERAGE_OUTPUT_SENTINELS_V1"

text \<open>The universe: one annotation per block, listed by block identity, and everything it must carry.\<close>

definition universe_ok :: "(bytes \<Rightarrow> bytes) \<Rightarrow> BlockIndex \<Rightarrow> CoverageCandidateUniverseV1 \<Rightarrow> bool" where
  "universe_ok sha256 i u \<longleftrightarrow> (\<exists>cs. cu_annotations u = sort_key cba_block_id cs \<and> length cs = length (bi_blocks i)
     \<and> (\<forall>p < length cs. describes sha256 i p (cs ! p) \<and> emission_ok ((\<lambda>f. facet_id (cf_facet f)) ` set (cu_facets u)) (cs ! p))
     \<and> (\<forall>lane \<in> eb_lane ` set (bi_blocks i). lane_covered sha256 i lane cs)
     \<and> retrieval_covered sha256 cs \<and> risks_covered sha256 i cs
     \<and> facets_ok sha256 (lane_heads (facts_in i)) (cu_facets u)
     \<and> cu_accounting u = accounting_of i (cu_facets u) cs \<and> accounting_within (cu_accounting u)
     \<and> cu_retrieval_id u = el_retrieval_id (bi_ledger i))"

text \<open>
  The caps a decision may name.  A facet needs a role: 58 of them have no anchor, six belong to each
  source lane.  The affinities are those of the signals, at most six per lane, ten of the retrieval
  and thirty of the risks.
\<close>

definition affinity_demand :: "BlockIndex \<Rightarrow> nat" where
  "affinity_demand i = sum_list (map (\<lambda>b. card (set (failures_in (block_events i b))) + card (set (onsets_in (block_events i b)))) (bi_blocks i))
     + 6 * card (eb_lane ` set (bi_blocks i)) + 40"

definition coverage_cap :: "BlockIndex \<Rightarrow> CandidateNeedsMoreReasonV1 \<Rightarrow> bool" where
  "coverage_cap i reason \<longleftrightarrow> reason = PrimaryBlockCountCap \<and> length (bi_blocks i) > MAX_PRIMARY_BLOCKS_V1
     \<or> over_cap reason (blocks_bytes i (bi_blocks i)) (blocks_tokens i (bi_blocks i)) (signals_total i (bi_blocks i))
     \<or> reason = CoverageSourceLaneCap \<and> card (eb_lane ` set (bi_blocks i)) > MAX_COVERAGE_SOURCE_LANES_V1
     \<or> reason = CoverageFacetOutputCap \<and> 58 + 6 * card (eb_lane ` set (bi_blocks i)) > MAX_COVERAGE_OUTPUT_FACETS_V1
     \<or> reason = CoverageAffinityOutputCap \<and> affinity_demand i > MAX_COVERAGE_OUTPUT_AFFINITIES_V1"

section \<open>The universe of the passes\<close>

lemma work_of_fields: "wa_block_id (work_of i b) = eb_id b" "wa_failure_counts (work_of i b) = signal_counts (failures_in (block_events i b))"
  "wa_onset_counts (work_of i b) = signal_counts (onsets_in (block_events i b))" "fresh_work (map (work_of i) bs)"
  by (auto simp: work_of_def WorkAnnotation_new_def fresh_work_def)

lemma facts_in_nth: "p < length (bi_blocks i) \<Longrightarrow> facts_in i ! p = facts_of i (bi_blocks i ! p)"
  by simp

lemma facts_of_fields [simp]: "bf_block_id (facts_of i b) = eb_id b" "bf_lane (facts_of i b) = eb_lane b" "bf_ordinal (facts_of i b) = eb_ordinal b"
  by (simp_all add: facts_of_def)

lemma member_le_total: "x \<in> set xs \<Longrightarrow> (f x :: nat) \<le> sum_list (map f xs)"
  using member_le_sum_list [of "f x" "map f xs"] by simp

text \<open>The state after the passes, for the blocks of an index.\<close>

definition passed :: "(bytes \<Rightarrow> bytes) \<Rightarrow> BlockIndex \<Rightarrow> lane_work \<Rightarrow> bool" where
  "passed sha256 i t \<longleftrightarrow> work_ok sha256 (lane_heads (facts_in i)) 0 0 t
     \<and> passes_done sha256 (facts_in i) (map snd (sorted_lanes (facts_in i))) (map (work_of i) (bi_blocks i)) t"

lemma passed_length: "passed sha256 i t \<Longrightarrow> length (fst t) = length (bi_blocks i)"
  by (auto simp: passed_def passes_done_def dest: list_all2_lengthD)

lemma passed_counts:
  assumes "passed sha256 i t" and "p < length (bi_blocks i)"
  shows "wa_block_id (fst t ! p) = eb_id (bi_blocks i ! p)" and "wa_failure_counts (fst t ! p) = signal_counts (failures_at i p)"
    and "wa_onset_counts (fst t ! p) = signal_counts (onsets_at i p)" and "wa_reconstruction_risks (fst t ! p) = risks_of (facts_in i ! p)"
proof -
  have "annotation_extends (work_of i (bi_blocks i ! p)) (fst t ! p)"
    using assms list_all2_nthD [of annotation_extends "map (work_of i) (bi_blocks i)" "fst t" p] by (simp add: passed_def passes_done_def)
  then show "wa_block_id (fst t ! p) = eb_id (bi_blocks i ! p)" and "wa_failure_counts (fst t ! p) = signal_counts (failures_at i p)"
    and "wa_onset_counts (fst t ! p) = signal_counts (onsets_at i p)"
    by (simp_all add: annotation_extends_def work_of_fields failures_at_def onsets_at_def)
  have "map wa_reconstruction_risks (fst t) = map risks_of (facts_in i)" using assms(1) by (simp add: passed_def passes_done_def)
  from arg_cong [OF this, of "\<lambda>l. l ! p"] show "wa_reconstruction_risks (fst t ! p) = risks_of (facts_in i ! p)"
    using assms(2) passed_length [OF assms(1)] by simp
qed

lemma passed_place:
  assumes t: "passed sha256 i t" and p: "p < length (bi_blocks i)"
  shows "wa_failure_lane_position (fst t ! p) = (if failures_at i p = [] then None
    else Some (place_of (filter (\<lambda>q. failures_at i q \<noteq> []) (lane_order (facts_in i) (eb_lane (bi_blocks i ! p)))) p))"
proof -
  let ?ps = "lane_order (facts_in i) (eb_lane (bi_blocks i ! p))"
  have ps: "?ps \<in> set (map snd (sorted_lanes (facts_in i)))" "p \<in> set ?ps" using lanes_partition(3) [of p "facts_in i"] p by simp_all
  have "lane_placed (\<lambda>p. wa_failure_counts (map (work_of i) (bi_blocks i) ! p) \<noteq> []) ?ps t"
    using t ps(1) unfolding passed_def passes_done_def by blast
  moreover have "wa_failure_counts (map (work_of i) (bi_blocks i) ! q) \<noteq> [] \<longleftrightarrow> failures_at i q \<noteq> []" if "q \<in> set ?ps" for q
    using that by (simp add: lane_order_set work_of_fields signal_counts_empty failures_at_def)
  then have "lane_placed (\<lambda>p. wa_failure_counts (map (work_of i) (bi_blocks i) ! p) \<noteq> []) ?ps t = lane_placed (\<lambda>q. failures_at i q \<noteq> []) ?ps t"
    by (intro lane_placed_cong) simp_all
  ultimately have "lane_placed (\<lambda>q. failures_at i q \<noteq> []) ?ps t" by simp
  then show ?thesis using ps(2) unfolding lane_placed_def by auto
qed

lemma passed_finalize:
  assumes t: "passed sha256 i t" and few: "failures_total i (bi_blocks i) \<le> 4294967295"
  shows "rmap finalize_annotation (fst t) = Inr (map final_of (fst t))"
proof (rule rmap_map)
  fix a
  assume "a \<in> set (fst t)"
  then obtain p where p: "p < length (bi_blocks i)" "a = fst t ! p" using passed_length [OF t] by (auto simp: in_set_conv_nth)
  have "length (failures_at i p) \<le> failures_total i (bi_blocks i)"
    using member_le_total [of "bi_blocks i ! p" "bi_blocks i" "\<lambda>b. length (failures_in (block_events i b))"] p(1)
    by (simp add: failures_at_def failures_total_def)
  then show "finalize_annotation a = Inr (final_of a)"
    using passed_place [OF t p(1)] passed_counts(2) [OF t p(1)] few p(2)
    by (intro finalize_final) (simp_all add: signal_counts_total split: if_splits)
qed

lemma passed_annotation:
  assumes "passed sha256 i t" and "p < length (bi_blocks i)"
  shows "annotation_ok (snd t) (fst t ! p)" and "signals_marked sha256 (fst t ! p)"
  using assms passed_length [OF assms(1)] by (auto simp: passed_def passes_done_def work_ok_def list_all_length split: prod.splits)

lemma passed_describes:
  assumes t: "passed sha256 i t" and p: "p < length (bi_blocks i)"
  shows "describes sha256 i p (final_of (fst t ! p))"
proof -
  note counts = passed_counts [OF t p] and ok = passed_annotation [OF t p]
  have "FailureFacet kind \<in> set (signal_roles (fst t ! p))" if "kind \<in> set (failures_at i p)" for kind
    using that by (force simp: signal_roles_def counts signal_counts_def)
  moreover have "ExplicitOnsetFacet kind \<in> set (signal_roles (fst t ! p))" if "kind \<in> set (onsets_at i p)" for kind
    using that by (force simp: signal_roles_def counts signal_counts_def)
  ultimately have "\<forall>kind \<in> set (failures_at i p). covers sha256 (FailureFacet kind) (final_of (fst t ! p))"
    "\<forall>kind \<in> set (onsets_at i p). covers sha256 (ExplicitOnsetFacet kind) (final_of (fst t ! p))"
    using ok final_covers by (auto simp: signals_marked_def)
  moreover have "cba_failure (final_of (fst t ! p)) = failure_fact i p"
    by (simp add: final_of_def failure_fact_def passed_place [OF t p] counts signal_counts_total place_of_def Let_def)
  ultimately show ?thesis by (simp add: describes_def final_of_def counts)
qed

lemma boundary_bounded:
  assumes marked: "boundary_marked roles Q (facts_in i) ps t" and ps: "\<forall>p \<in> set ps. p < length (bi_blocks i)"
    and len: "length (fst t) = length (bi_blocks i)" and P: "\<And>p. p < length (bi_blocks i) \<Longrightarrow> Q (fst t ! p) = P p"
  shows "bounded_by roles P i ps (map final_of (fst t))"
proof -
  have same: "filter (\<lambda>p. Q (fst t ! p)) ps = filter P ps" using ps P by (intro filter_cong) auto
  show ?thesis
  proof (cases "filter P ps")
    case (Cons p rest)
    have "p \<in> set (filter P ps)" unfolding Cons by simp
    then have p: "p < length (bi_blocks i)" using ps by simp
    have boundaries: "cba_onset_boundaries (map final_of (fst t) ! q) = wa_onset_boundaries (fst t ! q)" if "q < length (bi_blocks i)" for q
      using that len by (simp add: final_of_def)
    have "ps ! k < length (bi_blocks i)" if "Suc k < length ps" for k using ps that by simp
    with marked p show ?thesis
      unfolding boundary_marked_def bounded_by_def same Cons by (simp add: boundaries)
  qed (simp add: bounded_by_def)
qed

lemma passed_lane:
  assumes t: "passed sha256 i t" and lane: "lane \<in> eb_lane ` set (bi_blocks i)"
  shows "lane_covered sha256 i lane (map final_of (fst t))"
proof -
  let ?ps = "lane_order (facts_in i) lane"
  have len: "length (fst t) = length (bi_blocks i)" using passed_length [OF t] .
  obtain q where q: "q < length (bi_blocks i)" "lane = eb_lane (bi_blocks i ! q)" using lane by (auto simp: in_set_conv_nth)
  have ps: "?ps \<in> set (map snd (sorted_lanes (facts_in i)))" "q \<in> set ?ps" using lanes_partition(3) [of q "facts_in i"] q by simp_all
  have "?ps \<noteq> []" using ps(2) by (metis empty_iff empty_set)
  moreover have bounds: "\<forall>p \<in> set ?ps. p < length (bi_blocks i)" by (simp add: lane_order_set)
  ultimately have ends: "hd ?ps < length (bi_blocks i)" "last ?ps < length (bi_blocks i)" by simp_all
  have marked: "lane_marked sha256 (facts_in i) ?ps t" using t ps(1) unfolding passed_def passes_done_def by blast
  have P: "wa_failure_counts (fst t ! p) \<noteq> [] \<longleftrightarrow> failures_at i p \<noteq> []" "wa_onset_counts (fst t ! p) \<noteq> [] \<longleftrightarrow> onsets_at i p \<noteq> []"
    if "p < length (bi_blocks i)" for p using passed_counts [OF t that] by (simp_all add: signal_counts_empty)
  have "bounded_by (FirstFailureInLane, LastAvailableBeforeFirstFailure) (\<lambda>p. failures_at i p \<noteq> []) i ?ps (map final_of (fst t))"
    "bounded_by (FirstExplicitOnsetInLane, LastAvailableBeforeFirstExplicitOnset) (\<lambda>p. onsets_at i p \<noteq> []) i ?ps (map final_of (fst t))"
    using marked P by (auto simp: lane_marked_def intro!: boundary_bounded [OF _ bounds len])
  moreover have "carries sha256 (SourceSentinel kind) (SourceFacet kind) anchor (map final_of (fst t) ! p)"
    if "source_marked sha256 kind anchor (fst t ! p)" "p < length (bi_blocks i)" for kind anchor p
    using that len final_carries [OF passed_annotation(1) [OF t that(2)]] by (simp add: source_marked_def)
  ultimately show ?thesis
    using marked ends by (simp add: lane_covered_def lane_marked_def Let_def)
qed

lemma passed_retrieval:
  assumes t: "passed sha256 i t"
  shows "retrieval_covered sha256 (map final_of (fst t))"
proof (cases "fst t = []")
  case False
  let ?n = "length (fst t)"
  have len: "?n = length (bi_blocks i)" using passed_length [OF t] .
  have carry: "carries sha256 kind role None (final_of (fst t ! p))" if "has_sentinel kind (facet_name sha256 role None) (fst t ! p)" "p < ?n" for kind role p
    using that len final_carries [OF passed_annotation(1) [OF t]] by simp
  have marked: "retrieval_marked sha256 (fst t)" using t by (simp add: passed_def passes_done_def)
  have "carries sha256 (StratumSentinel index (min ?n MAX_TIME_COVERAGE_STRATA_V1)) (AcquisitionOrderStratumFacet index (min ?n MAX_TIME_COVERAGE_STRATA_V1))
      None (map final_of (fst t) ! stratum_position ?n index)" if "index < min ?n MAX_TIME_COVERAGE_STRATA_V1" for index
    using marked False that stratum_position_bound [OF that] by (auto simp: retrieval_marked_def stratum_marked_def intro: carry)
  moreover have "carries sha256 (SourceSentinel RetrievalHead) (SourceFacet RetrievalHead) None (hd (map final_of (fst t)))"
    "carries sha256 (SourceSentinel RetrievalTail) (SourceFacet RetrievalTail) None (last (map final_of (fst t)))"
    using marked False by (auto simp: retrieval_marked_def source_marked_def hd_map last_map hd_conv_nth last_conv_nth intro!: carry)
  ultimately show ?thesis by (simp add: retrieval_covered_def Let_def)
qed (simp add: retrieval_covered_def)

lemma passed_risks:
  assumes t: "passed sha256 i t"
  shows "risks_covered sha256 i (map final_of (fst t))"
proof -
  have "carries sha256 (RiskSentinel risk) (ReconstructionRiskFacet risk) None (map final_of (fst t) ! (risk_positions (facts_in i) risk ! offset))"
    if offset: "offset \<in> set (representatives (length (risk_positions (facts_in i) risk)))" for risk offset
  proof -
    have "risk_positions (facts_in i) risk ! offset \<in> set (risk_positions (facts_in i) risk)" using offset representatives_bounds(1) by simp
    then have p: "risk_positions (facts_in i) risk ! offset < length (bi_blocks i)" by (simp add: risk_positions_def)
    have "risk_marked sha256 (facts_in i) risk (fst t)" using t by (simp add: passed_def passes_done_def)
    then show ?thesis
      using offset p passed_length [OF t] final_carries [OF passed_annotation(1) [OF t p]] by (simp add: risk_marked_def)
  qed
  then show ?thesis by (simp add: risks_covered_def Let_def)
qed

lemma emitter_facets:
  assumes "emitter_ok sha256 anchors em"
  shows "facets_ok sha256 anchors (map snd (oe_facets em))"
    and "(\<lambda>f. facet_id (cf_facet f)) ` set (map snd (oe_facets em)) = fst ` set (oe_facets em)"
proof -
  have ordered: "bt_ordered (oe_facets em)" using assms by (simp add: emitter_ok_def)
  have entry: "\<exists>anchor. anchor_ok anchors (cf_role f) anchor \<and> fid = facet_name sha256 (cf_role f) anchor \<and> cf_facet f = facet_of sha256 (cf_role f) anchor"
    if "(fid, f) \<in> set (oe_facets em)" for fid f
    using assms map_of_is_SomeI [OF bt_ordered_distinct [OF ordered] that] unfolding emitter_ok_def by blast
  then have id: "facet_id (cf_facet f) = fid" if "(fid, f) \<in> set (oe_facets em)" for fid f
    using that by (metis facet_of_def ProductionFacetV1.select_convs(1))
  have keys: "map (\<lambda>f. facet_id (cf_facet f)) (map snd (oe_facets em)) = map fst (oe_facets em)" by (auto dest: id)
  then show "(\<lambda>f. facet_id (cf_facet f)) ` set (map snd (oe_facets em)) = fst ` set (oe_facets em)" by (metis list.set_map)
  show "facets_ok sha256 anchors (map snd (oe_facets em))"
    unfolding facets_ok_def keys using ordered entry by (force simp: bt_ordered_def)
qed

lemma sum_list_sort_key: "sum_list (map f (sort_key g xs)) = sum_list (map f xs)" for f :: "'a \<Rightarrow> nat"
  by (metis mset_map mset_sort sum_mset_sum_list)

lemma lane_count: "length (sorted_lanes (facts_in i)) = card (eb_lane ` set (bi_blocks i))"
proof -
  have "length (sorted_lanes (facts_in i)) = card (set (btree_set (map bf_lane (facts_in i))))"
    by (simp add: sorted_lanes_order distinct_card del: btree_set_facts(1))
  then show ?thesis by (simp add: image_image)
qed

lemma passed_universe:
  assumes t: "passed sha256 i t" and within: "within_caps (blocks_bytes i (bi_blocks i)) (blocks_tokens i (bi_blocks i)) (signals_total i (bi_blocks i))"
    and lanes: "card (eb_lane ` set (bi_blocks i)) \<le> MAX_COVERAGE_SOURCE_LANES_V1"
  shows "universe_ok sha256 i \<lparr>cu_retrieval_id = el_retrieval_id (bi_ledger i), cu_facets = map snd (oe_facets (snd t)),
    cu_annotations = sort_key cba_block_id (map final_of (fst t)),
    cu_accounting = accounting_of i (map snd (oe_facets (snd t))) (map final_of (fst t))\<rparr>"
proof -
  have em: "emitter_ok sha256 (lane_heads (facts_in i)) (snd t)"
    and counts: "oe_affinity_count (snd t) = sum_list (map (\<lambda>a. length (wa_affinities a)) (fst t))"
      "oe_sentinel_count (snd t) = sum_list (map (\<lambda>a. length (wa_sentinels a)) (fst t))"
    using t by (auto simp: passed_def work_ok_def split: prod.splits)
  note facets = emitter_facets [OF em] and len = passed_length [OF t]
  have each: "describes sha256 i p (map final_of (fst t) ! p) \<and> emission_ok (fst ` set (oe_facets (snd t))) (map final_of (fst t) ! p)"
    if "p < length (bi_blocks i)" for p
    using that len passed_describes [OF t that] final_emission [OF passed_annotation(1) [OF t that]] by simp
  have "accounting_within (accounting_of i (map snd (oe_facets (snd t))) (map final_of (fst t)))"
    using within lanes em counts by (simp add: accounting_within_def accounting_of_def emitter_ok_def final_of_def comp_def)
  then show ?thesis
    unfolding universe_ok_def
    using facets each len passed_lane [OF t] passed_retrieval [OF t] passed_risks [OF t]
    by (intro exI [of _ "map final_of (fst t)"]) simp
qed

section \<open>The decision\<close>

definition coverage_decision :: "(bytes \<Rightarrow> bytes) \<Rightarrow> BlockIndex \<Rightarrow> (CandidateBuildErrorV1, CoverageGenerationDecisionV1) result \<Rightarrow> bool" where
  "coverage_decision sha256 i r \<longleftrightarrow> (case r of
     Inl e \<Rightarrow> e = FacetContractViolation \<and> facet_collision sha256 (lane_heads (facts_in i))
   | Inr (CoverageNeedsMore reason) \<Rightarrow> coverage_cap i reason
   | Inr (CoverageReady u) \<Rightarrow> universe_ok sha256 i u)"

lemma passes_settle:
  assumes i: "block_index_ok i" and ids: "\<forall>b \<in> set (bi_blocks i). length (eb_id b) = 32" and n: "length (bi_blocks i) \<le> MAX_PRIMARY_BLOCKS_V1"
  shows "settles (emission_stop sha256 (lane_heads (facts_in i)))
    (\<lambda>(t, fact_count, representative_count). passed sha256 i t \<and> fact_count = risk_total (facts_in i)
      \<and> representative_count = representative_total (facts_in i) (present_risks (facts_in i)))
    (coverage_passes sha256 (facts_in i) (sorted_lanes (facts_in i)) (map (work_of i) (bi_blocks i)))"
proof -
  have "map eb_ordinal (bi_blocks i) = [0..<length (bi_blocks i)]" using i by (simp add: block_index_ok_def)
  then have "eb_ordinal (bi_blocks i ! p) = p" if "p < length (bi_blocks i)" for p
    using that by (metis add_0 diff_zero length_map nth_map nth_upt)
  then have ordinals: "\<forall>p < length (facts_in i). bf_ordinal (facts_in i ! p) = p" by simp
  have "settles (emission_stop sha256 (lane_heads (facts_in i))) (\<lambda>(t, fact_count, representative_count).
      work_ok sha256 (lane_heads (facts_in i)) 0 0 t
      \<and> passes_done sha256 (facts_in i) (map snd (sorted_lanes (facts_in i))) (map (work_of i) (bi_blocks i)) t
      \<and> fact_count = risk_total (facts_in i) \<and> representative_count = representative_total (facts_in i) (present_risks (facts_in i)))
    (coverage_passes sha256 (facts_in i) (sorted_lanes (facts_in i)) (map (work_of i) (bi_blocks i)))"
    using coverage_passes_ok [OF work_of_fields(4) _ _ ordinals, of i "bi_blocks i" sha256] ids n by simp
  then show ?thesis by (rule settles_weaken) (auto simp: passed_def)
qed

text \<open>What is left of the lane after a scan within the caps.\<close>

lemma build_after_scan:
  assumes n: "length (bi_blocks i) \<le> MAX_PRIMARY_BLOCKS_V1"
    and scan: "rfold (coverage_block_step i) (coverage_of i []) (bi_blocks i) = Inr (coverage_of i (bi_blocks i))"
  shows "build_failure_coverage_candidates_v1 sha256 i =
    (if length (sorted_lanes (facts_in i)) > MAX_COVERAGE_SOURCE_LANES_V1 then Inl (GenerationNeedsMore CoverageSourceLaneCap)
     else rbind (coverage_passes sha256 (facts_in i) (sorted_lanes (facts_in i)) (map (work_of i) (bi_blocks i)))
       (\<lambda>((work, em), fact_count, representative_count).
       rbind (rmap finalize_annotation work) (\<lambda>annotations.
       Inr \<lparr>cu_retrieval_id = el_retrieval_id (bi_ledger i), cu_facets = map snd (oe_facets em),
         cu_annotations = sort_key cba_block_id annotations,
         cu_accounting = \<lparr>acc_scanned_bytes = blocks_bytes i (bi_blocks i), acc_scanned_analysis_tokens = blocks_tokens i (bi_blocks i),
           acc_failure_signal_observations = failures_total i (bi_blocks i), acc_onset_signal_observations = onsets_total i (bi_blocks i),
           acc_reconstruction_risk_fact_count = fact_count, acc_reconstruction_risk_representative_count = representative_count,
           acc_source_lane_count = length (sorted_lanes (facts_in i)), acc_emitted_facet_count = length (oe_facets em),
           acc_emitted_affinity_count = oe_affinity_count em, acc_emitted_sentinel_count = oe_sentinel_count em\<rparr>\<rparr>)))"
proof -
  have start: "coverage_of i [] = \<lparr>cv_facts = [], cv_work = [], cv_scanned_bytes = 0, cv_scanned_analysis_tokens = 0,
      cv_failure_signal_observations = 0, cv_onset_signal_observations = 0\<rparr>"
    by (simp add: coverage_of_def blocks_bytes_def blocks_tokens_def failures_total_def onsets_total_def)
  have fields: "cv_facts (coverage_of i bs) = map (facts_of i) bs" "cv_work (coverage_of i bs) = map (work_of i) bs"
    "cv_scanned_bytes (coverage_of i bs) = blocks_bytes i bs" "cv_scanned_analysis_tokens (coverage_of i bs) = blocks_tokens i bs"
    "cv_failure_signal_observations (coverage_of i bs) = failures_total i bs"
    "cv_onset_signal_observations (coverage_of i bs) = onsets_total i bs" for bs by (simp_all add: coverage_of_def)
  show ?thesis
    unfolding build_failure_coverage_candidates_v1_def scan [unfolded start] rbind_simps Let_def fields using n by simp
qed

lemma build_settled:
  assumes n: "length (bi_blocks i) \<le> MAX_PRIMARY_BLOCKS_V1"
    and scan: "rfold (coverage_block_step i) (coverage_of i []) (bi_blocks i) = Inr (coverage_of i (bi_blocks i))"
    and lanes: "card (eb_lane ` set (bi_blocks i)) \<le> MAX_COVERAGE_SOURCE_LANES_V1"
    and few: "failures_total i (bi_blocks i) \<le> 4294967295" and t: "passed sha256 i (work, em)"
    and passes: "coverage_passes sha256 (facts_in i) (sorted_lanes (facts_in i)) (map (work_of i) (bi_blocks i)) =
      Inr ((work, em), risk_total (facts_in i), representative_total (facts_in i) (present_risks (facts_in i)))"
  shows "build_failure_coverage_candidates_v1 sha256 i = Inr \<lparr>cu_retrieval_id = el_retrieval_id (bi_ledger i),
    cu_facets = map snd (oe_facets em), cu_annotations = sort_key cba_block_id (map final_of work),
    cu_accounting = accounting_of i (map snd (oe_facets em)) (map final_of work)\<rparr>"
proof -
  have "oe_affinity_count em = sum_list (map (\<lambda>a. length (wa_affinities a)) work)"
    "oe_sentinel_count em = sum_list (map (\<lambda>a. length (wa_sentinels a)) work)" using t by (simp_all add: passed_def work_ok_def)
  then show ?thesis
    using lanes passed_finalize [OF t few]
    by (simp add: build_after_scan [OF n scan] passes accounting_of_def lane_count final_of_def comp_def)
qed

text \<open>A stop of the passes names a cap that is exceeded, or reports a collision.  No sentinel cap is reached.\<close>

lemma passes_stop:
  assumes i: "block_index_ok i" and ids: "\<forall>b \<in> set (bi_blocks i). length (eb_id b) = 32" and n: "length (bi_blocks i) \<le> MAX_PRIMARY_BLOCKS_V1"
    and lanes: "card (eb_lane ` set (bi_blocks i)) \<le> MAX_COVERAGE_SOURCE_LANES_V1"
    and stop: "coverage_passes sha256 (facts_in i) (sorted_lanes (facts_in i)) (map (work_of i) (bi_blocks i)) = Inl e"
  shows "case e of GenerationNeedsMore reason \<Rightarrow> coverage_cap i reason
    | GenerationBuild err \<Rightarrow> err = FacetContractViolation \<and> facet_collision sha256 (lane_heads (facts_in i))"
proof -
  have permitted: "emission_stop sha256 (lane_heads (facts_in i)) e" using passes_settle [OF i ids n, of sha256] stop by (simp add: settles_def)
  have "bf_lane ` set (facts_in i) = eb_lane ` set (bi_blocks i)" by (simp add: image_image)
  then have "card (lane_heads (facts_in i)) \<le> card (eb_lane ` set (bi_blocks i))" using lane_heads_bound(2) [of "facts_in i"] by simp
  then have facets: "card (facet_places (lane_heads (facts_in i))) \<le> 58 + 6 * card (eb_lane ` set (bi_blocks i))"
    using card_places [OF lane_heads_bound(1), of "facts_in i"] by linarith
  have "signal_demand (map (work_of i) (bi_blocks i)) + 6 * length (sorted_lanes (facts_in i)) + 40 = affinity_demand i"
    by (simp add: signal_demand_def affinity_demand_def lane_count comp_def work_of_fields signal_counts_length)
  then have spent: "e = GenerationNeedsMore CoverageAffinityOutputCap \<longrightarrow> MAX_COVERAGE_OUTPUT_AFFINITIES_V1 < affinity_demand i"
    "e \<noteq> GenerationNeedsMore CoverageSentinelOutputCap"
    using coverage_passes_spend [of "map (work_of i) (bi_blocks i)" "sorted_lanes (facts_in i)" sha256 "facts_in i"] lanes
    by (auto simp: stop lane_count MAX_COVERAGE_SOURCE_LANES_V1_def MAX_COVERAGE_OUTPUT_SENTINELS_V1_def)
  show ?thesis
  proof (cases e)
    case (GenerationNeedsMore reason)
    then show ?thesis using permitted spent facets lane_heads_bound(1) by (auto simp: emission_stop_def coverage_cap_def)
  next
    case (GenerationBuild err)
    then show ?thesis using permitted by (simp add: emission_stop_def)
  qed
qed

lemma coverage_decides:
  assumes i: "block_index_ok i" and fits: "fits (el_events (bi_ledger i))" and ids: "\<forall>b \<in> set (bi_blocks i). length (eb_id b) = 32"
  shows "coverage_decision sha256 i (generate_failure_coverage_candidates_v1 sha256 i)"
proof -
  let ?bs = "bi_blocks i" and ?passes = "coverage_passes sha256 (facts_in i) (sorted_lanes (facts_in i)) (map (work_of i) (bi_blocks i))"
  note decision = coverage_decision_def generate_failure_coverage_candidates_v1_def
  note lane = decision coverage_cap_def
  note scan = coverage_block_loop [OF i fits subset_refl]
  consider (blocks) "length ?bs > MAX_PRIMARY_BLOCKS_V1"
    | (capped) failure where "length ?bs \<le> MAX_PRIMARY_BLOCKS_V1" "rfold (coverage_block_step i) (coverage_of i []) ?bs = Inl failure"
    | (scanned) "length ?bs \<le> MAX_PRIMARY_BLOCKS_V1" "rfold (coverage_block_step i) (coverage_of i []) ?bs = Inr (coverage_of i ?bs)"
        "within_caps (blocks_bytes i ?bs) (blocks_tokens i ?bs) (signals_total i ?bs)"
    using scan by (cases "rfold (coverage_block_step i) (coverage_of i []) ?bs") (auto simp: not_le [symmetric])
  then show ?thesis
  proof cases
    case blocks
    then show ?thesis by (simp add: lane build_failure_coverage_candidates_v1_def)
  next
    case capped
    moreover have "coverage_of i [] = \<lparr>cv_facts = [], cv_work = [], cv_scanned_bytes = 0, cv_scanned_analysis_tokens = 0,
        cv_failure_signal_observations = 0, cv_onset_signal_observations = 0\<rparr>"
      by (simp add: coverage_of_def blocks_bytes_def blocks_tokens_def failures_total_def onsets_total_def)
    ultimately show ?thesis using scan by (auto simp: lane build_failure_coverage_candidates_v1_def)
  next
    case scanned
    note settled = passes_settle [OF i ids scanned(1), of sha256]
    show ?thesis
    proof (cases "card (eb_lane ` set ?bs) \<le> MAX_COVERAGE_SOURCE_LANES_V1")
      case False
      then show ?thesis by (simp add: lane build_after_scan [OF scanned(1,2)] lane_count)
    next
      case lanes: True
      show ?thesis
      proof (cases ?passes)
        case (Inl e)
        from passes_stop [OF i ids scanned(1) lanes Inl] show ?thesis
          using lanes by (cases e) (simp_all add: decision build_after_scan [OF scanned(1,2)] Inl lane_count)
      next
        case (Inr r)
        then obtain work em where r: "r = ((work, em), risk_total (facts_in i), representative_total (facts_in i) (present_risks (facts_in i)))"
          and t: "passed sha256 i (work, em)" using settled by (cases r) (auto simp: settles_def)
        have few: "failures_total i ?bs \<le> 4294967295" using scanned(3) by (simp add: within_caps_def MAX_COVERAGE_SIGNAL_OBSERVATIONS_V1_def)
        show ?thesis
          using passed_universe [OF t scanned(3) lanes] build_settled [OF scanned(1,2) lanes few t Inr [unfolded r]] by (simp add: lane)
      qed
    qed
  qed
qed

end
