(* ===== verification/Coverage_Properties.thy ===== *)
theory Coverage_Properties
  imports Coverage_Decision Candidate_Properties
begin

text \<open>Properties of the failure-coverage lane on a reconciled block index.\<close>

lemma reconciled_block_ids:
  assumes "ledger_ok l" and "\<forall>a \<in> set as. assignment_shape a" and "BlockIndex_reconcile sha256 l as = Inr i"
    and "\<forall>x. length (sha256 x) = 32" and "blk \<in> set (bi_blocks i)"
  shows "length (eb_id blk) = 32"
proof -
  obtain pss where i: "i = index_of l (sealed_order sha256 l as pss)" using assms(1-3) by (auto simp: blocks_reconcile_Inr)
  then obtain c where "c \<in> set (sealed_order sha256 l as pss)" and blk: "eb_id blk = cb_id c"
    using assms(5) by (auto simp: index_of_def block_of_def in_set_enumerate_eq intro!: that [OF nth_mem])
  then obtain a ps where "c = candidate_of sha256 l a ps" by (auto simp: sealed_order_def)
  then show ?thesis using blk assms(4) by (simp add: candidate_of_def assignment_block_id_def same_lane_block_id_v1_def Let_def)
qed

text \<open>
  C21.  On the reconciled blocks of a sealed ledger the coverage lane always returns a decision, and it
  is justified.  It asks for more only with a cap that the blocks exceed: blocks, bytes, tokens,
  signals, source lanes, or, for the output, more than 673 source lanes (facets) or a demand of more
  than 32768 affinities; the sentinel cap is never reached.  It fails only if two different roles have
  the same facet identity.  Otherwise the universe has one annotation per block, which counts exactly
  the failure and onset signals of the block that are not negated, places it among the failing blocks
  of its lane, covers the facet of each signal, and names its reconstruction risks; the ends of every
  lane and of the retrieval, the time strata, the first failure and the first onset of every lane with
  the blocks before them, and the representatives of every risk are marked; each sentinel has its
  affinity and each affinity its facet; and the accounting is exact and within the caps.
\<close>

theorem coverage_lane_decides:
  assumes "reachable sha256 policy b" and "seal sha256 b completion = Inr l" and "fits (el_events l)"
    and "\<forall>a \<in> set as. proposed a" and "BlockIndex_reconcile sha256 l as = Inr i" and "\<forall>x. length (sha256 x) = 32"
  shows "case generate_failure_coverage_candidates_v1 sha256 i of
      Inl e \<Rightarrow> e = FacetContractViolation \<and> facet_collision sha256 (lane_heads (facts_in i))
    | Inr (CoverageNeedsMore reason) \<Rightarrow> coverage_cap i reason
    | Inr (CoverageReady u) \<Rightarrow> universe_ok sha256 i u"
proof -
  note ok = sealed_ok [OF assms(1,2)] and shape = proposed_shape [OF assms(4)]
  note index = reconcile_index_ok [OF ok shape assms(5)]
  show ?thesis
    using reconciled_block_ids [OF ok shape assms(5,6)] assms(3) index(2) coverage_decides [OF index(1), of sha256]
    by (simp add: coverage_decision_def)
qed

section \<open>A sample\<close>

text \<open>A digest under which no two facets of the lane collide: it numbers the roles.\<close>

definition sample_digest :: "bytes \<Rightarrow> bytes" where
  "sample_digest x = le_bytes 32 (length (takeWhile
     (\<lambda>role. facet_preimage role (if anchored role then Some (drop (length x - 32) x) else None) \<noteq> x) (free_roles @ anchored_roles)))"

lemma roles_ok: "\<forall>role \<in> set (free_roles @ anchored_roles). role_ok role"
  by (auto simp: free_roles_def anchored_roles_def MAX_TIME_COVERAGE_STRATA_V1_def)

lemma takeWhile_stops: "x \<in> set xs \<Longrightarrow> \<not> P x \<Longrightarrow> length (takeWhile P xs) < length xs"
  by (induction xs) auto

lemma sample_digest_role:
  assumes "(role, anchor) \<in> facet_places anchors" and "\<forall>bid \<in> anchors. length bid = 32"
  defines "roles \<equiv> free_roles @ anchored_roles"
  obtains k where "k < length roles" and "roles ! k = role" and "facet_name sample_digest role anchor = le_bytes 32 k"
proof -
  let ?x = "facet_preimage role anchor"
  let ?P = "\<lambda>role. facet_preimage role (if anchored role then Some (drop (length ?x - 32) ?x) else None) \<noteq> ?x"
  let ?k = "length (takeWhile ?P roles)"
  have role: "role_ok role" and bid: "\<forall>bid \<in> set (anchor_part anchor). length bid = 32"
    using assms(1,2) by (cases anchor; auto simp: facet_places_def anchor_ok_def anchor_part_def)+
  have "anchor = (if anchored role then Some (drop (length ?x - 32) ?x) else None)"
  proof (cases anchor)
    case None
    then show ?thesis using assms(1) by (simp add: facet_places_def anchor_ok_def)
  next
    case (Some b)
    then have "length b = 32" and "anchored role" using assms(1,2) by (auto simp: facet_places_def anchor_ok_def)
    moreover have "\<exists>p. semantic_key role (Some b) = p @ b"
      unfolding semantic_key_def append_key_part_def [of _ b] Let_def option.case append_assoc [symmetric] by blast
    then have "\<exists>p. ?x = p @ b"
      unfolding Some facet_preimage_def update_hash_field_def [of _ "semantic_key role (Some b)"] by (metis append_assoc)
    ultimately show ?thesis by (auto simp: Some)
  qed
  then have "\<not> ?P role" by simp
  moreover have "role \<in> set roles" using role_member [OF role] by (auto simp: roles_def split: if_splits)
  ultimately have k: "?k < length roles"
    by (rule takeWhile_stops [rotated])
  define anchor' where "anchor' = (if anchored (roles ! ?k) then Some (drop (length ?x - 32) ?x) else None)"
  have same: "facet_preimage (roles ! ?k) anchor' = ?x" using nth_length_takeWhile [OF k] by (simp add: anchor'_def)
  have long: "32 \<le> length ?x" by (simp add: facet_preimage_def update_hash_field_def)
  have ok: "role_ok (roles ! ?k)" using roles_ok nth_mem [OF k] unfolding roles_def by blast
  have "\<forall>b \<in> set (anchor_part anchor' @ anchor_part anchor). length b = 32" using bid long by (auto simp: anchor'_def anchor_part_def)
  from facet_preimage_inj [OF same ok role this] have "roles ! ?k = role" .
  with k show thesis by (rule that) (simp add: facet_name_preimage sample_digest_def roles_def)
qed

lemma sample_digest_facets:
  assumes "\<forall>bid \<in> anchors. length bid = 32"
  shows "\<not> facet_collision sample_digest anchors"
proof -
  have "role = role'" if places: "(role, anchor) \<in> facet_places anchors" "(role', anchor') \<in> facet_places anchors"
      and same: "facet_name sample_digest role anchor = facet_name sample_digest role' anchor'" for role anchor role' anchor'
  proof -
    let ?roles = "free_roles @ anchored_roles"
    obtain k where k: "k < length ?roles" "?roles ! k = role" "facet_name sample_digest role anchor = le_bytes 32 k"
      using sample_digest_role [OF places(1) assms] by blast
    obtain k' where k': "k' < length ?roles" "?roles ! k' = role'" "facet_name sample_digest role' anchor' = le_bytes 32 k'"
      using sample_digest_role [OF places(2) assms] by blast
    have "length ?roles = 64" by (simp add: free_roles_def anchored_roles_def upt_rec)
    then have "k = k'" using k k' same by (intro le_bytes_inj [of 32]) simp_all
    then show ?thesis using k(2) k'(2) by simp
  qed
  then show ?thesis unfolding facet_collision_def by blast
qed

lemma sample_block:
  assumes s: "reachable sha256 policy b" "seal sha256 b completion = Inr l" "el_events l = [e]"
  defines "a \<equiv> assignment (ev_lane e) [e] source_lane_framing_policy_v1 FallbackSingleton Certain"
  obtains i blk where "BlockIndex_reconcile sha256 l [a] = Inr i" and "bi_blocks i = [blk]" and "block_events i blk = [e]" and "bi_ledger i = l"
proof -
  note ok = sealed_ok [OF s(1,2)]
  have shape: "\<forall>a \<in> set [a]. assignment_shape a" using proposed_shape [of "[a]"] sample_proposed by (simp add: a_def)
  have placed: "placed sha256 l [a] [[0]]"
    using sample_members [OF ok s(3)] by (simp add: a_def placed_def assignment_def new_same_lane_v1_def)
  let ?i = "index_of l (sealed_order sha256 l [a] [[0]])"
  have i: "BlockIndex_reconcile sha256 l [a] = Inr ?i"
    using placed s(3) unfolding blocks_reconcile_Inr [OF ok shape] by (intro exI [of _ "[[0]]"]) (simp add: lessThan_Suc)
  have "bi_blocks ?i = [block_of 0 (candidate_of sha256 l a [0])]" "bi_ledger ?i = l" by (simp_all add: index_of_def sealed_order_def)
  moreover have "block_events ?i (block_of 0 (candidate_of sha256 l a [0])) = [e]"
    using s(3) by (simp add: block_events_def index_of_def block_of_def candidate_of_def)
  ultimately show thesis using i that by blast
qed

definition sample_failure :: bytes where
  "sample_failure = ''ERROR: no failure, panic''"

lemma sample_failure_tokens: "ascii_tokens (sample_failure @ [CHR 0x0A]) = [''ERROR'', ''no'', ''failure'', ''panic'']"
  "failure_signals False (ascii_tokens (sample_failure @ [CHR 0x0A])) = [Signal_Error, Signal_Panic]"
  "onset_signals (ascii_tokens (sample_failure @ [CHR 0x0A])) = []"
  by code_simp+

theorem coverage_lane_decides_witness:
  "\<exists>b l e i u. seal sample_digest b (sample_completion b) = Inr l \<and> el_events l = [e] \<and> ev_raw e = sample_failure @ [CHR 0x0A] \<and> bi_ledger i = l
     \<and> generate_failure_coverage_candidates_v1 sample_digest i = Inr (CoverageReady u) \<and> universe_ok sample_digest i u
     \<and> map (\<lambda>c. map_option ff_signals (cba_failure c)) (cu_annotations u) = [Some [(Signal_Error, 1), (Signal_Panic, 1)]]"
proof -
  have "length sample_failure \<le> 1000" by (simp add: sample_failure_def)
  then obtain b l e where s: "reachable sample_digest (\<lambda>_. AuthorizeSourceExact) b" "seal sample_digest b (sample_completion b) = Inr l"
    "el_events l = [e]" "ev_raw e = sample_failure @ [CHR 0x0A]" by (rule sample_sealed_with) blast
  obtain i blk where i: "BlockIndex_reconcile sample_digest l [assignment (ev_lane e) [e] source_lane_framing_policy_v1 FallbackSingleton Certain] = Inr i"
    and blk: "bi_blocks i = [blk]" "block_events i blk = [e]" "bi_ledger i = l" by (rule sample_block [OF s(1-3)])
  have size: "length (ev_raw e) = 25" by (simp add: s(4) sample_failure_def)
  have proposals: "\<forall>a \<in> set [assignment (ev_lane e) [e] source_lane_framing_policy_v1 FallbackSingleton Certain]. proposed a"
    and fits: "fits (el_events l)" using sample_proposed s(3) size by (simp_all add: fits_def)
  have digest: "\<forall>x. length (sample_digest x) = 32" by (simp add: sample_digest_def)
  note decision = coverage_lane_decides [OF s(1,2) fits proposals i digest]
  have signals: "failures_in [e] = [Signal_Error, Signal_Panic]" "onsets_in [e] = []" "tokens_in [e] = [''ERROR'', ''no'', ''failure'', ''panic'']"
    "bytes_of [e] = 25"
    using sample_failure_tokens s(4) size by (simp_all add: failures_in_def onsets_in_def tokens_in_def bytes_of_def)
  have "\<not> coverage_cap i reason" for reason
    by (simp add: coverage_cap_def over_cap_def blk signals affinity_demand_def blocks_bytes_def blocks_tokens_def failures_total_def
        onsets_total_def MAX_PRIMARY_BLOCKS_V1_def MAX_PRIMARY_BYTES_SCANNED_V1_def MAX_COVERAGE_ANALYSIS_TOKENS_V1_def
        MAX_COVERAGE_SIGNAL_OBSERVATIONS_V1_def MAX_COVERAGE_SOURCE_LANES_V1_def MAX_COVERAGE_OUTPUT_FACETS_V1_def
        MAX_COVERAGE_OUTPUT_AFFINITIES_V1_def)
  moreover have "length (eb_id blk) = 32"
    using reconciled_block_ids [OF sealed_ok [OF s(1,2)] proposed_shape [OF proposals] i digest] blk(1) by simp
  then have "\<not> facet_collision sample_digest (lane_heads (facts_in i))"
    using lane_heads_ids [of "facts_in i"] by (intro sample_digest_facets) (auto simp: blk(1))
  ultimately obtain u where ready: "generate_failure_coverage_candidates_v1 sample_digest i = Inr (CoverageReady u)" and u: "universe_ok sample_digest i u"
    using decision by (auto split: sum.splits CoverageGenerationDecisionV1.splits)
  then obtain cs where "cu_annotations u = sort_key cba_block_id cs" "length cs = 1" "describes sample_digest i 0 (cs ! 0)"
    by (auto simp: universe_ok_def blk(1))
  then have "map (\<lambda>c. map_option ff_signals (cba_failure c)) (cu_annotations u) = [Some [(Signal_Error, 1), (Signal_Panic, 1)]]"
    by (cases cs) (simp_all add: describes_def failure_fact_def failures_at_def blk signals signal_counts_def btree_set_def less_eq_FailureSignalKindV1_def Let_def)
  then show ?thesis
    using s(2-4) blk(3) ready u by (intro exI [of _ b] exI [of _ l] exI [of _ e] exI [of _ i] exI [of _ u] conjI)
qed

end
