(* ===== verification/Evidence_Text.thy ===== *)
theory Evidence_Text
  imports Retained "HOL-Library.Word"
begin

text \<open>
  The text layer of the evidence artifacts (\<open>evidentrail-evidence/src/lib.rs\<close>): the ASCII escape of
  evidence bytes with its decoder, the bounded text that every renderer writes to, canonical tokens
  (\<open>evidentrail-schema/src/id.rs\<close>) and the codes that the artifacts print.  A renderer is shown
  correct by the text it writes: \<open>writes w s\<close> says that \<open>w\<close> appends \<open>s\<close>, or fails exactly when the
  limit does not leave room for it.
\<close>

unbundle bit_operations_syntax

named_theorems writes_intro


section \<open>Escaping\<close>

datatype EvidenceEscapeError = TruncatedEscape | InvalidEscape | InvalidDigit | NonCanonicalByte

abbreviation backslash :: char where "backslash \<equiv> CHR 0x5C"

text \<open>The range pattern \<open>0x20..=0x7e\<close>.\<close>

definition is_printable :: "char \<Rightarrow> bool" where
  "is_printable byte \<longleftrightarrow> CHR 0x20 \<le> byte \<and> byte \<le> CHR 0x7E"

definition hex_digit :: "nat \<Rightarrow> char" where
  "hex_digit nibble = ''0123456789abcdef'' ! nibble"

definition push_escaped_byte :: "bytes \<Rightarrow> char \<Rightarrow> bytes" where
  "push_escaped_byte destination byte =
     (if byte = backslash then destination @ [backslash, backslash]
      else if byte = CHR 0x0A then destination @ [backslash, CHR ''n'']
      else if byte = CHR 0x0D then destination @ [backslash, CHR ''r'']
      else if byte = CHR 0x09 then destination @ [backslash, CHR ''t'']
      else if is_printable byte then destination @ [byte]
      else destination @ [backslash, CHR ''x''] @ [hex_digit (drop_bit 4 (of_char byte))]
        @ [hex_digit (of_char byte AND 0x0F)])"

definition escape_evidence_bytes :: "bytes \<Rightarrow> bytes" where
  "escape_evidence_bytes bytes = foldl push_escaped_byte [] bytes"

definition escaped_byte_len :: "char \<Rightarrow> nat" where
  "escaped_byte_len byte =
     (if byte = backslash \<or> byte = CHR 0x0A \<or> byte = CHR 0x0D \<or> byte = CHR 0x09 then 2
      else if is_printable byte then 1 else 4)"

text \<open>\<open>try_fold\<close> with the running length.\<close>

fun escaped_len_from :: "nat \<Rightarrow> bytes \<Rightarrow> nat option" where
  "escaped_len_from len [] = Some len"
| "escaped_len_from len (byte # bytes) =
     (case checked_add_u64 len (escaped_byte_len byte) of
        None \<Rightarrow> None | Some len \<Rightarrow> escaped_len_from len bytes)"

definition escaped_len :: "bytes \<Rightarrow> nat option" where
  "escaped_len bytes = escaped_len_from 0 bytes"

definition hex_value :: "char \<Rightarrow> nat option" where
  "hex_value byte =
     (if CHR ''0'' \<le> byte \<and> byte \<le> CHR ''9'' then Some (of_char byte - of_char (CHR ''0''))
      else if CHR ''a'' \<le> byte \<and> byte \<le> CHR ''f'' then Some (of_char byte - of_char (CHR ''a'') + 10)
      else None)"

text \<open>\<open>slice::get\<close> with the error of \<open>ok_or\<close>.\<close>

definition get_or :: "'e \<Rightarrow> 'a list \<Rightarrow> nat \<Rightarrow> ('e, 'a) result" where
  "get_or e xs i = (if i < length xs then Inr (xs ! i) else Inl e)"

text \<open>
  The arm for \<open>\x\<close>.  The nibbles are below 16, so that \<open>(high << 4) | low\<close> stays in a byte.
\<close>

definition unescape_hex :: "bytes \<Rightarrow> nat \<Rightarrow> (EvidenceEscapeError, char \<times> nat) result" where
  "unescape_hex encoded offset =
     rbind (get_or TruncatedEscape encoded (offset + 2)) (\<lambda>high.
     rbind (get_or TruncatedEscape encoded (offset + 3)) (\<lambda>low.
     rbind (ok_or InvalidDigit (hex_value high)) (\<lambda>high.
     rbind (ok_or InvalidDigit (hex_value low)) (\<lambda>low.
     let decoded_byte = char_of (push_bit 4 high OR low) in
     if decoded_byte = backslash \<or> decoded_byte = CHR 0x0A \<or> decoded_byte = CHR 0x0D \<or> decoded_byte = CHR 0x09
       \<or> is_printable decoded_byte then Inl NonCanonicalByte
     else Inr (decoded_byte, 4)))))"

text \<open>One pass of the decoding loop: the decoded byte and the number of bytes it consumed.\<close>

definition unescape_step :: "bytes \<Rightarrow> nat \<Rightarrow> (EvidenceEscapeError, char \<times> nat) result" where
  "unescape_step encoded offset =
     (let byte = encoded ! offset in
      if byte = backslash then
        rbind (get_or TruncatedEscape encoded (offset + 1)) (\<lambda>escape.
        if escape = backslash then Inr (backslash, 2)
        else if escape = CHR ''n'' then Inr (CHR 0x0A, 2)
        else if escape = CHR ''r'' then Inr (CHR 0x0D, 2)
        else if escape = CHR ''t'' then Inr (CHR 0x09, 2)
        else if escape = CHR ''x'' then unescape_hex encoded offset
        else Inl InvalidEscape)
      else if is_printable byte then Inr (byte, 1)
      else Inl NonCanonicalByte)"

lemma unescape_step_advances: "unescape_step encoded offset = Inr (byte, used) \<Longrightarrow> 0 < used"
  by (auto simp: unescape_step_def unescape_hex_def Let_def result_simps split: if_splits)

function unescape_loop :: "bytes \<Rightarrow> bytes \<Rightarrow> nat \<Rightarrow> (EvidenceEscapeError, bytes) result" where
  "unescape_loop encoded decoded offset =
     (if offset < length encoded then
        rbind (unescape_step encoded offset) (\<lambda>(byte, used).
        unescape_loop encoded (decoded @ [byte]) (offset + used))
      else Inr decoded)"
  by pat_completeness auto
termination
  by (relation "measure (\<lambda>(encoded, decoded, offset). length encoded - offset)")
    (auto dest!: unescape_step_advances)

declare unescape_loop.simps [simp del]

definition unescape_evidence_bytes :: "bytes \<Rightarrow> (EvidenceEscapeError, bytes) result" where
  "unescape_evidence_bytes encoded = unescape_loop encoded [] 0"

subsection \<open>The decoder inverts exactly the canonical encodings\<close>

definition escape_byte :: "char \<Rightarrow> bytes" where
  "escape_byte byte = push_escaped_byte [] byte"

lemma push_escaped_byte_append: "push_escaped_byte destination byte = destination @ escape_byte byte"
  by (simp add: push_escaped_byte_def escape_byte_def)

lemma escape_evidence_bytes_concat: "escape_evidence_bytes bs = concat (map escape_byte bs)"
proof -
  have "foldl push_escaped_byte d bs = d @ concat (map escape_byte bs)" for d
    by (induction bs arbitrary: d) (simp_all add: push_escaped_byte_append)
  then show ?thesis by (simp add: escape_evidence_bytes_def)
qed

lemma length_escape_byte: "length (escape_byte byte) = escaped_byte_len byte"
  by (simp add: escape_byte_def push_escaped_byte_def escaped_byte_len_def)

lemma hex_digit_value: "n < 16 \<Longrightarrow> hex_value (hex_digit n) = Some n"
proof -
  have "\<forall>n \<in> set [0 ..< 16]. hex_value (hex_digit n) = Some n" by code_simp
  then show "n < 16 \<Longrightarrow> ?thesis" by simp
qed

lemma hex_value_digit: "hex_value c = Some n \<Longrightarrow> n < 16 \<and> c = hex_digit n"
proof -
  have digits: "\<forall>k \<in> set [48 ..< 58]. char_of k = hex_digit (k - 48)"
    and letters: "\<forall>k \<in> set [97 ..< 103]. char_of k = hex_digit (k - 97 + 10)" by code_simp+
  assume h: "hex_value c = Some n"
  then consider "48 \<le> (of_char c :: nat)" "of_char c < (58 :: nat)" "n = of_char c - 48"
    | "97 \<le> (of_char c :: nat)" "of_char c < (103 :: nat)" "n = of_char c - 97 + 10"
    by (auto simp: hex_value_def less_eq_char_def split: if_splits)
  then show ?thesis
  proof cases
    case 1
    then have "char_of (of_char c :: nat) = hex_digit (of_char c - 48)"
      using digits by (metis atLeastLessThan_iff set_upt)
    then show ?thesis using 1 by simp
  next
    case 2
    then have "char_of (of_char c :: nat) = hex_digit (of_char c - 97 + 10)"
      using letters by (metis atLeastLessThan_iff set_upt)
    then show ?thesis using 2 by simp
  qed
qed

lemma nibbles: "h < 16 \<Longrightarrow> l < 16 \<Longrightarrow> push_bit 4 h OR l = 16 * h + (l :: nat)"
proof -
  assume l: "l < 16"
  have "take_bit 4 l = l" using l by (simp add: take_bit_nat_eq_self)
  moreover have "push_bit 4 h AND take_bit 4 l = 0" by (auto simp: bit_eq_iff bit_simps)
  ultimately have "push_bit 4 h + l = push_bit 4 h OR l" by (metis disjunctive_add_eq_or)
  then show ?thesis by (simp add: push_bit_eq_mult)
qed

lemma byte_nibbles:
  fixes b :: char
  shows "drop_bit 4 (of_char b :: nat) < 16" and "(of_char b AND 0x0F :: nat) < 16"
    and "char_of (push_bit 4 (drop_bit 4 (of_char b)) OR (of_char b AND 0x0F) :: nat) = b"
proof -
  have "(of_char b :: nat) < 256" by simp
  then show h: "drop_bit 4 (of_char b :: nat) < 16" unfolding drop_bit_eq_div by (intro less_mult_imp_div_less) simp
  have mask: "(of_char b AND 0x0F :: nat) = of_char b mod 16"
    using take_bit_eq_mask [of 4 "of_char b :: nat"] by (simp add: take_bit_eq_mod mask_eq_exp_minus_1)
  then show l: "(of_char b AND 0x0F :: nat) < 16" by simp
  have "16 * (of_char b div 16) + of_char b mod 16 = (of_char b :: nat)" by simp
  then show "char_of (push_bit 4 (drop_bit 4 (of_char b)) OR (of_char b AND 0x0F) :: nat) = b"
    using nibbles [OF h l] by (simp add: mask drop_bit_eq_div)
qed

definition is_special :: "char \<Rightarrow> bool" where
  "is_special byte \<longleftrightarrow> byte = backslash \<or> byte = CHR 0x0A \<or> byte = CHR 0x0D \<or> byte = CHR 0x09"

lemma unescape_step_complete: "unescape_step (pre @ escape_byte b @ rest) (length pre) = Inr (b, length (escape_byte b))"
proof (cases "is_special b")
  case True
  then show ?thesis
    by (auto simp: is_special_def unescape_step_def escape_byte_def push_escaped_byte_def get_or_def nth_append)
next
  case special: False
  show ?thesis
  proof (cases "is_printable b")
    case True
    then show ?thesis
      using special by (simp add: is_special_def unescape_step_def escape_byte_def push_escaped_byte_def nth_append)
  next
    case False
    let ?h = "drop_bit 4 (of_char b :: nat)" and ?l = "of_char b AND 0x0F :: nat"
    have enc: "escape_byte b = [backslash, CHR ''x'', hex_digit ?h, hex_digit ?l]"
      using special False by (simp add: is_special_def escape_byte_def push_escaped_byte_def)
    have not_special: "b \<noteq> backslash" "b \<noteq> CHR 0x0A" "b \<noteq> CHR 0x0D" "b \<noteq> CHR 0x09"
      using special by (simp_all add: is_special_def)
    show ?thesis
      using not_special False hex_digit_value [OF byte_nibbles(1) [of b]] hex_digit_value [OF byte_nibbles(2) [of b]]
      by (simp add: unescape_step_def unescape_hex_def enc get_or_def nth_append byte_nibbles(3))
  qed
qed

lemma printable_not_special: "is_printable b \<Longrightarrow> b \<noteq> backslash \<Longrightarrow> \<not> is_special b"
  by (auto simp: is_printable_def is_special_def less_eq_char_def)

lemma unescape_hex_sound:
  assumes "hex_value high = Some h" and "hex_value low = Some l" and "b = char_of (push_bit 4 h OR l)"
    and "\<not> is_special b" and "\<not> is_printable b"
  shows "escape_byte b = [backslash, CHR ''x'', high, low]"
proof -
  have h: "h < 16" "high = hex_digit h" and l: "l < 16" "low = hex_digit l"
    using assms(1,2) hex_value_digit by auto
  have b: "(of_char b :: nat) = 16 * h + l"
    using h(1) l(1) by (simp add: assms(3) nibbles of_char_of)
  have "drop_bit 4 (of_char b :: nat) = h" using l(1) by (simp add: b drop_bit_eq_div)
  moreover have "(of_char b AND 0x0F :: nat) = l"
    using l(1) take_bit_eq_mask [of 4 "16 * h + l"] by (simp add: b take_bit_eq_mod mask_eq_exp_minus_1)
  ultimately show ?thesis
    using assms(4,5) h(2) l(2) by (simp add: is_special_def escape_byte_def push_escaped_byte_def)
qed

lemma unescape_hex_Inr:
  assumes "unescape_hex encoded offset = Inr (b, used)"
  obtains high low h l where "get_or TruncatedEscape encoded (offset + 2) = Inr high"
    "get_or TruncatedEscape encoded (offset + 3) = Inr low" "hex_value high = Some h" "hex_value low = Some l"
    "b = char_of (push_bit 4 h OR l)" "\<not> is_special b" "\<not> is_printable b" "used = 4"
  using assms unfolding unescape_hex_def rbind_Inr ok_or_Inr Let_def is_special_def
  by (elim exE conjE) (simp split: if_split_asm)

lemma unescape_step_sound:
  assumes step: "unescape_step encoded offset = Inr (b, used)" and less: "offset < length encoded"
  shows "\<exists>rest. drop offset encoded = escape_byte b @ rest \<and> used = length (escape_byte b)"
proof -
  have at: "drop (offset + k) encoded = encoded ! (offset + k) # drop (offset + Suc k) encoded"
    if "offset + k < length encoded" for k
    using that by (simp add: Cons_nth_drop_Suc)
  have first: "drop offset encoded = encoded ! offset # drop (offset + 1) encoded"
    using at [of 0] less by simp
  show ?thesis
  proof (cases "encoded ! offset = backslash")
    case False
    then have "b = encoded ! offset" "used = 1" "is_printable b"
      using step by (simp_all add: unescape_step_def Let_def split: if_splits)
    moreover have "escape_byte b = [b]"
      using calculation False printable_not_special
      by (simp add: is_special_def escape_byte_def push_escaped_byte_def)
    ultimately show ?thesis using first by simp
  next
    case True
    obtain c where c: "get_or TruncatedEscape encoded (offset + 1) = Inr c"
      using step True by (cases "get_or TruncatedEscape encoded (offset + 1)") (simp_all add: unescape_step_def)
    then have less1: "offset + 1 < length encoded" and c_at: "encoded ! (offset + 1) = c"
      by (simp_all add: get_or_def split: if_splits)
    have second: "drop offset encoded = backslash # c # drop (offset + 2) encoded"
      using first at [of 1] less1 True c_at by simp
    show ?thesis
    proof (cases "c = CHR ''x''")
      case False
      then have "used = 2" and "(c, b) \<in> {(backslash, backslash), (CHR ''n'', CHR 0x0A), (CHR ''r'', CHR 0x0D), (CHR ''t'', CHR 0x09)}"
        using step True c by (simp_all add: unescape_step_def Let_def split: if_split_asm)
      then have "used = 2" and "escape_byte b = [backslash, c]"
        by (auto simp: escape_byte_def push_escaped_byte_def)
      then show ?thesis using second by simp
    next
      case x: True
      have hex: "unescape_step encoded offset = unescape_hex encoded offset"
        using True c x by (simp add: unescape_step_def)
      obtain high low h l where at2: "get_or TruncatedEscape encoded (offset + 2) = Inr high"
        and at3: "get_or TruncatedEscape encoded (offset + 3) = Inr low"
        and digits: "hex_value high = Some h" "hex_value low = Some l" "b = char_of (push_bit 4 h OR l)"
        and plain: "\<not> is_special b" "\<not> is_printable b" and used: "used = 4"
        using step unfolding hex by (rule unescape_hex_Inr)
      have "drop (offset + 2) encoded = high # low # drop (offset + 4) encoded"
        using at [of 2] at [of 3] at2 at3 by (simp add: get_or_def eval_nat_numeral split: if_splits)
      then show ?thesis using second x used unescape_hex_sound [OF digits plain] by simp
    qed
  qed
qed

lemma unescape_loop_complete: "unescape_loop (pre @ concat (map escape_byte bs)) decoded (length pre) = Inr (decoded @ bs)"
proof (induction bs arbitrary: pre decoded)
  case Nil
  then show ?case by (subst unescape_loop.simps) simp
next
  case (Cons b bs)
  have "0 < length (escape_byte b)"
    using unescape_step_advances [OF unescape_step_complete [of "[]" b "[]"]] by simp
  moreover have "unescape_loop (pre @ escape_byte b @ concat (map escape_byte bs)) (decoded @ [b])
      (length pre + length (escape_byte b)) = Inr (decoded @ b # bs)"
    using Cons.IH [of "pre @ escape_byte b" "decoded @ [b]"] by simp
  ultimately show ?case
    by (subst unescape_loop.simps) (simp add: unescape_step_complete)
qed

lemma unescape_loop_sound:
  "unescape_loop encoded decoded offset = Inr out \<Longrightarrow> \<exists>bs. out = decoded @ bs \<and> drop offset encoded = concat (map escape_byte bs)"
proof (induction encoded decoded offset rule: unescape_loop.induct)
  case (1 encoded decoded offset)
  show ?case
  proof (cases "offset < length encoded")
    case False
    then have "out = decoded" using "1.prems" by (simp add: unescape_loop.simps)
    then show ?thesis using False by (intro exI [of _ "[]"]) simp
  next
    case True
    obtain b used where step: "unescape_step encoded offset = Inr (b, used)"
      and rest: "unescape_loop encoded (decoded @ [b]) (offset + used) = Inr out"
      using "1.prems" True by (subst (asm) unescape_loop.simps) (auto simp: result_simps)
    obtain bs where bs: "out = (decoded @ [b]) @ bs" "drop (offset + used) encoded = concat (map escape_byte bs)"
      using "1.IH" [OF True step refl rest] by blast
    obtain tail where tail: "drop offset encoded = escape_byte b @ tail" "used = length (escape_byte b)"
      using unescape_step_sound [OF step True] by blast
    have "tail = drop used (drop offset encoded)" by (simp add: tail)
    then have "tail = concat (map escape_byte bs)" using bs(2) by (simp add: add.commute)
    then show ?thesis using bs(1) tail(1) by (intro exI [of _ "b # bs"]) simp
  qed
qed

lemma unescape_iff_escape: "unescape_evidence_bytes s = Inr bs \<longleftrightarrow> s = escape_evidence_bytes bs"
  using unescape_loop_sound [of s "[]" 0 bs] unescape_loop_complete [of "[]" bs "[]"]
  by (auto simp: unescape_evidence_bytes_def escape_evidence_bytes_concat)

lemma escape_byte_printable: "c \<in> set (escape_byte b) \<Longrightarrow> is_printable c"
proof -
  have digits: "\<forall>n \<in> set [0 ..< 16]. is_printable (hex_digit n)"
    and marks: "\<forall>c \<in> set [backslash, CHR ''n'', CHR ''r'', CHR ''t'', CHR ''x'']. is_printable c" by code_simp+
  assume "c \<in> set (escape_byte b)"
  then consider "c \<in> set [backslash, CHR ''n'', CHR ''r'', CHR ''t'', CHR ''x'']" | "is_printable c"
    | "c = hex_digit (drop_bit 4 (of_char b))" | "c = hex_digit (of_char b AND 0x0F)"
    by (auto simp: escape_byte_def push_escaped_byte_def split: if_split_asm)
  then show ?thesis
  proof cases
    case 1
    then show ?thesis using marks by blast
  next
    case 3
    then show ?thesis using digits byte_nibbles(1) [of b] by simp
  next
    case 4
    then show ?thesis using digits byte_nibbles(2) [of b] by simp
  qed
qed

lemma escape_printable: "c \<in> set (escape_evidence_bytes bs) \<Longrightarrow> is_printable c"
  by (auto simp: escape_evidence_bytes_concat escape_byte_printable)

lemma escaped_len_exact:
  "escaped_len bs = (if length (escape_evidence_bytes bs) \<le> u64_max then Some (length (escape_evidence_bytes bs)) else None)"
proof -
  have "n \<le> u64_max \<Longrightarrow> escaped_len_from n bs =
      (if n + length (concat (map escape_byte bs)) \<le> u64_max then Some (n + length (concat (map escape_byte bs))) else None)" for n
    by (induction bs arbitrary: n) (auto simp: length_escape_byte checked_add_u64_def split: option.split)
  then show ?thesis by (simp add: escaped_len_def escape_evidence_bytes_concat)
qed

section \<open>Numbers, tokens and codes\<close>

text \<open>\<open>to_string\<close> of an unsigned integer.\<close>

fun decimal :: "nat \<Rightarrow> bytes" where
  "decimal n = (if n < 10 then [char_of (48 + n)] else decimal (n div 10) @ [char_of (48 + n mod 10)])"

declare decimal.simps [simp del]

definition canonical_token :: "bytes \<Rightarrow> bytes \<Rightarrow> bytes" where
  "canonical_token prefix bytes =
     foldl (\<lambda>token byte. token @ [hex_digit (drop_bit 4 (of_char byte))] @ [hex_digit (of_char byte AND 0x0F)]) prefix bytes"

definition result_canonical_token :: "ResultId \<Rightarrow> bytes" where
  "result_canonical_token result = canonical_token ''result_'' result"

fun completeness_proof_code :: "CompletenessProof \<Rightarrow> bytes" where
  "completeness_proof_code FixedSnapshotVerified = ''fixed_snapshot_verified''"
| "completeness_proof_code PlannedUnixFileSnapshotVerifiedV1 = ''planned_unix_file_snapshot_verified_v1''"
| "completeness_proof_code ProviderBoundaryExhausted = ''provider_boundary_exhausted''"
| "completeness_proof_code FinalCursorVerified = ''final_cursor_verified''"
| "completeness_proof_code ReplayManifestVerified = ''replay_manifest_verified''"
| "completeness_proof_code InMemoryFixtureExhausted = ''in_memory_fixture_exhausted''"
| "completeness_proof_code (ProofOtherVersioned _ _) = ''other_versioned''"

fun fetch_partial_reason_code :: "FetchPartialReason \<Rightarrow> bytes" where
  "fetch_partial_reason_code FP_RowCap = ''row_cap''"
| "fetch_partial_reason_code FP_RecordCountCap = ''record_count_cap''"
| "fetch_partial_reason_code FP_SourceByteCap = ''source_byte_cap''"
| "fetch_partial_reason_code FP_ExpandedByteCap = ''expanded_byte_cap''"
| "fetch_partial_reason_code FP_PageCap = ''page_cap''"
| "fetch_partial_reason_code FP_WallTimeCap = ''wall_time_cap''"
| "fetch_partial_reason_code FP_Timeout = ''timeout''"
| "fetch_partial_reason_code FP_Cancelled = ''cancelled''"
| "fetch_partial_reason_code FP_BackpressureLimit = ''backpressure_limit''"
| "fetch_partial_reason_code FP_PaginationIncomplete = ''pagination_incomplete''"
| "fetch_partial_reason_code FP_ProviderCap = ''provider_cap''"
| "fetch_partial_reason_code FP_ProviderTruncation = ''provider_truncation''"
| "fetch_partial_reason_code FP_PermissionLimited = ''permission_limited''"
| "fetch_partial_reason_code FP_AuthenticationChanged = ''authentication_changed''"
| "fetch_partial_reason_code FP_RetentionBoundary = ''retention_boundary''"
| "fetch_partial_reason_code FP_SourceChanged = ''source_changed''"
| "fetch_partial_reason_code FP_SourceDisappeared = ''source_disappeared''"
| "fetch_partial_reason_code FP_SourceReadError = ''source_read_error''"
| "fetch_partial_reason_code FP_ChildExitFailure = ''child_exit_failure''"
| "fetch_partial_reason_code FP_ChildKilled = ''child_killed''"
| "fetch_partial_reason_code FP_NetworkFailure = ''network_failure''"
| "fetch_partial_reason_code FP_MalformedProviderFraming = ''malformed_provider_framing''"
| "fetch_partial_reason_code FP_RecordTruncated = ''record_truncated''"
| "fetch_partial_reason_code FP_DecompressionLimit = ''decompression_limit''"
| "fetch_partial_reason_code FP_SinkFailure = ''sink_failure''"
| "fetch_partial_reason_code (FP_OtherVersioned _ _) = ''other_versioned''"

fun fetch_unknown_reason_code :: "FetchUnknownReason \<Rightarrow> bytes" where
  "fetch_unknown_reason_code FU_ProviderHasNoCompletenessProof = ''provider_has_no_completeness_proof''"
| "fetch_unknown_reason_code FU_RetentionUnobservable = ''retention_unobservable''"
| "fetch_unknown_reason_code FU_HighWaterMarkUnverifiable = ''high_water_mark_unverifiable''"
| "fetch_unknown_reason_code FU_EventuallyConsistentWindow = ''eventually_consistent_window''"
| "fetch_unknown_reason_code FU_LiveStreamOpenEnded = ''live_stream_open_ended''"
| "fetch_unknown_reason_code FU_AdapterCapabilityLimit = ''adapter_capability_limit''"

section \<open>Bounded text\<close>

datatype RenderLimitExceeded = RenderLimitExceeded

record BoundedText =
  text_value :: bytes
  text_limit :: nat

type_synonym writer = "BoundedText \<Rightarrow> (RenderLimitExceeded, BoundedText) result"

definition BoundedText_new :: "nat \<Rightarrow> BoundedText" where
  "BoundedText_new limit = \<lparr>text_value = [], text_limit = limit\<rparr>"

definition push :: "bytes \<Rightarrow> writer" where
  "push v t =
     rbind (ok_or RenderLimitExceeded (checked_add_u64 (length (text_value t)) (length v))) (\<lambda>new_len.
     if new_len > text_limit t then Inl RenderLimitExceeded
     else Inr (t\<lparr>text_value := text_value t @ v\<rparr>))"

definition push_usize :: "nat \<Rightarrow> writer" where
  "push_usize n = push (decimal n)"

definition push_escaped :: "bytes \<Rightarrow> writer" where
  "push_escaped bytes t =
     rbind (ok_or RenderLimitExceeded (escaped_len bytes)) (\<lambda>encoded_len.
     rbind (ok_or RenderLimitExceeded (checked_add_u64 (length (text_value t)) encoded_len)) (\<lambda>new_len.
     if new_len > text_limit t then Inl RenderLimitExceeded
     else Inr (t\<lparr>text_value := foldl push_escaped_byte (text_value t) bytes\<rparr>)))"

text \<open>A loop that pushes the items of a list with a separator before all but the first.\<close>

definition push_separated :: "bytes list \<Rightarrow> writer" where
  "push_separated items t =
     rfold (\<lambda>t (index, item). rbind (if index \<noteq> 0 then push '','' t else Inr t) (push item)) t (enumerate 0 items)"

fun render_acquisition :: "FetchCompleteness \<Rightarrow> writer" where
  "render_acquisition (FetchComplete proof) t =
     rbind (push ''COMPLETE ('' t) (\<lambda>t. rbind (push (completeness_proof_code proof) t) (push '')''))"
| "render_acquisition (FetchPartial reasons _) t =
     rbind (push ''PARTIAL ('' t) (\<lambda>t.
     rbind (push_separated (map fetch_partial_reason_code (fetch_reasons_iter reasons)) t) (push '')''))"
| "render_acquisition (FetchUnknown reason) t =
     rbind (push ''UNKNOWN ('' t) (\<lambda>t. rbind (push (fetch_unknown_reason_code reason) t) (push '')''))"

subsection \<open>Writers append their text or report that it does not fit\<close>

definition text_ok :: "BoundedText \<Rightarrow> bool" where
  "text_ok t \<longleftrightarrow> length (text_value t) \<le> text_limit t \<and> text_limit t \<le> u64_max"

definition writes :: "writer \<Rightarrow> bytes \<Rightarrow> bool" where
  "writes w s \<longleftrightarrow> (\<forall>t. text_ok t \<longrightarrow>
     w t = (if length (text_value t) + length s \<le> text_limit t then Inr (t\<lparr>text_value := text_value t @ s\<rparr>)
            else Inl RenderLimitExceeded))"

lemma writes_Inr [writes_intro]: "writes Inr []"
  by (simp add: writes_def text_ok_def)

lemma writes_push [writes_intro]: "writes (push v) v"
  by (auto simp: writes_def text_ok_def push_def checked_add_u64_def)

lemma writes_push_usize [writes_intro]: "writes (push_usize n) (decimal n)"
  by (simp add: push_usize_def writes_push)

lemma writes_push_escaped [writes_intro]: "writes (push_escaped bs) (escape_evidence_bytes bs)"
proof -
  have "foldl push_escaped_byte d bs = d @ escape_evidence_bytes bs" for d
    unfolding escape_evidence_bytes_concat
    by (induction bs arbitrary: d) (simp_all add: push_escaped_byte_append)
  then show ?thesis by (auto simp: writes_def text_ok_def push_escaped_def escaped_len_exact checked_add_u64_def)
qed

lemma writes_bind [writes_intro]:
  assumes "writes v a" and "writes w b"
  shows "writes (\<lambda>t. rbind (v t) w) (a @ b)"
  using assms by (auto simp: writes_def text_ok_def)

lemma writes_cond [writes_intro]:
  "(c \<Longrightarrow> writes v a) \<Longrightarrow> (\<not> c \<Longrightarrow> writes w b) \<Longrightarrow> writes (\<lambda>t. if c then v t else w t) (if c then a else b)"
  by (simp add: writes_def)

lemma writes_rfold:
  "(\<And>x. x \<in> set xs \<Longrightarrow> writes (\<lambda>t. f t x) (s x)) \<Longrightarrow> writes (\<lambda>t. rfold f t xs) (concat (map s xs))"
proof (induction xs)
  case Nil
  then show ?case by (simp add: writes_def text_ok_def)
next
  case (Cons x xs)
  have "writes (\<lambda>t. rbind (f t x) (\<lambda>t. rfold f t xs)) (s x @ concat (map s xs))"
    using Cons by (intro writes_bind) simp_all
  then show ?case by simp
qed

lemma writes_new:
  assumes "writes w s" and "limit \<le> u64_max"
  shows "w (BoundedText_new limit) =
    (if length s \<le> limit then Inr \<lparr>text_value = s, text_limit = limit\<rparr> else Inl RenderLimitExceeded)"
  using assms by (simp add: writes_def text_ok_def BoundedText_new_def)

definition joined :: "bytes list \<Rightarrow> bytes" where
  "joined items = concat (map (\<lambda>(index, item). (if index \<noteq> 0 then '','' else []) @ item) (enumerate 0 items))"

lemma writes_push_separated [writes_intro]: "writes (push_separated items) (joined items)"
proof -
  have "writes (\<lambda>t. case x of (index, item) \<Rightarrow> rbind (if index \<noteq> 0 then push '','' t else Inr t) (push item))
      (case x of (index, item) \<Rightarrow> (if index \<noteq> 0 then '','' else []) @ item)" for x :: "nat \<times> bytes"
  proof (cases x)
    case (Pair index item)
    have "writes (\<lambda>t. rbind (if index \<noteq> 0 then push '','' t else Inr t) (push item))
        ((if index \<noteq> 0 then '','' else []) @ item)"
      by (intro writes_intro)
    then show ?thesis by (simp add: Pair)
  qed
  then show ?thesis unfolding joined_def push_separated_def by (rule writes_rfold)
qed

fun acquisition_text :: "FetchCompleteness \<Rightarrow> bytes" where
  "acquisition_text (FetchComplete proof) = ''COMPLETE ('' @ completeness_proof_code proof @ '')''"
| "acquisition_text (FetchPartial reasons _) =
     ''PARTIAL ('' @ joined (map fetch_partial_reason_code (fetch_reasons_iter reasons)) @ '')''"
| "acquisition_text (FetchUnknown reason) = ''UNKNOWN ('' @ fetch_unknown_reason_code reason @ '')''"

lemma writes_render_acquisition [writes_intro]: "writes (render_acquisition c) (acquisition_text c)"
  by (cases c) (simp_all only: render_acquisition.simps [abs_def] acquisition_text.simps, (intro writes_intro)+)

subsection \<open>Lengths\<close>

lemma decimal_nonempty [simp]: "decimal n \<noteq> []"
  by (simp add: decimal.simps)

lemma length_decimal_mono: "m \<le> n \<Longrightarrow> length (decimal m) \<le> length (decimal n)"
proof (induction n arbitrary: m rule: decimal.induct)
  case (1 n)
  show ?case
  proof (cases "m < 10")
    case True
    then have "length (decimal m) = 1" by (simp add: decimal.simps)
    then show ?thesis using decimal_nonempty [of n] by (cases "decimal n") simp_all
  next
    case False
    then have "\<not> n < 10" using "1.prems" by simp
    moreover have "length (decimal (m div 10)) \<le> length (decimal (n div 10))"
      using "1.prems" calculation by (intro "1.IH") (simp_all add: div_le_mono)
    ultimately show ?thesis
      using False by (simp add: decimal.simps [of m] decimal.simps [of n])
  qed
qed

lemma length_joined: "length (joined items) = sum_list (map length items) + (length items - 1)"
proof -
  have "length (concat (map (\<lambda>(index, item). (if index \<noteq> 0 then '','' else []) @ item) (enumerate n items)))
      = sum_list (map length items) + (if n = 0 then length items - 1 else length items)" for n
    by (induction items arbitrary: n) auto
  then show ?thesis by (simp add: joined_def)
qed

end
