(* ===== verification/Evidence_Render.thy ===== *)
theory Evidence_Render
  imports Evidence_Text Presentation Select_Properties
begin

text \<open>
  The grammar of the compiled artifact (\<open>evidentrail-evidence/src/compiled.rs\<close>): header, packets and
  coverage section, each with the text it writes, the length of that text and the fact that it is
  ASCII.
\<close>

section \<open>Renderers\<close>

text \<open>A straight line of calls that each end in \<open>?\<close>.\<close>

definition write_all :: "writer list \<Rightarrow> writer" where
  "write_all ws t = rfold (\<lambda>t w. w t) t ws"

fun constraint_code :: "SelectionConstraintV1 \<Rightarrow> bytes" where
  "constraint_code (MandatoryValidatedIdentifier _) = ''mandatory_validated_identifier''"
| "constraint_code Constraint_DensityGreedy = ''density_greedy''"
| "constraint_code Constraint_BestSingle = ''best_single''"
| "constraint_code Constraint_ExternalOrderBudgetPack = ''external_order_budget_pack''"

definition FACET_KINDS_ALL_V1 :: "ProductionFacetKindV1 list" where
  "FACET_KINDS_ALL_V1 = [ValidatedQueryIdentifier, QueryTerm, FailureRole, OnsetRole, SourceCoverageStratum,
     ServiceCoverageStratum, TimeCoverageStratum, ValidatedTypedChange, ProviderAttestedGraphRelation,
     ReconstructionRiskCoverage]"

definition acknowledged_count :: "AcquisitionReceipt \<Rightarrow> nat" where
  "acknowledged_count receipt = length (receipt_entries receipt)"

definition render_compiled_header_v1 :: "EventLedger \<Rightarrow> ResultId \<Rightarrow> writer" where
  "render_compiled_header_v1 l result = write_all
     [push ''STATUS\<newline>  result: '',
      push (result_canonical_token result),
      push ''\<newline>  untrusted_data: true\<newline>  acquisition: '',
      render_acquisition (completion_completeness (el_completion l)),
      push ''\<newline>  selection: COMPILED\<newline>\<newline>'',
      push ''SCOPE\<newline>  acknowledged_records: '',
      push (decimal (acknowledged_count (el_acquisition_receipt l))),
      push ''\<newline>  persisted_events: '',
      push (decimal (length (el_events l))),
      push ''\<newline>  policy_omitted_records: '',
      push (decimal (omitted_by_policy (receipt_counts (el_acquisition_receipt l)))),
      push ''\<newline>\<newline>EVIDENCE\<newline>'']"

record CompiledEventRenderV1 =
  render_exactness_code :: bytes
  render_stream_code :: bytes
  render_authorized_bytes :: bytes

text \<open>The body of the loop over the events of a packet.\<close>

definition render_compiled_event :: "nat \<Rightarrow> CompiledEventRenderV1 \<Rightarrow> writer" where
  "render_compiled_event event_index e t =
     rbind (ok_or RenderLimitExceeded (checked_add_u64 event_index 1)) (\<lambda>display_event_index.
     write_all
       [push ''    event_'',
        push_usize display_event_index,
        push '':\<newline>      exactness: '',
        push (render_exactness_code e),
        push ''\<newline>      stream: '',
        push (render_stream_code e),
        push ''\<newline>      data_encoding: ascii_byte_escape_v1\<newline>      data: '',
        push_escaped (render_authorized_bytes e),
        push ''\<newline>''] t)"

definition render_compiled_packet_v1 ::
  "nat \<Rightarrow> bytes \<Rightarrow> nat \<Rightarrow> nat \<Rightarrow> bytes list \<Rightarrow> CompiledEventRenderV1 list \<Rightarrow> writer" where
  "render_compiled_packet_v1 ordinal forcing_code marginal_gain_numerator composable_token_upper_bound role_codes events t =
     rbind (ok_or RenderLimitExceeded (checked_add_u64 ordinal 1)) (\<lambda>display_ordinal.
     write_all
       [push ''  [E'',
        push_usize display_ordinal,
        push '']\<newline>    expand: E'',
        push_usize display_ordinal,
        push '' exact\<newline>    forcing: '',
        push forcing_code,
        push ''\<newline>    marginal_gain_numerator: '',
        push (decimal marginal_gain_numerator),
        push ''\<newline>    composable_token_upper_bound: '',
        push (decimal composable_token_upper_bound),
        push ''\<newline>    roles: '',
        push_separated role_codes,
        push ''\<newline>    event_count: '',
        push_usize (length events),
        push ''\<newline>'',
        \<lambda>t. rfold (\<lambda>t (event_index, e). render_compiled_event event_index e t) t (enumerate 0 events)] t)"

definition render_compiled_coverage_v1 :: "EventLedger \<Rightarrow> PresentationCounts \<Rightarrow> writer" where
  "render_compiled_coverage_v1 l counts = write_all
     [push ''\<newline>COVERAGE\<newline>  shown_verbatim: '',
      push (decimal (shown_verbatim counts)),
      push ''\<newline>  pattern_represented: '',
      push (decimal (pattern_represented counts)),
      push ''\<newline>  retained_raw: '',
      push (decimal (retained_raw counts)),
      push ''\<newline>  source_exact_records: '',
      push (decimal (source_exact (receipt_counts (el_acquisition_receipt l)))),
      push ''\<newline>  post_policy_records: '',
      push (decimal (post_policy (receipt_counts (el_acquisition_receipt l)))),
      push ''\<newline>  policy_omitted_records: '',
      push (decimal (omitted_by_policy (receipt_counts (el_acquisition_receipt l)))),
      push ''\<newline>'']"

section \<open>The texts they write\<close>

definition header_text :: "EventLedger \<Rightarrow> ResultId \<Rightarrow> bytes" where
  "header_text l result = concat
     [''STATUS\<newline>  result: '', result_canonical_token result,
      ''\<newline>  untrusted_data: true\<newline>  acquisition: '', acquisition_text (completion_completeness (el_completion l)),
      ''\<newline>  selection: COMPILED\<newline>\<newline>'', ''SCOPE\<newline>  acknowledged_records: '',
      decimal (acknowledged_count (el_acquisition_receipt l)),
      ''\<newline>  persisted_events: '', decimal (length (el_events l)),
      ''\<newline>  policy_omitted_records: '', decimal (omitted_by_policy (receipt_counts (el_acquisition_receipt l))),
      ''\<newline>\<newline>EVIDENCE\<newline>'']"

definition event_text :: "nat \<Rightarrow> CompiledEventRenderV1 \<Rightarrow> bytes" where
  "event_text index e = concat
     [''    event_'', decimal (index + 1), '':\<newline>      exactness: '', render_exactness_code e, ''\<newline>      stream: '',
      render_stream_code e, ''\<newline>      data_encoding: ascii_byte_escape_v1\<newline>      data: '',
      escape_evidence_bytes (render_authorized_bytes e), ''\<newline>'']"

definition events_text :: "CompiledEventRenderV1 list \<Rightarrow> bytes" where
  "events_text events = concat (map (\<lambda>(index, e). event_text index e) (enumerate 0 events))"

definition packet_text :: "nat \<Rightarrow> bytes \<Rightarrow> nat \<Rightarrow> nat \<Rightarrow> bytes list \<Rightarrow> CompiledEventRenderV1 list \<Rightarrow> bytes" where
  "packet_text ordinal forcing gain bound roles events = concat
     [''  [E'', decimal (ordinal + 1), '']\<newline>    expand: E'', decimal (ordinal + 1), '' exact\<newline>    forcing: '', forcing,
      ''\<newline>    marginal_gain_numerator: '', decimal gain, ''\<newline>    composable_token_upper_bound: '', decimal bound,
      ''\<newline>    roles: '', joined roles, ''\<newline>    event_count: '', decimal (length events), ''\<newline>'', events_text events]"

definition coverage_text :: "EventLedger \<Rightarrow> PresentationCounts \<Rightarrow> bytes" where
  "coverage_text l counts = concat
     [''\<newline>COVERAGE\<newline>  shown_verbatim: '', decimal (shown_verbatim counts),
      ''\<newline>  pattern_represented: '', decimal (pattern_represented counts),
      ''\<newline>  retained_raw: '', decimal (retained_raw counts),
      ''\<newline>  source_exact_records: '', decimal (source_exact (receipt_counts (el_acquisition_receipt l))),
      ''\<newline>  post_policy_records: '', decimal (post_policy (receipt_counts (el_acquisition_receipt l))),
      ''\<newline>  policy_omitted_records: '', decimal (omitted_by_policy (receipt_counts (el_acquisition_receipt l))),
      ''\<newline>'']"

lemma writes_write_all: "list_all2 writes ws ss \<Longrightarrow> writes (write_all ws) (concat ss)"
proof (induction rule: list_all2_induct)
  case Nil
  then show ?case by (simp add: write_all_def [abs_def] writes_Inr)
next
  case (Cons w ws s ss)
  then have "writes (\<lambda>t. rbind (w t) (write_all ws)) (s @ concat ss)" by (intro writes_bind)
  then show ?case by (simp add: write_all_def [abs_def])
qed

lemma writes_header [writes_intro]: "writes (render_compiled_header_v1 l result) (header_text l result)"
  unfolding render_compiled_header_v1_def header_text_def
  by (rule writes_write_all) (simp add: writes_intro)

lemma writes_coverage [writes_intro]: "writes (render_compiled_coverage_v1 l counts) (coverage_text l counts)"
  unfolding render_compiled_coverage_v1_def coverage_text_def
  by (rule writes_write_all) (simp add: writes_intro)

lemma checked_increment: "n < u64_max \<Longrightarrow> ok_or e (checked_add_u64 n 1) = Inr (n + 1)"
  by (simp add: checked_add_u64_fits)

lemma writes_event: "index < u64_max \<Longrightarrow> writes (render_compiled_event index e) (event_text index e)"
  unfolding render_compiled_event_def [abs_def] event_text_def
  by (simp only: checked_increment rbind_simps) (rule writes_write_all, simp add: writes_intro)

lemma writes_events:
  assumes "length events \<le> u64_max"
  shows "writes (\<lambda>t. rfold (\<lambda>t (index, e). render_compiled_event index e t) t (enumerate 0 events)) (events_text events)"
  unfolding events_text_def
proof (rule writes_rfold)
  fix x assume x: "x \<in> set (enumerate 0 events)"
  then have "fst x < length events" by (auto simp: in_set_enumerate_eq)
  then show "writes (\<lambda>t. case x of (index, e) \<Rightarrow> render_compiled_event index e t) (case x of (index, e) \<Rightarrow> event_text index e)"
    using assms writes_event by (cases x) simp
qed

lemma writes_packet:
  assumes "ordinal < u64_max" and "length events \<le> u64_max"
  shows "writes (render_compiled_packet_v1 ordinal forcing gain bound roles events)
    (packet_text ordinal forcing gain bound roles events)"
  unfolding render_compiled_packet_v1_def [abs_def] packet_text_def checked_increment [OF assms(1)] rbind_simps
  by (rule writes_write_all) (simp add: writes_intro writes_events [OF assms(2)])

subsection \<open>Lengths\<close>

lemma length_concat_mono: "list_all2 (\<lambda>a b. length a \<le> length b) xs ys \<Longrightarrow> length (concat xs) \<le> length (concat ys)"
  by (induction rule: list_all2_induct) simp_all

lemma facet_kinds_all: "distinct FACET_KINDS_ALL_V1" "set FACET_KINDS_ALL_V1 = UNIV"
proof -
  show "distinct FACET_KINDS_ALL_V1" by (simp add: FACET_KINDS_ALL_V1_def)
  have "kind \<in> set FACET_KINDS_ALL_V1" for kind by (cases kind) (simp_all add: FACET_KINDS_ALL_V1_def)
  then show "set FACET_KINDS_ALL_V1 = UNIV" by blast
qed

lemma length_roles:
  assumes "distinct kinds"
  shows "length (joined (map facet_kind_code kinds)) \<le> length (joined (map facet_kind_code FACET_KINDS_ALL_V1))"
proof -
  have sub: "set kinds \<subseteq> set FACET_KINDS_ALL_V1" using facet_kinds_all(2) by simp
  have "card (set kinds) \<le> card (set FACET_KINDS_ALL_V1)" by (rule card_mono [OF finite_set sub])
  then have len: "length kinds \<le> length FACET_KINDS_ALL_V1"
    using assms facet_kinds_all(1) by (simp only: distinct_card)
  have "(\<Sum>kind \<leftarrow> kinds. length (facet_kind_code kind)) = (\<Sum>kind \<in> set kinds. length (facet_kind_code kind))"
    using assms by (simp add: sum_list_distinct_conv_sum_set)
  also have "\<dots> \<le> (\<Sum>kind \<in> set FACET_KINDS_ALL_V1. length (facet_kind_code kind))"
    by (rule sum_mono2 [OF finite_set sub]) simp
  also have "\<dots> = (\<Sum>kind \<leftarrow> FACET_KINDS_ALL_V1. length (facet_kind_code kind))"
    using facet_kinds_all(1) by (simp add: sum_list_distinct_conv_sum_set)
  finally show ?thesis using len by (simp add: length_joined comp_def)
qed

lemma length_packet_text_mono:
  assumes "ordinal \<le> ordinal'" and "length forcing \<le> length forcing'" and "gain \<le> gain'" and "bound \<le> bound'"
    and "length (joined roles) \<le> length (joined roles')"
  shows "length (packet_text ordinal forcing gain bound roles events) \<le> length (packet_text ordinal' forcing' gain' bound' roles' events)"
  unfolding packet_text_def by (rule length_concat_mono) (use assms in \<open>simp add: length_decimal_mono\<close>)

lemma length_coverage_text_mono:
  assumes "shown_verbatim counts \<le> shown_verbatim counts'" and "pattern_represented counts \<le> pattern_represented counts'"
    and "retained_raw counts \<le> retained_raw counts'"
  shows "length (coverage_text l counts) \<le> length (coverage_text l counts')"
  unfolding coverage_text_def by (rule length_concat_mono) (use assms in \<open>simp add: length_decimal_mono\<close>)

lemma length_constraint_code: "length (constraint_code c) \<le> length ''mandatory_validated_identifier''"
  by (cases c) simp_all

subsection \<open>Everything is ASCII\<close>

definition is_ascii :: "bytes \<Rightarrow> bool" where
  "is_ascii s \<longleftrightarrow> list_all (\<lambda>byte. byte < CHR 0x80) s"

lemma is_ascii_simps [simp]:
  "is_ascii []" "is_ascii (c # s) \<longleftrightarrow> c < CHR 0x80 \<and> is_ascii s" "is_ascii (s @ s') \<longleftrightarrow> is_ascii s \<and> is_ascii s'"
  "is_ascii (concat ss) \<longleftrightarrow> (\<forall>s \<in> set ss. is_ascii s)"
  by (auto simp: is_ascii_def list_all_iff)

lemma printable_ascii: "is_printable c \<Longrightarrow> c < CHR 0x80"
  by (simp add: is_printable_def less_eq_char_def less_char_def)

lemma escape_ascii [simp]: "is_ascii (escape_evidence_bytes bs)"
  using escape_printable printable_ascii by (auto simp: is_ascii_def list_all_iff)

lemma hex_digit_ascii: "n < 16 \<Longrightarrow> hex_digit n < CHR 0x80"
proof -
  have "\<forall>n \<in> set [0 ..< 16]. hex_digit n < CHR 0x80" by code_simp
  then show "n < 16 \<Longrightarrow> ?thesis" by simp
qed

lemma canonical_token_ascii: "is_ascii p \<Longrightarrow> is_ascii (canonical_token p bs)"
  unfolding canonical_token_def
  by (induction bs arbitrary: p) (simp_all add: hex_digit_ascii byte_nibbles)

lemma decimal_ascii [simp]: "is_ascii (decimal n)"
proof (induction n rule: decimal.induct)
  case (1 n)
  have "char_of (48 + k) < CHR 0x80" if "k < 10" for k :: nat
    using that by (simp add: less_char_def of_char_of)
  then show ?case using 1 by (subst decimal.simps) simp
qed

lemma joined_ascii: "(\<forall>s \<in> set ss. is_ascii s) \<Longrightarrow> is_ascii (joined ss)"
  unfolding joined_def
  by (auto simp: less_char_def in_set_enumerate_eq dest: nth_mem split: if_split_asm)

lemma codes_ascii [simp]:
  "is_ascii (completeness_proof_code p)" "is_ascii (fetch_partial_reason_code r)" "is_ascii (fetch_unknown_reason_code u)"
  "is_ascii (exactness_code b)" "is_ascii (stream_code s)" "is_ascii (constraint_code c)" "is_ascii (facet_kind_code k)"
        apply (cases p; simp add: less_char_def)
       apply (cases r; simp add: less_char_def)
      apply (cases u; simp add: less_char_def)
     apply (cases b; simp add: less_char_def)
    apply (cases s; simp add: less_char_def)
   apply (cases c; simp add: less_char_def)
  apply (cases k; simp add: less_char_def)
  done

lemma acquisition_text_ascii: "is_ascii (acquisition_text c)"
  by (cases c) (auto simp: less_char_def intro!: joined_ascii)

lemma header_text_ascii: "is_ascii (header_text l result)"
  by (simp add: header_text_def less_char_def acquisition_text_ascii result_canonical_token_def canonical_token_ascii)

lemma coverage_text_ascii: "is_ascii (coverage_text l counts)"
  by (simp add: coverage_text_def less_char_def)

lemma packet_text_ascii:
  assumes "is_ascii forcing" and "\<forall>r \<in> set roles. is_ascii r"
    and "\<forall>e \<in> set events. is_ascii (render_exactness_code e) \<and> is_ascii (render_stream_code e)"
  shows "is_ascii (packet_text ordinal forcing gain bound roles events)"
proof -
  have "is_ascii (event_text index e)" if "e \<in> set events" for index e
    using that assms(3) by (simp add: event_text_def less_char_def)
  then have "is_ascii (events_text events)"
    by (auto simp: events_text_def in_set_enumerate_eq dest: nth_mem)
  then show ?thesis using assms(1,2) by (simp add: packet_text_def less_char_def joined_ascii)
qed

end
