(* ===== verification/Evidence_Cost.thy ===== *)
theory Evidence_Cost
  imports Evidence_Render
begin

text \<open>
  Cost certification of the compiled artifact (\<open>evidentrail-evidence/src/compiled_cost.rs\<close>): the byte
  tokenizer, packet memberships, the additive certificate and its check against a selection.
\<close>

section \<open>Tokenizers\<close>

datatype TokenizerFailure = TokenizerFailure

text \<open>The trait \<open>PinnedTokenizer\<close>: an artifact digest and a count for a complete render.\<close>

record PinnedTokenizer =
  tokenizer_digest :: bytes
  count_tokens :: "bytes \<Rightarrow> (TokenizerFailure, nat) result"

record Utf8ByteTokenizerV1 =
  whole_render_calls :: nat

definition Utf8ByteTokenizerV1_new :: Utf8ByteTokenizerV1 where
  "Utf8ByteTokenizerV1_new = \<lparr>whole_render_calls = 0\<rparr>"

definition UTF8_BYTE_TOKENIZER_MANIFEST_V1 :: bytes where
  "UTF8_BYTE_TOKENIZER_MANIFEST_V1 = ''evidentrail-evidence/tokenizer/utf8-byte/v1'' @ [CHR 0x00]
     @ ''token-unit=one-utf8-encoded-byte'' @ [CHR 0x00] @ ''whole-render-only=true''"

definition ASCII_RENDER_TOKEN_BOUND_MANIFEST_V1 :: bytes where
  "ASCII_RENDER_TOKEN_BOUND_MANIFEST_V1 = ''evidentrail-evidence/token-bound/ascii-render-bytes/v1'' @ [CHR 0x00]
     @ ''precondition=render-is-ascii'' @ [CHR 0x00] @ ''claim=whole-render-token-count-le-rendered-byte-count''
     @ [CHR 0x00] @ ''fragment-additivity=not-claimed''"

definition COMPILED_ASCII_BOUND_COST_MODEL_DOMAIN_V1 :: bytes where
  "COMPILED_ASCII_BOUND_COST_MODEL_DOMAIN_V1 = ''evidentrail/evidence/compiled-ascii-byte-bound-cost-model/v1'' @ [CHR 0x00]"

definition MAX_FORCING_CODE_V1 :: bytes where
  "MAX_FORCING_CODE_V1 = ''mandatory_validated_identifier''"

definition COMPILED_RENDERER_MANIFEST_V1 :: bytes where
  "COMPILED_RENDERER_MANIFEST_V1 = ''evidentrail-evidence/compiled-text-renderer/v2'' @ [CHR 0x00]
     @ ''sections=status,scope,evidence,coverage'' @ [CHR 0x00] @ ''packet-citations=result-scoped-ordinal-alias-v1''
     @ [CHR 0x00] @ ''packet-members=intact-ledger-order'' @ [CHR 0x00]
     @ ''packet-order=diagnostic-then-reconstruction-then-breadth-v1'' @ [CHR 0x00]
     @ ''packet-roles=canonical-closed-facet-kind-codes-v1'' @ [CHR 0x00]
     @ ''marginal-gain=presentation-order-consistent'' @ [CHR 0x00] @ ''evidence-bytes=ascii-byte-escape-v1'' @ [CHR 0x00]
     @ ''structured-ids=full-canonical'' @ [CHR 0x00] @ ''newlines=lf'' @ [CHR 0x00] @ ''model-authored-text=none''"

definition utf8_byte_tokenizer_digest_v1 :: "(bytes \<Rightarrow> bytes) \<Rightarrow> bytes" where
  "utf8_byte_tokenizer_digest_v1 sha256 = sha256 UTF8_BYTE_TOKENIZER_MANIFEST_V1"

definition compiled_renderer_digest_v1 :: "(bytes \<Rightarrow> bytes) \<Rightarrow> bytes" where
  "compiled_renderer_digest_v1 sha256 = sha256 COMPILED_RENDERER_MANIFEST_V1"

text \<open>Counting advances the call counter, and fails only when the counter is exhausted.\<close>

definition utf8_count_tokens ::
  "Utf8ByteTokenizerV1 \<Rightarrow> bytes \<Rightarrow> (TokenizerFailure, nat) result \<times> Utf8ByteTokenizerV1" where
  "utf8_count_tokens tokenizer complete_render =
     (case checked_add_u64 (whole_render_calls tokenizer) 1 of
        None \<Rightarrow> (Inl TokenizerFailure, tokenizer)
      | Some calls \<Rightarrow> (ok_or TokenizerFailure (u64_try_from (length complete_render)), \<lparr>whole_render_calls = calls\<rparr>))"

text \<open>The tokenizer seen through the trait, at its current counter.\<close>

definition utf8_tokenizer :: "(bytes \<Rightarrow> bytes) \<Rightarrow> Utf8ByteTokenizerV1 \<Rightarrow> PinnedTokenizer" where
  "utf8_tokenizer sha256 tokenizer = \<lparr>tokenizer_digest = utf8_byte_tokenizer_digest_v1 sha256,
     count_tokens = (\<lambda>text. fst (utf8_count_tokens tokenizer text))\<rparr>"

record AsciiRenderTokenBoundContractV1 =
  contract_tokenizer_digest :: bytes
  contract_digest :: bytes

definition canonical_ascii_render_bound_contract_v1 :: "(bytes \<Rightarrow> bytes) \<Rightarrow> AsciiRenderTokenBoundContractV1" where
  "canonical_ascii_render_bound_contract_v1 sha256 =
     \<lparr>contract_tokenizer_digest = utf8_byte_tokenizer_digest_v1 sha256,
      contract_digest = sha256 ASCII_RENDER_TOKEN_BOUND_MANIFEST_V1\<rparr>"

definition compiled_ascii_bound_cost_model_v1 :: "(bytes \<Rightarrow> bytes) \<Rightarrow> AsciiRenderTokenBoundContractV1 \<Rightarrow> ComposableCostModelV1" where
  "compiled_ascii_bound_cost_model_v1 sha256 contract =
     (let hasher = COMPILED_ASCII_BOUND_COST_MODEL_DOMAIN_V1;
          hasher = update_field hasher (compiled_renderer_digest_v1 sha256);
          hasher = update_field hasher (contract_tokenizer_digest contract);
          hasher = update_field hasher (contract_digest contract)
      in sha256 hasher)"

section \<open>Certification\<close>

datatype CompiledCostCertificationError =
    EmptyPacketSet | TooManyPackets | EmptyPacketMembership | Cost_TooManyPacketEvents | DuplicateEventInPacket
  | Cost_DuplicatePacketId | UnknownPacketId | Cost_UnknownEvent | OverlappingEvent | PacketMembershipMismatch
  | PacketCostMismatch | FixedOverheadMismatch | LedgerBindingMismatch | ResultBindingMismatch
  | UnsupportedTokenizerBound | FixedRenderLimitExceeded | PacketRenderLimitExceeded | NonAsciiRendererInvariant
  | Cost_ArithmeticOverflow | CostOutOfRange

record CompiledPacketMembershipV1 =
  membership_packet_id :: PacketIdV1
  membership_event_ids :: "EventId list"

definition CompiledPacketMembershipV1_new ::
  "PacketIdV1 \<Rightarrow> EventId list \<Rightarrow> (CompiledCostCertificationError, CompiledPacketMembershipV1) result" where
  "CompiledPacketMembershipV1_new pid eids =
     (if eids = [] then Inl EmptyPacketMembership
      else if length eids > MAX_PACKET_EVENTS_V1 then Inl Cost_TooManyPacketEvents
      else let eids = sort eids in
      if has_adjacent_dup (\<lambda>e. e) eids then Inl DuplicateEventInPacket
      else Inr \<lparr>membership_packet_id = pid, membership_event_ids = eids\<rparr>)"

record CompiledPacketCostBoundV1 =
  bound_packet_id :: PacketIdV1
  bound_event_ids :: "EventId list"
  bound_cost :: ComposablePacketCostV1

record CompiledCostCertificationV1 =
  cert_acquisition_receipt_id :: AcquisitionReceiptId
  cert_plan_digest :: PlanDigest
  cert_result_id :: ResultId
  cert_tokenizer_bound :: AsciiRenderTokenBoundContractV1
  cert_cost_model :: ComposableCostModelV1
  cert_fixed_overhead :: ReservedFixedOverheadV1
  cert_packet_bounds :: "CompiledPacketCostBoundV1 list"
  cert_universe_upper_bound :: nat

definition certified_packet_cost ::
  "CompiledCostCertificationV1 \<Rightarrow> PacketIdV1 \<Rightarrow> EventId list \<Rightarrow>
   (CompiledCostCertificationError, ComposablePacketCostV1) result" where
  "certified_packet_cost cert pid exact_event_ids =
     rbind (ok_or UnknownPacketId
         (map_option (\<lambda>index. cert_packet_bounds cert ! index)
           (binary_search_by_key bound_packet_id (cert_packet_bounds cert) pid))) (\<lambda>entry.
     if bound_event_ids entry \<noteq> exact_event_ids then Inl PacketMembershipMismatch
     else Inr (bound_cost entry))"

definition validate_supported_tokenizer ::
  "(bytes \<Rightarrow> bytes) \<Rightarrow> Utf8ByteTokenizerV1 \<Rightarrow> AsciiRenderTokenBoundContractV1 \<Rightarrow> (CompiledCostCertificationError, unit) result" where
  "validate_supported_tokenizer sha256 tokenizer tokenizer_bound =
     (let expected = canonical_ascii_render_bound_contract_v1 sha256 in
      if tokenizer_bound \<noteq> expected
        \<or> tokenizer_digest (utf8_tokenizer sha256 tokenizer) \<noteq> contract_tokenizer_digest expected
      then Inl UnsupportedTokenizerBound else Inr ())"

definition verify_selected_step ::
  "CompiledCostCertificationV1 \<Rightarrow> PacketIdV1 set \<Rightarrow> SelectedPacketV1 \<Rightarrow> (CompiledCostCertificationError, PacketIdV1 set) result" where
  "verify_selected_step cert selected_packet_ids selected =
     (let packet = selected_packet selected in
      if packet_id packet \<in> selected_packet_ids then Inl Cost_DuplicatePacketId
      else rbind (certified_packet_cost cert (packet_id packet) (event_ids packet)) (\<lambda>expected.
      if packet_cost packet \<noteq> expected then Inl PacketCostMismatch
      else Inr (insert (packet_id packet) selected_packet_ids)))"

definition verify_selection ::
  "(bytes \<Rightarrow> bytes) \<Rightarrow> CompiledCostCertificationV1 \<Rightarrow> EventLedger \<Rightarrow> ResultId \<Rightarrow> SelectionV1 \<Rightarrow> Utf8ByteTokenizerV1 \<Rightarrow>
   (CompiledCostCertificationError, unit) result" where
  "verify_selection sha256 cert l result selection tokenizer =
     rbind (validate_supported_tokenizer sha256 tokenizer (cert_tokenizer_bound cert)) (\<lambda>_.
     if el_acquisition_receipt_id l \<noteq> cert_acquisition_receipt_id cert \<or> el_plan_digest l \<noteq> cert_plan_digest cert
     then Inl LedgerBindingMismatch
     else if result \<noteq> cert_result_id cert then Inl ResultBindingMismatch
     else if sel_overhead selection \<noteq> cert_fixed_overhead cert then Inl FixedOverheadMismatch
     else rbind (rfold (verify_selected_step cert) {} (sel_packets selection)) (\<lambda>_. Inr ()))"

definition fixed_render_bound ::
  "EventLedger \<Rightarrow> ResultId \<Rightarrow> ComposableCostModelV1 \<Rightarrow> (CompiledCostCertificationError, ReservedFixedOverheadV1) result" where
  "fixed_render_bound l result model =
     (let text = BoundedText_new MAX_WIRE_OBJECT_BYTES in
      rbind (map_err (\<lambda>_. FixedRenderLimitExceeded) (render_compiled_header_v1 l result text)) (\<lambda>text.
      rbind (map_err (\<lambda>_. FixedRenderLimitExceeded) (render_compiled_coverage_v1 l
          \<lparr>shown_verbatim = length (el_events l), pattern_represented = 0, retained_raw = length (el_events l)\<rparr> text)) (\<lambda>text.
      let text = text_value text in
      if \<not> is_ascii text then Inl NonAsciiRendererInvariant
      else rbind (ok_or Cost_ArithmeticOverflow (u64_try_from (length text))) (\<lambda>bytes.
      map_err (\<lambda>_. CostOutOfRange) (ReservedFixedOverheadV1_new model bytes)))))"

text \<open>The events of the ledger that a set of identities names, in ledger order, as they are rendered.\<close>

definition event_render :: "Event \<Rightarrow> CompiledEventRenderV1" where
  "event_render e = \<lparr>render_exactness_code = exactness_code (ev_exactness_basis e),
     render_stream_code = stream_code (snd (ev_lane e)), render_authorized_bytes = ev_raw e\<rparr>"

definition members_in_ledger_order :: "EventLedger \<Rightarrow> EventId list \<Rightarrow> Event list" where
  "members_in_ledger_order l eids = filter (\<lambda>e. ev_id e \<in> set eids) (el_events l)"

definition packet_render_bound ::
  "EventLedger \<Rightarrow> CompiledPacketMembershipV1 \<Rightarrow> ComposableCostModelV1 \<Rightarrow>
   (CompiledCostCertificationError, ComposablePacketCostV1) result" where
  "packet_render_bound l membership model =
     (let events = map event_render (members_in_ledger_order l (membership_event_ids membership)) in
      if length events \<noteq> length (membership_event_ids membership) then Inl Cost_UnknownEvent
      else let maximum_selected_ordinal = MAX_LOG_BRIEF_EVIDENCE_PACKETS - 1;
               maximum_role_codes = map facet_kind_code FACET_KINDS_ALL_V1;
               text = BoundedText_new MAX_WIRE_OBJECT_BYTES in
      rbind (map_err (\<lambda>_. PacketRenderLimitExceeded)
          (render_compiled_packet_v1 maximum_selected_ordinal MAX_FORCING_CODE_V1 u64_max u64_max maximum_role_codes events text)) (\<lambda>text.
      let text = text_value text in
      if \<not> is_ascii text then Inl NonAsciiRendererInvariant
      else rbind (ok_or Cost_ArithmeticOverflow (u64_try_from (length text))) (\<lambda>bytes.
      map_err (\<lambda>_. CostOutOfRange) (ComposablePacketCostV1_new model bytes))))"

definition membership_event_step ::
  "EventLedger \<Rightarrow> EventId set \<Rightarrow> EventId \<Rightarrow> (CompiledCostCertificationError, EventId set) result" where
  "membership_event_step l selected_events eid =
     (if \<not> contains l eid then Inl Cost_UnknownEvent
      else if eid \<in> selected_events then Inl OverlappingEvent
      else Inr (insert eid selected_events))"

definition membership_step ::
  "EventLedger \<Rightarrow> PacketIdV1 set \<times> EventId set \<Rightarrow> CompiledPacketMembershipV1 \<Rightarrow>
   (CompiledCostCertificationError, PacketIdV1 set \<times> EventId set) result" where
  "membership_step l state membership =
     (case state of (packet_ids, selected_events) \<Rightarrow>
       if membership_packet_id membership \<in> packet_ids then Inl Cost_DuplicatePacketId
       else rbind (rfold (membership_event_step l) selected_events (membership_event_ids membership)) (\<lambda>selected_events.
         Inr (insert (membership_packet_id membership) packet_ids, selected_events)))"

definition bound_step ::
  "EventLedger \<Rightarrow> ComposableCostModelV1 \<Rightarrow> nat \<times> CompiledPacketCostBoundV1 list \<Rightarrow> CompiledPacketMembershipV1 \<Rightarrow>
   (CompiledCostCertificationError, nat \<times> CompiledPacketCostBoundV1 list) result" where
  "bound_step l model state membership =
     (case state of (universe_upper_bound, packet_bounds) \<Rightarrow>
       rbind (packet_render_bound l membership model) (\<lambda>cost.
       rbind (ok_or Cost_ArithmeticOverflow (checked_add_u64 universe_upper_bound (upper_bound_tokens cost))) (\<lambda>universe_upper_bound.
       if universe_upper_bound > JSON_SAFE_INTEGER_MAX then Inl CostOutOfRange
       else Inr (universe_upper_bound, packet_bounds @
         [\<lparr>bound_packet_id = membership_packet_id membership, bound_event_ids = membership_event_ids membership,
           bound_cost = cost\<rparr>]))))"

definition certify_compiled_costs_with_contract_v1 ::
  "(bytes \<Rightarrow> bytes) \<Rightarrow> EventLedger \<Rightarrow> ResultId \<Rightarrow> CompiledPacketMembershipV1 list \<Rightarrow> Utf8ByteTokenizerV1 \<Rightarrow>
   AsciiRenderTokenBoundContractV1 \<Rightarrow> (CompiledCostCertificationError, CompiledCostCertificationV1) result" where
  "certify_compiled_costs_with_contract_v1 sha256 l result memberships tokenizer tokenizer_bound =
     rbind (validate_supported_tokenizer sha256 tokenizer tokenizer_bound) (\<lambda>_.
     if memberships = [] then Inl EmptyPacketSet
     else if length memberships > MAX_SELECTION_PACKETS_V1 then Inl TooManyPackets
     else rbind (rfold (membership_step l) ({}, {}) memberships) (\<lambda>_.
     let model = compiled_ascii_bound_cost_model_v1 sha256 tokenizer_bound in
     rbind (fixed_render_bound l result model) (\<lambda>fixed_overhead.
     rbind (rfold (bound_step l model) (overhead_tokens fixed_overhead, []) memberships) (\<lambda>(universe_upper_bound, packet_bounds).
     Inr \<lparr>cert_acquisition_receipt_id = el_acquisition_receipt_id l, cert_plan_digest = el_plan_digest l,
          cert_result_id = result, cert_tokenizer_bound = tokenizer_bound, cert_cost_model = model,
          cert_fixed_overhead = fixed_overhead, cert_packet_bounds = sort_key bound_packet_id packet_bounds,
          cert_universe_upper_bound = universe_upper_bound\<rparr>))))"

definition certify_compiled_costs_v1 ::
  "(bytes \<Rightarrow> bytes) \<Rightarrow> EventLedger \<Rightarrow> ResultId \<Rightarrow> CompiledPacketMembershipV1 list \<Rightarrow> Utf8ByteTokenizerV1 \<Rightarrow>
   (CompiledCostCertificationError, CompiledCostCertificationV1) result" where
  "certify_compiled_costs_v1 sha256 l result memberships tokenizer =
     certify_compiled_costs_with_contract_v1 sha256 l result memberships tokenizer
       (canonical_ascii_render_bound_contract_v1 sha256)"

section \<open>What a certificate states\<close>

text \<open>The reserved overhead and the bound of a packet, as lengths of rendered texts.\<close>

definition fixed_bound :: "EventLedger \<Rightarrow> ResultId \<Rightarrow> nat" where
  "fixed_bound l result = length (header_text l result) + length (coverage_text l
     \<lparr>shown_verbatim = length (el_events l), pattern_represented = 0, retained_raw = length (el_events l)\<rparr>)"

definition packet_bound :: "EventLedger \<Rightarrow> EventId list \<Rightarrow> nat" where
  "packet_bound l eids = length (packet_text (MAX_LOG_BRIEF_EVIDENCE_PACKETS - 1) MAX_FORCING_CODE_V1 u64_max u64_max
     (map facet_kind_code FACET_KINDS_ALL_V1) (map event_render (members_in_ledger_order l eids)))"

lemma map_err_rbind: "rbind (map_err f (w t)) (\<lambda>t. rbind (map_err f (v t)) k) = rbind (map_err f (rbind (w t) v)) k"
  by (cases "w t") simp_all

lemma wire_limit_u64: "MAX_WIRE_OBJECT_BYTES \<le> u64_max"
  by (simp add: MAX_WIRE_OBJECT_BYTES_def)

lemma u64_try_from_wire: "n \<le> MAX_WIRE_OBJECT_BYTES \<Longrightarrow> u64_try_from n = Some n"
  by (simp add: u64_try_from_def MAX_WIRE_OBJECT_BYTES_def)

lemma wire_limit_json: "n \<le> MAX_WIRE_OBJECT_BYTES \<Longrightarrow> \<not> JSON_SAFE_INTEGER_MAX < n"
  by (simp add: MAX_WIRE_OBJECT_BYTES_def JSON_SAFE_INTEGER_MAX_def)

lemma fixed_render_bound_value:
  "fixed_render_bound l result model =
     (if fixed_bound l result \<le> MAX_WIRE_OBJECT_BYTES
      then Inr \<lparr>overhead_cost_model = model, overhead_tokens = fixed_bound l result\<rparr> else Inl FixedRenderLimitExceeded)"
proof -
  let ?counts = "\<lparr>shown_verbatim = length (el_events l), pattern_represented = 0, retained_raw = length (el_events l)\<rparr>"
  have "writes (\<lambda>t. rbind (render_compiled_header_v1 l result t) (render_compiled_coverage_v1 l ?counts))
      (header_text l result @ coverage_text l ?counts)"
    by (intro writes_intro)
  from writes_new [OF this wire_limit_u64] show ?thesis
    unfolding fixed_render_bound_def map_err_rbind Let_def
    by (cases "fixed_bound l result \<le> MAX_WIRE_OBJECT_BYTES")
      (simp_all add: fixed_bound_def header_text_ascii coverage_text_ascii u64_try_from_wire wire_limit_json
        ReservedFixedOverheadV1_new_def)
qed

lemma event_renders_ascii:
  "\<forall>e \<in> set (map event_render es). is_ascii (render_exactness_code e) \<and> is_ascii (render_stream_code e)"
  by (simp add: event_render_def)

lemma packet_render_bound_value:
  assumes "ledger_ok l"
  shows "packet_render_bound l m model =
     (if length (members_in_ledger_order l (membership_event_ids m)) \<noteq> length (membership_event_ids m) then Inl Cost_UnknownEvent
      else if packet_bound l (membership_event_ids m) \<le> MAX_WIRE_OBJECT_BYTES
      then Inr \<lparr>cost_model = model, upper_bound_tokens = packet_bound l (membership_event_ids m)\<rparr>
      else Inl PacketRenderLimitExceeded)"
proof -
  let ?events = "map event_render (members_in_ledger_order l (membership_event_ids m))"
  let ?text = "packet_text (MAX_LOG_BRIEF_EVIDENCE_PACKETS - 1) MAX_FORCING_CODE_V1 u64_max u64_max
      (map facet_kind_code FACET_KINDS_ALL_V1) ?events"
  have "length (members_in_ledger_order l (membership_event_ids m)) \<le> u64_max"
    using assms by (simp add: members_in_ledger_order_def ledger_ok_def le_trans [OF length_filter_le])
  then have "writes (render_compiled_packet_v1 (MAX_LOG_BRIEF_EVIDENCE_PACKETS - 1) MAX_FORCING_CODE_V1 u64_max u64_max
      (map facet_kind_code FACET_KINDS_ALL_V1) ?events) ?text"
    by (intro writes_packet) (simp_all add: MAX_LOG_BRIEF_EVIDENCE_PACKETS_def)
  note written = writes_new [OF this wire_limit_u64]
  have ascii: "is_ascii ?text"
    by (intro packet_text_ascii event_renders_ascii) (simp_all add: MAX_FORCING_CODE_V1_def less_char_def)
  have pos: "?text \<noteq> []" by (simp add: packet_text_def)
  show ?thesis
    using pos ascii unfolding packet_render_bound_def Let_def written packet_bound_def
    by (cases "length ?text \<le> MAX_WIRE_OBJECT_BYTES")
      (simp_all add: u64_try_from_wire wire_limit_json ComposablePacketCostV1_new_def)
qed

text \<open>Memberships that certification accepts: distinct packets whose events are disjoint and in the ledger.\<close>

definition memberships_ok :: "EventLedger \<Rightarrow> CompiledPacketMembershipV1 list \<Rightarrow> bool" where
  "memberships_ok l ms \<longleftrightarrow> distinct (map membership_packet_id ms) \<and> distinct (concat (map membership_event_ids ms))
     \<and> set (concat (map membership_event_ids ms)) \<subseteq> ev_id ` set (el_events l)"

lemma membership_event_loop:
  "rfold (membership_event_step l) S es = Inr S' \<longleftrightarrow>
     distinct es \<and> set es \<inter> S = {} \<and> (\<forall>e \<in> set es. contains l e) \<and> S' = S \<union> set es"
  by (induction es arbitrary: S) (auto simp: membership_event_step_def result_simps)

lemma membership_step_pair:
  "membership_step l (P, S) m = (if membership_packet_id m \<in> P then Inl Cost_DuplicatePacketId
     else rbind (rfold (membership_event_step l) S (membership_event_ids m)) (\<lambda>S. Inr (insert (membership_packet_id m) P, S)))"
  by (simp add: membership_step_def)

lemma disjoint_step:
  "(p \<notin> P \<and> a \<and> I \<inter> S = {} \<and> (\<forall>e \<in> I. c e) \<and> b \<and> Q \<inter> insert p P = {} \<and> d \<and> E \<inter> (S \<union> I) = {} \<and> (\<forall>e \<in> E. c e)) \<longleftrightarrow>
   ((p \<notin> Q \<and> b) \<and> insert p Q \<inter> P = {} \<and> (a \<and> d \<and> I \<inter> E = {}) \<and> (I \<union> E) \<inter> S = {} \<and> (\<forall>e \<in> I \<union> E. c e))"
  by blast

lemma membership_loop:
  "(\<exists>st. rfold (membership_step l) (P, S) ms = Inr st) \<longleftrightarrow>
     distinct (map membership_packet_id ms) \<and> membership_packet_id ` set ms \<inter> P = {}
     \<and> distinct (concat (map membership_event_ids ms)) \<and> set (concat (map membership_event_ids ms)) \<inter> S = {}
     \<and> (\<forall>e \<in> set (concat (map membership_event_ids ms)). contains l e)"
proof (induction ms arbitrary: P S)
  case (Cons m ms)
  have "(\<exists>st. rfold (membership_step l) (P, S) (m # ms) = Inr st) \<longleftrightarrow>
      membership_packet_id m \<notin> P \<and> distinct (membership_event_ids m) \<and> set (membership_event_ids m) \<inter> S = {}
      \<and> (\<forall>e \<in> set (membership_event_ids m). contains l e)
      \<and> (\<exists>st. rfold (membership_step l) (insert (membership_packet_id m) P, S \<union> set (membership_event_ids m)) ms = Inr st)"
  proof (cases "rfold (membership_event_step l) S (membership_event_ids m)")
    case (Inl e)
    then have "\<not> (distinct (membership_event_ids m) \<and> set (membership_event_ids m) \<inter> S = {} \<and> (\<forall>e \<in> set (membership_event_ids m). contains l e))"
      using membership_event_loop [of l S "membership_event_ids m" "S \<union> set (membership_event_ids m)"] by auto
    then show ?thesis using Inl by (simp add: membership_step_pair)
  next
    case (Inr S')
    then show ?thesis
      using membership_event_loop [of l S "membership_event_ids m" S'] by (simp add: membership_step_pair)
  qed
  then show ?case
    unfolding Cons.IH list.map concat.simps distinct_append set_append distinct.simps list.set image_insert set_map
    by (simp only: disjoint_step)
qed simp

lemma membership_loop_ok:
  assumes "ledger_ok l"
  shows "(\<exists>st. rfold (membership_step l) ({}, {}) ms = Inr st) \<longleftrightarrow> memberships_ok l ms"
  unfolding membership_loop memberships_ok_def using ledger_contains [OF assms] by auto

lemma members_length:
  assumes "ledger_ok l" and "distinct eids" and "set eids \<subseteq> ev_id ` set (el_events l)"
  shows "length (members_in_ledger_order l eids) = length eids"
proof -
  have "distinct (map ev_id (members_in_ledger_order l eids))"
    unfolding members_in_ledger_order_def by (rule distinct_map_filter [OF ledger_index.keys_distinct [OF assms(1)]])
  moreover have "set (map ev_id (members_in_ledger_order l eids)) = set eids"
    using assms(3) by (auto simp: members_in_ledger_order_def)
  ultimately show ?thesis using assms(2) by (metis distinct_card length_map)
qed

definition bound_of :: "EventLedger \<Rightarrow> ComposableCostModelV1 \<Rightarrow> CompiledPacketMembershipV1 \<Rightarrow> CompiledPacketCostBoundV1" where
  "bound_of l model m = \<lparr>bound_packet_id = membership_packet_id m, bound_event_ids = membership_event_ids m,
     bound_cost = \<lparr>cost_model = model, upper_bound_tokens = packet_bound l (membership_event_ids m)\<rparr>\<rparr>"

definition universe_bound :: "EventLedger \<Rightarrow> ResultId \<Rightarrow> CompiledPacketMembershipV1 list \<Rightarrow> nat" where
  "universe_bound l result ms = fixed_bound l result + (\<Sum>m\<leftarrow>ms. packet_bound l (membership_event_ids m))"

lemma bound_loop:
  assumes l: "ledger_ok l"
    and len: "\<forall>m \<in> set ms. length (members_in_ledger_order l (membership_event_ids m)) = length (membership_event_ids m)"
    and u: "u \<le> JSON_SAFE_INTEGER_MAX"
  shows "rfold (bound_step l model) (u, bs) ms = Inr st \<longleftrightarrow>
    (\<forall>m \<in> set ms. packet_bound l (membership_event_ids m) \<le> MAX_WIRE_OBJECT_BYTES)
    \<and> u + (\<Sum>m\<leftarrow>ms. packet_bound l (membership_event_ids m)) \<le> JSON_SAFE_INTEGER_MAX
    \<and> st = (u + (\<Sum>m\<leftarrow>ms. packet_bound l (membership_event_ids m)), bs @ map (bound_of l model) ms)"
  using len u
proof (induction ms arbitrary: u bs)
  case (Cons m ms)
  let ?b = "packet_bound l (membership_event_ids m)"
  have fits: "u + ?b \<le> u64_max" if "?b \<le> MAX_WIRE_OBJECT_BYTES"
    using that Cons.prems(2) by (simp add: MAX_WIRE_OBJECT_BYTES_def JSON_SAFE_INTEGER_MAX_def)
  have step: "bound_step l model (u, bs) m = (if ?b \<le> MAX_WIRE_OBJECT_BYTES then
      (if u + ?b \<le> JSON_SAFE_INTEGER_MAX then Inr (u + ?b, bs @ [bound_of l model m]) else Inl CostOutOfRange)
      else Inl PacketRenderLimitExceeded)"
    using Cons.prems(1) fits
    by (simp add: bound_step_def packet_render_bound_value [OF l] bound_of_def checked_add_u64_fits)
  have "rfold (bound_step l model) (u + ?b, bs @ [bound_of l model m]) ms = Inr st \<longleftrightarrow>
      (\<forall>m \<in> set ms. packet_bound l (membership_event_ids m) \<le> MAX_WIRE_OBJECT_BYTES)
      \<and> u + ?b + (\<Sum>m\<leftarrow>ms. packet_bound l (membership_event_ids m)) \<le> JSON_SAFE_INTEGER_MAX
      \<and> st = (u + ?b + (\<Sum>m\<leftarrow>ms. packet_bound l (membership_event_ids m)), (bs @ [bound_of l model m]) @ map (bound_of l model) ms)"
    if "u + ?b \<le> JSON_SAFE_INTEGER_MAX"
    using Cons.prems(1) that by (intro Cons.IH) simp_all
  then show ?case by (auto simp: step add.assoc)
qed auto

text \<open>The certificate as a function of what it certifies, and the exact conditions under which it is issued.\<close>

definition certificate_of ::
  "(bytes \<Rightarrow> bytes) \<Rightarrow> EventLedger \<Rightarrow> ResultId \<Rightarrow> CompiledPacketMembershipV1 list \<Rightarrow> CompiledCostCertificationV1" where
  "certificate_of sha256 l result ms =
     (let contract = canonical_ascii_render_bound_contract_v1 sha256;
          model = compiled_ascii_bound_cost_model_v1 sha256 contract in
      \<lparr>cert_acquisition_receipt_id = el_acquisition_receipt_id l, cert_plan_digest = el_plan_digest l,
       cert_result_id = result, cert_tokenizer_bound = contract, cert_cost_model = model,
       cert_fixed_overhead = \<lparr>overhead_cost_model = model, overhead_tokens = fixed_bound l result\<rparr>,
       cert_packet_bounds = sort_key bound_packet_id (map (bound_of l model) ms),
       cert_universe_upper_bound = universe_bound l result ms\<rparr>)"

definition certifiable :: "EventLedger \<Rightarrow> ResultId \<Rightarrow> CompiledPacketMembershipV1 list \<Rightarrow> bool" where
  "certifiable l result ms \<longleftrightarrow> ms \<noteq> [] \<and> length ms \<le> MAX_SELECTION_PACKETS_V1 \<and> memberships_ok l ms
     \<and> fixed_bound l result \<le> MAX_WIRE_OBJECT_BYTES
     \<and> (\<forall>m \<in> set ms. packet_bound l (membership_event_ids m) \<le> MAX_WIRE_OBJECT_BYTES)
     \<and> universe_bound l result ms \<le> JSON_SAFE_INTEGER_MAX"

lemma tokenizer_supported: "validate_supported_tokenizer sha256 tokenizer (canonical_ascii_render_bound_contract_v1 sha256) = Inr ()"
  by (simp add: validate_supported_tokenizer_def utf8_tokenizer_def canonical_ascii_render_bound_contract_v1_def)

lemma certify_iff:
  assumes "ledger_ok l"
  shows "certify_compiled_costs_v1 sha256 l result ms tokenizer = Inr cert \<longleftrightarrow>
    certifiable l result ms \<and> cert = certificate_of sha256 l result ms"
proof (cases "ms \<noteq> [] \<and> length ms \<le> MAX_SELECTION_PACKETS_V1 \<and> memberships_ok l ms \<and> fixed_bound l result \<le> MAX_WIRE_OBJECT_BYTES")
  case False
  then show ?thesis
    using membership_loop_ok [OF assms, of ms]
    by (auto simp: certify_compiled_costs_v1_def certify_compiled_costs_with_contract_v1_def tokenizer_supported
        certifiable_def fixed_render_bound_value Let_def result_simps split: if_split_asm)
next
  case True
  let ?model = "compiled_ascii_bound_cost_model_v1 sha256 (canonical_ascii_render_bound_contract_v1 sha256)"
  obtain st where st: "rfold (membership_step l) ({}, {}) ms = Inr st"
    using membership_loop_ok [OF assms, of ms] True by blast
  have len: "\<forall>m \<in> set ms. length (members_in_ledger_order l (membership_event_ids m)) = length (membership_event_ids m)"
    using True by (intro ballI members_length [OF assms]) (auto simp: memberships_ok_def distinct_concat_iff)
  have json: "fixed_bound l result \<le> JSON_SAFE_INTEGER_MAX" using True wire_limit_json by force
  have "certify_compiled_costs_v1 sha256 l result ms tokenizer =
      rbind (rfold (bound_step l ?model) (fixed_bound l result, []) ms) (\<lambda>(universe_upper_bound, packet_bounds).
        Inr \<lparr>cert_acquisition_receipt_id = el_acquisition_receipt_id l, cert_plan_digest = el_plan_digest l,
          cert_result_id = result, cert_tokenizer_bound = canonical_ascii_render_bound_contract_v1 sha256, cert_cost_model = ?model,
          cert_fixed_overhead = \<lparr>overhead_cost_model = ?model, overhead_tokens = fixed_bound l result\<rparr>,
          cert_packet_bounds = sort_key bound_packet_id packet_bounds, cert_universe_upper_bound = universe_upper_bound\<rparr>)"
    using True st by (simp add: certify_compiled_costs_v1_def certify_compiled_costs_with_contract_v1_def
        tokenizer_supported fixed_render_bound_value Let_def)
  then show ?thesis
    using True by (auto simp: result_simps bound_loop [OF assms len json] certifiable_def certificate_of_def Let_def universe_bound_def)
qed

section \<open>What the check against a selection establishes\<close>

text \<open>A packet that carries the certified bound of one of the memberships.\<close>

definition certified_packet ::
  "EventLedger \<Rightarrow> ComposableCostModelV1 \<Rightarrow> CompiledPacketMembershipV1 list \<Rightarrow> IntactPacketV1 \<Rightarrow> bool" where
  "certified_packet l model ms packet \<longleftrightarrow>
     \<lparr>membership_packet_id = packet_id packet, membership_event_ids = event_ids packet\<rparr> \<in> set ms
     \<and> packet_cost packet = \<lparr>cost_model = model, upper_bound_tokens = packet_bound l (event_ids packet)\<rparr>"

lemma certified_packet_cost_iff:
  assumes "distinct (map membership_packet_id ms)"
    and "cert_packet_bounds cert = sort_key bound_packet_id (map (bound_of l model) ms)"
  shows "certified_packet_cost cert pid eids = Inr cost \<longleftrightarrow>
    \<lparr>membership_packet_id = pid, membership_event_ids = eids\<rparr> \<in> set ms
    \<and> cost = \<lparr>cost_model = model, upper_bound_tokens = packet_bound l eids\<rparr>"
    (is "_ \<longleftrightarrow> ?m \<in> _ \<and> _")
proof -
  let ?bounds = "cert_packet_bounds cert"
  have keys: "sorted (map bound_packet_id ?bounds)" "distinct (map bound_packet_id ?bounds)"
    using assms(1) by (simp_all add: assms(2) distinct_map_perm [of _ "map (bound_of l model) ms"] comp_def bound_of_def)
  have strict: "sorted_wrt (<) (map bound_packet_id ?bounds)" using keys by (simp add: strict_sorted_iff)
  show ?thesis
  proof
    assume "certified_packet_cost cert pid eids = Inr cost"
    then obtain i where i: "binary_search_by_key bound_packet_id ?bounds pid = Some i"
      and entry: "bound_event_ids (?bounds ! i) = eids" "cost = bound_cost (?bounds ! i)"
      by (auto simp: certified_packet_cost_def result_simps split: if_split_asm)
    then have "?bounds ! i \<in> set ?bounds" and pid: "bound_packet_id (?bounds ! i) = pid"
      using binary_search_by_key_mem [OF i] by auto
    then obtain m where "m \<in> set ms" "?bounds ! i = bound_of l model m" by (auto simp: assms(2))
    moreover from this have "m = ?m" using entry(1) pid by (auto simp: bound_of_def)
    ultimately show "?m \<in> set ms \<and> cost = \<lparr>cost_model = model, upper_bound_tokens = packet_bound l eids\<rparr>"
      using entry(2) by (simp add: bound_of_def)
  next
    assume m: "?m \<in> set ms \<and> cost = \<lparr>cost_model = model, upper_bound_tokens = packet_bound l eids\<rparr>"
    then have "bound_of l model ?m \<in> set ?bounds" by (auto simp: assms(2))
    then obtain i where "i < length ?bounds" "?bounds ! i = bound_of l model ?m" by (metis in_set_conv_nth)
    moreover from this have "binary_search_by_key bound_packet_id ?bounds pid = Some i"
      by (simp add: binary_search_by_key_Some [OF strict] bound_of_def)
    ultimately show "certified_packet_cost cert pid eids = Inr cost"
      using m by (simp add: certified_packet_cost_def bound_of_def)
  qed
qed

lemma verify_selected_loop:
  assumes "distinct (map membership_packet_id ms)"
    and "cert_packet_bounds cert = sort_key bound_packet_id (map (bound_of l model) ms)"
  shows "(\<exists>st. rfold (verify_selected_step cert) P ss = Inr st) \<longleftrightarrow>
    distinct (map (\<lambda>s. packet_id (selected_packet s)) ss) \<and> (\<forall>s \<in> set ss. packet_id (selected_packet s) \<notin> P)
    \<and> (\<forall>s \<in> set ss. certified_packet l model ms (selected_packet s))"
proof (induction ss arbitrary: P)
  case (Cons s ss)
  have step: "verify_selected_step cert P s = Inr P' \<longleftrightarrow>
      packet_id (selected_packet s) \<notin> P \<and> certified_packet l model ms (selected_packet s)
      \<and> P' = insert (packet_id (selected_packet s)) P" for P'
    by (auto simp: verify_selected_step_def Let_def result_simps certified_packet_cost_iff [OF assms] certified_packet_def)
  have "(\<exists>st. rfold (verify_selected_step cert) P (s # ss) = Inr st) \<longleftrightarrow>
      packet_id (selected_packet s) \<notin> P \<and> certified_packet l model ms (selected_packet s)
      \<and> (\<exists>st. rfold (verify_selected_step cert) (insert (packet_id (selected_packet s)) P) ss = Inr st)"
    by (auto simp: rbind_Inr step)
  then show ?case unfolding Cons.IH by (auto simp: image_iff)
qed simp

lemma verify_selection_iff:
  assumes "distinct (map membership_packet_id ms)"
  shows "verify_selection sha256 (certificate_of sha256 l result ms) l result' selection tokenizer = Inr () \<longleftrightarrow>
    result' = result
    \<and> sel_overhead selection = cert_fixed_overhead (certificate_of sha256 l result ms)
    \<and> distinct (map (\<lambda>s. packet_id (selected_packet s)) (sel_packets selection))
    \<and> (\<forall>s \<in> set (sel_packets selection).
         certified_packet l (cert_cost_model (certificate_of sha256 l result ms)) ms (selected_packet s))"
proof -
  let ?cert = "certificate_of sha256 l result ms"
  have bounds: "cert_packet_bounds ?cert = sort_key bound_packet_id (map (bound_of l (cert_cost_model ?cert)) ms)"
    by (simp add: certificate_of_def Let_def)
  have "verify_selection sha256 ?cert l result' selection tokenizer = Inr () \<longleftrightarrow>
      result' = result \<and> sel_overhead selection = cert_fixed_overhead ?cert
      \<and> (\<exists>st. rfold (verify_selected_step ?cert) {} (sel_packets selection) = Inr st)"
    by (auto simp: verify_selection_def certificate_of_def Let_def tokenizer_supported result_simps)
  then show ?thesis unfolding verify_selected_loop [OF assms bounds] by simp
qed

end
