(* ===== verification/Evidence_Compiled.thy ===== *)
theory Evidence_Compiled
  imports Evidence_Cost
begin

text \<open>
  The compiled brief (\<open>evidentrail-evidence/src/compiled.rs\<close>): validation of a selection and its
  references against the ledger, the whole render, and the cost gate that issues the compiled status.
  The borrowed and the owned artifact types have the same fields and share one model.
\<close>

section \<open>Artifact types\<close>

definition COMPILED_COST_MODEL_DOMAIN_V1 :: bytes where
  "COMPILED_COST_MODEL_DOMAIN_V1 = ''evidentrail/evidence/compiled-cost-model/v1'' @ [CHR 0x00]"

definition compiled_cost_model_v1 :: "(bytes \<Rightarrow> bytes) \<Rightarrow> bytes \<Rightarrow> ComposableCostModelV1" where
  "compiled_cost_model_v1 sha256 tokenizer =
     (let hasher = COMPILED_COST_MODEL_DOMAIN_V1;
          hasher = update_field hasher (compiled_renderer_digest_v1 sha256);
          hasher = update_field hasher tokenizer
      in sha256 hasher)"

record CompiledCostAccountingV1 =
  cca_cost_model :: ComposableCostModelV1
  cca_total_token_budget :: nat
  cca_reserved_fixed_overhead :: nat
  cca_mandatory_token_cost :: nat
  cca_selected_packet_cost :: nat
  cca_accounted_token_upper_bound :: nat
  cca_coverage_only_token_limit :: nat
  cca_coverage_only_token_cost :: nat
  cca_total_rendered_tokens :: nat
  cca_total_rendered_bytes :: nat
  cca_tokenizer_digest :: bytes
  cca_renderer_digest :: bytes
  cca_additive_bound_certified :: bool

record CompiledCoverageV1 =
  ccv_acquisition_receipt_id :: AcquisitionReceiptId
  ccv_presentation_receipt_id :: PresentationReceiptId
  ccv_acknowledged_records :: nat
  ccv_presentation_counts :: PresentationCounts
  ccv_source_exact_records :: nat
  ccv_post_policy_records :: nat
  ccv_omitted_by_policy_records :: nat

record CompiledEventEvidenceV1 =
  cee_event_id :: EventId
  cee_exactness_basis :: ExactnessBasis
  cee_stream :: SourceStream
  cee_authorized_bytes :: bytes

record CompiledEvidencePacketV1 =
  cep_ordinal :: nat
  cep_packet_id :: PacketIdV1
  cep_reference :: EvidenceReferenceV1
  cep_canonical_event_ids :: "EventId list"
  cep_events :: "CompiledEventEvidenceV1 list"
  cep_affinities :: "FacetAffinityV1 list"
  cep_facet_kinds :: "ProductionFacetKindV1 list"
  cep_marginal_gain :: nat
  cep_forcing_constraint :: SelectionConstraintV1
  cep_composable_token_upper_bound :: ComposablePacketCostV1

record CompiledLogBriefV1 =
  clb_result_id :: ResultId
  clb_question_digest :: bytes
  clb_plan_digest :: PlanDigest
  clb_reference_authorized_at :: int
  clb_status :: ResultStatusV1
  clb_selection_strategy :: SelectionStrategyV1
  clb_normalized_gain :: nat
  clb_cost :: CompiledCostAccountingV1
  clb_coverage :: CompiledCoverageV1
  clb_evidence :: "CompiledEvidencePacketV1 list"

record RenderedCompiledBriefV1 =
  rcb_brief :: CompiledLogBriefV1
  rcb_text :: bytes

datatype CompiledCostModelViolationReasonV1 = RenderExceedsTotalBudget | RenderExceedsAccountedUpperBound

datatype CompiledBriefError =
    Compiled_PlanDigestMismatch | TooManyEvidencePackets | UnknownSelectedEvent | OverlappingSelectedEvent
  | Compiled_ReferenceCountMismatch | Compiled_ReferenceUnavailable | Compiled_DuplicateReferenceIdentity
  | ReferenceTargetsMismatch | ReferenceRelationsNotExactOnly | CostModelIdentityMismatch
  | Compiled_UnsupportedTokenizerBound | CostCertificationMismatch | SelectionAccountingInvariantViolation
  | Compiled_RenderedByteLimitExceeded | Compiled_TokenizerFailure | Compiled_TokenCountOutOfRange
  | Compiled_RenderedByteCountOverflow | CostModelViolation CompiledCostModelViolationReasonV1
  | Brief_CompiledMasqueradesAsPassthrough | Brief_CompiledHasNoPresentedEvidence | Compiled_PresentationInvariantViolation

fun map_cost_certification_error :: "CompiledCostCertificationError \<Rightarrow> CompiledBriefError" where
  "map_cost_certification_error UnsupportedTokenizerBound = Compiled_UnsupportedTokenizerBound"
| "map_cost_certification_error _ = CostCertificationMismatch"

fun map_status_construction_error :: "ResultStatusConstructionError \<Rightarrow> CompiledBriefError" where
  "map_status_construction_error CompiledMasqueradesAsPassthrough = Brief_CompiledMasqueradesAsPassthrough"
| "map_status_construction_error CompiledHasNoPresentedEvidence = Brief_CompiledHasNoPresentedEvidence"
| "map_status_construction_error _ = Compiled_PresentationInvariantViolation"

section \<open>Rendering\<close>

definition render_evidence_packet :: "CompiledEvidencePacketV1 \<Rightarrow> writer" where
  "render_evidence_packet packet =
     render_compiled_packet_v1 (cep_ordinal packet) (constraint_code (cep_forcing_constraint packet))
       (cep_marginal_gain packet) (upper_bound_tokens (cep_composable_token_upper_bound packet))
       (map facet_kind_code (cep_facet_kinds packet))
       (map (\<lambda>e. \<lparr>render_exactness_code = exactness_code (cee_exactness_basis e),
                 render_stream_code = stream_code (cee_stream e), render_authorized_bytes = cee_authorized_bytes e\<rparr>)
          (cep_events packet))"

definition render_compiled_text ::
  "EventLedger \<Rightarrow> ResultId \<Rightarrow> CompiledEvidencePacketV1 list \<Rightarrow> PresentationCounts \<Rightarrow> writer" where
  "render_compiled_text l result evidence counts t =
     rbind (render_compiled_header_v1 l result t) (\<lambda>t.
     rbind (if evidence = [] then push ''  (none)\<newline>'' t else Inr t) (\<lambda>t.
     rbind (rfold (\<lambda>t packet. render_evidence_packet packet t) t evidence) (\<lambda>t.
     render_compiled_coverage_v1 l counts t)))"

section \<open>The brief\<close>

definition selected_event_step ::
  "EventLedger \<Rightarrow> EventId set \<Rightarrow> EventId \<Rightarrow> (CompiledBriefError, EventId set) result" where
  "selected_event_step l selected_event_ids eid =
     (if \<not> contains l eid then Inl UnknownSelectedEvent
      else if eid \<in> selected_event_ids then Inl OverlappingSelectedEvent
      else Inr (insert eid selected_event_ids))"

text \<open>The targets of a reference as events; a block target is the error.\<close>

fun target_event :: "EvidenceTargetRef \<Rightarrow> (CompiledBriefError, EventId) result" where
  "target_event (TargetEvent eid) = Inr eid"
| "target_event (TargetBlock _) = Inl ReferenceTargetsMismatch"

definition target_events :: "EvidenceTargetRef list \<Rightarrow> (CompiledBriefError, EventId set) result" where
  "target_events targets = rfold (\<lambda>ids target. rbind (target_event target) (\<lambda>eid. Inr (insert eid ids))) {} targets"

definition compiled_events :: "EventLedger \<Rightarrow> EventId list \<Rightarrow> CompiledEventEvidenceV1 list" where
  "compiled_events l packet_set =
     map (\<lambda>e. \<lparr>cee_event_id = ev_id e, cee_exactness_basis = ev_exactness_basis e, cee_stream = snd (ev_lane e),
              cee_authorized_bytes = ev_raw e\<rparr>)
       (filter (\<lambda>e. ev_id e \<in> set packet_set) (el_events l))"

definition evidence_packet ::
  "nat \<Rightarrow> SelectedPacketV1 \<Rightarrow> EvidenceReferenceV1 \<Rightarrow> CompiledEventEvidenceV1 list \<Rightarrow> CompiledEvidencePacketV1" where
  "evidence_packet ordinal selected reference events =
     (let packet = selected_packet selected in
      \<lparr>cep_ordinal = ordinal, cep_packet_id = packet_id packet, cep_reference = reference,
       cep_canonical_event_ids = event_ids packet, cep_events = events, cep_affinities = affinities packet,
       cep_facet_kinds = selected_facet_kinds selected, cep_marginal_gain = selected_gain selected,
       cep_forcing_constraint = forcing_constraint selected, cep_composable_token_upper_bound = packet_cost packet\<rparr>)"

definition evidence_step ::
  "EventLedger \<Rightarrow> ResultId \<Rightarrow> int \<Rightarrow>
   EvidenceReferenceId set \<times> EventId set \<times> CompiledEvidencePacketV1 list \<Rightarrow> nat \<times> SelectedPacketV1 \<times> EvidenceReferenceV1 \<Rightarrow>
   (CompiledBriefError, EvidenceReferenceId set \<times> EventId set \<times> CompiledEvidencePacketV1 list) result" where
  "evidence_step l result now state item =
     (case state of (reference_ids, selected_event_ids, evidence) \<Rightarrow>
      case item of (ordinal, selected, reference) \<Rightarrow>
       let packet = selected_packet selected; packet_set = btree_set (event_ids packet) in
       rbind (rfold (selected_event_step l) selected_event_ids packet_set) (\<lambda>selected_event_ids.
       rbind (map_err (\<lambda>_. Compiled_ReferenceUnavailable) (reference_authorize reference result Exact now)) (\<lambda>_.
       if er_id reference \<in> reference_ids then Inl Compiled_DuplicateReferenceIdentity
       else if er_allowed_relations reference \<noteq> [Exact] then Inl ReferenceRelationsNotExactOnly
       else rbind (target_events (er_targets reference)) (\<lambda>reference_set.
       if reference_set \<noteq> set packet_set \<or> length (er_targets reference) \<noteq> length packet_set then Inl ReferenceTargetsMismatch
       else let events = compiled_events l packet_set in
       if length events \<noteq> length packet_set then Inl UnknownSelectedEvent
       else Inr (insert (er_id reference) reference_ids, selected_event_ids,
         evidence @ [evidence_packet ordinal selected reference events])))))"

text \<open>The guards on the accounting of the selection.\<close>

definition checked_sub :: "nat \<Rightarrow> nat \<Rightarrow> nat option" where
  "checked_sub a b = (if b \<le> a then Some (a - b) else None)"

definition validate_selection_accounting :: "SelectionV1 \<Rightarrow> (CompiledBriefError, unit) result" where
  "validate_selection_accounting selection =
     rbind (ok_or SelectionAccountingInvariantViolation
         (Option.bind (checked_sub (sel_budget selection) (overhead_tokens (sel_overhead selection)))
           (\<lambda>available. checked_sub available (sel_mandatory_cost selection)))) (\<lambda>optional_budget.
     if sel_accounted_tokens selection > sel_budget selection
       \<or> sel_packet_cost selection < sel_mandatory_cost selection
       \<or> sel_coverage_only_limit selection \<noteq> optional_budget div COVERAGE_ONLY_OPTIONAL_BUDGET_DENOMINATOR_V1
       \<or> sel_coverage_only_cost selection > sel_coverage_only_limit selection
       \<or> sel_coverage_only_cost selection > sel_packet_cost selection - sel_mandatory_cost selection
     then Inl SelectionAccountingInvariantViolation else Inr ())"

text \<open>The gate after rendering: tokens and bytes against the budget and the accounted bound.\<close>

definition cost_gate ::
  "PinnedTokenizer \<Rightarrow> SelectionV1 \<Rightarrow> bool \<Rightarrow> bytes \<Rightarrow> (CompiledBriefError, nat \<times> nat) result" where
  "cost_gate tokenizer selection additive_bound_certified text =
     rbind (map_err (\<lambda>_. Compiled_TokenizerFailure) (count_tokens tokenizer text)) (\<lambda>total_rendered_tokens.
     if total_rendered_tokens > JSON_SAFE_INTEGER_MAX then Inl Compiled_TokenCountOutOfRange
     else if total_rendered_tokens > sel_budget selection then Inl (CostModelViolation RenderExceedsTotalBudget)
     else if total_rendered_tokens > sel_accounted_tokens selection
     then Inl (CostModelViolation RenderExceedsAccountedUpperBound)
     else rbind (ok_or Compiled_RenderedByteCountOverflow (u64_try_from (length text))) (\<lambda>total_rendered_bytes.
     if additive_bound_certified \<and> total_rendered_bytes > sel_accounted_tokens selection
     then Inl (CostModelViolation RenderExceedsAccountedUpperBound)
     else Inr (total_rendered_tokens, total_rendered_bytes)))"

definition compiled_brief ::
  "(bytes \<Rightarrow> bytes) \<Rightarrow> EventLedger \<Rightarrow> ResultId \<Rightarrow> bytes \<Rightarrow> PlanDigest \<Rightarrow> SelectionV1 \<Rightarrow> int \<Rightarrow> PinnedTokenizer \<Rightarrow>
   ComposableCostModelV1 \<Rightarrow> bool \<Rightarrow> ResultStatusV1 \<Rightarrow> CompiledEvidencePacketV1 list \<Rightarrow> nat \<Rightarrow> nat \<Rightarrow> CompiledLogBriefV1" where
  "compiled_brief sha256 l result question_digest plan_digest selection now tokenizer model certified status evidence tokens bytes =
     (let counts = receipt_counts (el_acquisition_receipt l);
          receipt = state_presentation_receipt (status_selection status) in
      \<lparr>clb_result_id = result, clb_question_digest = question_digest, clb_plan_digest = plan_digest,
       clb_reference_authorized_at = now, clb_status = status, clb_selection_strategy = sel_strategy selection,
       clb_normalized_gain = sel_gain selection,
       clb_cost =
         \<lparr>cca_cost_model = model, cca_total_token_budget = sel_budget selection,
          cca_reserved_fixed_overhead = overhead_tokens (sel_overhead selection),
          cca_mandatory_token_cost = sel_mandatory_cost selection, cca_selected_packet_cost = sel_packet_cost selection,
          cca_accounted_token_upper_bound = sel_accounted_tokens selection,
          cca_coverage_only_token_limit = sel_coverage_only_limit selection,
          cca_coverage_only_token_cost = sel_coverage_only_cost selection, cca_total_rendered_tokens = tokens,
          cca_total_rendered_bytes = bytes, cca_tokenizer_digest = tokenizer_digest tokenizer,
          cca_renderer_digest = compiled_renderer_digest_v1 sha256, cca_additive_bound_certified = certified\<rparr>,
       clb_coverage =
         \<lparr>ccv_acquisition_receipt_id = el_acquisition_receipt_id l, ccv_presentation_receipt_id = pr_id receipt,
          ccv_acknowledged_records = acknowledged_count (el_acquisition_receipt l), ccv_presentation_counts = pr_counts receipt,
          ccv_source_exact_records = source_exact counts, ccv_post_policy_records = post_policy counts,
          ccv_omitted_by_policy_records = omitted_by_policy counts\<rparr>,
       clb_evidence = evidence\<rparr>)"

definition render_compiled_log_brief_with_cost_model_v1 ::
  "(bytes \<Rightarrow> bytes) \<Rightarrow> EventLedger \<Rightarrow> ResultId \<Rightarrow> bytes \<Rightarrow> PlanDigest \<Rightarrow> SelectionV1 \<Rightarrow> EvidenceReferenceV1 list \<Rightarrow> int \<Rightarrow>
   PinnedTokenizer \<Rightarrow> ComposableCostModelV1 \<Rightarrow> bool \<Rightarrow> (CompiledBriefError, RenderedCompiledBriefV1) result" where
  "render_compiled_log_brief_with_cost_model_v1 sha256 l result question_digest plan_digest selection references now tokenizer model certified =
     (if el_plan_digest l \<noteq> plan_digest then Inl Compiled_PlanDigestMismatch
      else if length (sel_packets selection) > MAX_LOG_BRIEF_EVIDENCE_PACKETS then Inl TooManyEvidencePackets
      else rbind (validate_selection_accounting selection) (\<lambda>_.
      if overhead_cost_model (sel_overhead selection) \<noteq> model
        \<or> list_ex (\<lambda>s. cost_model (packet_cost (selected_packet s)) \<noteq> model) (sel_packets selection)
      then Inl CostModelIdentityMismatch
      else if length references \<noteq> length (sel_packets selection) then Inl Compiled_ReferenceCountMismatch
      else rbind (rfold (evidence_step l result now) ({}, {}, []) (enumerate 0 (zip (sel_packets selection) references)))
        (\<lambda>(reference_ids, selected_event_ids, evidence).
      rbind (map_err (\<lambda>_. Compiled_PresentationInvariantViolation)
          (PresentationReceipt_reconcile sha256 l (map (\<lambda>e. (ev_id e,
             if ev_id e \<in> selected_event_ids then ShownVerbatim else RetainedRaw)) (el_events l)))) (\<lambda>receipt.
      rbind (map_err map_status_construction_error (status_compiled l receipt)) (\<lambda>status.
      rbind (map_err (\<lambda>_. Compiled_RenderedByteLimitExceeded)
          (render_compiled_text l result evidence (pr_counts receipt) (BoundedText_new MAX_WIRE_OBJECT_BYTES))) (\<lambda>text.
      let text = text_value text in
      rbind (cost_gate tokenizer selection certified text) (\<lambda>(tokens, bytes).
      Inr \<lparr>rcb_brief = compiled_brief sha256 l result question_digest plan_digest selection now tokenizer model certified
             status evidence tokens bytes,
           rcb_text = text\<rparr>)))))))"

definition render_compiled_log_brief_v1 ::
  "(bytes \<Rightarrow> bytes) \<Rightarrow> EventLedger \<Rightarrow> ResultId \<Rightarrow> bytes \<Rightarrow> PlanDigest \<Rightarrow> SelectionV1 \<Rightarrow> EvidenceReferenceV1 list \<Rightarrow> int \<Rightarrow>
   PinnedTokenizer \<Rightarrow> (CompiledBriefError, RenderedCompiledBriefV1) result" where
  "render_compiled_log_brief_v1 sha256 l result question_digest plan_digest selection references now tokenizer =
     render_compiled_log_brief_with_cost_model_v1 sha256 l result question_digest plan_digest selection references now tokenizer
       (compiled_cost_model_v1 sha256 (tokenizer_digest tokenizer)) False"

definition render_cost_certified_compiled_log_brief_v1 ::
  "(bytes \<Rightarrow> bytes) \<Rightarrow> EventLedger \<Rightarrow> ResultId \<Rightarrow> bytes \<Rightarrow> PlanDigest \<Rightarrow> SelectionV1 \<Rightarrow> EvidenceReferenceV1 list \<Rightarrow> int \<Rightarrow>
   Utf8ByteTokenizerV1 \<Rightarrow> CompiledCostCertificationV1 \<Rightarrow> (CompiledBriefError, RenderedCompiledBriefV1) result" where
  "render_cost_certified_compiled_log_brief_v1 sha256 l result question_digest plan_digest selection references now tokenizer certification =
     rbind (map_err map_cost_certification_error (verify_selection sha256 certification l result selection tokenizer)) (\<lambda>_.
     render_compiled_log_brief_with_cost_model_v1 sha256 l result question_digest plan_digest selection references now
       (utf8_tokenizer sha256 tokenizer) (cert_cost_model certification) True)"

end
