(* ===== verification/Select_Interface.thy ===== *)
theory Select_Interface
  imports Select_Properties
begin

text \<open>
  The contract of a selector as its clients see it: whichever entry point of
  \<open>evidentrail-select/src/problem.rs\<close> produced a selection, its accounting is exact, its packets come
  from the problem without repetition, and what is printed with a packet is bounded.
\<close>

definition selected_ok :: "SelectedPacketV1 \<Rightarrow> bool" where
  "selected_ok s \<longleftrightarrow> distinct (selected_facet_kinds s) \<and> selected_gain s \<le> u64_max"

definition accounting_ok :: "SelectionV1 \<Rightarrow> bool" where
  "accounting_ok sel \<longleftrightarrow>
     overhead_tokens (sel_overhead sel) + sel_mandatory_cost sel \<le> sel_budget sel
     \<and> sel_packet_cost sel = (\<Sum>s\<leftarrow>sel_packets sel. packet_tokens (selected_packet s))
     \<and> sel_mandatory_cost sel \<le> sel_packet_cost sel
     \<and> sel_accounted_tokens sel = overhead_tokens (sel_overhead sel) + sel_packet_cost sel
     \<and> sel_accounted_tokens sel \<le> sel_budget sel \<and> sel_budget sel \<le> JSON_SAFE_INTEGER_MAX
     \<and> sel_coverage_only_limit sel = (sel_budget sel - overhead_tokens (sel_overhead sel) - sel_mandatory_cost sel)
          div COVERAGE_ONLY_OPTIONAL_BUDGET_DENOMINATOR_V1
     \<and> sel_coverage_only_cost sel \<le> sel_coverage_only_limit sel
     \<and> sel_coverage_only_cost sel \<le> sel_packet_cost sel - sel_mandatory_cost sel"

definition selection_ok :: "SelectionProblemV1 \<Rightarrow> SelectionV1 \<Rightarrow> bool" where
  "selection_ok problem sel \<longleftrightarrow> accounting_ok sel \<and> sel_overhead sel = problem_overhead problem
     \<and> distinct (map (\<lambda>s. packet_id (selected_packet s)) (sel_packets sel))
     \<and> (\<forall>s \<in> set (sel_packets sel). selected_ok s \<and> selected_packet s \<in> set (problem_packets problem))"

locale selector =
  fixes run :: "SelectionProblemV1 \<Rightarrow> 'guidance \<Rightarrow> ('e, SelectionDecisionV1) result"
  assumes run_selection_ok: "problem_ok problem \<Longrightarrow> run problem guidance = Inr (Selected sel) \<Longrightarrow> selection_ok problem sel"
begin

lemma run_accounting: "problem_ok problem \<Longrightarrow> run problem guidance = Inr (Selected sel) \<Longrightarrow> accounting_ok sel"
  using run_selection_ok by (simp add: selection_ok_def)

lemma run_packets_fit:
  assumes "problem_ok problem" and "run problem guidance = Inr (Selected sel)" and "s \<in> set (sel_packets sel)"
  shows "packet_ok (selected_packet s)"
    and "cost_model (packet_cost (selected_packet s)) = overhead_cost_model (sel_overhead sel)"
proof -
  have "selection_ok problem sel" using assms run_selection_ok by blast
  then have "selected_packet s \<in> set (problem_packets problem)" "sel_overhead sel = problem_overhead problem"
    using assms(3) by (auto simp: selection_ok_def)
  then show "packet_ok (selected_packet s)"
    and "cost_model (packet_cost (selected_packet s)) = overhead_cost_model (sel_overhead sel)"
    using assms(1) by (auto simp: problem_ok_def packets_ok_def packet_fits_def)
qed

end

section \<open>The selectors of the program\<close>

lemma remdups_adj_sort_distinct: "distinct (remdups_adj (sort xs :: 'a::linorder list))"
proof -
  have "sorted xs \<Longrightarrow> distinct (remdups_adj xs)" for xs :: "'a list"
    by (induction xs rule: remdups_adj.induct) auto
  then show ?thesis by simp
qed

lemma facet_kinds_distinct:
  "problem_ok problem \<Longrightarrow> i < length (problem_packets problem) \<Longrightarrow>
   distinct (the (packet_facet_kinds problem (packet_at problem i)))"
  using packet_facet_kinds_at [of problem i] remdups_adj_sort_distinct
  by (auto simp: packet_facet_kinds_def)

lemma coverage_only_spent_le: "coverage_only_spent problem cov is \<le> tokens_of problem is"
  by (induction "is" arbitrary: cov) (auto simp: add_mono trans_le_add2)

lemma presented_ok:
  assumes ok: "problem_ok problem" and "coverage_ok problem cov" and "indices_ok problem is"
  shows "\<forall>s \<in> set (presented problem c cov is). selected_ok s"
  using assms(2,3)
proof (induction "is" arbitrary: cov)
  case (Cons i "is")
  have i: "i < length (problem_packets problem)" using Cons.prems by simp
  have "gain_of problem cov [i] = gain_at problem cov i"
    using gain_of_snoc [OF ok Cons.prems(1), of "[]" i] i by (simp add: gain_of_def [of _ _ "[]"])
  moreover have "gain_of problem cov [i] \<le> u64_max" using ok Cons.prems i by (intro gain_of_u64) simp_all
  moreover have "coverage_ok problem (apply_packet problem cov (packet_at problem i))"
    using cover_ok [OF ok Cons.prems(1), of "[i]"] i by simp
  ultimately show ?case
    using Cons facet_kinds_distinct [OF ok i] by (simp add: selected_ok_def)
qed simp

lemma mandatory_selected_ok:
  assumes "problem_ok problem" and "m \<in> set (problem_mandatory problem)"
  shows "selected_ok (mandatory_selected problem m)"
proof -
  obtain i where "i < length (problem_packets problem)" "packet_of problem m = packet_at problem i"
    using assms by (rule mandatory_index)
  then show ?thesis using facet_kinds_distinct [OF assms(1)] by (simp add: mandatory_selected_def selected_ok_def)
qed

text \<open>Both selectors list the mandatory packets and then optional ones by index.\<close>

lemma listed_selection_ok:
  assumes ok: "problem_ok problem" and afford: "mandatory_affordable problem"
    and order: "indices_ok problem order" "distinct order" "set order \<inter> set (mandatory_indices problem) = {}"
      "tokens_of problem order \<le> optional_budget problem"
    and spent: "spent \<le> coverage_only_limit problem" "spent \<le> tokens_of problem order"
    and sel: "sel_budget sel = problem_budget problem" "sel_overhead sel = problem_overhead problem"
      "sel_mandatory_cost sel = problem_mandatory_cost problem"
      "sel_packet_cost sel = problem_mandatory_cost problem + tokens_of problem order"
      "sel_accounted_tokens sel = overhead_tokens (problem_overhead problem) + (problem_mandatory_cost problem + tokens_of problem order)"
      "sel_coverage_only_limit sel = coverage_only_limit problem" "sel_coverage_only_cost sel = spent"
      "sel_packets sel = map (mandatory_selected problem) (problem_mandatory problem)
         @ presented problem c (mandatory_coverage problem) order"
  shows "selection_ok problem sel"
proof -
  have "accounting_ok sel"
    using afford spent mandatory_cost_sum [OF ok] accounted_fits [OF afford order(4)] ok
    by (simp add: accounting_ok_def sel presented_tokens mandatory_affordable_def coverage_only_limit_def
        optional_budget_def problem_ok_def)
  moreover have "\<forall>s \<in> set (sel_packets sel). selected_ok s"
    using mandatory_selected_ok [OF ok] presented_ok [OF ok mandatory_coverage_ok [OF ok] order(1)] by (auto simp: sel(8))
  ultimately show ?thesis
    using members_of_presented [OF ok order(1-3), of c "mandatory_coverage problem"]
    by (simp add: selection_ok_def sel(2,8))
qed

lemma priority_map_selection_ok:
  assumes ok: "problem_ok problem" and run: "select_with_priority_map problem pm = Inr (Selected sel)"
  shows "selection_ok problem sel"
proof -
  obtain strategy "is" where sel: "sel = selection_of problem (coverage_only_limit problem) strategy is"
    and plan: "chosen_plan problem pm strategy is" and afford: "mandatory_affordable problem"
    using assms by (rule selected_plan)
  let ?order = "presentation_order problem is" and ?spent = "coverage_only_spent problem (mandatory_coverage problem) is"
  note facts = chosen_plan_facts [OF plan] and perm = presentation_order_perm [of problem "is"]
  have same: "set ?order = set is" "distinct ?order = distinct is" "tokens_of problem ?order = tokens_of problem is"
    using mset_eq_setD [OF perm] mset_eq_imp_distinct_iff [OF perm] tokens_of_perm [OF perm] by simp_all
  show ?thesis
    by (rule listed_selection_ok [OF ok afford presentation_order_ok, of "is" ?spent _ "strategy_constraint strategy"])
      (use facts coverage_only_spent_le [of problem "mandatory_coverage problem" "is"] in \<open>simp_all add: same sel selection_of_def Let_def\<close>)
qed

lemma optional_order_selection_ok:
  assumes ok: "problem_ok problem" and run: "select_in_optional_order problem pids = Inr (Selected sel)"
  shows "selection_ok problem sel"
proof -
  obtain S ixs where loop: "rfold (ordered_id_step problem) ({}, []) pids = Inr (S, ixs)"
    and inner: "select_validated_optional_order problem ixs = Inr (Selected sel)"
    using run by (auto simp: select_in_optional_order_def result_simps split: if_split_asm)
  have ids: "optional_ids_ok problem pids" using loop by (simp add: ordered_id_loop [OF ok])
  have afford: "mandatory_affordable problem"
  proof (rule ccontr)
    assume "\<not> mandatory_affordable problem"
    then show False using inner
      by (auto simp: select_validated_optional_order_def needs_more_def mandatory_affordable_def Let_def split: if_split_asm)
  qed
  let ?taken = "pack_order problem (indices_of problem pids)"
  have sel: "sel = ordered_selection_of problem (indices_of problem pids)"
    using run select_in_optional_order_ok [OF ok afford ids] by simp
  note facts = pack_order_facts [of problem "indices_of problem pids"]
  show ?thesis
    by (rule listed_selection_ok [OF ok afford, of ?taken "coverage_only_spent problem (mandatory_coverage problem) ?taken" _ Constraint_ExternalOrderBudgetPack])
      (use facts coverage_only_spent_le [of problem "mandatory_coverage problem" ?taken] in \<open>auto simp: sel ordered_selection_of_def Let_def\<close>)
qed

interpretation priority_selector: selector select_with_priority_map
  by unfold_locales (rule priority_map_selection_ok)

interpretation assisted_selector: selector select_with_optional_priorities
  by unfold_locales (auto simp: select_with_optional_priorities_def result_simps intro: priority_map_selection_ok)

interpretation ordered_selector: selector select_in_optional_order
  by unfold_locales (rule optional_order_selection_ok)

end
