(* ===== verification/Evidence_Compiled_Spec.thy ===== *)
theory Evidence_Compiled_Spec
  imports Evidence_Compiled Select_Interface
begin

text \<open>
  What the compiled brief contains and why a certified selection always renders within its accounted
  bound: the text of the artifact, the evidence loop, the presentation receipt and the cost gate.
\<close>

section \<open>The text\<close>

definition evidence_text :: "CompiledEvidencePacketV1 \<Rightarrow> bytes" where
  "evidence_text packet = packet_text (cep_ordinal packet) (constraint_code (cep_forcing_constraint packet))
     (cep_marginal_gain packet) (upper_bound_tokens (cep_composable_token_upper_bound packet))
     (map facet_kind_code (cep_facet_kinds packet))
     (map (\<lambda>e. \<lparr>render_exactness_code = exactness_code (cee_exactness_basis e),
               render_stream_code = stream_code (cee_stream e), render_authorized_bytes = cee_authorized_bytes e\<rparr>)
        (cep_events packet))"

definition compiled_text :: "EventLedger \<Rightarrow> ResultId \<Rightarrow> CompiledEvidencePacketV1 list \<Rightarrow> PresentationCounts \<Rightarrow> bytes" where
  "compiled_text l result evidence counts = header_text l result @ (if evidence = [] then ''  (none)\<newline>'' else [])
     @ concat (map evidence_text evidence) @ coverage_text l counts"

lemma writes_compiled_text:
  assumes "\<forall>packet \<in> set evidence. cep_ordinal packet < u64_max \<and> length (cep_events packet) \<le> u64_max"
  shows "writes (render_compiled_text l result evidence counts) (compiled_text l result evidence counts)"
proof -
  have "writes (\<lambda>t. render_evidence_packet packet t) (evidence_text packet)" if "packet \<in> set evidence" for packet
    using that assms unfolding render_evidence_packet_def evidence_text_def by (intro writes_packet) simp_all
  then have loop: "writes (\<lambda>t. rfold (\<lambda>t packet. render_evidence_packet packet t) t evidence) (concat (map evidence_text evidence))"
    by (rule writes_rfold)
  show ?thesis
    unfolding render_compiled_text_def [abs_def] compiled_text_def by (intro writes_intro loop)
qed

section \<open>The evidence loop\<close>

definition item_packet :: "EventLedger \<Rightarrow> nat \<times> SelectedPacketV1 \<times> EvidenceReferenceV1 \<Rightarrow> CompiledEvidencePacketV1" where
  "item_packet l item = (case item of (ordinal, selected, reference) \<Rightarrow>
     evidence_packet ordinal selected reference (compiled_events l (btree_set (event_ids (selected_packet selected)))))"

definition item_events :: "nat \<times> SelectedPacketV1 \<times> EvidenceReferenceV1 \<Rightarrow> EventId set" where
  "item_events item = set (event_ids (selected_packet (fst (snd item))))"

text \<open>What an accepted item satisfies: its reference is live, grants the exact relation only and names exactly its events.\<close>

definition item_ok :: "EventLedger \<Rightarrow> ResultId \<Rightarrow> int \<Rightarrow> nat \<times> SelectedPacketV1 \<times> EvidenceReferenceV1 \<Rightarrow> bool" where
  "item_ok l result now item = (case item of (ordinal, selected, reference) \<Rightarrow>
     (\<forall>eid \<in> item_events item. contains l eid) \<and> reference_authorize reference result Exact now = Inr ()
     \<and> er_allowed_relations reference = [Exact] \<and> set (er_targets reference) = TargetEvent ` item_events item
     \<and> length (er_targets reference) = card (item_events item))"

lemma target_events_Inr: "target_events targets = Inr ids \<longleftrightarrow> set targets = TargetEvent ` ids"
proof -
  have "rfold (\<lambda>ids target. rbind (target_event target) (\<lambda>eid. Inr (insert eid ids))) S targets = Inr ids \<longleftrightarrow>
      (\<exists>E. set targets = TargetEvent ` E \<and> ids = S \<union> E)" for S
  proof (induction targets arbitrary: S)
    case (Cons target targets)
    show ?case
    proof (cases target)
      case (TargetEvent eid)
      have "(\<exists>E. set targets = TargetEvent ` E \<and> ids = insert eid S \<union> E) \<longleftrightarrow>
          (\<exists>E. insert target (set targets) = TargetEvent ` E \<and> ids = S \<union> E)" (is "?L \<longleftrightarrow> ?R")
      proof
        assume ?L
        then obtain E where "set targets = TargetEvent ` E" "ids = insert eid S \<union> E" by blast
        then show ?R using TargetEvent by (intro exI [of _ "insert eid E"]) auto
      next
        assume ?R
        then obtain E where E: "insert target (set targets) = TargetEvent ` E" "ids = S \<union> E" by blast
        have "set targets = TargetEvent ` {e. TargetEvent e \<in> set targets}" using E(1) by auto
        moreover have "insert eid {e. TargetEvent e \<in> set targets} = E"
          using E(1) TargetEvent by (auto simp: set_eq_iff image_iff)
        ultimately show ?L using E(2) by (intro exI [of _ "{e. TargetEvent e \<in> set targets}"]) auto
      qed
      then show ?thesis using Cons.IH TargetEvent by simp
    next
      case (TargetBlock b)
      then show ?thesis by auto
    qed
  qed auto
  then show ?thesis by (auto simp: target_events_def)
qed

lemma selected_event_loop:
  "rfold (selected_event_step l) S es = Inr S' \<longleftrightarrow>
     distinct es \<and> set es \<inter> S = {} \<and> (\<forall>e \<in> set es. contains l e) \<and> S' = S \<union> set es"
  by (induction es arbitrary: S) (auto simp: selected_event_step_def result_simps)

lemma evidence_step_tuple:
  "evidence_step l result now (rids, sids, evidence) (ordinal, selected, reference) =
     (let packet_set = btree_set (event_ids (selected_packet selected)) in
      rbind (rfold (selected_event_step l) sids packet_set) (\<lambda>sids.
      rbind (map_err (\<lambda>_. Compiled_ReferenceUnavailable) (reference_authorize reference result Exact now)) (\<lambda>_.
      if er_id reference \<in> rids then Inl Compiled_DuplicateReferenceIdentity
      else if er_allowed_relations reference \<noteq> [Exact] then Inl ReferenceRelationsNotExactOnly
      else rbind (target_events (er_targets reference)) (\<lambda>reference_set.
      if reference_set \<noteq> set packet_set \<or> length (er_targets reference) \<noteq> length packet_set then Inl ReferenceTargetsMismatch
      else if length (compiled_events l packet_set) \<noteq> length packet_set then Inl UnknownSelectedEvent
      else Inr (insert (er_id reference) rids, sids, evidence @ [item_packet l (ordinal, selected, reference)])))))"
  unfolding evidence_step_def item_packet_def Let_def prod.case ..

lemma compiled_events_length:
  assumes "ledger_ok l" and "\<forall>eid \<in> set (event_ids packet). contains l eid"
  shows "length (compiled_events l (btree_set (event_ids packet))) = length (btree_set (event_ids packet))"
proof -
  have "set (btree_set (event_ids packet)) \<subseteq> ev_id ` set (el_events l)"
    using assms ledger_contains [OF assms(1)] by auto
  from members_length [OF assms(1) btree_set_facts(3) this] show ?thesis
    by (simp add: compiled_events_def members_in_ledger_order_def)
qed

lemma length_btree_set: "length (btree_set xs) = card (set xs)"
  by (metis btree_set_facts(1,3) distinct_card)

text \<open>A step succeeds exactly on an acceptable item with fresh events and a fresh reference.\<close>

lemma evidence_step_Inr:
  assumes "ledger_ok l"
  shows "evidence_step l result now (rids, sids, evidence) item = Inr st \<longleftrightarrow>
    item_ok l result now item \<and> item_events item \<inter> sids = {} \<and> er_id (snd (snd item)) \<notin> rids
    \<and> st = (insert (er_id (snd (snd item))) rids, sids \<union> item_events item, evidence @ [item_packet l item])"
proof -
  obtain ordinal selected reference where item: "item = (ordinal, selected, reference)" by (cases item)
  let ?packet = "selected_packet selected"
  have auth: "map_err (\<lambda>_. Compiled_ReferenceUnavailable) (reference_authorize reference result Exact now) = Inr u \<longleftrightarrow>
      reference_authorize reference result Exact now = Inr ()" for u
    by (cases u) (simp add: map_err_Inr)
  have "evidence_step l result now (rids, sids, evidence) item = Inr st \<longleftrightarrow>
      (\<forall>eid \<in> item_events item. contains l eid) \<and> item_events item \<inter> sids = {}
      \<and> reference_authorize reference result Exact now = Inr () \<and> er_id reference \<notin> rids
      \<and> er_allowed_relations reference = [Exact] \<and> set (er_targets reference) = TargetEvent ` item_events item
      \<and> length (er_targets reference) = card (item_events item)
      \<and> length (compiled_events l (btree_set (event_ids ?packet))) = length (btree_set (event_ids ?packet))
      \<and> st = (insert (er_id reference) rids, sids \<union> item_events item, evidence @ [item_packet l item])"
    unfolding item evidence_step_tuple Let_def rbind_Inr selected_event_loop auth target_events_Inr
    by (auto simp: item_events_def length_btree_set rbind_Inr target_events_Inr)
  then show ?thesis
    using compiled_events_length [OF assms, of ?packet] by (auto simp: item_ok_def item item_events_def)
qed

lemma evidence_step_Inl:
  assumes "ledger_ok l" and "\<forall>eid \<in> item_events item. contains l eid" and "item_events item \<inter> sids = {}"
    and "evidence_step l result now (rids, sids, evidence) item = Inl e"
  shows "e \<in> {Compiled_ReferenceUnavailable, Compiled_DuplicateReferenceIdentity, ReferenceRelationsNotExactOnly, ReferenceTargetsMismatch}"
proof -
  obtain ordinal selected reference where item: "item = (ordinal, selected, reference)" by (cases item)
  let ?packet = "selected_packet selected"
  have events: "\<forall>eid \<in> set (event_ids ?packet). contains l eid" "set (event_ids ?packet) \<inter> sids = {}"
    using assms(2,3) by (simp_all add: item item_events_def)
  have loop: "rfold (selected_event_step l) sids (btree_set (event_ids ?packet)) = Inr (sids \<union> set (event_ids ?packet))"
    using events by (simp add: selected_event_loop)
  have target: "target_events targets = Inl e' \<Longrightarrow> e' = ReferenceTargetsMismatch" for targets e'
  proof -
    have "target_event t = Inl e'' \<Longrightarrow> e'' = ReferenceTargetsMismatch" for t e'' by (cases t) simp_all
    then show "target_events targets = Inl e' \<Longrightarrow> ?thesis"
      unfolding target_events_def by (auto elim!: rfold_Inl simp: rbind_Inl)
  qed
  show ?thesis
    using assms(4) compiled_events_length [OF assms(1) events(1)] target
    unfolding item evidence_step_tuple Let_def loop rbind_simps
    by (auto simp: rbind_Inl map_err_Inl split: if_split_asm)
qed

lemma evidence_loop:
  assumes "ledger_ok l" and "rfold (evidence_step l result now) ({}, {}, []) items = Inr (rids, sids, evidence)"
  shows "(\<forall>item \<in> set items. item_ok l result now item) \<and> sids = (\<Union>item \<in> set items. item_events item)
    \<and> evidence = map (item_packet l) items \<and> rids = (\<lambda>item. er_id (snd (snd item))) ` set items
    \<and> distinct (map (\<lambda>item. er_id (snd (snd item))) items)"
proof -
  let ?P = "\<lambda>ys st. case st of (rids, sids, evidence) \<Rightarrow>
    (\<forall>item \<in> set ys. item_ok l result now item) \<and> sids = (\<Union>item \<in> set ys. item_events item)
    \<and> evidence = map (item_packet l) ys \<and> rids = (\<lambda>item. er_id (snd (snd item))) ` set ys
    \<and> distinct (map (\<lambda>item. er_id (snd (snd item))) ys)"
  have "?P items (rids, sids, evidence)"
  proof (rule rfold_invariant [OF assms(2)])
    fix ys y t t'
    assume "?P ys t" and "evidence_step l result now t y = Inr t'"
    then show "?P (ys @ [y]) t'" by (cases t) (auto simp: evidence_step_Inr [OF assms(1)])
  qed simp
  then show ?thesis by simp
qed

lemma evidence_loop_Inl:
  assumes "ledger_ok l" and "rfold (evidence_step l result now) ({}, {}, []) items = Inl e"
    and "distinct (concat (map (\<lambda>item. event_ids (selected_packet (fst (snd item)))) items))"
    and "\<forall>item \<in> set items. \<forall>eid \<in> item_events item. contains l eid"
  shows "e \<in> {Compiled_ReferenceUnavailable, Compiled_DuplicateReferenceIdentity, ReferenceRelationsNotExactOnly, ReferenceTargetsMismatch}
    \<and> \<not> ((\<forall>item \<in> set items. item_ok l result now item) \<and> distinct (map (\<lambda>item. er_id (snd (snd item))) items))"
proof -
  obtain ys y zs t where items: "items = ys @ y # zs" and t: "rfold (evidence_step l result now) ({}, {}, []) ys = Inr t"
    and step: "evidence_step l result now t y = Inl e"
    using assms(2) by (rule rfold_Inl)
  obtain rids sids evidence where t_eq: "t = (rids, sids, evidence)" by (cases t)
  note so_far = evidence_loop [OF assms(1) t [unfolded t_eq]]
  have fresh: "item_events y \<inter> sids = {}"
    using assms(3) so_far by (auto simp: items item_events_def)
  have "\<forall>eid \<in> item_events y. contains l eid" using assms(4) by (simp add: items)
  note error = evidence_step_Inl [OF assms(1) this fresh step [unfolded t_eq]]
  have "\<not> (item_ok l result now y \<and> er_id (snd (snd y)) \<notin> rids)"
    using evidence_step_Inr [OF assms(1), of result now rids sids evidence y] step fresh by (auto simp: t_eq)
  then show ?thesis using error so_far by (auto simp: items)
qed

section \<open>The presentation receipt of a selection\<close>

definition shown_assignment :: "EventLedger \<Rightarrow> EventId set \<Rightarrow> PresentationAssignment list" where
  "shown_assignment l sids = map (\<lambda>e. (ev_id e, if ev_id e \<in> sids then ShownVerbatim else RetainedRaw)) (el_events l)"

lemma shown_assignment_receipt:
  assumes "ledger_ok l"
  shows "PresentationReceipt_reconcile sha256 l (shown_assignment l sids) = Inr (receipt_of sha256 l (shown_assignment l sids))"
    and "dispositions_of l (shown_assignment l sids) = shown_assignment l sids"
proof -
  have fst: "map fst (shown_assignment l sids) = map ev_id (el_events l)" by (simp add: shown_assignment_def comp_def)
  then have distinct: "distinct (map fst (shown_assignment l sids))" using ledger_index.keys_distinct [OF assms] by simp
  moreover have "fst ` set (shown_assignment l sids) = ev_id ` set (el_events l)"
    using fst by (metis list.set_map)
  ultimately show "PresentationReceipt_reconcile sha256 l (shown_assignment l sids) = Inr (receipt_of sha256 l (shown_assignment l sids))"
    by (simp add: presentation_reconcile_Inr [OF assms] one_each_def)
  have "map (\<lambda>k. (k, the (map_of (shown_assignment l sids) k))) (map fst (shown_assignment l sids)) = shown_assignment l sids"
    using distinct by (rule map_of_keys)
  then show "dispositions_of l (shown_assignment l sids) = shown_assignment l sids"
    by (simp add: dispositions_of_def fst comp_def del: map_map) (simp add: comp_def)
qed

lemma shown_counts:
  assumes "ledger_ok l"
  shows "pr_counts (receipt_of sha256 l (shown_assignment l sids)) =
    \<lparr>shown_verbatim = length (filter (\<lambda>e. ev_id e \<in> sids) (el_events l)), pattern_represented = 0,
     retained_raw = length (filter (\<lambda>e. ev_id e \<notin> sids) (el_events l))\<rparr>"
proof -
  have "map snd (shown_assignment l sids) = map (\<lambda>e. if ev_id e \<in> sids then ShownVerbatim else RetainedRaw) (el_events l)"
    by (simp add: shown_assignment_def comp_def)
  then show ?thesis
    by (simp add: receipt_of_def shown_assignment_receipt(2) [OF assms] count_all_def filter_map comp_def if_distrib cong: if_cong)
qed

lemma status_of_selection:
  fixes sha256 sids
  assumes "ledger_ok l"
  defines "receipt \<equiv> receipt_of sha256 l (shown_assignment l sids)"
  shows "map_err map_status_construction_error (status_compiled l receipt) =
    (if \<forall>e \<in> set (el_events l). ev_id e \<in> sids then Inl Brief_CompiledMasqueradesAsPassthrough
     else if \<forall>e \<in> set (el_events l). ev_id e \<notin> sids then Inl Brief_CompiledHasNoPresentedEvidence
     else Inr \<lparr>status_acquisition = completion_completeness (el_completion l), status_selection = StateCompiled receipt\<rparr>)"
proof -
  have all: "length (filter P xs) = length xs \<longleftrightarrow> (\<forall>x \<in> set xs. P x)" for P and xs :: "Event list"
    by (metis filter_True filter_id_conv length_filter_less less_irrefl)
  show ?thesis
    by (auto simp: status_compiled_def receipt_def receipt_of_bound shown_counts [OF assms(1)] all filter_empty_conv Let_def)
qed

section \<open>Certified selections\<close>

lemma concat_disjoint:
  "distinct (concat (map f xs)) \<Longrightarrow> a \<in> set xs \<Longrightarrow> b \<in> set xs \<Longrightarrow> a \<noteq> b \<Longrightarrow> set (f a) \<inter> set (f b) = {}"
  by (induction xs) auto

lemma certified_events:
  assumes ms: "memberships_ok l ms" and ids: "distinct (map packet_id ps)" and certified: "\<forall>p \<in> set ps. certified_packet l model ms p"
  shows "distinct (concat (map event_ids ps)) \<and> (\<forall>p \<in> set ps. set (event_ids p) \<subseteq> ev_id ` set (el_events l))"
proof -
  let ?m = "\<lambda>p. \<lparr>membership_packet_id = packet_id p, membership_event_ids = event_ids p\<rparr>"
  have mem: "?m p \<in> set ms" if "p \<in> set ps" for p using certified that by (simp add: certified_packet_def)
  have each: "distinct (event_ids p)" if "p \<in> set ps" for p
    using ms mem [OF that] by (auto simp: memberships_ok_def distinct_concat_iff)
  have apart: "set (event_ids p) \<inter> set (event_ids q) = {}" if "p \<in> set ps" "q \<in> set ps" "packet_id p \<noteq> packet_id q" for p q
    using concat_disjoint [of membership_event_ids ms "?m p" "?m q"] mem that ms by (simp add: memberships_ok_def)
  have "set qs \<subseteq> set ps \<Longrightarrow> distinct (map packet_id qs) \<Longrightarrow> distinct (concat (map event_ids qs))" for qs
  proof (induction qs)
    case (Cons q qs)
    then show ?case using each apart by (fastforce simp: image_iff)
  qed simp
  moreover have "set (event_ids p) \<subseteq> ev_id ` set (el_events l)" if "p \<in> set ps" for p
    using ms mem [OF that] by (fastforce simp: memberships_ok_def)
  ultimately show ?thesis using ids by auto
qed

definition selection_items :: "SelectionV1 \<Rightarrow> EvidenceReferenceV1 list \<Rightarrow> (nat \<times> SelectedPacketV1 \<times> EvidenceReferenceV1) list" where
  "selection_items sel references = enumerate 0 (zip (sel_packets sel) references)"

lemma selection_items_packets:
  assumes "length references = length (sel_packets sel)"
  shows "map (\<lambda>item. fst (snd item)) (selection_items sel references) = sel_packets sel"
    and "item \<in> set (selection_items sel references) \<Longrightarrow> fst item < length (sel_packets sel)"
proof -
  have "map (\<lambda>item. fst (snd item)) (selection_items sel references) = map fst (map snd (selection_items sel references))" by simp
  also have "map snd (selection_items sel references) = zip (sel_packets sel) references" by (simp add: selection_items_def)
  finally show "map (\<lambda>item. fst (snd item)) (selection_items sel references) = sel_packets sel" using assms by simp
  show "item \<in> set (selection_items sel references) \<Longrightarrow> fst item < length (sel_packets sel)"
    using assms by (auto simp: selection_items_def in_set_enumerate_eq)
qed

text \<open>An accepted item costs at most the certified bound of its packet.\<close>

lemma item_text_bound:
  assumes "certified_packet l model ms (selected_packet (fst (snd item)))" and "selected_ok (fst (snd item))"
    and "fst item < MAX_LOG_BRIEF_EVIDENCE_PACKETS" and "packet_tokens (selected_packet (fst (snd item))) \<le> u64_max"
  shows "length (evidence_text (item_packet l item)) \<le> packet_tokens (selected_packet (fst (snd item)))"
proof -
  obtain ordinal selected reference where item: "item = (ordinal, selected, reference)" by (cases item)
  let ?packet = "selected_packet selected"
  have events: "map (\<lambda>e. \<lparr>render_exactness_code = exactness_code (cee_exactness_basis e),
      render_stream_code = stream_code (cee_stream e), render_authorized_bytes = cee_authorized_bytes e\<rparr>)
      (compiled_events l (btree_set (event_ids ?packet))) = map event_render (members_in_ledger_order l (event_ids ?packet))"
    by (simp add: compiled_events_def members_in_ledger_order_def event_render_def)
  have "length (packet_text ordinal (constraint_code (forcing_constraint selected)) (selected_gain selected) (packet_tokens ?packet)
      (map facet_kind_code (selected_facet_kinds selected)) (map event_render (members_in_ledger_order l (event_ids ?packet))))
    \<le> packet_bound l (event_ids ?packet)"
    unfolding packet_bound_def
    using assms(2-4) length_constraint_code [of "forcing_constraint selected"] length_roles [of "selected_facet_kinds selected"]
    by (intro length_packet_text_mono) (simp_all add: item selected_ok_def MAX_FORCING_CODE_V1_def)
  then show ?thesis
    using assms(1) by (simp add: evidence_text_def item item_packet_def evidence_packet_def Let_def events certified_packet_def)
qed

lemma compiled_text_bound:
  assumes acc: "accounting_ok sel" and len: "length references = length (sel_packets sel)"
    and many: "length (sel_packets sel) \<le> MAX_LOG_BRIEF_EVIDENCE_PACKETS" and some: "sel_packets sel \<noteq> []"
    and overhead: "overhead_tokens (sel_overhead sel) = fixed_bound l result"
    and packets: "\<forall>s \<in> set (sel_packets sel). selected_ok s \<and> certified_packet l model ms (selected_packet s)"
    and counts: "shown_verbatim counts \<le> length (el_events l)" "pattern_represented counts = 0" "retained_raw counts \<le> length (el_events l)"
  shows "length (compiled_text l result (map (item_packet l) (selection_items sel references)) counts) \<le> sel_accounted_tokens sel"
proof -
  let ?items = "selection_items sel references" and ?tokens = "\<lambda>item. packet_tokens (selected_packet (fst (snd item)))"
  have packets_eq: "map (\<lambda>item. fst (snd item)) ?items = sel_packets sel" by (rule selection_items_packets(1) [OF len])
  have mem: "fst (snd item) \<in> set (sel_packets sel)" if "item \<in> set ?items" for item
    using that packets_eq by (metis (no_types, lifting) image_eqI list.set_map)
  have u64: "packet_tokens (selected_packet s) \<le> u64_max" if "s \<in> set (sel_packets sel)" for s
  proof -
    have "packet_tokens (selected_packet s) \<le> (\<Sum>s\<leftarrow>sel_packets sel. packet_tokens (selected_packet s))"
      using that by (intro member_le_sum_list) simp_all
    then show ?thesis using acc by (simp add: accounting_ok_def JSON_SAFE_INTEGER_MAX_def)
  qed
  have "length (concat (map (\<lambda>item. evidence_text (item_packet l item)) ?items)) = (\<Sum>item\<leftarrow>?items. length (evidence_text (item_packet l item)))"
    by (simp add: length_concat comp_def)
  also have "\<dots> \<le> (\<Sum>item\<leftarrow>?items. ?tokens item)"
    using packets mem u64 many selection_items_packets(2) [OF len]
    by (intro sum_list_mono item_text_bound) (fastforce intro: less_le_trans)+
  also have "\<dots> = (\<Sum>s\<leftarrow>sel_packets sel. packet_tokens (selected_packet s))"
    by (simp flip: packets_eq add: comp_def)
  also have "\<dots> = sel_packet_cost sel" using acc by (simp add: accounting_ok_def)
  finally have evidence: "length (concat (map (\<lambda>item. evidence_text (item_packet l item)) ?items)) \<le> sel_packet_cost sel" .
  have "length (coverage_text l counts) \<le> length (coverage_text l \<lparr>shown_verbatim = length (el_events l), pattern_represented = 0, retained_raw = length (el_events l)\<rparr>)"
    using counts by (intro length_coverage_text_mono) simp_all
  moreover have "?items \<noteq> []" using packets_eq some by fastforce
  ultimately show ?thesis
    using evidence overhead acc by (simp add: compiled_text_def accounting_ok_def fixed_bound_def comp_def)
qed

lemma accounting_validates: "accounting_ok sel \<Longrightarrow> validate_selection_accounting sel = Inr ()"
  by (auto simp: validate_selection_accounting_def checked_sub_def accounting_ok_def)

lemma utf8_count_length:
  "whole_render_calls tok < u64_max \<Longrightarrow> length text \<le> u64_max \<Longrightarrow> count_tokens (utf8_tokenizer sha256 tok) text = Inr (length text)"
  by (simp add: utf8_tokenizer_def utf8_count_tokens_def checked_add_u64_fits u64_try_from_def)

lemma cost_gate_passes:
  assumes "accounting_ok sel" and "whole_render_calls tok < u64_max" and "length text \<le> sel_accounted_tokens sel"
  shows "cost_gate (utf8_tokenizer sha256 tok) sel True text = Inr (length text, length text)"
proof -
  have "length text \<le> sel_budget sel" "length text \<le> JSON_SAFE_INTEGER_MAX"
    using assms(1,3) by (simp_all add: accounting_ok_def)
  moreover from this have "length text \<le> u64_max" by (simp add: JSON_SAFE_INTEGER_MAX_def)
  ultimately show ?thesis
    using assms(3) by (simp add: cost_gate_def utf8_count_length [OF assms(2)] u64_try_from_def not_less)
qed

text \<open>The stages after the guards: evidence, receipt and status, text, cost gate.\<close>

definition evidence_stage ::
  "(bytes \<Rightarrow> bytes) \<Rightarrow> EventLedger \<Rightarrow> ResultId \<Rightarrow> bytes \<Rightarrow> PlanDigest \<Rightarrow> SelectionV1 \<Rightarrow> int \<Rightarrow> PinnedTokenizer \<Rightarrow>
   ComposableCostModelV1 \<Rightarrow> bool \<Rightarrow> EventId set \<Rightarrow> CompiledEvidencePacketV1 list \<Rightarrow> (CompiledBriefError, RenderedCompiledBriefV1) result" where
  "evidence_stage sha256 l result question plan_digest sel now tokenizer model certified sids evidence =
     (if \<forall>e \<in> set (el_events l). ev_id e \<in> sids then Inl Brief_CompiledMasqueradesAsPassthrough
      else if \<forall>e \<in> set (el_events l). ev_id e \<notin> sids then Inl Brief_CompiledHasNoPresentedEvidence
      else let receipt = receipt_of sha256 l (shown_assignment l sids);
               status = \<lparr>status_acquisition = completion_completeness (el_completion l), status_selection = StateCompiled receipt\<rparr> in
      rbind (map_err (\<lambda>_. Compiled_RenderedByteLimitExceeded)
          (render_compiled_text l result evidence (pr_counts receipt) (BoundedText_new MAX_WIRE_OBJECT_BYTES))) (\<lambda>text.
      rbind (cost_gate tokenizer sel certified (text_value text)) (\<lambda>(tokens, bytes).
      Inr \<lparr>rcb_brief = compiled_brief sha256 l result question plan_digest sel now tokenizer model certified status evidence tokens bytes,
           rcb_text = text_value text\<rparr>)))"

lemma render_guards_pass:
  assumes l: "ledger_ok l" and plan: "el_plan_digest l = plan_digest"
    and many: "length (sel_packets sel) \<le> MAX_LOG_BRIEF_EVIDENCE_PACKETS" and acc: "accounting_ok sel"
    and model: "overhead_cost_model (sel_overhead sel) = model" "\<forall>s \<in> set (sel_packets sel). cost_model (packet_cost (selected_packet s)) = model"
    and len: "length references = length (sel_packets sel)"
  shows "render_compiled_log_brief_with_cost_model_v1 sha256 l result question plan_digest sel references now tokenizer model certified =
    rbind (rfold (evidence_step l result now) ({}, {}, []) (selection_items sel references)) (\<lambda>(rids, sids, evidence).
      evidence_stage sha256 l result question plan_digest sel now tokenizer model certified sids evidence)"
proof -
  have stage: "rbind (map_err (\<lambda>_. Compiled_PresentationInvariantViolation) (PresentationReceipt_reconcile sha256 l (shown_assignment l sids)))
      (\<lambda>receipt. rbind (map_err map_status_construction_error (status_compiled l receipt)) (\<lambda>status.
       rbind (map_err (\<lambda>_. Compiled_RenderedByteLimitExceeded)
         (render_compiled_text l result evidence (pr_counts receipt) (BoundedText_new MAX_WIRE_OBJECT_BYTES))) (\<lambda>text.
       let text = text_value text in
       rbind (cost_gate tokenizer sel certified text) (\<lambda>(tokens, bytes).
       Inr \<lparr>rcb_brief = compiled_brief sha256 l result question plan_digest sel now tokenizer model certified status evidence tokens bytes,
            rcb_text = text\<rparr>))))
      = evidence_stage sha256 l result question plan_digest sel now tokenizer model certified sids evidence" for sids evidence
    unfolding shown_assignment_receipt(1) [OF l] map_err_simps rbind_simps status_of_selection [OF l] evidence_stage_def Let_def
    by simp
  have none: "\<not> list_ex (\<lambda>s. cost_model (packet_cost (selected_packet s)) \<noteq> model) (sel_packets sel)"
    using model(2) by (simp add: list_ex_iff)
  show ?thesis
    using plan many model(1) len none accounting_validates [OF acc] stage
    by (simp add: render_compiled_log_brief_with_cost_model_v1_def selection_items_def shown_assignment_def)
qed

section \<open>The outcome of certified rendering\<close>

text \<open>The problem is priced by the certificate: its overhead and the cost of every packet are the certified ones.\<close>

definition priced_by :: "SelectionProblemV1 \<Rightarrow> CompiledCostCertificationV1 \<Rightarrow> bool" where
  "priced_by problem cert \<longleftrightarrow> problem_overhead problem = cert_fixed_overhead cert
     \<and> (\<forall>p \<in> set (problem_packets problem). certified_packet_cost cert (packet_id p) (event_ids p) = Inr (packet_cost p))"

definition selected_events :: "SelectionV1 \<Rightarrow> EventId set" where
  "selected_events sel = (\<Union>s \<in> set (sel_packets sel). set (event_ids (selected_packet s)))"

text \<open>
  A brief whose text is the rendering of exactly the selected packets, whose receipt shows exactly
  the selected events and whose size is within the accounted bound.
\<close>

definition certified_brief ::
  "(bytes \<Rightarrow> bytes) \<Rightarrow> EventLedger \<Rightarrow> ResultId \<Rightarrow> SelectionV1 \<Rightarrow> EvidenceReferenceV1 list \<Rightarrow> RenderedCompiledBriefV1 \<Rightarrow> bool" where
  "certified_brief sha256 l result sel references b \<longleftrightarrow>
     (let brief = rcb_brief b; receipt = receipt_of sha256 l (shown_assignment l (selected_events sel)) in
      clb_evidence brief = map (item_packet l) (selection_items sel references)
      \<and> status_selection (clb_status brief) = StateCompiled receipt
      \<and> rcb_text b = compiled_text l result (clb_evidence brief) (pr_counts receipt)
      \<and> cca_total_rendered_tokens (clb_cost brief) = length (rcb_text b)
      \<and> length (rcb_text b) \<le> sel_accounted_tokens sel \<and> sel_accounted_tokens sel \<le> sel_budget sel)"

text \<open>One live reference per selected packet, that grants the exact relation only and names exactly its events.\<close>

definition references_ok :: "EventLedger \<Rightarrow> ResultId \<Rightarrow> int \<Rightarrow> SelectionV1 \<Rightarrow> EvidenceReferenceV1 list \<Rightarrow> bool" where
  "references_ok l result now sel references \<longleftrightarrow>
     (\<forall>item \<in> set (selection_items sel references). item_ok l result now item)
     \<and> distinct (map (\<lambda>item. er_id (snd (snd item))) (selection_items sel references))"

text \<open>The errors that remain: each is a defect of the request, never of the selection or of the accounting.\<close>

definition request_error ::
  "EventLedger \<Rightarrow> ResultId \<Rightarrow> PlanDigest \<Rightarrow> int \<Rightarrow> SelectionProblemV1 \<Rightarrow> SelectionV1 \<Rightarrow> EvidenceReferenceV1 list \<Rightarrow>
   CompiledCostCertificationV1 \<Rightarrow> CompiledBriefError \<Rightarrow> bool" where
  "request_error l result plan_digest now problem sel references cert e \<longleftrightarrow>
     e = Compiled_PlanDigestMismatch \<and> el_plan_digest l \<noteq> plan_digest
     \<or> e = CostCertificationMismatch \<and> \<not> priced_by problem cert
     \<or> e = TooManyEvidencePackets \<and> length (sel_packets sel) > MAX_LOG_BRIEF_EVIDENCE_PACKETS
     \<or> e = Compiled_ReferenceCountMismatch \<and> length references \<noteq> length (sel_packets sel)
     \<or> e \<in> {Compiled_ReferenceUnavailable, Compiled_DuplicateReferenceIdentity, ReferenceRelationsNotExactOnly, ReferenceTargetsMismatch}
       \<and> \<not> references_ok l result now sel references
     \<or> e = Brief_CompiledMasqueradesAsPassthrough \<and> ev_id ` set (el_events l) \<subseteq> selected_events sel
     \<or> e = Brief_CompiledHasNoPresentedEvidence \<and> sel_packets sel = []
     \<or> e = Compiled_RenderedByteLimitExceeded \<and> sel_budget sel > MAX_WIRE_OBJECT_BYTES"

lemma selected_events_items:
  assumes "length references = length (sel_packets sel)"
  shows "(\<Union>item \<in> set (selection_items sel references). item_events item) = selected_events sel"
proof -
  have "selected_events sel = (\<Union>s \<in> set (map (\<lambda>item. fst (snd item)) (selection_items sel references)). set (event_ids (selected_packet s)))"
    using selection_items_packets(1) [OF assms] by (simp add: selected_events_def)
  then show ?thesis by (auto simp: item_events_def)
qed

lemma evidence_stage_outcome:
  fixes sel references
  defines "evidence \<equiv> \<lambda>l. map (item_packet l) (selection_items sel references)"
  assumes l: "ledger_ok l" and acc: "accounting_ok sel" and calls: "whole_render_calls tok < u64_max"
    and len: "length references = length (sel_packets sel)" and many: "length (sel_packets sel) \<le> MAX_LOG_BRIEF_EVIDENCE_PACKETS"
    and overhead: "overhead_tokens (sel_overhead sel) = fixed_bound l result"
    and packets: "\<forall>s \<in> set (sel_packets sel). selected_ok s \<and> certified_packet l model ms (selected_packet s)"
    and events: "\<forall>s \<in> set (sel_packets sel). event_ids (selected_packet s) \<noteq> [] \<and> set (event_ids (selected_packet s)) \<subseteq> ev_id ` set (el_events l)"
  shows "case evidence_stage sha256 l result question plan_digest sel now (utf8_tokenizer sha256 tok) model True (selected_events sel) (evidence l) of
    Inr b \<Rightarrow> certified_brief sha256 l result sel references b
  | Inl e \<Rightarrow> request_error l result pd now problem sel references cert e"
proof -
  let ?sids = "selected_events sel" and ?receipt = "receipt_of sha256 l (shown_assignment l (selected_events sel))"
  let ?text = "compiled_text l result (evidence l) (pr_counts ?receipt)"
  consider "\<forall>e \<in> set (el_events l). ev_id e \<in> ?sids" | "\<exists>e \<in> set (el_events l). ev_id e \<notin> ?sids" "\<forall>e \<in> set (el_events l). ev_id e \<notin> ?sids"
    | "\<not> (\<forall>e \<in> set (el_events l). ev_id e \<in> ?sids)" "\<not> (\<forall>e \<in> set (el_events l). ev_id e \<notin> ?sids)" by blast
  then show ?thesis
  proof cases
    case 1
    then show ?thesis by (auto simp: evidence_stage_def request_error_def)
  next
    case 2
    have "sel_packets sel = []"
    proof (rule ccontr)
      assume "sel_packets sel \<noteq> []"
      then obtain s where s: "s \<in> set (sel_packets sel)" by (metis list.set_sel(1))
      then obtain eid where "eid \<in> set (event_ids (selected_packet s))" using events by (metis list.set_sel(1))
      then have "eid \<in> ?sids" "eid \<in> ev_id ` set (el_events l)" using s events by (auto simp: selected_events_def)
      then show False using 2(2) by auto
    qed
    then show ?thesis using 2 by (auto simp: evidence_stage_def request_error_def)
  next
    case 3
    have some: "sel_packets sel \<noteq> []" using 3(2) by (auto simp: selected_events_def)
    have ok: "\<forall>packet \<in> set (evidence l). cep_ordinal packet < u64_max \<and> length (cep_events packet) \<le> u64_max"
    proof
      fix packet assume "packet \<in> set (evidence l)"
      then obtain ordinal selected reference where item: "(ordinal, selected, reference) \<in> set (selection_items sel references)"
        and packet: "packet = item_packet l (ordinal, selected, reference)" by (auto simp: evidence_def)
      have "ordinal < u64_max"
        using selection_items_packets(2) [OF len item] many by (simp add: MAX_LOG_BRIEF_EVIDENCE_PACKETS_def)
      moreover have "length (compiled_events l (btree_set (event_ids (selected_packet selected)))) \<le> u64_max"
        using l by (simp add: compiled_events_def ledger_ok_def le_trans [OF length_filter_le])
      ultimately show "cep_ordinal packet < u64_max \<and> length (cep_events packet) \<le> u64_max"
        by (simp add: packet item_packet_def evidence_packet_def Let_def)
    qed
    note written = writes_new [OF writes_compiled_text [OF ok] wire_limit_u64]
    have bound: "length ?text \<le> sel_accounted_tokens sel"
      unfolding evidence_def
      by (rule compiled_text_bound [OF acc len many some overhead packets]) (simp_all add: shown_counts [OF l])
    have budget: "sel_accounted_tokens sel \<le> sel_budget sel" using acc by (simp add: accounting_ok_def)
    show ?thesis
    proof (cases "length ?text \<le> MAX_WIRE_OBJECT_BYTES")
      case True
      then show ?thesis
        using bound budget cost_gate_passes [OF acc calls bound, of sha256]
        unfolding evidence_stage_def if_not_P [OF 3(1)] if_not_P [OF 3(2)] Let_def written
        by (simp add: certified_brief_def compiled_brief_def Let_def) (simp add: evidence_def)
    next
      case False
      then show ?thesis
        using bound budget unfolding evidence_stage_def if_not_P [OF 3(1)] if_not_P [OF 3(2)] Let_def written
        by (simp add: request_error_def)
    qed
  qed
qed

context selector
begin

text \<open>A verified selection that passes the guards: the loop and the stages after it.\<close>

lemma verified_render:
  assumes l: "ledger_ok l" and ok: "problem_ok problem" and sel: "run problem guidance = Inr (Selected sel)"
    and ms: "memberships_ok l ms" and calls: "whole_render_calls tok < u64_max"
    and overhead: "sel_overhead sel = \<lparr>overhead_cost_model = model, overhead_tokens = fixed_bound l result\<rparr>"
    and distinct: "distinct (map packet_id (map selected_packet (sel_packets sel)))"
    and certified: "\<forall>s \<in> set (sel_packets sel). certified_packet l model ms (selected_packet s)"
    and plan: "el_plan_digest l = plan_digest" and many: "length (sel_packets sel) \<le> MAX_LOG_BRIEF_EVIDENCE_PACKETS"
    and len: "length references = length (sel_packets sel)"
  shows "case render_compiled_log_brief_with_cost_model_v1 sha256 l result question plan_digest sel references now
      (utf8_tokenizer sha256 tok) model True of
    Inr b \<Rightarrow> certified_brief sha256 l result sel references b
  | Inl e \<Rightarrow> request_error l result plan_digest now problem sel references cert e"
proof -
  note acc = run_accounting [OF ok sel]
  let ?items = "selection_items sel references"
  have packets: "\<forall>s \<in> set (sel_packets sel). selected_ok s \<and> certified_packet l model ms (selected_packet s)"
    using run_selection_ok [OF ok sel] certified by (simp add: selection_ok_def)
  have models: "overhead_cost_model (sel_overhead sel) = model" "\<forall>s \<in> set (sel_packets sel). cost_model (packet_cost (selected_packet s)) = model"
    using certified overhead by (simp_all add: certified_packet_def)
  note pass = render_guards_pass [OF l plan many acc models len]
  have all: "distinct (concat (map event_ids (map selected_packet (sel_packets sel))))"
    "\<forall>s \<in> set (sel_packets sel). set (event_ids (selected_packet s)) \<subseteq> ev_id ` set (el_events l)"
    using certified_events [OF ms distinct] certified by simp_all
  have events: "\<forall>s \<in> set (sel_packets sel). event_ids (selected_packet s) \<noteq> [] \<and> set (event_ids (selected_packet s)) \<subseteq> ev_id ` set (el_events l)"
    using all(2) run_packets_fit(1) [OF ok sel] by (simp add: packet_ok_def)
  show ?thesis
  proof (cases "rfold (evidence_step l result now) ({}, {}, []) ?items")
    case (Inl e)
    have "map (\<lambda>item. event_ids (selected_packet (fst (snd item)))) ?items = map event_ids (map selected_packet (sel_packets sel))"
      by (subst selection_items_packets(1) [OF len, symmetric]) simp
    moreover have "selected_events sel \<subseteq> ev_id ` set (el_events l)" using all(2) by (auto simp: selected_events_def)
    then have "\<forall>item \<in> set ?items. \<forall>eid \<in> item_events item. contains l eid"
      unfolding selected_events_items [OF len, symmetric] ledger_contains [OF l] by blast
    ultimately show ?thesis
      using evidence_loop_Inl [OF l Inl] all(1) Inl by (simp add: pass request_error_def references_ok_def)
  next
    case (Inr st)
    obtain rids sids evidence where st: "st = (rids, sids, evidence)" by (cases st)
    have "sids = selected_events sel" "evidence = map (item_packet l) ?items"
      using evidence_loop [OF l Inr [unfolded st]] selected_events_items [OF len] by simp_all
    moreover have "overhead_tokens (sel_overhead sel) = fixed_bound l result" using overhead by simp
    note evidence_stage_outcome [OF l acc calls len many this packets events]
    ultimately show ?thesis
      unfolding pass Inr st rbind_simps prod.case by simp
  qed
qed

lemma unverified_selection:
  assumes l: "ledger_ok l" and ok: "problem_ok problem" and sel: "run problem guidance = Inr (Selected sel)"
    and ids: "distinct (map membership_packet_id ms)" and cert_eq: "cert = certificate_of sha256 l result ms"
    and unverified: "verify_selection sha256 cert l result sel tok = Inl e"
  shows "\<not> priced_by problem cert" and "map_cost_certification_error e = CostCertificationMismatch"
proof -
  let ?model = "cert_cost_model cert"
  have "cert_packet_bounds cert = sort_key bound_packet_id (map (bound_of l ?model) ms)"
    by (simp add: cert_eq certificate_of_def Let_def)
  note priced = certified_packet_cost_iff [OF ids this]
  show "\<not> priced_by problem cert"
  proof
    assume "priced_by problem cert"
    then have "verify_selection sha256 cert l result sel tok = Inr ()"
      unfolding verify_selection_iff [OF ids, of sha256 l result result sel tok, folded cert_eq]
      using run_selection_ok [OF ok sel] by (simp add: priced_by_def selection_ok_def priced certified_packet_def)
    then show False using unverified by simp
  qed
  show "map_cost_certification_error e = CostCertificationMismatch"
    using unverified by (cases e) (auto simp: verify_selection_def verify_selected_step_def certified_packet_cost_def cert_eq
        certificate_of_def Let_def tokenizer_supported result_simps elim!: rfold_Inl split: if_split_asm)
qed

lemma certified_render:
  assumes l: "ledger_ok l" and ok: "problem_ok problem" and sel: "run problem guidance = Inr (Selected sel)"
    and cert: "certify_compiled_costs_v1 sha256 l result ms tok' = Inr cert" and calls: "whole_render_calls tok < u64_max"
  shows "case render_cost_certified_compiled_log_brief_v1 sha256 l result question plan_digest sel references now tok cert of
    Inr b \<Rightarrow> certified_brief sha256 l result sel references b
  | Inl e \<Rightarrow> request_error l result plan_digest now problem sel references cert e"
proof -
  have ms: "memberships_ok l ms" and cert_eq: "cert = certificate_of sha256 l result ms"
    using cert by (simp_all add: certify_iff [OF l] certifiable_def)
  have ids: "distinct (map membership_packet_id ms)" using ms by (simp add: memberships_ok_def)
  note acc = run_accounting [OF ok sel]
  let ?model = "cert_cost_model cert"
  have fixed: "cert_fixed_overhead cert = \<lparr>overhead_cost_model = ?model, overhead_tokens = fixed_bound l result\<rparr>"
    by (simp add: cert_eq certificate_of_def Let_def)
  note verify = verify_selection_iff [OF ids, of sha256 l result result sel tok, folded cert_eq]
  show ?thesis
  proof (cases "verify_selection sha256 cert l result sel tok")
    case (Inl e)
    note unverified_selection [OF l ok sel ids cert_eq Inl]
    then show ?thesis using Inl by (simp add: render_cost_certified_compiled_log_brief_v1_def request_error_def)
  next
    case (Inr u)
    then have overhead: "sel_overhead sel = \<lparr>overhead_cost_model = ?model, overhead_tokens = fixed_bound l result\<rparr>"
      and distinct: "distinct (map packet_id (map selected_packet (sel_packets sel)))"
      and certified: "\<forall>s \<in> set (sel_packets sel). certified_packet l ?model ms (selected_packet s)"
      using verify fixed by (simp_all add: comp_def)
    have render: "render_cost_certified_compiled_log_brief_v1 sha256 l result question plan_digest sel references now tok cert =
        render_compiled_log_brief_with_cost_model_v1 sha256 l result question plan_digest sel references now (utf8_tokenizer sha256 tok) ?model True"
      using Inr by (simp add: render_cost_certified_compiled_log_brief_v1_def)
    consider "el_plan_digest l \<noteq> plan_digest" | "el_plan_digest l = plan_digest" "length (sel_packets sel) > MAX_LOG_BRIEF_EVIDENCE_PACKETS"
      | "el_plan_digest l = plan_digest" "length (sel_packets sel) \<le> MAX_LOG_BRIEF_EVIDENCE_PACKETS" "length references \<noteq> length (sel_packets sel)"
      | "el_plan_digest l = plan_digest" "length (sel_packets sel) \<le> MAX_LOG_BRIEF_EVIDENCE_PACKETS" "length references = length (sel_packets sel)"
      by linarith
    then show ?thesis
    proof cases
      case 1
      then show ?thesis
        by (simp add: render render_compiled_log_brief_with_cost_model_v1_def request_error_def)
    next
      case 2
      then show ?thesis
        by (simp add: render render_compiled_log_brief_with_cost_model_v1_def request_error_def)
    next
      case 3
      have "\<not> list_ex (\<lambda>s. cost_model (packet_cost (selected_packet s)) \<noteq> ?model) (sel_packets sel)"
        using certified by (simp add: list_ex_iff certified_packet_def)
      then show ?thesis
        using 3 accounting_validates [OF acc] overhead
        by (simp add: render render_compiled_log_brief_with_cost_model_v1_def request_error_def)
    next
      case 4
      from verified_render [OF l ok sel ms calls overhead distinct certified this] show ?thesis by (simp add: render)
    qed
  qed
qed

end

end
