(* ===== verification/Evidence_Passthrough.thy ===== *)
theory Evidence_Passthrough
  imports Evidence_Cost
begin

text \<open>
  The exact passthrough brief (\<open>evidentrail-evidence/src/lib.rs\<close>): binding one reference to every event,
  the whole render and the decision between the rendered brief and the hand-off to compilation.
\<close>

section \<open>Artifact types\<close>

definition RENDERER_MANIFEST_V1 :: bytes where
  "RENDERER_MANIFEST_V1 = ''evidentrail-evidence/passthrough-text-renderer/v1'' @ [CHR 0x00]
     @ ''sections=status,scope,evidence,coverage'' @ [CHR 0x00] @ ''evidence-bytes=ascii-byte-escape-v1'' @ [CHR 0x00]
     @ ''text-citations=result-scoped-ordinal-alias-v1'' @ [CHR 0x00] @ ''structured-ids=full-canonical'' @ [CHR 0x00]
     @ ''newlines=lf'' @ [CHR 0x00] @ ''diagnosis=none''"

definition passthrough_renderer_digest_v1 :: "(bytes \<Rightarrow> bytes) \<Rightarrow> bytes" where
  "passthrough_renderer_digest_v1 sha256 = sha256 RENDERER_MANIFEST_V1"

record PassthroughRenderBudgetV1 =
  prb_total_token_limit :: nat
  prb_total_rendered_tokens :: nat
  prb_total_rendered_bytes :: nat
  prb_tokenizer_digest :: bytes
  prb_renderer_digest :: bytes

record PassthroughEvidenceV1 =
  pe_ordinal :: nat
  pe_event_id :: EventId
  pe_reference :: EvidenceReferenceV1
  pe_exactness_basis :: ExactnessBasis
  pe_stream :: SourceStream
  pe_authorized_bytes :: bytes

record PassthroughCoverageV1 =
  pcv_acquisition_receipt_id :: AcquisitionReceiptId
  pcv_presentation_receipt_id :: PresentationReceiptId
  pcv_acknowledged_records :: nat
  pcv_presentation_counts :: PresentationCounts
  pcv_source_exact_records :: nat
  pcv_post_policy_records :: nat
  pcv_omitted_by_policy_records :: nat

record PassthroughLogBriefV1 =
  plb_result_id :: ResultId
  plb_question_digest :: bytes
  plb_plan_digest :: PlanDigest
  plb_reference_authorized_at :: int
  plb_status :: ResultStatusV1
  plb_budget :: PassthroughRenderBudgetV1
  plb_coverage :: PassthroughCoverageV1
  plb_evidence :: "PassthroughEvidenceV1 list"

record RenderedPassthroughBriefV1 =
  rpb_brief :: PassthroughLogBriefV1
  rpb_text :: bytes

datatype PassthroughNotFitReasonV1 = EvidencePacketLimitExceeded | TotalTokenBudgetExceeded | RenderedByteLimitExceeded

record PassthroughNotFitV1 =
  not_fit_reason :: PassthroughNotFitReasonV1
  not_fit_total_token_limit :: nat
  not_fit_required_tokens :: "nat option"
  not_fit_tokenizer_digest :: bytes
  not_fit_renderer_digest :: bytes

datatype PassthroughBriefDecisionV1 = BriefRendered RenderedPassthroughBriefV1 | BriefCompilationRequired PassthroughNotFitV1

datatype PassthroughBriefError =
    Passthrough_PlanDigestMismatch | PassthroughStatusInvariantViolation | TooManyEvidenceEvents
  | Passthrough_ReferenceCountMismatch | Passthrough_ReferenceUnavailable | ReferenceTargetMustBeOneEvent
  | ReferenceTargetsUnknownEvent | DuplicateReferenceTarget | Passthrough_DuplicateReferenceIdentity
  | MissingEventReference | Passthrough_TokenizerFailure | Passthrough_TokenCountOutOfRange
  | Passthrough_RenderedByteCountOverflow

section \<open>Binding references\<close>

definition bind_step ::
  "EventLedger \<Rightarrow> ResultId \<Rightarrow> int \<Rightarrow> (EventId, EvidenceReferenceV1) btree_map \<times> EvidenceReferenceId set \<Rightarrow> EvidenceReferenceV1 \<Rightarrow>
   (PassthroughBriefError, (EventId, EvidenceReferenceV1) btree_map \<times> EvidenceReferenceId set) result" where
  "bind_step l result now state reference =
     (case state of (by_event, reference_ids) \<Rightarrow>
       rbind (map_err (\<lambda>_. Passthrough_ReferenceUnavailable) (reference_authorize reference result Exact now)) (\<lambda>_.
       case er_targets reference of
         [TargetEvent eid] \<Rightarrow>
           if \<not> contains l eid then Inl ReferenceTargetsUnknownEvent
           else if er_id reference \<in> reference_ids then Inl Passthrough_DuplicateReferenceIdentity
           else if map_of by_event eid \<noteq> None then Inl DuplicateReferenceTarget
           else Inr (bt_insert eid reference by_event, insert (er_id reference) reference_ids)
       | _ \<Rightarrow> Inl ReferenceTargetMustBeOneEvent))"

definition take_reference_step ::
  "(EventId, EvidenceReferenceV1) btree_map \<times> EvidenceReferenceV1 list \<Rightarrow> Event \<Rightarrow>
   (PassthroughBriefError, (EventId, EvidenceReferenceV1) btree_map \<times> EvidenceReferenceV1 list) result" where
  "take_reference_step state e =
     (case state of (by_event, bound) \<Rightarrow>
       rbind (ok_or MissingEventReference (map_of by_event (ev_id e))) (\<lambda>reference.
       Inr (bt_remove (ev_id e) by_event, bound @ [reference])))"

definition bind_references ::
  "EventLedger \<Rightarrow> ResultId \<Rightarrow> EvidenceReferenceV1 list \<Rightarrow> int \<Rightarrow> (PassthroughBriefError, EvidenceReferenceV1 list) result" where
  "bind_references l result references now =
     (if length references \<noteq> length (el_events l) then Inl Passthrough_ReferenceCountMismatch
      else rbind (rfold (bind_step l result now) ([], {}) references) (\<lambda>(by_event, reference_ids).
        rbind (rfold take_reference_step (by_event, []) (el_events l)) (\<lambda>(rest, bound). Inr bound)))"

section \<open>Rendering\<close>

definition render_passthrough_item :: "PassthroughEvidenceV1 \<Rightarrow> writer" where
  "render_passthrough_item item = write_all
     [push ''  [E'',
      push_usize (pe_ordinal item + 1),
      push '']\<newline>    expand: E'',
      push_usize (pe_ordinal item + 1),
      push '' '',
      push_separated (map relation_code (er_allowed_relations (pe_reference item))),
      push ''\<newline>    exactness: '',
      push (exactness_code (pe_exactness_basis item)),
      push ''\<newline>    stream: '',
      push (stream_code (pe_stream item)),
      push ''\<newline>    data_encoding: ascii_byte_escape_v1\<newline>    data: '',
      push_escaped (pe_authorized_bytes item),
      push ''\<newline>'']"

definition render_text :: "EventLedger \<Rightarrow> ResultId \<Rightarrow> PassthroughEvidenceV1 list \<Rightarrow> writer" where
  "render_text l result evidence = write_all
     [push ''STATUS\<newline>'',
      push ''  result: '',
      push (result_canonical_token result),
      push ''\<newline>  untrusted_data: true\<newline>  acquisition: '',
      render_acquisition (completion_completeness (el_completion l)),
      push ''\<newline>  selection: PASSTHROUGH\<newline>\<newline>'',
      push ''SCOPE\<newline>  acknowledged_records: '',
      push_usize (acknowledged_count (el_acquisition_receipt l)),
      push ''\<newline>  persisted_events: '',
      push_usize (length (el_events l)),
      push ''\<newline>  policy_omitted_records: '',
      push_usize (omitted_by_policy (receipt_counts (el_acquisition_receipt l))),
      push ''\<newline>\<newline>EVIDENCE\<newline>'',
      \<lambda>t. if evidence = [] then push ''  (none)\<newline>'' t else Inr t,
      \<lambda>t. rfold (\<lambda>t item. render_passthrough_item item t) t evidence,
      push ''\<newline>COVERAGE\<newline>  shown_verbatim: '',
      push_usize (length (el_events l)),
      push ''\<newline>  pattern_represented: '',
      push_usize 0,
      push ''\<newline>  retained_raw: '',
      push_usize 0,
      push ''\<newline>  source_exact_records: '',
      push_usize (source_exact (receipt_counts (el_acquisition_receipt l))),
      push ''\<newline>  post_policy_records: '',
      push_usize (post_policy (receipt_counts (el_acquisition_receipt l))),
      push ''\<newline>  policy_omitted_records: '',
      push_usize (omitted_by_policy (receipt_counts (el_acquisition_receipt l))),
      push ''\<newline>'']"

section \<open>The brief\<close>

definition passthrough_evidence :: "EventLedger \<Rightarrow> EvidenceReferenceV1 list \<Rightarrow> PassthroughEvidenceV1 list" where
  "passthrough_evidence l references =
     map (\<lambda>((ordinal, e), reference). \<lparr>pe_ordinal = ordinal, pe_event_id = ev_id e, pe_reference = reference,
            pe_exactness_basis = ev_exactness_basis e, pe_stream = snd (ev_lane e), pe_authorized_bytes = ev_raw e\<rparr>)
       (zip (enumerate 0 (el_events l)) references)"

definition not_fit ::
  "(bytes \<Rightarrow> bytes) \<Rightarrow> PinnedTokenizer \<Rightarrow> nat \<Rightarrow> PassthroughNotFitReasonV1 \<Rightarrow> nat option \<Rightarrow> PassthroughBriefDecisionV1" where
  "not_fit sha256 tokenizer limit reason required =
     BriefCompilationRequired \<lparr>not_fit_reason = reason, not_fit_total_token_limit = limit, not_fit_required_tokens = required,
       not_fit_tokenizer_digest = tokenizer_digest tokenizer, not_fit_renderer_digest = passthrough_renderer_digest_v1 sha256\<rparr>"

definition passthrough_brief ::
  "(bytes \<Rightarrow> bytes) \<Rightarrow> EventLedger \<Rightarrow> ResultId \<Rightarrow> bytes \<Rightarrow> PlanDigest \<Rightarrow> int \<Rightarrow> nat \<Rightarrow> PinnedTokenizer \<Rightarrow> ResultStatusV1 \<Rightarrow>
   PassthroughEvidenceV1 list \<Rightarrow> nat \<Rightarrow> nat \<Rightarrow> PassthroughLogBriefV1" where
  "passthrough_brief sha256 l result question_digest plan_digest now limit tokenizer status evidence tokens bytes =
     (let counts = receipt_counts (el_acquisition_receipt l);
          receipt = state_presentation_receipt (status_selection status) in
      \<lparr>plb_result_id = result, plb_question_digest = question_digest, plb_plan_digest = plan_digest,
       plb_reference_authorized_at = now, plb_status = status,
       plb_budget = \<lparr>prb_total_token_limit = limit, prb_total_rendered_tokens = tokens, prb_total_rendered_bytes = bytes,
         prb_tokenizer_digest = tokenizer_digest tokenizer, prb_renderer_digest = passthrough_renderer_digest_v1 sha256\<rparr>,
       plb_coverage = \<lparr>pcv_acquisition_receipt_id = el_acquisition_receipt_id l, pcv_presentation_receipt_id = pr_id receipt,
         pcv_acknowledged_records = acknowledged_count (el_acquisition_receipt l), pcv_presentation_counts = pr_counts receipt,
         pcv_source_exact_records = source_exact counts, pcv_post_policy_records = post_policy counts,
         pcv_omitted_by_policy_records = omitted_by_policy counts\<rparr>,
       plb_evidence = evidence\<rparr>)"

text \<open>What follows a render that fits the wire limit: the token gate, the status and the brief.\<close>

definition passthrough_decide ::
  "(bytes \<Rightarrow> bytes) \<Rightarrow> EventLedger \<Rightarrow> ResultId \<Rightarrow> bytes \<Rightarrow> PlanDigest \<Rightarrow> int \<Rightarrow> nat \<Rightarrow> PinnedTokenizer \<Rightarrow>
   PassthroughEvidenceV1 list \<Rightarrow> bytes \<Rightarrow> (PassthroughBriefError, PassthroughBriefDecisionV1) result" where
  "passthrough_decide sha256 l result question_digest plan_digest now limit tokenizer evidence text =
     rbind (map_err (\<lambda>_. Passthrough_TokenizerFailure) (count_tokens tokenizer text)) (\<lambda>tokens.
     if tokens > JSON_SAFE_INTEGER_MAX then Inl Passthrough_TokenCountOutOfRange
     else rbind (map_err (\<lambda>_. PassthroughStatusInvariantViolation)
         (select_whole_render_passthrough sha256 l \<lparr>total_rendered_tokens = tokens, total_token_limit = limit\<rparr>)) (\<lambda>decision.
     case decision of
       CompilationRequired _ \<Rightarrow> Inr (not_fit sha256 tokenizer limit TotalTokenBudgetExceeded (Some tokens))
     | PassthroughSelected selection \<Rightarrow>
         rbind (map_err (\<lambda>_. PassthroughStatusInvariantViolation) (status_passthrough l selection)) (\<lambda>status.
         rbind (ok_or Passthrough_RenderedByteCountOverflow (u64_try_from (length text))) (\<lambda>bytes.
         Inr (BriefRendered \<lparr>rpb_brief = passthrough_brief sha256 l result question_digest plan_digest now limit tokenizer
                status evidence tokens bytes, rpb_text = text\<rparr>)))))"

definition render_passthrough_log_brief_v1 ::
  "(bytes \<Rightarrow> bytes) \<Rightarrow> EventLedger \<Rightarrow> ResultId \<Rightarrow> bytes \<Rightarrow> PlanDigest \<Rightarrow> EvidenceReferenceV1 list \<Rightarrow> int \<Rightarrow> nat \<Rightarrow> PinnedTokenizer \<Rightarrow>
   (PassthroughBriefError, PassthroughBriefDecisionV1) result" where
  "render_passthrough_log_brief_v1 sha256 l result question_digest plan_digest references now limit tokenizer =
     (if el_plan_digest l \<noteq> plan_digest then Inl Passthrough_PlanDigestMismatch
      else if length (el_events l) > MAX_LOG_BRIEF_EVIDENCE_PACKETS
      then Inr (not_fit sha256 tokenizer limit EvidencePacketLimitExceeded None)
      else rbind (bind_references l result references now) (\<lambda>references.
      let evidence = passthrough_evidence l references in
      case render_text l result evidence (BoundedText_new MAX_WIRE_OBJECT_BYTES) of
        Inl _ \<Rightarrow> Inr (not_fit sha256 tokenizer limit RenderedByteLimitExceeded None)
      | Inr text \<Rightarrow> passthrough_decide sha256 l result question_digest plan_digest now limit tokenizer evidence (text_value text)))"

end
