(* ===== verification/Evidence_Passthrough_Spec.thy ===== *)
theory Evidence_Passthrough_Spec
  imports Evidence_Passthrough
begin

text \<open>
  What the passthrough brief guarantees: binding permutes the references into ledger order, the
  renderer writes a text that is given in closed form, and the decision is exactly a brief that
  shows every event, a reason why none fits, or a defect of the request.
\<close>

section \<open>What binding establishes\<close>

definition reference_event :: "EvidenceReferenceV1 \<Rightarrow> EventId" where
  "reference_event r = (case er_targets r of [TargetEvent eid] \<Rightarrow> eid | _ \<Rightarrow> [])"

text \<open>A reference to one event of the ledger that is live for the result.\<close>

definition live_event_reference :: "EventLedger \<Rightarrow> ResultId \<Rightarrow> int \<Rightarrow> EvidenceReferenceV1 \<Rightarrow> bool" where
  "live_event_reference l result now r \<longleftrightarrow> er_targets r = [TargetEvent (reference_event r)] \<and> contains l (reference_event r)
     \<and> reference_authorize r result Exact now = Inr ()"

definition binding_ok :: "EventLedger \<Rightarrow> ResultId \<Rightarrow> int \<Rightarrow> EvidenceReferenceV1 list \<Rightarrow> bool" where
  "binding_ok l result now rs \<longleftrightarrow> (\<forall>r \<in> set rs. live_event_reference l result now r)
     \<and> distinct (map reference_event rs) \<and> distinct (map er_id rs)"

definition bound_map :: "EvidenceReferenceV1 list \<Rightarrow> (EventId, EvidenceReferenceV1) btree_map" where
  "bound_map rs = fold (\<lambda>r. bt_insert (reference_event r) r) rs []"

lemma bound_map_lookup:
  "distinct (map reference_event rs) \<Longrightarrow> map_of (bound_map rs) eid = map_of (map (\<lambda>r. (reference_event r, r)) rs) eid"
proof (induction rs rule: rev_induct)
  case (snoc r rs)
  have "map_of (map (\<lambda>r. (reference_event r, r)) rs) (reference_event r) = None"
    using snoc.prems by (auto simp: map_of_eq_None_iff)
  then show ?case using snoc by (simp add: bound_map_def map_add_def split: option.split)
qed (simp add: bound_map_def)

lemma bound_map_None: "map_of (bound_map rs) eid = None \<longleftrightarrow> eid \<notin> reference_event ` set rs"
  unfolding bound_map_def by (induction rs rule: rev_induct) auto

lemma bind_step_pair:
  "bind_step l result now (m, ids) r = Inr st \<longleftrightarrow> live_event_reference l result now r \<and> er_id r \<notin> ids
     \<and> map_of m (reference_event r) = None \<and> st = (bt_insert (reference_event r) r m, insert (er_id r) ids)"
  by (auto simp: bind_step_def live_event_reference_def reference_event_def result_simps split: list.split EvidenceTargetRef.split)

lemma bind_step_Inl:
  "bind_step l result now st r = Inl e \<Longrightarrow> e \<in> {Passthrough_ReferenceUnavailable, ReferenceTargetMustBeOneEvent,
     ReferenceTargetsUnknownEvent, Passthrough_DuplicateReferenceIdentity, DuplicateReferenceTarget}"
  by (cases st) (auto simp: bind_step_def result_simps split: list.split_asm EvidenceTargetRef.split_asm if_split_asm)

lemma bind_loop:
  "rfold (bind_step l result now) ([], {}) rs = Inr st \<longleftrightarrow> binding_ok l result now rs \<and> st = (bound_map rs, er_id ` set rs)"
proof (induction rs arbitrary: st rule: rev_induct)
  case (snoc r rs)
  have "rfold (bind_step l result now) ([], {}) (rs @ [r]) = Inr st \<longleftrightarrow>
      binding_ok l result now rs \<and> bind_step l result now (bound_map rs, er_id ` set rs) r = Inr st"
    by (cases st) (auto simp: rfold_append rbind_Inr snoc.IH)
  then show ?case
    unfolding bind_step_pair bound_map_None by (auto simp: binding_ok_def bound_map_def)
qed (auto simp: binding_ok_def bound_map_def)

lemma take_loop:
  assumes "distinct (map ev_id es)" and "\<forall>e \<in> set es. map_of m (ev_id e) \<noteq> None"
  shows "\<exists>rest. rfold take_reference_step (m, bound) es = Inr (rest, bound @ map (\<lambda>e. the (map_of m (ev_id e))) es)"
  using assms
proof (induction es arbitrary: m bound)
  case (Cons e es)
  obtain r where r: "map_of m (ev_id e) = Some r" using Cons.prems(2) by auto
  have other: "map_of (bt_remove (ev_id e) m) (ev_id f) = map_of m (ev_id f)" if "f \<in> set es" for f
    using Cons.prems(1) that by (auto simp: image_iff)
  have "\<exists>rest. rfold take_reference_step (bt_remove (ev_id e) m, bound @ [r]) es =
      Inr (rest, (bound @ [r]) @ map (\<lambda>f. the (map_of (bt_remove (ev_id e) m) (ev_id f))) es)"
    using Cons.prems other by (intro Cons.IH) simp_all
  moreover have "take_reference_step (m, bound) e = Inr (bt_remove (ev_id e) m, bound @ [r])"
    using r by (simp add: take_reference_step_def)
  ultimately show ?case using r other by (simp cong: map_cong)
qed simp

lemma bound_map_total:
  assumes l: "ledger_ok l" and ok: "binding_ok l result now rs" and len: "length rs = length (el_events l)"
  shows "reference_event ` set rs = ev_id ` set (el_events l)"
    and "\<forall>e \<in> set (el_events l). map_of (bound_map rs) (ev_id e) \<noteq> None"
proof -
  have ids: "distinct (map ev_id (el_events l))" by (rule ledger_index.keys_distinct [OF l])
  have "set (map reference_event rs) \<subseteq> set (map ev_id (el_events l))"
    using ok ledger_contains [OF l] by (auto simp: binding_ok_def live_event_reference_def)
  moreover have "card (set (map reference_event rs)) = card (set (map ev_id (el_events l)))"
    using ok distinct_card [OF ids] distinct_card [of "map reference_event rs"] len by (simp add: binding_ok_def)
  ultimately have "set (map reference_event rs) = set (map ev_id (el_events l))" by (intro card_subset_eq) simp_all
  then show same: "reference_event ` set rs = ev_id ` set (el_events l)" by simp
  show "\<forall>e \<in> set (el_events l). map_of (bound_map rs) (ev_id e) \<noteq> None" unfolding bound_map_None same by simp
qed

text \<open>
  With as many references as events, distinct targets leave no event without a reference: the
  missing-reference error cannot occur, and binding is a permutation that follows the ledger.
\<close>

lemma bind_references_Inr:
  assumes l: "ledger_ok l"
  shows "bind_references l result rs now = Inr bound \<longleftrightarrow>
    binding_ok l result now rs \<and> mset bound = mset rs \<and> map reference_event bound = map ev_id (el_events l)"
    (is "?bound \<longleftrightarrow> ?ok \<and> ?perm \<and> ?order")
proof -
  let ?pairs = "map_of (map (\<lambda>r. (reference_event r, r)) rs)"
  let ?image = "map (\<lambda>e. the (map_of (bound_map rs) (ev_id e))) (el_events l)"
  have ids: "distinct (map ev_id (el_events l))" by (rule ledger_index.keys_distinct [OF l])
  have run: "bind_references l result rs now = Inr ?image \<and> mset ?image = mset rs \<and> map reference_event ?image = map ev_id (el_events l)"
    if ok: ?ok and len: "length rs = length (el_events l)"
  proof -
    have distinct: "distinct (map reference_event rs)" using ok by (simp add: binding_ok_def)
    have same: "set (map reference_event rs) = set (map ev_id (el_events l))"
      using bound_map_total(1) [OF l ok len] by simp
    have find: "?pairs (reference_event r) = Some r" if "r \<in> set rs" for r
      using that distinct by (intro map_of_is_SomeI) (simp_all add: comp_def)
    note found = bound_map_total(2) [OF l ok len]
    obtain rest where "rfold take_reference_step (bound_map rs, []) (el_events l) = Inr (rest, ?image)"
      using take_loop [OF ids found, of "[]"] by auto
    moreover have "rfold (bind_step l result now) ([], {}) rs = Inr (bound_map rs, er_id ` set rs)" using ok by (simp add: bind_loop)
    ultimately have run: "bind_references l result rs now = Inr ?image" using len by (simp add: bind_references_def)
    have perm: "mset (map ev_id (el_events l)) = mset (map reference_event rs)"
      using same distinct ids set_eq_iff_mset_eq_distinct [of "map ev_id (el_events l)" "map reference_event rs"] by simp
    have "?image = map (\<lambda>k. the (?pairs k)) (map ev_id (el_events l))"
      using bound_map_lookup [OF distinct] by simp
    then have "mset ?image = image_mset (\<lambda>k. the (?pairs k)) (mset (map reference_event rs))"
      using perm by (simp only: mset_map)
    also have "\<dots> = mset (map (\<lambda>r. the (?pairs (reference_event r))) rs)" by (simp add: image_mset.compositionality comp_def)
    also have "map (\<lambda>r. the (?pairs (reference_event r))) rs = rs" using find by (intro map_idI) simp
    finally have image: "mset ?image = mset rs" .
    have "reference_event (the (map_of (bound_map rs) (ev_id e))) = ev_id e" if "e \<in> set (el_events l)" for e
    proof -
      have "ev_id e \<in> reference_event ` set rs" using same that by auto
      then show ?thesis using find by (auto simp: bound_map_lookup [OF distinct])
    qed
    then show ?thesis using run image by simp
  qed
  show ?thesis
  proof
    assume b: ?bound
    then have ok: ?ok and len: "length rs = length (el_events l)"
      by (auto simp: bind_references_def result_simps bind_loop split: if_split_asm)
    show "?ok \<and> ?perm \<and> ?order" using run [OF ok len] b ok by simp
  next
    assume rhs: "?ok \<and> ?perm \<and> ?order"
    then have len: "length rs = length (el_events l)" by (metis length_map size_mset)
    have "distinct (map reference_event bound)" using rhs ids by simp
    then have inj: "inj_on reference_event (set bound)" by (simp add: distinct_map)
    have "set ?image = set bound" using run [OF _ len] rhs by (metis set_mset_mset)
    then have "?image = bound"
      using run [OF _ len] rhs inj by (intro map_inj_on [of reference_event]) simp_all
    then show ?bound using run [OF _ len] rhs by simp
  qed
qed

lemma bind_references_Inl:
  assumes l: "ledger_ok l" and run: "bind_references l result rs now = Inl e"
  shows "e = Passthrough_ReferenceCountMismatch \<and> length rs \<noteq> length (el_events l)
    \<or> e \<in> {Passthrough_ReferenceUnavailable, ReferenceTargetMustBeOneEvent, ReferenceTargetsUnknownEvent,
         Passthrough_DuplicateReferenceIdentity, DuplicateReferenceTarget} \<and> \<not> binding_ok l result now rs"
proof (cases "length rs = length (el_events l)")
  case True
  show ?thesis
  proof (cases "rfold (bind_step l result now) ([], {}) rs")
    case (Inl e')
    then have "e' = e" using run True by (simp add: bind_references_def)
    moreover obtain t r where "bind_step l result now t r = Inl e'" using Inl by (rule rfold_Inl)
    moreover have "\<not> binding_ok l result now rs" using Inl bind_loop [of l result now rs "(bound_map rs, er_id ` set rs)"] by simp
    ultimately show ?thesis using bind_step_Inl by blast
  next
    case (Inr st)
    then have ok: "binding_ok l result now rs" by (simp add: bind_loop)
    from take_loop [OF ledger_index.keys_distinct [OF l] bound_map_total(2) [OF l ok True], of "[]"] show ?thesis using run True ok Inr by (auto simp: bind_references_def bind_loop)
  qed
qed (use run in \<open>simp add: bind_references_def\<close>)

section \<open>The text\<close>

definition item_text :: "PassthroughEvidenceV1 \<Rightarrow> bytes" where
  "item_text item = concat
     [''  [E'', decimal (pe_ordinal item + 1), '']\<newline>    expand: E'', decimal (pe_ordinal item + 1), '' '',
      joined (map relation_code (er_allowed_relations (pe_reference item))), ''\<newline>    exactness: '',
      exactness_code (pe_exactness_basis item), ''\<newline>    stream: '', stream_code (pe_stream item),
      ''\<newline>    data_encoding: ascii_byte_escape_v1\<newline>    data: '', escape_evidence_bytes (pe_authorized_bytes item), ''\<newline>'']"

definition passthrough_text :: "EventLedger \<Rightarrow> ResultId \<Rightarrow> PassthroughEvidenceV1 list \<Rightarrow> bytes" where
  "passthrough_text l result evidence =
     (let counts = receipt_counts (el_acquisition_receipt l) in concat
     [''STATUS\<newline>'', ''  result: '', result_canonical_token result, ''\<newline>  untrusted_data: true\<newline>  acquisition: '',
      acquisition_text (completion_completeness (el_completion l)), ''\<newline>  selection: PASSTHROUGH\<newline>\<newline>'',
      ''SCOPE\<newline>  acknowledged_records: '', decimal (acknowledged_count (el_acquisition_receipt l)),
      ''\<newline>  persisted_events: '', decimal (length (el_events l)),
      ''\<newline>  policy_omitted_records: '', decimal (omitted_by_policy counts), ''\<newline>\<newline>EVIDENCE\<newline>'',
      if evidence = [] then ''  (none)\<newline>'' else [], concat (map item_text evidence),
      ''\<newline>COVERAGE\<newline>  shown_verbatim: '', decimal (length (el_events l)),
      ''\<newline>  pattern_represented: '', decimal 0, ''\<newline>  retained_raw: '', decimal 0,
      ''\<newline>  source_exact_records: '', decimal (source_exact counts),
      ''\<newline>  post_policy_records: '', decimal (post_policy counts),
      ''\<newline>  policy_omitted_records: '', decimal (omitted_by_policy counts), ''\<newline>''])"

lemma writes_item [writes_intro]: "writes (render_passthrough_item item) (item_text item)"
  unfolding render_passthrough_item_def item_text_def
  by (rule writes_write_all) (simp add: writes_intro)

lemma writes_passthrough: "writes (render_text l result evidence) (passthrough_text l result evidence)"
  unfolding render_text_def passthrough_text_def Let_def
  by (intro writes_write_all list_all2_Cons [THEN iffD2] conjI list_all2_Nil [THEN iffD2] refl writes_intro writes_rfold)


section \<open>The decision\<close>

definition all_shown :: "(bytes \<Rightarrow> bytes) \<Rightarrow> EventLedger \<Rightarrow> PresentationReceipt" where
  "all_shown sha256 l = receipt_of sha256 l (map (\<lambda>e. (ev_id e, ShownVerbatim)) (el_events l))"

lemma passthrough_selected:
  assumes ok: "ledger_ok l"
  shows "select_whole_render_passthrough sha256 l a =
      Inr (if assessment_fits a then PassthroughSelected \<lparr>ps_assessment = a, ps_presentation_receipt = all_shown sha256 l\<rparr>
           else CompilationRequired a)"
    and "status_passthrough l \<lparr>ps_assessment = a, ps_presentation_receipt = all_shown sha256 l\<rparr> =
      Inr \<lparr>status_acquisition = completion_completeness (el_completion l),
           status_selection = StatePassthrough \<lparr>ps_assessment = a, ps_presentation_receipt = all_shown sha256 l\<rparr>\<rparr>"
proof -
  let ?as = "map (\<lambda>e. (ev_id e, ShownVerbatim)) (el_events l)"
  have "PresentationReceipt_reconcile sha256 l ?as = Inr (all_shown sha256 l)"
    using presentation_reconcile_Inr [OF ok] one_each_const [OF ok] unfolding all_shown_def by blast
  then show "select_whole_render_passthrough sha256 l a =
      Inr (if assessment_fits a then PassthroughSelected \<lparr>ps_assessment = a, ps_presentation_receipt = all_shown sha256 l\<rparr>
           else CompilationRequired a)"
    by (simp add: select_whole_render_passthrough_def)
  have "pr_entries (all_shown sha256 l) = ?as" "shown_verbatim (pr_counts (all_shown sha256 l)) = length (el_events l)"
    "pattern_represented (pr_counts (all_shown sha256 l)) = 0" "retained_raw (pr_counts (all_shown sha256 l)) = 0"
    "validate_receipt_binding l (all_shown sha256 l) = Inr ()"
    by (simp_all add: all_shown_def receipt_of_bound) (simp_all add: receipt_of_def dispositions_const count_all_def comp_def filter_map)
  then show "status_passthrough l \<lparr>ps_assessment = a, ps_presentation_receipt = all_shown sha256 l\<rparr> =
      Inr \<lparr>status_acquisition = completion_completeness (el_completion l),
           status_selection = StatePassthrough \<lparr>ps_assessment = a, ps_presentation_receipt = all_shown sha256 l\<rparr>\<rparr>"
    by (simp add: status_passthrough_def Let_def list_ex_iff)
qed

text \<open>The references in ledger order: one live reference to each event.\<close>

definition binds :: "EventLedger \<Rightarrow> ResultId \<Rightarrow> int \<Rightarrow> EvidenceReferenceV1 list \<Rightarrow> EvidenceReferenceV1 list \<Rightarrow> bool" where
  "binds l result now rs bound \<longleftrightarrow> mset bound = mset rs
     \<and> list_all2 (\<lambda>e r. er_targets r = [TargetEvent (ev_id e)] \<and> reference_authorize r result Exact now = Inr ()) (el_events l) bound"

lemma bind_references_binds:
  assumes l: "ledger_ok l" and run: "bind_references l result rs now = Inr bound"
  shows "binds l result now rs bound"
proof -
  have ok: "binding_ok l result now rs" and perm: "mset bound = mset rs" and order: "map reference_event bound = map ev_id (el_events l)"
    using run by (simp_all add: bind_references_Inr [OF l])
  have "live_event_reference l result now r" if "r \<in> set bound" for r
    using ok perm that by (simp add: binding_ok_def mset_eq_setD [OF perm])
  then have "er_targets (bound ! i) = [TargetEvent (ev_id (el_events l ! i))] \<and> reference_authorize (bound ! i) result Exact now = Inr ()"
    if "i < length bound" for i
    using that nth_map [OF that, of reference_event] map_eq_imp_length_eq [OF order] order by (auto simp: live_event_reference_def)
  then show ?thesis using perm map_eq_imp_length_eq [OF order] by (simp add: binds_def list_all2_conv_all_nth)
qed

text \<open>A brief that shows every event of the ledger, in order and with its bytes, within the token limit.\<close>

definition exact_brief ::
  "(bytes \<Rightarrow> bytes) \<Rightarrow> EventLedger \<Rightarrow> ResultId \<Rightarrow> int \<Rightarrow> EvidenceReferenceV1 list \<Rightarrow> nat \<Rightarrow> PinnedTokenizer \<Rightarrow>
   RenderedPassthroughBriefV1 \<Rightarrow> bool" where
  "exact_brief sha256 l result now rs limit tokenizer b \<longleftrightarrow>
     (let brief = rpb_brief b; evidence = plb_evidence brief; tokens = prb_total_rendered_tokens (plb_budget brief) in
      length (el_events l) \<le> MAX_LOG_BRIEF_EVIDENCE_PACKETS
      \<and> binds l result now rs (map pe_reference evidence)
      \<and> map (\<lambda>x. (pe_event_id x, pe_authorized_bytes x)) evidence = map (\<lambda>e. (ev_id e, ev_raw e)) (el_events l)
      \<and> rpb_text b = passthrough_text l result evidence \<and> length (rpb_text b) \<le> MAX_WIRE_OBJECT_BYTES
      \<and> count_tokens tokenizer (rpb_text b) = Inr tokens \<and> tokens \<le> limit
      \<and> state_presentation_receipt (status_selection (plb_status brief)) = all_shown sha256 l)"

text \<open>Why no brief fits.\<close>

definition does_not_fit ::
  "EventLedger \<Rightarrow> ResultId \<Rightarrow> int \<Rightarrow> EvidenceReferenceV1 list \<Rightarrow> nat \<Rightarrow> PinnedTokenizer \<Rightarrow> PassthroughNotFitV1 \<Rightarrow> bool" where
  "does_not_fit l result now rs limit tokenizer n \<longleftrightarrow>
     (case not_fit_reason n of
        EvidencePacketLimitExceeded \<Rightarrow> MAX_LOG_BRIEF_EVIDENCE_PACKETS < length (el_events l) \<and> not_fit_required_tokens n = None
      | RenderedByteLimitExceeded \<Rightarrow> not_fit_required_tokens n = None \<and> (\<exists>bound. binds l result now rs bound
          \<and> MAX_WIRE_OBJECT_BYTES < length (passthrough_text l result (passthrough_evidence l bound)))
      | TotalTokenBudgetExceeded \<Rightarrow> (\<exists>bound tokens. binds l result now rs bound
          \<and> count_tokens tokenizer (passthrough_text l result (passthrough_evidence l bound)) = Inr tokens
          \<and> not_fit_required_tokens n = Some tokens \<and> limit < tokens))"

text \<open>The errors: a defect of the request or of the tokenizer.\<close>

definition passthrough_error ::
  "EventLedger \<Rightarrow> ResultId \<Rightarrow> PlanDigest \<Rightarrow> int \<Rightarrow> EvidenceReferenceV1 list \<Rightarrow> PinnedTokenizer \<Rightarrow> PassthroughBriefError \<Rightarrow> bool" where
  "passthrough_error l result plan_digest now rs tokenizer e \<longleftrightarrow>
     e = Passthrough_PlanDigestMismatch \<and> el_plan_digest l \<noteq> plan_digest
     \<or> e = Passthrough_ReferenceCountMismatch \<and> length rs \<noteq> length (el_events l)
     \<or> e \<in> {Passthrough_ReferenceUnavailable, ReferenceTargetMustBeOneEvent, ReferenceTargetsUnknownEvent,
         Passthrough_DuplicateReferenceIdentity, DuplicateReferenceTarget} \<and> \<not> binding_ok l result now rs
     \<or> (\<exists>bound. binds l result now rs bound \<and>
         (case count_tokens tokenizer (passthrough_text l result (passthrough_evidence l bound)) of
            Inl _ \<Rightarrow> e = Passthrough_TokenizerFailure
          | Inr tokens \<Rightarrow> e = Passthrough_TokenCountOutOfRange \<and> JSON_SAFE_INTEGER_MAX < tokens))"

lemma passthrough_evidence_parts:
  assumes "length bound = length (el_events l)"
  shows "map pe_reference (passthrough_evidence l bound) = bound"
    and "map (\<lambda>x. (pe_event_id x, pe_authorized_bytes x)) (passthrough_evidence l bound) = map (\<lambda>e. (ev_id e, ev_raw e)) (el_events l)"
  using assms by (auto simp: passthrough_evidence_def intro!: nth_equalityI simp: nth_enumerate_eq)

lemma passthrough_decision:
  assumes l: "ledger_ok l"
  shows "case render_passthrough_log_brief_v1 sha256 l result question plan_digest rs now limit tokenizer of
    Inr (BriefRendered b) \<Rightarrow> exact_brief sha256 l result now rs limit tokenizer b
  | Inr (BriefCompilationRequired n) \<Rightarrow> does_not_fit l result now rs limit tokenizer n
  | Inl e \<Rightarrow> passthrough_error l result plan_digest now rs tokenizer e"
proof (cases "el_plan_digest l = plan_digest \<and> length (el_events l) \<le> MAX_LOG_BRIEF_EVIDENCE_PACKETS")
  case False
  then show ?thesis
    by (auto simp: render_passthrough_log_brief_v1_def passthrough_error_def does_not_fit_def not_fit_def)
next
  case True
  show ?thesis
  proof (cases "bind_references l result rs now")
    case (Inl e)
    then show ?thesis
      using True bind_references_Inl [OF l Inl] by (auto simp: render_passthrough_log_brief_v1_def passthrough_error_def)
  next
    case (Inr bound)
    note bound = bind_references_binds [OF l Inr]
    then have len: "length bound = length (el_events l)" by (simp add: binds_def list_all2_conv_all_nth)
    let ?evidence = "passthrough_evidence l bound"
    let ?text = "passthrough_text l result ?evidence"
    have run: "render_passthrough_log_brief_v1 sha256 l result question plan_digest rs now limit tokenizer =
        (if length ?text \<le> MAX_WIRE_OBJECT_BYTES
         then passthrough_decide sha256 l result question plan_digest now limit tokenizer ?evidence ?text
         else Inr (not_fit sha256 tokenizer limit RenderedByteLimitExceeded None))"
      using True Inr writes_new [OF writes_passthrough wire_limit_u64, of l result ?evidence]
      by (simp add: render_passthrough_log_brief_v1_def Let_def)
    show ?thesis
    proof (cases "length ?text \<le> MAX_WIRE_OBJECT_BYTES")
      case False
      then show ?thesis using bound by (auto simp: run does_not_fit_def not_fit_def)
    next
      case fits: True
      show ?thesis
      proof (cases "count_tokens tokenizer ?text")
        case (Inl e)
        then show ?thesis using bound fits by (auto simp: run passthrough_decide_def passthrough_error_def)
      next
        case (Inr tokens)
        then show ?thesis
          using bound fits True passthrough_evidence_parts [OF len] passthrough_selected [OF l]
          by (auto simp: run passthrough_decide_def passthrough_error_def does_not_fit_def not_fit_def exact_brief_def
              passthrough_brief_def Let_def u64_try_from_wire assessment_fits_def)
      qed
    qed
  qed
qed

end
