(* ===== verification/Evidence_Properties.thy ===== *)
theory Evidence_Properties
  imports Evidence_Compiled_Spec Evidence_Passthrough_Spec Result_Properties
begin

text \<open>
  Properties of the evidence artifacts: the byte escape, the certified compiled brief and the exact
  passthrough brief.
\<close>

section \<open>A concrete request\<close>

text \<open>A sealed ledger with two events, and a problem with one mandatory packet priced by a certificate.\<close>

lemmas accept_simps = accept_def accept_plan_def validate_identity_def authorize_retained persist_authorized_def
  authorized_event_def receipt_collides_def sample_defs checked_add_u64_def u64_try_from_def payload_len_def source_len_def
  saturating_add_u64_def Let_def

lemma sample_sealed_pair:
  obtains b l e f where "reachable sample_sha256 (\<lambda>_. AuthorizeSourceExact) b"
    and "seal sample_sha256 b (sample_completion b) = Inr l" and "el_events l = [e, f]" and "el_plan_digest l = ''d''"
    and "completion_completeness (el_completion l) = FetchUnknown FU_AdapterCapabilityLimit"
    and "receipt_counts (el_acquisition_receipt l) = \<lparr>source_exact = 2, post_policy = 0, omitted_by_policy = 0\<rparr>"
    and "acknowledged_count (el_acquisition_receipt l) = 2"
    and "ev_raw e = ''ok'' @ [CHR 0x0A]" and "ev_lane e = (''a'', Stdout)" and "ev_exactness_basis e = SourceExact"
    and "ev_raw f = ''no'' @ [CHR 0x0A]" and "ev_lane f = (''bb'', Stdout)" and "ev_exactness_basis f = SourceExact"
    and "length (ev_id e) = 32" and "length (ev_id f) = 32"
proof -
  let ?p = "\<lambda>_. AuthorizeSourceExact"
  let ?b1 = "snd (accept sample_sha256 ?p sample_new (sample_first ''ok''))"
  have r: "reachable sample_sha256 ?p sample_new" unfolding sample_new_def by (rule reachable_new)
  have "\<exists>ack b e f. accept sample_sha256 ?p ?b1 (sample_second ''no'') = (Inr ack, b) \<and> lb_events b = [e, f]
      \<and> ev_raw e = ''ok'' @ [CHR 0x0A] \<and> ev_lane e = (''a'', Stdout) \<and> ev_exactness_basis e = SourceExact
      \<and> ev_raw f = ''no'' @ [CHR 0x0A] \<and> ev_lane f = (''bb'', Stdout) \<and> ev_exactness_basis f = SourceExact
      \<and> length (ev_id e) = 32 \<and> length (ev_id f) = 32 \<and> lb_identity b = sample_identity
      \<and> receipt_counts (sealed_receipt b) = \<lparr>source_exact = 2, post_policy = 0, omitted_by_policy = 0\<rparr>
      \<and> length (acquisition_assignments b) = 2"
    by (simp add: accept_simps expected_source_record_id_def source_record_id_def authorized_content_hash_def
       sample_sha256_def le_bytes_32_eq sample_length sealed_receipt_def AcquisitionCounts_default_def event_id_def)
  then obtain ack b e f where run: "accept sample_sha256 ?p ?b1 (sample_second ''no'') = (Inr ack, b)" "lb_events b = [e, f]"
    "ev_raw e = ''ok'' @ [CHR 0x0A]" "ev_lane e = (''a'', Stdout)" "ev_exactness_basis e = SourceExact"
    "ev_raw f = ''no'' @ [CHR 0x0A]" "ev_lane f = (''bb'', Stdout)" "ev_exactness_basis f = SourceExact"
    "length (ev_id e) = 32" "length (ev_id f) = 32" "lb_identity b = sample_identity"
    "receipt_counts (sealed_receipt b) = \<lparr>source_exact = 2, post_policy = 0, omitted_by_policy = 0\<rparr>"
    "length (acquisition_assignments b) = 2" by blast
  have reach: "reachable sample_sha256 ?p b"
    using reachable_accept [OF reachable_accept [OF r, of "sample_first ''ok''"], of "sample_second ''no''"] run(1) by simp
  then obtain l where l: "seal sample_sha256 b (sample_completion b) = Inr l"
    using sample_seals reachable_builder_ok by blast
  note eq = l [unfolded seal_Inr [OF reachable_builder_ok [OF reach]]]
  show thesis by (rule that [OF reach l, of e f]) (use run eq in \<open>simp_all add: sample_identity_def sample_completion_def acknowledged_count_def sealed_receipt_def\<close>)
qed



lemma length_digit: "n < 10 \<Longrightarrow> length (decimal n) = 1"
  by (simp add: decimal.simps)

lemma length_u64: "length (decimal u64_max) = 20"
  by (simp add: decimal.simps)

lemma sample_fixed_bound:
  fixes l :: EventLedger
  assumes "el_events l = [e, f]" and "completion_completeness (el_completion l) = FetchUnknown FU_AdapterCapabilityLimit"
    and "receipt_counts (el_acquisition_receipt l) = \<lparr>source_exact = 2, post_policy = 0, omitted_by_policy = 0\<rparr>"
    and "acknowledged_count (el_acquisition_receipt l) = 2"
  shows "fixed_bound l ''result'' \<le> 1000"
proof -
  have "length (result_canonical_token ''result'') \<le> 100" by (simp add: result_canonical_token_def canonical_token_def)
  then show ?thesis by (simp add: fixed_bound_def header_text_def coverage_text_def assms length_digit)
qed

lemma sample_packet_bound:
  fixes l :: EventLedger
  assumes "el_events l = [e, f]" and "ev_raw e = ''ok'' @ [CHR 0x0A]" and "ev_lane e = (''a'', Stdout)"
    and "ev_exactness_basis e = SourceExact" and "ev_id f \<noteq> ev_id e"
  shows "0 < packet_bound l [ev_id e] \<and> packet_bound l [ev_id e] \<le> 1000"
proof -
  have "length (joined (map facet_kind_code FACET_KINDS_ALL_V1)) \<le> 400"
    by (simp add: joined_def FACET_KINDS_ALL_V1_def)
  moreover have "length (escape_evidence_bytes (''ok'' @ [CHR 0x0A])) \<le> 12" by code_simp
  then have "length (events_text [event_render e]) \<le> 200"
    by (simp add: events_text_def event_text_def event_render_def assms length_digit)
  moreover have "length (decimal 512) = 3" by (simp add: decimal.simps)
  moreover have "length MAX_FORCING_CODE_V1 \<le> 100" by (simp add: MAX_FORCING_CODE_V1_def)
  ultimately show ?thesis
    using length_u64 by (simp add: packet_bound_def packet_text_def assms members_in_ledger_order_def length_digit MAX_LOG_BRIEF_EVIDENCE_PACKETS_def)
qed


definition sample_problem :: "ComposablePacketCostV1 \<Rightarrow> ReservedFixedOverheadV1 \<Rightarrow> EventId \<Rightarrow> SelectionProblemV1" where
  "sample_problem cost overhead eid =
     \<lparr>problem_facets = [\<lparr>facet_id = ''A'', facet_kind = ValidatedQueryIdentifier, facet_weight = 1000000\<rparr>],
      problem_packets = [\<lparr>packet_id = ''p'', event_ids = [eid], packet_cost = cost,
        affinities = [\<lparr>affinity_facet = ''A'', affinity_micros = 1000000\<rparr>]\<rparr>],
      problem_mandatory = [\<lparr>mandatory_packet_id = ''p'', validated_identifier_facet_id = ''A''\<rparr>],
      problem_budget = 2000, problem_overhead = overhead, problem_mandatory_cost = upper_bound_tokens cost\<rparr>"

lemma sample_problem_ok:
  assumes "0 < upper_bound_tokens cost" "upper_bound_tokens cost \<le> 1000" "overhead_tokens overhead \<le> 1000"
    "cost_model cost = overhead_cost_model overhead"
  shows "problem_ok (sample_problem cost overhead eid)"
proof -
  have "binary_search_by_key affinity_facet [\<lparr>affinity_facet = ''A'', affinity_micros = 1000000\<rparr>] ''A'' = Some 0"
    by (simp add: binary_search_by_key_Some)
  then show ?thesis
    using assms by (simp add: problem_ok_def sample_problem_def facets_ok_def facet_ok_def packets_ok_def mandatory_ok_def mandatory_entry_ok_def
     packet_fits_def packet_ok_def cost_ok_def affinity_ok_def select_const_defs packet_of_def packet_index_def affinity_for_def)
qed

lemma sample_selection:
  assumes "0 < upper_bound_tokens cost" "upper_bound_tokens cost \<le> 1000" "overhead_tokens overhead \<le> 1000"
    "cost_model cost = overhead_cost_model overhead"
  obtains sel s where "select_with_priority_map (sample_problem cost overhead eid) [] = Inr (Selected sel)"
    "sel_packets sel = [s]" "event_ids (selected_packet s) = [eid]" "sel_budget sel = 2000"
proof -
  let ?problem = "sample_problem cost overhead eid"
  note ok = sample_problem_ok [OF assms]
  have "mandatory_affordable ?problem" using assms by (simp add: mandatory_affordable_def sample_problem_def)
  then obtain strategy "is" where sel: "select_with_priority_map ?problem [] = Inr (Selected (selection_of ?problem (coverage_only_limit ?problem) strategy is))"
    using select_with_priority_map_spec [OF ok] by metis
  let ?sel = "selection_of ?problem (coverage_only_limit ?problem) strategy is"
  have spec: "selection_ok ?problem ?sel" using priority_selector.run_selection_ok [OF ok sel] .
  obtain strategy' order where "sel_packets ?sel = map (mandatory_selected ?problem) (problem_mandatory ?problem)
       @ presented ?problem (strategy_constraint strategy') (mandatory_coverage ?problem) order"
    using ok sel by (rule selected_order)
  then obtain s rest where packets: "sel_packets ?sel = s # rest" by (simp add: sample_problem_def)
  have "set (sel_packets ?sel) \<subseteq> {x. packet_id (selected_packet x) = ''p'' \<and> event_ids (selected_packet x) = [eid]}"
    using spec by (auto simp: selection_ok_def sample_problem_def)
  moreover have "distinct (map (\<lambda>s. packet_id (selected_packet s)) (sel_packets ?sel))" using spec by (simp add: selection_ok_def)
  ultimately have "rest = []" "event_ids (selected_packet s) = [eid]" by (cases rest, simp_all add: packets)
  moreover have "sel_budget ?sel = 2000" by (simp add: selection_of_def sample_problem_def Let_def)
  ultimately show thesis using packets by (intro that [OF sel]) simp_all
qed

section \<open>Escaping\<close>

text \<open>
  C26.  The escape of evidence bytes is canonical: \<open>unescape_evidence_bytes\<close> accepts exactly the texts
  that \<open>escape_evidence_bytes\<close> produces and returns the bytes they came from; the escaped text is one
  line of printable ASCII; and \<open>escaped_len\<close> predicts its length, or reports that it exceeds \<open>usize\<close>.
\<close>

theorem evidence_escape_is_canonical:
  "(unescape_evidence_bytes text = Inr bytes \<longleftrightarrow> text = escape_evidence_bytes bytes)
   \<and> list_all is_printable (escape_evidence_bytes bytes)
   \<and> escaped_len bytes = (if length (escape_evidence_bytes bytes) \<le> u64_max
       then Some (length (escape_evidence_bytes bytes)) else None)"
  using escape_printable by (auto simp: unescape_iff_escape escaped_len_exact list_all_iff)

section \<open>The certified compiled brief\<close>

text \<open>
  C6.  Cost certification is sound.  Take a selection made by any selector of the program on a
  constructed problem, a certificate issued for the sealed ledger and the tokenizer of the certified
  path.  Rendering either returns a brief whose text is the rendering of exactly the selected packets,
  whose receipt shows exactly the selected events and whose length, which is its token count, is
  within the accounted bound and hence within the budget; or it reports a defect of the request.  In
  particular no cost-model violation, no accounting violation, no overlapping or unknown event, no
  tokenizer failure and no presentation violation can occur, a certification mismatch occurs only if
  the problem was not priced by the certificate, and the wire limit is exceeded only under a larger
  budget.
\<close>

theorem certified_render_within_bound:
  assumes "reachable sha256 policy b" and "seal sha256 b completion = Inr l" and "problem_ok problem"
    and "select_with_priority_map problem pm = Inr (Selected sel)
       \<or> select_with_optional_priorities problem priorities = Inr (Selected sel)
       \<or> select_in_optional_order problem pids = Inr (Selected sel)"
    and "certify_compiled_costs_v1 sha256 l result memberships tok' = Inr cert" and "whole_render_calls tok < u64_max"
  shows "case render_cost_certified_compiled_log_brief_v1 sha256 l result question plan_digest sel references now tok cert of
    Inr brief \<Rightarrow> certified_brief sha256 l result sel references brief
  | Inl e \<Rightarrow> request_error l result plan_digest now problem sel references cert e"
  using assms(4)
proof (elim disjE)
  note l = sealed_ok [OF assms(1,2)]
  show ?thesis if "select_with_priority_map problem pm = Inr (Selected sel)"
    by (rule priority_selector.certified_render [OF l assms(3) that assms(5,6)])
  show ?thesis if "select_with_optional_priorities problem priorities = Inr (Selected sel)"
    by (rule assisted_selector.certified_render [OF l assms(3) that assms(5,6)])
  show ?thesis if "select_in_optional_order problem pids = Inr (Selected sel)"
    by (rule ordered_selector.certified_render [OF l assms(3) that assms(5,6)])
qed

theorem certified_render_within_bound_witness:
  "\<exists>b l e f cert problem sel reference brief.
     seal sample_sha256 b (sample_completion b) = Inr l \<and> el_events l = [e, f]
     \<and> certify_compiled_costs_v1 sample_sha256 l ''result'' [\<lparr>membership_packet_id = ''p'', membership_event_ids = [ev_id e]\<rparr>]
         Utf8ByteTokenizerV1_new = Inr cert
     \<and> select_with_priority_map problem [] = Inr (Selected sel)
     \<and> render_cost_certified_compiled_log_brief_v1 sample_sha256 l ''result'' ''q'' ''d'' sel [reference] 5 Utf8ByteTokenizerV1_new cert = Inr brief
     \<and> length (rcb_text brief) \<le> sel_accounted_tokens sel \<and> sel_accounted_tokens sel \<le> 2000"
proof -
  obtain b l e f where s: "reachable sample_sha256 (\<lambda>_. AuthorizeSourceExact) b" "seal sample_sha256 b (sample_completion b) = Inr l"
    and events: "el_events l = [e, f]" and plan: "el_plan_digest l = ''d''"
    and totals: "completion_completeness (el_completion l) = FetchUnknown FU_AdapterCapabilityLimit"
      "receipt_counts (el_acquisition_receipt l) = \<lparr>source_exact = 2, post_policy = 0, omitted_by_policy = 0\<rparr>"
      "acknowledged_count (el_acquisition_receipt l) = 2"
    and e: "ev_raw e = ''ok'' @ [CHR 0x0A]" "ev_lane e = (''a'', Stdout)" "ev_exactness_basis e = SourceExact"
    by (rule sample_sealed_pair)
  note ok = sealed_ok [OF s]
  have other: "ev_id f \<noteq> ev_id e" using ledger_index.keys_distinct [OF ok] by (simp add: events)
  note bounds = sample_fixed_bound [OF events totals] sample_packet_bound [OF events e other]
  let ?m = "\<lparr>membership_packet_id = ''p'', membership_event_ids = [ev_id e]\<rparr>"
  let ?cert = "certificate_of sample_sha256 l ''result'' [?m]"
  have cert: "certify_compiled_costs_v1 sample_sha256 l ''result'' [?m] Utf8ByteTokenizerV1_new = Inr ?cert"
    using bounds by (simp add: certify_iff [OF ok] certifiable_def memberships_ok_def events universe_bound_def
        MAX_SELECTION_PACKETS_V1_def MAX_WIRE_OBJECT_BYTES_def JSON_SAFE_INTEGER_MAX_def)
  let ?cost = "\<lparr>cost_model = cert_cost_model ?cert, upper_bound_tokens = packet_bound l [ev_id e]\<rparr>"
  have fixed: "cert_fixed_overhead ?cert = \<lparr>overhead_cost_model = cert_cost_model ?cert, overhead_tokens = fixed_bound l ''result''\<rparr>"
    by (simp add: certificate_of_def Let_def)
  have cost: "0 < upper_bound_tokens ?cost" "upper_bound_tokens ?cost \<le> 1000" "overhead_tokens (cert_fixed_overhead ?cert) \<le> 1000"
    "cost_model ?cost = overhead_cost_model (cert_fixed_overhead ?cert)" using bounds by (simp_all add: fixed)
  let ?problem = "sample_problem ?cost (cert_fixed_overhead ?cert) (ev_id e)"
  obtain sel p where sel: "select_with_priority_map ?problem [] = Inr (Selected sel)"
    and p: "sel_packets sel = [p]" "event_ids (selected_packet p) = [ev_id e]" "sel_budget sel = 2000" using cost by (rule sample_selection)
  let ?r = "reference_of sample_sha256 ''result'' [TargetEvent (ev_id e)] [Exact] 5 9"
  have bounds_eq: "cert_packet_bounds ?cert = sort_key bound_packet_id (map (bound_of l (cert_cost_model ?cert)) [?m])"
    by (simp add: certificate_of_def Let_def)
  have priced: "priced_by ?problem ?cert"
    using certified_packet_cost_iff [of "[?m]" ?cert l "cert_cost_model ?cert", OF _ bounds_eq]
    by (simp add: priced_by_def sample_problem_def)
  have auth: "reference_authorize ?r ''result'' Exact 5 = Inr ()"
    by (subst authorize_Inr) (simp_all add: reference_of_def relation_set_def)
  have refs: "references_ok l ''result'' 5 sel [?r]"
    using auth ledger_contains [OF ok] by (simp add: references_ok_def selection_items_def p item_ok_def item_events_def reference_of_def events relation_set_def)
  from certified_render_within_bound [OF s sample_problem_ok [OF cost] disjI1 [OF sel] cert,
      where tok = Utf8ByteTokenizerV1_new and question = "''q''" and plan_digest = "''d''" and references = "[?r]" and now = 5]
  have "\<exists>brief. render_cost_certified_compiled_log_brief_v1 sample_sha256 l ''result'' ''q'' ''d'' sel [?r] 5 Utf8ByteTokenizerV1_new ?cert = Inr brief
      \<and> certified_brief sample_sha256 l ''result'' sel [?r] brief"
    using priced refs plan p other
    by (auto simp: request_error_def selected_events_def events Utf8ByteTokenizerV1_new_def MAX_LOG_BRIEF_EVIDENCE_PACKETS_def
        MAX_WIRE_OBJECT_BYTES_def split: sum.split_asm)
  then show ?thesis
    using s(2) events cert sel p(3) by (fastforce simp: certified_brief_def Let_def)
qed

section \<open>The passthrough brief\<close>

text \<open>
  C33.  The passthrough brief is exact.  On a sealed ledger it either shows every event, in ledger
  order and with its authorized bytes, each with a live reference to that event, in a text whose
  token count is within the limit and with a receipt that marks every event as shown verbatim; or it
  hands over to compilation and says truly that there are more than 512 events, that the text exceeds
  the wire limit or that its tokens exceed the limit; or it reports a defect of the plan digest, of the
  references or of the tokenizer.  No event is left without a reference, and no status invariant,
  byte count or presentation error can occur.
\<close>

theorem passthrough_brief_is_exact:
  assumes "reachable sha256 policy b" and "seal sha256 b completion = Inr l"
  shows "case render_passthrough_log_brief_v1 sha256 l result question plan_digest rs now limit tokenizer of
    Inr (BriefRendered brief) \<Rightarrow> exact_brief sha256 l result now rs limit tokenizer brief
  | Inr (BriefCompilationRequired n) \<Rightarrow> does_not_fit l result now rs limit tokenizer n
  | Inl e \<Rightarrow> passthrough_error l result plan_digest now rs tokenizer e"
  by (rule passthrough_decision [OF sealed_ok [OF assms]])


lemma sample_relations: "relation_set [Exact, GlobalBeforeAfter] = [Exact, GlobalBeforeAfter]" "Exact < GlobalBeforeAfter"
  by code_simp+

lemma sample_references:
  assumes l: "ledger_ok l" and events: "el_events l = [e, f]" and other: "ev_id f \<noteq> ev_id e"
    and width: "length (ev_id e) = 32" "length (ev_id f) = 32"
  defines "re \<equiv> reference_of sample_sha256 ''result'' [TargetEvent (ev_id e)] [Exact] 5 9"
    and "rf \<equiv> reference_of sample_sha256 ''result'' [TargetEvent (ev_id f)] [Exact, GlobalBeforeAfter] 5 9"
  shows "bind_references l ''result'' [rf, re] 5 = Inr [re, rf]"
proof -
  have ids: "er_id rf \<noteq> er_id re"
    using width by (simp add: re_def rf_def reference_of_def evidence_reference_id_def relation_set_def sample_sha256_def le_bytes_32_eq
      update_field_def domain_hasher_def Let_def i128_le_bytes_def)
  have "reference_authorize re ''result'' Exact 5 = Inr ()" "reference_authorize rf ''result'' Exact 5 = Inr ()"
    by (subst authorize_Inr; simp add: re_def rf_def reference_of_def sample_relations relation_set_def [of "[_]"])+
  then show ?thesis
    using ids other ledger_contains [OF l]
    by (simp add: bind_references_Inr [OF l] binding_ok_def live_event_reference_def reference_event_def events)
    (simp_all add: re_def rf_def reference_of_def)
qed


lemma sample_passthrough_text:
  fixes l :: EventLedger
  assumes "el_events l = [e, f]" and "completion_completeness (el_completion l) = FetchUnknown FU_AdapterCapabilityLimit"
    and "receipt_counts (el_acquisition_receipt l) = \<lparr>source_exact = 2, post_policy = 0, omitted_by_policy = 0\<rparr>"
    and "acknowledged_count (el_acquisition_receipt l) = 2"
    and "ev_raw e = ''ok'' @ [CHR 0x0A]" "ev_lane e = (''a'', Stdout)" "ev_exactness_basis e = SourceExact"
    and "ev_raw f = ''no'' @ [CHR 0x0A]" "ev_lane f = (''bb'', Stdout)" "ev_exactness_basis f = SourceExact"
    and "er_allowed_relations re = [Exact]" "er_allowed_relations rf = [Exact, GlobalBeforeAfter]"
  shows "length (passthrough_text l ''result'' (passthrough_evidence l [re, rf])) \<le> 2000"
proof -
  have "length (result_canonical_token ''result'') \<le> 100" by (simp add: result_canonical_token_def canonical_token_def)
  moreover have "length (escape_evidence_bytes (''ok'' @ [CHR 0x0A])) \<le> 12" "length (escape_evidence_bytes (''no'' @ [CHR 0x0A])) \<le> 12"
    by code_simp+
  ultimately show ?thesis
    by (simp add: passthrough_text_def passthrough_evidence_def item_text_def joined_def assms length_digit)
qed

theorem passthrough_brief_is_exact_witness:
  "\<exists>b l e f re rf brief. seal sample_sha256 b (sample_completion b) = Inr l \<and> el_events l = [e, f]
     \<and> render_passthrough_log_brief_v1 sample_sha256 l ''result'' ''q'' ''d'' [rf, re] 5 2000
         (utf8_tokenizer sample_sha256 Utf8ByteTokenizerV1_new) = Inr (BriefRendered brief)
     \<and> map pe_authorized_bytes (plb_evidence (rpb_brief brief)) = [''ok'' @ [CHR 0x0A], ''no'' @ [CHR 0x0A]]"
proof -
  obtain b l e f where s: "reachable sample_sha256 (\<lambda>_. AuthorizeSourceExact) b" "seal sample_sha256 b (sample_completion b) = Inr l"
    and events: "el_events l = [e, f]" and plan: "el_plan_digest l = ''d''"
    and totals: "completion_completeness (el_completion l) = FetchUnknown FU_AdapterCapabilityLimit"
      "receipt_counts (el_acquisition_receipt l) = \<lparr>source_exact = 2, post_policy = 0, omitted_by_policy = 0\<rparr>"
      "acknowledged_count (el_acquisition_receipt l) = 2"
    and e: "ev_raw e = ''ok'' @ [CHR 0x0A]" "ev_lane e = (''a'', Stdout)" "ev_exactness_basis e = SourceExact"
    and f: "ev_raw f = ''no'' @ [CHR 0x0A]" "ev_lane f = (''bb'', Stdout)" "ev_exactness_basis f = SourceExact"
    and width: "length (ev_id e) = 32" "length (ev_id f) = 32"
    by (rule sample_sealed_pair)
  note ok = sealed_ok [OF s]
  have other: "ev_id f \<noteq> ev_id e" using ledger_index.keys_distinct [OF ok] by (simp add: events)
  let ?re = "reference_of sample_sha256 ''result'' [TargetEvent (ev_id e)] [Exact] 5 9"
  let ?rf = "reference_of sample_sha256 ''result'' [TargetEvent (ev_id f)] [Exact, GlobalBeforeAfter] 5 9"
  let ?tok = "utf8_tokenizer sample_sha256 Utf8ByteTokenizerV1_new"
  let ?run = "render_passthrough_log_brief_v1 sample_sha256 l ''result'' ''q'' ''d'' [?rf, ?re] 5 2000 ?tok"
  let ?text = "passthrough_text l ''result'' (passthrough_evidence l [?re, ?rf])"
  have "er_allowed_relations ?re = [Exact]" "er_allowed_relations ?rf = [Exact, GlobalBeforeAfter]"
    by (simp_all add: reference_of_def sample_relations relation_set_def [of "[_]"])
  note size = sample_passthrough_text [OF events totals e f this]
  then have wire: "length ?text \<le> MAX_WIRE_OBJECT_BYTES" by (simp add: MAX_WIRE_OBJECT_BYTES_def)
  then have tokens: "count_tokens ?tok ?text = Inr (length ?text)"
    by (intro utf8_count_length) (simp_all add: Utf8ByteTokenizerV1_new_def MAX_WIRE_OBJECT_BYTES_def)
  have "render_text l ''result'' (passthrough_evidence l [?re, ?rf]) (BoundedText_new MAX_WIRE_OBJECT_BYTES) =
      Inr \<lparr>text_value = ?text, text_limit = MAX_WIRE_OBJECT_BYTES\<rparr>"
    using writes_new [OF writes_passthrough wire_limit_u64] wire by simp
  then have "\<exists>brief. ?run = Inr (BriefRendered brief)"
    using plan size tokens wire_limit_json [OF wire] sample_references [OF ok events other width]
    by (simp add: render_passthrough_log_brief_v1_def passthrough_decide_def events MAX_LOG_BRIEF_EVIDENCE_PACKETS_def
        passthrough_selected [OF ok] assessment_fits_def u64_try_from_wire [OF wire] Let_def)
  then obtain brief where brief: "?run = Inr (BriefRendered brief)" by blast
  from passthrough_brief_is_exact [OF s, where result = "''result''" and question = "''q''" and plan_digest = "''d''"
      and rs = "[?rf, ?re]" and now = 5 and limit = 2000 and tokenizer = ?tok]
  have "map (\<lambda>x. (pe_event_id x, pe_authorized_bytes x)) (plb_evidence (rpb_brief brief)) = map (\<lambda>e. (ev_id e, ev_raw e)) (el_events l)"
    by (simp add: brief exact_brief_def Let_def)
  from arg_cong [OF this, of "map snd"] have "map pe_authorized_bytes (plb_evidence (rpb_brief brief)) = [''ok'' @ [CHR 0x0A], ''no'' @ [CHR 0x0A]]"
    by (simp add: comp_def events e f)
  then show ?thesis
    using s(2) events brief by (intro exI [of _ b] exI [of _ l] exI [of _ e] exI [of _ f] exI [of _ ?re] exI [of _ ?rf] exI [of _ brief] conjI)
qed

end
