(* ===== verification/Spec2Isabelle.thy ===== *)
theory Spec2Isabelle
  imports Select_Properties Core_Properties Ledger_Properties Framing_Properties Result_Properties Candidate_Properties Coverage_Properties Evidence_Properties
begin

text \<open>
  Verification of the deterministic evidence pipeline of evidentrail (\<open>src/crates\<close>).

  \<^bold>\<open>The program.\<close>  Evidentrail turns the log records of a retrieval into bounded evidence with receipts
  for everything it shows, hides or keeps.  An adapter emits raw envelopes; a policy authorizes them;
  \<open>LedgerBuilder\<close> appends the authorized records to a ledger and acknowledges each one, and sealing
  reconciles the acquisition receipt with the adapter's completion claim.  The framer cuts every
  source lane of the sealed ledger into atomic blocks.  Candidate lanes annotate the blocks with facets,
  the selector chooses packets under a token budget, and the presentation receipt and the result status
  say what was shown.  The evidence artifacts render the shown events as text: either every event, when
  the whole render fits its limit, or the selected packets, whose costs were certified as bounds on
  their rendering before the selection.  The result store retains the ledger for thirty minutes and answers expansion
  requests through issued references.

  \<^bold>\<open>Theories and sources.\<close>
  \<^item> \<open>Prelude\<close>: bytes, checked arithmetic, results and early return, \<open>BTreeMap\<close> with the interface
    \<open>ordered_map\<close>, binary search, list lemmas.
  \<^item> \<open>Select_Types\<close>, \<open>Select_Problem\<close> (\<open>evidentrail-select/src/types.rs\<close>, \<open>problem.rs\<close>): facets, packets, the
    construction of a canonical problem, the fixed-point objective, density greedy, best single, the
    selection decision and its variants with priorities and with an external order.  \<open>Select_Objective\<close>,
    \<open>Select_Construction\<close>, \<open>Select_Plan\<close>, \<open>Select_Greedy\<close>, \<open>Select_Decision\<close> hold their lemmas;
    \<open>Select_Interface\<close> states what every selector promises to the renderer.
  \<^item> \<open>Schema\<close>, \<open>Acquisition\<close> (\<open>evidentrail-schema/src\<close>): lanes, records, envelopes, attestations, fetch
    completions, acquisition receipts.
  \<^item> \<open>Hash\<close>, \<open>Transformation\<close>, \<open>Ledger\<close> (\<open>evidentrail-core/src/hash.rs\<close>, \<open>transformation.rs\<close>, \<open>ack.rs\<close>,
    \<open>ledger.rs\<close>): identities, splice receipts, acknowledgements, the builder as a state transformer, the
    sealed ledger with its lookups, windows, projections and checked export.  \<open>Ledger_Invariant\<close>,
    \<open>Ledger_Sealed\<close>, \<open>Ledger_Stream\<close>: the builder invariant, the sealed index, the acceptance of streams.
  \<^item> \<open>Block\<close>, \<open>Block_Partition\<close> (\<open>evidentrail-core/src/block.rs\<close>): reconciliation of block proposals.
  \<^item> \<open>Classify\<close>, \<open>Framing\<close>, \<open>Framing_Partition\<close> (\<open>evidentrail-framing/src\<close>): line recognizers and the scan.
  \<^item> \<open>Query\<close>, \<open>Query_Spec\<close>, \<open>Lexical\<close>, \<open>Lexical_Spec\<close>, \<open>Lexical_Decision\<close> (\<open>evidentrail-candidates/src/query.rs\<close>,
    \<open>lexical.rs\<close>, \<open>types.rs\<close>): question preprocessing and the lexical lane with their references.
  \<^item> \<open>Coverage_Types\<close>, \<open>Coverage\<close>, \<open>Coverage_Lane\<close> (\<open>coverage_types.rs\<close>, \<open>coverage.rs\<close>): the failure and coverage
    lane: the scan for failure and onset signals, the emitter with its output caps, the four annotation
    passes and the decision.  \<open>Coverage_Keys\<close>, \<open>Coverage_Scan\<close>, \<open>Coverage_Emit\<close>, \<open>Coverage_Passes\<close>,
    \<open>Coverage_Risk\<close>, \<open>Coverage_Output\<close> hold what keys, scan and passes establish and how much they can emit,
    \<open>Coverage_Decision\<close> the reference the decision is judged by.
  \<^item> \<open>Presentation\<close> (\<open>evidentrail-core/src/coverage.rs\<close>, \<open>passthrough.rs\<close>, \<open>result_status.rs\<close>),
    \<open>Retained\<close> (\<open>reference.rs\<close>, \<open>expansion.rs\<close>), \<open>Store\<close>, \<open>Store_Invariant\<close> (\<open>evidentrail-store/src/memory.rs\<close>).
  \<^item> \<open>Evidence_Text\<close>, \<open>Evidence_Passthrough\<close> (\<open>evidentrail-evidence/src/lib.rs\<close>), \<open>Evidence_Render\<close>, \<open>Evidence_Compiled\<close>
    (\<open>compiled.rs\<close>), \<open>Evidence_Cost\<close> (\<open>compiled_cost.rs\<close>): the byte escape, the bounded text and the renderers,
    the two briefs and the certification of costs.  A renderer is described by the text it writes
    (\<open>writes\<close>).  \<open>Evidence_Passthrough_Spec\<close> and \<open>Evidence_Compiled_Spec\<close> hold the specifications.

  \<^bold>\<open>How the model corresponds to the code.\<close>  A struct is a record, an enum a datatype, a method that
  changes \<open>self\<close> returns the new state beside its result, \<open>?\<close> is \<open>rbind\<close>, a loop that may return early
  is \<open>rfold\<close>, a \<open>BTreeMap\<close> the ordered list of its entries.  An integer is a natural number (\<open>i128\<close> an
  integer) with the bound of its width written out where an operation can leave it; \<open>usize\<close> is 64 bits
  wide.  \<open>expect\<close> and indexing are error values whose unreachability is part of the properties.  SHA-256,
  the authorization policy and a tokenizer other than the byte tokenizer are parameters: no property
  assumes that SHA-256 is injective, and where a collision matters it is a hypothesis or an outcome.  \<open>fits\<close> says that no record exceeds the size that
  a Rust allocation can have.  All functions are total: the loops recurse on a list or carry a
  termination measure (\<open>density_greedy_loop\<close>, \<open>extend_block\<close>, \<open>frame_lane_from\<close>, \<open>bisect\<close>), so no fuel
  is used.  Interfaces are locales: \<open>ordered_map\<close> (maps), \<open>position_index\<close> (the indexes of builder, ledger
  and blocks), \<open>coverage_objective\<close> (the selector's objective), \<open>best_scan\<close> (its candidate scans),
  \<open>selector\<close> (the contract the compiled brief relies on, for all three selectors) and \<open>growing_state\<close> (the passes of
  the coverage lane, which only add to what was emitted), each interpreted on the model's own definitions.

  \<^bold>\<open>What is shown.\<close>
  \<^item> \<open>Select_Properties\<close> (C1--C5, C7--C11): construction establishes the problem invariant, independently of input
    order; selection never fails on a constructed problem; accounting is exact and within budget and
    quota; membership, gain, maximality, comparison with the best single packet, submodularity of the
    objective; external orders; priorities accepted and applied exactly as the caller gives them.
  \<^item> \<open>Ledger_Properties\<close> (C13--C20, C22, C23, C25): the builder invariant, atomic failure, verifying acknowledgements,
    acceptance of in-order streams under an exact policy, sealing, what a completion may claim of a
    stream, export, exact bytes, windows, projections, and the builder state after a receipt collision.
  \<^item> \<open>Core_Properties\<close> (C24, C27): acquisition receipts and transformation receipts.
  \<^item> \<open>Framing_Properties\<close> (C28--C31): reconciliation accepts exactly the partitions, lookups never
    panic, framing yields bounded runs, terminates and is local to a lane.
  \<^item> \<open>Candidate_Properties\<close> (C12, C32): preprocessing and the lexical lane equal their references; no
    overflow, error or panic is reachable.
  \<^item> \<open>Coverage_Properties\<close> (C21): the coverage lane returns a justified decision: a cap that is exceeded, two
    roles with one facet identity (a collision of the hash, since keys are injective), or one annotation
    per block with every required signal, boundary and sentinel.  The sentinel cap cannot be reached.
  \<^item> \<open>Result_Properties\<close> (C34--C40): exhaustive presentation receipts, result states that are bound to
    their ledger and honest about it, references,
    bounded expansion, the store invariant, expiry, and the retention round trip.
  \<^item> \<open>Evidence_Properties\<close> (C6, C26, C33): a certified brief shows exactly the selected events within the
    bound its packets were priced at; the escape is canonical; the passthrough brief is exact.

  \<^bold>\<open>Not modelled.\<close>  Code strings, \<open>Debug\<close> and \<open>Display\<close> implementations.  The provider lane and the
  three-lane compiler (the next components), and the agent view of the compiled brief.  The
  durable and encrypted stores and their formats,
  the wire documents, ingestion and local files, the product and the command line: they depend on the
  operating system, on the network or on libraries outside the sources.  The corpora and benchmark
  harnesses are not part of the product.
\<close>

end
